(* ===== verification/JS_Base.thy ===== *)
theory JS_Base
  imports Main "HOL-Library.Sublist"
begin

text \<open>
  Prelude of the development: the JavaScript strings, values and objects that the
  TrustClaw sources use, and the lemmas every component shares.

  A string is the list of the bytes of its UTF-8 encoding, so that literals can be
  written; concatenation, equality, search, splitting at an ASCII character and
  trimming agree with JavaScript's UTF-16 strings, and a length that the code
  compares is taken by \<open>js_length\<close>, which counts UTF-16 units.  A number is an exact
  rational or one of the special values (no rounding, no negative zero).  A plain
  object or a \<open>Map\<close> is an association list in insertion order.
\<close>

named_theorems kv_simps \<open>lookup after an update of an association list\<close>
named_theorems trim_simps \<open>facts on trimmed strings\<close>

subsection \<open>Trimming: String.prototype.trim\<close>

text \<open>The white space and line terminator code points, each as its UTF-8 bytes.\<close>

definition ws_tokens :: "string list" where
  "ws_tokens =
     [[CHR 0x20], [CHR 0x09], [CHR 0x0A], [CHR 0x0D], [CHR 0x0B], [CHR 0x0C],
      [CHR 0xC2, CHR 0xA0], [CHR 0xE1, CHR 0x9A, CHR 0x80],
      [CHR 0xE2, CHR 0x80, CHR 0x80], [CHR 0xE2, CHR 0x80, CHR 0x81],
      [CHR 0xE2, CHR 0x80, CHR 0x82], [CHR 0xE2, CHR 0x80, CHR 0x83],
      [CHR 0xE2, CHR 0x80, CHR 0x84], [CHR 0xE2, CHR 0x80, CHR 0x85],
      [CHR 0xE2, CHR 0x80, CHR 0x86], [CHR 0xE2, CHR 0x80, CHR 0x87],
      [CHR 0xE2, CHR 0x80, CHR 0x88], [CHR 0xE2, CHR 0x80, CHR 0x89],
      [CHR 0xE2, CHR 0x80, CHR 0x8A], [CHR 0xE2, CHR 0x80, CHR 0xA8],
      [CHR 0xE2, CHR 0x80, CHR 0xA9], [CHR 0xE2, CHR 0x80, CHR 0xAF],
      [CHR 0xE2, CHR 0x81, CHR 0x9F], [CHR 0xE3, CHR 0x80, CHR 0x80],
      [CHR 0xEF, CHR 0xBB, CHR 0xBF]]"

text \<open>\<open>strip toks s\<close> removes tokens from the front of \<open>s\<close> as long as one matches.\<close>

definition first_tok :: "'a list list \<Rightarrow> 'a list \<Rightarrow> 'a list option" where
  "first_tok toks s = find (\<lambda>w. w \<noteq> [] \<and> take (length w) s = w) toks"

lemma first_tok_Some:
  "first_tok toks s = Some w \<Longrightarrow> w \<in> set toks \<and> w \<noteq> [] \<and> prefix w s"
  by (auto simp: first_tok_def find_Some_iff in_set_conv_nth prefix_def)
     (metis append_take_drop_id)+

lemma first_tok_None:
  "first_tok toks s = None \<longleftrightarrow> (\<forall>w\<in>set toks. w = [] \<or> \<not> prefix w s)"
  by (auto simp: first_tok_def find_None_iff prefix_def) (metis append_take_drop_id)

function strip :: "'a list list \<Rightarrow> 'a list \<Rightarrow> 'a list" where
  "strip toks s = (case first_tok toks s of None \<Rightarrow> s | Some w \<Rightarrow> strip toks (drop (length w) s))"
  by pat_completeness auto
termination
proof (relation "measure (\<lambda>(_, s). length s)")
  fix toks :: "'a list list" and s w
  assume "first_tok toks s = Some w"
  then have "w \<noteq> []" and "prefix w s" by (auto dest: first_tok_Some)
  then show "((toks, drop (length w) s), (toks, s)) \<in> measure (\<lambda>(_, s). length s)"
    by (auto simp: prefix_def)
qed simp

declare strip.simps [simp del]

lemma strip_id: "first_tok toks s = None \<Longrightarrow> strip toks s = s"
  by (subst strip.simps) simp

lemma strip_stops: "first_tok toks (strip toks s) = None"
proof (induction toks s rule: strip.induct)
  case (1 toks s)
  then show ?case by (subst strip.simps) (simp split: option.split)
qed

lemma strip_idem: "strip toks (strip toks s) = strip toks s"
  by (rule strip_id) (rule strip_stops)

lemma strip_suffix: "suffix (strip toks s) s"
proof (induction toks s rule: strip.induct)
  case (1 toks s)
  then show ?case
    by (subst strip.simps)
       (auto split: option.split intro: suffix_order.trans suffix_drop)
qed

lemma strip_prefix_closed:
  "first_tok toks s = None \<Longrightarrow> prefix p s \<Longrightarrow> first_tok toks p = None"
  by (auto simp: first_tok_None dest: prefix_order.trans)

definition trim_start :: "string \<Rightarrow> string" where
  "trim_start s = strip ws_tokens s"

definition trim_end :: "string \<Rightarrow> string" where
  "trim_end s = rev (strip (map rev ws_tokens) (rev s))"

definition trim :: "string \<Rightarrow> string" where
  "trim s = trim_end (trim_start s)"

lemma trim_end_prefix: "prefix (trim_end s) s"
  by (metis rev_rev_ident strip_suffix suffix_to_prefix trim_end_def)

lemma trim_end_idem: "trim_end (trim_end s) = trim_end s"
  by (simp add: trim_end_def strip_idem)

lemma trim_start_trim_end: "trim_start (trim_end (trim_start s)) = trim_end (trim_start s)"
  unfolding trim_start_def
  by (rule strip_id) (rule strip_prefix_closed [OF strip_stops trim_end_prefix])

lemma trim_trim [simp, trim_simps]: "trim (trim s) = trim s"
  by (simp add: trim_def trim_start_trim_end trim_end_idem)

lemma trim_Nil [simp, trim_simps]: "trim [] = []"
  by (simp add: trim_def trim_start_def trim_end_def strip.simps first_tok_def
      ws_tokens_def)

lemma trim_length: "length (trim s) \<le> length s"
  using strip_suffix [of ws_tokens s] trim_end_prefix [of "trim_start s"]
  by (auto simp: trim_def trim_start_def dest!: suffix_length_le prefix_length_le)

text \<open>The \<open>x?.trim() || undefined\<close> idiom: the trimmed text unless it is empty.\<close>

definition trim_opt :: "string option \<Rightarrow> string option" where
  "trim_opt x = (case x of None \<Rightarrow> None
                 | Some s \<Rightarrow> if trim s = [] then None else Some (trim s))"

lemma trim_opt_trim [simp, trim_simps]: "trim_opt (Some (trim s)) = trim_opt (Some s)"
  by (simp add: trim_opt_def)

lemma trim_opt_Some: "trim_opt x = Some t \<Longrightarrow> trim t = t \<and> t \<noteq> []"
  by (auto simp: trim_opt_def split: option.splits if_splits)

subsection \<open>Other string operations\<close>

definition chr_in :: "char \<Rightarrow> nat \<Rightarrow> nat \<Rightarrow> bool" where
  "chr_in c lo hi \<longleftrightarrow> lo \<le> of_char c \<and> of_char c \<le> hi"

text \<open>\<open>toLowerCase\<close> and \<open>toUpperCase\<close> on ASCII letters; other characters are unchanged.\<close>

definition lower_char :: "char \<Rightarrow> char" where
  "lower_char c = (if chr_in c 65 90 then char_of (of_char c + 32 :: nat) else c)"

definition upper_char :: "char \<Rightarrow> char" where
  "upper_char c = (if chr_in c 97 122 then char_of (of_char c - 32 :: nat) else c)"

definition to_lower :: "string \<Rightarrow> string" where
  "to_lower s = map lower_char s"

definition to_upper :: "string \<Rightarrow> string" where
  "to_upper s = map upper_char s"

text \<open>\<open>s.startsWith(p)\<close>, \<open>s.js_includes(n)\<close>, \<open>s.split(c)\<close> and \<open>xs.join(sep)\<close>.\<close>

definition starts_with :: "'a list \<Rightarrow> 'a list \<Rightarrow> bool" where
  "starts_with s p \<longleftrightarrow> take (length p) s = p"

fun js_includes :: "'a list \<Rightarrow> 'a list \<Rightarrow> bool" where
  "js_includes [] n = (n = [])"
| "js_includes (c # s) n = (starts_with (c # s) n \<or> js_includes s n)"

fun split_on :: "'a \<Rightarrow> 'a list \<Rightarrow> 'a list list" where
  "split_on d [] = [[]]"
| "split_on d (c # s) =
     (if c = d then [] # split_on d s
      else (case split_on d s of [] \<Rightarrow> [[c]] | w # ws \<Rightarrow> (c # w) # ws))"

fun join :: "'a list \<Rightarrow> 'a list list \<Rightarrow> 'a list" where
  "join sep [] = []"
| "join sep [w] = w"
| "join sep (w # v # ws) = w @ sep @ join sep (v # ws)"

lemma starts_with_prefix: "starts_with s p \<longleftrightarrow> prefix p s"
  by (metis append_eq_conv_conj prefix_def starts_with_def)

lemma js_includes_iff: "js_includes s n \<longleftrightarrow> (\<exists>a b. s = a @ n @ b)"
proof (induction s)
  case Nil
  then show ?case by simp
next
  case (Cons c s)
  have "(\<exists>a b. c # s = a @ n @ b) \<longleftrightarrow> prefix n (c # s) \<or> (\<exists>a b. s = a @ n @ b)"
    by (auto simp: prefix_def Cons_eq_append_conv)
  with Cons show ?case by (simp add: starts_with_prefix)
qed

lemma js_includes_single: "js_includes s [d] \<longleftrightarrow> d \<in> set s"
  by (auto simp: js_includes_iff in_set_conv_decomp)

lemma split_on_not_Nil [simp]: "split_on d s \<noteq> []"
  by (induction s) (auto split: list.splits)

lemma split_on_no_delim: "w \<in> set (split_on d s) \<Longrightarrow> d \<notin> set w"
proof (induction s arbitrary: w)
  case Nil
  then show ?case by simp
next
  case (Cons c s)
  show ?case
  proof (cases "split_on d s")
    case Nil
    then show ?thesis by simp
  next
    case (Cons v vs)
    with Cons.prems Cons.IH [of w] Cons.IH [of v] show ?thesis
      by (auto split: if_splits)
  qed
qed

lemma split_on_absent: "d \<notin> set s \<Longrightarrow> split_on d s = [s]"
  by (induction s) auto

lemma split_on_append: "split_on d (a @ d # b) = split_on d a @ split_on d b"
proof (induction a)
  case (Cons c a)
  then show ?case by (cases "split_on d a") auto
qed simp

lemma join_split: "join [d] (split_on d s) = s"
proof (induction s)
  case Nil
  then show ?case by simp
next
  case (Cons c s)
  obtain v vs where v: "split_on d s = v # vs" by (cases "split_on d s") auto
  with Cons show ?case by (cases vs) auto
qed

lemma split_on_join:
  "ws \<noteq> [] \<Longrightarrow> list_all (\<lambda>w. d \<notin> set w) ws \<Longrightarrow> split_on d (join [d] ws) = ws"
proof (induction ws rule: induct_list012)
  case 1
  then show ?case by simp
next
  case (2 w)
  then show ?case by (simp add: split_on_absent)
next
  case (3 w v ws)
  then show ?case by (simp add: split_on_append split_on_absent)
qed

text \<open>
  \<open>s.length\<close> counts UTF-16 units: one for each byte that is not a continuation byte,
  and one more for the lead byte of a code point above U+FFFF.
\<close>

definition js_length :: "string \<Rightarrow> nat" where
  "js_length s =
     sum_list (map (\<lambda>c. if chr_in c 128 191 then 0 else if chr_in c 240 255 then 2 else 1) s)"

text \<open>The regular expression classes \<open>\w\<close> and \<open>[a-zA-Z_]\<close>, and the ASCII digits.\<close>

definition is_digit :: "char \<Rightarrow> bool" where
  "is_digit c \<longleftrightarrow> chr_in c 48 57"

definition is_alpha :: "char \<Rightarrow> bool" where
  "is_alpha c \<longleftrightarrow> chr_in c 65 90 \<or> chr_in c 97 122"

definition is_word :: "char \<Rightarrow> bool" where
  "is_word c \<longleftrightarrow> is_alpha c \<or> is_digit c \<or> c = CHR ''_''"

text \<open>Text given by its UTF-8 bytes, for the literals that are not ASCII.\<close>

definition utf8 :: "nat list \<Rightarrow> string" where
  "utf8 bs = map char_of bs"

subsection \<open>Plain objects and Maps: association lists in insertion order\<close>

type_synonym 'v obj = "(string \<times> 'v) list"

definition obj_get :: "'v obj \<Rightarrow> string \<Rightarrow> 'v option" where
  "obj_get m k = map_of m k"

fun obj_set :: "'v obj \<Rightarrow> string \<Rightarrow> 'v \<Rightarrow> 'v obj" where
  "obj_set [] k v = [(k, v)]"
| "obj_set ((j, w) # m) k v = (if j = k then (k, v) # m else (j, w) # obj_set m k v)"

definition obj_del :: "'v obj \<Rightarrow> string \<Rightarrow> 'v obj" where
  "obj_del m k = filter (\<lambda>(j, _). j \<noteq> k) m"

definition obj_keys :: "'v obj \<Rightarrow> string list" where
  "obj_keys m = map fst m"

text \<open>
  The interface the stores and registries rely on: a keyed store whose lookups see the
  last write, and whose invariant (no key twice) every operation keeps.
\<close>

locale keyed_store =
  fixes get :: "'m \<Rightarrow> 'k \<Rightarrow> 'v option"
    and set_key :: "'m \<Rightarrow> 'k \<Rightarrow> 'v \<Rightarrow> 'm"
    and del_key :: "'m \<Rightarrow> 'k \<Rightarrow> 'm"
    and ok :: "'m \<Rightarrow> bool"
  assumes get_set: "get (set_key m k v) j = (if j = k then Some v else get m j)"
    and get_del: "get (del_key m k) j = (if j = k then None else get m j)"
    and ok_set: "ok m \<Longrightarrow> ok (set_key m k v)"
    and ok_del: "ok m \<Longrightarrow> ok (del_key m k)"
begin

lemma get_set_same: "get (set_key m k v) k = Some v"
  by (simp add: get_set)

lemma get_set_other: "j \<noteq> k \<Longrightarrow> get (set_key m k v) j = get m j"
  by (simp add: get_set)

lemma get_del_same: "get (del_key m k) k = None"
  by (simp add: get_del)

lemma get_fold_set:
  "get (fold (\<lambda>x m. set_key m (f x) (g x)) xs m) j =
     (case find (\<lambda>x. f x = j) (rev xs) of None \<Rightarrow> get m j | Some x \<Rightarrow> Some (g x))"
proof (induction xs rule: rev_induct)
  case Nil
  then show ?case by simp
next
  case (snoc x xs)
  then show ?case by (simp add: get_set)
qed

lemma ok_fold_set: "ok m \<Longrightarrow> ok (fold (\<lambda>x m. set_key m (f x) (g x)) xs m)"
  by (induction xs arbitrary: m) (auto intro: ok_set)

end

lemma obj_get_set [kv_simps]:
  "obj_get (obj_set m k v) j = (if j = k then Some v else obj_get m j)"
  by (induction m k v rule: obj_set.induct) (auto simp: obj_get_def)

lemma obj_get_del [kv_simps]:
  "obj_get (obj_del m k) j = (if j = k then None else obj_get m j)"
  by (induction m) (auto simp: obj_get_def obj_del_def)

lemma obj_set_keys: "set (obj_keys (obj_set m k v)) = insert k (set (obj_keys m))"
  by (induction m k v rule: obj_set.induct) (auto simp: obj_keys_def)

lemma obj_set_distinct: "distinct (obj_keys m) \<Longrightarrow> distinct (obj_keys (obj_set m k v))"
proof (induction m k v rule: obj_set.induct)
  case (1 k v)
  then show ?case by (simp add: obj_keys_def)
next
  case (2 j w m k v)
  then show ?case
    using obj_set_keys [of m k v] by (auto simp: obj_keys_def)
qed

lemma obj_del_distinct: "distinct (obj_keys m) \<Longrightarrow> distinct (obj_keys (obj_del m k))"
  by (induction m) (auto simp: obj_keys_def obj_del_def)

lemma obj_get_keys: "obj_get m k \<noteq> None \<longleftrightarrow> k \<in> set (obj_keys m)"
  by (induction m) (auto simp: obj_get_def obj_keys_def)

text \<open>\<open>{...a, ...b}\<close>: the keys of \<open>b\<close> are written over a copy of \<open>a\<close>.\<close>

definition obj_spread :: "'v obj \<Rightarrow> 'v obj \<Rightarrow> 'v obj" where
  "obj_spread a b = foldl (\<lambda>m (k, v). obj_set m k v) a b"

interpretation js_obj: keyed_store obj_get obj_set obj_del "\<lambda>m. distinct (obj_keys m)"
  by unfold_locales (auto simp: kv_simps intro: obj_set_distinct obj_del_distinct)

lemma obj_get_spread [kv_simps]:
  "distinct (obj_keys b) \<Longrightarrow>
     obj_get (obj_spread a b) k = (case obj_get b k of Some v \<Rightarrow> Some v | None \<Rightarrow> obj_get a k)"
proof (induction b arbitrary: a)
  case Nil
  then show ?case by (simp add: obj_spread_def obj_get_def)
next
  case (Cons x b)
  obtain j v where x: "x = (j, v)" by force
  have "obj_get b j = None"
    using Cons.prems obj_get_keys [of b j] by (auto simp: x obj_keys_def)
  moreover have "obj_get (obj_spread (obj_set a j v) b) k =
      (case obj_get b k of Some v \<Rightarrow> Some v | None \<Rightarrow> obj_get (obj_set a j v) k)"
    using Cons.prems by (intro Cons.IH) (simp add: obj_keys_def)
  ultimately show ?case
    using obj_get_set [of a j v k]
    by (auto simp: x obj_spread_def obj_get_def split: option.splits if_splits)
qed

end
