(* ===== verification/JS_Value.thy ===== *)
theory JS_Value
  imports JS_Base Complex_Main
begin

text \<open>
  JavaScript values and the conversions of the language that the rule engines and the
  hashes use: \<open>Number(x)\<close>, \<open>String(x)\<close>, \<open>===\<close>, \<open>Number.parseInt\<close> and \<open>JSON.stringify\<close>.
  The last part proves that a JSON string literal can be read back from any position,
  which is what makes the hashed payloads unambiguous.
\<close>

datatype num64 = Fin rat | PosInf | NegInf | NaN

datatype jval =
    JUndef
  | JNull
  | JBool bool
  | JNum num64
  | JStr string
  | JArr "jval list"
  | JObj "(string \<times> jval) list"

abbreviation JInt :: "int \<Rightarrow> jval" where
  "JInt i \<equiv> JNum (Fin (of_int i))"

subsection \<open>Decimal text\<close>

definition digit_char :: "nat \<Rightarrow> char" where
  "digit_char d = char_of (if d < 10 then 48 + d else 87 + d)"

definition digit_val :: "char \<Rightarrow> nat" where
  "digit_val c =
     (if is_digit c then of_char c - 48
      else if chr_in c 97 122 then of_char c - 87
      else if chr_in c 65 90 then of_char c - 55 else 99)"

fun show_nat :: "nat \<Rightarrow> string" where
  "show_nat n =
     (if n < 10 then [digit_char n] else show_nat (n div 10) @ [digit_char (n mod 10)])"

declare show_nat.simps [simp del]

definition show_int :: "int \<Rightarrow> string" where
  "show_int i = (if i < 0 then CHR ''-'' # show_nat (nat (- i)) else show_nat (nat i))"

definition digits_val :: "nat \<Rightarrow> string \<Rightarrow> nat" where
  "digits_val radix ds = foldl (\<lambda>n c. n * radix + digit_val c) 0 ds"

fun frac_digits :: "nat \<Rightarrow> rat \<Rightarrow> string" where
  "frac_digits 0 r = []"
| "frac_digits (Suc k) r =
     (if r = 0 then []
      else digit_char (nat \<lfloor>10 * r\<rfloor>) # frac_digits k (10 * r - of_int \<lfloor>10 * r\<rfloor>))"

text \<open>\<open>String(n)\<close>: the exact decimal expansion, up to 17 fractional digits.\<close>

definition num_to_string :: "num64 \<Rightarrow> string" where
  "num_to_string n =
     (case n of
        PosInf \<Rightarrow> ''Infinity''
      | NegInf \<Rightarrow> ''-Infinity''
      | NaN \<Rightarrow> ''NaN''
      | Fin q \<Rightarrow>
          (let a = \<bar>q\<bar>; ip = \<lfloor>a\<rfloor>; fs = frac_digits 17 (a - of_int ip)
           in (if q < 0 then ''-'' else []) @ show_nat (nat ip) @
              (if fs = [] then [] else CHR ''.'' # fs)))"

text \<open>\<open>Number(s)\<close> on a string: blank is 0, then radix literals, then a decimal literal.\<close>

definition read_sign :: "string \<Rightarrow> bool \<times> string" where
  "read_sign s =
     (case s of [] \<Rightarrow> (False, [])
      | c # t \<Rightarrow> if c = CHR ''-'' then (True, t) else if c = CHR ''+'' then (False, t)
                 else (False, s))"

definition read_exponent :: "string \<Rightarrow> int option" where
  "read_exponent s =
     (case s of [] \<Rightarrow> Some 0
      | c # t \<Rightarrow>
          if c \<noteq> CHR ''e'' \<and> c \<noteq> CHR ''E'' then None
          else (case read_sign t of (neg, ds) \<Rightarrow>
            if ds = [] \<or> \<not> list_all is_digit ds then None
            else Some (if neg then - int (digits_val 10 ds) else int (digits_val 10 ds))))"

definition scale10 :: "rat \<Rightarrow> int \<Rightarrow> rat" where
  "scale10 m e = (if e < 0 then m / 10 ^ nat (- e) else m * 10 ^ nat e)"

definition read_decimal :: "string \<Rightarrow> rat option" where
  "read_decimal s =
     (case read_sign s of (neg, s1) \<Rightarrow>
       let ip = takeWhile is_digit s1; r1 = dropWhile is_digit s1;
           dot = (r1 \<noteq> [] \<and> hd r1 = CHR ''.'');
           fp = (if dot then takeWhile is_digit (tl r1) else []);
           r2 = (if dot then dropWhile is_digit (tl r1) else r1);
           m = of_nat (digits_val 10 (ip @ fp)) / 10 ^ length fp
       in if ip = [] \<and> fp = [] then None
          else map_option (\<lambda>e. scale10 (if neg then - m else m) e) (read_exponent r2))"

definition read_radix :: "string \<Rightarrow> nat option" where
  "read_radix s =
     (case s of
        z # x # ds \<Rightarrow>
          (let r = (if z \<noteq> CHR ''0'' then 0
                    else if x = CHR ''x'' \<or> x = CHR ''X'' then 16
                    else if x = CHR ''o'' \<or> x = CHR ''O'' then 8
                    else if x = CHR ''b'' \<or> x = CHR ''B'' then 2 else 0)
           in if r = 0 \<or> ds = [] \<or> \<not> list_all (\<lambda>c. digit_val c < r) ds then None
              else Some (digits_val r ds))
      | _ \<Rightarrow> None)"

definition string_to_number :: "string \<Rightarrow> num64" where
  "string_to_number s =
     (let t = trim s in
      if t = [] then Fin 0
      else if t = ''Infinity'' \<or> t = ''+Infinity'' then PosInf
      else if t = ''-Infinity'' then NegInf
      else (case read_radix t of
              Some n \<Rightarrow> Fin (of_nat n)
            | None \<Rightarrow> (case read_decimal t of Some q \<Rightarrow> Fin q | None \<Rightarrow> NaN)))"

text \<open>\<open>Number.parseInt(s, 10)\<close>: the longest leading integer, \<open>None\<close> for NaN.\<close>

definition parse_int :: "string \<Rightarrow> int option" where
  "parse_int s =
     (case read_sign (trim_start s) of (neg, t) \<Rightarrow>
       let ds = takeWhile is_digit t in
       if ds = [] then None
       else Some (if neg then - int (digits_val 10 ds) else int (digits_val 10 ds)))"

subsection \<open>Conversions and comparisons\<close>

fun js_to_string :: "jval \<Rightarrow> string" where
  "js_to_string JUndef = ''undefined''"
| "js_to_string JNull = ''null''"
| "js_to_string (JBool b) = (if b then ''true'' else ''false'')"
| "js_to_string (JNum n) = num_to_string n"
| "js_to_string (JStr s) = s"
| "js_to_string (JArr xs) =
     join '','' (map (\<lambda>x. if x = JUndef \<or> x = JNull then [] else js_to_string x) xs)"
| "js_to_string (JObj _) = ''[object Object]''"

definition js_to_number :: "jval \<Rightarrow> num64" where
  "js_to_number v =
     (case v of
        JUndef \<Rightarrow> NaN
      | JNull \<Rightarrow> Fin 0
      | JBool b \<Rightarrow> Fin (if b then 1 else 0)
      | JNum n \<Rightarrow> n
      | JStr s \<Rightarrow> string_to_number s
      | JArr xs \<Rightarrow> string_to_number (js_to_string (JArr xs))
      | JObj _ \<Rightarrow> NaN)"

text \<open>\<open>===\<close>; two objects read from different places are never the same object.\<close>

fun strict_eq :: "jval \<Rightarrow> jval \<Rightarrow> bool" where
  "strict_eq JUndef JUndef = True"
| "strict_eq JNull JNull = True"
| "strict_eq (JBool a) (JBool b) = (a = b)"
| "strict_eq (JNum a) (JNum b) = (a = b \<and> a \<noteq> NaN)"
| "strict_eq (JStr a) (JStr b) = (a = b)"
| "strict_eq _ _ = False"

fun truthy :: "jval \<Rightarrow> bool" where
  "truthy JUndef = False"
| "truthy JNull = False"
| "truthy (JBool b) = b"
| "truthy (JNum n) = (n \<noteq> NaN \<and> n \<noteq> Fin 0)"
| "truthy (JStr s) = (s \<noteq> [])"
| "truthy (JArr _) = True"
| "truthy (JObj _) = True"

definition nullish :: "jval \<Rightarrow> bool" where
  "nullish v \<longleftrightarrow> v = JUndef \<or> v = JNull"

text \<open>\<open>v.key\<close> on an own property of a value, \<open>undefined\<close> where there is none.\<close>

definition own_prop :: "jval \<Rightarrow> string \<Rightarrow> jval" where
  "own_prop v k = (case v of
     JObj m \<Rightarrow> (case map_of m k of Some w \<Rightarrow> w | None \<Rightarrow> JUndef) | _ \<Rightarrow> JUndef)"

text \<open>\<open>x ?? null\<close> on an optional string.\<close>

definition nullable_str :: "string option \<Rightarrow> jval" where
  "nullable_str x = (case x of None \<Rightarrow> JNull | Some s \<Rightarrow> JStr s)"

subsection \<open>JSON.stringify\<close>

definition json_esc :: "char \<Rightarrow> string" where
  "json_esc c =
     (if c = CHR 0x22 then [CHR 0x5C, CHR 0x22]
      else if c = CHR 0x5C then [CHR 0x5C, CHR 0x5C]
      else if c = CHR 0x08 then [CHR 0x5C, CHR ''b'']
      else if c = CHR 0x0C then [CHR 0x5C, CHR ''f'']
      else if c = CHR 0x0A then [CHR 0x5C, CHR ''n'']
      else if c = CHR 0x0D then [CHR 0x5C, CHR ''r'']
      else if c = CHR 0x09 then [CHR 0x5C, CHR ''t'']
      else if of_char c < (32 :: nat)
        then [CHR 0x5C, CHR ''u'', CHR ''0'', CHR ''0'',
              digit_char (of_char c div 16), digit_char (of_char c mod 16)]
      else [c])"

definition json_quote :: "string \<Rightarrow> string" where
  "json_quote s = CHR 0x22 # concat (map json_esc s) @ [CHR 0x22]"

fun json_stringify :: "jval \<Rightarrow> string" where
  "json_stringify JUndef = ''null''"
| "json_stringify JNull = ''null''"
| "json_stringify (JBool b) = (if b then ''true'' else ''false'')"
| "json_stringify (JNum n) = (case n of Fin _ \<Rightarrow> num_to_string n | _ \<Rightarrow> ''null'')"
| "json_stringify (JStr s) = json_quote s"
| "json_stringify (JArr xs) = ''['' @ join '','' (map json_stringify xs) @ '']''"
| "json_stringify (JObj m) =
     ''{'' @ join '','' (map (\<lambda>(k, v). json_quote k @ '':'' @ json_stringify v)
                           (filter (\<lambda>(_, v). v \<noteq> JUndef) m)) @ ''}''"

text \<open>
  A string literal is self-delimiting: where two texts that start with literals agree,
  the strings agree and so does what follows.
\<close>

lemma digit_char_inj: "digit_char a = digit_char b \<Longrightarrow> a < 16 \<Longrightarrow> b < 16 \<Longrightarrow> a = b"
  by (simp add: digit_char_def split: if_splits)

lemma json_esc_plain:
  "json_esc c = [c] \<and> c \<noteq> CHR 0x5C \<and> c \<noteq> CHR 0x22 \<or> (\<exists>w. json_esc c = CHR 0x5C # w)"
  by (auto simp: json_esc_def)

lemma json_esc_quote: "json_esc c = x # w \<Longrightarrow> x \<noteq> CHR 0x22"
  using json_esc_plain [of c] by auto

lemma json_esc_control:
  assumes "json_esc c = CHR 0x5C # CHR ''u'' # w"
  shows "of_char c < (32 :: nat) \<and>
         w = [CHR ''0'', CHR ''0'', digit_char (of_char c div 16), digit_char (of_char c mod 16)]"
  using assms by (auto simp: json_esc_def split: if_splits)

lemma json_esc_short:
  assumes "json_esc c = CHR 0x5C # x # w" and "x \<noteq> CHR ''u''"
  shows "w = [] \<and> c = (if x = CHR 0x22 then CHR 0x22 else if x = CHR 0x5C then CHR 0x5C
           else if x = CHR ''b'' then CHR 0x08 else if x = CHR ''f'' then CHR 0x0C
           else if x = CHR ''n'' then CHR 0x0A else if x = CHR ''r'' then CHR 0x0D
           else CHR 0x09)"
  using assms by (auto simp: json_esc_def split: if_splits)

lemma json_esc_length: "json_esc c \<noteq> [] \<and> (hd (json_esc c) = CHR 0x5C \<longrightarrow> tl (json_esc c) \<noteq> [])"
  by (auto simp: json_esc_def)

lemma json_esc_control_inj:
  assumes "of_char c < (32 :: nat)" "of_char d < (32 :: nat)"
    and "digit_char (of_char c div 16) = digit_char (of_char d div 16)"
    and "digit_char (of_char c mod 16) = digit_char (of_char d mod 16)"
  shows "c = d"
proof -
  have "of_char c div 16 = (of_char d div 16 :: nat)"
    using assms by (intro digit_char_inj) auto
  moreover have "of_char c mod 16 = (of_char d mod 16 :: nat)"
    using assms by (intro digit_char_inj) auto
  ultimately have "of_char c = (of_char d :: nat)" by (metis div_mult_mod_eq)
  then show ?thesis by (metis char_of_char)
qed

lemma json_esc_prefix_free:
  assumes eq: "json_esc c @ r = json_esc d @ t"
  shows "c = d \<and> r = t"
proof (cases "\<exists>w. json_esc c = CHR 0x5C # w")
  case False
  then have c: "json_esc c = [c]" "c \<noteq> CHR 0x5C" using json_esc_plain [of c] by auto
  then have "json_esc d = [d]" using eq json_esc_plain [of d] by auto
  with c eq show ?thesis by simp
next
  case True
  then obtain x w where c: "json_esc c = CHR 0x5C # x # w"
    using json_esc_length [of c] by (auto simp: neq_Nil_conv)
  with eq json_esc_plain [of d] json_esc_length [of d]
  obtain v where d: "json_esc d = CHR 0x5C # x # v" by (auto simp: neq_Nil_conv)
  show ?thesis
  proof (cases "x = CHR ''u''")
    case True
    with c d eq json_esc_control [of c w] json_esc_control [of d v] show ?thesis
      by (auto intro: json_esc_control_inj)
  next
    case False
    with c d eq json_esc_short [of c x w] json_esc_short [of d x v] show ?thesis by simp
  qed
qed

lemma json_body_inj:
  "concat (map json_esc s) @ CHR 0x22 # r = concat (map json_esc t) @ CHR 0x22 # u
   \<Longrightarrow> s = t \<and> r = u"
proof (induction s arbitrary: t)
  case Nil
  show ?case
  proof (cases t)
    case (Cons d t')
    with Nil obtain w where "json_esc d = CHR 0x22 # w"
      using json_esc_length [of d] by (cases "json_esc d") auto
    then show ?thesis using json_esc_quote by blast
  qed (use Nil in simp)
next
  case (Cons c s)
  show ?case
  proof (cases t)
    case Nil
    with Cons.prems obtain w where "json_esc c = CHR 0x22 # w"
      using json_esc_length [of c] by (cases "json_esc c") auto
    then show ?thesis using json_esc_quote by blast
  next
    case (Cons d t')
    with Cons.prems have "json_esc c @ concat (map json_esc s) @ CHR 0x22 # r
        = json_esc d @ concat (map json_esc t') @ CHR 0x22 # u" by simp
    then have "c = d" and "concat (map json_esc s) @ CHR 0x22 # r
        = concat (map json_esc t') @ CHR 0x22 # u" by (auto dest: json_esc_prefix_free)
    with Cons.IH Cons show ?thesis by blast
  qed
qed

lemma json_quote_inj: "json_quote s @ r = json_quote t @ u \<longleftrightarrow> s = t \<and> r = u"
  by (auto simp: json_quote_def dest: json_body_inj)

lemma json_quote_not_null: "json_quote s @ r \<noteq> ''null'' @ u"
  by (simp add: json_quote_def)

end
