(* ===== verification/Jsonl_Log.thy ===== *)
theory Jsonl_Log
  imports JS_Value
begin

text \<open>
  Line-oriented JSON files.  A file is absent or the list of its lines; \<open>JSON.parse\<close>
  classifies a line as blank, malformed or a parsed record.  The only writers append
  whole lines ended by a newline, so an append adds one line at the end.

  The locale is the interface the evidence ledger and the audit trail share: what is
  read back after an append and after a clear.
\<close>

datatype 'a jline = Blank | Malformed | Parsed 'a

type_synonym 'a jfile = "'a jline list option"

fun parsed_lines :: "'a jline list \<Rightarrow> 'a list" where
  "parsed_lines [] = []"
| "parsed_lines (l # ls) = (case l of Parsed x \<Rightarrow> x # parsed_lines ls | _ \<Rightarrow> parsed_lines ls)"

lemma parsed_lines_append [simp]: "parsed_lines (ls @ ks) = parsed_lines ls @ parsed_lines ks"
  by (induction ls) (auto split: jline.split)

lemma parsed_lines_map_Parsed [simp]: "parsed_lines (map Parsed xs) = xs"
  by (induction xs) auto

definition file_lines :: "'a jfile \<Rightarrow> 'a jline list" where
  "file_lines f = (case f of None \<Rightarrow> [] | Some ls \<Rightarrow> ls)"

text \<open>\<open>appendFileSync\<close> creates the file when it is absent.\<close>

definition append_line :: "'a jfile \<Rightarrow> 'a \<Rightarrow> 'a jfile" where
  "append_line f x = Some (file_lines f @ [Parsed x])"

lemma file_lines_append [simp]: "file_lines (append_line f x) = file_lines f @ [Parsed x]"
  by (simp add: append_line_def file_lines_def)

locale append_log =
  fixes entries :: "'f \<Rightarrow> 'e list"
    and append_entry :: "'f \<Rightarrow> 'e \<Rightarrow> 'f"
    and clear_log :: "'f \<Rightarrow> 'f"
  assumes entries_append: "entries (append_entry f e) = entries f @ [e]"
    and entries_clear: "entries (clear_log f) = []"
begin

lemma entries_fold_append: "entries (fold (\<lambda>e f. append_entry f e) es f) = entries f @ es"
  by (induction es arbitrary: f) (auto simp: entries_append)

lemma entries_after_clear: "entries (append_entry (clear_log f) e) = [e]"
  by (simp add: entries_append entries_clear)

lemma append_keeps_prefix: "prefix (entries f) (entries (append_entry f e))"
  by (simp add: entries_append)

lemma append_member: "x \<in> set (entries (append_entry f e)) \<longleftrightarrow> x = e \<or> x \<in> set (entries f)"
  by (auto simp: entries_append)

end

end
