(* ===== verification/Tra_Paths.thy ===== *)
theory Tra_Paths
  imports JS_Value
begin

text \<open>
  Paths and plugin configuration (\<open>trustclaw/tra/paths.ts\<close>, \<open>config.ts\<close>): the POSIX
  \<open>path.resolve\<close>, \<open>path.join\<close> and the directories of the database, the audit trail and
  the evidence ledger.  The process environment is a map from names to texts; the current
  directory, the home and the temporary directory are arguments.
\<close>

subsection \<open>node:path\<close>

definition sep :: char where "sep = CHR ''/''"

definition is_absolute :: "string \<Rightarrow> bool" where
  "is_absolute p \<longleftrightarrow> starts_with p [sep]"

text \<open>One segment on a stack of the segments before it, the innermost first.\<close>

definition push_seg :: "string list \<Rightarrow> string \<Rightarrow> string list" where
  "push_seg st s =
     (if s = [] \<or> s = ''.'' then st else if s = ''..'' then tl st else s # st)"

definition norm_segs :: "string \<Rightarrow> string list" where
  "norm_segs p = rev (foldl push_seg [] (split_on sep p))"

text \<open>\<open>path.resolve\<close>: the parts from the last absolute one, with the dots removed.\<close>

definition path_resolve :: "string \<Rightarrow> string list \<Rightarrow> string" where
  "path_resolve cwd ps =
     sep # join [sep] (norm_segs (foldl (\<lambda>acc p. if is_absolute p then p else acc @ [sep] @ p) cwd ps))"

text \<open>\<open>path.join\<close> where the first part is absolute, as it is at every call of the code.\<close>

definition path_join :: "string \<Rightarrow> string list \<Rightarrow> string" where
  "path_join base ps = sep # join [sep] (norm_segs (join [sep] (base # ps)))"

definition clean_seg :: "string \<Rightarrow> bool" where
  "clean_seg s \<longleftrightarrow> s \<noteq> [] \<and> s \<noteq> ''.'' \<and> s \<noteq> ''..'' \<and> sep \<notin> set s"

lemma push_seg_clean:
  assumes "list_all clean_seg st" and "sep \<notin> set w"
  shows "list_all clean_seg (push_seg st w)"
proof -
  have "list_all clean_seg (tl st)" using assms(1) by (cases st) simp_all
  then show ?thesis using assms by (simp add: push_seg_def clean_seg_def)
qed

lemma foldl_push_seg_clean:
  "list_all clean_seg st \<Longrightarrow> list_all (\<lambda>w. sep \<notin> set w) ws \<Longrightarrow>
   list_all clean_seg (foldl push_seg st ws)"
  by (induction ws arbitrary: st) (simp_all add: push_seg_clean)

text \<open>A normalised path has no empty segment, no dot segment and no climbing segment.\<close>

lemma norm_segs_clean: "list_all clean_seg (norm_segs p)"
  using foldl_push_seg_clean [of "[]" "split_on sep p"] split_on_no_delim [of _ sep p]
  by (simp add: norm_segs_def list_all_iff)

lemma foldl_push_clean: "list_all clean_seg ws \<Longrightarrow> foldl push_seg st ws = rev ws @ st"
  by (induction ws arbitrary: st) (auto simp: push_seg_def clean_seg_def)

lemma clean_no_sep: "list_all clean_seg ws \<Longrightarrow> list_all (\<lambda>w. sep \<notin> set w) ws"
  by (auto simp: list_all_iff clean_seg_def)

text \<open>A path that \<open>resolve\<close> or \<open>join\<close> returns has exactly the segments it was built from.\<close>

lemma norm_segs_built: "list_all clean_seg ws \<Longrightarrow> norm_segs (sep # join [sep] ws) = ws"
  by (cases "ws = []")
     (simp_all add: norm_segs_def split_on_join clean_no_sep foldl_push_clean push_seg_def)

lemma built_prefix:
  assumes "list_all clean_seg as" "list_all clean_seg bs"
    and "starts_with (sep # join [sep] bs) ((sep # join [sep] as) @ [sep])"
  shows "prefix as bs"
proof (cases "as = []")
  case False
  from assms(3) obtain r where "join [sep] bs = join [sep] as @ sep # r"
    by (auto simp: starts_with_prefix prefix_def)
  then have "split_on sep (join [sep] bs) = split_on sep (join [sep] as) @ split_on sep r"
    by (simp add: split_on_append)
  with False assms have "split_on sep (join [sep] bs) = as @ split_on sep r"
    by (simp add: split_on_join clean_no_sep)
  moreover from this have "bs \<noteq> []"
    using False by (cases "bs = []") (auto simp: Cons_eq_append_conv)
  ultimately show ?thesis
    using assms by (auto simp: split_on_join clean_no_sep prefix_def)
qed simp

lemma join_snoc: "ws \<noteq> [] \<Longrightarrow> join sp (ws @ [w]) = join sp ws @ sp @ w"
  by (induction ws rule: induct_list012) simp_all

definition segs :: "string \<Rightarrow> string list" where
  "segs p = norm_segs p"

lemma segs_resolve_clean: "list_all clean_seg (segs p)"
  by (simp add: segs_def norm_segs_clean)

lemma path_resolve_built: "path_resolve cwd ps = sep # join [sep] (segs (path_resolve cwd ps))"
  by (simp add: path_resolve_def segs_def norm_segs_built norm_segs_clean)

lemma path_join_built: "path_join base ps = sep # join [sep] (segs (path_join base ps))"
  by (simp add: path_join_def segs_def norm_segs_built norm_segs_clean)

lemma norm_segs_snoc: "clean_seg w \<Longrightarrow> norm_segs (p @ sep # w) = norm_segs p @ [w]"
  by (simp add: norm_segs_def split_on_append split_on_absent clean_seg_def push_seg_def)

lemma segs_resolve_snoc:
  assumes "clean_seg w"
  shows "segs (path_resolve cwd [d, w]) = segs (path_resolve cwd [d]) @ [w]"
proof -
  have "\<not> is_absolute w"
    using assms by (cases w) (auto simp: clean_seg_def is_absolute_def starts_with_def)
  then show ?thesis
    using assms by (simp add: path_resolve_def segs_def norm_segs_built norm_segs_clean norm_segs_snoc)
qed

lemma segs_join_snoc: "clean_seg w \<Longrightarrow> segs (path_join b [w]) = segs b @ [w]"
  by (simp add: path_join_def segs_def norm_segs_built norm_segs_clean norm_segs_snoc)

subsection \<open>State directories\<close>

type_synonym process_env = "string \<Rightarrow> string option"

record host =
  h_cwd :: string
  h_home :: string
  h_tmp :: string
  h_pid :: string
  h_env :: process_env

record path_overrides =
  po_dbPath :: "string option"
  po_auditDir :: "string option"
  po_evidenceDir :: "string option"

record plugin_config =
  cfg_dbPath :: jval
  cfg_auditDir :: jval
  cfg_evidenceDir :: jval
  cfg_agentPacksDir :: jval
  cfg_defaultAgentPack :: jval

record tra_paths =
  tp_dbPath :: string
  tp_auditDir :: string
  tp_evidenceDir :: string

definition env_set :: "process_env \<Rightarrow> string \<Rightarrow> bool" where
  "env_set env k = (case env k of None \<Rightarrow> False | Some s \<Rightarrow> s \<noteq> [])"

definition resolveTrustclawRoot :: "(string \<Rightarrow> bool) \<Rightarrow> string \<Rightarrow> string" where
  "resolveTrustclawRoot existsSync moduleDir =
     (case find (\<lambda>base. existsSync (path_join base [''tra/schema/v1.1.sql'']))
             [path_resolve moduleDir [''..''],
              path_resolve moduleDir [''..'', ''..'', ''..'', ''trustclaw'']] of
        Some base \<Rightarrow> base | None \<Rightarrow> path_resolve moduleDir [''..''])"

definition resolveTraStateDir :: "host \<Rightarrow> string" where
  "resolveTraStateDir h =
     (let base = (case trim_opt (h_env h ''OPENCLAW_STATE_DIR'') of
                    Some d \<Rightarrow> path_resolve (h_cwd h) [d]
                  | None \<Rightarrow>
                      if env_set (h_env h) ''VITEST'' \<or> h_env h ''NODE_ENV'' = Some ''test''
                      then path_join (h_tmp h) [''openclaw-test-state'', h_pid h]
                      else path_join (h_home h) [''.openclaw''])
      in path_join base [''state''])"

definition resolveTraDbPath :: "path_overrides \<Rightarrow> host \<Rightarrow> string" where
  "resolveTraDbPath ov h =
     (case trim_opt (po_dbPath ov) of
        Some p \<Rightarrow> path_resolve (h_cwd h) [p]
      | None \<Rightarrow>
          (case trim_opt (h_env h ''TRUSTCLAW_TRA_DB'') of
             Some p \<Rightarrow> path_resolve (h_cwd h) [p]
           | None \<Rightarrow> path_join (resolveTraStateDir h) [''local_tra.db'']))"

definition resolveTraAuditDir :: "path_overrides \<Rightarrow> host \<Rightarrow> string" where
  "resolveTraAuditDir ov h =
     (case trim_opt (po_auditDir ov) of
        Some p \<Rightarrow> path_resolve (h_cwd h) [p]
      | None \<Rightarrow> path_join (resolveTraStateDir h) [''tra-audit''])"

definition resolveTraEvidenceDir :: "path_overrides \<Rightarrow> host \<Rightarrow> string" where
  "resolveTraEvidenceDir ov h =
     (case trim_opt (po_evidenceDir ov) of
        Some p \<Rightarrow> path_resolve (h_cwd h) [p]
      | None \<Rightarrow> path_join (resolveTraStateDir h) [''tra-evidence''])"

definition as_string :: "jval \<Rightarrow> string option" where
  "as_string v = (case v of JStr s \<Rightarrow> Some s | _ \<Rightarrow> None)"

definition no_config :: plugin_config where
  "no_config = \<lparr>cfg_dbPath = JUndef, cfg_auditDir = JUndef, cfg_evidenceDir = JUndef,
     cfg_agentPacksDir = JUndef, cfg_defaultAgentPack = JUndef\<rparr>"

definition resolveTrustclawPaths :: "plugin_config option \<Rightarrow> host \<Rightarrow> tra_paths" where
  "resolveTrustclawPaths cfg h =
     (let c = (case cfg of Some c \<Rightarrow> c | None \<Rightarrow> no_config);
          ov = \<lparr>po_dbPath = as_string (cfg_dbPath c), po_auditDir = as_string (cfg_auditDir c),
                po_evidenceDir = as_string (cfg_evidenceDir c)\<rparr>
      in \<lparr>tp_dbPath = resolveTraDbPath ov h, tp_auditDir = resolveTraAuditDir ov h,
          tp_evidenceDir = resolveTraEvidenceDir ov h\<rparr>)"

end
