(* ===== verification/Audit_Trail.thy ===== *)
theory Audit_Trail
  imports Jsonl_Log Tra_Paths
begin

text \<open>
  The audit trail (\<open>trustclaw/audit\<close>) and the functions that record consent, import and
  grant events (\<open>trustclaw/tra/consent-audit.ts\<close>, \<open>agent-domain-grant-audit.ts\<close>).  The
  file system is a map from a directory to its \<open>events.jsonl\<close>; the clock and the random
  identifiers are arguments.
\<close>

datatype step_code =
    AGENT_DOMAIN_GRANT | COMPLIANCE_IMPORT | REFERENCE_SYNC | DEVICE_IMPORT | DATA_CONSENT
  | TRA_RESET | TEXT2SQL_GEN | DB_QUERY | RULE_EVAL | AGENT_DECISION | LEDGER_COMMIT

datatype event_status = SUCCESS | FAILURE | BLOCKED

record audit_event =
  ev_id :: string
  ev_trail :: string
  ev_step :: step_code
  ev_timestamp :: int
  ev_component :: string
  ev_input :: "jval obj"
  ev_output :: "jval obj"
  ev_status :: event_status

definition PLATFORM_AUDIT_COMPONENTS :: "string list" where
  "PLATFORM_AUDIT_COMPONENTS =
     [''TRA.AgentDomainGrant'', ''TRA.ComplianceImport'', ''TRA.ReferenceSync'',
      ''TRA.DeviceImport'', ''TRA.Consent'', ''TRA.Reset'', ''AgentRuntime.Text2SQL'',
      ''TRA.Query'', ''AgentRuntime.ExecRule'', ''Agent.GLP1Decision'',
      ''EvidenceLedger.Commit'']"

type_synonym audit_file = "audit_event jfile"
type_synonym audit_fs = "string \<Rightarrow> audit_file"

subsection \<open>The recorder\<close>

record recorder =
  rec_trail :: string
  rec_session :: string
  rec_dir :: string
  rec_events :: "audit_event list"

record record_params =
  rp_step :: step_code
  rp_component :: string
  rp_input :: "jval obj"
  rp_output :: "jval obj"
  rp_status :: event_status

definition new_recorder :: "string \<Rightarrow> string \<Rightarrow> string \<Rightarrow> recorder" where
  "new_recorder auditDir trail session =
     \<lparr>rec_trail = trail, rec_session = session, rec_dir = auditDir, rec_events = []\<rparr>"

text \<open>What is not deterministic in one call: the event id and the clock.\<close>

record tick =
  tk_id :: string
  tk_now_ms :: int

definition record_event ::
  "tick \<Rightarrow> record_params \<Rightarrow> recorder \<times> audit_fs \<Rightarrow> recorder \<times> audit_fs" where
  "record_event t p st =
     (case st of (r, fs) \<Rightarrow>
       let e = \<lparr>ev_id = ''evt_'' @ tk_id t, ev_trail = rec_trail r, ev_step = rp_step p,
                ev_timestamp = tk_now_ms t div 1000, ev_component = rp_component p,
                ev_input = obj_spread [(''session_id'', JStr (rec_session r))] (rp_input p),
                ev_output = rp_output p, ev_status = rp_status p\<rparr>
       in (r\<lparr>rec_events := rec_events r @ [e]\<rparr>,
           fs(rec_dir r := append_line (fs (rec_dir r)) e)))"

definition clearAuditEvents :: "audit_file \<Rightarrow> audit_file" where
  "clearAuditEvents f = Some []"

definition audit_entries :: "audit_file \<Rightarrow> audit_event list" where
  "audit_entries f = parsed_lines (file_lines f)"

interpretation audit_log: append_log audit_entries append_line clearAuditEvents
  by unfold_locales (simp_all add: audit_entries_def clearAuditEvents_def file_lines_def append_line_def)

subsection \<open>Reading\<close>

definition js_clamp :: "int \<Rightarrow> nat" where
  "js_clamp limit = nat (max 1 (min limit 500))"

text \<open>The loop from the last line down, with the events matched so far (latest first).\<close>

fun scan_back ::
  "nat \<Rightarrow> step_code list option \<Rightarrow> audit_event jline list \<Rightarrow> audit_event list \<Rightarrow> audit_event list" where
  "scan_back limit steps [] matched = matched"
| "scan_back limit steps (l # ls) matched =
     (if limit \<le> length matched then matched
      else (case l of
              Parsed e \<Rightarrow>
                (case steps of
                   Some ss \<Rightarrow> if ev_step e \<in> set ss then scan_back limit steps ls (matched @ [e])
                              else scan_back limit steps ls matched
                 | None \<Rightarrow> scan_back limit steps ls (matched @ [e]))
            | _ \<Rightarrow> scan_back limit steps ls matched))"

definition readAuditEvents ::
  "audit_file \<Rightarrow> int option \<Rightarrow> step_code list option \<Rightarrow> audit_event list" where
  "readAuditEvents f limit steps =
     (case f of
        None \<Rightarrow> []
      | Some raw \<Rightarrow>
          let ls = filter (\<lambda>l. l \<noteq> Blank) raw;
              n = js_clamp (case limit of Some k \<Rightarrow> k | None \<Rightarrow> 50)
          in rev (scan_back n steps (rev ls) []))"

definition COMPLIANCE_AUDIT_STEPS :: "step_code list" where
  "COMPLIANCE_AUDIT_STEPS =
     [AGENT_DOMAIN_GRANT, DATA_CONSENT, COMPLIANCE_IMPORT, REFERENCE_SYNC, DEVICE_IMPORT]"

definition CHAT_PIPELINE_AUDIT_STEPS :: "step_code list" where
  "CHAT_PIPELINE_AUDIT_STEPS =
     [TEXT2SQL_GEN, DB_QUERY, RULE_EVAL, AGENT_DECISION, LEDGER_COMMIT]"

definition missingChatPipelineSteps ::
  "audit_file \<Rightarrow> string \<Rightarrow> step_code list option \<Rightarrow> step_code list" where
  "missingChatPipelineSteps f trail expected =
     (let expectedSteps = (case expected of Some ss \<Rightarrow> ss | None \<Rightarrow> CHAT_PIPELINE_AUDIT_STEPS);
          events = filter (\<lambda>e. ev_trail e = trail) (readAuditEvents f (Some 200) None);
          present = map ev_step events
      in filter (\<lambda>s. s \<notin> set present) expectedSteps)"

definition readAgentPackIdFromAuditInput :: "jval obj \<Rightarrow> string option" where
  "readAgentPackIdFromAuditInput i =
     (case obj_get i ''agent_pack_id'' of Some (JStr raw) \<Rightarrow> trim_opt (Some raw) | _ \<Rightarrow> None)"

definition auditEventMatchesAgentPack :: "audit_event \<Rightarrow> string \<Rightarrow> bool" where
  "auditEventMatchesAgentPack e pack =
     (case readAgentPackIdFromAuditInput (ev_input e) of None \<Rightarrow> False | Some p \<Rightarrow> p = trim pack)"

subsection \<open>Operator, consent, import and grant events\<close>

definition recordTraResetAudit :: "string \<Rightarrow> tick \<Rightarrow> string \<Rightarrow> audit_fs \<Rightarrow> string \<times> audit_fs" where
  "recordTraResetAudit rand t auditDir fs =
     (let trail = ''op_reset_'' @ rand;
          p = \<lparr>rp_step = TRA_RESET, rp_component = ''TRA.Reset'',
               rp_input = [(''operator_action'', JStr ''POST /api/tra/reset'')],
               rp_output = [(''cleared'', JArr (map JStr
                  [''local_tra.db personal rows'', ''consent-grants'', ''agent-domain-grants'',
                   ''events.jsonl'', ''evidence ledger'']))],
               rp_status = SUCCESS\<rparr>
      in (trail, snd (record_event t p (new_recorder auditDir trail ''operator'', fs))))"

text \<open>\<open>auditDir?.trim() || overrides?.auditDir?.trim() || resolveTraAuditDir(overrides)\<close>.\<close>

definition event_dir :: "host \<Rightarrow> string option \<Rightarrow> path_overrides option \<Rightarrow> string" where
  "event_dir h auditDir ov =
     (case trim_opt auditDir of
        Some d \<Rightarrow> d
      | None \<Rightarrow>
          (case trim_opt (Option.bind ov po_auditDir) of
             Some d \<Rightarrow> d
           | None \<Rightarrow> resolveTraAuditDir
               (case ov of Some o' \<Rightarrow> o'
                | None \<Rightarrow> \<lparr>po_dbPath = None, po_auditDir = None, po_evidenceDir = None\<rparr>) h))"

record audit_target =
  at_host :: host
  at_rand :: string
  at_tick :: tick
  at_auditDir :: "string option"
  at_overrides :: "path_overrides option"

definition target_dir :: "audit_target \<Rightarrow> string" where
  "target_dir t = event_dir (at_host t) (at_auditDir t) (at_overrides t)"

definition record_single ::
  "string \<Rightarrow> audit_target \<Rightarrow> string \<Rightarrow> record_params \<Rightarrow> audit_fs \<Rightarrow> audit_fs" where
  "record_single pre t session p fs =
     snd (record_event (at_tick t) p
       (new_recorder (target_dir t) (pre @ at_rand t) session, fs))"

definition granted_status :: "bool \<Rightarrow> event_status" where
  "granted_status granted = (if granted then SUCCESS else BLOCKED)"

definition recordComplianceImportAudit ::
  "audit_target \<Rightarrow> string \<Rightarrow> string \<Rightarrow> string \<Rightarrow> string \<Rightarrow> int \<Rightarrow> bool \<Rightarrow> audit_fs \<Rightarrow> audit_fs" where
  "recordComplianceImportAudit t session pack standard ruleset rulesImported granted =
     record_single ''consent_'' t session
       \<lparr>rp_step = COMPLIANCE_IMPORT, rp_component = ''TRA.ComplianceImport'',
        rp_input = [(''agent_pack_id'', JStr (trim pack)), (''standard_id'', JStr standard),
                    (''ruleset_hash'', JStr ruleset)],
        rp_output = [(''rules_imported'', JInt rulesImported), (''granted'', JBool granted)],
        rp_status = granted_status granted\<rparr>"

definition recordDeviceImportAudit ::
  "audit_target \<Rightarrow> string \<Rightarrow> string \<Rightarrow> string \<Rightarrow> string list \<Rightarrow> int \<Rightarrow> bool \<Rightarrow> string option \<Rightarrow>
     audit_fs \<Rightarrow> audit_fs" where
  "recordDeviceImportAudit t session pack sqlHash tables rowsAffected granted sourceLabel =
     record_single ''consent_'' t session
       \<lparr>rp_step = DEVICE_IMPORT, rp_component = ''TRA.DeviceImport'',
        rp_input = [(''agent_pack_id'', JStr (trim pack)), (''sql_hash'', JStr sqlHash),
                    (''source_label'', nullable_str sourceLabel)],
        rp_output = [(''tables'', JArr (map JStr tables)), (''rows_affected'', JInt rowsAffected),
                     (''granted'', JBool granted)],
        rp_status = granted_status granted\<rparr>"

definition recordReferenceSyncAudit ::
  "audit_target \<Rightarrow> string \<Rightarrow> string \<Rightarrow> string \<Rightarrow> string \<Rightarrow> int \<Rightarrow> int \<Rightarrow> bool \<Rightarrow> string option \<Rightarrow>
     audit_fs \<Rightarrow> audit_fs" where
  "recordReferenceSyncAudit t session pack versionId packageHash drugs rules granted url =
     record_single ''consent_'' t session
       \<lparr>rp_step = REFERENCE_SYNC, rp_component = ''TRA.ReferenceSync'',
        rp_input = [(''agent_pack_id'', JStr (trim pack)), (''version_id'', JStr versionId),
                    (''package_hash'', JStr packageHash), (''subscription_url'', nullable_str url)],
        rp_output = [(''drugs_synced'', JInt drugs), (''rules_synced'', JInt rules),
                     (''granted'', JBool granted)],
        rp_status = granted_status granted\<rparr>"

definition recordTraConsentAudit ::
  "audit_target \<Rightarrow> string \<Rightarrow> string \<Rightarrow> string \<Rightarrow> string list \<Rightarrow> string \<Rightarrow> bool \<Rightarrow> audit_fs \<Rightarrow> audit_fs" where
  "recordTraConsentAudit t session pack question privateDataFields decision granted =
     record_single ''consent_'' t session
       \<lparr>rp_step = DATA_CONSENT, rp_component = ''TRA.Consent'',
        rp_input = [(''agent_pack_id'', JStr (trim pack)), (''user_query'', JStr question),
                    (''private_data_fields'', JArr (map JStr privateDataFields))],
        rp_output = [(''decision'', JStr decision), (''granted'', JBool granted)],
        rp_status = granted_status granted\<rparr>"

definition recordAgentDomainGrantAudit ::
  "audit_target \<Rightarrow> string \<Rightarrow> string \<Rightarrow> string list \<Rightarrow> bool \<Rightarrow> audit_fs \<Rightarrow> audit_fs" where
  "recordAgentDomainGrantAudit t session pack scopes granted =
     record_single ''grant_'' t session
       \<lparr>rp_step = AGENT_DOMAIN_GRANT, rp_component = ''TRA.AgentDomainGrant'',
        rp_input = [(''agent_pack_id'', JStr pack), (''scopes'', JArr (map JStr scopes))],
        rp_output = [(''granted'', JBool granted), (''scope_count'', JInt (int (length scopes)))],
        rp_status = granted_status granted\<rparr>"

subsection \<open>What a reader sees\<close>

definition step_selected :: "step_code list option \<Rightarrow> audit_event \<Rightarrow> bool" where
  "step_selected steps e = (case steps of None \<Rightarrow> True | Some ss \<Rightarrow> ev_step e \<in> set ss)"

definition take_last :: "nat \<Rightarrow> 'a list \<Rightarrow> 'a list" where
  "take_last n xs = drop (length xs - n) xs"

lemma take_last_rev: "rev (take n (rev xs)) = take_last n xs"
  by (simp add: take_last_def rev_take)

lemma scan_back_take:
  "length m \<le> n \<Longrightarrow>
     scan_back n steps ls m = m @ take (n - length m) (filter (step_selected steps) (parsed_lines ls))"
proof (induction ls arbitrary: m)
  case Nil
  then show ?case by simp
next
  case (Cons l ls)
  show ?case
  proof (cases "length m = n")
    case True
    then show ?thesis by simp
  next
    case False
    with Cons.prems have "length m < n" by simp
    then show ?thesis
      using Cons.IH [of m] Cons.IH [of "m @ [e]" for e]
      by (auto simp: step_selected_def Suc_diff_Suc [symmetric] split: jline.split option.split)
  qed
qed

lemma parsed_lines_rev: "parsed_lines (rev ls) = rev (parsed_lines ls)"
  by (induction ls) (auto split: jline.split)

lemma parsed_lines_nonblank: "parsed_lines (filter (\<lambda>l. l \<noteq> Blank) ls) = parsed_lines ls"
  by (induction ls) (auto split: jline.split)

text \<open>
  A reader of the audit file sees, in the order of recording, exactly the last events
  of the wanted steps, as many as the limit clamped to 1..500 (50 when there is none);
  blank and malformed lines neither appear nor use up the limit.
\<close>

theorem readAuditEvents_last:
  "readAuditEvents f limit steps =
     take_last (js_clamp (case limit of Some k \<Rightarrow> k | None \<Rightarrow> 50))
       (filter (step_selected steps) (audit_entries f))"
proof (cases f)
  case None
  then show ?thesis
    by (simp add: readAuditEvents_def audit_entries_def file_lines_def take_last_def)
next
  case (Some raw)
  then show ?thesis
    by (simp add: readAuditEvents_def Let_def scan_back_take parsed_lines_rev parsed_lines_nonblank
        rev_filter [symmetric] take_last_rev audit_entries_def file_lines_def)
qed

lemma step_selected_None [simp]: "step_selected None = (\<lambda>_. True)"
  by (simp add: step_selected_def fun_eq_iff)

lemma missing_iff:
  "s \<in> set (missingChatPipelineSteps f trail exps) \<longleftrightarrow>
     s \<in> set (case exps of Some ss \<Rightarrow> ss | None \<Rightarrow> CHAT_PIPELINE_AUDIT_STEPS) \<and>
     (\<forall>e\<in>set (take_last 200 (audit_entries f)). ev_trail e = trail \<longrightarrow> ev_step e \<noteq> s)"
  by (auto simp: missingChatPipelineSteps_def Let_def readAuditEvents_last js_clamp_def)

lemma take_last_member: "length later < n \<Longrightarrow> e \<in> set (take_last n (xs @ e # later))"
  by (auto simp: take_last_def)

text \<open>
  The gate on the chat pipeline is exact on what it looks at: a step recorded for the
  trail is never reported missing while fewer than 200 events follow it, and a step that was
  never recorded for the trail is reported whenever it is expected.
\<close>

theorem missing_steps_exact:
  assumes "audit_entries f = xs @ e # later" and "length later < 200"
  shows "ev_step e \<notin> set (missingChatPipelineSteps f (ev_trail e) exps) \<and>
         (\<forall>s\<in>set CHAT_PIPELINE_AUDIT_STEPS.
            (\<forall>q\<in>set (audit_entries f). ev_trail q = trail \<longrightarrow> ev_step q \<noteq> s) \<longrightarrow>
            s \<in> set (missingChatPipelineSteps f trail None))"
  using assms take_last_member [of later 200 e xs]
  by (auto simp: missing_iff take_last_def dest: in_set_dropD)

subsection \<open>Attribution to a pack\<close>

lemma record_event_entries:
  assumes "record_event t p (r, fs) = (r', fs')"
  shows "\<exists>e. audit_entries (fs' (rec_dir r)) = audit_entries (fs (rec_dir r)) @ [e] \<and>
     rec_events r' = rec_events r @ [e] \<and> rec_trail r' = rec_trail r \<and> rec_dir r' = rec_dir r \<and>
     rec_session r' = rec_session r \<and> (\<forall>d. d \<noteq> rec_dir r \<longrightarrow> fs' d = fs d) \<and>
     ev_trail e = rec_trail r \<and> ev_step e = rp_step p \<and> ev_status e = rp_status p \<and>
     ev_component e = rp_component p \<and> ev_output e = rp_output p \<and>
     ev_input e = obj_spread [(''session_id'', JStr (rec_session r))] (rp_input p)"
  using assms by (auto simp: record_event_def Let_def audit_log.entries_append)

lemma matches_pack_input:
  assumes "ev_input e = obj_spread [(''session_id'', JStr session)] ((''agent_pack_id'', JStr p) # rest)"
    and "distinct (obj_keys ((''agent_pack_id'', JStr p) # rest))"
  shows "auditEventMatchesAgentPack e q \<longleftrightarrow> trim p \<noteq> [] \<and> trim p = trim q"
  using assms
  by (auto simp: auditEventMatchesAgentPack_def readAgentPackIdFromAuditInput_def kv_simps
      trim_opt_def obj_get_def [of "_ # _"])

lemma record_single_attributed:
  assumes inp: "rp_input p = (''agent_pack_id'', JStr (trim pk)) # rest"
    and dist: "distinct (obj_keys (rp_input p))"
    and st: "rp_step p = st" and "rp_status p = granted_status granted"
  shows "\<exists>e. audit_entries (record_single pre t session p fs (target_dir t)) =
           audit_entries (fs (target_dir t)) @ [e] \<and>
         ev_step e = st \<and> (ev_status e = SUCCESS \<longleftrightarrow> granted) \<and>
         (auditEventMatchesAgentPack e q \<longleftrightarrow> trim pk \<noteq> [] \<and> trim pk = trim q)"
proof -
  let ?r = "new_recorder (target_dir t) (pre @ at_rand t) session"
  obtain e where e: "audit_entries (record_single pre t session p fs (target_dir t)) =
        audit_entries (fs (target_dir t)) @ [e]" "ev_step e = rp_step p" "ev_status e = rp_status p"
      "ev_input e = obj_spread [(''session_id'', JStr session)] (rp_input p)"
    using record_event_entries [of "at_tick t" p ?r fs, OF prod.collapse [symmetric]]
    by (auto simp: record_single_def new_recorder_def)
  moreover have "auditEventMatchesAgentPack e q \<longleftrightarrow> trim pk \<noteq> [] \<and> trim pk = trim q"
    using matches_pack_input [OF e(4) [unfolded inp] dist [unfolded inp], of q] by simp
  moreover have "granted_status granted = SUCCESS \<longleftrightarrow> granted" by (simp add: granted_status_def)
  ultimately show ?thesis using assms by auto
qed

text \<open>
  A recorded consent decision is one new event at the end of the chosen file, SUCCESS
  exactly when granted, and belongs to the pack that asked, however the pack id is padded;
  the same holds of a device import.
\<close>

theorem consent_event_attributed:
  "(\<exists>e. audit_entries (recordTraConsentAudit t session pack question flds decision granted fs
           (target_dir t)) = audit_entries (fs (target_dir t)) @ [e] \<and>
         ev_step e = DATA_CONSENT \<and> (ev_status e = SUCCESS \<longleftrightarrow> granted) \<and>
         (auditEventMatchesAgentPack e q \<longleftrightarrow> trim pack \<noteq> [] \<and> trim pack = trim q)) \<and>
   (\<exists>e. audit_entries (recordDeviceImportAudit t session pack hash tables rows granted label fs
           (target_dir t)) = audit_entries (fs (target_dir t)) @ [e] \<and>
         ev_step e = DEVICE_IMPORT \<and> (ev_status e = SUCCESS \<longleftrightarrow> granted) \<and>
         (auditEventMatchesAgentPack e q \<longleftrightarrow> trim pack \<noteq> [] \<and> trim pack = trim q))"
  unfolding recordTraConsentAudit_def recordDeviceImportAudit_def
  by (intro conjI record_single_attributed) (simp_all add: obj_keys_def)

definition demo_event :: "step_code \<Rightarrow> string \<Rightarrow> audit_event" where
  "demo_event s trail = \<lparr>ev_id = ''evt_0'', ev_trail = trail, ev_step = s, ev_timestamp = 0,
     ev_component = ''TRA.Query'', ev_input = [], ev_output = [], ev_status = SUCCESS\<rparr>"

lemma missing_steps_exact_witness:
  "DB_QUERY \<notin> set (missingChatPipelineSteps
     (Some [Parsed (demo_event TEXT2SQL_GEN ''t''), Malformed, Parsed (demo_event DB_QUERY ''t''),
            Parsed (demo_event RULE_EVAL ''u'')]) ''t'' None)"
proof -
  have "audit_entries (Some [Parsed (demo_event TEXT2SQL_GEN ''t''), Malformed,
      Parsed (demo_event DB_QUERY ''t''), Parsed (demo_event RULE_EVAL ''u'')]) =
      [demo_event TEXT2SQL_GEN ''t''] @ demo_event DB_QUERY ''t'' # [demo_event RULE_EVAL ''u'']"
    by (simp add: audit_entries_def file_lines_def)
  from missing_steps_exact [OF this, of None "''u''"] show ?thesis by (simp add: demo_event_def)
qed

end
