(* ===== verification/Pack_Schema.thy ===== *)
theory Pack_Schema
  imports Audit_Trail "HOL-Library.Monad_Syntax"
begin

text \<open>
  The manifest of an agent pack (\<open>runtime/agent-pack/schema.ts\<close>) and the scopes a user can
  grant to it (\<open>tra/agent-domain-scopes.ts\<close>).  \<open>parse_pack\<close> reads a JSON value as the
  schema says: strict objects refuse unknown keys, the two objects that are not strict drop
  them, an optional field may be absent but not null.
\<close>

subsection \<open>The document\<close>

datatype rule_engine = AstCompliance | NrdlTable | NoEngine

datatype decision_builder = Glp1Decision | PassThrough

record pack_openclaw =
  oc_agentId :: "string option"
  oc_persona :: "string option"

record pack_tools =
  tl_read :: string
  tl_write :: "string option"

record pack_prompts =
  pr_system :: string
  pr_text2sql :: "string option"
  pr_personalWrite :: "string option"

record pack_data =
  dt_readTables :: "string list"
  dt_writeTables :: "string list option"
  dt_snapshotView :: "string option"

record pack_rules =
  ru_engine :: rule_engine
  ru_activeStandardHint :: "string option"
  ru_drugIdResolver :: "string option"

record pack_pipeline =
  pl_stages :: "step_code list"
  pl_decisionBuilder :: decision_builder

record pack_consent =
  cn_read_allowAlways :: bool
  cn_write_allowAlways :: "bool option"

record pack_audit =
  au_businessComponent :: string
  au_decisionComponent :: string
  au_ruleEvalComponent :: "string option"

record agent_pack =
  ap_id :: string
  ap_version :: string
  ap_name_zh :: string
  ap_name_en :: string
  ap_domain :: "string list option"
  ap_starters :: "(string \<times> string) list option"
  ap_openclaw :: "pack_openclaw option"
  ap_tools :: pack_tools
  ap_prompts :: pack_prompts
  ap_data :: pack_data
  ap_rules :: pack_rules
  ap_pipeline :: pack_pipeline
  ap_consent :: pack_consent
  ap_audit :: pack_audit

definition DEFAULT_AGENT_PACK_ID :: string where
  "DEFAULT_AGENT_PACK_ID = ''glp1-eligibility''"

definition AGENT_PACK_STARTER_QUESTION_COUNT :: nat where
  "AGENT_PACK_STARTER_QUESTION_COUNT = 3"

definition step_name :: "step_code \<Rightarrow> string" where
  "step_name s = (case s of
     AGENT_DOMAIN_GRANT \<Rightarrow> ''AGENT_DOMAIN_GRANT'' | COMPLIANCE_IMPORT \<Rightarrow> ''COMPLIANCE_IMPORT''
   | REFERENCE_SYNC \<Rightarrow> ''REFERENCE_SYNC'' | DEVICE_IMPORT \<Rightarrow> ''DEVICE_IMPORT''
   | DATA_CONSENT \<Rightarrow> ''DATA_CONSENT'' | TRA_RESET \<Rightarrow> ''TRA_RESET''
   | TEXT2SQL_GEN \<Rightarrow> ''TEXT2SQL_GEN'' | DB_QUERY \<Rightarrow> ''DB_QUERY'' | RULE_EVAL \<Rightarrow> ''RULE_EVAL''
   | AGENT_DECISION \<Rightarrow> ''AGENT_DECISION'' | LEDGER_COMMIT \<Rightarrow> ''LEDGER_COMMIT'')"

definition AGENT_PACK_PIPELINE_STAGES :: "step_code list" where
  "AGENT_PACK_PIPELINE_STAGES =
     [TEXT2SQL_GEN, DB_QUERY, RULE_EVAL, AGENT_DECISION, LEDGER_COMMIT]"

definition rule_engine_name :: "rule_engine \<Rightarrow> string" where
  "rule_engine_name e = (case e of
     AstCompliance \<Rightarrow> ''ast-compliance'' | NrdlTable \<Rightarrow> ''nrdl-table'' | NoEngine \<Rightarrow> ''none'')"

definition decision_builder_name :: "decision_builder \<Rightarrow> string" where
  "decision_builder_name b = (case b of
     Glp1Decision \<Rightarrow> ''glp1-decision'' | PassThrough \<Rightarrow> ''pass-through'')"

subsection \<open>Field readers\<close>

text \<open>\<open>z.string().min(1)\<close>, \<open>z.boolean()\<close>, \<open>z.enum\<close>, \<open>z.array\<close> and \<open>.optional()\<close>.\<close>

definition p_str :: "jval \<Rightarrow> string option" where
  "p_str v = (case v of JStr s \<Rightarrow> if js_length s \<ge> 1 then Some s else None | _ \<Rightarrow> None)"

definition p_bool :: "jval \<Rightarrow> bool option" where
  "p_bool v = (case v of JBool b \<Rightarrow> Some b | _ \<Rightarrow> None)"

definition p_enum :: "('a \<Rightarrow> string) \<Rightarrow> 'a list \<Rightarrow> jval \<Rightarrow> 'a option" where
  "p_enum name xs v = (case v of JStr s \<Rightarrow> find (\<lambda>x. name x = s) xs | _ \<Rightarrow> None)"

fun p_all :: "(jval \<Rightarrow> 'a option) \<Rightarrow> jval list \<Rightarrow> 'a list option" where
  "p_all p [] = Some []"
| "p_all p (v # vs) =
     (case p v of None \<Rightarrow> None
      | Some x \<Rightarrow> (case p_all p vs of None \<Rightarrow> None | Some xs \<Rightarrow> Some (x # xs)))"

definition p_list :: "(jval \<Rightarrow> 'a option) \<Rightarrow> jval \<Rightarrow> 'a list option" where
  "p_list p v = (case v of JArr vs \<Rightarrow> p_all p vs | _ \<Rightarrow> None)"

definition p_nonempty :: "(jval \<Rightarrow> 'a option) \<Rightarrow> jval \<Rightarrow> 'a list option" where
  "p_nonempty p v = (case p_list p v of Some (x # xs) \<Rightarrow> Some (x # xs) | _ \<Rightarrow> None)"

definition p_opt :: "(jval \<Rightarrow> 'a option) \<Rightarrow> jval \<Rightarrow> 'a option option" where
  "p_opt p v = (if v = JUndef then Some None else map_option Some (p v))"

definition strict_keys :: "string list \<Rightarrow> jval \<Rightarrow> bool" where
  "strict_keys ks v = (case v of JObj m \<Rightarrow> list_all (\<lambda>k. k \<in> set ks) (obj_keys m) | _ \<Rightarrow> False)"

definition is_obj :: "jval \<Rightarrow> bool" where
  "is_obj v = (case v of JObj _ \<Rightarrow> True | _ \<Rightarrow> False)"

text \<open>\<open>/^[a-z0-9][a-z0-9-]{1,63}$/\<close>.\<close>

definition id_char :: "char \<Rightarrow> bool" where
  "id_char c \<longleftrightarrow> chr_in c 97 122 \<or> is_digit c"

definition valid_pack_id :: "string \<Rightarrow> bool" where
  "valid_pack_id s \<longleftrightarrow> 2 \<le> length s \<and> length s \<le> 64 \<and> id_char (hd s) \<and>
     list_all (\<lambda>c. id_char c \<or> c = CHR ''-'') (tl s)"

definition p_id :: "jval \<Rightarrow> string option" where
  "p_id v = (case v of JStr s \<Rightarrow> if valid_pack_id s then Some s else None | _ \<Rightarrow> None)"

subsection \<open>The sections of the document\<close>

definition p_starter :: "jval \<Rightarrow> (string \<times> string) option" where
  "p_starter v =
     (if strict_keys [''zh-CN'', ''en''] v
      then (case (p_str (own_prop v ''zh-CN''), p_str (own_prop v ''en'')) of
              (Some z, Some e) \<Rightarrow> Some (z, e) | _ \<Rightarrow> None)
      else None)"

definition p_starters :: "jval \<Rightarrow> (string \<times> string) list option" where
  "p_starters v =
     (case p_list p_starter v of
        Some qs \<Rightarrow> if length qs = AGENT_PACK_STARTER_QUESTION_COUNT then Some qs else None
      | None \<Rightarrow> None)"

definition p_openclaw :: "jval \<Rightarrow> pack_openclaw option" where
  "p_openclaw v =
     (if is_obj v
      then (case (p_opt p_str (own_prop v ''agentId''), p_opt p_str (own_prop v ''persona'')) of
              (Some a, Some p) \<Rightarrow> Some \<lparr>oc_agentId = a, oc_persona = p\<rparr> | _ \<Rightarrow> None)
      else None)"

definition p_tools :: "jval \<Rightarrow> pack_tools option" where
  "p_tools v =
     (if strict_keys [''read'', ''write''] v
      then (case (p_str (own_prop v ''read''), p_opt p_str (own_prop v ''write'')) of
              (Some r, Some w) \<Rightarrow> Some \<lparr>tl_read = r, tl_write = w\<rparr> | _ \<Rightarrow> None)
      else None)"

definition p_prompts :: "jval \<Rightarrow> pack_prompts option" where
  "p_prompts v =
     (if strict_keys [''system'', ''text2sql'', ''personalWrite''] v
      then (case (p_str (own_prop v ''system''), p_opt p_str (own_prop v ''text2sql''),
                  p_opt p_str (own_prop v ''personalWrite'')) of
              (Some s, Some t, Some w) \<Rightarrow>
                Some \<lparr>pr_system = s, pr_text2sql = t, pr_personalWrite = w\<rparr>
            | _ \<Rightarrow> None)
      else None)"

definition p_data :: "jval \<Rightarrow> pack_data option" where
  "p_data v =
     (if strict_keys [''readTables'', ''writeTables'', ''snapshotView''] v
      then (case (p_nonempty p_str (own_prop v ''readTables''),
                  p_opt (p_list p_str) (own_prop v ''writeTables''),
                  p_opt p_str (own_prop v ''snapshotView'')) of
              (Some r, Some w, Some s) \<Rightarrow>
                Some \<lparr>dt_readTables = r, dt_writeTables = w, dt_snapshotView = s\<rparr>
            | _ \<Rightarrow> None)
      else None)"

definition p_rules :: "jval \<Rightarrow> pack_rules option" where
  "p_rules v =
     (if strict_keys [''engine'', ''activeStandardHint'', ''drugIdResolver''] v
      then (case (p_enum rule_engine_name [AstCompliance, NrdlTable, NoEngine] (own_prop v ''engine''),
                  p_opt p_str (own_prop v ''activeStandardHint''),
                  p_opt p_str (own_prop v ''drugIdResolver'')) of
              (Some e, Some a, Some d) \<Rightarrow>
                Some \<lparr>ru_engine = e, ru_activeStandardHint = a, ru_drugIdResolver = d\<rparr>
            | _ \<Rightarrow> None)
      else None)"

definition p_pipeline :: "jval \<Rightarrow> pack_pipeline option" where
  "p_pipeline v =
     (if strict_keys [''stages'', ''decisionBuilder''] v
      then (case (p_nonempty (p_enum step_name AGENT_PACK_PIPELINE_STAGES) (own_prop v ''stages''),
                  p_enum decision_builder_name [Glp1Decision, PassThrough]
                    (own_prop v ''decisionBuilder'')) of
              (Some s, Some b) \<Rightarrow> Some \<lparr>pl_stages = s, pl_decisionBuilder = b\<rparr> | _ \<Rightarrow> None)
      else None)"

definition p_allowAlways :: "jval \<Rightarrow> bool option" where
  "p_allowAlways v =
     (if strict_keys [''allowAlways''] v then p_bool (own_prop v ''allowAlways'') else None)"

definition p_consent :: "jval \<Rightarrow> pack_consent option" where
  "p_consent v =
     (if strict_keys [''read'', ''write''] v
      then (case (p_allowAlways (own_prop v ''read''), p_opt p_allowAlways (own_prop v ''write'')) of
              (Some r, Some w) \<Rightarrow> Some \<lparr>cn_read_allowAlways = r, cn_write_allowAlways = w\<rparr>
            | _ \<Rightarrow> None)
      else None)"

definition p_audit :: "jval \<Rightarrow> pack_audit option" where
  "p_audit v =
     (if strict_keys [''businessComponent'', ''decisionComponent'', ''ruleEvalComponent''] v
      then (case (p_str (own_prop v ''businessComponent''), p_str (own_prop v ''decisionComponent''),
                  p_opt p_str (own_prop v ''ruleEvalComponent'')) of
              (Some b, Some d, Some r) \<Rightarrow>
                Some \<lparr>au_businessComponent = b, au_decisionComponent = d, au_ruleEvalComponent = r\<rparr>
            | _ \<Rightarrow> None)
      else None)"

definition PACK_KEYS :: "string list" where
  "PACK_KEYS = [''id'', ''version'', ''displayName'', ''domain'', ''starterQuestions'', ''openclaw'',
     ''tools'', ''prompts'', ''data'', ''rules'', ''pipeline'', ''consent'', ''audit'']"

definition parse_pack :: "jval \<Rightarrow> agent_pack option" where
  "parse_pack v =
     (if \<not> strict_keys PACK_KEYS v then None
      else do {
        i \<leftarrow> p_id (own_prop v ''id'');
        ver \<leftarrow> p_str (own_prop v ''version'');
        z \<leftarrow> p_str (own_prop (own_prop v ''displayName'') ''zh-CN'');
        e \<leftarrow> p_str (own_prop (own_prop v ''displayName'') ''en'');
        dom \<leftarrow> p_opt (p_list p_str) (own_prop v ''domain'');
        st \<leftarrow> p_opt p_starters (own_prop v ''starterQuestions'');
        oc \<leftarrow> p_opt p_openclaw (own_prop v ''openclaw'');
        tls \<leftarrow> p_tools (own_prop v ''tools'');
        prs \<leftarrow> p_prompts (own_prop v ''prompts'');
        dat \<leftarrow> p_data (own_prop v ''data'');
        rul \<leftarrow> p_rules (own_prop v ''rules'');
        pip \<leftarrow> p_pipeline (own_prop v ''pipeline'');
        con \<leftarrow> p_consent (own_prop v ''consent'');
        aud \<leftarrow> p_audit (own_prop v ''audit'');
        Some \<lparr>ap_id = i, ap_version = ver, ap_name_zh = z, ap_name_en = e, ap_domain = dom,
              ap_starters = st, ap_openclaw = oc, ap_tools = tls, ap_prompts = prs, ap_data = dat,
              ap_rules = rul, ap_pipeline = pip, ap_consent = con, ap_audit = aud\<rparr>
      })"

subsection \<open>Writing a document\<close>

text \<open>\<open>JSON.stringify\<close> drops an absent optional field.\<close>

definition opt_field :: "string \<Rightarrow> ('a \<Rightarrow> jval) \<Rightarrow> 'a option \<Rightarrow> jval obj" where
  "opt_field k f x = (case x of None \<Rightarrow> [] | Some v \<Rightarrow> [(k, f v)])"

definition j_strs :: "string list \<Rightarrow> jval" where
  "j_strs xs = JArr (map JStr xs)"

definition j_starter :: "string \<times> string \<Rightarrow> jval" where
  "j_starter q = JObj [(''zh-CN'', JStr (fst q)), (''en'', JStr (snd q))]"

definition j_openclaw :: "pack_openclaw \<Rightarrow> jval" where
  "j_openclaw o' = JObj (opt_field ''agentId'' JStr (oc_agentId o') @
     opt_field ''persona'' JStr (oc_persona o'))"

definition j_tools :: "pack_tools \<Rightarrow> jval" where
  "j_tools t = JObj ([(''read'', JStr (tl_read t))] @ opt_field ''write'' JStr (tl_write t))"

definition j_prompts :: "pack_prompts \<Rightarrow> jval" where
  "j_prompts p = JObj ([(''system'', JStr (pr_system p))] @
     opt_field ''text2sql'' JStr (pr_text2sql p) @
     opt_field ''personalWrite'' JStr (pr_personalWrite p))"

definition j_data :: "pack_data \<Rightarrow> jval" where
  "j_data d = JObj ([(''readTables'', j_strs (dt_readTables d))] @
     opt_field ''writeTables'' j_strs (dt_writeTables d) @
     opt_field ''snapshotView'' JStr (dt_snapshotView d))"

definition j_rules :: "pack_rules \<Rightarrow> jval" where
  "j_rules r = JObj ([(''engine'', JStr (rule_engine_name (ru_engine r)))] @
     opt_field ''activeStandardHint'' JStr (ru_activeStandardHint r) @
     opt_field ''drugIdResolver'' JStr (ru_drugIdResolver r))"

definition j_pipeline :: "pack_pipeline \<Rightarrow> jval" where
  "j_pipeline p = JObj [(''stages'', j_strs (map step_name (pl_stages p))),
     (''decisionBuilder'', JStr (decision_builder_name (pl_decisionBuilder p)))]"

definition j_allowAlways :: "bool \<Rightarrow> jval" where
  "j_allowAlways b = JObj [(''allowAlways'', JBool b)]"

definition j_consent :: "pack_consent \<Rightarrow> jval" where
  "j_consent c = JObj ([(''read'', j_allowAlways (cn_read_allowAlways c))] @
     opt_field ''write'' j_allowAlways (cn_write_allowAlways c))"

definition j_audit :: "pack_audit \<Rightarrow> jval" where
  "j_audit a = JObj ([(''businessComponent'', JStr (au_businessComponent a)),
     (''decisionComponent'', JStr (au_decisionComponent a))] @
     opt_field ''ruleEvalComponent'' JStr (au_ruleEvalComponent a))"

definition j_displayName :: "agent_pack \<Rightarrow> jval" where
  "j_displayName p = JObj [(''zh-CN'', JStr (ap_name_zh p)), (''en'', JStr (ap_name_en p))]"

definition pack_json :: "agent_pack \<Rightarrow> jval" where
  "pack_json p = JObj
     ([(''id'', JStr (ap_id p)), (''version'', JStr (ap_version p)),
       (''displayName'', j_displayName p)] @
      opt_field ''domain'' j_strs (ap_domain p) @
      opt_field ''starterQuestions'' (\<lambda>qs. JArr (map j_starter qs)) (ap_starters p) @
      opt_field ''openclaw'' j_openclaw (ap_openclaw p) @
      [(''tools'', j_tools (ap_tools p)), (''prompts'', j_prompts (ap_prompts p)),
       (''data'', j_data (ap_data p)), (''rules'', j_rules (ap_rules p)),
       (''pipeline'', j_pipeline (ap_pipeline p)), (''consent'', j_consent (ap_consent p)),
       (''audit'', j_audit (ap_audit p))])"

subsection \<open>Well-formed packs\<close>

definition text_ok :: "string \<Rightarrow> bool" where
  "text_ok s \<longleftrightarrow> 1 \<le> js_length s"

definition opt_ok :: "('a \<Rightarrow> bool) \<Rightarrow> 'a option \<Rightarrow> bool" where
  "opt_ok P x = (case x of None \<Rightarrow> True | Some v \<Rightarrow> P v)"

definition sections_ok :: "agent_pack \<Rightarrow> bool" where
  "sections_ok p \<longleftrightarrow>
     text_ok (tl_read (ap_tools p)) \<and> opt_ok text_ok (tl_write (ap_tools p)) \<and>
     text_ok (pr_system (ap_prompts p)) \<and> opt_ok text_ok (pr_text2sql (ap_prompts p)) \<and>
     opt_ok text_ok (pr_personalWrite (ap_prompts p)) \<and>
     dt_readTables (ap_data p) \<noteq> [] \<and> list_all text_ok (dt_readTables (ap_data p)) \<and>
     opt_ok (list_all text_ok) (dt_writeTables (ap_data p)) \<and>
     opt_ok text_ok (dt_snapshotView (ap_data p)) \<and>
     opt_ok text_ok (ru_activeStandardHint (ap_rules p)) \<and>
     opt_ok text_ok (ru_drugIdResolver (ap_rules p)) \<and>
     pl_stages (ap_pipeline p) \<noteq> [] \<and>
     list_all (\<lambda>s. s \<in> set AGENT_PACK_PIPELINE_STAGES) (pl_stages (ap_pipeline p)) \<and>
     text_ok (au_businessComponent (ap_audit p)) \<and> text_ok (au_decisionComponent (ap_audit p)) \<and>
     opt_ok text_ok (au_ruleEvalComponent (ap_audit p))"

definition pack_ok :: "agent_pack \<Rightarrow> bool" where
  "pack_ok p \<longleftrightarrow>
     valid_pack_id (ap_id p) \<and> text_ok (ap_version p) \<and> text_ok (ap_name_zh p) \<and>
     text_ok (ap_name_en p) \<and> opt_ok (list_all text_ok) (ap_domain p) \<and>
     opt_ok (\<lambda>qs. length qs = AGENT_PACK_STARTER_QUESTION_COUNT \<and>
               list_all (\<lambda>q. text_ok (fst q) \<and> text_ok (snd q)) qs) (ap_starters p) \<and>
     opt_ok (\<lambda>o'. opt_ok text_ok (oc_agentId o') \<and> opt_ok text_ok (oc_persona o')) (ap_openclaw p) \<and>
     sections_ok p"

named_theorems pack_fields \<open>what a reader gets back from a written field\<close>

lemma p_str_j [pack_fields]: "text_ok s \<Longrightarrow> p_str (JStr s) = Some s"
  by (simp add: p_str_def text_ok_def)

lemma p_opt_undef [pack_fields]: "p_opt p JUndef = Some None"
  by (simp add: p_opt_def)

lemma p_opt_val [pack_fields]: "v \<noteq> JUndef \<Longrightarrow> p_opt p v = map_option Some (p v)"
  by (simp add: p_opt_def)

lemma p_all_map: "(\<And>x. P x \<Longrightarrow> p (j x) = Some x) \<Longrightarrow> list_all P xs \<Longrightarrow> p_all p (map j xs) = Some xs"
  by (induction xs) auto

lemma p_list_strs [pack_fields]: "list_all text_ok xs \<Longrightarrow> p_list p_str (j_strs xs) = Some xs"
  by (simp add: p_list_def j_strs_def p_all_map [where P = text_ok] p_str_j)

lemma p_nonempty_strs [pack_fields]:
  "xs \<noteq> [] \<Longrightarrow> list_all text_ok xs \<Longrightarrow> p_nonempty p_str (j_strs xs) = Some xs"
  by (cases xs) (simp_all add: p_nonempty_def p_list_strs)

lemma j_strs_defined [pack_fields]: "j_strs xs \<noteq> JUndef"
  by (simp add: j_strs_def)

lemma own_prop_obj: "own_prop (JObj m) k = (case map_of m k of Some w \<Rightarrow> w | None \<Rightarrow> JUndef)"
  by (simp add: own_prop_def)

lemma opt_field_map_of:
  "map_of (opt_field k f x) j = (if j = k then map_option f x else None)"
  by (cases x) (simp_all add: opt_field_def)

lemma opt_field_keys: "obj_keys (opt_field k f x) = (if x = None then [] else [k])"
  by (cases x) (simp_all add: opt_field_def obj_keys_def)

lemmas field_simps' = own_prop_obj opt_field_map_of map_add_def strict_keys_def obj_keys_def
  opt_field_def opt_ok_def

lemma p_starter_j [pack_fields]:
  "text_ok (fst q) \<and> text_ok (snd q) \<Longrightarrow> p_starter (j_starter q) = Some q"
  by (simp add: p_starter_def j_starter_def field_simps' p_str_j)

lemma p_starters_j [pack_fields]:
  "length qs = AGENT_PACK_STARTER_QUESTION_COUNT \<Longrightarrow>
     list_all (\<lambda>q. text_ok (fst q) \<and> text_ok (snd q)) qs \<Longrightarrow>
     p_starters (JArr (map j_starter qs)) = Some qs"
  by (simp add: p_starters_def p_list_def
      p_all_map [where P = "\<lambda>q. text_ok (fst q) \<and> text_ok (snd q)"] p_starter_j)

lemma p_openclaw_j [pack_fields]:
  "opt_ok text_ok (oc_agentId o') \<Longrightarrow> opt_ok text_ok (oc_persona o') \<Longrightarrow>
     p_openclaw (j_openclaw o') = Some o'"
  by (cases "oc_agentId o'"; cases "oc_persona o'")
     (simp_all add: p_openclaw_def j_openclaw_def is_obj_def field_simps' p_str_j p_opt_def)

lemma p_tools_j [pack_fields]:
  "text_ok (tl_read t) \<Longrightarrow> opt_ok text_ok (tl_write t) \<Longrightarrow> p_tools (j_tools t) = Some t"
  by (cases "tl_write t") (simp_all add: p_tools_def j_tools_def field_simps' p_str_j p_opt_def)

lemma p_prompts_j [pack_fields]:
  "text_ok (pr_system p) \<Longrightarrow> opt_ok text_ok (pr_text2sql p) \<Longrightarrow> opt_ok text_ok (pr_personalWrite p) \<Longrightarrow>
     p_prompts (j_prompts p) = Some p"
  by (cases "pr_text2sql p"; cases "pr_personalWrite p")
     (simp_all add: p_prompts_def j_prompts_def field_simps' p_str_j p_opt_def)

lemma p_data_j [pack_fields]:
  "dt_readTables d \<noteq> [] \<Longrightarrow> list_all text_ok (dt_readTables d) \<Longrightarrow>
     opt_ok (list_all text_ok) (dt_writeTables d) \<Longrightarrow> opt_ok text_ok (dt_snapshotView d) \<Longrightarrow>
     p_data (j_data d) = Some d"
  by (cases "dt_writeTables d"; cases "dt_snapshotView d")
     (simp_all add: p_data_def j_data_def field_simps' pack_fields)

lemma p_rules_j [pack_fields]:
  "opt_ok text_ok (ru_activeStandardHint r) \<Longrightarrow> opt_ok text_ok (ru_drugIdResolver r) \<Longrightarrow>
     p_rules (j_rules r) = Some r"
  by (cases "ru_engine r"; cases "ru_activeStandardHint r"; cases "ru_drugIdResolver r")
     (simp_all add: p_rules_def j_rules_def field_simps' pack_fields p_enum_def rule_engine_name_def)

lemma p_stage_j:
  "s \<in> set AGENT_PACK_PIPELINE_STAGES \<Longrightarrow>
     p_enum step_name AGENT_PACK_PIPELINE_STAGES (JStr (step_name s)) = Some s"
  by (cases s) (simp_all add: p_enum_def AGENT_PACK_PIPELINE_STAGES_def step_name_def)

lemma p_pipeline_j [pack_fields]:
  assumes "pl_stages p \<noteq> []" "list_all (\<lambda>s. s \<in> set AGENT_PACK_PIPELINE_STAGES) (pl_stages p)"
  shows "p_pipeline (j_pipeline p) = Some p"
proof -
  have "p_list (p_enum step_name AGENT_PACK_PIPELINE_STAGES) (j_strs (map step_name (pl_stages p))) =
      Some (pl_stages p)"
    using p_all_map [where P = "\<lambda>s. s \<in> set AGENT_PACK_PIPELINE_STAGES"
        and j = "\<lambda>s. JStr (step_name s)", OF p_stage_j assms(2)]
    by (simp add: p_list_def j_strs_def comp_def)
  with assms(1) have "p_nonempty (p_enum step_name AGENT_PACK_PIPELINE_STAGES)
      (j_strs (map step_name (pl_stages p))) = Some (pl_stages p)"
    by (cases "pl_stages p") (simp_all add: p_nonempty_def)
  then show ?thesis
    by (cases "pl_decisionBuilder p")
       (simp_all add: p_pipeline_def j_pipeline_def field_simps' p_enum_def decision_builder_name_def)
qed

lemma p_consent_j [pack_fields]: "p_consent (j_consent c) = Some c"
  by (cases "cn_write_allowAlways c")
     (simp_all add: p_consent_def j_consent_def j_allowAlways_def p_allowAlways_def p_bool_def
      field_simps' p_opt_def)

lemma p_audit_j [pack_fields]:
  "text_ok (au_businessComponent a) \<Longrightarrow> text_ok (au_decisionComponent a) \<Longrightarrow>
     opt_ok text_ok (au_ruleEvalComponent a) \<Longrightarrow> p_audit (j_audit a) = Some a"
  by (cases "au_ruleEvalComponent a") (simp_all add: p_audit_def j_audit_def field_simps' pack_fields)

lemma pack_json_keys: "strict_keys PACK_KEYS (pack_json p)"
  by (cases "ap_domain p"; cases "ap_starters p"; cases "ap_openclaw p")
     (simp_all add: strict_keys_def pack_json_def PACK_KEYS_def obj_keys_def opt_field_def)

lemma pack_json_prop:
  "own_prop (pack_json p) k =
     (case map_of
        [(''id'', JStr (ap_id p)), (''version'', JStr (ap_version p)),
         (''displayName'', j_displayName p), (''tools'', j_tools (ap_tools p)),
         (''prompts'', j_prompts (ap_prompts p)), (''data'', j_data (ap_data p)),
         (''rules'', j_rules (ap_rules p)), (''pipeline'', j_pipeline (ap_pipeline p)),
         (''consent'', j_consent (ap_consent p)), (''audit'', j_audit (ap_audit p))] k of
        Some w \<Rightarrow> w
      | None \<Rightarrow>
          if k = ''domain'' then (case ap_domain p of Some d \<Rightarrow> j_strs d | None \<Rightarrow> JUndef)
          else if k = ''starterQuestions''
            then (case ap_starters p of Some qs \<Rightarrow> JArr (map j_starter qs) | None \<Rightarrow> JUndef)
          else if k = ''openclaw''
            then (case ap_openclaw p of Some o' \<Rightarrow> j_openclaw o' | None \<Rightarrow> JUndef)
          else JUndef)"
  by (simp add: pack_json_def own_prop_obj map_add_def opt_field_map_of split: option.split)

lemma j_displayName_props:
  "own_prop (j_displayName p) ''zh-CN'' = JStr (ap_name_zh p)"
  "own_prop (j_displayName p) ''en'' = JStr (ap_name_en p)"
  by (simp_all add: j_displayName_def own_prop_obj)

lemma j_openclaw_defined: "j_openclaw o' \<noteq> JUndef"
  by (simp add: j_openclaw_def)

lemma pack_parse_json:
  assumes "pack_ok p"
  shows "parse_pack (pack_json p) = Some p"
proof -
  note ok = assms [unfolded pack_ok_def sections_ok_def]
  have "p_id (JStr (ap_id p)) = Some (ap_id p)" using ok by (simp add: p_id_def)
  moreover have "p_opt (p_list p_str) (own_prop (pack_json p) ''domain'') = Some (ap_domain p)"
    using ok by (cases "ap_domain p") (simp_all add: pack_json_prop pack_fields opt_ok_def)
  moreover have "p_opt p_starters (own_prop (pack_json p) ''starterQuestions'') = Some (ap_starters p)"
    using ok by (cases "ap_starters p") (simp_all add: pack_json_prop pack_fields opt_ok_def)
  moreover have "p_opt p_openclaw (own_prop (pack_json p) ''openclaw'') = Some (ap_openclaw p)"
    using ok by (cases "ap_openclaw p")
      (simp_all add: pack_json_prop pack_fields opt_ok_def j_openclaw_defined)
  ultimately show ?thesis
    using ok by (simp add: parse_pack_def pack_json_keys pack_json_prop j_displayName_props pack_fields)
qed

subsection \<open>Whatever is read is well formed\<close>

lemma p_str_ok: "p_str v = Some s \<Longrightarrow> text_ok s"
  by (auto simp: p_str_def text_ok_def split: jval.splits if_splits)

lemma p_opt_ok: "(\<And>w x. p w = Some x \<Longrightarrow> P x) \<Longrightarrow> p_opt p v = Some y \<Longrightarrow> opt_ok P y"
  by (auto simp: p_opt_def opt_ok_def split: if_splits)

lemma p_all_ok: "(\<And>w x. p w = Some x \<Longrightarrow> P x) \<Longrightarrow> p_all p vs = Some xs \<Longrightarrow> list_all P xs"
  by (induction vs arbitrary: xs) (auto split: option.splits)

lemma p_list_ok: "(\<And>w x. p w = Some x \<Longrightarrow> P x) \<Longrightarrow> p_list p v = Some xs \<Longrightarrow> list_all P xs"
  using p_all_ok [of p P] by (auto simp: p_list_def split: jval.splits)

lemma p_nonempty_ok:
  "(\<And>w x. p w = Some x \<Longrightarrow> P x) \<Longrightarrow> p_nonempty p v = Some xs \<Longrightarrow> xs \<noteq> [] \<and> list_all P xs"
  using p_list_ok [of p P v] by (auto simp: p_nonempty_def split: option.splits list.splits)

lemma p_opt_str_ok: "p_opt p_str v = Some y \<Longrightarrow> opt_ok text_ok y"
  by (rule p_opt_ok [OF p_str_ok])

lemma p_opt_strs_ok: "p_opt (p_list p_str) v = Some y \<Longrightarrow> opt_ok (list_all text_ok) y"
  by (rule p_opt_ok [OF p_list_ok [OF p_str_ok]])

lemma p_stage_ok: "p_enum step_name AGENT_PACK_PIPELINE_STAGES v = Some s \<Longrightarrow> s \<in> set AGENT_PACK_PIPELINE_STAGES"
  by (auto simp: p_enum_def find_Some_iff split: jval.splits)

lemma p_strs_ok: "p_nonempty p_str v = Some xs \<Longrightarrow> xs \<noteq> [] \<and> list_all text_ok xs"
  using p_nonempty_ok [of p_str text_ok v xs] p_str_ok by blast

lemma p_stages_ok:
  "p_nonempty (p_enum step_name AGENT_PACK_PIPELINE_STAGES) v = Some xs \<Longrightarrow>
     xs \<noteq> [] \<and> list_all (\<lambda>s. s \<in> set AGENT_PACK_PIPELINE_STAGES) xs"
  using p_nonempty_ok [of "p_enum step_name AGENT_PACK_PIPELINE_STAGES"
      "\<lambda>s. s \<in> set AGENT_PACK_PIPELINE_STAGES" v xs] p_stage_ok by blast

lemmas reader_ok = p_str_ok p_opt_str_ok p_opt_strs_ok p_strs_ok p_stages_ok

lemma p_starter_ok: "p_starter v = Some q \<Longrightarrow> text_ok (fst q) \<and> text_ok (snd q)"
  by (auto simp: p_starter_def dest: p_str_ok split: if_splits option.splits)

lemma p_starters_ok:
  "p_starters v = Some qs \<Longrightarrow> length qs = AGENT_PACK_STARTER_QUESTION_COUNT \<and>
     list_all (\<lambda>q. text_ok (fst q) \<and> text_ok (snd q)) qs"
  using p_list_ok [of p_starter "\<lambda>q. text_ok (fst q) \<and> text_ok (snd q)" v qs, OF p_starter_ok]
  by (auto simp: p_starters_def split: option.splits if_splits)

lemma p_openclaw_ok:
  "p_openclaw v = Some o' \<Longrightarrow> opt_ok text_ok (oc_agentId o') \<and> opt_ok text_ok (oc_persona o')"
  by (auto simp: p_openclaw_def dest: reader_ok split: if_splits option.splits)

lemma p_sections_ok:
  "p_tools v = Some t \<Longrightarrow> text_ok (tl_read t) \<and> opt_ok text_ok (tl_write t)"
  "p_prompts v = Some r \<Longrightarrow> text_ok (pr_system r) \<and> opt_ok text_ok (pr_text2sql r) \<and>
     opt_ok text_ok (pr_personalWrite r)"
  "p_data v = Some d \<Longrightarrow> dt_readTables d \<noteq> [] \<and> list_all text_ok (dt_readTables d) \<and>
     opt_ok (list_all text_ok) (dt_writeTables d) \<and> opt_ok text_ok (dt_snapshotView d)"
  "p_rules v = Some u \<Longrightarrow> opt_ok text_ok (ru_activeStandardHint u) \<and>
     opt_ok text_ok (ru_drugIdResolver u)"
  "p_pipeline v = Some pl \<Longrightarrow> pl_stages pl \<noteq> [] \<and>
     list_all (\<lambda>s. s \<in> set AGENT_PACK_PIPELINE_STAGES) (pl_stages pl)"
  "p_audit v = Some a \<Longrightarrow> text_ok (au_businessComponent a) \<and> text_ok (au_decisionComponent a) \<and>
     opt_ok text_ok (au_ruleEvalComponent a)"
  by (auto simp: p_tools_def p_prompts_def p_data_def p_rules_def p_pipeline_def p_audit_def
      dest: reader_ok split: if_splits option.splits)

lemma p_id_ok: "p_id v = Some i \<Longrightarrow> valid_pack_id i"
  by (auto simp: p_id_def split: jval.splits if_splits)

lemma parse_pack_ok:
  assumes "parse_pack v = Some p"
  shows "pack_ok p"
proof -
  have "opt_ok (\<lambda>qs. length qs = AGENT_PACK_STARTER_QUESTION_COUNT \<and>
      list_all (\<lambda>q. text_ok (fst q) \<and> text_ok (snd q)) qs) (ap_starters p)"
    using assms
    by (auto simp: parse_pack_def split: if_splits bind_splits intro: p_opt_ok [OF p_starters_ok])
  moreover have "opt_ok (\<lambda>o'. opt_ok text_ok (oc_agentId o') \<and> opt_ok text_ok (oc_persona o')) (ap_openclaw p)"
    using assms by (auto simp: parse_pack_def split: if_splits bind_splits intro: p_opt_ok [OF p_openclaw_ok])
  moreover have "sections_ok p"
    using assms by (auto simp: parse_pack_def sections_ok_def dest: p_sections_ok split: if_splits bind_splits)
  ultimately show ?thesis
    using assms by (auto simp: parse_pack_def pack_ok_def dest: reader_ok p_id_ok split: if_splits bind_splits)
qed

text \<open>
  C36 -- a pack that is written to its manifest file and read back is the same pack, and
  whatever the reader accepts is well formed, so it can be written and read again: the schema
  loses no field of a document it accepts.
\<close>

theorem pack_roundtrip:
  assumes "parse_pack v = Some p"
  shows "pack_ok p \<and> parse_pack (pack_json p) = Some p"
  using parse_pack_ok [OF assms] pack_parse_json by blast

subsection \<open>Summaries for the panels\<close>

definition summary_fields :: "agent_pack \<Rightarrow> jval \<Rightarrow> jval obj" where
  "summary_fields p pipeline =
     [(''id'', JStr (ap_id p)), (''version'', JStr (ap_version p)),
      (''displayName'', j_displayName p)] @
     opt_field ''domain'' j_strs (ap_domain p) @
     opt_field ''starterQuestions'' (\<lambda>qs. JArr (map j_starter qs)) (ap_starters p) @
     opt_field ''openclaw'' j_openclaw (ap_openclaw p) @
     [(''tools'', j_tools (ap_tools p)), (''pipeline'', pipeline)]"

definition summarizeAgentPack :: "agent_pack \<Rightarrow> jval" where
  "summarizeAgentPack p = JObj (summary_fields p
     (JObj [(''stages'', j_strs (map step_name (pl_stages (ap_pipeline p))))]))"

text \<open>The later \<open>pipeline\<close> key overwrites the one of the summary in place.\<close>

definition describeAgentPackDetail :: "agent_pack \<Rightarrow> jval" where
  "describeAgentPackDetail p = JObj (summary_fields p (j_pipeline (ap_pipeline p)) @
     [(''prompts'', j_prompts (ap_prompts p)), (''data'', j_data (ap_data p)),
      (''rules'', j_rules (ap_rules p)), (''consent'', j_consent (ap_consent p)),
      (''audit'', j_audit (ap_audit p))])"

subsection \<open>Grantable scopes\<close>

definition AGENT_DOMAIN_SCOPES :: "string list" where
  "AGENT_DOMAIN_SCOPES =
     [''panel.browse'', ''panel.audit'', ''panel.ledger'', ''panel.compliance'', ''tra.chat'',
      ''tra.write'']"

definition deriveAgentDomainScopes :: "agent_pack \<Rightarrow> string list" where
  "deriveAgentDomainScopes p =
     (let browse = (if dt_readTables (ap_data p) \<noteq> [] then {''panel.browse'', ''tra.chat''} else {});
          write = (if (case tl_write (ap_tools p) of Some w \<Rightarrow> w \<noteq> [] | None \<Rightarrow> False)
                   then {''tra.write''} else {});
          ledger = (if LEDGER_COMMIT \<in> set (pl_stages (ap_pipeline p)) then {''panel.ledger''} else {});
          domains = (case ap_domain p of Some d \<Rightarrow> d | None \<Rightarrow> []);
          compliance = (if ap_id p = ''compliance-auditor'' \<or> ''compliance'' \<in> set domains
                        then {''panel.compliance''} else {});
          scopes = browse \<union> write \<union> {''panel.audit''} \<union> ledger \<union> compliance
      in filter (\<lambda>s. s \<in> scopes) AGENT_DOMAIN_SCOPES)"

definition isAgentDomainScope :: "string \<Rightarrow> bool" where
  "isAgentDomainScope s \<longleftrightarrow> s \<in> set AGENT_DOMAIN_SCOPES"

definition resolveAgentBrowseTables :: "agent_pack \<Rightarrow> string list" where
  "resolveAgentBrowseTables p = dt_readTables (ap_data p)"

lemma scopes_subset: "set (deriveAgentDomainScopes p) \<subseteq> set AGENT_DOMAIN_SCOPES"
  by (auto simp: deriveAgentDomainScopes_def Let_def)

lemma scopes_distinct: "distinct (deriveAgentDomainScopes p)"
  by (simp add: deriveAgentDomainScopes_def Let_def AGENT_DOMAIN_SCOPES_def)

text \<open>
  A pack accepted by the schema can always be granted browsing, chat and its audit
  panel; it can be granted writing only if it declares a write tool, the ledger panel only if
  its pipeline commits evidence, the compliance panel only if it is a compliance pack.
\<close>

theorem scopes_of_accepted_pack:
  assumes "parse_pack v = Some p"
  shows "set (deriveAgentDomainScopes p) =
     {''panel.browse'', ''tra.chat'', ''panel.audit''} \<union>
     (if tl_write (ap_tools p) \<noteq> None then {''tra.write''} else {}) \<union>
     (if LEDGER_COMMIT \<in> set (pl_stages (ap_pipeline p)) then {''panel.ledger''} else {}) \<union>
     (if ap_id p = ''compliance-auditor'' \<or>
         (\<exists>d. ap_domain p = Some d \<and> ''compliance'' \<in> set d) then {''panel.compliance''} else {})"
proof -
  have "dt_readTables (ap_data p) \<noteq> []" and "opt_ok text_ok (tl_write (ap_tools p))"
    using parse_pack_ok [OF assms] by (simp_all add: pack_ok_def sections_ok_def)
  moreover from this have "tl_write (ap_tools p) \<noteq> Some []"
    by (auto simp: opt_ok_def text_ok_def js_length_def)
  ultimately show ?thesis
    by (cases "tl_write (ap_tools p)"; cases "ap_domain p")
       (auto simp: deriveAgentDomainScopes_def Let_def AGENT_DOMAIN_SCOPES_def)
qed

definition demo_pack :: "string \<Rightarrow> agent_pack" where
  "demo_pack i =
     \<lparr>ap_id = i, ap_version = ''1.0.0'', ap_name_zh = ''z'', ap_name_en = ''e'',
      ap_domain = Some [''compliance''], ap_starters = None,
      ap_openclaw = Some \<lparr>oc_agentId = Some ''main'', oc_persona = None\<rparr>,
      ap_tools = \<lparr>tl_read = ''trustclaw_tra_query'', tl_write = None\<rparr>,
      ap_prompts = \<lparr>pr_system = ''prompts/system.md'', pr_text2sql = None, pr_personalWrite = None\<rparr>,
      ap_data = \<lparr>dt_readTables = [''users''], dt_writeTables = None, dt_snapshotView = None\<rparr>,
      ap_rules = \<lparr>ru_engine = NoEngine, ru_activeStandardHint = None, ru_drugIdResolver = None\<rparr>,
      ap_pipeline = \<lparr>pl_stages = [TEXT2SQL_GEN, DB_QUERY], pl_decisionBuilder = PassThrough\<rparr>,
      ap_consent = \<lparr>cn_read_allowAlways = True, cn_write_allowAlways = None\<rparr>,
      ap_audit = \<lparr>au_businessComponent = ''b'', au_decisionComponent = ''d'', au_ruleEvalComponent = None\<rparr>\<rparr>"

lemma demo_pack_ok: "valid_pack_id i \<Longrightarrow> pack_ok (demo_pack i)"
  by (simp add: pack_ok_def sections_ok_def demo_pack_def opt_ok_def text_ok_def js_length_def
      chr_in_def AGENT_PACK_PIPELINE_STAGES_def)

lemma demo_id_ok: "valid_pack_id ''p-1''"
  by (simp add: valid_pack_id_def id_char_def is_digit_def chr_in_def)

lemma demo_pack_parsed: "parse_pack (pack_json (demo_pack ''p-1'')) = Some (demo_pack ''p-1'')"
  by (rule pack_parse_json [OF demo_pack_ok [OF demo_id_ok]])

lemma pack_roundtrip_witness: "pack_ok (demo_pack ''p-1'')"
  using pack_roundtrip [OF demo_pack_parsed] by blast

lemma scopes_of_accepted_pack_witness:
  "set (deriveAgentDomainScopes (demo_pack ''p-1'')) =
     {''panel.browse'', ''tra.chat'', ''panel.audit'', ''panel.compliance''}"
  using scopes_of_accepted_pack [OF demo_pack_parsed] by (auto simp: demo_pack_def)

end
