(* ===== verification/Agent_Pack.thy ===== *)
theory Agent_Pack
  imports Pack_Schema "HOL-Library.List_Lexorder" "HOL-Library.Char_ord"
begin

text \<open>
  Agent packs on disk and their registry (\<open>runtime/agent-pack/load.ts\<close>, \<open>registry.ts\<close>,
  \<open>guidance.ts\<close>, \<open>text2sql-prompt.ts\<close>).  The file system maps absolute paths to nodes in
  the order they were made; the agents directory is given by an absolute path.  A manifest
  file is the JSON value it parses to, or \<open>None\<close> where it does not parse; a prompt file is
  its text.  Making a directory always succeeds: the refusal of the file system where a file is in the
  way, or where it may not be written, is left out, as is what lies behind a symbolic link to a
  directory, whose pack the code would load.
\<close>

datatype fs_node = DirNode | LinkNode | JsonFile "jval option" | TextFile string

type_synonym pack_fs = "fs_node obj"

datatype pack_error =
    AssetEscapes string
  | FileMissing string
  | BadJson string
  | InvalidPack string
  | PackDirEscapes string
  | RefuseWrite string
  | RefuseDelete
  | DefaultPackMissing string "string list"
  | NoPacksFound string
  | UnknownPack string

record resolved_pack =
  rv_doc :: agent_pack
  rv_packDir :: string
  rv_packFile :: string

definition PACK_FILENAME :: string where "PACK_FILENAME = ''agent.pack.json''"

definition exists_path :: "pack_fs \<Rightarrow> string \<Rightarrow> bool" where
  "exists_path fs p = (obj_get fs p \<noteq> None)"

subsection \<open>Assets of a pack\<close>

definition drop_dot_slash :: "string \<Rightarrow> string" where
  "drop_dot_slash s = (if starts_with s ''./'' then drop 2 s else s)"

text \<open>The guard \<open>p.startsWith(root + path.sep) || p === root\<close>.\<close>

definition under :: "string \<Rightarrow> string \<Rightarrow> bool" where
  "under base p \<longleftrightarrow> starts_with p (base @ [sep]) \<or> p = base"

definition resolvePackAssetPath :: "string \<Rightarrow> string \<Rightarrow> string \<Rightarrow> pack_error + string" where
  "resolvePackAssetPath cwd packDir rel =
     (let normalized = drop_dot_slash rel;
          resolved = path_resolve cwd [packDir, normalized];
          packRoot = path_resolve cwd [packDir]
      in if \<not> under packRoot resolved then Inl (AssetEscapes rel) else Inr resolved)"

definition readPackAsset :: "pack_fs \<Rightarrow> string \<Rightarrow> string \<Rightarrow> string \<Rightarrow> pack_error + string" where
  "readPackAsset fs cwd packDir rel =
     (case resolvePackAssetPath cwd packDir rel of
        Inl e \<Rightarrow> Inl e
      | Inr p \<Rightarrow> (case obj_get fs p of Some (TextFile t) \<Rightarrow> Inr (trim t) | _ \<Rightarrow> Inl (FileMissing p)))"

subsection \<open>Loading\<close>

definition dirname :: "string \<Rightarrow> string" where
  "dirname p = sep # join [sep] (butlast (segs p))"

definition resolveTrustclawAgentsDir :: "pack_fs \<Rightarrow> string \<Rightarrow> string" where
  "resolveTrustclawAgentsDir fs moduleDir =
     (let candidates = [path_resolve moduleDir [''..'', ''..'', ''agents''],
                        path_resolve moduleDir [''..'', ''..'', ''..'', ''trustclaw'', ''agents'']]
      in case find (\<lambda>d. exists_path fs (path_join d [''glp1'', PACK_FILENAME])) candidates of
           Some d \<Rightarrow> d | None \<Rightarrow> hd candidates)"

definition loadAgentPackFromFile :: "pack_fs \<Rightarrow> string \<Rightarrow> pack_error + resolved_pack" where
  "loadAgentPackFromFile fs packFile =
     (case obj_get fs packFile of
        Some (JsonFile (Some raw)) \<Rightarrow>
          (case parse_pack raw of
             Some p \<Rightarrow> Inr \<lparr>rv_doc = p, rv_packDir = dirname packFile, rv_packFile = packFile\<rparr>
           | None \<Rightarrow> Inl (InvalidPack packFile))
      | Some _ \<Rightarrow> Inl (BadJson packFile)
      | None \<Rightarrow> Inl (FileMissing packFile))"

text \<open>\<open>readdirSync\<close>: the names one level below, with their nodes.\<close>

definition readdir :: "pack_fs \<Rightarrow> string \<Rightarrow> (string \<times> fs_node) list" where
  "readdir fs dir =
     map (\<lambda>(p, n). (last (segs p), n))
       (filter (\<lambda>(p, n). segs p \<noteq> [] \<and> butlast (segs p) = segs dir) fs)"

definition discoverAgentPackFiles :: "pack_fs \<Rightarrow> string \<Rightarrow> string list" where
  "discoverAgentPackFiles fs agentsDir =
     (if \<not> exists_path fs agentsDir then []
      else sort
        (filter (exists_path fs)
          (map (\<lambda>(name, n). path_join agentsDir [name, PACK_FILENAME])
            (filter (\<lambda>(name, n). \<not> starts_with name ''_'' \<and> (n = DirNode \<or> n = LinkNode))
              (readdir fs agentsDir)))))"

fun map_result :: "('a \<Rightarrow> 'e + 'b) \<Rightarrow> 'a list \<Rightarrow> 'e + 'b list" where
  "map_result f [] = Inr []"
| "map_result f (x # xs) =
     (case f x of Inl e \<Rightarrow> Inl e
      | Inr y \<Rightarrow> (case map_result f xs of Inl e \<Rightarrow> Inl e | Inr ys \<Rightarrow> Inr (y # ys)))"

definition loadAgentPacksFromDir :: "pack_fs \<Rightarrow> string \<Rightarrow> pack_error + resolved_pack list" where
  "loadAgentPacksFromDir fs agentsDir =
     map_result (loadAgentPackFromFile fs) (discoverAgentPackFiles fs agentsDir)"

definition validateAgentPackDocument :: "jval \<Rightarrow> agent_pack option" where
  "validateAgentPackDocument raw = parse_pack raw"

text \<open>The issues zod reports for a refused document are those of the library.\<close>

definition inspectAgentPackDocument ::
  "(jval \<Rightarrow> (string list \<times> string) list) \<Rightarrow> jval \<Rightarrow> (string \<times> string) list + agent_pack" where
  "inspectAgentPackDocument issues raw =
     (case parse_pack raw of
        Some p \<Rightarrow> Inr p
      | None \<Rightarrow> Inl (map (\<lambda>(path, msg). (if path = [] then ''(root)'' else join ''.'' path, msg))
                      (issues raw)))"

subsection \<open>Writing and deleting\<close>

definition assertPackDirUnderAgentsRoot :: "string \<Rightarrow> string \<Rightarrow> string \<Rightarrow> pack_error + string" where
  "assertPackDirUnderAgentsRoot cwd agentsDir packId =
     (let agentsRoot = path_resolve cwd [agentsDir];
          packDir = path_resolve cwd [agentsDir, packId]
      in if \<not> under agentsRoot packDir then Inl (PackDirEscapes packId) else Inr packDir)"

definition mkdir_one :: "string list \<Rightarrow> pack_fs \<Rightarrow> pack_fs" where
  "mkdir_one ss fs =
     (let p = sep # join [sep] ss in if exists_path fs p then fs else obj_set fs p DirNode)"

definition mkdir_p :: "pack_fs \<Rightarrow> string \<Rightarrow> pack_fs" where
  "mkdir_p fs dir = fold mkdir_one (prefixes (segs dir)) fs"

definition writeAgentPackDocument ::
  "pack_fs \<Rightarrow> string \<Rightarrow> string \<Rightarrow> agent_pack \<Rightarrow> string option \<Rightarrow>
     pack_error + (string \<times> string \<times> pack_fs)" where
  "writeAgentPackDocument fs cwd agentsDir p packDirOpt =
     (let agentsRoot = path_resolve cwd [agentsDir] in
      case (case packDirOpt of
              Some d \<Rightarrow> if trim d \<noteq> [] then Inr (path_resolve cwd [d])
                        else assertPackDirUnderAgentsRoot cwd agentsDir (ap_id p)
            | None \<Rightarrow> assertPackDirUnderAgentsRoot cwd agentsDir (ap_id p)) of
        Inl e \<Rightarrow> Inl e
      | Inr packDir \<Rightarrow>
          if \<not> under agentsRoot packDir then Inl (RefuseWrite (ap_id p))
          else let packFile = path_join packDir [PACK_FILENAME]
               in Inr (packDir, packFile,
                    obj_set (mkdir_p fs packDir) packFile (JsonFile (Some (pack_json p)))))"

definition rm_tree :: "pack_fs \<Rightarrow> string \<Rightarrow> pack_fs" where
  "rm_tree fs dir = filter (\<lambda>(p, _). \<not> prefix (segs dir) (segs p)) fs"

definition deleteAgentPackDirectory ::
  "pack_fs \<Rightarrow> string \<Rightarrow> string \<Rightarrow> string \<Rightarrow> pack_error + pack_fs" where
  "deleteAgentPackDirectory fs cwd agentsDir packDir =
     (let agentsRoot = path_resolve cwd [agentsDir];
          resolved = path_resolve cwd [packDir]
      in if \<not> under agentsRoot resolved then Inl RefuseDelete else Inr (rm_tree fs resolved))"

subsection \<open>The registry\<close>

record registry =
  rg_byId :: "resolved_pack obj"
  rg_byAgent :: "resolved_pack obj"
  rg_default :: string

definition pack_agent :: "resolved_pack \<Rightarrow> string option" where
  "pack_agent r = trim_opt (Option.bind (ap_openclaw (rv_doc r)) oc_agentId)"

definition new_registry :: "resolved_pack list \<Rightarrow> string option \<Rightarrow> pack_error + registry" where
  "new_registry packs defaultOpt =
     (let defaultPackId = (case trim_opt defaultOpt of Some d \<Rightarrow> d | None \<Rightarrow> DEFAULT_AGENT_PACK_ID);
          byId = fold (\<lambda>r m. obj_set m (ap_id (rv_doc r)) r) packs [];
          byAgent = fold (\<lambda>r m. case pack_agent r of Some a \<Rightarrow> obj_set m a r | None \<Rightarrow> m) packs []
      in if obj_get byId defaultPackId = None
         then Inl (DefaultPackMissing defaultPackId (obj_keys byId))
         else Inr \<lparr>rg_byId = byId, rg_byAgent = byAgent, rg_default = defaultPackId\<rparr>)"

record registry_options =
  ro_agentsDir :: "string option"
  ro_defaultPackId :: "string option"

definition load_registry ::
  "pack_fs \<Rightarrow> string \<Rightarrow> registry_options \<Rightarrow> pack_error + registry" where
  "load_registry fs moduleDir opts =
     (let agentsDir = (case trim_opt (ro_agentsDir opts) of
                         Some d \<Rightarrow> d | None \<Rightarrow> resolveTrustclawAgentsDir fs moduleDir)
      in case loadAgentPacksFromDir fs agentsDir of
           Inl e \<Rightarrow> Inl e
         | Inr packs \<Rightarrow> if packs = [] then Inl (NoPacksFound agentsDir)
                        else new_registry packs (ro_defaultPackId opts))"

text \<open>Valid ids hold only lower case letters, digits and dashes, which \<open>localeCompare\<close> orders
  as their codes do.\<close>

definition list_packs :: "registry \<Rightarrow> resolved_pack list" where
  "list_packs g = sort_key (\<lambda>r. ap_id (rv_doc r)) (map snd (rg_byId g))"

definition get_pack :: "registry \<Rightarrow> string \<Rightarrow> resolved_pack option" where
  "get_pack g packId = obj_get (rg_byId g) packId"

definition getDefault :: "registry \<Rightarrow> resolved_pack" where
  "getDefault g = the (obj_get (rg_byId g) (rg_default g))"

definition resolve_pack ::
  "registry \<Rightarrow> string option \<Rightarrow> string option \<Rightarrow> pack_error + resolved_pack" where
  "resolve_pack g packId openclawAgentId =
     (case trim_opt packId of
        Some explicitId \<Rightarrow>
          (case obj_get (rg_byId g) explicitId of
             None \<Rightarrow> Inl (UnknownPack explicitId) | Some r \<Rightarrow> Inr r)
      | None \<Rightarrow>
          (case trim_opt openclawAgentId of
             Some agentId \<Rightarrow>
               (case obj_get (rg_byAgent g) agentId of
                  Some r \<Rightarrow> Inr r | None \<Rightarrow> Inr (getDefault g))
           | None \<Rightarrow> Inr (getDefault g)))"

definition opt_truthy :: "string option \<Rightarrow> bool" where
  "opt_truthy x = (case x of None \<Rightarrow> False | Some s \<Rightarrow> s \<noteq> [])"

text \<open>The cached registry of the module is the last argument and the second result.\<close>

definition getAgentPackRegistry ::
  "pack_fs \<Rightarrow> string \<Rightarrow> registry_options \<Rightarrow> registry option \<Rightarrow>
     (pack_error + registry) \<times> registry option" where
  "getAgentPackRegistry fs moduleDir opts cached =
     (case cached of
        Some g \<Rightarrow>
          if opt_truthy (ro_agentsDir opts) \<or> opt_truthy (ro_defaultPackId opts)
          then (case load_registry fs moduleDir opts of
                  Inl e \<Rightarrow> (Inl e, cached) | Inr g' \<Rightarrow> (Inr g', Some g'))
          else (Inr g, cached)
      | None \<Rightarrow>
          (case load_registry fs moduleDir opts of
             Inl e \<Rightarrow> (Inl e, cached) | Inr g' \<Rightarrow> (Inr g', Some g')))"

definition resetAgentPackRegistryCache :: "registry option \<Rightarrow> registry option" where
  "resetAgentPackRegistryCache cached = None"

subsection \<open>Prompts\<close>

definition TRUSTCLAW_TRA_QUERY_TOOL :: string where "TRUSTCLAW_TRA_QUERY_TOOL = ''trustclaw_tra_query''"
definition TRUSTCLAW_TRA_WRITE_TOOL :: string where "TRUSTCLAW_TRA_WRITE_TOOL = ''trustclaw_tra_write''"

definition em_dash :: string where "em_dash = utf8 [0xE2, 0x80, 0x94]"

definition nl :: string where "nl = [CHR 0x0A]"

definition buildAgentPackToolGuidance :: "agent_pack \<Rightarrow> string" where
  "buildAgentPackToolGuidance p =
     join nl
       ([''## Active tools'',
         ''**Read:** For TRA-backed questions in the **'' @ ap_name_en p @ ''** domain '' @ em_dash @
           '' call **'' @ tl_read (ap_tools p) @ ''** with the user'' @ [CHR 0x27] @ ''s question.''] @
        (if opt_truthy (tl_write (ap_tools p))
         then [''**Write:** When the user asks to save/update personal measurements allowed for this agent '' @
               em_dash @ '' call **'' @ the (tl_write (ap_tools p)) @
               ''** with a clear natural-language write request. Never create SQLite files in the working directory.'']
         else [''**Write:** This agent pack does not expose TRA write tools.'']) @
        [''Each tool call triggers **explicit user consent**; never bypass approval.'',
         ''Rely on tool results; do not invent vitals, SQL, or rule outcomes.'', [],
         ''Agent pack: '' @ [CHR 0x60] @ ap_id p @ [CHR 0x60] @ '' v'' @ ap_version p])"

definition loadAgentPackSystemPrompt :: "pack_fs \<Rightarrow> string \<Rightarrow> resolved_pack \<Rightarrow> pack_error + string" where
  "loadAgentPackSystemPrompt fs cwd r =
     readPackAsset fs cwd (rv_packDir r) (pr_system (ap_prompts (rv_doc r)))"

definition buildAgentPackSystemContext :: "pack_fs \<Rightarrow> string \<Rightarrow> resolved_pack \<Rightarrow> pack_error + string" where
  "buildAgentPackSystemContext fs cwd r =
     (case loadAgentPackSystemPrompt fs cwd r of
        Inl e \<Rightarrow> Inl e
      | Inr t \<Rightarrow> Inr (join nl [t, [], buildAgentPackToolGuidance (rv_doc r)]))"

definition packEnablesWriteTool :: "agent_pack \<Rightarrow> bool" where
  "packEnablesWriteTool p \<longleftrightarrow> tl_write (ap_tools p) = Some TRUSTCLAW_TRA_WRITE_TOOL"

definition packEnablesReadTool :: "agent_pack \<Rightarrow> bool" where
  "packEnablesReadTool p \<longleftrightarrow> tl_read (ap_tools p) = TRUSTCLAW_TRA_QUERY_TOOL"

text \<open>The prompt templates that ship with the program are arguments.\<close>

definition loadAgentPackText2SqlTemplate ::
  "pack_fs \<Rightarrow> string \<Rightarrow> string \<Rightarrow> resolved_pack \<Rightarrow> pack_error + string" where
  "loadAgentPackText2SqlTemplate fs cwd defaultTemplate r =
     (case trim_opt (pr_text2sql (ap_prompts (rv_doc r))) of
        None \<Rightarrow> Inr defaultTemplate
      | Some relative \<Rightarrow> readPackAsset fs cwd (rv_packDir r) relative)"

definition loadAgentPackPersonalWriteTemplate ::
  "pack_fs \<Rightarrow> string \<Rightarrow> string \<Rightarrow> string \<Rightarrow> resolved_pack \<Rightarrow> pack_error + string" where
  "loadAgentPackPersonalWriteTemplate fs cwd moduleDir defaultTemplate r =
     (case trim_opt (pr_personalWrite (ap_prompts (rv_doc r))) of
        Some relative \<Rightarrow> readPackAsset fs cwd (rv_packDir r) relative
      | None \<Rightarrow>
          (case readPackAsset fs cwd (path_join (resolveTrustclawAgentsDir fs moduleDir) [''glp1''])
                  ''prompts/personal-write-sql.v1.md'' of
             Inr t \<Rightarrow> Inr t | Inl e \<Rightarrow> Inr defaultTemplate))"

subsection \<open>Confinement to a directory\<close>

lemma under_prefix:
  "under (path_resolve cwd ps) (path_resolve cwd' qs) \<Longrightarrow>
     prefix (segs (path_resolve cwd ps)) (segs (path_resolve cwd' qs))"
  using path_resolve_built [of cwd ps] path_resolve_built [of cwd' qs]
  by (metis built_prefix prefix_order.refl segs_resolve_clean under_def)

text \<open>
  The asset path of a pack never leaves the directory of the pack: what the guard
  accepts has the segments of that directory in front and no climbing segment, so no chain
  of parent segments and no absolute name reads another pack's files.
\<close>

theorem asset_path_confined:
  assumes "resolvePackAssetPath cwd packDir rel = Inr p"
  shows "prefix (segs (path_resolve cwd [packDir])) (segs p) \<and> list_all clean_seg (segs p)"
  using assms under_prefix [of cwd "[packDir]" cwd "[packDir, drop_dot_slash rel]"]
  by (auto simp: resolvePackAssetPath_def Let_def segs_resolve_clean split: if_splits)

lemma obj_get_filter:
  "P k \<Longrightarrow> obj_get (filter (\<lambda>(p, _). P p) fs) k = obj_get fs k"
  by (induction fs) (auto simp: obj_get_def)

lemma obj_get_filter_out:
  "\<not> P k \<Longrightarrow> obj_get (filter (\<lambda>(p, _). P p) fs) k = None"
  by (induction fs) (auto simp: obj_get_def)

lemma mkdir_one_get:
  assumes "list_all clean_seg ss" and "obj_get fs k \<noteq> None \<or> segs k \<noteq> ss"
  shows "obj_get (mkdir_one ss fs) k = obj_get fs k"
proof -
  have "segs (sep # join [sep] ss) = ss" using assms(1) by (simp add: segs_def norm_segs_built)
  with assms(2) show ?thesis
    by (auto simp: mkdir_one_def Let_def exists_path_def kv_simps)
qed

lemma mkdir_fold_get:
  "list_all (list_all clean_seg) sss \<Longrightarrow> obj_get fs k \<noteq> None \<or> segs k \<notin> set sss \<Longrightarrow>
     obj_get (fold mkdir_one sss fs) k = obj_get fs k"
proof (induction sss arbitrary: fs)
  case Nil
  then show ?case by simp
next
  case (Cons ss sss)
  have one: "obj_get (mkdir_one ss fs) k = obj_get fs k"
    using Cons.prems by (intro mkdir_one_get) auto
  with Cons.prems have "obj_get (fold mkdir_one sss (mkdir_one ss fs)) k = obj_get (mkdir_one ss fs) k"
    by (intro Cons.IH) auto
  with one show ?case by simp
qed

lemma mkdir_p_get:
  assumes "obj_get fs k \<noteq> None \<or> \<not> prefix (segs k) (segs dir)"
  shows "obj_get (mkdir_p fs dir) k = obj_get fs k"
  unfolding mkdir_p_def
proof (rule mkdir_fold_get)
  show "list_all (list_all clean_seg) (prefixes (segs dir))"
    using segs_resolve_clean [of dir] by (auto simp: list_all_iff prefix_def)
qed (use assms in auto)

text \<open>
  Writing and deleting packs changes nothing outside the agents directory: whatever
  target the caller passes, a file whose path does not lie below that directory and exists
  keeps its content.
\<close>

theorem pack_writes_confined:
  assumes out: "\<not> prefix (segs (path_resolve cwd [agentsDir])) (segs k)"
    and old: "obj_get fs k = Some n"
  shows "(case writeAgentPackDocument fs cwd agentsDir p packDirOpt of
            Inl e \<Rightarrow> True | Inr (d, f, fs') \<Rightarrow> obj_get fs' k = Some n) \<and>
         (case deleteAgentPackDirectory fs cwd agentsDir packDir of
            Inl e \<Rightarrow> True | Inr fs' \<Rightarrow> obj_get fs' k = Some n)"
proof
  have target: "path_join d [PACK_FILENAME] \<noteq> k"
    if "under (path_resolve cwd [agentsDir]) d" "d = path_resolve cwd qs" for d qs
  proof
    assume "path_join d [PACK_FILENAME] = k"
    then have "segs k = segs d @ [PACK_FILENAME]"
      using segs_join_snoc [of PACK_FILENAME d] by (auto simp: clean_seg_def PACK_FILENAME_def sep_def)
    with that out under_prefix show False by (metis prefix_order.trans prefixI)
  qed
  show "case writeAgentPackDocument fs cwd agentsDir p packDirOpt of
      Inl e \<Rightarrow> True | Inr (d, f, fs') \<Rightarrow> obj_get fs' k = Some n"
    using old target
    by (auto simp: writeAgentPackDocument_def assertPackDirUnderAgentsRoot_def Let_def kv_simps
        mkdir_p_get split: sum.split option.split)
  show "case deleteAgentPackDirectory fs cwd agentsDir packDir of
      Inl e \<Rightarrow> True | Inr fs' \<Rightarrow> obj_get fs' k = Some n"
  proof (cases "under (path_resolve cwd [agentsDir]) (path_resolve cwd [packDir])")
    case True
    then have "\<not> prefix (segs (path_resolve cwd [packDir])) (segs k)"
      using out under_prefix by (metis prefix_order.trans)
    with True old show ?thesis
      by (simp add: deleteAgentPackDirectory_def Let_def rm_tree_def obj_get_filter
          [where P = "\<lambda>q. \<not> prefix (segs (path_resolve cwd [packDir])) (segs q)"])
  qed (simp add: deleteAgentPackDirectory_def Let_def)
qed

subsection \<open>A pack written and read back\<close>

lemma id_char_special: "\<not> id_char CHR ''.''" "\<not> id_char sep" "sep \<noteq> CHR ''-''"
  by (simp_all add: id_char_def is_digit_def chr_in_def sep_def)

lemma valid_id_clean: "valid_pack_id i \<Longrightarrow> clean_seg i"
  using id_char_special by (cases i) (auto simp: valid_pack_id_def clean_seg_def list_all_iff)

lemma filename_clean: "clean_seg PACK_FILENAME"
  by (simp add: clean_seg_def PACK_FILENAME_def sep_def)

lemma segs_inj_built: "segs p = segs q \<Longrightarrow> p = sep # join [sep] (segs p) \<Longrightarrow> q = sep # join [sep] (segs q) \<Longrightarrow> p = q"
  by metis

lemma pack_dir_under:
  assumes ne: "segs (path_resolve cwd [d]) \<noteq> []" and id: "clean_seg i"
  shows "under (path_resolve cwd [d]) (path_resolve cwd [d, i])"
proof -
  have "path_resolve cwd [d, i] = sep # join [sep] (segs (path_resolve cwd [d]) @ [i])"
    using path_resolve_built [of cwd "[d, i]"] segs_resolve_snoc [OF id] by metis
  also have "\<dots> = (sep # join [sep] (segs (path_resolve cwd [d]))) @ [sep] @ i"
    using ne by (simp add: join_snoc)
  finally have "path_resolve cwd [d, i] = path_resolve cwd [d] @ [sep] @ i"
    using path_resolve_built [of cwd "[d]"] by simp
  then show ?thesis by (simp add: under_def starts_with_prefix)
qed

lemma dirname_join:
  assumes "clean_seg w" and "p = sep # join [sep] (segs p)"
  shows "dirname (path_join p [w]) = p"
  using assms by (simp add: dirname_def segs_join_snoc)

text \<open>
  C35 -- a well-formed pack written without a target directory lands in the directory of its
  id, directly below the agents directory, and loading its manifest gives the same pack back.
\<close>

theorem written_pack_loads:
  assumes ok: "pack_ok p" and ne: "segs (path_resolve cwd [agentsDir]) \<noteq> []"
  shows "\<exists>d f fs'. writeAgentPackDocument fs cwd agentsDir p None = Inr (d, f, fs') \<and>
           segs d = segs (path_resolve cwd [agentsDir]) @ [ap_id p] \<and>
           segs f = segs d @ [PACK_FILENAME] \<and>
           loadAgentPackFromFile fs' f = Inr \<lparr>rv_doc = p, rv_packDir = d, rv_packFile = f\<rparr>"
proof -
  let ?d = "path_resolve cwd [agentsDir, ap_id p]"
  have id: "clean_seg (ap_id p)" using ok by (simp add: pack_ok_def valid_id_clean)
  have u: "under (path_resolve cwd [agentsDir]) ?d" by (rule pack_dir_under [OF ne id])
  have "parse_pack (pack_json p) = Some p" using ok by (rule pack_parse_json)
  moreover have "dirname (path_join ?d [PACK_FILENAME]) = ?d"
    by (rule dirname_join [OF filename_clean path_resolve_built])
  ultimately show ?thesis
    using u id by (simp add: writeAgentPackDocument_def assertPackDirUnderAgentsRoot_def Let_def
        loadAgentPackFromFile_def kv_simps segs_resolve_snoc segs_join_snoc filename_clean)
qed

subsection \<open>Resolution\<close>

lemma fold_agents:
  "obj_get (fold (\<lambda>r m. case pack_agent r of Some a \<Rightarrow> obj_set m a r | None \<Rightarrow> m) packs m) a =
     (case find (\<lambda>r. pack_agent r = Some a) (rev packs) of Some r \<Rightarrow> Some r | None \<Rightarrow> obj_get m a)"
  by (induction packs rule: rev_induct) (auto simp: kv_simps split: option.split)

lemma fold_ids:
  "obj_get (fold (\<lambda>r m. obj_set m (ap_id (rv_doc r)) r) packs []) i =
     find (\<lambda>r. ap_id (rv_doc r) = i) (rev packs)"
  using js_obj.get_fold_set [of "\<lambda>r. ap_id (rv_doc r)" "\<lambda>r. r" packs "[]" i]
  by (simp add: obj_get_def split: option.splits)

lemma find_mem: "find P xs = Some x \<Longrightarrow> x \<in> set xs \<and> P x"
  by (induction xs) (auto split: if_splits)

text \<open>
  A registry resolves an explicit pack id to the last pack loaded with that id or
  refuses it by name; without one, to the last pack bound to the agent, and else to the
  default pack, which exists: resolution without an explicit id never fails.
\<close>

theorem registry_resolution:
  assumes "new_registry packs d = Inr g"
  shows "resolve_pack g pid aid =
     (case trim_opt pid of
        Some i \<Rightarrow> (case find (\<lambda>r. ap_id (rv_doc r) = i) (rev packs) of
                           Some r \<Rightarrow> Inr r | None \<Rightarrow> Inl (UnknownPack i))
      | None \<Rightarrow>
          (case Option.bind (trim_opt aid) (\<lambda>a. find (\<lambda>r. pack_agent r = Some a) (rev packs)) of
             Some r \<Rightarrow> Inr r | None \<Rightarrow> Inr (getDefault g))) \<and>
     getDefault g \<in> set packs \<and>
     ap_id (rv_doc (getDefault g)) =
       (case trim_opt d of Some i \<Rightarrow> i | None \<Rightarrow> DEFAULT_AGENT_PACK_ID)"
proof -
  let ?def = "case trim_opt d of Some i \<Rightarrow> i | None \<Rightarrow> DEFAULT_AGENT_PACK_ID"
  from assms obtain r where r: "find (\<lambda>r. ap_id (rv_doc r) = ?def) (rev packs) = Some r"
    by (auto simp: new_registry_def Let_def fold_ids split: if_splits)
  have g: "getDefault g = r"
    using assms r by (auto simp: new_registry_def Let_def getDefault_def fold_ids split: if_splits)
  have "getDefault g \<in> set packs \<and> ap_id (rv_doc (getDefault g)) = ?def"
    using find_mem [OF r] g by simp
  moreover have "obj_get (rg_byId g) i = find (\<lambda>r. ap_id (rv_doc r) = i) (rev packs)"
    and "obj_get (rg_byAgent g) a = find (\<lambda>r. pack_agent r = Some a) (rev packs)" for i a
    using assms by (auto simp: new_registry_def Let_def fold_ids fold_agents obj_get_def [of "[]"]
        split: if_splits option.splits)
  ultimately show ?thesis
    by (simp add: resolve_pack_def split: option.split)
qed

lemma strip_rev_hd:
  assumes "s \<noteq> []" "\<forall>w\<in>set toks. w = [] \<or> hd w \<noteq> hd s"
  shows "strip toks s = s"
proof (rule strip_id)
  have "\<not> prefix w s" if "w \<in> set toks" "w \<noteq> []" for w
    using assms that by (cases w; cases s) auto
  then show "first_tok toks s = None" by (auto simp: first_tok_None)
qed

lemma id_char_not_space:
  "id_char c \<or> c = CHR ''-'' \<Longrightarrow>
     (\<forall>w\<in>set ws_tokens. w = [] \<or> hd w \<noteq> c) \<and> (\<forall>w\<in>set (map rev ws_tokens). w = [] \<or> hd w \<noteq> c)"
  by (auto simp: ws_tokens_def id_char_def is_digit_def chr_in_def)

lemma trim_valid_id [trim_simps]:
  assumes "valid_pack_id i"
  shows "trim i = i"
proof -
  have ne: "i \<noteq> []" and all: "\<forall>c\<in>set i. id_char c \<or> c = CHR ''-''"
    using assms by (cases i; auto simp: valid_pack_id_def list_all_iff)+
  from ne all have "id_char (hd i) \<or> hd i = CHR ''-''" by auto
  then have "trim_start i = i"
    unfolding trim_start_def using ne id_char_not_space by (intro strip_rev_hd) auto
  moreover have "id_char (hd (rev i)) \<or> hd (rev i) = CHR ''-''"
    using ne all by (auto simp: hd_rev)
  then have "trim_end i = i"
    unfolding trim_end_def using ne id_char_not_space by (simp add: strip_rev_hd)
  ultimately show ?thesis by (simp add: trim_def)
qed

lemma valid_id_not_empty: "valid_pack_id i \<Longrightarrow> i \<noteq> []"
  by (auto simp: valid_pack_id_def)

subsection \<open>Concrete packs on disk\<close>

definition demo_fs :: pack_fs where
  "demo_fs = [(''/a'', DirNode), (''/a/p-1'', DirNode),
     (''/a/p-1/agent.pack.json'', JsonFile (Some (pack_json (demo_pack ''p-1'')))),
     (''/a/notes.md'', TextFile ''n''), (''/b'', TextFile ''other'')]"

lemma asset_path_confined_witness:
  "prefix (segs (path_resolve ''/'' [''/a/p-1''])) (segs ''/a/p-1/prompts/x.md'')"
proof -
  have "resolvePackAssetPath ''/'' ''/a/p-1'' ''./prompts/x.md'' = Inr ''/a/p-1/prompts/x.md''"
    by code_simp
  from asset_path_confined [OF this] show ?thesis by blast
qed

lemma escape_refused:
  "resolvePackAssetPath ''/'' ''/a/p-1'' ''../p-2/x.md'' = Inl (AssetEscapes ''../p-2/x.md'')"
  by code_simp

lemma pack_writes_confined_witness:
  "case deleteAgentPackDirectory demo_fs ''/'' ''/a'' ''/a/p-1'' of
     Inl e \<Rightarrow> False | Inr fs' \<Rightarrow> obj_get fs' ''/b'' = Some (TextFile ''other'')"
proof -
  have "\<not> prefix (segs (path_resolve ''/'' [''/a''])) (segs ''/b'')" by code_simp
  moreover have "obj_get demo_fs ''/b'' = Some (TextFile ''other'')" by (simp add: demo_fs_def obj_get_def)
  ultimately have "case deleteAgentPackDirectory demo_fs ''/'' ''/a'' ''/a/p-1'' of
     Inl e \<Rightarrow> True | Inr fs' \<Rightarrow> obj_get fs' ''/b'' = Some (TextFile ''other'')"
    using pack_writes_confined by blast
  moreover have "under (path_resolve ''/'' [''/a'']) (path_resolve ''/'' [''/a/p-1''])" by code_simp
  ultimately show ?thesis by (simp add: deleteAgentPackDirectory_def Let_def)
qed

lemma written_pack_loads_witness:
  "\<exists>d f fs'. writeAgentPackDocument demo_fs ''/'' ''/a'' (demo_pack ''p-1'') None = Inr (d, f, fs') \<and>
     loadAgentPackFromFile fs' f = Inr \<lparr>rv_doc = demo_pack ''p-1'', rv_packDir = d, rv_packFile = f\<rparr>"
proof -
  have "segs (path_resolve ''/'' [''/a'']) \<noteq> []" by code_simp
  from written_pack_loads [OF demo_pack_ok [OF demo_id_ok] this, of demo_fs] show ?thesis by blast
qed

definition demo_resolved :: resolved_pack where
  "demo_resolved = \<lparr>rv_doc = demo_pack ''p-1'', rv_packDir = ''/a/p-1'',
     rv_packFile = ''/a/p-1/agent.pack.json''\<rparr>"

definition demo_registry :: registry where
  "demo_registry = \<lparr>rg_byId = [(''p-1'', demo_resolved)], rg_byAgent = [(''main'', demo_resolved)],
     rg_default = ''p-1''\<rparr>"

lemma trim_plain:
  "trim ''p-1'' = ''p-1''" "trim ''main'' = ''main''" "trim ''nope'' = ''nope''"
  by code_simp+

lemma demo_registry_new: "new_registry [demo_resolved] (Some ''p-1'') = Inr demo_registry"
  by (simp add: new_registry_def Let_def pack_agent_def trim_opt_def trim_plain demo_registry_def
      demo_resolved_def demo_pack_def obj_get_def)

lemma registry_resolution_witness:
  "resolve_pack demo_registry (Some ''nope'') (Some ''main'') = Inl (UnknownPack ''nope'') \<and>
   resolve_pack demo_registry None (Some ''main'') = Inr demo_resolved"
  using registry_resolution [OF demo_registry_new, of "Some ''nope''" "Some ''main''"]
    registry_resolution [OF demo_registry_new, of None "Some ''main''"]
  by (simp add: trim_opt_def trim_plain demo_resolved_def demo_pack_def pack_agent_def)

end
