(* ===== verification/Session_Pack.thy ===== *)
theory Session_Pack
  imports Agent_Pack
begin

text \<open>
  Which pack answers for a session (\<open>tra/session-agent-pack.ts\<close>, \<open>runtime/coordinator\<close>).
  A store file is the JSON value it parses to, \<open>None\<close> where it is missing or does not
  parse.  A failed read returns \<open>{ ...EMPTY_FILE }\<close>, whose two maps are the objects of the
  module constant itself, and the writers update them in place: the constant is part of
  the state, and a read says whether its maps are the constant's.
\<close>

record session_file =
  sf_sessions :: "string obj"
  sf_locks :: "string obj"

record session_state =
  ss_empty :: session_file
  ss_files :: "string \<Rightarrow> jval option"

datatype store_error = SessionAndPackRequired

text \<open>\<open>overrides?.auditDir?.trim() || resolveTraAuditDir(overrides, env)\<close>.\<close>

definition store_dir :: "host \<Rightarrow> path_overrides option \<Rightarrow> string" where
  "store_dir h ov = event_dir h None ov"

definition resolveSessionAgentPackPath :: "string \<Rightarrow> string" where
  "resolveSessionAgentPackPath auditDir = path_join auditDir [''session-agent-packs.json'']"

definition text_entry :: "string \<Rightarrow> jval \<Rightarrow> string obj" where
  "text_entry k v = (case v of
     JStr s \<Rightarrow> if trim k \<noteq> [] \<and> trim s \<noteq> [] then [(k, s)] else [] | _ \<Rightarrow> [])"

definition readStringMap :: "jval \<Rightarrow> string obj" where
  "readStringMap value = (case value of JObj m \<Rightarrow> concat (map (\<lambda>(k, v). text_entry k v) m) | _ \<Rightarrow> [])"

text \<open>The file and whether its maps are those of the constant; \<open>null\<close> has no properties to read.\<close>

definition readSessionAgentPackFile :: "session_state \<Rightarrow> string \<Rightarrow> session_file \<times> bool" where
  "readSessionAgentPackFile st dir =
     (case ss_files st dir of
        Some parsed \<Rightarrow>
          if nullish parsed then (ss_empty st, True)
          else (\<lparr>sf_sessions = readStringMap (own_prop parsed ''sessions''),
                 sf_locks = readStringMap (own_prop parsed ''locks'')\<rparr>, False)
      | None \<Rightarrow> (ss_empty st, True))"

definition string_map_json :: "string obj \<Rightarrow> jval" where
  "string_map_json m = JObj (map (\<lambda>(k, v). (k, JStr v)) m)"

definition session_file_json :: "session_file \<Rightarrow> jval" where
  "session_file_json f = JObj [(''sessions'', string_map_json (sf_sessions f)),
     (''locks'', string_map_json (sf_locks f))]"

text \<open>Updating the maps in place and writing the file.\<close>

definition writeSessionAgentPackFile ::
  "string \<Rightarrow> session_file \<Rightarrow> bool \<Rightarrow> session_state \<Rightarrow> session_state" where
  "writeSessionAgentPackFile dir f shared st =
     st\<lparr>ss_empty := (if shared then f else ss_empty st),
        ss_files := (ss_files st)(dir := Some (session_file_json f))\<rparr>"

definition getSessionAgentPackId :: "session_state \<Rightarrow> string \<Rightarrow> string \<Rightarrow> string option" where
  "getSessionAgentPackId st dir sessionKey =
     (let key = trim sessionKey in
      if key = [] then None
      else trim_opt (obj_get (sf_sessions (fst (readSessionAgentPackFile st dir))) key))"

definition getSessionAgentPackLock :: "session_state \<Rightarrow> string \<Rightarrow> string \<Rightarrow> string option" where
  "getSessionAgentPackLock st dir sessionKey =
     (let key = trim sessionKey in
      if key = [] then None
      else trim_opt (obj_get (sf_locks (fst (readSessionAgentPackFile st dir))) key))"

definition setSessionAgentPackLock ::
  "session_state \<Rightarrow> string \<Rightarrow> string \<Rightarrow> string \<Rightarrow> store_error + session_state" where
  "setSessionAgentPackLock st dir sessionKey packId =
     (let key = trim sessionKey; i = trim packId in
      if key = [] \<or> i = [] then Inl SessionAndPackRequired
      else (case readSessionAgentPackFile st dir of (f, shared) \<Rightarrow>
        Inr (writeSessionAgentPackFile dir (f\<lparr>sf_locks := obj_set (sf_locks f) key i\<rparr>) shared st)))"

definition setSessionAgentPackBinding ::
  "session_state \<Rightarrow> string \<Rightarrow> string \<Rightarrow> string \<Rightarrow> store_error + session_state" where
  "setSessionAgentPackBinding st dir sessionKey packId =
     (let key = trim sessionKey; i = trim packId in
      if key = [] \<or> i = [] then Inl SessionAndPackRequired
      else (case readSessionAgentPackFile st dir of (f, shared) \<Rightarrow>
        Inr (writeSessionAgentPackFile dir
          (f\<lparr>sf_sessions := obj_set (sf_sessions f) key i, sf_locks := obj_set (sf_locks f) key i\<rparr>)
          shared st)))"

definition clearSessionAgentPackBinding ::
  "session_state \<Rightarrow> string \<Rightarrow> string \<Rightarrow> session_state" where
  "clearSessionAgentPackBinding st dir sessionKey =
     (let key = trim sessionKey in
      if key = [] then st
      else (case readSessionAgentPackFile st dir of (f, shared) \<Rightarrow>
        if obj_get (sf_sessions f) key \<noteq> None \<or> obj_get (sf_locks f) key \<noteq> None
        then writeSessionAgentPackFile dir
          (f\<lparr>sf_sessions := obj_del (sf_sessions f) key, sf_locks := obj_del (sf_locks f) key\<rparr>)
          shared st
        else st))"

subsection \<open>The coordinator\<close>

definition resolveCoordinatorSessionKey :: "string \<Rightarrow> string option \<Rightarrow> string" where
  "resolveCoordinatorSessionKey sessionKey openclawAgentId =
     (let key = trim sessionKey in
      if key = [] then key
      else if starts_with key ''agent:'' then key
      else (case trim_opt openclawAgentId of
              Some agentId \<Rightarrow> ''agent:'' @ agentId @ '':'' @ key | None \<Rightarrow> key))"

datatype pack_source = SrcSession | SrcLock | SrcOpenclawAgent | SrcDefault | SrcRequest

record pack_resolution =
  res_pack :: resolved_pack
  res_source :: pack_source
  res_locked :: bool
  res_lock_pack_id :: "string option"
  res_suggested_pack_id :: string
  res_mismatch :: bool

definition resolveOpenClawSuggestedPack ::
  "registry \<Rightarrow> string option \<Rightarrow> resolved_pack \<times> pack_source" where
  "resolveOpenClawSuggestedPack g openclawAgentId =
     (case trim_opt openclawAgentId of
        None \<Rightarrow> (getDefault g, SrcDefault)
      | Some agentId \<Rightarrow>
          (case resolve_pack g None (Some agentId) of
             Inr byAgent \<Rightarrow>
               if ap_id (rv_doc byAgent) \<noteq> ap_id (rv_doc (getDefault g))
               then (byAgent, SrcOpenclawAgent) else (getDefault g, SrcDefault)
           | Inl e \<Rightarrow> (getDefault g, SrcDefault)))"

record coordinator_params =
  cp_sessionKey :: string
  cp_openclawAgentId :: "string option"
  cp_requestedPackId :: "string option"
  cp_bindLock :: bool

definition bind_session :: "bool \<Rightarrow> session_state \<Rightarrow> string \<Rightarrow> string \<Rightarrow> string \<Rightarrow> session_state" where
  "bind_session bindLock st dir key packId =
     (if bindLock \<and> key \<noteq> []
      then (case setSessionAgentPackBinding st dir key packId of Inl _ \<Rightarrow> st | Inr st' \<Rightarrow> st') else st)"

definition resolveCoordinatorAgentPack ::
  "registry \<Rightarrow> string \<Rightarrow> coordinator_params \<Rightarrow> session_state \<Rightarrow>
     (pack_error + pack_resolution) \<times> session_state" where
  "resolveCoordinatorAgentPack g dir p st =
     (let key = resolveCoordinatorSessionKey (cp_sessionKey p) (cp_openclawAgentId p);
          bindLock = cp_bindLock p;
          suggested = resolveOpenClawSuggestedPack g (cp_openclawAgentId p);
          sid = ap_id (rv_doc (fst suggested))
      in case trim_opt (cp_requestedPackId p) of
           Some requested \<Rightarrow>
             (case resolve_pack g (Some requested) None of
                Inl e \<Rightarrow> (Inl e, st)
              | Inr r \<Rightarrow>
                  let pid = ap_id (rv_doc r); st' = bind_session bindLock st dir key pid
                  in (Inr \<lparr>res_pack = r, res_source = SrcRequest, res_locked = bindLock,
                           res_lock_pack_id = (if bindLock then Some pid
                             else getSessionAgentPackLock st' dir key),
                           res_suggested_pack_id = sid, res_mismatch = (sid \<noteq> pid)\<rparr>, st'))
         | None \<Rightarrow>
             (case (if key \<noteq> [] then getSessionAgentPackId st dir key else None) of
                Some sessionOverride \<Rightarrow>
                  (case resolve_pack g (Some sessionOverride) None of
                     Inl e \<Rightarrow> (Inl e, st)
                   | Inr r \<Rightarrow>
                       let pid = ap_id (rv_doc r); st' = bind_session bindLock st dir key pid
                       in (Inr \<lparr>res_pack = r, res_source = SrcSession,
                                res_locked = (getSessionAgentPackLock st' dir key \<noteq> None \<or> bindLock),
                                res_lock_pack_id = (case getSessionAgentPackLock st' dir key of
                                    Some l \<Rightarrow> Some l
                                  | None \<Rightarrow> if bindLock then Some pid else None),
                                res_suggested_pack_id = sid, res_mismatch = (sid \<noteq> pid)\<rparr>, st'))
              | None \<Rightarrow>
                  (case (if key \<noteq> [] then getSessionAgentPackLock st dir key else None) of
                     Some lockPackId \<Rightarrow>
                       (case resolve_pack g (Some lockPackId) None of
                          Inl e \<Rightarrow> (Inl e, st)
                        | Inr r \<Rightarrow>
                            (Inr \<lparr>res_pack = r, res_source = SrcLock, res_locked = True,
                                  res_lock_pack_id = Some lockPackId, res_suggested_pack_id = sid,
                                  res_mismatch = (sid \<noteq> ap_id (rv_doc r))\<rparr>, st))
                   | None \<Rightarrow>
                       let st' = (if bindLock \<and> key \<noteq> []
                                  then (case setSessionAgentPackLock st dir key sid of
                                          Inl _ \<Rightarrow> st | Inr st' \<Rightarrow> st')
                                  else st)
                       in (Inr \<lparr>res_pack = fst suggested, res_source = snd suggested,
                                res_locked = bindLock,
                                res_lock_pack_id = (if bindLock then Some sid else None),
                                res_suggested_pack_id = sid, res_mismatch = False\<rparr>, st'))))"

subsection \<open>What a write leaves to read\<close>

definition nonblank_map :: "string obj \<Rightarrow> bool" where
  "nonblank_map m \<longleftrightarrow> list_all (\<lambda>(k, v). trim k \<noteq> [] \<and> trim v \<noteq> []) m"

definition file_ok :: "session_file \<Rightarrow> bool" where
  "file_ok f \<longleftrightarrow> nonblank_map (sf_sessions f) \<and> nonblank_map (sf_locks f)"

definition session_ok :: "session_state \<Rightarrow> bool" where
  "session_ok st \<longleftrightarrow> file_ok (ss_empty st)"

lemma readStringMap_json: "nonblank_map m \<Longrightarrow> readStringMap (string_map_json m) = m"
proof (induction m)
  case Nil
  then show ?case by (simp add: readStringMap_def string_map_json_def)
next
  case (Cons x m)
  then show ?case
    by (cases x) (simp add: readStringMap_def string_map_json_def nonblank_map_def text_entry_def)
qed

lemma readStringMap_nonblank: "nonblank_map (readStringMap v)"
  by (auto simp: readStringMap_def nonblank_map_def list_all_iff text_entry_def
      split: jval.splits if_splits)

lemma nonblank_set: "nonblank_map m \<Longrightarrow> trim k \<noteq> [] \<Longrightarrow> trim v \<noteq> [] \<Longrightarrow> nonblank_map (obj_set m k v)"
  by (induction m k v rule: obj_set.induct) (auto simp: nonblank_map_def)

lemma nonblank_del: "nonblank_map m \<Longrightarrow> nonblank_map (obj_del m k)"
  by (auto simp: nonblank_map_def obj_del_def list_all_iff)

lemma read_ok: "session_ok st \<Longrightarrow> file_ok (fst (readSessionAgentPackFile st dir))"
  by (auto simp: readSessionAgentPackFile_def session_ok_def file_ok_def readStringMap_nonblank
      split: option.split)

lemma read_written:
  "file_ok f \<Longrightarrow> readSessionAgentPackFile (writeSessionAgentPackFile dir f sh st) dir = (f, False)"
  by (simp add: readSessionAgentPackFile_def writeSessionAgentPackFile_def session_file_json_def
      nullish_def own_prop_def readStringMap_json file_ok_def)

lemma read_elsewhere:
  "d \<noteq> dir \<Longrightarrow> readSessionAgentPackFile (writeSessionAgentPackFile dir f sh st) d =
     (if sh \<and> snd (readSessionAgentPackFile st d) then (f, True) else readSessionAgentPackFile st d)"
  by (auto simp: readSessionAgentPackFile_def writeSessionAgentPackFile_def split: option.split)

lemma write_ok: "session_ok st \<Longrightarrow> file_ok f \<Longrightarrow> session_ok (writeSessionAgentPackFile dir f sh st)"
  by (simp add: session_ok_def writeSessionAgentPackFile_def)

lemmas session_defs = getSessionAgentPackId_def getSessionAgentPackLock_def Let_def

definition bind_file :: "session_file \<Rightarrow> string \<Rightarrow> string \<Rightarrow> session_file" where
  "bind_file f k i = f\<lparr>sf_sessions := obj_set (sf_sessions f) k i, sf_locks := obj_set (sf_locks f) k i\<rparr>"

lemma bind_file_maps:
  "sf_sessions (bind_file f k i) = obj_set (sf_sessions f) k i"
  "sf_locks (bind_file f k i) = obj_set (sf_locks f) k i"
  by (simp_all add: bind_file_def)

lemma set_binding_eq:
  assumes "readSessionAgentPackFile st dir = (f, sh)"
  shows "setSessionAgentPackBinding st dir key i = Inr st' \<longleftrightarrow>
     trim key \<noteq> [] \<and> trim i \<noteq> [] \<and>
     st' = writeSessionAgentPackFile dir (bind_file f (trim key) (trim i)) sh st"
  by (auto simp: setSessionAgentPackBinding_def Let_def assms bind_file_def)

lemma bind_file_ok: "file_ok f \<Longrightarrow> trim k \<noteq> [] \<Longrightarrow> trim i \<noteq> [] \<Longrightarrow> file_ok (bind_file f k i)"
  by (simp add: file_ok_def bind_file_maps nonblank_set)

lemma trim_opt_None [simp]: "trim_opt None = None"
  by (simp add: trim_opt_def)

lemma clear_binding_read:
  assumes "session_ok st"
  shows "getSessionAgentPackId (clearSessionAgentPackBinding st dir key) dir key' =
           (if trim key' = trim key then None else getSessionAgentPackId st dir key')"
    and "getSessionAgentPackLock (clearSessionAgentPackBinding st dir key) dir key' =
           (if trim key' = trim key then None else getSessionAgentPackLock st dir key')"
proof -
  obtain f sh where r: "readSessionAgentPackFile st dir = (f, sh)" by fastforce
  let ?f = "f\<lparr>sf_sessions := obj_del (sf_sessions f) (trim key), sf_locks := obj_del (sf_locks f) (trim key)\<rparr>"
  have "file_ok ?f" using read_ok [OF assms, of dir] r by (simp add: file_ok_def nonblank_del)
  note w = read_written [OF this, of dir sh st]
  have c: "clearSessionAgentPackBinding st dir key =
     (if trim key = [] \<or> obj_get (sf_sessions f) (trim key) = None \<and> obj_get (sf_locks f) (trim key) = None
      then st else writeSessionAgentPackFile dir ?f sh st)"
    by (simp add: clearSessionAgentPackBinding_def Let_def r)
  show "getSessionAgentPackId (clearSessionAgentPackBinding st dir key) dir key' =
           (if trim key' = trim key then None else getSessionAgentPackId st dir key')"
    unfolding c by (simp add: session_defs w r kv_simps trim_opt_None)
  show "getSessionAgentPackLock (clearSessionAgentPackBinding st dir key) dir key' =
           (if trim key' = trim key then None else getSessionAgentPackLock st dir key')"
    unfolding c by (simp add: session_defs w r kv_simps trim_opt_None)
qed

lemma trim_opt_of_trimmed: "trim i \<noteq> [] \<Longrightarrow> trim_opt (Some i) = Some (trim i)"
  by (simp add: trim_opt_def)

lemma set_binding_read:
  assumes ok: "session_ok st" and set: "setSessionAgentPackBinding st dir key i = Inr st'"
  shows "session_ok st'"
    and "getSessionAgentPackId st' dir key' =
          (if trim key' = trim key then Some (trim i) else getSessionAgentPackId st dir key')"
    and "getSessionAgentPackLock st' dir key' =
          (if trim key' = trim key then Some (trim i) else getSessionAgentPackLock st dir key')"
proof -
  obtain f sh where r: "readSessionAgentPackFile st dir = (f, sh)" by fastforce
  let ?f = "bind_file f (trim key) (trim i)"
  have ne: "trim key \<noteq> []" "trim i \<noteq> []" and st': "st' = writeSessionAgentPackFile dir ?f sh st"
    using set by (simp_all add: set_binding_eq [OF r])
  have f: "file_ok ?f" using read_ok [OF ok, of dir] r ne by (simp add: bind_file_ok)
  show "session_ok st'" using ok f by (simp add: st' write_ok)
  show "getSessionAgentPackId st' dir key' =
          (if trim key' = trim key then Some (trim i) else getSessionAgentPackId st dir key')"
    using ne by (simp add: session_defs st' read_written [OF f] bind_file_maps kv_simps
        trim_opt_of_trimmed r)
  show "getSessionAgentPackLock st' dir key' =
          (if trim key' = trim key then Some (trim i) else getSessionAgentPackLock st dir key')"
    using ne by (simp add: session_defs st' read_written [OF f] bind_file_maps kv_simps
        trim_opt_of_trimmed r)
qed

text \<open>
  Choosing a pack for a session binds the session and its lock to that pack, leaves
  the other sessions of the directory alone, and clearing the binding removes both again.
\<close>

theorem session_binding_reads_back:
  assumes "session_ok st" and "setSessionAgentPackBinding st dir key i = Inr st'"
  shows "getSessionAgentPackId st' dir key' =
          (if trim key' = trim key then Some (trim i) else getSessionAgentPackId st dir key') \<and>
         getSessionAgentPackLock st' dir key' =
          (if trim key' = trim key then Some (trim i) else getSessionAgentPackLock st dir key') \<and>
         getSessionAgentPackId (clearSessionAgentPackBinding st' dir key) dir key' =
          (if trim key' = trim key then None else getSessionAgentPackId st dir key') \<and>
         getSessionAgentPackLock (clearSessionAgentPackBinding st' dir key) dir key' =
          (if trim key' = trim key then None else getSessionAgentPackLock st dir key')"
  using set_binding_read [OF assms] clear_binding_read [of st' dir key] by simp

text \<open>
  A binding written where the store file is missing is also seen by every other audit
  directory whose store file is missing, because both reads return the maps of the module
  constant; a directory that has a store file is not affected.
\<close>

theorem session_binding_across_directories:
  assumes "session_ok st" and "setSessionAgentPackBinding st dir key i = Inr st'" and "d \<noteq> dir"
  shows "getSessionAgentPackId st' d key =
          (if snd (readSessionAgentPackFile st dir) \<and> snd (readSessionAgentPackFile st d)
           then Some (trim i) else getSessionAgentPackId st d key)"
proof -
  obtain f sh where r: "readSessionAgentPackFile st dir = (f, sh)" by fastforce
  have ne: "trim key \<noteq> []" "trim i \<noteq> []"
    and st': "st' = writeSessionAgentPackFile dir (bind_file f (trim key) (trim i)) sh st"
    using assms(2) by (simp_all add: set_binding_eq [OF r])
  show ?thesis
    using ne by (simp add: session_defs st' read_elsewhere [OF assms(3)] bind_file_maps kv_simps
        trim_opt_of_trimmed r)
qed

subsection \<open>A bound session keeps its pack\<close>

definition registry_ok :: "registry \<Rightarrow> bool" where
  "registry_ok g \<longleftrightarrow>
     (\<forall>i r. obj_get (rg_byId g) i = Some r \<longrightarrow> ap_id (rv_doc r) = i \<and> valid_pack_id i) \<and>
     (\<forall>a r. obj_get (rg_byAgent g) a = Some r \<longrightarrow> obj_get (rg_byId g) (ap_id (rv_doc r)) \<noteq> None) \<and>
     obj_get (rg_byId g) (rg_default g) \<noteq> None"

lemma new_registry_ok:
  assumes "new_registry packs d = Inr g" and "\<forall>r\<in>set packs. pack_ok (rv_doc r)"
  shows "registry_ok g"
proof -
  have ids: "obj_get (rg_byId g) i = find (\<lambda>r. ap_id (rv_doc r) = i) (rev packs)"
    and agents: "obj_get (rg_byAgent g) a = find (\<lambda>r. pack_agent r = Some a) (rev packs)"
    and default_id: "obj_get (rg_byId g) (rg_default g) \<noteq> None" for i a
    using assms(1) by (auto simp: new_registry_def Let_def fold_ids fold_agents obj_get_def [of "[]"]
        split: if_splits option.splits)
  have "obj_get (rg_byId g) (ap_id (rv_doc r)) \<noteq> None" if "r \<in> set packs" for r
    using that by (auto simp: ids find_None_iff)
  then show ?thesis
    using default_id assms(2) by (auto simp: registry_ok_def ids agents pack_ok_def dest: find_mem)
qed

lemma set_lock_read:
  assumes ok: "session_ok st" and ne: "trim key \<noteq> []" "trim i \<noteq> []"
  obtains st' where "setSessionAgentPackLock st dir key i = Inr st'" "session_ok st'"
    "getSessionAgentPackLock st' dir key = Some (trim i)"
    "getSessionAgentPackId st' dir key = getSessionAgentPackId st dir key"
proof -
  obtain f sh where r: "readSessionAgentPackFile st dir = (f, sh)" by fastforce
  let ?f = "f\<lparr>sf_locks := obj_set (sf_locks f) (trim key) (trim i)\<rparr>"
  have f: "file_ok ?f" using read_ok [OF ok, of dir] r ne by (simp add: file_ok_def nonblank_set)
  show ?thesis
  proof (rule that)
    show "setSessionAgentPackLock st dir key i = Inr (writeSessionAgentPackFile dir ?f sh st)"
      using ne by (simp add: setSessionAgentPackLock_def Let_def r)
  qed (use ne in \<open>simp_all add: session_defs read_written [OF f] write_ok ok f kv_simps
        trim_opt_of_trimmed r\<close>)
qed

lemma strip_keeps: "c \<in> set s \<Longrightarrow> \<forall>w\<in>set toks. c \<notin> set w \<Longrightarrow> c \<in> set (strip toks s)"
proof (induction toks s rule: strip.induct)
  case (1 toks s)
  show ?case
  proof (cases "first_tok toks s")
    case None
    with 1 show ?thesis by (simp add: strip_id)
  next
    case (Some w)
    then have "w \<in> set toks" "prefix w s" by (auto dest: first_tok_Some)
    with 1(2,3) have "c \<in> set (drop (length w) s)" by (auto simp: prefix_def)
    with 1(1) [OF Some] 1(3) have "c \<in> set (strip toks (drop (length w) s))" by blast
    with Some show ?thesis by (subst strip.simps) simp
  qed
qed

lemma trim_keeps: "c \<in> set s \<Longrightarrow> \<forall>w\<in>set ws_tokens. c \<notin> set w \<Longrightarrow> c \<in> set (trim s)"
  by (simp add: trim_def trim_start_def trim_end_def strip_keeps)

lemma session_key_not_blank:
  assumes "resolveCoordinatorSessionKey sk aid \<noteq> []"
  shows "trim (resolveCoordinatorSessionKey sk aid) \<noteq> []"
proof (cases "resolveCoordinatorSessionKey sk aid = trim sk")
  case True
  with assms show ?thesis by simp
next
  case False
  then obtain a where "resolveCoordinatorSessionKey sk aid = ''agent:'' @ a @ '':'' @ trim sk"
    by (auto simp: resolveCoordinatorSessionKey_def Let_def split: if_splits option.splits)
  then have "CHR ''a'' \<in> set (resolveCoordinatorSessionKey sk aid)" by simp
  then have "CHR ''a'' \<in> set (trim (resolveCoordinatorSessionKey sk aid))"
    by (rule trim_keeps) (simp add: ws_tokens_def)
  then show ?thesis by auto
qed

text \<open>The state after which the session answers with pack \<open>i\<close>, whatever the agent.\<close>

definition bound_to :: "session_state \<Rightarrow> string \<Rightarrow> string \<Rightarrow> string \<Rightarrow> bool" where
  "bound_to st dir key i \<longleftrightarrow> getSessionAgentPackLock st dir key = Some i \<and>
     (getSessionAgentPackId st dir key = None \<or> getSessionAgentPackId st dir key = Some i)"

lemma resolve_explicit:
  assumes "registry_ok g"
  shows "resolve_pack g (Some i) aid = Inr r \<Longrightarrow>
    ap_id (rv_doc r) = trim i \<and> valid_pack_id (trim i) \<and> obj_get (rg_byId g) (trim i) = Some r \<or> trim i = []"
  using assms by (auto simp: resolve_pack_def registry_ok_def trim_opt_def split: option.splits if_splits)

lemma resolve_known:
  "valid_pack_id i \<Longrightarrow> obj_get (rg_byId g) i = Some r \<Longrightarrow> resolve_pack g (Some i) aid = Inr r"
  by (simp add: resolve_pack_def trim_opt_def trim_valid_id valid_id_not_empty)

lemma suggested_known:
  assumes "registry_ok g"
  shows "valid_pack_id (ap_id (rv_doc (fst (resolveOpenClawSuggestedPack g aid)))) \<and>
    obj_get (rg_byId g) (ap_id (rv_doc (fst (resolveOpenClawSuggestedPack g aid)))) \<noteq> None"
proof -
  obtain r0 where "obj_get (rg_byId g) (rg_default g) = Some r0"
    using assms by (auto simp: registry_ok_def)
  then have d: "getDefault g = r0 \<and> ap_id (rv_doc r0) = rg_default g \<and> valid_pack_id (rg_default g)"
    using assms by (auto simp: getDefault_def registry_ok_def)
  have "valid_pack_id (ap_id (rv_doc r)) \<and> obj_get (rg_byId g) (ap_id (rv_doc r)) \<noteq> None"
    if "obj_get (rg_byAgent g) a = Some r" for a r
    using assms that unfolding registry_ok_def by (metis option.exhaust)
  with d \<open>obj_get (rg_byId g) (rg_default g) = Some r0\<close> show ?thesis
    by (auto simp: resolveOpenClawSuggestedPack_def resolve_pack_def split: option.split sum.split)
qed

lemma bind_session_bound:
  assumes "session_ok st" "trim key \<noteq> []" "valid_pack_id i"
  shows "bound_to (bind_session True st dir key i) dir key i"
proof -
  have ne: "trim i \<noteq> []" "trim i = i" "key \<noteq> []"
    using assms by (auto simp: trim_valid_id valid_id_not_empty)
  obtain f sh where r: "readSessionAgentPackFile st dir = (f, sh)" by fastforce
  obtain st' where st': "setSessionAgentPackBinding st dir key i = Inr st'"
    using ne assms(2) by (simp add: set_binding_eq [OF r])
  with set_binding_read [OF assms(1) st'] ne show ?thesis
    by (simp add: bound_to_def bind_session_def)
qed

lemma resolve_of_stored:
  assumes g: "registry_ok g" and i: "trim_opt x = Some i" and r: "resolve_pack g (Some i) aid = Inr r"
  shows "ap_id (rv_doc r) = i \<and> valid_pack_id i \<and> obj_get (rg_byId g) i = Some r"
  using resolve_explicit [OF g r] trim_opt_Some [OF i] by simp

lemma getSession_trim_opt:
  "getSessionAgentPackId st dir key = Some i \<Longrightarrow> \<exists>x. trim_opt x = Some i"
  "getSessionAgentPackLock st dir key = Some i \<Longrightarrow> \<exists>x. trim_opt x = Some i"
  by (auto simp: session_defs split: if_splits)

lemma resolve_binds:
  assumes g: "registry_ok g" and ok: "session_ok st" and bind: "cp_bindLock p"
    and key: "key = resolveCoordinatorSessionKey (cp_sessionKey p) (cp_openclawAgentId p)" "key \<noteq> []"
    and run: "resolveCoordinatorAgentPack g dir p st = (Inr res, st')"
  shows "bound_to st' dir key (ap_id (rv_doc (res_pack res))) \<and>
         valid_pack_id (ap_id (rv_doc (res_pack res))) \<and>
         obj_get (rg_byId g) (ap_id (rv_doc (res_pack res))) \<noteq> None"
proof -
  have tk: "trim key \<noteq> []" using key session_key_not_blank by simp
  note defn = resolveCoordinatorAgentPack_def Let_def key(1) [symmetric] key(2) bind
  consider (request) q where "trim_opt (cp_requestedPackId p) = Some q"
    | (session) q where "trim_opt (cp_requestedPackId p) = None" "getSessionAgentPackId st dir key = Some q"
    | (lock) q where "trim_opt (cp_requestedPackId p) = None" "getSessionAgentPackId st dir key = None"
        "getSessionAgentPackLock st dir key = Some q"
    | (none) "trim_opt (cp_requestedPackId p) = None" "getSessionAgentPackId st dir key = None"
        "getSessionAgentPackLock st dir key = None"
    by (metis option.exhaust)
  then show ?thesis
  proof cases
    case request
    with run obtain r where r: "resolve_pack g (Some q) None = Inr r" "res_pack res = r"
        "st' = bind_session True st dir key (ap_id (rv_doc r))"
      by (auto simp: defn split: sum.splits)
    with resolve_of_stored [OF g request r(1)] bind_session_bound [OF ok tk] show ?thesis by auto
  next
    case session
    with run obtain r where r: "resolve_pack g (Some q) None = Inr r" "res_pack res = r"
        "st' = bind_session True st dir key (ap_id (rv_doc r))"
      by (auto simp: defn split: sum.splits)
    obtain x where "trim_opt x = Some q" using getSession_trim_opt(1) [OF session(2)] by blast
    with resolve_of_stored [OF g _ r(1)] r bind_session_bound [OF ok tk] show ?thesis by auto
  next
    case lock
    with run obtain r where r: "resolve_pack g (Some q) None = Inr r" "res_pack res = r" "st' = st"
      by (auto simp: defn split: sum.splits)
    obtain x where "trim_opt x = Some q" using getSession_trim_opt(2) [OF lock(3)] by blast
    with resolve_of_stored [OF g _ r(1)] r lock show ?thesis by (auto simp: bound_to_def)
  next
    case none
    let ?i = "ap_id (rv_doc (fst (resolveOpenClawSuggestedPack g (cp_openclawAgentId p))))"
    have i: "valid_pack_id ?i" "trim ?i \<noteq> []" "obj_get (rg_byId g) ?i \<noteq> None"
      using suggested_known [OF g] by (simp_all add: trim_valid_id valid_id_not_empty)
    obtain st2 where st2: "setSessionAgentPackLock st dir key ?i = Inr st2"
        "getSessionAgentPackLock st2 dir key = Some (trim ?i)"
        "getSessionAgentPackId st2 dir key = getSessionAgentPackId st dir key"
      using set_lock_read [OF ok tk i(2)] by metis
    with none run have "res_pack res = fst (resolveOpenClawSuggestedPack g (cp_openclawAgentId p))"
        "st' = st2"
      by (auto simp: defn)
    with st2 i none show ?thesis by (simp add: bound_to_def trim_valid_id)
  qed
qed

lemma bound_resolves:
  assumes b: "bound_to st dir key i" and i: "valid_pack_id i" "obj_get (rg_byId g) i = Some r"
    and key: "key = resolveCoordinatorSessionKey (cp_sessionKey p) (cp_openclawAgentId p)" "key \<noteq> []"
    and req: "trim_opt (cp_requestedPackId p) = None"
  shows "\<exists>res st'. resolveCoordinatorAgentPack g dir p st = (Inr res, st') \<and> res_pack res = r \<and>
           res_source res \<in> {SrcSession, SrcLock}"
  using b by (auto simp: resolveCoordinatorAgentPack_def Let_def key(1) [symmetric] key(2) req
      bound_to_def resolve_known [OF i])

text \<open>
  What requests do to the store of one directory: a request that resolves the pack of a session with
  the registry of that moment, a choice in the session panel, and its removal.
\<close>

datatype session_event =
    Asks registry coordinator_params
  | Chooses string string
  | Forgets string

definition session_key_of :: "coordinator_params \<Rightarrow> string" where
  "session_key_of p = resolveCoordinatorSessionKey (cp_sessionKey p) (cp_openclawAgentId p)"

fun session_step :: "string \<Rightarrow> session_event \<Rightarrow> session_state \<Rightarrow> session_state" where
  "session_step dir (Asks g p) st = snd (resolveCoordinatorAgentPack g dir p st)"
| "session_step dir (Chooses key i) st = (case setSessionAgentPackBinding st dir key i of Inl _ \<Rightarrow> st | Inr st' \<Rightarrow> st')"
| "session_step dir (Forgets key) st = clearSessionAgentPackBinding st dir key"

definition loaded_registry :: "registry \<Rightarrow> bool" where
  "loaded_registry g \<longleftrightarrow> (\<exists>packs d. new_registry packs d = Inr g \<and> (\<forall>r\<in>set packs. pack_ok (rv_doc r)))"

text \<open>An event that does not rebind the session \<open>key\<close>: requests for it may come, but they name no pack.\<close>

fun leaves_binding :: "string \<Rightarrow> session_event \<Rightarrow> bool" where
  "leaves_binding key (Asks g p) \<longleftrightarrow> loaded_registry g \<and>
     (trim (session_key_of p) = trim key \<longrightarrow> trim_opt (cp_requestedPackId p) = None)"
| "leaves_binding key (Chooses k i) \<longleftrightarrow> trim k \<noteq> trim key"
| "leaves_binding key (Forgets k) \<longleftrightarrow> trim k \<noteq> trim key"

lemma loaded_registry_ok: "loaded_registry g \<Longrightarrow> registry_ok g"
  unfolding loaded_registry_def using new_registry_ok by blast

lemma set_lock_reads:
  assumes ok: "session_ok st" and set: "setSessionAgentPackLock st dir k j = Inr st'"
  shows "session_ok st'"
    and "getSessionAgentPackId st' dir key = getSessionAgentPackId st dir key"
    and "getSessionAgentPackLock st' dir key =
      (if trim key = trim k then Some (trim j) else getSessionAgentPackLock st dir key)"
proof -
  obtain f sh where r: "readSessionAgentPackFile st dir = (f, sh)" by fastforce
  let ?f = "f\<lparr>sf_locks := obj_set (sf_locks f) (trim k) (trim j)\<rparr>"
  have ne: "trim k \<noteq> []" "trim j \<noteq> []" and st': "st' = writeSessionAgentPackFile dir ?f sh st"
    using set r by (auto simp: setSessionAgentPackLock_def Let_def split: if_splits)
  have f: "file_ok ?f" using read_ok [OF ok, of dir] r ne by (simp add: file_ok_def nonblank_set)
  show "session_ok st'" using ok f by (simp add: st' write_ok)
  show "getSessionAgentPackId st' dir key = getSessionAgentPackId st dir key"
    "getSessionAgentPackLock st' dir key =
      (if trim key = trim k then Some (trim j) else getSessionAgentPackLock st dir key)"
    using ne by (simp_all add: session_defs st' read_written [OF f] kv_simps trim_opt_of_trimmed r)
qed

lemma cleared_store_ok: "session_ok st \<Longrightarrow> session_ok (clearSessionAgentPackBinding st dir k)"
proof -
  assume ok: "session_ok st"
  obtain f sh where r: "readSessionAgentPackFile st dir = (f, sh)" by fastforce
  have "file_ok (f\<lparr>sf_sessions := obj_del (sf_sessions f) j, sf_locks := obj_del (sf_locks f) j\<rparr>)" for j
    using read_ok [OF ok, of dir] r by (simp add: file_ok_def nonblank_del)
  then show ?thesis using ok by (simp add: clearSessionAgentPackBinding_def Let_def r write_ok)
qed

text \<open>Every request changes the store, if at all, by binding or locking the key of its session.\<close>

lemma resolve_effect:
  fixes g p dir st
  defines "k \<equiv> session_key_of p"
  defines "st' \<equiv> snd (resolveCoordinatorAgentPack g dir p st)"
  shows "st' = st \<or> (\<exists>i. setSessionAgentPackBinding st dir k i = Inr st') \<or>
    (\<exists>i. setSessionAgentPackLock st dir k i = Inr st' \<and> trim_opt (cp_requestedPackId p) = None \<and>
       (k \<noteq> [] \<longrightarrow> getSessionAgentPackLock st dir k = None))"
proof -
  have b: "bind_session c st dir k i = st \<or> (\<exists>x. setSessionAgentPackBinding st dir k x = Inr (bind_session c st dir k i))" for c i
    by (cases "setSessionAgentPackBinding st dir k i") (auto simp: bind_session_def intro: exI [of _ i])
  note defn = st'_def resolveCoordinatorAgentPack_def Let_def session_key_of_def [symmetric] k_def [symmetric]
  let ?id = "if k \<noteq> [] then getSessionAgentPackId st dir k else None"
    and ?lock = "if k \<noteq> [] then getSessionAgentPackLock st dir k else None"
  consider (request) q where "trim_opt (cp_requestedPackId p) = Some q"
    | (session) q where "trim_opt (cp_requestedPackId p) = None" "?id = Some q"
    | (lock) q where "trim_opt (cp_requestedPackId p) = None" "?id = None" "?lock = Some q"
    | (none) "trim_opt (cp_requestedPackId p) = None" "?id = None" "?lock = None"
    by (metis option.exhaust)
  then show ?thesis
  proof cases
    case (request q)
    then have "st' = st \<or> (\<exists>c i. st' = bind_session c st dir k i)"
      by (cases "resolve_pack g (Some q) None") (auto simp: defn)
    then show ?thesis
    proof (elim disjE exE)
      fix c i
      assume "st' = bind_session c st dir k i"
      with b [of c i] show ?thesis by auto
    qed (rule disjI1)
  next
    case (session q)
    then have "st' = st \<or> (\<exists>c i. st' = bind_session c st dir k i)"
      by (cases "resolve_pack g (Some q) None") (auto simp: defn)
    then show ?thesis
    proof (elim disjE exE)
      fix c i
      assume "st' = bind_session c st dir k i"
      with b [of c i] show ?thesis by auto
    qed (rule disjI1)
  next
    case (lock q)
    then have "st' = st" by (cases "resolve_pack g (Some q) None") (simp_all add: defn)
    then show ?thesis ..
  next
    case none
    define i where "i = ap_id (rv_doc (fst (resolveOpenClawSuggestedPack g (cp_openclawAgentId p))))"
    have "st' = (if cp_bindLock p \<and> k \<noteq> []
        then (case setSessionAgentPackLock st dir k i of Inl _ \<Rightarrow> st | Inr s \<Rightarrow> s) else st)"
      using none by (simp add: defn i_def)
    then show ?thesis
      using none by (cases "setSessionAgentPackLock st dir k i") (auto split: if_splits)
  qed
qed

lemma resolved_store_ok:
  assumes "session_ok st"
  shows "session_ok (snd (resolveCoordinatorAgentPack g dir p st))"
  using resolve_effect [of g dir p st]
proof (elim disjE exE conjE, goal_cases)
  case 1
  with assms show ?case by simp
next
  case (2 i)
  show ?case by (rule set_binding_read(1) [OF assms 2])
next
  case (3 i)
  show ?case by (rule set_lock_reads(1) [OF assms 3(1)])
qed

lemma bound_step:
  assumes ok: "session_ok st" and b: "bound_to st dir key i" and i: "valid_pack_id i"
    and ne: "trim key \<noteq> []" and ev: "leaves_binding key ev"
  shows "session_ok (session_step dir ev st) \<and> bound_to (session_step dir ev st) dir key i"
proof (cases ev)
  case (Chooses k j)
  show ?thesis
  proof (cases "setSessionAgentPackBinding st dir k j")
    case (Inr st')
    with set_binding_read [OF ok Inr] ev b Chooses show ?thesis by (auto simp: bound_to_def)
  qed (use ok b Chooses in simp)
next
  case (Forgets k)
  with clear_binding_read [OF ok, of dir k key] cleared_store_ok [OF ok] ev b show ?thesis by (auto simp: bound_to_def)
next
  case (Asks g p)
  have g: "registry_ok g" using ev Asks loaded_registry_ok by simp
  have ok': "session_ok (session_step dir ev st)"
    using resolved_store_ok [OF ok] Asks by simp
  show ?thesis
  proof (cases "trim (session_key_of p) = trim key")
    case False
    then have "bound_to (session_step dir ev st) dir key i = bound_to st dir key i"
      using resolve_effect [of g dir p st] Asks set_binding_read(2,3) [OF ok] set_lock_reads(2,3) [OF ok]
      by (auto simp: bound_to_def)
    with ok' b show ?thesis by simp
  next
    case True
    let ?k = "session_key_of p"
    have same: "getSessionAgentPackId s dir ?k = getSessionAgentPackId s dir key"
      "getSessionAgentPackLock s dir ?k = getSessionAgentPackLock s dir key" for s
      using True by (simp_all add: session_defs)
    have k: "?k \<noteq> []" "trim_opt (cp_requestedPackId p) = None" using True ne ev Asks by (auto simp: trim_opt_def)
    have bk: "bound_to st dir ?k i" using b same by (simp add: bound_to_def)
    have "bound_to (session_step dir ev st) dir ?k i"
    proof (cases "resolve_pack g (Some i) None")
      case (Inl e)
      then have "session_step dir ev st = st"
        using bk k by (auto simp: Asks resolveCoordinatorAgentPack_def Let_def session_key_of_def [symmetric] bound_to_def)
      then show ?thesis using bk by simp
    next
      case (Inr r)
      have r: "ap_id (rv_doc r) = i"
        using resolve_explicit [OF g Inr] i by (auto simp: trim_valid_id dest: valid_id_not_empty)
      have "session_step dir ev st = bind_session (cp_bindLock p) st dir ?k i \<or> session_step dir ev st = st"
        using bk k r Inr by (auto simp: Asks resolveCoordinatorAgentPack_def Let_def session_key_of_def [symmetric] bound_to_def)
      moreover have "bound_to (bind_session c st dir ?k i) dir ?k i" for c
        using bind_session_bound [OF ok _ i, of ?k dir] bk True ne by (cases c) (simp_all add: bind_session_def)
      ultimately show ?thesis using bk by auto
    qed
    with ok' same show ?thesis by (simp add: bound_to_def)
  qed
qed

lemma bound_steps:
  "session_ok st \<Longrightarrow> bound_to st dir key i \<Longrightarrow> valid_pack_id i \<Longrightarrow> trim key \<noteq> [] \<Longrightarrow>
   \<forall>ev\<in>set evs. leaves_binding key ev \<Longrightarrow> bound_to (fold (session_step dir) evs st) dir key i"
proof (induction evs arbitrary: st)
  case (Cons ev evs)
  then show ?case using bound_step [OF Cons.prems(1-4), of ev] by simp
qed simp

text \<open>
  C37 -- once a session has been bound to a pack, every later request for that session that names no pack
  runs with it, from the session's binding or its lock: however many requests, choices and removals come
  in between, with whatever registry each of them was answered, as long as none of them rebinds this very
  session (a request that names a pack, a choice or a removal in the panel), and as long as the registry
  of that moment still has the pack.
\<close>

theorem bound_session_keeps_pack:
  assumes "loaded_registry g" and "session_ok st" and "cp_bindLock p"
    and "session_key_of p \<noteq> []"
    and "resolveCoordinatorAgentPack g dir p st = (Inr res, st')"
    and "\<forall>ev\<in>set evs. leaves_binding (session_key_of p) ev"
    and "loaded_registry g'" and "obj_get (rg_byId g') (ap_id (rv_doc (res_pack res))) \<noteq> None"
    and "session_key_of q = session_key_of p" and "trim_opt (cp_requestedPackId q) = None"
  shows "\<exists>res' st''. resolveCoordinatorAgentPack g' dir q (fold (session_step dir) evs st') = (Inr res', st'') \<and>
           ap_id (rv_doc (res_pack res')) = ap_id (rv_doc (res_pack res)) \<and>
           res_source res' \<in> {SrcSession, SrcLock}"
proof -
  have g: "registry_ok g" "registry_ok g'" using assms(1,7) loaded_registry_ok by blast+
  let ?i = "ap_id (rv_doc (res_pack res))" and ?key = "session_key_of p"
  have ne: "trim ?key \<noteq> []" using assms(4) session_key_not_blank by (simp add: session_key_of_def)
  have b: "bound_to st' dir ?key ?i" "valid_pack_id ?i"
    using resolve_binds [OF g(1) assms(2,3) _ assms(4,5)] by (simp_all add: session_key_of_def)
  have "session_ok st'" using resolved_store_ok [OF assms(2), of g dir p] assms(5) by simp
  from bound_steps [OF this b ne assms(6)]
  have later: "bound_to (fold (session_step dir) evs st') dir ?key ?i" .
  obtain r where r: "obj_get (rg_byId g') ?i = Some r" using assms(8) by blast
  then have id: "ap_id (rv_doc r) = ?i" using g(2) by (auto simp: registry_ok_def)
  have k: "?key = resolveCoordinatorSessionKey (cp_sessionKey q) (cp_openclawAgentId q)"
    using assms(9) by (simp add: session_key_of_def)
  from bound_resolves [OF later b(2) r k assms(4,10)] id show ?thesis by auto
qed

subsection \<open>A fresh process\<close>

definition fresh_sessions :: session_state where
  "fresh_sessions = \<lparr>ss_empty = \<lparr>sf_sessions = [], sf_locks = []\<rparr>, ss_files = (\<lambda>_. None)\<rparr>"

lemma fresh_ok: "session_ok fresh_sessions"
  by (simp add: session_ok_def fresh_sessions_def file_ok_def nonblank_map_def)

lemma fresh_read: "readSessionAgentPackFile fresh_sessions d = (\<lparr>sf_sessions = [], sf_locks = []\<rparr>, True)"
  by (simp add: readSessionAgentPackFile_def fresh_sessions_def)

lemma trim_s: "trim ''s'' = ''s''"
  by code_simp

lemma fresh_set:
  "setSessionAgentPackBinding fresh_sessions ''/d'' ''s'' ''p-1'' =
     Inr (writeSessionAgentPackFile ''/d'' (bind_file \<lparr>sf_sessions = [], sf_locks = []\<rparr> ''s'' ''p-1'')
       True fresh_sessions)"
  using set_binding_eq [OF fresh_read] by (simp add: trim_s trim_plain)

lemma session_binding_reads_back_witness:
  "\<exists>st'. setSessionAgentPackBinding fresh_sessions ''/d'' ''s'' ''p-1'' = Inr st' \<and>
     getSessionAgentPackId st' ''/d'' ''s'' = Some ''p-1'' \<and>
     getSessionAgentPackLock (clearSessionAgentPackBinding st' ''/d'' ''s'') ''/d'' ''s'' = None"
  using session_binding_reads_back [OF fresh_ok fresh_set, of "''s''"] fresh_set
  by (simp add: trim_plain)

lemma session_binding_across_directories_witness:
  "\<exists>st'. setSessionAgentPackBinding fresh_sessions ''/d'' ''s'' ''p-1'' = Inr st' \<and>
     getSessionAgentPackId st' ''/other'' ''s'' = Some ''p-1''"
  using session_binding_across_directories [OF fresh_ok fresh_set, of "''/other''"] fresh_set
  by (simp add: trim_plain fresh_read)

definition demo_params :: "string option \<Rightarrow> coordinator_params" where
  "demo_params aid = \<lparr>cp_sessionKey = ''agent:x:s'', cp_openclawAgentId = aid,
     cp_requestedPackId = None, cp_bindLock = True\<rparr>"

lemma trim_demo_key: "trim ''agent:x:s'' = ''agent:x:s''"
  by code_simp

lemma demo_key: "resolveCoordinatorSessionKey ''agent:x:s'' aid = ''agent:x:s''"
  by (simp add: resolveCoordinatorSessionKey_def Let_def trim_demo_key starts_with_def)

lemma demo_first_answer:
  "\<exists>res st'. resolveCoordinatorAgentPack demo_registry ''/d'' (demo_params None) fresh_sessions = (Inr res, st') \<and>
     ap_id (rv_doc (res_pack res)) = ''p-1''"
  by (simp add: resolveCoordinatorAgentPack_def Let_def demo_params_def demo_key session_defs
      trim_demo_key fresh_read obj_get_def resolveOpenClawSuggestedPack_def getDefault_def
      demo_registry_def demo_resolved_def demo_pack_def)

lemma bound_session_keeps_pack_witness:
  "\<exists>res st' res' st''.
     resolveCoordinatorAgentPack demo_registry ''/d'' (demo_params None) fresh_sessions = (Inr res, st') \<and>
     resolveCoordinatorAgentPack demo_registry ''/d'' (demo_params (Some ''main''))
       (fold (session_step ''/d'') [Asks demo_registry (demo_params None), Chooses ''s'' ''p-1'', Forgets ''s''] st') = (Inr res', st'') \<and>
     ap_id (rv_doc (res_pack res')) = ''p-1''"
proof -
  obtain res st' where a:
    "resolveCoordinatorAgentPack demo_registry ''/d'' (demo_params None) fresh_sessions = (Inr res, st')"
    "ap_id (rv_doc (res_pack res)) = ''p-1''" using demo_first_answer by blast
  let ?evs = "[Asks demo_registry (demo_params None), Chooses ''s'' ''p-1'', Forgets ''s'']"
  have g: "loaded_registry demo_registry"
    unfolding loaded_registry_def
    by (rule exI [of _ "[demo_resolved]"], rule exI [of _ "Some ''p-1''"])
       (use demo_registry_new in \<open>simp add: demo_resolved_def demo_pack_ok demo_id_ok\<close>)
  have key: "session_key_of (demo_params x) = ''agent:x:s''" for x
    by (simp add: session_key_of_def demo_params_def demo_key)
  have p: "cp_bindLock (demo_params x)" "trim_opt (cp_requestedPackId (demo_params x)) = None" for x
    by (simp_all add: demo_params_def)
  have "obj_get (rg_byId demo_registry) (ap_id (rv_doc (res_pack res))) \<noteq> None"
    by (simp add: demo_registry_def obj_get_def a)
  moreover have "\<forall>ev\<in>set ?evs. leaves_binding (session_key_of (demo_params None)) ev"
    using g p by (simp add: key trim_demo_key trim_s)
  ultimately obtain res' st'' where
    "resolveCoordinatorAgentPack demo_registry ''/d'' (demo_params (Some ''main'')) (fold (session_step ''/d'') ?evs st') = (Inr res', st'')"
    "ap_id (rv_doc (res_pack res')) = ap_id (rv_doc (res_pack res))"
    using bound_session_keeps_pack [OF g fresh_ok p(1) _ a(1), where q = "demo_params (Some ''main'')" and g' = demo_registry and evs = ?evs]
      g key p by (simp add: key) blast
  with a show ?thesis by metis
qed

end
