(* ===== verification/Grants.thy ===== *)
theory Grants
  imports Session_Pack
begin

text \<open>
  What the user has granted to a pack: scopes per pack (\<open>tra/agent-domain-grants.ts\<close>), read
  through the ceiling of what the pack can be granted, and consent to data access
  (\<open>tra/consent-store.ts\<close>).  As in the session store, the scope grants keep the object of
  the module constant \<open>EMPTY_FILE\<close> as part of their state.  The registry argument is \<open>None\<close>
  where loading it throws.
\<close>

record grant_entry =
  ge_granted_at :: num64
  ge_scopes :: "string list"

record grant_state =
  gs_empty :: "grant_entry obj"
  gs_files :: "string \<Rightarrow> jval option"

subsection \<open>Scope grants\<close>

definition filterScopesToPackCeiling ::
  "registry option \<Rightarrow> string \<Rightarrow> string list \<Rightarrow> string list option" where
  "filterScopesToPackCeiling reg packId scopes =
     map_option (\<lambda>g. case get_pack g packId of
         None \<Rightarrow> []
       | Some r \<Rightarrow> filter (\<lambda>s. s \<in> set (deriveAgentDomainScopes (rv_doc r))) scopes) reg"

text \<open>\<open>Object.entries\<close> of a value that is an object for \<open>typeof\<close>.\<close>

definition obj_entries :: "jval \<Rightarrow> jval obj option" where
  "obj_entries v = (case v of
     JObj m \<Rightarrow> Some m
   | JArr xs \<Rightarrow> Some (map (\<lambda>i. (show_nat i, xs ! i)) [0..<length xs])
   | _ \<Rightarrow> None)"

definition scope_texts :: "jval list \<Rightarrow> string list" where
  "scope_texts xs =
     concat (map (\<lambda>x. case x of JStr s \<Rightarrow> if isAgentDomainScope s then [s] else [] | _ \<Rightarrow> []) xs)"

definition granted_at_of :: "num64 \<Rightarrow> jval \<Rightarrow> num64" where
  "granted_at_of now v = (case own_prop v ''granted_at'' of JNum n \<Rightarrow> n | _ \<Rightarrow> now)"

text \<open>The loop over the entries of the file; \<open>None\<close> where the registry throws.\<close>

definition entry_scopes :: "registry option \<Rightarrow> string \<Rightarrow> jval \<Rightarrow> string list option" where
  "entry_scopes reg packId entry =
     (case own_prop entry ''scopes'' of
        JArr xs \<Rightarrow> filterScopesToPackCeiling reg packId (scope_texts xs) | _ \<Rightarrow> Some [])"

fun read_entries ::
  "registry option \<Rightarrow> num64 \<Rightarrow> jval obj \<Rightarrow> grant_entry obj \<Rightarrow> grant_entry obj option" where
  "read_entries reg now [] grants = Some grants"
| "read_entries reg now ((packId, entry) # m) grants =
     (if obj_entries entry = None then read_entries reg now m grants
      else (case entry_scopes reg packId entry of
              None \<Rightarrow> None
            | Some scopes \<Rightarrow> read_entries reg now m
                (obj_set grants packId
                  \<lparr>ge_granted_at = granted_at_of now entry, ge_scopes = scopes\<rparr>)))"

definition readGrantFile ::
  "registry option \<Rightarrow> num64 \<Rightarrow> grant_state \<Rightarrow> string \<Rightarrow> grant_entry obj \<times> bool" where
  "readGrantFile reg now st dir =
     (case gs_files st dir of
        None \<Rightarrow> (gs_empty st, True)
      | Some parsed \<Rightarrow>
          if nullish parsed then (gs_empty st, True)
          else (case obj_entries (own_prop parsed ''grants'') of
                  None \<Rightarrow> ([], False)
                | Some m \<Rightarrow> (case read_entries reg now m [] of
                               None \<Rightarrow> (gs_empty st, True) | Some grants \<Rightarrow> (grants, False))))"

definition entry_json :: "grant_entry \<Rightarrow> jval" where
  "entry_json e = JObj [(''granted_at'', JNum (ge_granted_at e)), (''scopes'', j_strs (ge_scopes e))]"

definition grants_json :: "grant_entry obj \<Rightarrow> jval" where
  "grants_json grants = JObj [(''grants'', JObj (map (\<lambda>(k, e). (k, entry_json e)) grants))]"

definition writeGrantFile ::
  "string \<Rightarrow> grant_entry obj \<Rightarrow> bool \<Rightarrow> grant_state \<Rightarrow> grant_state" where
  "writeGrantFile dir grants shared st =
     st\<lparr>gs_empty := (if shared then grants else gs_empty st),
        gs_files := (gs_files st)(dir := Some (grants_json grants))\<rparr>"

definition resolveAgentDomainGrantPath :: "host \<Rightarrow> path_overrides option \<Rightarrow> string" where
  "resolveAgentDomainGrantPath h ov = path_join (store_dir h ov) [''agent-domain-grants.json'']"

definition listAgentDomainGrants ::
  "registry option \<Rightarrow> num64 \<Rightarrow> grant_state \<Rightarrow> string \<Rightarrow> grant_entry obj" where
  "listAgentDomainGrants reg now st dir = fst (readGrantFile reg now st dir)"

definition getAgentDomainGrant ::
  "registry option \<Rightarrow> num64 \<Rightarrow> grant_state \<Rightarrow> string \<Rightarrow> string \<Rightarrow> grant_entry option" where
  "getAgentDomainGrant reg now st dir pack = obj_get (listAgentDomainGrants reg now st dir) (trim pack)"

definition hasAgentDomainGrant ::
  "registry option \<Rightarrow> num64 \<Rightarrow> grant_state \<Rightarrow> string \<Rightarrow> string \<Rightarrow> string \<Rightarrow> bool" where
  "hasAgentDomainGrant reg now st dir pack scope =
     (case getAgentDomainGrant reg now st dir pack of
        None \<Rightarrow> False | Some e \<Rightarrow> scope \<in> set (ge_scopes e))"

text \<open>\<open>[...new Set(xs)]\<close> keeps first occurrences.\<close>

definition dedupe :: "'a list \<Rightarrow> 'a list" where
  "dedupe xs = rev (remdups (rev xs))"

text \<open>\<open>None\<close> where the registry throws; the clock is in milliseconds.\<close>

definition setAgentDomainGrant ::
  "registry option \<Rightarrow> int \<Rightarrow> grant_state \<Rightarrow> string \<Rightarrow> string \<Rightarrow> string list \<Rightarrow>
     (grant_entry \<times> grant_state) option" where
  "setAgentDomainGrant reg now_ms st dir pack scopes =
     (let packId = trim pack in
      case readGrantFile reg (Fin (of_int now_ms)) st dir of (grants, shared) \<Rightarrow>
        map_option (\<lambda>allowed.
            let entry = \<lparr>ge_granted_at = Fin (of_int (now_ms div 1000)), ge_scopes = allowed\<rparr>;
                grants' = (if allowed = [] then obj_del grants packId else obj_set grants packId entry)
            in (entry, writeGrantFile dir grants' shared st))
          (filterScopesToPackCeiling reg packId (dedupe scopes)))"

definition revokeAgentDomainGrant ::
  "registry option \<Rightarrow> num64 \<Rightarrow> grant_state \<Rightarrow> string \<Rightarrow> string \<Rightarrow> grant_state" where
  "revokeAgentDomainGrant reg now st dir pack =
     (case readGrantFile reg now st dir of (grants, shared) \<Rightarrow>
        writeGrantFile dir (obj_del grants (trim pack)) shared st)"

definition clearAgentDomainGrants :: "grant_state \<Rightarrow> string \<Rightarrow> grant_state" where
  "clearAgentDomainGrants st dir =
     st\<lparr>gs_files := (gs_files st)(dir := Some (grants_json (gs_empty st)))\<rparr>"

subsection \<open>Consent to data access\<close>

record pack_consent_grant =
  pg_allow_always :: bool
  pg_session_keys :: "string list"

datatype grant_mode = AllowOnce | AllowAlways

type_synonym consent_state = "string \<Rightarrow> jval option"

definition emptyPackEntry :: pack_consent_grant where
  "emptyPackEntry = \<lparr>pg_allow_always = False, pg_session_keys = []\<rparr>"

definition text_elems :: "jval \<Rightarrow> string list" where
  "text_elems v = (case v of
     JArr xs \<Rightarrow> concat (map (\<lambda>x. case x of JStr s \<Rightarrow> [s] | _ \<Rightarrow> []) xs) | _ \<Rightarrow> [])"

definition consent_entry :: "jval \<Rightarrow> pack_consent_grant" where
  "consent_entry v = \<lparr>pg_allow_always = (own_prop v ''allow_always'' = JBool True),
     pg_session_keys = text_elems (own_prop v ''session_keys'')\<rparr>"

definition readConsentFile :: "consent_state \<Rightarrow> string \<Rightarrow> pack_consent_grant obj" where
  "readConsentFile st dir =
     (case st dir of
        None \<Rightarrow> []
      | Some parsed \<Rightarrow>
          if nullish parsed then []
          else (case (strict_eq (own_prop parsed ''version'') (JInt 2),
                      obj_entries (own_prop parsed ''packs'')) of
                  (True, Some m) \<Rightarrow> fold (\<lambda>(k, v) packs. obj_set packs k (consent_entry v)) m []
                | _ \<Rightarrow> [(DEFAULT_AGENT_PACK_ID, consent_entry parsed)]))"

definition consent_entry_json :: "pack_consent_grant \<Rightarrow> jval" where
  "consent_entry_json e = JObj [(''allow_always'', JBool (pg_allow_always e)),
     (''session_keys'', j_strs (pg_session_keys e))]"

definition consent_json :: "pack_consent_grant obj \<Rightarrow> jval" where
  "consent_json packs = JObj [(''version'', JInt 2),
     (''packs'', JObj (map (\<lambda>(k, e). (k, consent_entry_json e)) packs))]"

definition resolvePackEntry :: "pack_consent_grant obj \<Rightarrow> string \<Rightarrow> pack_consent_grant" where
  "resolvePackEntry packs pack = (case obj_get packs pack of Some e \<Rightarrow> e | None \<Rightarrow> emptyPackEntry)"

definition hasTraDataAccessGrant :: "consent_state \<Rightarrow> string \<Rightarrow> string \<Rightarrow> string \<Rightarrow> bool" where
  "hasTraDataAccessGrant st dir session pack =
     (let e = resolvePackEntry (readConsentFile st dir) (trim pack)
      in if pg_allow_always e then True else session \<in> set (pg_session_keys e))"

definition grantTraDataAccess ::
  "consent_state \<Rightarrow> string \<Rightarrow> string \<Rightarrow> string \<Rightarrow> grant_mode \<Rightarrow> consent_state" where
  "grantTraDataAccess st dir session pack mode =
     (if mode = AllowOnce then st
      else let packs = readConsentFile st dir;
               e = resolvePackEntry packs (trim pack);
               e' = \<lparr>pg_allow_always = True,
                     pg_session_keys = (if session \<in> set (pg_session_keys e) then pg_session_keys e
                                        else pg_session_keys e @ [session])\<rparr>
           in st(dir := Some (consent_json (obj_set packs (trim pack) e'))))"

definition clearTraDataAccessGrants :: "consent_state \<Rightarrow> string \<Rightarrow> consent_state" where
  "clearTraDataAccessGrants st dir = st(dir := Some (consent_json []))"

subsection \<open>Reading what was written\<close>

definition pack_ceiling :: "registry \<Rightarrow> string \<Rightarrow> string list" where
  "pack_ceiling g packId = (case get_pack g packId of
     None \<Rightarrow> [] | Some r \<Rightarrow> deriveAgentDomainScopes (rv_doc r))"

lemma filterScopes_ceiling:
  "filterScopesToPackCeiling (Some g) packId scopes = Some (filter (\<lambda>s. s \<in> set (pack_ceiling g packId)) scopes)"
  by (simp add: filterScopesToPackCeiling_def pack_ceiling_def split: option.split)

lemma ceiling_scopes: "s \<in> set (pack_ceiling g packId) \<Longrightarrow> isAgentDomainScope s"
  using scopes_subset by (auto simp: pack_ceiling_def isAgentDomainScope_def split: option.splits)

definition below :: "registry \<Rightarrow> grant_entry obj \<Rightarrow> bool" where
  "below g m \<longleftrightarrow> distinct (obj_keys m) \<and>
     (\<forall>k e. obj_get m k = Some e \<longrightarrow> set (ge_scopes e) \<subseteq> set (pack_ceiling g k))"

lemma below_Nil: "below g []"
  by (simp add: below_def obj_get_def obj_keys_def)

lemma below_set: "below g m \<Longrightarrow> set (ge_scopes e) \<subseteq> set (pack_ceiling g k) \<Longrightarrow> below g (obj_set m k e)"
  by (simp add: below_def kv_simps obj_set_distinct)

lemma below_tl:
  assumes "below g ((k, e) # gs)"
  shows "below g gs"
proof -
  have "obj_get ((k, e) # gs) j = Some e'" if "obj_get gs j = Some e'" for j e'
    using that assms obj_get_keys [of gs j] by (auto simp: below_def obj_keys_def obj_get_def)
  with assms show ?thesis unfolding below_def by (auto simp: obj_keys_def)
qed

lemma below_del: "below g m \<Longrightarrow> below g (obj_del m k)"
  by (simp add: below_def kv_simps obj_del_distinct)

lemma entry_scopes_below:
  "\<exists>ss. entry_scopes (Some g) k v = Some ss \<and> set ss \<subseteq> set (pack_ceiling g k)"
  by (auto simp: entry_scopes_def filterScopes_ceiling split: jval.split)

lemma read_entries_below:
  "below g acc \<Longrightarrow> \<exists>r. read_entries (Some g) now m acc = Some r \<and> below g r"
proof (induction m arbitrary: acc)
  case Nil
  then show ?case by simp
next
  case (Cons x m)
  obtain k v where x: "x = (k, v)" by force
  obtain ss where "entry_scopes (Some g) k v = Some ss" "set ss \<subseteq> set (pack_ceiling g k)"
    using entry_scopes_below by blast
  with Cons show ?case by (simp add: x below_set)
qed

lemma scope_texts_j: "scope_texts (map JStr ss) = filter isAgentDomainScope ss"
  by (induction ss) (auto simp: scope_texts_def)

lemma entry_json_props:
  "obj_entries (entry_json e) \<noteq> None" "own_prop (entry_json e) ''scopes'' = j_strs (ge_scopes e)"
  "granted_at_of now (entry_json e) = ge_granted_at e"
  by (simp_all add: entry_json_def obj_entries_def own_prop_def granted_at_of_def)

lemma obj_set_new: "k \<notin> set (obj_keys m) \<Longrightarrow> obj_set m k v = m @ [(k, v)]"
  by (induction m k v rule: obj_set.induct) (auto simp: obj_keys_def)

text \<open>Grants within the ceiling of the registry survive being written and read again.\<close>

lemma read_entries_written:
  "below g gs \<Longrightarrow> distinct (obj_keys (acc @ gs)) \<Longrightarrow>
     read_entries (Some g) now (map (\<lambda>(k, e). (k, entry_json e)) gs) acc = Some (acc @ gs)"
proof (induction gs arbitrary: acc)
  case Nil
  then show ?case by simp
next
  case (Cons x gs)
  obtain k e where x: "x = (k, e)" by force
  have "set (ge_scopes e) \<subseteq> set (pack_ceiling g k)"
    using Cons.prems(1) by (auto simp: below_def x obj_get_def)
  then have f: "filter (\<lambda>s. s \<in> set (pack_ceiling g k)) (filter isAgentDomainScope (ge_scopes e)) = ge_scopes e"
    by (auto simp: filter_id_conv dest: ceiling_scopes)
  have "below g gs" using Cons.prems(1) by (simp add: x below_tl)
  moreover have "k \<notin> set (obj_keys acc)" "distinct (obj_keys ((acc @ [(k, e)]) @ gs))"
    using Cons.prems(2) by (auto simp: obj_keys_def x)
  ultimately show ?case
    using f Cons.IH [of "acc @ [(k, e)]"]
    by (cases e) (simp add: x entry_json_props entry_scopes_def filterScopes_ceiling scope_texts_j obj_set_new
        j_strs_def del: filter_filter)
qed

lemma read_written_grants:
  "below g gs \<Longrightarrow>
     readGrantFile (Some g) now (writeGrantFile dir gs sh st) dir = (gs, False)"
  using read_entries_written [of g gs "[]" now]
  by (simp add: readGrantFile_def writeGrantFile_def grants_json_def nullish_def own_prop_def
      obj_entries_def below_def)

definition grants_ok :: "registry \<Rightarrow> grant_state \<Rightarrow> bool" where
  "grants_ok g st \<longleftrightarrow> below g (gs_empty st)"

lemma read_below: "grants_ok g st \<Longrightarrow> below g (fst (readGrantFile (Some g) now st dir))"
proof -
  have "below g r" if "read_entries (Some g) now m [] = Some r" for m r
    using read_entries_below [OF below_Nil, of g now m] that by auto
  then show "grants_ok g st \<Longrightarrow> below g (fst (readGrantFile (Some g) now st dir))"
    by (auto simp: readGrantFile_def grants_ok_def below_Nil split: option.split)
qed

lemma write_grants_ok: "grants_ok g st \<Longrightarrow> below g gs \<Longrightarrow> grants_ok g (writeGrantFile dir gs sh st)"
  by (simp add: grants_ok_def writeGrantFile_def)

subsection \<open>Grants stay below the ceiling\<close>

text \<open>A process that starts with any files, runs the operations and has its files edited.\<close>

inductive grants_reachable :: "registry \<Rightarrow> grant_state \<Rightarrow> bool" for g where
  start: "gs_empty st = [] \<Longrightarrow> grants_reachable g st"
| set: "grants_reachable g st \<Longrightarrow> setAgentDomainGrant (Some g) now st dir pack scopes = Some (e, st') \<Longrightarrow>
     grants_reachable g st'"
| revoke: "grants_reachable g st \<Longrightarrow> grants_reachable g (revokeAgentDomainGrant (Some g) t st dir pack)"
| clear: "grants_reachable g st \<Longrightarrow> grants_reachable g (clearAgentDomainGrants st dir)"
| edit: "grants_reachable g st \<Longrightarrow> grants_reachable g (st\<lparr>gs_files := files\<rparr>)"

lemma set_grant_eq:
  assumes "readGrantFile (Some g) (Fin (of_int now)) st dir = (gs, sh)"
  shows "setAgentDomainGrant (Some g) now st dir pack scopes =
    (let allowed = filter (\<lambda>s. s \<in> set (pack_ceiling g (trim pack))) (dedupe scopes);
         e = \<lparr>ge_granted_at = Fin (of_int (now div 1000)), ge_scopes = allowed\<rparr>
     in Some (e, writeGrantFile dir (if allowed = [] then obj_del gs (trim pack) else obj_set gs (trim pack) e) sh st))"
  by (simp add: setAgentDomainGrant_def assms filterScopes_ceiling Let_def)

definition put_grant :: "grant_entry obj \<Rightarrow> string \<Rightarrow> grant_entry \<Rightarrow> grant_entry obj" where
  "put_grant gs k e = (if ge_scopes e = [] then obj_del gs k else obj_set gs k e)"

lemma set_grant_put:
  assumes "readGrantFile (Some g) (Fin (of_int now)) st dir = (gs, sh)"
    and "setAgentDomainGrant (Some g) now st dir pack scopes = Some (e, st')"
  shows "st' = writeGrantFile dir (put_grant gs (trim pack) e) sh st \<and>
    ge_scopes e = filter (\<lambda>s. s \<in> set (pack_ceiling g (trim pack))) (dedupe scopes)"
  using assms(2) by (auto simp: set_grant_eq [OF assms(1)] Let_def put_grant_def)

lemma put_below:
  "below g gs \<Longrightarrow> set (ge_scopes e) \<subseteq> set (pack_ceiling g k) \<Longrightarrow> below g (put_grant gs k e)"
  by (simp add: put_grant_def below_del below_set)

lemma grants_reachable_ok: "grants_reachable g st \<Longrightarrow> grants_ok g st"
proof (induction rule: grants_reachable.induct)
  case (start st)
  then show ?case by (simp add: grants_ok_def below_Nil)
next
  case (set st now dir pack scopes e st')
  obtain gs sh where r: "readGrantFile (Some g) (Fin (of_int now)) st dir = (gs, sh)" by fastforce
  then have "below g gs" using read_below [OF set.IH] by (metis fst_conv)
  moreover note w = set_grant_put [OF r set.hyps(2)]
  ultimately have "below g (put_grant gs (trim pack) e)" by (intro put_below) auto
  with w show ?case by (simp add: write_grants_ok set.IH)
next
  case (revoke st t dir pack)
  obtain gs sh where r: "readGrantFile (Some g) t st dir = (gs, sh)" by fastforce
  then have "below g gs" using read_below [OF revoke.IH] by (metis fst_conv)
  then show ?case by (simp add: revokeAgentDomainGrant_def r write_grants_ok below_del revoke.IH)
qed (simp_all add: grants_ok_def clearAgentDomainGrants_def)

text \<open>
  Whatever the grant files say and however they came about, a pack is only ever
  granted a scope that its loaded manifest allows, and an unknown pack none.
\<close>

theorem grant_within_ceiling:
  assumes "grants_reachable g st" and "hasAgentDomainGrant (Some g) now st dir pack scope"
  shows "\<exists>r. get_pack g (trim pack) = Some r \<and> scope \<in> set (deriveAgentDomainScopes (rv_doc r))"
proof -
  have "below g (fst (readGrantFile (Some g) now st dir))"
    using read_below [OF grants_reachable_ok [OF assms(1)]] .
  moreover obtain e where "obj_get (fst (readGrantFile (Some g) now st dir)) (trim pack) = Some e"
      "scope \<in> set (ge_scopes e)"
    using assms(2) by (auto simp: hasAgentDomainGrant_def getAgentDomainGrant_def
        listAgentDomainGrants_def split: option.splits)
  ultimately have "scope \<in> set (pack_ceiling g (trim pack))" by (auto simp: below_def)
  then show ?thesis by (cases "get_pack g (trim pack)") (simp_all add: pack_ceiling_def)
qed

subsection \<open>Setting, revoking and resetting\<close>

definition scopes_of :: "grant_entry option \<Rightarrow> string list" where
  "scopes_of x = (case x of None \<Rightarrow> [] | Some e \<Rightarrow> ge_scopes e)"

lemma has_grant_scopes:
  "hasAgentDomainGrant reg now st dir pack s \<longleftrightarrow>
     s \<in> set (scopes_of (obj_get (fst (readGrantFile reg now st dir)) (trim pack)))"
  by (simp add: hasAgentDomainGrant_def getAgentDomainGrant_def listAgentDomainGrants_def scopes_of_def
      split: option.split)

lemma put_grant_scopes:
  "scopes_of (obj_get (put_grant gs k e) j) = (if j = k then ge_scopes e else scopes_of (obj_get gs j))"
  by (auto simp: put_grant_def kv_simps scopes_of_def)

lemma set_dedupe [simp]: "set (dedupe xs) = set xs"
  by (simp add: dedupe_def)

lemma set_grant_read:
  assumes ok: "grants_ok g st"
    and set: "setAgentDomainGrant (Some g) now st dir pack scopes = Some (e, st')"
  shows "grants_ok g st'"
    and "hasAgentDomainGrant (Some g) t st' dir q s \<longleftrightarrow>
      (if trim q = trim pack then s \<in> set scopes \<and> s \<in> set (pack_ceiling g (trim pack))
       else hasAgentDomainGrant (Some g) (Fin (of_int now)) st dir q s)"
proof -
  obtain gs sh where r: "readGrantFile (Some g) (Fin (of_int now)) st dir = (gs, sh)" by fastforce
  then have "below g gs" using read_below [OF ok] by (metis fst_conv)
  moreover note w = set_grant_put [OF r set]
  ultimately have b: "below g (put_grant gs (trim pack) e)" by (intro put_below) auto
  with w show "grants_ok g st'" by (simp add: write_grants_ok ok)
  show "hasAgentDomainGrant (Some g) t st' dir q s \<longleftrightarrow>
      (if trim q = trim pack then s \<in> set scopes \<and> s \<in> set (pack_ceiling g (trim pack))
       else hasAgentDomainGrant (Some g) (Fin (of_int now)) st dir q s)"
    using w by (auto simp: has_grant_scopes read_written_grants [OF b] put_grant_scopes r)
qed

lemma revoke_grant_read:
  assumes ok: "grants_ok g st"
  shows "hasAgentDomainGrant (Some g) t (revokeAgentDomainGrant (Some g) now st dir pack) dir q s \<longleftrightarrow>
      trim q \<noteq> trim pack \<and> hasAgentDomainGrant (Some g) now st dir q s"
proof -
  obtain gs sh where r: "readGrantFile (Some g) now st dir = (gs, sh)" by fastforce
  then have "below g gs" using read_below [OF ok] by (metis fst_conv)
  then have "below g (obj_del gs (trim pack))" by (rule below_del)
  from read_written_grants [OF this] show ?thesis
    by (simp add: has_grant_scopes revokeAgentDomainGrant_def r kv_simps scopes_of_def)
qed

lemma clear_grant_read:
  assumes "grants_ok g st"
  shows "hasAgentDomainGrant (Some g) t (clearAgentDomainGrants st dir) dir q s \<longleftrightarrow>
      s \<in> set (scopes_of (obj_get (gs_empty st) (trim q)))"
proof -
  have "clearAgentDomainGrants st dir = writeGrantFile dir (gs_empty st) False st"
    by (simp add: clearAgentDomainGrants_def writeGrantFile_def)
  with read_written_grants [of g "gs_empty st" t dir False st] assms show ?thesis
    by (simp add: has_grant_scopes grants_ok_def)
qed

text \<open>
  C38 -- a grant gives a pack exactly the requested scopes that its manifest allows and
  replaces what it had; revoking takes all of them away; other packs keep theirs.
\<close>

theorem grant_and_revoke:
  assumes "grants_reachable g st"
    and "setAgentDomainGrant (Some g) now st dir pack scopes = Some (e, st')"
  shows "(hasAgentDomainGrant (Some g) t st' dir q s \<longleftrightarrow>
           (if trim q = trim pack then s \<in> set scopes \<and> s \<in> set (pack_ceiling g (trim pack))
            else hasAgentDomainGrant (Some g) (Fin (of_int now)) st dir q s)) \<and>
         (hasAgentDomainGrant (Some g) t (revokeAgentDomainGrant (Some g) u st' dir pack) dir q s \<longleftrightarrow>
           trim q \<noteq> trim pack \<and> hasAgentDomainGrant (Some g) u st' dir q s)"
  using set_grant_read [OF grants_reachable_ok [OF assms(1)] assms(2)] revoke_grant_read by blast

text \<open>
  A reset writes the module constant, not an empty file: a scope granted in a fresh
  process while the grant file was missing is granted again after a reset, even when the
  user had revoked it before.
\<close>

theorem reset_restores_first_grant:
  assumes "gs_empty st = []" and "gs_files st dir = None"
    and "setAgentDomainGrant (Some g) now st dir pack scopes = Some (e, st')"
    and "s \<in> set scopes" and "s \<in> set (pack_ceiling g (trim pack))"
  shows "\<not> hasAgentDomainGrant (Some g) t (revokeAgentDomainGrant (Some g) u st' dir pack) dir pack s \<and>
         hasAgentDomainGrant (Some g) t
           (clearAgentDomainGrants (revokeAgentDomainGrant (Some g) u st' dir pack) dir) dir pack s"
proof
  have ok: "grants_ok g st" using assms(1) by (simp add: grants_ok_def below_Nil)
  note ok' = set_grant_read(1) [OF ok assms(3)]
  show "\<not> hasAgentDomainGrant (Some g) t (revokeAgentDomainGrant (Some g) u st' dir pack) dir pack s"
    by (simp add: revoke_grant_read [OF ok'])
  have r: "readGrantFile (Some g) (Fin (of_int now)) st dir = ([], True)"
    using assms(1,2) by (simp add: readGrantFile_def)
  note w = set_grant_put [OF r assms(3)]
  have b: "below g (put_grant [] (trim pack) e)" using w by (intro put_below below_Nil) auto
  let ?st = "revokeAgentDomainGrant (Some g) u st' dir pack"
  have "readGrantFile (Some g) u st' dir = (put_grant [] (trim pack) e, False)"
    using w read_written_grants [OF b] by simp
  then have "gs_empty ?st = gs_empty st'" by (simp add: revokeAgentDomainGrant_def writeGrantFile_def)
  also have "\<dots> = put_grant [] (trim pack) e" using w by (simp add: writeGrantFile_def)
  finally have "gs_empty ?st = put_grant [] (trim pack) e" .
  with b w assms(4,5) show "hasAgentDomainGrant (Some g) t (clearAgentDomainGrants ?st dir) dir pack s"
    by (simp add: clear_grant_read grants_ok_def put_grant_scopes)
qed

subsection \<open>Consent decisions\<close>

lemma text_elems_j: "text_elems (j_strs ss) = ss"
  by (induction ss) (auto simp: text_elems_def j_strs_def)

lemma consent_entry_j: "consent_entry (consent_entry_json e) = e"
  by (cases e) (simp add: consent_entry_def consent_entry_json_def own_prop_obj text_elems_j)

lemma fold_consent_written:
  "distinct (obj_keys (acc @ ps)) \<Longrightarrow>
     fold (\<lambda>(k, v) packs. obj_set packs k (consent_entry v)) (map (\<lambda>(k, e). (k, consent_entry_json e)) ps) acc
     = acc @ ps"
proof (induction ps arbitrary: acc)
  case Nil
  then show ?case by simp
next
  case (Cons x ps)
  obtain k e where x: "x = (k, e)" by force
  have "k \<notin> set (obj_keys acc)" "distinct (obj_keys ((acc @ [(k, e)]) @ ps))"
    using Cons.prems by (auto simp: obj_keys_def x)
  then show ?case
    using Cons.IH [of "acc @ [(k, e)]"] by (simp add: x consent_entry_j obj_set_new)
qed

lemma read_consent_written:
  "distinct (obj_keys ps) \<Longrightarrow> readConsentFile (st(dir := Some (consent_json ps))) dir = ps"
  using fold_consent_written [of "[]" ps]
  by (simp add: readConsentFile_def consent_json_def nullish_def own_prop_obj obj_entries_def)

lemma fold_consent_distinct:
  "distinct (obj_keys acc) \<Longrightarrow>
     distinct (obj_keys (fold (\<lambda>(k, v) packs. obj_set packs k (consent_entry v)) m acc))"
  by (induction m arbitrary: acc) (auto simp: obj_set_distinct)

lemma read_consent_distinct: "distinct (obj_keys (readConsentFile st dir))"
  by (auto simp: readConsentFile_def fold_consent_distinct obj_keys_def [of "[]"]
      obj_keys_def [of "[_]"] split: option.split bool.split)

text \<open>
  "allow once" persists nothing; "allow always", answered in one session, opens the
  data of that pack to every session and of no other pack; clearing closes all packs; and
  a file of the older format counts for the default pack alone.
\<close>

theorem consent_grants:
  "hasTraDataAccessGrant (grantTraDataAccess st dir session p AllowOnce) dir s q =
     hasTraDataAccessGrant st dir s q \<and>
   hasTraDataAccessGrant (grantTraDataAccess st dir session p AllowAlways) dir s q =
     (trim q = trim p \<or> hasTraDataAccessGrant st dir s q) \<and>
   \<not> hasTraDataAccessGrant (clearTraDataAccessGrants st dir) dir s q \<and>
   \<not> (st dir = Some v \<and> own_prop v ''version'' = JUndef \<and> trim q \<noteq> DEFAULT_AGENT_PACK_ID \<and>
      hasTraDataAccessGrant st dir s q)"
proof (intro conjI)
  have d: "distinct (obj_keys (obj_set (readConsentFile st dir) (trim p) e))" for e
    by (rule obj_set_distinct [OF read_consent_distinct])
  show "hasTraDataAccessGrant (grantTraDataAccess st dir session p AllowOnce) dir s q =
     hasTraDataAccessGrant st dir s q"
    by (simp add: grantTraDataAccess_def)
  show "hasTraDataAccessGrant (grantTraDataAccess st dir session p AllowAlways) dir s q =
     (trim q = trim p \<or> hasTraDataAccessGrant st dir s q)"
    by (simp add: grantTraDataAccess_def hasTraDataAccessGrant_def Let_def read_consent_written [OF d]
        resolvePackEntry_def kv_simps)
  show "\<not> hasTraDataAccessGrant (clearTraDataAccessGrants st dir) dir s q"
    by (simp add: clearTraDataAccessGrants_def hasTraDataAccessGrant_def Let_def
        read_consent_written [of "[]"] obj_keys_def resolvePackEntry_def obj_get_def emptyPackEntry_def)
  show "\<not> (st dir = Some v \<and> own_prop v ''version'' = JUndef \<and> trim q \<noteq> DEFAULT_AGENT_PACK_ID \<and>
      hasTraDataAccessGrant st dir s q)"
    by (auto simp: hasTraDataAccessGrant_def Let_def readConsentFile_def resolvePackEntry_def
        obj_get_def emptyPackEntry_def split: if_splits)
qed

subsection \<open>A fresh process\<close>

definition fresh_grants :: grant_state where
  "fresh_grants = \<lparr>gs_empty = [], gs_files = (\<lambda>_. None)\<rparr>"

lemma fresh_grants_reachable: "grants_reachable g fresh_grants"
  by (rule grants_reachable.start) (simp add: fresh_grants_def)

lemma demo_ceiling: "pack_ceiling demo_registry ''p-1'' =
    [''panel.browse'', ''panel.audit'', ''panel.compliance'', ''tra.chat'']"
  by (simp add: pack_ceiling_def get_pack_def demo_registry_def obj_get_def demo_resolved_def
      demo_pack_def deriveAgentDomainScopes_def AGENT_DOMAIN_SCOPES_def Let_def)

lemma demo_grant:
  obtains e st' where "setAgentDomainGrant (Some demo_registry) 5000 fresh_grants ''/d'' ''p-1''
    [''tra.chat'', ''tra.write''] = Some (e, st')"
proof -
  have "readGrantFile (Some demo_registry) (Fin (of_int 5000)) fresh_grants ''/d'' = ([], True)"
    by (simp add: readGrantFile_def fresh_grants_def)
  from set_grant_eq [OF this, of "''p-1''" "[''tra.chat'', ''tra.write'']"] that show ?thesis
    by (auto simp: Let_def)
qed

lemma grant_and_revoke_witness:
  "\<exists>e st'. setAgentDomainGrant (Some demo_registry) 5000 fresh_grants ''/d'' ''p-1''
       [''tra.chat'', ''tra.write''] = Some (e, st') \<and>
     hasAgentDomainGrant (Some demo_registry) NaN st' ''/d'' ''p-1'' ''tra.chat'' \<and>
     \<not> hasAgentDomainGrant (Some demo_registry) NaN st' ''/d'' ''p-1'' ''tra.write''"
proof -
  obtain e st' where s: "setAgentDomainGrant (Some demo_registry) 5000 fresh_grants ''/d'' ''p-1''
    [''tra.chat'', ''tra.write''] = Some (e, st')" by (rule demo_grant)
  note c = grant_and_revoke [OF fresh_grants_reachable s, of NaN "''p-1''"]
  from c [of "''tra.chat''"] c [of "''tra.write''"] s show ?thesis
    by (auto simp: demo_ceiling trim_plain)
qed

lemma grant_within_ceiling_witness:
  "\<exists>e st' r. setAgentDomainGrant (Some demo_registry) 5000 fresh_grants ''/d'' ''p-1''
       [''tra.chat'', ''tra.write''] = Some (e, st') \<and>
     get_pack demo_registry ''p-1'' = Some r \<and> ''tra.chat'' \<in> set (deriveAgentDomainScopes (rv_doc r))"
proof -
  obtain e st' where s: "setAgentDomainGrant (Some demo_registry) 5000 fresh_grants ''/d'' ''p-1''
    [''tra.chat'', ''tra.write''] = Some (e, st')" by (rule demo_grant)
  have "hasAgentDomainGrant (Some demo_registry) NaN st' ''/d'' ''p-1'' ''tra.chat''"
    using set_grant_read(2) [OF grants_reachable_ok [OF fresh_grants_reachable] s]
    by (simp add: demo_ceiling trim_plain)
  from grant_within_ceiling [OF grants_reachable.set [OF fresh_grants_reachable s] this] s
  show ?thesis by (auto simp: trim_plain)
qed

lemma reset_restores_first_grant_witness:
  "\<exists>e st'. setAgentDomainGrant (Some demo_registry) 5000 fresh_grants ''/d'' ''p-1''
       [''tra.chat'', ''tra.write''] = Some (e, st') \<and>
     hasAgentDomainGrant (Some demo_registry) NaN (clearAgentDomainGrants
       (revokeAgentDomainGrant (Some demo_registry) NaN st' ''/d'' ''p-1'') ''/d'') ''/d'' ''p-1'' ''tra.chat''"
proof -
  obtain e st' where s: "setAgentDomainGrant (Some demo_registry) 5000 fresh_grants ''/d'' ''p-1''
    [''tra.chat'', ''tra.write''] = Some (e, st')" by (rule demo_grant)
  have "gs_empty fresh_grants = []" "gs_files fresh_grants ''/d'' = None"
    by (simp_all add: fresh_grants_def)
  from reset_restores_first_grant [OF this s, of "''tra.chat''" NaN NaN] s show ?thesis
    by (simp add: demo_ceiling trim_plain)
qed

end
