(* ===== verification/Sql_Guard.thy ===== *)
theory Sql_Guard
  imports Grants
begin

text \<open>
  From a model's answer to SQL that may run (\<open>tra/query.ts\<close>, \<open>runtime/text2sql\<close>): cutting
  the statement out of the answer, the read-only guard, the guard of device and personal
  writes, the tables a statement names and the prompts.  The language model's answer is an
  argument.  A regular expression \<open>\b(A|B)\b\<close> with the flag \<open>i\<close> finds a maximal run of word
  characters that equals \<open>A\<close> or \<open>B\<close> up to case, so the guards are stated on these runs.
\<close>

subsection \<open>Words and searches\<close>

fun words_acc :: "string \<Rightarrow> string \<Rightarrow> string list" where
  "words_acc cur [] = (if cur = [] then [] else [rev cur])"
| "words_acc cur (c # s) =
     (if is_word c then words_acc (c # cur) s
      else (if cur = [] then words_acc [] s else rev cur # words_acc [] s))"

definition words :: "string \<Rightarrow> string list" where
  "words s = words_acc [] s"

definition has_word :: "string list \<Rightarrow> string \<Rightarrow> bool" where
  "has_word kws s \<longleftrightarrow> list_ex (\<lambda>w. to_upper w \<in> set kws) (words s)"

text \<open>\<open>/^\s*KW\b/i\<close>\<close>

definition leads_with :: "string \<Rightarrow> string \<Rightarrow> bool" where
  "leads_with kw s \<longleftrightarrow> to_upper (takeWhile is_word (trim_start s)) = kw"

fun find_sub :: "string \<Rightarrow> string \<Rightarrow> (string \<times> string) option" where
  "find_sub n [] = (if n = [] then Some ([], []) else None)"
| "find_sub n (c # s) =
     (if starts_with (c # s) n then Some ([], drop (length n) (c # s))
      else map_option (\<lambda>(b, a). (c # b, a)) (find_sub n s))"

definition eat_kw :: "string \<Rightarrow> string \<Rightarrow> string option" where
  "eat_kw kw s = (if to_upper (take (length kw) s) = kw then Some (drop (length kw) s) else None)"

text \<open>\<open>\s+\<close>\<close>

definition eat_ws :: "string \<Rightarrow> string option" where
  "eat_ws s = (if trim_start s = s then None else Some (trim_start s))"

text \<open>\<open>[a-zA-Z_]\w*\<close> and what follows it\<close>

definition eat_ident :: "string \<Rightarrow> (string \<times> string) option" where
  "eat_ident s = (case s of [] \<Rightarrow> None
     | c # t \<Rightarrow> if is_alpha c \<or> c = CHR ''_'' then Some (takeWhile is_word s, dropWhile is_word s)
               else None)"

definition sort_set :: "string list \<Rightarrow> string list" where
  "sort_set xs = sort (dedupe xs)"

subsection \<open>The read-only guard\<close>

datatype query_error = EmptySql | NotSelect | ForbiddenKeyword | MultipleStatements

definition FORBIDDEN_QUERY_WORDS :: "string list" where
  "FORBIDDEN_QUERY_WORDS =
     [''INSERT'', ''UPDATE'', ''DELETE'', ''DROP'', ''ALTER'', ''CREATE'', ''REPLACE'', ''TRUNCATE'',
      ''ATTACH'', ''DETACH'', ''PRAGMA'']"

definition statements_of :: "string \<Rightarrow> string list" where
  "statements_of s = filter (\<lambda>p. p \<noteq> []) (map trim (split_on CHR '';'' s))"

definition assertReadOnlySelectSql :: "string \<Rightarrow> query_error + string" where
  "assertReadOnlySelectSql sql =
     (let trimmed = trim sql in
      if trimmed = [] then Inl EmptySql
      else if \<not> leads_with ''SELECT'' trimmed then Inl NotSelect
      else if has_word FORBIDDEN_QUERY_WORDS trimmed then Inl ForbiddenKeyword
      else if js_includes trimmed '';'' \<and> length (statements_of trimmed) \<noteq> 1
        then Inl MultipleStatements
      else Inr trimmed)"

subsection \<open>Cutting SQL out of an answer\<close>

definition fence :: string where "fence = [CHR 0x60, CHR 0x60, CHR 0x60]"

definition fenced_block :: "string \<Rightarrow> string option" where
  "fenced_block s =
     (case find_sub fence s of None \<Rightarrow> None
      | Some (_, r) \<Rightarrow>
          let r1 = (case eat_kw ''SQL'' r of Some r' \<Rightarrow> r' | None \<Rightarrow> r)
          in map_option fst (find_sub fence (trim_start r1)))"

definition comment_lead :: "string \<Rightarrow> bool" where
  "comment_lead s \<longleftrightarrow> list_ex (\<lambda>p. starts_with (to_upper s) p)
     [''HERE IS'', ''THE SQL'', ''SQL QUERY'', ''ANSWER'']"

text \<open>The loop over the trimmed lines, before and after the statement has started.\<close>

fun sql_lines :: "string \<Rightarrow> bool \<Rightarrow> string list \<Rightarrow> string list" where
  "sql_lines kw started [] = []"
| "sql_lines kw started (candidate # ls) =
     (if \<not> started then
        (if leads_with kw candidate then candidate # sql_lines kw True ls else sql_lines kw False ls)
      else if candidate = [] \<or> starts_with candidate ''--'' then sql_lines kw True ls
      else if comment_lead candidate then []
      else candidate # sql_lines kw True ls)"

text \<open>\<open>replace(/;+\s*$/, '')\<close>\<close>

definition drop_semis :: "string \<Rightarrow> string" where
  "drop_semis s =
     (let t = trim_end s in
      if t \<noteq> [] \<and> last t = CHR '';'' then rev (dropWhile (\<lambda>c. c = CHR '';'') (rev t)) else s)"

text \<open>\<open>replace(/^sql:\s*/i, '')\<close>\<close>

definition drop_sql_label :: "string \<Rightarrow> string" where
  "drop_sql_label s = (case eat_kw ''SQL:'' s of Some r \<Rightarrow> trim_start r | None \<Rightarrow> s)"

definition extract_sql :: "string \<Rightarrow> (string \<Rightarrow> string) \<Rightarrow> string \<Rightarrow> string" where
  "extract_sql kw finish raw =
     (let trimmed = trim raw in
      if trimmed = [] then []
      else (case fenced_block trimmed of
              Some (c # b) \<Rightarrow> trim (c # b)
            | _ \<Rightarrow>
                let ls = sql_lines kw False (map trim (split_on (CHR 0x0A) trimmed))
                in if ls \<noteq> [] then trim (finish (join [CHR 0x0A] ls))
                   else trim (drop_sql_label trimmed)))"

definition extractSqlFromLlmOutput :: "string \<Rightarrow> string" where
  "extractSqlFromLlmOutput raw = extract_sql ''SELECT'' drop_semis raw"

definition extractInsertSqlFromLlmOutput :: "string \<Rightarrow> string" where
  "extractInsertSqlFromLlmOutput raw = extract_sql ''INSERT'' (\<lambda>s. s) raw"

subsection \<open>Tables a query names\<close>

definition opt_lead :: "char \<Rightarrow> string \<Rightarrow> string" where
  "opt_lead c s = (if s \<noteq> [] \<and> hd s = c then tl s else s)"

definition alias_rest :: "string \<Rightarrow> string" where
  "alias_rest s =
     (case Option.bind (Option.bind (eat_ws s) (eat_kw ''AS'')) eat_ws of
        None \<Rightarrow> s | Some r \<Rightarrow> (case eat_ident r of None \<Rightarrow> s | Some (_, r') \<Rightarrow> r'))"

text \<open>A match at the start of \<open>s\<close>: the table and the text after the match.\<close>

definition table_ref :: "string \<Rightarrow> (string \<times> string) option" where
  "table_ref s =
     (case (case eat_kw ''FROM'' s of Some r \<Rightarrow> Some r | None \<Rightarrow> eat_kw ''JOIN'' s) of
        None \<Rightarrow> None
      | Some r \<Rightarrow>
          (case eat_ws r of
             None \<Rightarrow> None
           | Some r1 \<Rightarrow>
               (case eat_ident (opt_lead CHR ''('' r1) of
                  None \<Rightarrow> None
                | Some (name, r2) \<Rightarrow> Some (name, opt_lead CHR '')'' (alias_rest r2)))))"

text \<open>The global scan, with fuel for the length of the text; \<open>bnd\<close> says that a word may start here.\<close>

fun table_refs :: "nat \<Rightarrow> bool \<Rightarrow> string \<Rightarrow> string list" where
  "table_refs 0 bnd s = []"
| "table_refs (Suc n) bnd [] = []"
| "table_refs (Suc n) bnd (c # s) =
     (case (if bnd then table_ref (c # s) else None) of
        Some (name, r) \<Rightarrow>
          name # table_refs n (r \<noteq> [] \<and> \<not> is_word (last (take (length (c # s) - length r) (c # s)))) r
      | None \<Rightarrow> table_refs n (\<not> is_word c) s)"

definition extractReferencedTables :: "string \<Rightarrow> string list" where
  "extractReferencedTables sql =
     sort_set (filter (\<lambda>n. to_upper n \<noteq> ''SELECT'') (table_refs (Suc (length sql)) True sql))"

subsection \<open>The write guard\<close>

datatype write_error =
  NoInsertStatements | OnlyInsert | ForbiddenWriteKeyword | NoTargetTable | TableNotAllowed string

definition FORBIDDEN_WRITE_WORDS :: "string list" where
  "FORBIDDEN_WRITE_WORDS =
     [''SELECT'', ''UPDATE'', ''DELETE'', ''DROP'', ''ALTER'', ''CREATE'', ''REPLACE'', ''TRUNCATE'',
      ''ATTACH'', ''DETACH'', ''PRAGMA'']"

definition DEVICE_IMPORT_ALLOWED_TABLES :: "string list" where
  "DEVICE_IMPORT_ALLOWED_TABLES =
     [''data_source_registry'', ''device_registry'', ''body_anthropometrics'', ''lab_test_results'',
      ''daily_vitals'', ''wearable_sleep_metrics'', ''wearable_activity_metrics'',
      ''wearable_sleep_epochs'']"

definition isDeviceImportAllowedTable :: "string \<Rightarrow> bool" where
  "isDeviceImportAllowedTable name \<longleftrightarrow> name \<in> set DEVICE_IMPORT_ALLOWED_TABLES"

definition or_clause :: "string \<Rightarrow> string" where
  "or_clause s =
     (case Option.bind (eat_kw ''OR'' s) eat_ws of
        None \<Rightarrow> s
      | Some r \<Rightarrow>
          (case find (\<lambda>k. eat_kw k r \<noteq> None) [''IGNORE'', ''REPLACE'', ''ABORT'', ''FAIL'', ''ROLLBACK''] of
             None \<Rightarrow> s
           | Some k \<Rightarrow> (case Option.bind (eat_kw k r) eat_ws of None \<Rightarrow> s | Some r' \<Rightarrow> r')))"

definition insert_table :: "string \<Rightarrow> string option" where
  "insert_table s =
     map_option fst
       (Option.bind (Option.bind (Option.bind (map_option or_clause
          (Option.bind (eat_kw ''INSERT'' (trim_start s)) eat_ws)) (eat_kw ''INTO'')) eat_ws) eat_ident)"

definition splitInsertStatements :: "string \<Rightarrow> string list" where
  "splitInsertStatements sql =
     (let trimmed = trim sql in if trimmed = [] then [] else statements_of trimmed)"

definition extractInsertTables :: "string \<Rightarrow> string list" where
  "extractInsertTables sql =
     sort_set (concat (map (\<lambda>s. case trim_opt (insert_table s) of Some t \<Rightarrow> [t] | None \<Rightarrow> [])
       (splitInsertStatements sql)))"

definition check_insert :: "string \<Rightarrow> write_error + string" where
  "check_insert statement =
     (if \<not> leads_with ''INSERT'' statement then Inl OnlyInsert
      else if has_word FORBIDDEN_WRITE_WORDS statement then Inl ForbiddenWriteKeyword
      else (case trim_opt (insert_table statement) of
              None \<Rightarrow> Inl NoTargetTable
            | Some table \<Rightarrow> if \<not> isDeviceImportAllowedTable table then Inl (TableNotAllowed table)
                            else Inr table))"

definition assertDeviceImportStatements :: "string list \<Rightarrow> write_error + string list" where
  "assertDeviceImportStatements statements =
     (if statements = [] then Inl NoInsertStatements
      else (case map_result check_insert statements of
              Inl e \<Rightarrow> Inl e | Inr tables \<Rightarrow> Inr (sort_set tables)))"

subsection \<open>Prompts\<close>

text \<open>
  \<open>s.replace(needle, repl)\<close> with two strings: the first occurrence, with the patterns that
  start with a dollar sign in \<open>repl\<close> expanded.
\<close>

fun expand_repl :: "string \<Rightarrow> string \<Rightarrow> string \<Rightarrow> string \<Rightarrow> string" where
  "expand_repl b n a [] = []"
| "expand_repl b n a [c] = [c]"
| "expand_repl b n a (c # d # r) =
     (if c = CHR 0x24 \<and> d = CHR 0x24 then CHR 0x24 # expand_repl b n a r
      else if c = CHR 0x24 \<and> d = CHR 0x26 then n @ expand_repl b n a r
      else if c = CHR 0x24 \<and> d = CHR 0x60 then b @ expand_repl b n a r
      else if c = CHR 0x24 \<and> d = CHR 0x27 then a @ expand_repl b n a r
      else c # expand_repl b n a (d # r))"

definition js_replace :: "string \<Rightarrow> string \<Rightarrow> string \<Rightarrow> string" where
  "js_replace s n repl =
     (case find_sub n s of None \<Rightarrow> s | Some (b, a) \<Rightarrow> b @ expand_repl b n a repl @ a)"

definition or_default :: "string option \<Rightarrow> string \<Rightarrow> string" where
  "or_default x d = (case trim_opt x of Some t \<Rightarrow> t | None \<Rightarrow> d)"

text \<open>The default template and the schema texts are files that ship with the program.\<close>

definition buildText2SqlPrompt ::
  "string \<Rightarrow> string \<Rightarrow> string \<Rightarrow> string option \<Rightarrow> string option \<Rightarrow> string" where
  "buildText2SqlPrompt defaultSchema defaultTemplate userQuery databaseSchema promptTemplate =
     js_replace
       (js_replace (or_default promptTemplate defaultTemplate) ''{{DATABASE_SCHEMA}}''
          (or_default databaseSchema defaultSchema))
       ''{{USER_QUERY}}'' (trim userQuery)"

definition MAX_PAYLOAD_CHARS :: nat where "MAX_PAYLOAD_CHARS = 24000"

text \<open>The payload as \<open>JSON.stringify(payload, null, 2)\<close> prints it; a payload of ASCII text is cut by characters.\<close>

definition truncatePayload :: "string \<Rightarrow> string" where
  "truncatePayload json =
     (if js_length json \<le> MAX_PAYLOAD_CHARS then json
      else take MAX_PAYLOAD_CHARS json @ [CHR 0x0A] @ ''/* '' @ utf8 [0xE2, 0x80, 0xA6] @
           '' truncated '' @ utf8 [0xE2, 0x80, 0xA6] @ '' */'')"

definition buildDeviceImportSqlPrompt ::
  "string \<Rightarrow> string \<Rightarrow> string \<Rightarrow> string option \<Rightarrow> string option \<Rightarrow> string" where
  "buildDeviceImportSqlPrompt template defaultSchema payloadJson deviceHint databaseSchema =
     js_replace (js_replace (js_replace template
        ''{{DEVICE_HINT}}'' (or_default deviceHint ''Unknown third-party device API export''))
        ''{{DEVICE_PAYLOAD}}'' (truncatePayload payloadJson))
        ''{{DATABASE_SCHEMA}}'' (or_default databaseSchema defaultSchema)"

definition buildPersonalWriteSqlPrompt ::
  "string \<Rightarrow> string \<Rightarrow> string \<Rightarrow> string \<Rightarrow> string option \<Rightarrow> string option \<Rightarrow> string" where
  "buildPersonalWriteSqlPrompt defaultTemplate defaultSchema writeRequest profileJson databaseSchema promptTemplate =
     js_replace (js_replace (js_replace (or_default promptTemplate defaultTemplate)
        ''{{WRITE_REQUEST}}'' (trim writeRequest))
        ''{{PROFILE_SNAPSHOT}}'' profileJson)
        ''{{DATABASE_SCHEMA}}'' (or_default databaseSchema defaultSchema)"

subsection \<open>Generation\<close>

datatype sql_source = FromLlm | FromEmpty

record text2sql_result =
  ts_sql :: string
  ts_source :: sql_source
  ts_read_only :: bool
  ts_tables :: "string list"
  ts_security_error :: "query_error option"

definition finalizeSql :: "string \<Rightarrow> text2sql_result" where
  "finalizeSql rawSql =
     (let cleaned = extractSqlFromLlmOutput rawSql in
      if cleaned = []
      then \<lparr>ts_sql = [], ts_source = FromEmpty, ts_read_only = False, ts_tables = [], ts_security_error = None\<rparr>
      else (case assertReadOnlySelectSql cleaned of
              Inr safe \<Rightarrow> \<lparr>ts_sql = safe, ts_source = (if safe \<noteq> [] then FromLlm else FromEmpty),
                 ts_read_only = True, ts_tables = extractReferencedTables safe, ts_security_error = None\<rparr>
            | Inl e \<Rightarrow> \<lparr>ts_sql = cleaned, ts_source = FromLlm, ts_read_only = False,
                 ts_tables = extractReferencedTables cleaned, ts_security_error = Some e\<rparr>))"

text \<open>\<open>llm\<close> is \<open>None\<close> where the call of the model throws; durations are not modelled.\<close>

definition generateText2Sql ::
  "(string \<Rightarrow> string option) \<Rightarrow> string \<Rightarrow> text2sql_result option" where
  "generateText2Sql llm prompt = map_option finalizeSql (llm prompt)"

datatype write_security = EmptyWriteOutput | RefusedWrite write_error

record write_result =
  wr_statements :: "string list"
  wr_sql :: string
  wr_source :: sql_source
  wr_tables :: "string list"
  wr_verified :: bool
  wr_security_error :: "write_security option"

definition finalize_write :: "string \<Rightarrow> write_result" where
  "finalize_write llmRaw =
     (let cleaned = extractInsertSqlFromLlmOutput llmRaw in
      if cleaned = []
      then \<lparr>wr_statements = [], wr_sql = [], wr_source = FromEmpty, wr_tables = [], wr_verified = False,
            wr_security_error = Some EmptyWriteOutput\<rparr>
      else let statements = splitInsertStatements cleaned;
               sql = join ('';'' @ [CHR 0x0A]) statements
           in (case assertDeviceImportStatements statements of
                 Inr tables \<Rightarrow> \<lparr>wr_statements = statements, wr_sql = sql, wr_source = FromLlm,
                    wr_tables = tables, wr_verified = True, wr_security_error = None\<rparr>
               | Inl e \<Rightarrow> \<lparr>wr_statements = statements, wr_sql = sql, wr_source = FromLlm,
                    wr_tables = extractInsertTables cleaned, wr_verified = False,
                    wr_security_error = Some (RefusedWrite e)\<rparr>))"

definition generateDeviceImportSql ::
  "(string \<Rightarrow> string option) \<Rightarrow> string \<Rightarrow> write_result option" where
  "generateDeviceImportSql llm prompt = map_option finalize_write (llm prompt)"

definition generatePersonalWriteSql ::
  "(string \<Rightarrow> string option) \<Rightarrow> string \<Rightarrow> write_result option" where
  "generatePersonalWriteSql llm prompt = map_option finalize_write (llm prompt)"

subsection \<open>What the read-only guard lets through\<close>

lemma words_acc_append:
  "\<not> is_word d \<Longrightarrow> words_acc cur (s @ d # t) = words_acc cur s @ words_acc [] t"
  by (induction s arbitrary: cur) auto

lemma has_word_append: "\<not> is_word d \<Longrightarrow> has_word k (s @ d # t) \<longleftrightarrow> has_word k s \<or> has_word k t"
  by (simp add: has_word_def words_def words_acc_append)

lemma semi_not_word: "\<not> is_word CHR '';''"
  by (simp add: is_word_def is_alpha_def is_digit_def chr_in_def)

lemma has_word_split:
  "p \<in> set (split_on CHR '';'' s) \<Longrightarrow> has_word k p \<Longrightarrow> has_word k s"
proof (induction "length s" arbitrary: s p rule: less_induct)
  case less
  show ?case
  proof (cases "CHR '';'' \<in> set s")
    case False
    with less.prems show ?thesis by (simp add: split_on_absent)
  next
    case True
    then obtain a b where s: "s = a @ CHR '';'' # b" "CHR '';'' \<notin> set a" by (metis split_list_first)
    from less.prems consider "p = a" | "p \<in> set (split_on CHR '';'' b)"
      by (auto simp: s(1) split_on_append split_on_absent [OF s(2)])
    then show ?thesis
    proof cases
      case 1
      with less.prems s show ?thesis by (simp add: has_word_append semi_not_word)
    next
      case 2
      with less.hyps [of b p] less.prems s show ?thesis by (simp add: has_word_append semi_not_word)
    qed
  qed
qed

lemma ws_not_word: "\<forall>w\<in>set ws_tokens. \<forall>c\<in>set w. \<not> is_word c"
  by (simp add: ws_tokens_def is_word_def is_alpha_def is_digit_def chr_in_def)

lemma words_acc_ws: "\<forall>c\<in>set w. \<not> is_word c \<Longrightarrow> words_acc [] (w @ s) = words_acc [] s"
  by (induction w) auto

lemma words_acc_ws_end: "\<forall>c\<in>set w. \<not> is_word c \<Longrightarrow> words_acc cur (s @ w) = words_acc cur s"
proof (induction s arbitrary: cur)
  case Nil
  then show ?case
  proof (cases w)
    case (Cons c w')
    with Nil show ?thesis using words_acc_ws [of w' "[]"] by auto
  qed simp
qed simp_all

lemma strip_words:
  "\<forall>w\<in>set toks. \<forall>c\<in>set w. \<not> is_word c \<Longrightarrow>
     \<exists>w. s = w @ strip toks s \<and> (\<forall>c\<in>set w. \<not> is_word c)"
proof (induction toks s rule: strip.induct)
  case (1 toks s)
  show ?case
  proof (cases "first_tok toks s")
    case None
    then show ?thesis by (simp add: strip_id)
  next
    case (Some w)
    then have w: "w \<in> set toks" "prefix w s" by (auto dest: first_tok_Some)
    then obtain r where r: "s = w @ r" by (auto simp: prefix_def)
    with 1 Some obtain v where "r = v @ strip toks r" "\<forall>c\<in>set v. \<not> is_word c" by auto
    with r w 1(2) have "s = (w @ v) @ strip toks r" "\<forall>c\<in>set (w @ v). \<not> is_word c" by auto
    moreover have "strip toks s = strip toks r" using Some r by (subst strip.simps) simp
    ultimately show ?thesis by metis
  qed
qed

lemma words_trim: "words (trim s) = words s"
proof -
  obtain w where w: "s = w @ trim_start s" "\<forall>c\<in>set w. \<not> is_word c"
    using strip_words [OF ws_not_word, of s] by (auto simp: trim_start_def)
  let ?t = "trim_start s"
  have "\<forall>v\<in>set (map rev ws_tokens). \<forall>c\<in>set v. \<not> is_word c" using ws_not_word by simp
  from strip_words [OF this, of "rev ?t"] obtain v where
    "rev ?t = v @ strip (map rev ws_tokens) (rev ?t)" "\<forall>c\<in>set v. \<not> is_word c" by blast
  then have v: "?t = trim_end ?t @ rev v" "\<forall>c\<in>set (rev v). \<not> is_word c"
    by (simp_all add: trim_end_def) (metis rev_append rev_rev_ident)
  have "words s = words ?t" using w words_acc_ws by (metis words_def)
  also have "\<dots> = words (trim_end ?t)" using v words_acc_ws_end by (metis words_def)
  finally show ?thesis by (simp add: trim_def)
qed

lemma has_word_trim: "has_word k (trim s) \<longleftrightarrow> has_word k s"
  by (simp add: has_word_def words_trim)

lemma trim_start_word:
  assumes "s \<noteq> []" "is_word (hd s)"
  shows "trim_start s = s"
  unfolding trim_start_def
proof (rule strip_rev_hd [OF assms(1)])
  show "\<forall>w\<in>set ws_tokens. w = [] \<or> hd w \<noteq> hd s"
    using ws_not_word assms(2) by (metis list.set_sel(1))
qed

lemma trim_end_split: "\<exists>v. s = trim_end s @ v \<and> (\<forall>c\<in>set v. \<not> is_word c)"
proof -
  have "\<forall>v\<in>set (map rev ws_tokens). \<forall>c\<in>set v. \<not> is_word c" using ws_not_word by simp
  from strip_words [OF this, of "rev s"] obtain v where
    "rev s = v @ strip (map rev ws_tokens) (rev s)" "\<forall>c\<in>set v. \<not> is_word c" by blast
  then have "s = trim_end s @ rev v" "\<forall>c\<in>set (rev v). \<not> is_word c"
    by (simp_all add: trim_end_def) (metis rev_append rev_rev_ident)
  then show ?thesis by blast
qed

lemma takeWhile_trim_end: "takeWhile is_word (trim_end s) = takeWhile is_word s"
proof -
  obtain v where "s = trim_end s @ v" "\<forall>c\<in>set v. \<not> is_word c" using trim_end_split by blast
  moreover have "takeWhile is_word (x @ v) = takeWhile is_word x" if "\<forall>c\<in>set v. \<not> is_word c" for x v
    using that by (induction x) (auto simp: takeWhile_eq_Nil_iff)
  ultimately show ?thesis by metis
qed

lemma leads_with_trim: "leads_with kw (trim s) \<longleftrightarrow> leads_with kw s"
  by (simp add: leads_with_def trim_def trim_start_trim_end takeWhile_trim_end)

lemma leads_with_first:
  assumes "leads_with kw t" "trim_start t = t" "kw \<noteq> []" "t = a @ CHR '';'' # b" 
  shows "leads_with kw a \<and> trim a \<noteq> []"
proof -
  have tw: "takeWhile is_word t = takeWhile is_word a"
    using assms(4) semi_not_word by (simp add: takeWhile_append) (metis takeWhile_eq_all_conv)
  have ne: "takeWhile is_word a \<noteq> []"
    using assms(1-3) tw by (auto simp: leads_with_def to_upper_def)
  then have "a \<noteq> []" "is_word (hd a)" by (cases a; auto split: if_splits)+
  then have "trim_start a = a" by (rule trim_start_word)
  then show ?thesis using assms(1,2) tw ne takeWhile_trim_end [of a]
    by (auto simp: leads_with_def trim_def)
qed

lemma assert_select_cases:
  "assertReadOnlySelectSql sql = Inr t \<longleftrightarrow>
     t = trim sql \<and> t \<noteq> [] \<and> leads_with ''SELECT'' t \<and> \<not> has_word FORBIDDEN_QUERY_WORDS t \<and>
     (js_includes t '';'' \<longrightarrow> length (statements_of t) = 1)"
  by (auto simp: assertReadOnlySelectSql_def Let_def)

text \<open>
  The SQL that the read-only guard accepts is one statement: the only part between
  semicolons that is not blank starts with SELECT and none of its words is a keyword that
  writes; and accepted SQL is accepted again, unchanged.
\<close>

theorem accepted_sql_is_one_select:
  assumes "assertReadOnlySelectSql sql = Inr t"
  shows "\<exists>p. statements_of t = [p] \<and> leads_with ''SELECT'' p \<and> \<not> has_word FORBIDDEN_QUERY_WORDS p \<and>
           assertReadOnlySelectSql t = Inr t"
proof -
  from assms have t: "trim t = t" "t \<noteq> []" "leads_with ''SELECT'' t" "\<not> has_word FORBIDDEN_QUERY_WORDS t"
      "js_includes t '';'' \<Longrightarrow> length (statements_of t) = 1"
    by (auto simp: assert_select_cases)
  have ts: "trim_start t = t" using t(1) trim_start_trim_end [of t] by (simp add: trim_def)
  have again: "assertReadOnlySelectSql t = Inr t" using t by (simp add: assert_select_cases)
  show ?thesis
  proof (cases "CHR '';'' \<in> set t")
    case False
    then have "statements_of t = [t]" using t by (simp add: statements_of_def split_on_absent)
    with t again show ?thesis by simp
  next
    case True
    then obtain a b where ab: "t = a @ CHR '';'' # b" "CHR '';'' \<notin> set a" by (metis split_list_first)
    have a: "leads_with ''SELECT'' a" "trim a \<noteq> []"
      using leads_with_first [OF t(3) ts _ ab(1)] by simp_all
    have "length (statements_of t) = 1" using t(5) True by (simp add: js_includes_single)
    moreover have "statements_of t = trim a # statements_of b"
      using a ab by (simp add: statements_of_def split_on_append split_on_absent)
    ultimately have st: "statements_of t = [trim a]" by simp
    have "\<not> has_word FORBIDDEN_QUERY_WORDS a"
      using t(4) by (simp add: ab(1) has_word_append semi_not_word)
    with a st again show ?thesis by (simp add: leads_with_trim has_word_trim)
  qed
qed

lemma map_result_ok:
  "map_result f xs = Inr ys \<Longrightarrow> (\<forall>x\<in>set xs. \<exists>y\<in>set ys. f x = Inr y) \<and> (\<forall>y\<in>set ys. \<exists>x\<in>set xs. f x = Inr y)"
  by (induction xs arbitrary: ys) (auto split: sum.splits)

lemma sort_set_simps: "set (sort_set xs) = set xs" "distinct (sort_set xs)" "sorted (sort_set xs)"
  by (simp_all add: sort_set_def dedupe_def)

lemma check_insert_ok:
  "check_insert s = Inr table \<Longrightarrow> leads_with ''INSERT'' s \<and> \<not> has_word FORBIDDEN_WRITE_WORDS s \<and>
     trim_opt (insert_table s) = Some table \<and> table \<in> set DEVICE_IMPORT_ALLOWED_TABLES"
  by (auto simp: check_insert_def isDeviceImportAllowedTable_def split: if_splits option.splits)

text \<open>
  C39 -- statements that the write guard accepts are all INSERTs without any other statement
  keyword, each into one of the personal and wearable tables; the tables it reports are
  exactly their targets, in order and without repetition.
\<close>

theorem accepted_writes_are_inserts:
  assumes "assertDeviceImportStatements statements = Inr tables"
  shows "(\<forall>s\<in>set statements. leads_with ''INSERT'' s \<and> \<not> has_word FORBIDDEN_WRITE_WORDS s \<and>
            (\<exists>t\<in>set tables. trim_opt (insert_table s) = Some t)) \<and>
         set tables \<subseteq> set DEVICE_IMPORT_ALLOWED_TABLES \<and> sorted tables \<and> distinct tables \<and>
         set tables = {t. \<exists>s\<in>set statements. trim_opt (insert_table s) = Some t}"
proof -
  obtain ts where ts: "map_result check_insert statements = Inr ts" "tables = sort_set ts"
    using assms by (auto simp: assertDeviceImportStatements_def split: if_splits sum.splits)
  have fwd: "\<exists>t\<in>set ts. check_insert s = Inr t" if "s \<in> set statements" for s
    using map_result_ok [OF ts(1)] that by blast
  have bwd: "\<exists>s\<in>set statements. check_insert s = Inr t" if "t \<in> set ts" for t
    using map_result_ok [OF ts(1)] that by blast
  have tabs: "set tables = set ts" "sorted tables" "distinct tables"
    by (simp_all add: ts(2) sort_set_simps)
  have target: "check_insert s = Inr t \<Longrightarrow> trim_opt (insert_table s) = Some t" for s t
    using check_insert_ok by blast
  have each: "leads_with ''INSERT'' s \<and> \<not> has_word FORBIDDEN_WRITE_WORDS s \<and>
      (\<exists>t\<in>set tables. trim_opt (insert_table s) = Some t)" if "s \<in> set statements" for s
    using fwd [OF that] check_insert_ok tabs(1) by blast
  have allowed: "set tables \<subseteq> set DEVICE_IMPORT_ALLOWED_TABLES"
    using bwd check_insert_ok tabs(1) by blast
  have "t \<in> set tables \<longleftrightarrow> (\<exists>s\<in>set statements. trim_opt (insert_table s) = Some t)" for t
  proof
    assume "t \<in> set tables"
    then show "\<exists>s\<in>set statements. trim_opt (insert_table s) = Some t"
      using bwd target tabs(1) by blast
  next
    assume "\<exists>s\<in>set statements. trim_opt (insert_table s) = Some t"
    then obtain s where s: "s \<in> set statements" "trim_opt (insert_table s) = Some t" by blast
    from fwd [OF s(1)] obtain t' where "t' \<in> set ts" "check_insert s = Inr t'" by blast
    with target [of s t'] s(2) tabs(1) show "t \<in> set tables" by simp
  qed
  with each allowed tabs(2,3) show ?thesis by blast
qed

text \<open>
  What generation marks as verified for reading passes the check of the executor
  unchanged, and an answer with SQL that is not marked carries the reason for which the
  executor would refuse it.
\<close>

theorem text2sql_verification:
  assumes "generateText2Sql llm prompt = Some r"
  shows "(if ts_read_only r then assertReadOnlySelectSql (ts_sql r) = Inr (ts_sql r)
          else if ts_sql r = [] then ts_security_error r = None \<and> ts_source r = FromEmpty
          else (\<exists>e. ts_security_error r = Some e \<and> assertReadOnlySelectSql (ts_sql r) = Inl e))"
proof -
  obtain raw where "r = finalizeSql raw" using assms by (auto simp: generateText2Sql_def)
  then show ?thesis
    by (cases "extractSqlFromLlmOutput raw = []"; cases "assertReadOnlySelectSql (extractSqlFromLlmOutput raw)")
       (auto simp: finalizeSql_def Let_def assert_select_cases)
qed

subsection \<open>Concrete answers\<close>

lemma accepted_sql_is_one_select_witness:
  "statements_of ''select name from users;'' = [''select name from users'']"
proof -
  have "assertReadOnlySelectSql ''  select name from users; '' = Inr ''select name from users;''"
    by code_simp
  from accepted_sql_is_one_select [OF this] obtain p where
    "statements_of ''select name from users;'' = [p]" by blast
  moreover have "statements_of ''select name from users;'' = [''select name from users'']" by code_simp
  ultimately show ?thesis by simp
qed

definition demo_inserts :: "string list" where
  "demo_inserts = [''INSERT OR IGNORE INTO device_registry (device_id) VALUES (1)'',
     ''insert into daily_vitals (heart_rate) values (60)'']"

lemma accepted_writes_are_inserts_witness:
  "list_all (\<lambda>s. leads_with ''INSERT'' s \<and> \<not> has_word FORBIDDEN_WRITE_WORDS s) demo_inserts"
proof -
  have "assertDeviceImportStatements demo_inserts = Inr [''daily_vitals'', ''device_registry'']"
    by code_simp
  from accepted_writes_are_inserts [OF this] show ?thesis unfolding list_all_iff by blast
qed

lemma insert_or_replace_refused:
  "assertDeviceImportStatements [''INSERT OR REPLACE INTO daily_vitals (heart_rate) VALUES (60)''] =
     Inl ForbiddenWriteKeyword"
  by code_simp

lemma text2sql_verification_witness:
  "assertReadOnlySelectSql ''DROP TABLE users'' = Inl NotSelect"
proof -
  have "generateText2Sql (\<lambda>_. Some ''DROP TABLE users'') ''p'' =
      Some \<lparr>ts_sql = ''DROP TABLE users'', ts_source = FromLlm, ts_read_only = False,
        ts_tables = [], ts_security_error = Some NotSelect\<rparr>"
    by code_simp
  from text2sql_verification [OF this] show ?thesis by simp
qed

end
