(* ===== verification/Rules.thy ===== *)
theory Rules
  imports Sql_Guard
begin

text \<open>
  The rule engines (\<open>runtime/rules\<close>): the flat rules of the payment table against the
  check snapshot, the AND/OR trees of an imported compliance standard against the context
  built from the personal rows, and the choice of the drug.  Rows come from the database as
  JSON values; \<open>parse_ast\<close> is \<open>JSON.parse\<close> of a stored tree, \<open>None\<close> where it throws.
\<close>

datatype verdict = PASS | FAIL

record rule_entry =
  re_rule_id :: string
  re_name :: string
  re_status :: verdict
  re_value :: jval
  re_threshold :: string
  re_category :: string
  re_target_key :: string

record rule_matrix =
  rm_ruleset :: string
  rm_drug_id :: string
  rm_entries :: "rule_entry list"
  rm_overall :: verdict

record rule_result =
  rr_matrix :: rule_matrix
  rr_snapshot :: "jval obj"
  rr_ruleset :: string

record payment_rule =
  pr_rule_id :: string
  pr_drug_id :: string
  pr_category :: string
  pr_target_key :: string
  pr_operator :: string
  pr_value :: string
  pr_alert :: string

definition DEFAULT_FLAT_DRUG_ID :: string where "DEFAULT_FLAT_DRUG_ID = ''GLP1_SEMA''"
definition DEFAULT_AST_DRUG_ID :: string where "DEFAULT_AST_DRUG_ID = ''29''"
definition DEFAULT_RULESET_ID :: string where "DEFAULT_RULESET_ID = ''glp1_indications_rules_v1''"

definition num_cmp :: "string \<Rightarrow> rat \<Rightarrow> rat \<Rightarrow> bool option" where
  "num_cmp op a b =
     (if op = ''>='' then Some (b \<le> a) else if op = ''<='' then Some (a \<le> b)
      else if op = ''>'' then Some (b < a) else if op = ''<'' then Some (a < b) else None)"

subsection \<open>Flat rules\<close>

definition finite_num :: "num64 \<Rightarrow> rat option" where
  "finite_num n = (case n of Fin q \<Rightarrow> Some q | _ \<Rightarrow> None)"

definition parseNumeric :: "jval \<Rightarrow> rat option" where
  "parseNumeric value =
     (if nullish value then None
      else (case value of
              JNum (Fin q) \<Rightarrow> Some q
            | _ \<Rightarrow> finite_num (string_to_number (trim (js_to_string value)))))"

definition formatThreshold :: "payment_rule \<Rightarrow> string" where
  "formatThreshold r = pr_operator r @ pr_value r"

definition verdict_of :: "bool \<Rightarrow> verdict" where
  "verdict_of b = (if b then PASS else FAIL)"

definition compareRule :: "payment_rule \<Rightarrow> jval \<Rightarrow> verdict \<times> jval" where
  "compareRule r snapshotValue =
     (let actual = (if nullish snapshotValue then JNull else snapshotValue);
          operator = trim (pr_operator r);
          expectedRaw = trim (pr_value r)
      in if operator = ''NOT_IN'' then
           (let blocked = filter (\<lambda>p. p \<noteq> []) (map trim (split_on CHR '','' expectedRaw));
                actualText = (if actual = JNull then [] else js_to_string actual)
            in (verdict_of (actualText \<notin> set blocked),
                if actualText = [] then JNull else JStr actualText))
         else
           (case (parseNumeric (JStr expectedRaw), parseNumeric actual) of
              (Some e, Some a) \<Rightarrow>
                (verdict_of (if operator = ''=='' then a = e
                             else (case num_cmp operator a e of Some b \<Rightarrow> b | None \<Rightarrow> False)),
                 JNum (Fin a))
            | (_, Some a) \<Rightarrow> (FAIL, JNum (Fin a))
            | (_, None) \<Rightarrow> (FAIL, if actual = JNull then JNull else JStr (js_to_string actual))))"

definition snapshotValueForKey :: "jval obj \<Rightarrow> string \<Rightarrow> jval" where
  "snapshotValueForKey snapshot key = (case obj_get snapshot key of Some v \<Rightarrow> v | None \<Rightarrow> JNull)"

definition overall_of :: "rule_entry list \<Rightarrow> verdict" where
  "overall_of es = verdict_of (list_all (\<lambda>e. re_status e = PASS) es)"

definition flat_entry :: "jval obj \<Rightarrow> payment_rule \<Rightarrow> rule_entry" where
  "flat_entry snapshot r =
     (case compareRule r (snapshotValueForKey snapshot (pr_target_key r)) of (s, v) \<Rightarrow>
       \<lparr>re_rule_id = pr_rule_id r, re_name = pr_alert r, re_status = s, re_value = v,
        re_threshold = formatThreshold r, re_category = pr_category r,
        re_target_key = pr_target_key r\<rparr>)"

definition evaluateGlp1Rules ::
  "jval obj option \<Rightarrow> payment_rule list \<Rightarrow> string option \<Rightarrow> string option \<Rightarrow> rule_result" where
  "evaluateGlp1Rules snapshot rules drugIdOpt rulesetOpt =
     (let drugId = (case drugIdOpt of Some d \<Rightarrow> d | None \<Rightarrow> DEFAULT_FLAT_DRUG_ID);
          rulesetId = (case rulesetOpt of Some r \<Rightarrow> r | None \<Rightarrow> DEFAULT_RULESET_ID);
          snapshotRecord = (case snapshot of Some s \<Rightarrow> s | None \<Rightarrow> []);
          entries = map (flat_entry snapshotRecord) (filter (\<lambda>r. pr_drug_id r = drugId) rules)
      in \<lparr>rr_matrix = \<lparr>rm_ruleset = rulesetId, rm_drug_id = drugId, rm_entries = entries,
                       rm_overall = overall_of entries\<rparr>,
          rr_snapshot = snapshotRecord, rr_ruleset = rulesetId\<rparr>)"

subsection \<open>Compliance trees\<close>

datatype ast_node = Leaf string string jval | Branch string "ast_node list"

text \<open>\<open>field.replace(/\['([^']+)'\]/g, ".$1")\<close>, with fuel for the length of the text.\<close>

fun unquote_keys :: "nat \<Rightarrow> string \<Rightarrow> string" where
  "unquote_keys 0 s = s"
| "unquote_keys (Suc n) [] = []"
| "unquote_keys (Suc n) (c # s) =
     (let inner = takeWhile (\<lambda>d. d \<noteq> CHR 0x27) (drop 1 s);
          rest = dropWhile (\<lambda>d. d \<noteq> CHR 0x27) (drop 1 s)
      in if c = CHR ''['' \<and> s \<noteq> [] \<and> hd s = CHR 0x27 \<and> inner \<noteq> [] \<and>
            starts_with rest [CHR 0x27, CHR '']'']
         then CHR ''.'' # inner @ unquote_keys n (drop 2 rest)
         else c # unquote_keys n s)"

text \<open>\<open>replace(/\[(\d+)\]/g, ".$1")\<close>\<close>

fun unbracket_nums :: "nat \<Rightarrow> string \<Rightarrow> string" where
  "unbracket_nums 0 s = s"
| "unbracket_nums (Suc n) [] = []"
| "unbracket_nums (Suc n) (c # s) =
     (let ds = takeWhile is_digit s; rest = dropWhile is_digit s
      in if c = CHR ''['' \<and> ds \<noteq> [] \<and> rest \<noteq> [] \<and> hd rest = CHR '']''
         then CHR ''.'' # ds @ unbracket_nums n (tl rest)
         else c # unbracket_nums n s)"

definition parseFieldPath :: "string \<Rightarrow> string list" where
  "parseFieldPath field =
     (let a = unquote_keys (length field) field; b = unbracket_nums (length a) a
      in filter (\<lambda>p. p \<noteq> []) (split_on CHR ''.'' b))"

fun readNested :: "jval \<Rightarrow> string list \<Rightarrow> jval" where
  "readNested v [] = v"
| "readNested v (seg # path) =
     (case v of JObj m \<Rightarrow> readNested (own_prop (JObj m) seg) path | _ \<Rightarrow> JUndef)"

definition resolveComplianceFieldValue :: "jval \<Rightarrow> string \<Rightarrow> jval" where
  "resolveComplianceFieldValue context field = readNested context (parseFieldPath field)"

definition compareLeaf :: "jval \<Rightarrow> string \<Rightarrow> jval \<Rightarrow> bool" where
  "compareLeaf actual operator expected =
     (let op = to_upper (trim operator) in
      if op = ''EQUALS'' \<or> op = ''=='' then
        strict_eq actual expected \<or> js_to_string actual = js_to_string expected
      else (case (js_to_number actual, js_to_number expected) of
              (Fin a, Fin e) \<Rightarrow> (case num_cmp op a e of Some b \<Rightarrow> b | None \<Rightarrow> False)
            | _ \<Rightarrow> False))"

fun evaluateComplianceAstNode :: "jval \<Rightarrow> ast_node \<Rightarrow> bool" where
  "evaluateComplianceAstNode context (Leaf field operator value) =
     compareLeaf (resolveComplianceFieldValue context field) operator value"
| "evaluateComplianceAstNode context (Branch operator children) =
     (let results = map (evaluateComplianceAstNode context) children
      in if operator = ''AND'' then list_all (\<lambda>b. b) results else list_ex (\<lambda>b. b) results)"

definition formatAstThreshold :: "ast_node \<Rightarrow> string" where
  "formatAstThreshold node = (case node of
     Leaf f op v \<Rightarrow> f @ '' '' @ op @ '' '' @ js_to_string v | Branch op _ \<Rightarrow> op)"

fun flattenAstLeaves :: "ast_node \<Rightarrow> (string \<times> string \<times> jval) list" where
  "flattenAstLeaves (Leaf f op v) = [(f, op, v)]"
| "flattenAstLeaves (Branch op children) = concat (map flattenAstLeaves children)"

record ast_rule =
  ar_rule_id :: string
  ar_standard_id :: string
  ar_drug_id :: string
  ar_drug_name :: string
  ar_root_json :: string

definition scalar_or_null :: "jval \<Rightarrow> jval" where
  "scalar_or_null v = (case v of JNum n \<Rightarrow> JNum n | JStr s \<Rightarrow> JStr s | _ \<Rightarrow> JNull)"

definition ast_entry :: "jval \<Rightarrow> ast_rule \<Rightarrow> ast_node \<Rightarrow> rule_entry" where
  "ast_entry context r node =
     (let leaves = flattenAstLeaves node;
          actual = (case leaves of (f, _) # _ \<Rightarrow> resolveComplianceFieldValue context f | [] \<Rightarrow> JNull)
      in \<lparr>re_rule_id = ar_rule_id r, re_name = ar_drug_name r,
          re_status = verdict_of (evaluateComplianceAstNode context node),
          re_value = scalar_or_null actual, re_threshold = formatAstThreshold node,
          re_category = ''COMPLIANCE_AST'',
          re_target_key = (case leaves of (f, _) # _ \<Rightarrow> f | [] \<Rightarrow> ar_rule_id r)\<rparr>)"

fun ast_entries :: "(string \<Rightarrow> ast_node option) \<Rightarrow> jval \<Rightarrow> ast_rule list \<Rightarrow> rule_entry list option" where
  "ast_entries parse_ast context [] = Some []"
| "ast_entries parse_ast context (r # rs) =
     (case parse_ast (ar_root_json r) of
        None \<Rightarrow> None
      | Some node \<Rightarrow> map_option (\<lambda>es. ast_entry context r node # es) (ast_entries parse_ast context rs))"

definition evaluateComplianceAstRules ::
  "(string \<Rightarrow> ast_node option) \<Rightarrow> ast_rule list \<Rightarrow> jval obj \<Rightarrow> string \<Rightarrow> string \<Rightarrow> jval obj option \<Rightarrow>
     rule_result option" where
  "evaluateComplianceAstRules parse_ast rules context standardId drugId snapshot =
     map_option (\<lambda>entries.
       \<lparr>rr_matrix = \<lparr>rm_ruleset = standardId, rm_drug_id = drugId, rm_entries = entries,
                    rm_overall = overall_of entries\<rparr>,
        rr_snapshot = (case snapshot of Some s \<Rightarrow> s | None \<Rightarrow> context), rr_ruleset = standardId\<rparr>)
     (ast_entries parse_ast (JObj context) rules)"

subsection \<open>The drug of a question\<close>

definition glp1_name_1 :: string where
  "glp1_name_1 = utf8 [0xE8, 0x81, 0x9A, 0xE4, 0xB9, 0x99, 0xE4, 0xBA, 0x8C, 0xE9, 0x86, 0x87,
     0xE6, 0xB4, 0x9B, 0xE5, 0xA1, 0x9E, 0xE9, 0x82, 0xA3, 0xE8, 0x82, 0xBD]"

definition glp1_name_2 :: string where
  "glp1_name_2 = utf8 [0xE6, 0xB4, 0x9B, 0xE5, 0xA1, 0x9E, 0xE9, 0x82, 0xA3, 0xE8, 0x82, 0xBD]"

definition glp1_name_3 :: string where
  "glp1_name_3 = utf8 [0xE4, 0xBE, 0x9D, 0xE8, 0x8B, 0x8F, 0xE5, 0xB8, 0x95, 0xE6, 0xA0, 0xBC,
     0xE9, 0xB2, 0x81, 0xE8, 0x82, 0xBD]"

definition glp1_name_4 :: string where
  "glp1_name_4 = utf8 [0xE5, 0xBA, 0xA6, 0xE6, 0x8B, 0x89, 0xE7, 0xB3, 0x96, 0xE8, 0x82, 0xBD]"

definition glp1_name_5 :: string where
  "glp1_name_5 = utf8 [0xE5, 0x8F, 0xB8, 0xE7, 0xBE, 0x8E, 0xE6, 0xA0, 0xBC, 0xE9, 0xB2, 0x81,
     0xE8, 0x82, 0xBD]"

definition GLP1_DRUG_KEYWORDS :: "(string \<times> string list) list" where
  "GLP1_DRUG_KEYWORDS =
     [(''28'', [glp1_name_1, glp1_name_2, ''loxenatide'']),
      (''30'', [glp1_name_3, ''efsitora'']),
      (''27'', [glp1_name_4, ''dulaglutide'']),
      (''29'', [glp1_name_5, ''semaglutide''])]"

fun best_keyword :: "string \<Rightarrow> (string \<times> string) list \<Rightarrow> (string \<times> nat) option \<Rightarrow> (string \<times> nat) option" where
  "best_keyword normalized [] best = best"
| "best_keyword normalized ((d, keyword) # ks) best =
     (let needle = to_lower keyword in
      if \<not> js_includes normalized needle then best_keyword normalized ks best
      else (case best of
              None \<Rightarrow> best_keyword normalized ks (Some (d, js_length needle))
            | Some (d', n) \<Rightarrow>
                if n < js_length needle then best_keyword normalized ks (Some (d, js_length needle))
                else best_keyword normalized ks best))"

definition drug_keywords :: "(string \<times> string) list" where
  "drug_keywords = concat (map (\<lambda>(d, ks). map (\<lambda>k. (d, k)) ks) GLP1_DRUG_KEYWORDS)"

definition detectGlp1DrugIdFromQuery :: "string \<Rightarrow> string option" where
  "detectGlp1DrugIdFromQuery userQuery =
     (let normalized = to_lower (trim userQuery) in
      if normalized = [] then None else map_option fst (best_keyword normalized drug_keywords None))"

definition resolveGlp1EvalDrugId :: "string \<Rightarrow> bool \<Rightarrow> string" where
  "resolveGlp1EvalDrugId userQuery hasActiveComplianceStandard =
     (let detected = detectGlp1DrugIdFromQuery userQuery in
      if hasActiveComplianceStandard
      then (case detected of Some d \<Rightarrow> d | None \<Rightarrow> DEFAULT_AST_DRUG_ID)
      else DEFAULT_FLAT_DRUG_ID)"

subsection \<open>A PASS needs the evidence\<close>

definition relation_holds :: "string \<Rightarrow> rat \<Rightarrow> rat \<Rightarrow> bool" where
  "relation_holds op a e \<longleftrightarrow>
     op = ''=='' \<and> a = e \<or> op = ''>='' \<and> e \<le> a \<or> op = ''<='' \<and> a \<le> e \<or>
     op = ''>'' \<and> e < a \<or> op = ''<'' \<and> a < e"

lemma verdict_of_PASS [simp]: "verdict_of b = PASS \<longleftrightarrow> b"
  by (simp add: verdict_of_def)

lemma parseNumeric_null: "parseNumeric JNull = None"
  by (simp add: parseNumeric_def nullish_def)

lemma compare_numeric_pass:
  assumes "fst (compareRule r v) = PASS" and "trim (pr_operator r) \<noteq> ''NOT_IN''"
  shows "\<not> nullish v \<and> (\<exists>a e. parseNumeric v = Some a \<and> parseNumeric (JStr (trim (pr_value r))) = Some e \<and>
           relation_holds (trim (pr_operator r)) a e)"
proof (cases "nullish v")
  case True
  with assms show ?thesis
    by (auto simp: compareRule_def Let_def parseNumeric_null split: option.splits)
next
  case False
  with assms show ?thesis
    by (cases "trim (pr_operator r) = ''==''")
       (auto simp: compareRule_def Let_def num_cmp_def relation_holds_def split: option.splits if_splits)
qed

text \<open>
  The flat engine fails closed: when it answers PASS, every applicable rule with a
  numeric operator found a value in the snapshot that is a number and stands in the stated
  relation to the threshold; a missing value or an unknown operator cannot pass.
\<close>

theorem flat_pass_has_evidence:
  assumes "rm_overall (rr_matrix (evaluateGlp1Rules snapshot rules drug ruleset)) = PASS"
    and "r \<in> set rules" and "pr_drug_id r = (case drug of Some d \<Rightarrow> d | None \<Rightarrow> DEFAULT_FLAT_DRUG_ID)"
    and "trim (pr_operator r) \<noteq> ''NOT_IN''"
  shows "\<exists>s v a e. snapshot = Some s \<and> obj_get s (pr_target_key r) = Some v \<and> parseNumeric v = Some a \<and>
           parseNumeric (JStr (trim (pr_value r))) = Some e \<and> relation_holds (trim (pr_operator r)) a e"
proof -
  let ?s = "case snapshot of Some s \<Rightarrow> s | None \<Rightarrow> []"
  let ?v = "snapshotValueForKey ?s (pr_target_key r)"
  have "re_status (flat_entry ?s r) = PASS"
    using assms(1-3) by (auto simp: evaluateGlp1Rules_def Let_def overall_of_def list_all_iff)
  then have "fst (compareRule r ?v) = PASS"
    by (simp add: flat_entry_def split: prod.splits)
  from compare_numeric_pass [OF this assms(4)] obtain a e where
    v: "\<not> nullish ?v" "parseNumeric ?v = Some a" "parseNumeric (JStr (trim (pr_value r))) = Some e"
      "relation_holds (trim (pr_operator r)) a e" by blast
  from v(1) have "obj_get ?s (pr_target_key r) = Some ?v"
    by (auto simp: snapshotValueForKey_def nullish_def split: option.splits)
  moreover from this have "snapshot \<noteq> None" by (cases snapshot) (auto simp: obj_get_def)
  ultimately show ?thesis using v by auto
qed

subsection \<open>Keys with a dot\<close>

text \<open>A context without the object keys that contain a dot.\<close>

fun drop_dotted :: "jval \<Rightarrow> jval" where
  "drop_dotted (JObj m) =
     JObj (map (\<lambda>(k, v). (k, drop_dotted v)) (filter (\<lambda>(k, _). CHR ''.'' \<notin> set k) m))"
| "drop_dotted v = v"

lemma own_prop_drop_dotted:
  "CHR ''.'' \<notin> set k \<Longrightarrow> own_prop (drop_dotted (JObj m)) k = drop_dotted (own_prop (JObj m) k)"
  by (induction m) (auto simp: own_prop_def split: option.splits)

lemma drop_dotted_cases: "(\<exists>m. v = JObj m) \<or> drop_dotted v = v"
  by (cases v) simp_all

lemma readNested_drop_dotted:
  "\<forall>seg\<in>set path. CHR ''.'' \<notin> set seg \<Longrightarrow>
     readNested (drop_dotted v) path = drop_dotted (readNested v path)"
proof (induction path arbitrary: v)
  case Nil
  then show ?case by simp
next
  case (Cons seg path)
  show ?case
  proof (cases "\<exists>m. v = JObj m")
    case True
    then obtain m where m: "v = JObj m" by blast
    have "own_prop (drop_dotted (JObj m)) seg = drop_dotted (own_prop (JObj m) seg)"
      using Cons.prems by (intro own_prop_drop_dotted) simp
    moreover have "readNested (drop_dotted (JObj m)) (seg # path) =
        readNested (own_prop (drop_dotted (JObj m)) seg) path" by simp
    moreover have "readNested (drop_dotted (own_prop (JObj m) seg)) path =
        drop_dotted (readNested (own_prop (JObj m) seg) path)"
      using Cons.prems by (intro Cons.IH) simp
    ultimately show ?thesis by (simp only: m readNested.simps(2) jval.case)
  next
    case False
    then show ?thesis using drop_dotted_cases [of v] by (cases v) auto
  qed
qed

lemma parseFieldPath_no_dot: "seg \<in> set (parseFieldPath f) \<Longrightarrow> CHR ''.'' \<notin> set seg"
  by (auto simp: parseFieldPath_def Let_def dest: split_on_no_delim)

lemma compareLeaf_drop_dotted: "compareLeaf (drop_dotted v) op e = compareLeaf v op e"
  by (cases v) (simp_all add: compareLeaf_def Let_def js_to_number_def)

text \<open>
  The verdict of a compliance tree never depends on an object key that contains a
  dot: a diagnosis with a subcategory code such as E11.9 is invisible to every rule, even to
  one that names the code in brackets and quotes, because the path is split at the dot.
\<close>

theorem dotted_codes_invisible:
  "evaluateComplianceAstNode (drop_dotted context) node = evaluateComplianceAstNode context node"
proof (induction node)
  case (Leaf f op v)
  have "readNested (drop_dotted context) (parseFieldPath f) = drop_dotted (readNested context (parseFieldPath f))"
    using parseFieldPath_no_dot by (intro readNested_drop_dotted) blast
  then show ?case by (simp add: resolveComplianceFieldValue_def compareLeaf_drop_dotted)
next
  case (Branch op children)
  then have "map (evaluateComplianceAstNode (drop_dotted context)) children =
      map (evaluateComplianceAstNode context) children" by simp
  then show ?case by (simp only: evaluateComplianceAstNode.simps)
qed

subsection \<open>The longest keyword\<close>

definition mentions :: "string \<Rightarrow> string \<times> string \<Rightarrow> bool" where
  "mentions normalized dk \<longleftrightarrow> js_includes normalized (to_lower (snd dk))"

definition kw_len :: "string \<times> string \<Rightarrow> nat" where
  "kw_len dk = js_length (to_lower (snd dk))"

definition best_spec :: "string \<Rightarrow> (string \<times> string) set \<Rightarrow> (string \<times> nat) option \<Rightarrow> bool" where
  "best_spec s S best \<longleftrightarrow>
     (case best of
        None \<Rightarrow> \<forall>x\<in>S. \<not> mentions s x
      | Some (d, n) \<Rightarrow> (\<exists>x\<in>S. mentions s x \<and> fst x = d \<and> kw_len x = n) \<and>
                       (\<forall>x\<in>S. mentions s x \<longrightarrow> kw_len x \<le> n))"

lemma best_spec_skip: "best_spec s S best \<Longrightarrow> \<not> mentions s x \<Longrightarrow> best_spec s (insert x S) best"
  by (auto simp: best_spec_def split: option.splits)

lemma best_spec_first: "best_spec s S None \<Longrightarrow> mentions s x \<Longrightarrow> best_spec s (insert x S) (Some (fst x, kw_len x))"
  by (auto simp: best_spec_def)

lemma best_spec_better:
  "best_spec s S (Some (d, n)) \<Longrightarrow> mentions s x \<Longrightarrow> n < kw_len x \<Longrightarrow>
     best_spec s (insert x S) (Some (fst x, kw_len x))"
  by (auto simp: best_spec_def)

lemma best_spec_worse:
  "best_spec s S (Some (d, n)) \<Longrightarrow> kw_len x \<le> n \<Longrightarrow> best_spec s (insert x S) (Some (d, n))"
  by (auto simp: best_spec_def)

lemma best_keyword_spec:
  "best_spec s S best \<Longrightarrow> best_spec s (S \<union> set ks) (best_keyword s ks best)"
proof (induction ks arbitrary: best S)
  case Nil
  then show ?case by simp
next
  case (Cons x ks)
  obtain d k where x: "x = (d, k)" by force
  consider (skip) "\<not> mentions s x" | (first) "mentions s x" "best = None"
    | (better) d' n where "mentions s x" "best = Some (d', n)" "n < kw_len x"
    | (worse) d' n where "mentions s x" "best = Some (d', n)" "kw_len x \<le> n"
    by (metis linorder_not_le option.exhaust prod.exhaust)
  then obtain best' where "best_spec s (insert x S) best'"
      "best_keyword s (x # ks) best = best_keyword s ks best'"
  proof cases
    case skip
    show ?thesis
      by (rule that [OF best_spec_skip [OF Cons.prems skip]])
         (use skip in \<open>simp add: x mentions_def\<close>)
  next
    case first
    show ?thesis
      by (rule that [OF best_spec_first [OF Cons.prems [unfolded first(2)] first(1)]])
         (use first in \<open>simp add: x mentions_def kw_len_def Let_def\<close>)
  next
    case better
    show ?thesis
      by (rule that [OF best_spec_better [OF Cons.prems [unfolded better(2)] better(1,3)]])
         (use better in \<open>simp add: x mentions_def kw_len_def Let_def\<close>)
  next
    case worse
    show ?thesis
      by (rule that [OF best_spec_worse [OF Cons.prems [unfolded worse(2)] worse(3)]])
         (use worse in \<open>simp add: x mentions_def kw_len_def Let_def\<close>)
  qed
  with Cons.IH [of "insert x S" best'] show ?case by simp
qed

text \<open>
  A question is about the drug of the longest keyword that it contains, and about no
  drug exactly when it contains none of the keywords.
\<close>

theorem detects_longest_keyword:
  "case detectGlp1DrugIdFromQuery q of
     None \<Rightarrow> to_lower (trim q) = [] \<or> (\<forall>x\<in>set drug_keywords. \<not> mentions (to_lower (trim q)) x)
   | Some d \<Rightarrow> \<exists>x\<in>set drug_keywords. mentions (to_lower (trim q)) x \<and> fst x = d \<and>
       (\<forall>y\<in>set drug_keywords. mentions (to_lower (trim q)) y \<longrightarrow> kw_len y \<le> kw_len x)"
proof -
  have "best_spec (to_lower (trim q)) (set drug_keywords)
      (best_keyword (to_lower (trim q)) drug_keywords None)"
    using best_keyword_spec [of "to_lower (trim q)" "{}" None drug_keywords]
    by (simp add: best_spec_def)
  then show ?thesis
    by (cases "best_keyword (to_lower (trim q)) drug_keywords None")
       (auto simp: detectGlp1DrugIdFromQuery_def Let_def best_spec_def)
qed

lemma detects_longest_keyword_witness:
  "\<exists>x\<in>set drug_keywords. mentions (to_lower (trim ''Semaglutide?'')) x \<and> fst x = ''29''"
proof -
  have "detectGlp1DrugIdFromQuery ''Semaglutide?'' = Some ''29''" by code_simp
  with detects_longest_keyword [of "''Semaglutide?''"] show ?thesis by auto
qed

lemma flat_pass_has_evidence_witness:
  "\<exists>s v a e. Some [(''bmi'', JInt 30)] = Some s \<and> obj_get s ''bmi'' = Some v \<and>
     parseNumeric v = Some a \<and> parseNumeric (JStr (trim ''28'')) = Some e \<and>
     relation_holds (trim '' >= '') a e"
proof -
  let ?r = "\<lparr>pr_rule_id = ''r'', pr_drug_id = ''GLP1_SEMA'', pr_category = ''c'', pr_target_key = ''bmi'',
    pr_operator = '' >= '', pr_value = ''28'', pr_alert = ''a''\<rparr>"
  have "rm_overall (rr_matrix (evaluateGlp1Rules (Some [(''bmi'', JInt 30)]) [?r] None None)) = PASS"
    by code_simp
  moreover have "trim (pr_operator ?r) \<noteq> ''NOT_IN''" by code_simp
  ultimately show ?thesis
    using flat_pass_has_evidence [of "Some [(''bmi'', JInt 30)]" "[?r]" None None ?r]
    by (simp add: DEFAULT_FLAT_DRUG_ID_def)
qed

end
