(* ===== verification/Domain_Agents.thy ===== *)
theory Domain_Agents
  imports Rules "HOL-Library.Multiset"
begin

text \<open>
  The registry of domain agents (\<open>tra/domain-agents.ts\<close>, \<open>tra/domain-agents-import.ts\<close>,
  \<open>tra/legacy-state-migration.ts\<close> and the seeding in \<open>tra/db.ts\<close>): the two tables, the
  rename of their old columns, the import of SQL packages and the list shown to a client.
  \<open>exec\<close> stands for SQLite running a script; an operation returns its error or result
  together with the tables it leaves.
\<close>

subsection \<open>Results of database operations\<close>

datatype db_error =
    NoSuchColumn string
  | NestedTransaction
  | NotNullViolation string
  | UniqueViolation string
  | SqlFailure string
  | EmptyRegistrySql
  | TraNotInitialized
  | InvalidRuleJson
  | QueryRefused query_error
  | WriteRefused write_error

type_synonym ('s, 'a) db_op = "'s \<Rightarrow> (db_error + 'a) \<times> 's"

definition bind_op :: "('s, 'a) db_op \<Rightarrow> ('a \<Rightarrow> ('s, 'b) db_op) \<Rightarrow> ('s, 'b) db_op" where
  "bind_op f g s = (case f s of (Inl e, s') \<Rightarrow> (Inl e, s') | (Inr x, s') \<Rightarrow> g x s')"

definition return_op :: "'a \<Rightarrow> ('s, 'a) db_op" where
  "return_op x s = (Inr x, s)"

definition fail_op :: "db_error \<Rightarrow> ('s, 'a) db_op" where
  "fail_op e s = (Inl e, s)"

definition update_op :: "('s \<Rightarrow> 's) \<Rightarrow> ('s, unit) db_op" where
  "update_op f s = (Inr (), f s)"

definition runTraImmediateTransactionSync :: "('s, 'a) db_op \<Rightarrow> ('s, 'a) db_op" where
  "runTraImmediateTransactionSync f s =
     (case f s of (Inl e, _) \<Rightarrow> (Inl e, s) | (Inr x, s') \<Rightarrow> (Inr x, s'))"

text \<open>
  The contract of an operation run in a transaction: what fails leaves no trace.  A client
  that sends a list of requests ends in the state of the requests that succeeded alone.
\<close>

locale atomic_op =
  fixes run :: "'r \<Rightarrow> 's \<Rightarrow> 'o \<times> 's"
    and ok :: "'o \<Rightarrow> bool"
  assumes failure_keeps: "run r s = (out, s') \<Longrightarrow> \<not> ok out \<Longrightarrow> s' = s"
begin

definition after :: "'r list \<Rightarrow> 's \<Rightarrow> 's" where
  "after rs s = fold (\<lambda>r s. snd (run r s)) rs s"

fun committed :: "'r list \<Rightarrow> 's \<Rightarrow> 'r list" where
  "committed [] s = []"
| "committed (r # rs) s =
     (if ok (fst (run r s)) then r # committed rs (snd (run r s)) else committed rs s)"

lemma failed_step: "\<not> ok (fst (run r s)) \<Longrightarrow> snd (run r s) = s"
  using failure_keeps [of r s "fst (run r s)" "snd (run r s)"] by simp

lemma after_committed: "after (committed rs s) s = after rs s"
  by (induction rs arbitrary: s) (auto simp: after_def failed_step)

lemma all_failed_keeps: "committed rs s = [] \<Longrightarrow> after rs s = s"
  using after_committed [of rs s] by (simp add: after_def)

lemma invariant_kept:
  assumes "\<And>r s. I s \<Longrightarrow> ok (fst (run r s)) \<Longrightarrow> I (snd (run r s))" and "I s"
  shows "I (after rs s)"
  using assms(2)
proof (induction rs arbitrary: s)
  case Nil
  then show ?case by (simp add: after_def)
next
  case (Cons r rs)
  have "I (snd (run r s))"
    using Cons.prems assms(1) [of s r] failed_step [of r s] by (cases "ok (fst (run r s))") auto
  then show ?case using Cons.IH [of "snd (run r s)"] by (simp add: after_def)
qed

end

interpretation tx: atomic_op runTraImmediateTransactionSync "\<lambda>r. \<not> isl r"
  by unfold_locales (auto simp: runTraImmediateTransactionSync_def split: prod.splits sum.splits)

lemma bind_op_Inr:
  "bind_op f g s = (Inr y, t) \<longleftrightarrow> (\<exists>x s'. f s = (Inr x, s') \<and> g x s' = (Inr y, t))"
  by (auto simp: bind_op_def split: prod.splits sum.splits)

lemma run_tx_Inr [simp]: "runTraImmediateTransactionSync f s = (Inr x, t) \<longleftrightarrow> f s = (Inr x, t)"
  by (auto simp: runTraImmediateTransactionSync_def split: prod.splits sum.splits)

lemma run_tx_Inl: "runTraImmediateTransactionSync f s = (Inl e, t) \<Longrightarrow> t = s"
  using tx.failure_keeps by fastforce

subsection \<open>Tables\<close>

type_synonym sql_row = "jval obj"

record sql_table =
  tb_columns :: "string list"
  tb_rows :: "sql_row list"

record domain_tables =
  dm_agents :: "sql_table option"
  dm_packs :: "sql_table option"

definition no_tables :: domain_tables where
  "no_tables = \<lparr>dm_agents = None, dm_packs = None\<rparr>"

definition cell :: "sql_row \<Rightarrow> string \<Rightarrow> jval" where
  "cell r c = (case obj_get r c of Some v \<Rightarrow> v | None \<Rightarrow> JNull)"

text \<open>SQL \<open>REPLACE(x, a, b)\<close>, which is NULL on NULL, and \<open>x LIKE '%n%'\<close>, \<open>x LIKE 'n%'\<close>.\<close>

function replace_all :: "string \<Rightarrow> string \<Rightarrow> string \<Rightarrow> string" where
  "replace_all a b s =
     (if a = [] then s
      else case s of [] \<Rightarrow> []
      | c # s' \<Rightarrow> if starts_with s a then b @ replace_all a b (drop (length a) s)
                 else c # replace_all a b s')"
  by pat_completeness auto
termination
  by (relation "measure (\<lambda>(a, b, s). length s)") (auto simp: starts_with_def)

declare replace_all.simps [simp del]

definition sql_replace :: "jval \<Rightarrow> string \<Rightarrow> string \<Rightarrow> jval" where
  "sql_replace v a b = (case v of JStr s \<Rightarrow> JStr (replace_all a b s) | _ \<Rightarrow> v)"

definition like_contains :: "jval \<Rightarrow> string \<Rightarrow> bool" where
  "like_contains v n = (case v of JStr s \<Rightarrow> js_includes (to_lower s) n | _ \<Rightarrow> False)"

definition like_starts :: "jval \<Rightarrow> string \<Rightarrow> bool" where
  "like_starts v n = (case v of JStr s \<Rightarrow> starts_with (to_lower s) n | _ \<Rightarrow> False)"

subsection \<open>Old names\<close>

type_synonym re_match = "char option \<Rightarrow> string \<Rightarrow> (nat \<times> string) option"

text \<open>
  \<open>s.replace(/re/g, r)\<close>: the matcher sees the character before the position and the text
  from it, and gives the length it consumes (at least one) and the replacement; the length
  of the text is fuel enough.
\<close>

fun re_sub :: "nat \<Rightarrow> re_match \<Rightarrow> char option \<Rightarrow> string \<Rightarrow> string" where
  "re_sub 0 m prev s = s"
| "re_sub (Suc n) m prev [] = []"
| "re_sub (Suc n) m prev (c # s) =
     (case m prev (c # s) of
        None \<Rightarrow> c # re_sub n m (Some c) s
      | Some (k, r) \<Rightarrow> r @ re_sub n m (Some (last (take k (c # s)))) (drop k (c # s)))"

definition word_before :: "char option \<Rightarrow> bool" where
  "word_before prev = (case prev of None \<Rightarrow> False | Some c \<Rightarrow> is_word c)"

definition word_ahead :: "string \<Rightarrow> bool" where
  "word_ahead s = (case s of [] \<Rightarrow> False | c # _ \<Rightarrow> is_word c)"

definition m_word :: "string \<Rightarrow> string \<Rightarrow> re_match" where
  "m_word w r prev s =
     (if \<not> word_before prev \<and> starts_with s w \<and> \<not> word_ahead (drop (length w) s)
      then Some (length w, r) else None)"

definition quote :: string where "quote = [CHR 0x27]"

definition m_pack_eq :: re_match where
  "m_pack_eq prev s =
     (let a = trim_start (drop 7 s); b = trim_start (tl a) in
      if \<not> word_before prev \<and> starts_with s ''pack_id'' \<and> starts_with a ''='' \<and>
         starts_with b (quote @ ''ptds-'')
      then Some (length s - length b + 6, ''pack_id = '' @ quote @ ''tra-'') else None)"

definition is_slug :: "char \<Rightarrow> bool" where
  "is_slug c \<longleftrightarrow> chr_in c 97 122 \<or> is_digit c \<or> c = CHR ''-''"

definition m_quoted :: re_match where
  "m_quoted prev s =
     (let run = takeWhile is_slug (drop 6 s); rest = dropWhile is_slug (drop 6 s) in
      if starts_with s (quote @ ''ptds-'') \<and> run \<noteq> [] \<and> starts_with rest quote
      then Some (length run + 7, quote @ ''tra-'' @ run @ quote) else None)"

definition m_slug :: re_match where
  "m_slug prev s =
     (let run = takeWhile is_slug (drop 5 s); rest = dropWhile is_slug (drop 5 s) in
      if \<not> word_before prev \<and> starts_with s ''ptds-''
      then map_option (\<lambda>k. (k + 5, ''tra-'' @ take k run))
        (find (\<lambda>k. word_before (Some (run ! (k - 1))) \<noteq> word_ahead (drop k run @ rest))
          (rev [1..<Suc (length run)]))
      else None)"

definition normalizeLegacyTraNaming :: "string \<Rightarrow> string" where
  "normalizeLegacyTraNaming content =
     fold (\<lambda>m s. re_sub (length s) m None s)
       [m_word ''ptds_scopes'' ''tra_scopes'', m_word ''ptds_write'' ''tra_write'',
        m_word ''ptds.read'' ''tra.read'', m_word ''ptds.chat'' ''tra.chat'',
        m_word ''ptds.write'' ''tra.write'', m_pack_eq, m_quoted, m_slug] content"

text \<open>The state directory is the list of the names in it.\<close>

definition renameIfPresent :: "string \<Rightarrow> string \<Rightarrow> string list \<Rightarrow> bool \<times> string list" where
  "renameIfPresent fromName toName names =
     (if fromName \<notin> set names \<or> toName \<in> set names then (False, names)
      else (True, map (\<lambda>n. if n = fromName then toName else n) names))"

definition arrow :: string where "arrow = utf8 [0xE2, 0x86, 0x92]"

definition LEGACY_STATE_DIR_RENAMES :: "(string \<times> string) list" where
  "LEGACY_STATE_DIR_RENAMES =
     [(''ptds-audit'', ''tra-audit''), (''ptds-evidence'', ''tra-evidence'')]"

definition migrateLegacyTraStateFiles :: "string list \<Rightarrow> (bool \<times> string list) \<times> string list" where
  "migrateLegacyTraStateFiles names =
     (case renameIfPresent ''local_ptds.db'' ''local_tra.db'' names of (dbRenamed, names1) \<Rightarrow>
       (case fold (\<lambda>(a, b) (done', ns). case renameIfPresent a b ns of (r, ns') \<Rightarrow>
                 (if r then done' @ [a @ arrow @ b] else done', ns'))
              LEGACY_STATE_DIR_RENAMES ([], names1) of
         (dirsRenamed, names2) \<Rightarrow> ((dbRenamed, dirsRenamed), names2)))"

subsection \<open>The table of an older release\<close>

definition AGENT_COLUMNS :: "string list" where
  "AGENT_COLUMNS =
     [''agent_id'', ''agent_name'', ''domain'', ''subdomain'', ''region'', ''insurance_type'',
      ''enabled'', ''tra_scopes'', ''tra_write'', ''pack_id'', ''pack_version'', ''registered_at'']"

definition missing_column :: "string list \<Rightarrow> string list \<Rightarrow> string option" where
  "missing_column wanted columns = find (\<lambda>c. c \<notin> set columns) wanted"

definition tra_scopes_of :: "jval \<Rightarrow> jval" where
  "tra_scopes_of v = sql_replace (sql_replace v ''ptds.read'' ''tra.read'') ''ptds.chat'' ''tra.chat''"

text \<open>The update of a table whose columns already have the new names.\<close>

definition fix_row :: "bool \<Rightarrow> sql_row \<Rightarrow> sql_row" where
  "fix_row hasPackId r =
     (if like_contains (cell r ''tra_scopes'') ''ptds.'' \<or>
         (hasPackId \<and> like_starts (cell r ''pack_id'') ''ptds-'')
      then (let r1 = obj_set r ''tra_scopes'' (tra_scopes_of (cell r ''tra_scopes''))
            in if hasPackId
               then obj_set r1 ''pack_id'' (sql_replace (cell r ''pack_id'') ''ptds-'' ''tra-'')
               else r1)
      else r)"

text \<open>A row of \<open>INSERT ... SELECT\<close> into the table with the new columns.\<close>

definition migrate_row :: "string \<Rightarrow> string \<Rightarrow> sql_row \<Rightarrow> sql_row" where
  "migrate_row legacyScopes legacyWrite r =
     map (\<lambda>c. (c, if c = ''tra_scopes'' then tra_scopes_of (cell r legacyScopes)
                 else if c = ''tra_write'' then cell r legacyWrite
                 else if c = ''pack_id'' then sql_replace (cell r ''pack_id'') ''ptds-'' ''tra-''
                 else cell r c)) AGENT_COLUMNS"

definition migrateLegacyDomainAgentsTable :: "bool \<Rightarrow> (domain_tables, bool) db_op" where
  "migrateLegacyDomainAgentsTable inTransaction d =
     (case dm_agents d of
        None \<Rightarrow> (Inr False, d)
      | Some t \<Rightarrow>
          let columns = tb_columns t;
              hasLegacyScopes = ''ptds_scopes'' \<in> set columns;
              hasLegacyWrite = ''ptds_write'' \<in> set columns;
              legacyScopes = (if hasLegacyScopes then ''ptds_scopes'' else ''tra_scopes'');
              legacyWrite = (if hasLegacyWrite then ''ptds_write'' else ''tra_write'')
          in if \<not> hasLegacyScopes \<and> \<not> hasLegacyWrite then
               (Inr False,
                if ''tra_scopes'' \<in> set columns
                then d\<lparr>dm_agents := Some (t\<lparr>tb_rows := map (fix_row (''pack_id'' \<in> set columns)) (tb_rows t)\<rparr>)\<rparr>
                else d)
             else if inTransaction then (Inl NestedTransaction, d)
             else (case missing_column
                     [''agent_id'', ''agent_name'', ''domain'', ''subdomain'', ''region'',
                      ''insurance_type'', ''enabled'', legacyScopes, legacyWrite, ''pack_id'',
                      ''pack_version'', ''registered_at''] columns of
                     Some c \<Rightarrow> (Inl (NoSuchColumn c), d)
                   | None \<Rightarrow>
                       (Inr True,
                        d\<lparr>dm_agents := Some \<lparr>tb_columns = AGENT_COLUMNS,
                            tb_rows = map (migrate_row legacyScopes legacyWrite) (tb_rows t)\<rparr>\<rparr>)))"

definition pack_seed :: "string \<Rightarrow> string \<Rightarrow> string \<Rightarrow> string \<Rightarrow> string \<Rightarrow> int \<Rightarrow> string \<Rightarrow> sql_row" where
  "pack_seed pid zh en domain path write now =
     [(''pack_id'', JStr pid), (''display_name_zh'', JStr zh), (''display_name_en'', JStr en),
      (''domain'', JStr domain), (''pack_path'', JStr path), (''version'', JStr ''1.0.0''),
      (''has_write'', JInt write), (''registered_at'', JStr now)]"

definition PACK_SEEDS :: "(string \<Rightarrow> sql_row) list" where
  "PACK_SEEDS =
     [pack_seed ''tra-outpatient''
        (utf8 [0xE9, 0x97, 0xA8, 0xE8, 0xAF, 0x8A, 0xE5, 0x8C, 0xBB, 0xE4, 0xBF, 0x9D, 0xE6, 0x8A,
           0xA5, 0xE9, 0x94, 0x80])
        ''Outpatient Insurance Reimbursement'' ''outpatient'' ''tra-outpatient'' 1,
      pack_seed ''tra-inpatient''
        (utf8 [0xE4, 0xBD, 0x8F, 0xE9, 0x99, 0xA2, 0xE5, 0x8C, 0xBB, 0xE4, 0xBF, 0x9D, 0xE7, 0xBB,
           0x93, 0xE7, 0xAE, 0x97])
        ''Inpatient Insurance Settlement'' ''inpatient'' ''tra-inpatient'' 1,
      pack_seed ''tra-pharmacy''
        (utf8 [0xE5, 0xAE, 0x9A, 0xE7, 0x82, 0xB9, 0xE8, 0x8D, 0xAF, 0xE5, 0xBA, 0x97, 0xE8, 0xB4,
           0xAD, 0xE8, 0x8D, 0xAF])
        ''Designated Pharmacy Drug Purchase'' ''pharmacy'' ''tra-pharmacy'' 0,
      pack_seed ''tra-cross-region''
        (utf8 [0xE5, 0xBC, 0x82, 0xE5, 0x9C, 0xB0, 0xE5, 0xB0, 0xB1, 0xE5, 0x8C, 0xBB, 0xE6, 0x8A,
           0xA5, 0xE9, 0x94, 0x80])
        ''Cross-Region Medical Reimbursement'' ''cross-region'' ''tra-cross-region'' 0,
      pack_seed ''tra-audit''
        (utf8 [0xE5, 0x8C, 0xBB, 0xE4, 0xBF, 0x9D, 0xE7, 0xA8, 0xBD, 0xE6, 0xA0, 0xB8])
        ''Insurance Audit & Fraud Detection'' ''audit'' ''tra-audit'' 0,
      pack_seed ''tra-drg''
        (utf8 [0x44, 0x52, 0x47, 0x2F, 0x44, 0x49, 0x50, 0xE5, 0x88, 0x86, 0xE7, 0xBB, 0x84, 0xE4,
           0xB8, 0x8E, 0xE7, 0xBB, 0x93, 0xE7, 0xAE, 0x97])
        ''DRG/DIP Grouping & Settlement'' ''drg'' ''tra-drg'' 0,
      pack_seed ''tra-maternity''
        (utf8 [0xE7, 0x94, 0x9F, 0xE8, 0x82, 0xB2, 0xE4, 0xBF, 0x9D, 0xE9, 0x99, 0xA9])
        ''Maternity Insurance'' ''maternity'' ''tra-maternity'' 1,
      pack_seed ''tra-catastrophic''
        (utf8 [0xE5, 0xA4, 0xA7, 0xE7, 0x97, 0x85, 0xE4, 0xBF, 0x9D, 0xE9, 0x99, 0xA9])
        ''Catastrophic Illness Insurance'' ''catastrophic'' ''tra-catastrophic'' 0,
      pack_seed ''tra-medical-assistance''
        (utf8 [0xE5, 0x8C, 0xBB, 0xE7, 0x96, 0x97, 0xE6, 0x95, 0x91, 0xE5, 0x8A, 0xA9])
        ''Medical Financial Assistance'' ''medical-assistance'' ''tra-medical-assistance'' 0,
      pack_seed ''tra-tcm''
        (utf8 [0xE4, 0xB8, 0xAD, 0xE5, 0x8C, 0xBB, 0xE8, 0x8D, 0xAF, 0xE5, 0x8C, 0xBB, 0xE4, 0xBF,
           0x9D, 0xE6, 0x8A, 0xA5, 0xE9, 0x94, 0x80])
        ''TCM Insurance Reimbursement'' ''tcm'' ''tra-tcm'' 0]"

text \<open>\<open>pack_id = 'tra-' || domain WHERE pack_id IS NULL OR TRIM(pack_id) = ''\<close>\<close>

definition needs_pack :: "sql_row \<Rightarrow> bool" where
  "needs_pack r = (case cell r ''pack_id'' of
     JNull \<Rightarrow> True | JStr s \<Rightarrow> list_all (\<lambda>c. c = CHR '' '') s | _ \<Rightarrow> False)"

definition backfill_row :: "sql_row \<Rightarrow> sql_row" where
  "backfill_row r =
     (if needs_pack r
      then obj_set r ''pack_id'' (case cell r ''domain'' of JStr dn \<Rightarrow> JStr (''tra-'' @ dn) | v \<Rightarrow> v)
      else r)"

definition PACK_TABLE_COLUMNS :: "string list" where
  "PACK_TABLE_COLUMNS =
     [''pack_id'', ''display_name_zh'', ''display_name_en'', ''domain'', ''pack_path'', ''version'',
      ''has_write'', ''registered_at'']"

definition ensureDomainAgentsPackSchema :: "string \<Rightarrow> domain_tables \<Rightarrow> bool \<times> domain_tables" where
  "ensureDomainAgentsPackSchema now d =
     (case dm_agents d of
        None \<Rightarrow> (False, d)
      | Some t \<Rightarrow>
          let added = ''pack_id'' \<notin> set (tb_columns t);
              columns = (if added then tb_columns t @ [''pack_id''] else tb_columns t);
              filled = list_ex needs_pack (tb_rows t);
              t' = \<lparr>tb_columns = columns, tb_rows = map backfill_row (tb_rows t)\<rparr>;
              packs = (case dm_packs d of
                 Some p \<Rightarrow> p
               | None \<Rightarrow> \<lparr>tb_columns = PACK_TABLE_COLUMNS, tb_rows = map (\<lambda>f. f now) PACK_SEEDS\<rparr>)
          in (added \<or> filled \<or> dm_packs d = None, \<lparr>dm_agents = Some t', dm_packs = Some packs\<rparr>))"

subsection \<open>Seeding and import\<close>

definition DOMAIN_AGENTS_FULL_REGISTRY_TARGET :: nat where
  "DOMAIN_AGENTS_FULL_REGISTRY_TARGET = 1000"

definition countDomainAgents :: "domain_tables \<Rightarrow> nat" where
  "countDomainAgents d = (case dm_agents d of None \<Rightarrow> 0 | Some t \<Rightarrow> length (tb_rows t))"

type_synonym sql_exec = "string \<Rightarrow> (domain_tables, unit) db_op"

definition run_registry_script :: "sql_exec \<Rightarrow> string \<Rightarrow> bool \<Rightarrow> string \<Rightarrow> (domain_tables, nat) db_op" where
  "run_registry_script exec now inTransaction sql =
     bind_op (exec (normalizeLegacyTraNaming sql)) (\<lambda>_.
       bind_op (migrateLegacyDomainAgentsTable inTransaction) (\<lambda>_ d.
         let d' = snd (ensureDomainAgentsPackSchema now d) in (Inr (countDomainAgents d'), d')))"

definition seedDomainAgentsRegistryIfEmpty ::
  "sql_exec \<Rightarrow> string \<Rightarrow> string \<Rightarrow> (domain_tables, unit) db_op" where
  "seedDomainAgentsRegistryIfEmpty exec registrySql now =
     bind_op (migrateLegacyDomainAgentsTable False) (\<lambda>_ d.
       let existing = countDomainAgents d in
       if DOMAIN_AGENTS_FULL_REGISTRY_TARGET \<le> existing
       then (Inr (), snd (ensureDomainAgentsPackSchema now d))
       else bind_op (run_registry_script exec now False registrySql) (\<lambda>_. return_op ())
              (if 0 < existing then no_tables else d))"

text \<open>The part of \<open>bootstrapTraDatabase\<close> that concerns these tables.\<close>

definition bootstrap_domain ::
  "sql_exec \<Rightarrow> string \<Rightarrow> string \<Rightarrow> (domain_tables, unit) db_op" where
  "bootstrap_domain exec registrySql now =
     bind_op (migrateLegacyDomainAgentsTable False) (\<lambda>_.
       seedDomainAgentsRegistryIfEmpty exec registrySql now)"

definition importDomainAgentsRegistrySql ::
  "sql_exec \<Rightarrow> string \<Rightarrow> bool \<Rightarrow> bool \<Rightarrow> string \<Rightarrow> (domain_tables, nat) db_op" where
  "importDomainAgentsRegistrySql exec now inTransaction replace sql d =
     (let normalized = trim sql in
      if normalized = [] then (Inl EmptyRegistrySql, d)
      else run_registry_script exec now inTransaction normalized
             (if replace \<and> dm_agents d \<noteq> None then no_tables else d))"

datatype import_outcome =
    ImportDone string int nat
  | ImportSkipped string nat
  | ImportFailed db_error

definition count_range :: "nat \<Rightarrow> nat \<Rightarrow> string" where
  "count_range before tot =
     ''('' @ show_nat before @ '' '' @ arrow @ '' '' @ show_nat tot @ '' rows).''"

definition already_full :: "nat \<Rightarrow> nat \<Rightarrow> import_outcome" where
  "already_full tot minCount = ImportSkipped
     (''domain_agents already has '' @ show_nat tot @ '' rows (>= '' @ show_nat minCount @ '').'') tot"

text \<open>\<open>try\<close> around an operation, the error as an outcome.\<close>

definition caught :: "(domain_tables, import_outcome) db_op \<Rightarrow> domain_tables \<Rightarrow> import_outcome \<times> domain_tables" where
  "caught f d = (case f d of (Inl e, d') \<Rightarrow> (ImportFailed e, d') | (Inr out, d') \<Rightarrow> (out, d'))"

definition importBundledDomainAgentsRegistry ::
  "sql_exec \<Rightarrow> string \<Rightarrow> string \<Rightarrow> bool \<Rightarrow> domain_tables \<Rightarrow> import_outcome \<times> domain_tables" where
  "importBundledDomainAgentsRegistry exec registrySql now force =
     caught (bind_op (migrateLegacyDomainAgentsTable False) (\<lambda>_ d.
       let before = countDomainAgents d in
       if \<not> force \<and> DOMAIN_AGENTS_FULL_REGISTRY_TARGET \<le> before
       then (Inr (already_full before DOMAIN_AGENTS_FULL_REGISTRY_TARGET), d)
       else bind_op
         (runTraImmediateTransactionSync
            (importDomainAgentsRegistrySql exec now True (0 < before \<or> force) registrySql))
         (\<lambda>tot. return_op (ImportDone
            (''Imported bundled domain agent registry '' @ count_range before tot)
            (max 0 (int tot - int before)) tot)) d))"

definition seed_registry_below ::
  "sql_exec \<Rightarrow> string \<Rightarrow> string \<Rightarrow> nat option \<Rightarrow> domain_tables \<Rightarrow> import_outcome \<times> domain_tables" where
  "seed_registry_below exec registrySql now minOpt d =
     (let minCount = (case minOpt of Some n \<Rightarrow> n | None \<Rightarrow> DOMAIN_AGENTS_FULL_REGISTRY_TARGET) in
      case bootstrap_domain exec registrySql now d of
        (Inl e, d') \<Rightarrow> (ImportFailed e, d')
      | (Inr _, d') \<Rightarrow>
          if minCount \<le> countDomainAgents d'
          then (already_full (countDomainAgents d') minCount, d')
          else importBundledDomainAgentsRegistry exec registrySql now False d')"

text \<open>An error of the bootstrap, which is outside the \<open>try\<close>, goes to the caller.\<close>

definition importBundledDomainAgentsMigration ::
  "sql_exec \<Rightarrow> string \<Rightarrow> string \<Rightarrow> string \<Rightarrow> (domain_tables, import_outcome) db_op" where
  "importBundledDomainAgentsMigration exec registrySql migrationSql now =
     bind_op (bootstrap_domain exec registrySql now) (\<lambda>_ d.
       let before = countDomainAgents d in
       (case caught (bind_op
               (runTraImmediateTransactionSync
                  (importDomainAgentsRegistrySql exec now True False migrationSql))
               (\<lambda>tot. return_op (ImportDone
                  (''Applied bundled domain agent pack migration '' @ count_range before tot)
                  (int tot - int before) tot))) d of
          (out, d') \<Rightarrow> (Inr out, d')))"

definition importDomainAgentsRegistryPackage ::
  "sql_exec \<Rightarrow> string \<Rightarrow> string \<Rightarrow> string \<Rightarrow> domain_tables \<Rightarrow> import_outcome \<times> domain_tables" where
  "importDomainAgentsRegistryPackage exec registrySql now sql =
     caught (bind_op (bootstrap_domain exec registrySql now) (\<lambda>_ d.
       let before = countDomainAgents d in
       bind_op (runTraImmediateTransactionSync (importDomainAgentsRegistrySql exec now True True sql))
         (\<lambda>tot. return_op (ImportDone
            (''Imported domain agent registry '' @ count_range before tot)
            (int tot - int before) tot)) d))"

subsection \<open>The list\<close>

record agent_filters =
  af_pack_id :: "string option"
  af_enabled :: "string option"
  af_domain :: "string option"

record domain_summary =
  ds_totalal :: nat
  ds_by_enabled :: "nat obj"
  ds_by_pack :: "nat obj"

record domain_list =
  dl_available :: bool
  dl_agents :: "sql_row list"
  dl_summary :: domain_summary

definition emptySummary :: domain_summary where
  "emptySummary = \<lparr>ds_totalal = 0, ds_by_enabled = [], ds_by_pack = []\<rparr>"

fun tally :: "(sql_row \<Rightarrow> string) \<Rightarrow> nat obj \<Rightarrow> sql_row list \<Rightarrow> nat obj" where
  "tally key m [] = m"
| "tally key m (r # rs) =
     tally key (obj_set m (key r) ((case obj_get m (key r) of Some n \<Rightarrow> n | None \<Rightarrow> 0) + 1)) rs"

definition enabled_key :: "sql_row \<Rightarrow> string" where
  "enabled_key r = js_to_string (cell r ''enabled'')"

definition pack_key :: "sql_row \<Rightarrow> string" where
  "pack_key r = (case cell r ''pack_id'' of
     JStr s \<Rightarrow> (if trim s = [] then ''(unassigned)'' else trim s) | _ \<Rightarrow> ''(unassigned)'')"

definition summarizeAgents :: "sql_row list \<Rightarrow> domain_summary" where
  "summarizeAgents agents =
     \<lparr>ds_totalal = length agents, ds_by_enabled = tally enabled_key [] agents,
      ds_by_pack = tally pack_key [] agents\<rparr>"

definition filter_clause :: "string \<Rightarrow> string option \<Rightarrow> sql_row \<Rightarrow> bool" where
  "filter_clause column wanted r =
     (case trim_opt wanted of None \<Rightarrow> True | Some w \<Rightarrow> cell r column = JStr w)"

definition agent_matches :: "agent_filters \<Rightarrow> sql_row \<Rightarrow> bool" where
  "agent_matches f r \<longleftrightarrow> filter_clause ''pack_id'' (af_pack_id f) r \<and>
     filter_clause ''enabled'' (af_enabled f) r \<and> filter_clause ''domain'' (af_domain f) r"

definition text_cell :: "string \<Rightarrow> sql_row \<Rightarrow> string" where
  "text_cell c r = (case cell r c of JStr s \<Rightarrow> s | _ \<Rightarrow> [])"

definition project_row :: "string list \<Rightarrow> sql_row \<Rightarrow> sql_row" where
  "project_row cs r = map (\<lambda>c. (c, cell r c)) cs"

definition query_agents :: "agent_filters \<Rightarrow> domain_tables \<Rightarrow> db_error + domain_list" where
  "query_agents f d =
     (case dm_agents d of
        None \<Rightarrow> Inr \<lparr>dl_available = False, dl_agents = [], dl_summary = emptySummary\<rparr>
      | Some t \<Rightarrow>
          (case missing_column AGENT_COLUMNS (tb_columns t) of
             Some c \<Rightarrow> Inl (NoSuchColumn c)
           | None \<Rightarrow>
               let rows = map (project_row AGENT_COLUMNS)
                 (sort_key (text_cell ''domain'')
                    (sort_key (text_cell ''agent_id'') (filter (agent_matches f) (tb_rows t))))
               in Inr \<lparr>dl_available = True, dl_agents = rows, dl_summary = summarizeAgents rows\<rparr>))"

definition listDomainAgents ::
  "sql_exec \<Rightarrow> string \<Rightarrow> string \<Rightarrow> agent_filters \<Rightarrow> (domain_tables, domain_list) db_op" where
  "listDomainAgents exec registrySql now f =
     bind_op (bootstrap_domain exec registrySql now) (\<lambda>_ d. (query_agents f d, d))"

subsection \<open>What an import leaves behind\<close>

definition has_legacy :: "domain_tables \<Rightarrow> bool" where
  "has_legacy d = (case dm_agents d of None \<Rightarrow> False
     | Some t \<Rightarrow> ''ptds_scopes'' \<in> set (tb_columns t) \<or> ''ptds_write'' \<in> set (tb_columns t))"

lemma migrate_current:
  "\<not> has_legacy d \<Longrightarrow>
     \<exists>d'. migrateLegacyDomainAgentsTable tx d = (Inr False, d') \<and> \<not> has_legacy d' \<and>
          countDomainAgents d' = countDomainAgents d \<and> (dm_agents d' = None) = (dm_agents d = None)"
  by (auto simp: migrateLegacyDomainAgentsTable_def has_legacy_def Let_def countDomainAgents_def
      split: option.splits)

lemma migrate_in_tx:
  "migrateLegacyDomainAgentsTable True d = (Inr b, d') \<Longrightarrow>
     \<not> has_legacy d' \<and> countDomainAgents d' = countDomainAgents d"
  by (auto simp: migrateLegacyDomainAgentsTable_def has_legacy_def Let_def countDomainAgents_def
      split: option.splits if_splits)

lemma ensure_keeps:
  assumes "ensureDomainAgentsPackSchema now d = (b, d')"
  shows "has_legacy d' = has_legacy d \<and> countDomainAgents d' = countDomainAgents d"
  using assms
  by (auto simp: ensureDomainAgentsPackSchema_def has_legacy_def Let_def countDomainAgents_def
      split: option.splits if_splits)

lemma run_script_in_tx:
  assumes "run_registry_script exec now True sql d = (Inr n, d')"
  shows "\<not> has_legacy d' \<and> countDomainAgents d' = n"
proof -
  obtain d1 b d2 where m: "migrateLegacyDomainAgentsTable True d1 = (Inr b, d2)"
    and d': "d' = snd (ensureDomainAgentsPackSchema now d2)" "n = countDomainAgents d'"
    using assms by (auto simp: run_registry_script_def bind_op_Inr Let_def)
  then show ?thesis
    using migrate_in_tx [OF m] ensure_keeps [of now d2] by (cases "ensureDomainAgentsPackSchema now d2") auto
qed

lemma import_in_tx:
  "importDomainAgentsRegistrySql exec now True rep sql d = (Inr n, d') \<Longrightarrow>
     \<not> has_legacy d' \<and> countDomainAgents d' = n"
  by (auto simp: importDomainAgentsRegistrySql_def Let_def dest!: run_script_in_tx split: if_splits)

lemma seed_from_partial:
  assumes "\<not> has_legacy d" "0 < countDomainAgents d" "countDomainAgents d < 1000"
  shows "seedDomainAgentsRegistryIfEmpty exec registrySql now d =
         seedDomainAgentsRegistryIfEmpty exec registrySql now no_tables"
proof -
  obtain d' where "migrateLegacyDomainAgentsTable False d = (Inr False, d')"
    "countDomainAgents d' = countDomainAgents d"
    using migrate_current [OF assms(1), of False] by auto
  moreover have "migrateLegacyDomainAgentsTable False no_tables = (Inr False, no_tables)"
    by (simp add: migrateLegacyDomainAgentsTable_def no_tables_def)
  ultimately show ?thesis
    using assms by (simp add: seedDomainAgentsRegistryIfEmpty_def bind_op_def Let_def
        DOMAIN_AGENTS_FULL_REGISTRY_TARGET_def countDomainAgents_def no_tables_def)
qed

text \<open>
  A registry package that a client imports survives only if it has at least 1000
  agents: the next bootstrap of the database, which every later operation starts with, drops
  a smaller package and leaves what it leaves on a database that never had one.
\<close>

theorem small_import_is_lost:
  assumes "importDomainAgentsRegistryPackage exec registrySql now sql d = (ImportDone msg new tot, d1)"
    and "0 < tot" and "tot < 1000"
  shows "bootstrap_domain exec registrySql later d1 = bootstrap_domain exec registrySql later no_tables"
proof -
  obtain d0 where "importDomainAgentsRegistrySql exec now True True sql d0 = (Inr tot, d1)"
    using assms(1)
    by (auto simp: importDomainAgentsRegistryPackage_def caught_def bind_op_Inr Let_def return_op_def
        split: prod.splits sum.splits)
  then have d1: "\<not> has_legacy d1" "countDomainAgents d1 = tot"
    using import_in_tx by blast+
  obtain d2 where d2: "migrateLegacyDomainAgentsTable False d1 = (Inr False, d2)" "\<not> has_legacy d2"
    "countDomainAgents d2 = tot"
    using migrate_current [OF d1(1), of False] d1(2) by auto
  have "migrateLegacyDomainAgentsTable False no_tables = (Inr False, no_tables)"
    by (simp add: migrateLegacyDomainAgentsTable_def no_tables_def)
  with d2 assms(2,3) show ?thesis
    by (simp add: bootstrap_domain_def bind_op_def seed_from_partial [of d2])
qed

text \<open>
  The rename of the old columns needs the column pack_id, which the first registry did
  not have: a database with such a table can never be opened again, whatever the bundled
  registry holds, and the table stays as it is.
\<close>

theorem first_registry_blocks_bootstrap:
  assumes "dm_agents d = Some t" and "''ptds_scopes'' \<in> set (tb_columns t)"
    and "''pack_id'' \<notin> set (tb_columns t)"
  shows "\<exists>c. bootstrap_domain exec registrySql now d = (Inl (NoSuchColumn c), d)"
proof -
  have nn: "missing_column
      [''agent_id'', ''agent_name'', ''domain'', ''subdomain'', ''region'', ''insurance_type'', ''enabled'',
       a, b, ''pack_id'', ''pack_version'', ''registered_at''] (tb_columns t) \<noteq> None" for a b
    using assms(3) by (auto simp: missing_column_def find_None_iff)
  show ?thesis
    using assms(1,2) nn [of "''ptds_scopes''" "''ptds_write''"] nn [of "''ptds_scopes''" "''tra_write''"]
    by (auto simp: bootstrap_domain_def bind_op_def migrateLegacyDomainAgentsTable_def Let_def)
qed

subsection \<open>The list of agents\<close>

lemma query_agents_rows:
  assumes "query_agents f d = Inr l" and "dm_agents d = Some t"
  shows "mset (dl_agents l) =
           image_mset (project_row AGENT_COLUMNS) (mset (filter (agent_matches f) (tb_rows t)))"
  using assms by (auto simp: query_agents_def Let_def mset_map simp del: mset_filter split: option.splits)

definition demo_exec :: sql_exec where
  "demo_exec sql d = (Inr (),
     d\<lparr>dm_agents := Some \<lparr>tb_columns = AGENT_COLUMNS, tb_rows = [[(''agent_id'', JStr sql)]]\<rparr>\<rparr>)"

definition demo_imported :: "import_outcome \<times> domain_tables" where
  "demo_imported = importDomainAgentsRegistryPackage demo_exec ''b'' ''t'' ''a'' no_tables"

lemma demo_script_run: "\<exists>d'. run_registry_script demo_exec now tx sql d = (Inr 1, d')"
proof -
  obtain d1 where d1: "demo_exec (normalizeLegacyTraNaming sql) d = (Inr (), d1)"
    "\<not> has_legacy d1" "countDomainAgents d1 = 1"
    by (auto simp: demo_exec_def has_legacy_def AGENT_COLUMNS_def countDomainAgents_def)
  obtain d2 where d2: "migrateLegacyDomainAgentsTable tx d1 = (Inr False, d2)" "countDomainAgents d2 = 1"
    using migrate_current [OF d1(2), of tx] d1(3) by auto
  then show ?thesis
    using ensure_keeps [of now d2 "fst (ensureDomainAgentsPackSchema now d2)"
        "snd (ensureDomainAgentsPackSchema now d2)"] d1
    by (simp add: run_registry_script_def bind_op_def Let_def)
qed

lemma demo_bootstrap:
  "\<exists>d'. bootstrap_domain demo_exec sql now no_tables = (Inr (), d') \<and> countDomainAgents d' = 1"
proof -
  have m: "migrateLegacyDomainAgentsTable False no_tables = (Inr False, no_tables)"
    by (simp add: migrateLegacyDomainAgentsTable_def no_tables_def)
  obtain d' where "run_registry_script demo_exec now False sql no_tables = (Inr 1, d')"
    using demo_script_run by blast
  moreover from this have "countDomainAgents d' = 1"
    by (auto simp: run_registry_script_def bind_op_Inr Let_def)
  ultimately show ?thesis
    using m by (simp add: bootstrap_domain_def seedDomainAgentsRegistryIfEmpty_def bind_op_def
        return_op_def Let_def countDomainAgents_def no_tables_def DOMAIN_AGENTS_FULL_REGISTRY_TARGET_def)
qed

lemma demo_import:
  "fst demo_imported = ImportDone (''Imported domain agent registry '' @ count_range 1 1) 0 1"
proof -
  obtain d' where d': "bootstrap_domain demo_exec ''b'' ''t'' no_tables = (Inr (), d')"
    "countDomainAgents d' = 1"
    using demo_bootstrap by blast
  obtain d2 where "importDomainAgentsRegistrySql demo_exec ''t'' True True ''a'' d' = (Inr 1, d2)"
  proof -
    have "trim ''a'' = ''a''" by code_simp
    then show ?thesis
      using that demo_script_run [of "''t''" True "''a''"] by (auto simp: importDomainAgentsRegistrySql_def)
  qed
  then show ?thesis
    using d' by (simp add: demo_imported_def importDomainAgentsRegistryPackage_def caught_def
        bind_op_def return_op_def runTraImmediateTransactionSync_def)
qed

lemma small_import_is_lost_witness:
  "bootstrap_domain demo_exec ''b'' ''t'' (snd demo_imported) =
   bootstrap_domain demo_exec ''b'' ''t'' no_tables"
proof -
  have "importDomainAgentsRegistryPackage demo_exec ''b'' ''t'' ''a'' no_tables =
      (ImportDone (''Imported domain agent registry '' @ count_range 1 1) 0 1, snd demo_imported)"
    using demo_import unfolding demo_imported_def by (simp add: prod_eq_iff)
  then show ?thesis by (rule small_import_is_lost) simp_all
qed

definition first_registry :: domain_tables where
  "first_registry = \<lparr>dm_agents = Some \<lparr>tb_columns = [''agent_id'', ''ptds_scopes''], tb_rows = []\<rparr>, dm_packs = None\<rparr>"

lemma first_registry_blocks_bootstrap_witness:
  "\<exists>c. bootstrap_domain demo_exec ''b'' ''t'' first_registry = (Inl (NoSuchColumn c), first_registry)"
  by (rule first_registry_blocks_bootstrap [of _ "\<lparr>tb_columns = [''agent_id'', ''ptds_scopes''], tb_rows = []\<rparr>"])
     (simp_all add: first_registry_def)

end
