(* ===== verification/Tra_Db.thy ===== *)
theory Tra_Db
  imports Domain_Agents
begin

text \<open>
  The local database (\<open>tra/db.ts\<close>, \<open>tra/init.ts\<close>, \<open>tra/prescription-context.ts\<close>,
  \<open>tra/profile-summary.ts\<close>, \<open>tra/query.ts\<close>, \<open>runtime/rules/ast-context.ts\<close>): the rows the
  program writes and reads as records, each table a list in the order of its row ids, and
  the statements of the program as functions on them.  A number bound to a REAL column is
  kept exactly; NaN is stored as NULL.  The clock is an argument.
\<close>

subsection \<open>Tables\<close>

record user_row =
  us_user_id :: string
  us_name :: string
  us_birth_date :: string
  us_sex :: int
  us_created_at :: string

record body_row =
  bo_recorded_at :: string
  bo_height_m :: num64
  bo_weight_kg :: num64
  bo_bmi :: "num64 option"
  bo_source_id :: string
  bo_provenance :: int
  bo_recorder :: string

record lab_row =
  la_recorded_at :: string
  la_test_code :: string
  la_test_value :: "num64 option"
  la_unit :: string
  la_low :: num64
  la_high :: num64
  la_status :: string
  la_source_id :: string
  la_provenance :: int

record diagnosis_row =
  dg_icd10 :: string
  dg_name :: string
  dg_diagnosed_at :: string
  dg_source_id :: string
  dg_is_active :: int
  dg_provenance :: int

record medication_row =
  md_drug :: string
  md_atc :: string
  md_start :: string
  md_end :: "string option"
  md_reason :: "string option"
  md_source_id :: string
  md_provenance :: int

record prescription_row =
  px_first :: int
  px_level :: int
  px_specialist :: int

record drug_row =
  dr_drug_id :: string
  dr_generic :: string
  dr_ingredient :: string
  dr_atc :: string
  dr_negotiated :: int
  dr_expiry :: "string option"

record standard_row =
  st_standard_id :: string
  st_schema_uri :: "string option"
  st_release_date :: string
  st_publisher :: string
  st_signature :: "string option"
  st_ruleset_hash :: string
  st_file_hash :: string
  st_label :: string
  st_imported_at :: string
  st_session :: string
  st_is_active :: bool

record sync_row =
  sy_version_id :: string
  sy_package_hash :: string
  sy_label :: string
  sy_url :: "string option"
  sy_session :: string
  sy_drug_count :: nat
  sy_rule_count :: nat
  sy_synced_at :: string

record tra_db =
  db_users :: "user_row list"
  db_body :: "body_row list"
  db_labs :: "lab_row list"
  db_diagnoses :: "diagnosis_row list"
  db_medications :: "medication_row list"
  db_prescription :: "prescription_row obj"
  db_drugs :: "drug_row list"
  db_payment :: "payment_rule list"
  db_standards :: "standard_row list"
  db_ast :: "ast_rule list"
  db_sync :: "sync_row option"
  db_sources :: "(string \<times> string) list"
  db_domain :: domain_tables
  db_streams :: "(string \<times> sql_row list) list"

text \<open>\<open>db_streams\<close> are the other tables: vitals, wearable data, genetic and lifestyle rows.\<close>

record clock =
  ck_iso :: string
  ck_stamp :: string
  ck_date :: string
  ck_date_180 :: string
  ck_year :: int

definition TRA_LOCAL_USER_ID :: string where "TRA_LOCAL_USER_ID = ''local_user''"

text \<open>\<open>ORDER BY created_at ASC LIMIT 1\<close>: the first of the rows with the least key.\<close>

definition resolvePrimaryUserId :: "tra_db \<Rightarrow> string option" where
  "resolvePrimaryUserId db =
     (case sort_key us_created_at (db_users db) of [] \<Rightarrow> None | u # _ \<Rightarrow> Some (us_user_id u))"

subsection \<open>Bootstrap\<close>

definition GLP1_SEMA_SEED :: drug_row where
  "GLP1_SEMA_SEED =
     \<lparr>dr_drug_id = ''GLP1_SEMA'', dr_generic = glp1_name_5, dr_ingredient = ''semaglutide'',
      dr_atc = ''A10BJ06'', dr_negotiated = 1, dr_expiry = Some ''2026-12-31''\<rparr>"

definition seed_rule :: "string \<Rightarrow> string \<Rightarrow> string \<Rightarrow> string \<Rightarrow> string \<Rightarrow> string \<Rightarrow> payment_rule" where
  "seed_rule rid category key op val alert =
     \<lparr>pr_rule_id = rid, pr_drug_id = ''GLP1_SEMA'', pr_category = category, pr_target_key = key,
      pr_operator = op, pr_value = val, pr_alert = alert\<rparr>"

definition GLP1_RULE_SEEDS :: "payment_rule list" where
  "GLP1_RULE_SEEDS =
     [seed_rule ''GLP1_R01'' ''DIAGNOSIS'' ''has_t2dm'' ''=='' ''1''
        (utf8 [0xE9, 0x9C, 0x80, 0xE7, 0xA1, 0xAE, 0xE8, 0xAF, 0x8A, 0xE4, 0xB8, 0x94, 0xE5, 0xA4,
          0x84, 0xE4, 0xBA, 0x8E, 0xE6, 0xB4, 0xBB, 0xE5, 0x8A, 0xA8, 0xE6, 0x9C, 0x9F, 0xE7,
          0x9A, 0x84, 0x32, 0xE5, 0x9E, 0x8B, 0xE7, 0xB3, 0x96, 0xE5, 0xB0, 0xBF, 0xE7, 0x97,
          0x85, 0xEF, 0xBC, 0x88, 0x49, 0x43, 0x44, 0x2D, 0x31, 0x30, 0x20, 0x45, 0x31, 0x31,
          0xEF, 0xBC, 0x89]),
      seed_rule ''GLP1_R02'' ''LAB_LIMIT'' ''latest_hospital_hba1c'' ''>='' ''6.5''
        (utf8 [0xE4, 0xB8, 0xB4, 0xE5, 0xBA, 0x8A, 0xE7, 0xBA, 0xA7, 0x48, 0x62, 0x41, 0x31, 0x63,
          0xE9, 0x9C, 0x80, 0xE2, 0x89, 0xA5, 0x36, 0x2E, 0x35, 0x25]),
      seed_rule ''GLP1_R03'' ''SAFETY_LIMIT'' ''has_absolute_contraindication'' ''=='' ''0''
        (utf8 [0xE5, 0xAD, 0x98, 0xE5, 0x9C, 0xA8, 0xE7, 0x94, 0xB2, 0xE7, 0x8A, 0xB6, 0xE8, 0x85,
          0xBA, 0xE9, 0xAB, 0x93, 0xE6, 0xA0, 0xB7, 0xE7, 0x99, 0x8C, 0xE6, 0x88, 0x96, 0xE9,
          0x87, 0x8D, 0xE5, 0xBA, 0xA6, 0xE8, 0x83, 0xB0, 0xE8, 0x85, 0xBA, 0xE7, 0x82, 0x8E,
          0xE7, 0xA6, 0x81, 0xE5, 0xBF, 0x8C]),
      seed_rule ''GLP1_R04'' ''PRIOR_MED'' ''prior_oral_therapy_status'' ''>='' ''1''
        (utf8 [0xE9, 0x9C, 0x80, 0xE6, 0x9C, 0x89, 0xE5, 0x8F, 0xA3, 0xE6, 0x9C, 0x8D, 0xE9, 0x99,
          0x8D, 0xE7, 0xB3, 0x96, 0xE8, 0x8D, 0xAF, 0xE9, 0x98, 0xB6, 0xE6, 0xA2, 0xAF, 0xE6,
          0xB2, 0xBB, 0xE7, 0x96, 0x97, 0xE5, 0x8F, 0xB2, 0xE4, 0xB8, 0x94, 0xE6, 0x8E, 0xA7,
          0xE5, 0x88, 0xB6, 0xE4, 0xB8, 0x8D, 0xE4, 0xBD, 0xB3])]"

text \<open>
  \<open>INSERT OR IGNORE\<close> of the bundled rows when the drug registry is empty; the payment rules
  have the rule id as their key.
\<close>

definition insert_or_ignore :: "('a \<Rightarrow> 'k) \<Rightarrow> 'a \<Rightarrow> 'a list \<Rightarrow> 'a list" where
  "insert_or_ignore key x xs = (if key x \<in> set (map key xs) then xs else xs @ [x])"

definition seedNrdlGlp1RulesIfEmpty :: "tra_db \<Rightarrow> tra_db" where
  "seedNrdlGlp1RulesIfEmpty db =
     (if db_drugs db \<noteq> [] then db
      else db\<lparr>db_drugs := [GLP1_SEMA_SEED],
              db_payment := fold (insert_or_ignore pr_rule_id) GLP1_RULE_SEEDS (db_payment db)\<rparr>)"

record db_seeds =
  sd_exec :: sql_exec
  sd_registry :: string
  sd_migration :: string

definition on_domain :: "(domain_tables, 'a) db_op \<Rightarrow> (tra_db, 'a) db_op" where
  "on_domain f db = (case f (db_domain db) of (r, d) \<Rightarrow> (r, db\<lparr>db_domain := d\<rparr>))"

text \<open>The schema scripts create empty tables where they are missing.\<close>

definition bootstrapTraDatabase :: "db_seeds \<Rightarrow> clock \<Rightarrow> (tra_db, unit) db_op" where
  "bootstrapTraDatabase sd ck db =
     on_domain (bootstrap_domain (sd_exec sd) (sd_registry sd) (ck_stamp ck)) (seedNrdlGlp1RulesIfEmpty db)"

subsection \<open>Initialisation\<close>

datatype gender = Male | Female

record init_request =
  ir_patientName :: "string option"
  ir_gender :: gender
  ir_age :: num64
  ir_weight :: num64
  ir_height :: num64
  ir_hba1c :: num64
  ir_isPregnantOrLactating :: bool
  ir_hasType2Diabetes :: bool
  ir_thyroidHistory :: bool
  ir_pancreatitisHistory :: bool
  ir_cardiovascularRisk :: bool
  ir_gastrointestinalSensitivity :: bool
  ir_hasArteriosclerosis :: bool
  ir_hasCoronaryHeartDisease :: bool
  ir_hasMyocardialInfarction :: bool
  ir_hasStroke :: bool
  ir_usedMetforminBadControl :: bool
  ir_usedSulfonylureaBadControl :: bool
  ir_usedInsulinBadControl :: bool
  ir_isFirstPrescription :: "bool option"
  ir_institutionLevel :: "num64 option"
  ir_isSpecialistPhysician :: "bool option"

definition DEFAULT_PATIENT_NAME :: string where
  "DEFAULT_PATIENT_NAME = utf8 [0xE5, 0xBC, 0xA0, 0xE4, 0xB8, 0x89]"

definition PRESCRIPTION_CONTEXT_INIT_DEFAULTS :: prescription_row where
  "PRESCRIPTION_CONTEXT_INIT_DEFAULTS = \<lparr>px_first = 1, px_level = 3, px_specialist = 1\<rparr>"

text \<open>\<open>Math.round\<close> takes the integer above a half.\<close>

definition clampInstitutionLevel :: "num64 \<Rightarrow> int" where
  "clampInstitutionLevel level =
     (case level of Fin q \<Rightarrow> min 3 (max 1 \<lfloor>q + 1 / 2\<rfloor>)
      | _ \<Rightarrow> px_level PRESCRIPTION_CONTEXT_INIT_DEFAULTS)"

definition resolvePrescriptionContextFromInit :: "init_request \<Rightarrow> prescription_row" where
  "resolvePrescriptionContextFromInit r =
     \<lparr>px_first = (if ir_isFirstPrescription r = Some False then 0
                 else px_first PRESCRIPTION_CONTEXT_INIT_DEFAULTS),
      px_level = clampInstitutionLevel (case ir_institutionLevel r of Some l \<Rightarrow> l
                 | None \<Rightarrow> Fin (of_int (px_level PRESCRIPTION_CONTEXT_INIT_DEFAULTS))),
      px_specialist = (if ir_isSpecialistPhysician r = Some False then 0
                 else px_specialist PRESCRIPTION_CONTEXT_INIT_DEFAULTS)\<rparr>"

definition upsertPrescriptionContext :: "prescription_row \<Rightarrow> string \<Rightarrow> tra_db \<Rightarrow> tra_db" where
  "upsertPrescriptionContext row userId db =
     db\<lparr>db_prescription := obj_set (db_prescription db) userId row\<rparr>"

definition readPrescriptionContext :: "tra_db \<Rightarrow> string \<Rightarrow> prescription_row" where
  "readPrescriptionContext db userId =
     (case obj_get (db_prescription db) userId of
        Some r \<Rightarrow> r | None \<Rightarrow> PRESCRIPTION_CONTEXT_INIT_DEFAULTS)"

definition clearTraPersonalData :: "tra_db \<Rightarrow> tra_db" where
  "clearTraPersonalData db =
     db\<lparr>db_diagnoses := [], db_medications := [], db_labs := [], db_body := [],
        db_prescription := obj_del (db_prescription db) TRA_LOCAL_USER_ID,
        db_users := filter (\<lambda>u. us_user_id u \<noteq> TRA_LOCAL_USER_ID) (db_users db)\<rparr>"

definition birthDateFromAge :: "clock \<Rightarrow> num64 \<Rightarrow> string" where
  "birthDateFromAge ck age =
     num_to_string (case age of Fin a \<Rightarrow> Fin (of_int (ck_year ck) - a)
                    | PosInf \<Rightarrow> NegInf | NegInf \<Rightarrow> PosInf | NaN \<Rightarrow> NaN) @ ''-01-01''"

definition insertDiagnosis :: "clock \<Rightarrow> string \<Rightarrow> string \<Rightarrow> tra_db \<Rightarrow> tra_db" where
  "insertDiagnosis ck code label db =
     db\<lparr>db_diagnoses := db_diagnoses db @
        [\<lparr>dg_icd10 = code, dg_name = label, dg_diagnosed_at = ck_date ck,
          dg_source_id = ''PATIENT_SELF_REPORT'', dg_is_active = 1, dg_provenance = 1\<rparr>]\<rparr>"

definition insertIneffectiveMedication :: "clock \<Rightarrow> string \<Rightarrow> string \<Rightarrow> tra_db \<Rightarrow> tra_db" where
  "insertIneffectiveMedication ck drugName atcCode db =
     db\<lparr>db_medications := db_medications db @
        [\<lparr>md_drug = drugName, md_atc = atcCode, md_start = ck_date_180 ck,
          md_end = Some (ck_date ck), md_reason = Some ''INEFFECTIVE'',
          md_source_id = ''PATIENT_SELF_REPORT'', md_provenance = 1\<rparr>]\<rparr>"

definition insertUser :: "user_row \<Rightarrow> (tra_db, unit) db_op" where
  "insertUser u db =
     (if us_user_id u \<in> set (map us_user_id (db_users db))
      then (Inl (UniqueViolation ''user_profile.user_id''), db)
      else (Inr (), db\<lparr>db_users := db_users db @ [u]\<rparr>))"

text \<open>The generated column \<open>weight_kg / (height_m * height_m)\<close>: NULL where SQLite has no number.\<close>

definition sql_bmi :: "num64 \<Rightarrow> num64 \<Rightarrow> num64 option" where
  "sql_bmi w h =
     (case (w, h) of
        (Fin a, Fin b) \<Rightarrow> if b = 0 then None else Some (Fin (a / (b * b)))
      | (Fin _, NaN) \<Rightarrow> None
      | (Fin _, _) \<Rightarrow> Some (Fin 0)
      | (NaN, _) \<Rightarrow> None
      | (_, Fin b) \<Rightarrow> if b = 0 then None else Some w
      | _ \<Rightarrow> None)"

definition real_value :: "num64 \<Rightarrow> num64 option" where
  "real_value n = (if n = NaN then None else Some n)"

definition insertBody :: "clock \<Rightarrow> num64 \<Rightarrow> num64 \<Rightarrow> (tra_db, unit) db_op" where
  "insertBody ck heightM weight db =
     (case (real_value heightM, real_value weight) of
        (None, _) \<Rightarrow> (Inl (NotNullViolation ''body_anthropometrics.height_m''), db)
      | (_, None) \<Rightarrow> (Inl (NotNullViolation ''body_anthropometrics.weight_kg''), db)
      | (Some h, Some w) \<Rightarrow>
          (Inr (), db\<lparr>db_body := db_body db @
             [\<lparr>bo_recorded_at = ck_iso ck, bo_height_m = h, bo_weight_kg = w, bo_bmi = sql_bmi w h,
               bo_source_id = ''PATIENT_SELF_REPORT'', bo_provenance = 1,
               bo_recorder = TRA_LOCAL_USER_ID\<rparr>]\<rparr>))"

definition insertHbA1c :: "clock \<Rightarrow> num64 \<Rightarrow> tra_db \<Rightarrow> tra_db" where
  "insertHbA1c ck hba1c db =
     db\<lparr>db_labs := db_labs db @
        [\<lparr>la_recorded_at = ck_iso ck, la_test_code = ''HbA1c'', la_test_value = real_value hba1c,
          la_unit = ''%'', la_low = Fin 4, la_high = Fin 6, la_status = ''HIGH'',
          la_source_id = ''PATIENT_SELF_REPORT'', la_provenance = 1\<rparr>]\<rparr>"

definition diagnosisFlags :: "init_request \<Rightarrow> (bool \<times> string \<times> string) list" where
  "diagnosisFlags r =
     [(ir_hasType2Diabetes r, ''E11'',
         utf8 [0x32, 0xE5, 0x9E, 0x8B, 0xE7, 0xB3, 0x96, 0xE5, 0xB0, 0xBF, 0xE7, 0x97, 0x85]),
      (ir_thyroidHistory r, ''C73'',
         utf8 [0xE7, 0x94, 0xB2, 0xE7, 0x8A, 0xB6, 0xE8, 0x85, 0xBA, 0xE9, 0xAB, 0x93, 0xE6, 0xA0,
           0xB7, 0xE7, 0x99, 0x8C]),
      (ir_pancreatitisHistory r, ''K85'',
         utf8 [0xE6, 0x80, 0xA5, 0xE6, 0x80, 0xA7, 0xE8, 0x83, 0xB0, 0xE8, 0x85, 0xBA, 0xE7, 0x82,
           0x8E]),
      (ir_isPregnantOrLactating r, ''Z34'',
         utf8 [0xE5, 0xA6, 0x8A, 0xE5, 0xA8, 0xA0, 0xE6, 0x88, 0x96, 0xE5, 0x93, 0xBA, 0xE4, 0xB9,
           0xB3, 0xE6, 0x9C, 0x9F]),
      (ir_cardiovascularRisk r, ''I51'',
         utf8 [0xE5, 0xBF, 0x83, 0xE8, 0xA1, 0x80, 0xE7, 0xAE, 0xA1, 0xE9, 0xAB, 0x98, 0xE5, 0x8D,
           0xB1, 0xE9, 0xA3, 0x8E, 0xE9, 0x99, 0xA9]),
      (ir_gastrointestinalSensitivity r, ''K92'',
         utf8 [0xE9, 0x87, 0x8D, 0xE5, 0xBA, 0xA6, 0xE8, 0x83, 0x83, 0xE8, 0x82, 0xA0, 0xE6, 0x95,
           0x8F, 0xE6, 0x84, 0x9F]),
      (ir_hasArteriosclerosis r, ''I70'',
         utf8 [0xE5, 0x8A, 0xA8, 0xE8, 0x84, 0x89, 0xE7, 0xA1, 0xAC, 0xE5, 0x8C, 0x96]),
      (ir_hasCoronaryHeartDisease r, ''I25'',
         utf8 [0xE5, 0x86, 0xA0, 0xE5, 0xBF, 0x83, 0xE7, 0x97, 0x85]),
      (ir_hasMyocardialInfarction r, ''I21'',
         utf8 [0xE5, 0xBF, 0x83, 0xE8, 0x82, 0x8C, 0xE6, 0xA2, 0x97, 0xE6, 0xAD, 0xBB]),
      (ir_hasStroke r, ''I63'',
         utf8 [0xE8, 0x84, 0x91, 0xE5, 0x8D, 0x92, 0xE4, 0xB8, 0xAD])]"

definition medicationFlags :: "init_request \<Rightarrow> (bool \<times> string \<times> string) list" where
  "medicationFlags r =
     [(ir_usedMetforminBadControl r,
         utf8 [0xE4, 0xBA, 0x8C, 0xE7, 0x94, 0xB2, 0xE5, 0x8F, 0x8C, 0xE8, 0x83, 0x8D], ''A10BA02''),
      (ir_usedSulfonylureaBadControl r,
         utf8 [0xE7, 0xA3, 0xBA, 0xE8, 0x84, 0xB2, 0xE7, 0xB1, 0xBB, 0xE5, 0x8F, 0xA3, 0xE6, 0x9C,
           0x8D, 0xE9, 0x99, 0x8D, 0xE7, 0xB3, 0x96, 0xE8, 0x8D, 0xAF], ''A10BB12''),
      (ir_usedInsulinBadControl r,
         utf8 [0xE8, 0x83, 0xB0, 0xE5, 0xB2, 0x9B, 0xE7, 0xB4, 0xA0], ''A10AB01'')]"

definition per_100 :: "num64 \<Rightarrow> num64" where
  "per_100 n = (case n of Fin q \<Rightarrow> Fin (q / 100) | _ \<Rightarrow> n)"

definition insert_flagged ::
  "(string \<Rightarrow> string \<Rightarrow> tra_db \<Rightarrow> tra_db) \<Rightarrow> (bool \<times> string \<times> string) list \<Rightarrow> nat \<times> tra_db \<Rightarrow> nat \<times> tra_db" where
  "insert_flagged ins flags st =
     fold (\<lambda>(enabled, a, b) (n, db). if enabled then (n + 1, ins a b db) else (n, db)) flags st"

definition applyTraInitRequest :: "clock \<Rightarrow> init_request \<Rightarrow> (tra_db, nat) db_op" where
  "applyTraInitRequest ck r =
     bind_op (update_op clearTraPersonalData) (\<lambda>_.
     bind_op (insertUser
       \<lparr>us_user_id = TRA_LOCAL_USER_ID,
        us_name = (case trim_opt (ir_patientName r) of Some n \<Rightarrow> n | None \<Rightarrow> DEFAULT_PATIENT_NAME),
        us_birth_date = birthDateFromAge ck (ir_age r),
        us_sex = (if ir_gender r = Female then 2 else 1), us_created_at = ck_stamp ck\<rparr>) (\<lambda>_.
     bind_op (insertBody ck (per_100 (ir_height r)) (ir_weight r)) (\<lambda>_ db0.
       let db1 = insertHbA1c ck (ir_hba1c r) db0;
           (n2, db2) = insert_flagged (insertDiagnosis ck) (diagnosisFlags r) (3, db1);
           (n3, db3) = insert_flagged (insertIneffectiveMedication ck) (medicationFlags r) (n2, db2)
       in (Inr (n3 + 1),
           upsertPrescriptionContext (resolvePrescriptionContextFromInit r) TRA_LOCAL_USER_ID db3))))"

record tra_result =
  tr_error :: "db_error option"
  tr_message :: string
  tr_db_file :: string
  tr_inserted :: nat

text \<open>The files with a database in them, by path; an absent file is an empty database.\<close>

type_synonym db_store = "string \<Rightarrow> tra_db"

definition on_file :: "string \<Rightarrow> (tra_db, 'a) db_op \<Rightarrow> (db_store, 'a) db_op" where
  "on_file p f s = (case f (s p) of (r, db) \<Rightarrow> (r, s(p := db)))"

definition tra_outcome :: "string \<Rightarrow> string \<Rightarrow> (db_error + nat) \<times> db_store \<Rightarrow> tra_result \<times> db_store" where
  "tra_outcome message dbPath out =
     (case out of
        (Inl e, s) \<Rightarrow> (\<lparr>tr_error = Some e, tr_message = [], tr_db_file = dbPath, tr_inserted = 0\<rparr>, s)
      | (Inr n, s) \<Rightarrow>
          (\<lparr>tr_error = None, tr_message = message, tr_db_file = dbPath, tr_inserted = n\<rparr>, s))"

definition initializeTra ::
  "db_seeds \<Rightarrow> clock \<Rightarrow> host \<Rightarrow> init_request \<Rightarrow> path_overrides \<Rightarrow> db_store \<Rightarrow> tra_result \<times> db_store" where
  "initializeTra sd ck h r ov s =
     (let dbPath = resolveTraDbPath ov h in
      tra_outcome ''Trust runtime initialized successfully.'' dbPath
        (on_file dbPath (bind_op (bootstrapTraDatabase sd ck) (\<lambda>_. applyTraInitRequest ck r)) s))"

definition resetTra ::
  "db_seeds \<Rightarrow> clock \<Rightarrow> host \<Rightarrow> path_overrides \<Rightarrow> db_store \<Rightarrow> tra_result \<times> db_store" where
  "resetTra sd ck h ov s =
     (let dbPath = resolveTraDbPath ov h in
      tra_outcome ''Trust runtime personal data cleared.'' dbPath
        (on_file dbPath (bind_op (bootstrapTraDatabase sd ck) (\<lambda>_.
           bind_op (update_op clearTraPersonalData) (\<lambda>_. return_op 0))) s))"

subsection \<open>Reading\<close>

definition flag :: "bool \<Rightarrow> jval" where
  "flag b = JInt (if b then 1 else 0)"

definition has_active :: "tra_db \<Rightarrow> string list \<Rightarrow> bool" where
  "has_active db codes = list_ex (\<lambda>d. dg_icd10 d \<in> set codes \<and> dg_is_active d = 1) (db_diagnoses db)"

definition failed_drug :: "tra_db \<Rightarrow> (string \<Rightarrow> bool) \<Rightarrow> bool" where
  "failed_drug db code = list_ex (\<lambda>m. code (md_atc m) \<and> md_reason m = Some ''INEFFECTIVE'') (db_medications db)"

definition prior_therapy :: "tra_db \<Rightarrow> int" where
  "prior_therapy db =
     (let metformin = failed_drug db (\<lambda>a. a = ''A10BA02'');
          sulfonylurea = failed_drug db (\<lambda>a. starts_with (to_upper a) ''A10BB'')
      in if metformin \<and> sulfonylurea then 3 else if metformin then 1 else if sulfonylurea then 2 else 0)"

definition null_num :: "num64 option \<Rightarrow> jval" where
  "null_num v = (case v of None \<Rightarrow> JNull | Some n \<Rightarrow> JNum n)"

definition hospital_hba1c :: "tra_db \<Rightarrow> jval" where
  "hospital_hba1c db =
     (case rev (sort_key la_recorded_at
          (filter (\<lambda>l. la_test_code l = ''HbA1c'' \<and> la_provenance l = 3) (db_labs db))) of
        [] \<Rightarrow> JNull | l # _ \<Rightarrow> null_num (la_test_value l))"

text \<open>A row of the view \<open>v_glp1_nrdl_check_snapshot\<close>.\<close>

definition snapshot_row :: "tra_db \<Rightarrow> user_row \<Rightarrow> jval obj" where
  "snapshot_row db u =
     [(''user_id'', JStr (us_user_id u)), (''name'', JStr (us_name u)),
      (''has_t2dm'', flag (has_active db [''E11''])),
      (''prior_oral_therapy_status'', JInt (prior_therapy db)),
      (''latest_hospital_hba1c'', hospital_hba1c db),
      (''has_cardiovascular_comorbidity'', flag (has_active db [''I25'', ''I21'', ''I63''])),
      (''has_absolute_contraindication'', flag (has_active db [''C73'', ''K85'']))]"

definition find_user :: "tra_db \<Rightarrow> string \<Rightarrow> user_row option" where
  "find_user db uid = find (\<lambda>u. us_user_id u = uid) (db_users db)"

definition snapshot_of :: "tra_db \<Rightarrow> jval obj option" where
  "snapshot_of db =
     (case resolvePrimaryUserId db of
        None \<Rightarrow> None
      | Some uid \<Rightarrow> if uid = [] then None else map_option (snapshot_row db) (find_user db uid))"

definition readGlp1CheckSnapshot :: "db_seeds \<Rightarrow> clock \<Rightarrow> (tra_db, jval obj option) db_op" where
  "readGlp1CheckSnapshot sd ck =
     bind_op (bootstrapTraDatabase sd ck) (\<lambda>_ db. (Inr (snapshot_of db), db))"

type_synonym sql_query = "string \<Rightarrow> tra_db \<Rightarrow> db_error + (string list \<times> sql_row list)"

record query_result =
  qr_columns :: "string list"
  qr_rows :: "sql_row list"
  qr_row_count :: nat

definition executeTraSelect :: "sql_query \<Rightarrow> tra_db \<Rightarrow> string \<Rightarrow> db_error + query_result" where
  "executeTraSelect query db sql =
     (case assertReadOnlySelectSql sql of
        Inl e \<Rightarrow> Inl (QueryRefused e)
      | Inr safeSql \<Rightarrow>
          (case query safeSql db of
             Inl e \<Rightarrow> Inl e
           | Inr (columns, rows) \<Rightarrow>
               Inr \<lparr>qr_columns = columns, qr_rows = rows, qr_row_count = length rows\<rparr>))"

definition queryTra :: "sql_query \<Rightarrow> db_seeds \<Rightarrow> clock \<Rightarrow> string \<Rightarrow> (tra_db, query_result) db_op" where
  "queryTra query sd ck sql =
     bind_op (bootstrapTraDatabase sd ck) (\<lambda>_ db. (executeTraSelect query db sql, db))"

text \<open>The tables the schema scripts create, the other tables and the registry's.\<close>

definition SCHEMA_NAMES :: "string list" where
  "SCHEMA_NAMES =
     [''data_source_registry'', ''nrdl_drug_registry'', ''nrdl_payment_rules'', ''user_profile'',
      ''clinical_diagnoses'', ''medication_history'', ''lab_test_results'', ''body_anthropometrics'',
      ''prescription_context'', ''medication_compliance_standards'',
      ''medication_compliance_ast_rules'', ''nrdl_reference_sync_state'',
      ''v_glp1_nrdl_check_snapshot'']"

definition listTraTables :: "db_seeds \<Rightarrow> clock \<Rightarrow> (tra_db, string list) db_op" where
  "listTraTables sd ck =
     bind_op (bootstrapTraDatabase sd ck) (\<lambda>_ db.
       (Inr (sort (SCHEMA_NAMES @ map fst (db_streams db) @
                (if dm_agents (db_domain db) = None then [] else [''domain_agents'']) @
                (if dm_packs (db_domain db) = None then [] else [''domain_agent_packs'']))), db))"

subsection \<open>The context of the compliance trees\<close>

definition ageFromBirthDate :: "clock \<Rightarrow> string \<Rightarrow> int" where
  "ageFromBirthDate ck birthDate =
     (case parse_int (take 4 birthDate) of None \<Rightarrow> 0 | Some y \<Rightarrow> max 0 (ck_year ck - y))"

definition prescription_json :: "prescription_row \<Rightarrow> jval" where
  "prescription_json p = JObj
     [(''is_first_prescription'', JInt (px_first p)), (''institution_level'', JInt (px_level p)),
      (''is_specialist_physician'', JInt (px_specialist p))]"

definition or_zero :: "num64 option \<Rightarrow> num64" where
  "or_zero v = (case v of None \<Rightarrow> Fin 0 | Some n \<Rightarrow> n)"

definition latest_bmi :: "tra_db \<Rightarrow> num64 option" where
  "latest_bmi db = (if db_body db = [] then None else bo_bmi (last (db_body db)))"

definition latest_hba1c :: "tra_db \<Rightarrow> num64 option" where
  "latest_hba1c db =
     (let ls = filter (\<lambda>l. la_test_code l = ''HbA1c'') (db_labs db)
      in if ls = [] then None else la_test_value (last ls))"

definition icd10_map :: "diagnosis_row list \<Rightarrow> jval obj" where
  "icd10_map ds =
     fold (\<lambda>d m. obj_set m (dg_icd10 d) (JObj [(''is_active'', JInt (dg_is_active d))])) ds []"

definition CARDIO_CODES :: "string list" where
  "CARDIO_CODES = [''I25'', ''I21'', ''I63'', ''I70'', ''I51'']"

definition med_json :: "medication_row \<Rightarrow> jval" where
  "med_json m = JObj [(''termination_reason'', nullable_str (md_reason m)), (''is_used'', JInt 1)]"

definition set_if_absent :: "jval obj \<Rightarrow> string \<Rightarrow> jval \<Rightarrow> jval obj" where
  "set_if_absent m k v = (if obj_get m k = None then obj_set m k v else m)"

definition atc_step :: "medication_row \<Rightarrow> jval obj \<Rightarrow> jval obj" where
  "atc_step r m =
     set_if_absent
       (set_if_absent (obj_set m (md_atc r) (med_json r)) (take 4 (md_atc r)) (med_json r))
       (take 3 (md_atc r)) (med_json r)"

definition buildComplianceEvalContext :: "clock \<Rightarrow> tra_db \<Rightarrow> jval obj" where
  "buildComplianceEvalContext ck db =
     (case resolvePrimaryUserId db of
        None \<Rightarrow> [(''prescription_context'', prescription_json PRESCRIPTION_CONTEXT_INIT_DEFAULTS)]
      | Some uid \<Rightarrow>
          if uid = [] then [(''prescription_context'', prescription_json PRESCRIPTION_CONTEXT_INIT_DEFAULTS)]
          else
            [(''user_profile'', JObj [(''age'', JInt (case find_user db uid of None \<Rightarrow> 0
                | Some u \<Rightarrow> ageFromBirthDate ck (us_birth_date u)))]),
             (''body_measurement'', JObj [(''latest'', JObj [(''bmi'', JNum (or_zero (latest_bmi db)))])]),
             (''clinical_diagnoses'', JObj
               [(''icd10'', JObj (icd10_map (db_diagnoses db))),
                (''icd10_group'', JObj [(''CARDIO_COMORBIDITY'',
                   JObj [(''is_active'', flag (has_active db CARDIO_CODES))])])]),
             (''medication_history'', JObj [(''atc_code'', JObj (fold atc_step (db_medications db) []))]),
             (''lab_test_results'', JObj [(''latest'', JObj [(''HbA1c'',
                JObj [(''test_value'', JNum (or_zero (latest_hba1c db)))])])]),
             (''prescription_context'', prescription_json (readPrescriptionContext db uid))])"

subsection \<open>Evaluation on the database\<close>

definition getActiveComplianceStandard :: "tra_db \<Rightarrow> standard_row option" where
  "getActiveComplianceStandard db =
     (case rev (sort_key st_imported_at (filter st_is_active (db_standards db))) of
        [] \<Rightarrow> None | s # _ \<Rightarrow> Some s)"

definition listComplianceStandards :: "tra_db \<Rightarrow> standard_row list" where
  "listComplianceStandards db = rev (sort_key st_imported_at (db_standards db))"

text \<open>An empty drug id, like an absent one, does not restrict the rules.\<close>

definition loadComplianceAstRules :: "tra_db \<Rightarrow> string \<Rightarrow> string option \<Rightarrow> ast_rule list" where
  "loadComplianceAstRules db standardId drugId =
     (if opt_truthy drugId
      then sort_key ar_rule_id
        (filter (\<lambda>r. ar_standard_id r = standardId \<and> Some (ar_drug_id r) = drugId) (db_ast db))
      else sort_key ar_drug_id (sort_key ar_rule_id
        (filter (\<lambda>r. ar_standard_id r = standardId) (db_ast db))))"

definition loadNrdlPaymentRules :: "tra_db \<Rightarrow> string \<Rightarrow> payment_rule list" where
  "loadNrdlPaymentRules db drugId = sort_key pr_rule_id (filter (\<lambda>r. pr_drug_id r = drugId) (db_payment db))"

definition evaluateComplianceAstRulesFromDb ::
  "(string \<Rightarrow> ast_node option) \<Rightarrow> clock \<Rightarrow> tra_db \<Rightarrow> string \<Rightarrow> string \<Rightarrow> jval obj option \<Rightarrow>
     db_error + rule_result option" where
  "evaluateComplianceAstRulesFromDb parse_ast ck db standardId drugId snapshot =
     (let rules = loadComplianceAstRules db standardId (Some drugId) in
      if rules = [] then Inr None
      else (case evaluateComplianceAstRules parse_ast rules (buildComplianceEvalContext ck db)
                   standardId drugId snapshot of
              None \<Rightarrow> Inl InvalidRuleJson | Some r \<Rightarrow> Inr (Some r)))"

definition evaluate_db ::
  "(string \<Rightarrow> ast_node option) \<Rightarrow> clock \<Rightarrow> string \<Rightarrow> jval obj option \<Rightarrow> tra_db \<Rightarrow> db_error + rule_result" where
  "evaluate_db parse_ast ck drugId snapshot db =
     (let flat = evaluateGlp1Rules snapshot (loadNrdlPaymentRules db drugId) (Some drugId) None in
      case getActiveComplianceStandard db of
        None \<Rightarrow> Inr flat
      | Some active \<Rightarrow>
          (case evaluateComplianceAstRulesFromDb parse_ast ck db (st_standard_id active)
                  (if drugId = DEFAULT_FLAT_DRUG_ID then DEFAULT_AST_DRUG_ID else drugId) snapshot of
             Inl e \<Rightarrow> Inl e
           | Inr (Some r) \<Rightarrow> Inr r
           | Inr None \<Rightarrow> Inr flat))"

definition evaluateGlp1RulesFromDb ::
  "(string \<Rightarrow> ast_node option) \<Rightarrow> db_seeds \<Rightarrow> clock \<Rightarrow> string \<Rightarrow> (tra_db, rule_result) db_op" where
  "evaluateGlp1RulesFromDb parse_ast sd ck drugId =
     bind_op (bootstrapTraDatabase sd ck) (\<lambda>_.
       bind_op (readGlp1CheckSnapshot sd ck) (\<lambda>snapshot db.
         (evaluate_db parse_ast ck drugId snapshot db, db)))"

subsection \<open>The profile a consent prompt shows\<close>

record profile_summary =
  pf_mounted :: bool
  pf_patient_name :: string
  pf_gender :: gender
  pf_age_years :: int
  pf_weight_kg :: num64
  pf_height_cm :: num64
  pf_bmi :: num64
  pf_hba1c :: num64
  pf_diagnoses :: "(string \<times> string) list"
  pf_medications :: "(string \<times> string option) list"
  pf_snapshot :: "jval obj option"
  pf_fields :: "string list"
  pf_notes :: "string list"

definition above :: "num64 \<Rightarrow> rat \<Rightarrow> bool" where
  "above n q = (case n of Fin a \<Rightarrow> q < a | PosInf \<Rightarrow> True | _ \<Rightarrow> False)"

definition at_least :: "num64 \<Rightarrow> rat \<Rightarrow> bool" where
  "at_least n q = (case n of Fin a \<Rightarrow> q \<le> a | PosInf \<Rightarrow> True | _ \<Rightarrow> False)"

text \<open>\<open>Math.round(h * 1000) / 10\<close> for a positive height, and \<open>x.toFixed(1)\<close> for \<open>x \<ge> 0\<close>.\<close>

definition height_cm :: "num64 \<Rightarrow> num64" where
  "height_cm h = (case h of
     Fin q \<Rightarrow> Fin (if 0 < q then of_int \<lfloor>q * 1000 + 1 / 2\<rfloor> / 10 else 0)
   | PosInf \<Rightarrow> PosInf | _ \<Rightarrow> Fin 0)"

definition to_fixed_1 :: "num64 \<Rightarrow> string" where
  "to_fixed_1 n = (case n of
     Fin q \<Rightarrow> (if 10 ^ 21 \<le> q then num_to_string n
               else let t = nat \<lfloor>10 * q + 1 / 2\<rfloor> in show_nat (t div 10) @ ''.'' @ show_nat (t mod 10))
   | _ \<Rightarrow> num_to_string n)"

definition profile_fields :: "bool \<Rightarrow> bool \<Rightarrow> string list" where
  "profile_fields diagnoses medications =
     [''patient_name'', ''age'', ''gender'', ''weight_kg'', ''height_cm'', ''bmi'', ''hba1c''] @
     (if diagnoses then [''clinical_diagnoses''] else []) @
     (if medications then [''medication_history''] else []) @ [''glp1_eligibility_snapshot'']"

definition analysis_notes :: "string \<Rightarrow> num64 \<Rightarrow> num64 \<Rightarrow> bool \<Rightarrow> bool \<Rightarrow> string list" where
  "analysis_notes name hba1c bmi t2dm ineffective =
     (if name = [] then [] else [''Profile loaded for '' @ name @ ''.'']) @
     (if above hba1c (13 / 2) then [''HbA1c '' @ num_to_string hba1c @ ''% is above typical reference range.''] else []) @
     (if at_least bmi 28 then [''BMI '' @ to_fixed_1 bmi @ '' suggests overweight range.''] else []) @
     (if t2dm then [''Type 2 diabetes diagnosis is on file.''] else []) @
     (if ineffective then [''Prior oral therapy with inadequate control is recorded.''] else [])"

definition readProfileFromDb :: "clock \<Rightarrow> tra_db \<Rightarrow> profile_summary option" where
  "readProfileFromDb ck db =
     (case resolvePrimaryUserId db of
        None \<Rightarrow> None
      | Some uid \<Rightarrow>
          (case (if uid = [] then None else find_user db uid) of
             None \<Rightarrow> None
           | Some u \<Rightarrow>
               let active = filter (\<lambda>d. dg_is_active d = 1) (db_diagnoses db);
                   meds = db_medications db;
                   heightM = (if db_body db = [] then Fin 0 else bo_height_m (last (db_body db)));
                   weightKg = (if db_body db = [] then Fin 0 else bo_weight_kg (last (db_body db)));
                   bmi = or_zero (latest_bmi db);
                   hba1c = or_zero (latest_hba1c db)
               in Some \<lparr>pf_mounted = True, pf_patient_name = us_name u,
                    pf_gender = (if us_sex u = 2 then Female else Male),
                    pf_age_years = ageFromBirthDate ck (us_birth_date u),
                    pf_weight_kg = weightKg, pf_height_cm = height_cm heightM, pf_bmi = bmi,
                    pf_hba1c = hba1c,
                    pf_diagnoses = map (\<lambda>d. (dg_icd10 d, dg_name d)) active,
                    pf_medications = map (\<lambda>m. (md_drug m, md_reason m)) meds, pf_snapshot = None,
                    pf_fields = profile_fields (active \<noteq> []) (meds \<noteq> []),
                    pf_notes = analysis_notes (us_name u) hba1c bmi
                      (list_ex (\<lambda>d. dg_icd10 d = ''E11'') active)
                      (list_ex (\<lambda>m. md_reason m = Some ''INEFFECTIVE'') meds)\<rparr>))"

definition unmounted_profile :: profile_summary where
  "unmounted_profile =
     \<lparr>pf_mounted = False, pf_patient_name = [], pf_gender = Male, pf_age_years = 0,
      pf_weight_kg = Fin 0, pf_height_cm = Fin 0, pf_bmi = Fin 0, pf_hba1c = Fin 0,
      pf_diagnoses = [], pf_medications = [], pf_snapshot = None, pf_fields = [], pf_notes = []\<rparr>"

definition buildTraHealthProfileSummary ::
  "db_seeds \<Rightarrow> clock \<Rightarrow> (tra_db, profile_summary) db_op" where
  "buildTraHealthProfileSummary sd ck =
     bind_op (bootstrapTraDatabase sd ck) (\<lambda>_ db.
       case readProfileFromDb ck db of
         None \<Rightarrow> (Inr unmounted_profile, db)
       | Some p \<Rightarrow> bind_op (readGlp1CheckSnapshot sd ck)
           (\<lambda>snapshot. return_op (p\<lparr>pf_snapshot := snapshot\<rparr>)) db)"

subsection \<open>What an initialisation leaves\<close>

definition enabled_rows :: "(bool \<times> string \<times> string) list \<Rightarrow> (string \<times> string) list" where
  "enabled_rows flags = map snd (filter fst flags)"

definition reported_diagnosis :: "clock \<Rightarrow> string \<times> string \<Rightarrow> diagnosis_row" where
  "reported_diagnosis ck d =
     \<lparr>dg_icd10 = fst d, dg_name = snd d, dg_diagnosed_at = ck_date ck,
      dg_source_id = ''PATIENT_SELF_REPORT'', dg_is_active = 1, dg_provenance = 1\<rparr>"

definition reported_medication :: "clock \<Rightarrow> string \<times> string \<Rightarrow> medication_row" where
  "reported_medication ck m =
     \<lparr>md_drug = fst m, md_atc = snd m, md_start = ck_date_180 ck, md_end = Some (ck_date ck),
      md_reason = Some ''INEFFECTIVE'', md_source_id = ''PATIENT_SELF_REPORT'', md_provenance = 1\<rparr>"

lemma insert_flagged_eq:
  "insert_flagged ins flags (n, db) =
     (n + length (enabled_rows flags), fold (\<lambda>(a, b). ins a b) (enabled_rows flags) db)"
  unfolding insert_flagged_def enabled_rows_def
  by (induction flags arbitrary: n db) auto

lemma fold_insertDiagnosis:
  "fold (\<lambda>(a, b). insertDiagnosis ck a b) ds db =
     db\<lparr>db_diagnoses := db_diagnoses db @ map (reported_diagnosis ck) ds\<rparr>"
  by (induction ds arbitrary: db) (auto simp: insertDiagnosis_def reported_diagnosis_def)

lemma fold_insertMedication:
  "fold (\<lambda>(a, b). insertIneffectiveMedication ck a b) ms db =
     db\<lparr>db_medications := db_medications db @ map (reported_medication ck) ms\<rparr>"
  by (induction ms arbitrary: db) (auto simp: insertIneffectiveMedication_def reported_medication_def)

text \<open>The rows of a request, and the database with exactly these in the personal tables.\<close>

definition request_user :: "clock \<Rightarrow> init_request \<Rightarrow> user_row" where
  "request_user ck r =
     \<lparr>us_user_id = TRA_LOCAL_USER_ID,
      us_name = (case trim_opt (ir_patientName r) of Some n \<Rightarrow> n | None \<Rightarrow> DEFAULT_PATIENT_NAME),
      us_birth_date = birthDateFromAge ck (ir_age r),
      us_sex = (if ir_gender r = Female then 2 else 1), us_created_at = ck_stamp ck\<rparr>"

definition request_body :: "clock \<Rightarrow> init_request \<Rightarrow> body_row" where
  "request_body ck r =
     \<lparr>bo_recorded_at = ck_iso ck, bo_height_m = per_100 (ir_height r), bo_weight_kg = ir_weight r,
      bo_bmi = sql_bmi (ir_weight r) (per_100 (ir_height r)),
      bo_source_id = ''PATIENT_SELF_REPORT'', bo_provenance = 1, bo_recorder = TRA_LOCAL_USER_ID\<rparr>"

definition request_lab :: "clock \<Rightarrow> init_request \<Rightarrow> lab_row" where
  "request_lab ck r =
     \<lparr>la_recorded_at = ck_iso ck, la_test_code = ''HbA1c'', la_test_value = real_value (ir_hba1c r),
      la_unit = ''%'', la_low = Fin 4, la_high = Fin 6, la_status = ''HIGH'',
      la_source_id = ''PATIENT_SELF_REPORT'', la_provenance = 1\<rparr>"

definition with_request :: "clock \<Rightarrow> init_request \<Rightarrow> tra_db \<Rightarrow> tra_db" where
  "with_request ck r db =
     db\<lparr>db_users := filter (\<lambda>u. us_user_id u \<noteq> TRA_LOCAL_USER_ID) (db_users db) @ [request_user ck r],
        db_body := [request_body ck r], db_labs := [request_lab ck r],
        db_diagnoses := map (reported_diagnosis ck) (enabled_rows (diagnosisFlags r)),
        db_medications := map (reported_medication ck) (enabled_rows (medicationFlags r)),
        db_prescription := obj_set (obj_del (db_prescription db) TRA_LOCAL_USER_ID) TRA_LOCAL_USER_ID
          (resolvePrescriptionContextFromInit r)\<rparr>"

definition request_count :: "init_request \<Rightarrow> nat" where
  "request_count r =
     4 + length (enabled_rows (diagnosisFlags r)) + length (enabled_rows (medicationFlags r))"

lemma per_100_NaN [simp]: "per_100 n = NaN \<longleftrightarrow> n = NaN"
  by (cases n) (auto simp: per_100_def)

lemma apply_init:
  assumes "ir_height r \<noteq> NaN" and "ir_weight r \<noteq> NaN"
  shows "applyTraInitRequest ck r db = (Inr (request_count r), with_request ck r db)"
  using assms
  by (simp add: applyTraInitRequest_def bind_op_def update_op_def clearTraPersonalData_def
      insertUser_def insertBody_def real_value_def insert_flagged_eq fold_insertDiagnosis
      fold_insertMedication insertHbA1c_def upsertPrescriptionContext_def with_request_def
      request_user_def request_body_def request_lab_def request_count_def Let_def image_iff) metis

lemma obj_del_set: "obj_del (obj_set m k v) k = obj_del m k"
  by (induction m k v rule: obj_set.induct) (auto simp: obj_del_def)

lemma obj_del_twice: "obj_del (obj_del m k) k = obj_del m k"
  by (simp add: obj_del_def)

lemma apply_init_Inr:
  assumes "applyTraInitRequest ck r db = (Inr n, db')"
  shows "n = request_count r \<and> db' = with_request ck r db"
proof -
  have "ir_height r \<noteq> NaN \<and> ir_weight r \<noteq> NaN"
    using assms by (auto simp: applyTraInitRequest_def bind_op_def update_op_def insertBody_def
        real_value_def insertUser_def clearTraPersonalData_def split: if_splits prod.splits)
  then show ?thesis using apply_init [of r ck db] assms by simp
qed

text \<open>
  An initialisation with a height and a weight succeeds and replaces the personal rows:
  afterwards they are exactly the rows of the request, one profile, one measurement, one
  laboratory value and one row for each condition and each drug the request reports, in the
  order of the code; the count returned is their number with the prescription context; rows
  of other users, reference data, standards, the agent registry and all other tables stay.
\<close>

theorem init_replaces_personal_rows:
  assumes "ir_height r \<noteq> NaN" and "ir_weight r \<noteq> NaN"
  shows "\<exists>db'. applyTraInitRequest ck r db = (Inr (request_count r), db') \<and>
     db_body db' = [request_body ck r] \<and> db_labs db' = [request_lab ck r] \<and>
     map dg_icd10 (db_diagnoses db') = map fst (enabled_rows (diagnosisFlags r)) \<and>
     map md_atc (db_medications db') = map snd (enabled_rows (medicationFlags r)) \<and>
     filter (\<lambda>u. us_user_id u = TRA_LOCAL_USER_ID) (db_users db') = [request_user ck r] \<and>
     filter (\<lambda>u. us_user_id u \<noteq> TRA_LOCAL_USER_ID) (db_users db') =
       filter (\<lambda>u. us_user_id u \<noteq> TRA_LOCAL_USER_ID) (db_users db) \<and>
     readPrescriptionContext db' TRA_LOCAL_USER_ID = resolvePrescriptionContextFromInit r \<and>
     clearTraPersonalData db' = clearTraPersonalData db"
  using apply_init [OF assms, of ck db]
  by (simp add: with_request_def request_user_def reported_diagnosis_def reported_medication_def comp_def
      readPrescriptionContext_def clearTraPersonalData_def obj_del_set obj_del_twice obj_get_set)

subsection \<open>What the rules see of it\<close>

lemma enabled_code: "(\<exists>d\<in>set (enabled_rows (diagnosisFlags r)). fst d = c) \<longleftrightarrow>
   (\<exists>(b, k, l)\<in>set (diagnosisFlags r). b \<and> k = c)"
  by (force simp: enabled_rows_def)

lemma has_active_request:
  "has_active (with_request ck r db) codes \<longleftrightarrow>
     (\<exists>(b, k, l)\<in>set (diagnosisFlags r). b \<and> k \<in> set codes)"
  by (force simp: has_active_def with_request_def list_ex_iff reported_diagnosis_def enabled_rows_def)

lemma failed_drug_request:
  "failed_drug (with_request ck r db) code \<longleftrightarrow>
     (\<exists>(b, l, k)\<in>set (medicationFlags r). b \<and> code k)"
  by (force simp: failed_drug_def with_request_def list_ex_iff reported_medication_def enabled_rows_def)

lemma hospital_request: "hospital_hba1c (with_request ck r db) = JNull"
  by (simp add: hospital_hba1c_def with_request_def request_lab_def)

lemma users_request:
  assumes "\<forall>u\<in>set (db_users db). us_user_id u = TRA_LOCAL_USER_ID"
  shows "db_users (with_request ck r db) = [request_user ck r]"
  using assms by (simp add: with_request_def)

text \<open>
  The check snapshot after an initialisation of a single-user database says what the
  request said: diabetes and the contraindications as reported, the step of oral therapy
  from metformin and sulfonylurea (insulin does not count), cardiovascular disease from
  coronary disease, infarction and stroke (arteriosclerosis does not count), and no hospital
  HbA1c, whatever value the request gave.
\<close>

theorem snapshot_after_init:
  assumes "applyTraInitRequest ck r db = (Inr n, db')"
    and "\<forall>u\<in>set (db_users db). us_user_id u = TRA_LOCAL_USER_ID"
  shows "snapshot_of db' = Some
     [(''user_id'', JStr TRA_LOCAL_USER_ID),
      (''name'', JStr (case trim_opt (ir_patientName r) of Some s \<Rightarrow> s | None \<Rightarrow> DEFAULT_PATIENT_NAME)),
      (''has_t2dm'', flag (ir_hasType2Diabetes r)),
      (''prior_oral_therapy_status'',
         JInt (if ir_usedMetforminBadControl r \<and> ir_usedSulfonylureaBadControl r then 3
               else if ir_usedMetforminBadControl r then 1
               else if ir_usedSulfonylureaBadControl r then 2 else 0)),
      (''latest_hospital_hba1c'', JNull),
      (''has_cardiovascular_comorbidity'',
         flag (ir_hasCoronaryHeartDisease r \<or> ir_hasMyocardialInfarction r \<or> ir_hasStroke r)),
      (''has_absolute_contraindication'', flag (ir_thyroidHistory r \<or> ir_pancreatitisHistory r))]"
proof -
  have db': "db' = with_request ck r db"
    using apply_init_Inr [OF assms(1)] by simp
  have u: "resolvePrimaryUserId db' = Some TRA_LOCAL_USER_ID"
    "find_user db' TRA_LOCAL_USER_ID = Some (request_user ck r)"
    using users_request [OF assms(2), of ck r]
    by (simp_all add: db' resolvePrimaryUserId_def find_user_def request_user_def)
  show ?thesis
    using u unfolding snapshot_of_def snapshot_row_def prior_therapy_def
    by (simp add: db' has_active_request failed_drug_request hospital_request request_user_def
        TRA_LOCAL_USER_ID_def diagnosisFlags_def medicationFlags_def Let_def starts_with_def
        to_upper_def upper_char_def chr_in_def)
qed

lemma active_with_request:
  "getActiveComplianceStandard (with_request ck r db) = getActiveComplianceStandard db"
  by (simp add: getActiveComplianceStandard_def with_request_def)

lemma payment_with_request:
  "loadNrdlPaymentRules (with_request ck r db) d = loadNrdlPaymentRules db d"
  by (simp add: loadNrdlPaymentRules_def with_request_def)

lemma snapshot_hospital:
  assumes "hospital_hba1c db = JNull"
  shows "snapshotValueForKey (case snapshot_of db of Some s \<Rightarrow> s | None \<Rightarrow> []) ''latest_hospital_hba1c'' = JNull"
  using assms
  by (auto simp: snapshotValueForKey_def snapshot_of_def snapshot_row_def obj_get_def split: option.splits)

text \<open>
  After an initialisation the flat rules can never pass for a drug that has a rule on
  the hospital HbA1c, as the bundled semaglutide rules have: the value entered is stored as
  self-reported, the rule finds none and fails, for every patient and every value.
\<close>

theorem hospital_rule_fails_after_init:
  assumes "applyTraInitRequest ck r db = (Inr n, db')"
    and "getActiveComplianceStandard db = None"
    and "q \<in> set (db_payment db)" and "pr_drug_id q = drugId"
    and "pr_target_key q = ''latest_hospital_hba1c''" and "trim (pr_operator q) \<noteq> ''NOT_IN''"
  shows "\<exists>res. evaluate_db parse_ast now drugId (snapshot_of db') db' = Inr res \<and>
     rm_overall (rr_matrix res) = FAIL"
proof -
  have db': "db' = with_request ck r db"
    using apply_init_Inr [OF assms(1)] by simp
  let ?snap = "case snapshot_of db' of Some s \<Rightarrow> s | None \<Rightarrow> []"
  have "snapshotValueForKey ?snap (pr_target_key q) = JNull"
    using snapshot_hospital [of db'] hospital_request [of ck r db] assms(5) by (simp add: db')
  then have "re_status (flat_entry ?snap q) = FAIL"
    using assms(6) by (simp add: flat_entry_def compareRule_def parseNumeric_def nullish_def Let_def
        split: option.split)
  moreover have "q \<in> set (filter (\<lambda>x. pr_drug_id x = drugId) (loadNrdlPaymentRules db drugId))"
    using assms(3,4) by (simp add: loadNrdlPaymentRules_def)
  ultimately have "overall_of (map (flat_entry ?snap)
      (filter (\<lambda>x. pr_drug_id x = drugId) (loadNrdlPaymentRules db drugId))) = FAIL"
    by (fastforce simp: overall_of_def verdict_of_def list_all_iff)
  then show ?thesis
    using assms(2) by (simp add: evaluate_db_def db' active_with_request payment_with_request
        evaluateGlp1Rules_def Let_def)
qed

subsection \<open>A concrete patient\<close>

definition demo_clock :: clock where
  "demo_clock = \<lparr>ck_iso = ''2026-07-05T00:00:00.000Z'', ck_stamp = ''2026-07-05 00:00:00'',
     ck_date = ''2026-07-05'', ck_date_180 = ''2026-01-06'', ck_year = 2026\<rparr>"

definition demo_request :: init_request where
  "demo_request =
     \<lparr>ir_patientName = None, ir_gender = Male, ir_age = Fin 45, ir_weight = Fin 82,
      ir_height = Fin 170, ir_hba1c = Fin (34 / 5), ir_isPregnantOrLactating = False,
      ir_hasType2Diabetes = True, ir_thyroidHistory = False, ir_pancreatitisHistory = False,
      ir_cardiovascularRisk = False, ir_gastrointestinalSensitivity = False,
      ir_hasArteriosclerosis = False, ir_hasCoronaryHeartDisease = False,
      ir_hasMyocardialInfarction = False, ir_hasStroke = False,
      ir_usedMetforminBadControl = True, ir_usedSulfonylureaBadControl = False,
      ir_usedInsulinBadControl = False, ir_isFirstPrescription = None,
      ir_institutionLevel = None, ir_isSpecialistPhysician = None\<rparr>"

definition empty_db :: tra_db where
  "empty_db =
     \<lparr>db_users = [], db_body = [], db_labs = [], db_diagnoses = [], db_medications = [],
      db_prescription = [], db_drugs = [], db_payment = [], db_standards = [], db_ast = [],
      db_sync = None, db_sources = [], db_domain = no_tables, db_streams = []\<rparr>"

definition seeded_db :: tra_db where
  "seeded_db = seedNrdlGlp1RulesIfEmpty empty_db"

lemma demo_applies:
  "applyTraInitRequest demo_clock demo_request db =
     (Inr (request_count demo_request), with_request demo_clock demo_request db)"
  by (rule apply_init) (simp_all add: demo_request_def)

lemma init_replaces_personal_rows_witness:
  "\<exists>db'. applyTraInitRequest demo_clock demo_request empty_db = (Inr 6, db') \<and>
     map dg_icd10 (db_diagnoses db') = [''E11''] \<and> map md_atc (db_medications db') = [''A10BA02'']"
proof -
  have "request_count demo_request = 6"
    by (simp add: request_count_def enabled_rows_def diagnosisFlags_def medicationFlags_def demo_request_def)
  moreover have "map fst (enabled_rows (diagnosisFlags demo_request)) = [''E11'']"
    "map snd (enabled_rows (medicationFlags demo_request)) = [''A10BA02'']"
    by (simp_all add: enabled_rows_def diagnosisFlags_def medicationFlags_def demo_request_def)
  ultimately show ?thesis
    using init_replaces_personal_rows [of demo_request demo_clock empty_db]
    by (force simp: demo_request_def)
qed

lemma snapshot_after_init_witness:
  "snapshot_of (with_request demo_clock demo_request empty_db) = Some
     [(''user_id'', JStr ''local_user''), (''name'', JStr DEFAULT_PATIENT_NAME), (''has_t2dm'', JInt 1),
      (''prior_oral_therapy_status'', JInt 1), (''latest_hospital_hba1c'', JNull),
      (''has_cardiovascular_comorbidity'', JInt 0), (''has_absolute_contraindication'', JInt 0)]"
  using snapshot_after_init [OF demo_applies, of empty_db]
  by (simp add: empty_db_def demo_request_def TRA_LOCAL_USER_ID_def flag_def trim_opt_def)

lemma hospital_rule_fails_after_init_witness:
  "\<exists>res. evaluate_db (\<lambda>_. None) demo_clock ''GLP1_SEMA''
       (snapshot_of (with_request demo_clock demo_request seeded_db))
       (with_request demo_clock demo_request seeded_db) = Inr res \<and>
     rm_overall (rr_matrix res) = FAIL"
proof (rule hospital_rule_fails_after_init [OF demo_applies])
  show "getActiveComplianceStandard seeded_db = None"
    by (simp add: getActiveComplianceStandard_def seeded_db_def seedNrdlGlp1RulesIfEmpty_def empty_db_def)
  show "GLP1_RULE_SEEDS ! 1 \<in> set (db_payment seeded_db)"
    by (simp add: seeded_db_def seedNrdlGlp1RulesIfEmpty_def empty_db_def GLP1_RULE_SEEDS_def
        insert_or_ignore_def seed_rule_def)
  show "trim (pr_operator (GLP1_RULE_SEEDS ! 1)) \<noteq> ''NOT_IN''"
  proof -
    have "trim ''>='' \<noteq> ''NOT_IN''" by code_simp
    then show ?thesis by (simp add: GLP1_RULE_SEEDS_def seed_rule_def)
  qed
qed (simp_all add: GLP1_RULE_SEEDS_def seed_rule_def)

end
