(* ===== verification/Imports.thy ===== *)
theory Imports
  imports Tra_Db
begin

text \<open>
  The imports of external rules (\<open>tra/compliance-import.ts\<close>, \<open>tra/reference-import.ts\<close>):
  the package schemas, the guards, the transaction and the audit event of a compliance
  standard and of the NRDL reference data.  The hash, the parser of URLs and the answer of a
  fetch are arguments; the state is the database and the audit files.
\<close>

subsection \<open>Packages\<close>

record compliance_rule =
  cr_rule_id :: string
  cr_drug_id :: string
  cr_drug_name :: string
  cr_root :: ast_node

record compliance_package =
  cp_schema :: "string option"
  cp_version_id :: string
  cp_release_date :: string
  cp_publisher :: string
  cp_signature :: "string option"
  cp_ruleset_hash :: string
  cp_rules :: "compliance_rule list"

text \<open>\<open>z.union([z.string(), z.number(), z.boolean()])\<close>: a number is finite.\<close>

definition p_scalar :: "jval \<Rightarrow> jval option" where
  "p_scalar v = (case v of JStr s \<Rightarrow> Some v | JNum (Fin q) \<Rightarrow> Some v | JBool b \<Rightarrow> Some v | _ \<Rightarrow> None)"

definition p_text :: "jval \<Rightarrow> string option" where
  "p_text v = (case v of JStr s \<Rightarrow> Some s | _ \<Rightarrow> None)"

definition p_leaf :: "jval obj \<Rightarrow> ast_node option" where
  "p_leaf m =
     (case (p_str (own_prop (JObj m) ''field''), p_str (own_prop (JObj m) ''operator''),
            p_scalar (own_prop (JObj m) ''value'')) of
        (Some f, Some op, Some v) \<Rightarrow> Some (Leaf f op v) | _ \<Rightarrow> None)"

text \<open>
  The union tries a leaf first; the branch takes the first \<open>children\<close> field.  The recursion
  follows the fields of the object.
\<close>

fun p_node :: "jval \<Rightarrow> ast_node option"
  and p_nodes :: "jval list \<Rightarrow> ast_node list option"
  and p_children :: "jval obj \<Rightarrow> ast_node list option" where
  "p_node (JObj m) =
     (case p_leaf m of
        Some leaf \<Rightarrow> Some leaf
      | None \<Rightarrow>
          (case (own_prop (JObj m) ''operator'', p_children m) of
             (JStr op, Some (c # cs)) \<Rightarrow>
               if op = ''AND'' \<or> op = ''OR'' then Some (Branch op (c # cs)) else None
           | _ \<Rightarrow> None))"
| "p_node _ = None"
| "p_nodes [] = Some []"
| "p_nodes (v # vs) =
     (case p_node v of None \<Rightarrow> None | Some n \<Rightarrow> map_option (\<lambda>ns. n # ns) (p_nodes vs))"
| "p_children [] = None"
| "p_children ((k, v) # m) =
     (if k = ''children'' then (case v of JArr vs \<Rightarrow> p_nodes vs | _ \<Rightarrow> None) else p_children m)"

definition p_compliance_rule :: "jval \<Rightarrow> compliance_rule option" where
  "p_compliance_rule v =
     (case (p_str (own_prop v ''rule_id''), p_str (own_prop v ''drug_id''),
            p_str (own_prop v ''drug_name''), p_node (own_prop v ''ast_root'')) of
        (Some r, Some d, Some n, Some t) \<Rightarrow>
          Some \<lparr>cr_rule_id = r, cr_drug_id = d, cr_drug_name = n, cr_root = t\<rparr>
      | _ \<Rightarrow> None)"

definition parseCompliancePackage :: "jval \<Rightarrow> compliance_package option" where
  "parseCompliancePackage v =
     (if \<not> strict_keys [''$schema'', ''metadata'', ''ast_rules''] v then None
      else do {
        s \<leftarrow> p_opt p_text (own_prop v ''$schema'');
        let md = own_prop v ''metadata'';
        ver \<leftarrow> p_str (own_prop md ''version_id'');
        rel \<leftarrow> p_str (own_prop md ''release_date'');
        pub \<leftarrow> p_str (own_prop md ''publisher'');
        sig \<leftarrow> p_opt p_text (own_prop md ''publisher_signature'');
        h \<leftarrow> p_str (own_prop md ''ruleset_hash'');
        rules \<leftarrow> p_nonempty p_compliance_rule (own_prop v ''ast_rules'');
        Some \<lparr>cp_schema = s, cp_version_id = ver, cp_release_date = rel, cp_publisher = pub,
              cp_signature = sig, cp_ruleset_hash = h, cp_rules = rules\<rparr>
      })"

fun ast_json :: "ast_node \<Rightarrow> jval" where
  "ast_json (Leaf f op v) = JObj [(''field'', JStr f), (''operator'', JStr op), (''value'', v)]"
| "ast_json (Branch op cs) = JObj [(''operator'', JStr op), (''children'', JArr (map ast_json cs))]"

definition compliance_json :: "compliance_package \<Rightarrow> jval" where
  "compliance_json p = JObj
     (opt_field ''$schema'' JStr (cp_schema p) @
      [(''metadata'', JObj
         ([(''version_id'', JStr (cp_version_id p)), (''release_date'', JStr (cp_release_date p)),
           (''publisher'', JStr (cp_publisher p))] @
          opt_field ''publisher_signature'' JStr (cp_signature p) @
          [(''ruleset_hash'', JStr (cp_ruleset_hash p))])),
       (''ast_rules'', JArr (map (\<lambda>r. JObj
          [(''rule_id'', JStr (cr_rule_id r)), (''drug_id'', JStr (cr_drug_id r)),
           (''drug_name'', JStr (cr_drug_name r)), (''ast_root'', ast_json (cr_root r))]) (cp_rules p)))])"

definition sha256Json :: "(string \<Rightarrow> string) \<Rightarrow> jval \<Rightarrow> string" where
  "sha256Json sha v = sha (json_stringify v)"

subsection \<open>Rows with a key\<close>

text \<open>\<open>INSERT ... ON CONFLICT(key) DO UPDATE\<close>: \<open>upd\<close> gives the row that stays, from the old and the new.\<close>

definition upsert :: "('a \<Rightarrow> string) \<Rightarrow> ('a \<Rightarrow> 'a \<Rightarrow> 'a) \<Rightarrow> 'a \<Rightarrow> 'a list \<Rightarrow> 'a list" where
  "upsert key upd x xs =
     (if key x \<in> set (map key xs) then map (\<lambda>y. if key y = key x then upd y x else y) xs else xs @ [x])"

locale keyed_rows =
  fixes key :: "'a \<Rightarrow> string" and upd :: "'a \<Rightarrow> 'a \<Rightarrow> 'a"
  assumes key_upd: "key y = key x \<Longrightarrow> key (upd y x) = key x"
begin

lemma keys_upsert: "map key (upsert key upd x xs) =
    (if key x \<in> set (map key xs) then map key xs else map key xs @ [key x])"
  by (auto simp: upsert_def key_upd)

lemma distinct_upsert: "distinct (map key xs) \<Longrightarrow> distinct (map key (upsert key upd x xs))"
  by (simp add: keys_upsert)

lemma filter_other:
  assumes "\<And>y. P y \<Longrightarrow> key y \<noteq> key x" and "\<And>y. key y = key x \<Longrightarrow> \<not> P (upd y x)" and "\<not> P x"
  shows "filter P (upsert key upd x xs) = filter P xs"
proof -
  have "filter P (map (\<lambda>y. if key y = key x then upd y x else y) xs) = filter P xs"
    using assms by (induction xs) auto
  then show ?thesis using assms(3) by (simp add: upsert_def)
qed

lemma upsert_has: "key x \<in> key ` set (upsert key upd x xs)"
  using keys_upsert [of x xs] by (metis (no_types) in_set_conv_decomp list.set_map)

lemma keys_fold: "set (map key (fold (upsert key upd) ys xs)) = set (map key xs) \<union> set (map key ys)"
proof (induction ys arbitrary: xs)
  case Nil
  then show ?case by simp
next
  case (Cons y ys)
  have "set (map key (upsert key upd y xs)) = insert (key y) (set (map key xs))"
    by (simp only: keys_upsert) auto
  then show ?case using Cons [of "upsert key upd y xs"] by auto
qed

lemma distinct_fold: "distinct (map key xs) \<Longrightarrow> distinct (map key (fold (upsert key upd) ys xs))"
  by (induction ys arbitrary: xs) (auto intro: distinct_upsert)

end

definition keep_new :: "'a \<Rightarrow> 'a \<Rightarrow> 'a" where
  "keep_new old new = new"

definition name_update :: "drug_row \<Rightarrow> drug_row \<Rightarrow> drug_row" where
  "name_update old new = old\<lparr>dr_generic := dr_generic new, dr_ingredient := dr_ingredient new\<rparr>"

interpretation drug_names: keyed_rows dr_drug_id name_update
  by unfold_locales (simp add: name_update_def)

interpretation drug_rows: keyed_rows dr_drug_id keep_new
  by unfold_locales (simp add: keep_new_def)

interpretation payment_rows: keyed_rows pr_rule_id keep_new
  by unfold_locales (simp add: keep_new_def)

interpretation standard_rows: keyed_rows st_standard_id keep_new
  by unfold_locales (simp add: keep_new_def)

subsection \<open>Compliance standards\<close>

datatype import_error =
    ConsentRequired
  | SessionIdRequired
  | AgentPackIdRequired
  | InvalidPackage
  | PackageOrUrlRequired
  | UrlNotAllowed
  | FetchFailed
  | HashMismatch
  | SqlRefused write_error
  | GenerationRefused "write_security option"
  | LlmThrew
  | NotMounted
  | DatabaseFailed db_error

record compliance_request =
  cq_consent :: bool
  cq_session :: string
  cq_pack :: string
  cq_label :: "string option"
  cq_package :: jval

record compliance_done =
  cd_standard_id :: string
  cd_rules :: nat
  cd_drugs :: nat
  cd_hash :: string

record compliance_preview =
  cv_version_id :: string
  cv_rule_count :: nat
  cv_drug_ids :: "string list"
  cv_hash :: string

definition previewComplianceStandardPackage ::
  "(string \<Rightarrow> string) \<Rightarrow> jval \<Rightarrow> import_error + compliance_preview" where
  "previewComplianceStandardPackage sha raw =
     (case parseCompliancePackage raw of
        None \<Rightarrow> Inl InvalidPackage
      | Some p \<Rightarrow> Inr \<lparr>cv_version_id = cp_version_id p, cv_rule_count = length (cp_rules p),
          cv_drug_ids = dedupe (map cr_drug_id (cp_rules p)),
          cv_hash = sha256Json sha (compliance_json p)\<rparr>)"

definition upsertDrugRegistry :: "string \<Rightarrow> string \<Rightarrow> tra_db \<Rightarrow> tra_db" where
  "upsertDrugRegistry drugId drugName db =
     db\<lparr>db_drugs := upsert dr_drug_id name_update
        \<lparr>dr_drug_id = drugId, dr_generic = drugName, dr_ingredient = drugName, dr_atc = ''A10BJ'',
         dr_negotiated = 1, dr_expiry = None\<rparr> (db_drugs db)\<rparr>"

definition deactivateOtherStandards :: "string \<Rightarrow> tra_db \<Rightarrow> tra_db" where
  "deactivateOtherStandards keep db =
     db\<lparr>db_standards := map (\<lambda>s. if st_standard_id s \<noteq> keep then s\<lparr>st_is_active := False\<rparr> else s)
        (db_standards db)\<rparr>"

definition insertAstRule :: "ast_rule \<Rightarrow> (tra_db, unit) db_op" where
  "insertAstRule r db =
     (if list_ex (\<lambda>q. ar_rule_id q = ar_rule_id r \<and> ar_standard_id q = ar_standard_id r) (db_ast db)
      then (Inl (UniqueViolation ''medication_compliance_ast_rules''), db)
      else (Inr (), db\<lparr>db_ast := db_ast db @ [r]\<rparr>))"

definition ast_row :: "string \<Rightarrow> compliance_rule \<Rightarrow> ast_rule" where
  "ast_row standardId r =
     \<lparr>ar_rule_id = cr_rule_id r, ar_standard_id = standardId, ar_drug_id = cr_drug_id r,
      ar_drug_name = cr_drug_name r, ar_root_json = json_stringify (ast_json (cr_root r))\<rparr>"

fun insert_rules :: "string \<Rightarrow> compliance_rule list \<Rightarrow> (tra_db, unit) db_op" where
  "insert_rules standardId [] db = (Inr (), db)"
| "insert_rules standardId (r # rs) db =
     bind_op (insertAstRule (ast_row standardId r)) (\<lambda>_ db'.
       insert_rules standardId rs (upsertDrugRegistry (cr_drug_id r) (cr_drug_name r) db')) db"

definition standard_of ::
  "clock \<Rightarrow> compliance_package \<Rightarrow> string \<Rightarrow> string option \<Rightarrow> string \<Rightarrow> standard_row" where
  "standard_of ck p fileHash label session =
     \<lparr>st_standard_id = cp_version_id p, st_schema_uri = cp_schema p,
      st_release_date = cp_release_date p, st_publisher = cp_publisher p,
      st_signature = cp_signature p, st_ruleset_hash = cp_ruleset_hash p, st_file_hash = fileHash,
      st_label = or_default label ''external-compliance-package'', st_imported_at = ck_stamp ck,
      st_session = session, st_is_active = True\<rparr>"

definition compliance_tx ::
  "standard_row \<Rightarrow> compliance_rule list \<Rightarrow> (tra_db, nat) db_op" where
  "compliance_tx s rules db0 =
     (let db1 = deactivateOtherStandards (st_standard_id s) db0;
          db2 = db1\<lparr>db_standards := upsert st_standard_id keep_new s (db_standards db1)\<rparr>;
          db3 = db2\<lparr>db_ast := filter (\<lambda>r. ar_standard_id r \<noteq> st_standard_id s) (db_ast db2)\<rparr>
      in bind_op (insert_rules (st_standard_id s) rules)
           (\<lambda>_. return_op (length (dedupe (map cr_drug_id rules)))) db3)"

text \<open>What an import takes from its surroundings.\<close>

record import_env =
  ie_sha :: "string \<Rightarrow> string"
  ie_seeds :: db_seeds
  ie_clock :: clock
  ie_audit :: audit_target

type_synonym import_state = "tra_db \<times> audit_fs"

definition importComplianceStandardPackage ::
  "import_env \<Rightarrow> compliance_request \<Rightarrow> import_state \<Rightarrow> (import_error + compliance_done) \<times> import_state" where
  "importComplianceStandardPackage ie q st =
     (if \<not> cq_consent q then (Inl ConsentRequired, st)
      else (case (trim_opt (Some (cq_session q)), trim_opt (Some (cq_pack q))) of
        (None, _) \<Rightarrow> (Inl SessionIdRequired, st)
      | (_, None) \<Rightarrow> (Inl AgentPackIdRequired, st)
      | (Some sessionId, Some agentPackId) \<Rightarrow>
          (case parseCompliancePackage (cq_package q) of
             None \<Rightarrow> (Inl InvalidPackage, st)
           | Some p \<Rightarrow>
               let hash = sha256Json (ie_sha ie) (compliance_json p);
                   s = standard_of (ie_clock ie) p hash (cq_label q) sessionId
               in (case bind_op (bootstrapTraDatabase (ie_seeds ie) (ie_clock ie))
                     (\<lambda>_. runTraImmediateTransactionSync (compliance_tx s (cp_rules p))) (fst st) of
                     (Inl e, db) \<Rightarrow> (Inl (DatabaseFailed e), (db, snd st))
                   | (Inr drugs, db) \<Rightarrow>
                       (Inr \<lparr>cd_standard_id = cp_version_id p, cd_rules = length (cp_rules p),
                             cd_drugs = drugs, cd_hash = hash\<rparr>,
                        (db, recordComplianceImportAudit (ie_audit ie) sessionId agentPackId
                               (cp_version_id p) (cp_ruleset_hash p) (int (length (cp_rules p))) True
                               (snd st)))))))"

subsection \<open>What a compliance import leaves\<close>

lemma bootstrap_keeps:
  assumes "bootstrapTraDatabase sd ck db = (r, db1)"
  shows "\<exists>d. db1 = (seedNrdlGlp1RulesIfEmpty db)\<lparr>db_domain := d\<rparr>"
  using assms by (auto simp: bootstrapTraDatabase_def on_domain_def split: prod.splits)

lemma seed_keeps [simp]:
  "db_standards (seedNrdlGlp1RulesIfEmpty db) = db_standards db"
  "db_ast (seedNrdlGlp1RulesIfEmpty db) = db_ast db"
  "db_users (seedNrdlGlp1RulesIfEmpty db) = db_users db"
  "db_body (seedNrdlGlp1RulesIfEmpty db) = db_body db"
  "db_labs (seedNrdlGlp1RulesIfEmpty db) = db_labs db"
  "db_diagnoses (seedNrdlGlp1RulesIfEmpty db) = db_diagnoses db"
  "db_medications (seedNrdlGlp1RulesIfEmpty db) = db_medications db"
  "db_prescription (seedNrdlGlp1RulesIfEmpty db) = db_prescription db"
  "db_sync (seedNrdlGlp1RulesIfEmpty db) = db_sync db"
  "db_sources (seedNrdlGlp1RulesIfEmpty db) = db_sources db"
  "db_streams (seedNrdlGlp1RulesIfEmpty db) = db_streams db"
  by (simp_all add: seedNrdlGlp1RulesIfEmpty_def)

lemma insert_rules_Inr:
  "insert_rules sid rs db = (Inr u, db') \<Longrightarrow>
     db_ast db' = db_ast db @ map (ast_row sid) rs \<and> db_standards db' = db_standards db"
proof (induction rs arbitrary: db)
  case Nil
  then show ?case by simp
next
  case (Cons r rs)
  then obtain db1 where "insertAstRule (ast_row sid r) db = (Inr (), db1)"
    "insert_rules sid rs (upsertDrugRegistry (cr_drug_id r) (cr_drug_name r) db1) = (Inr u, db')"
    by (auto simp: bind_op_Inr)
  with Cons.IH show ?case
    by (auto simp: insertAstRule_def upsertDrugRegistry_def split: if_splits)
qed

lemma filter_active_none:
  "filter st_is_active (map (\<lambda>s. if st_standard_id s \<noteq> k then s\<lparr>st_is_active := False\<rparr> else s) xs) =
     filter (\<lambda>s. st_is_active s \<and> st_standard_id s = k) xs"
  by (induction xs) auto

lemma active_after_upsert:
  assumes "distinct (map st_standard_id xs)" and "st_is_active s"
  shows "filter st_is_active (upsert st_standard_id keep_new s
      (map (\<lambda>y. if st_standard_id y \<noteq> st_standard_id s then y\<lparr>st_is_active := False\<rparr> else y) xs)) = [s]"
proof (cases "st_standard_id s \<in> st_standard_id ` set xs")
  case False
  let ?ys = "map (\<lambda>y. if st_standard_id y \<noteq> st_standard_id s then y\<lparr>st_is_active := False\<rparr> else y) xs"
  have none: "filter (\<lambda>y. st_is_active y \<and> st_standard_id y = st_standard_id s) xs = []"
    using False by (force simp: filter_empty_conv image_iff)
  have "map st_standard_id ?ys = map st_standard_id xs" by (induction xs) auto
  then have "st_standard_id s \<notin> set (map st_standard_id ?ys)" using False by (simp only: set_map) simp
  then show ?thesis
    using assms(2) none by (simp only: upsert_def if_False filter_append filter_active_none) simp
next
  case True
  then obtain y where "y \<in> set xs" and y: "st_standard_id y = st_standard_id s" by fastforce
  then obtain ys zs where xs: "xs = ys @ y # zs" using split_list by fast
  have others: "\<forall>q\<in>set ys \<union> set zs. st_standard_id q \<noteq> st_standard_id s"
    using assms(1) unfolding xs y [symmetric] by (auto simp: image_iff)
  let ?h = "\<lambda>y. if st_standard_id y \<noteq> st_standard_id s then y\<lparr>st_is_active := False\<rparr> else y"
  let ?g = "\<lambda>q. if st_standard_id q = st_standard_id s then s else q\<lparr>st_is_active := False\<rparr>"
  have "st_standard_id s \<in> set (map st_standard_id (map ?h xs))"
    unfolding xs using y by simp
  then have "upsert st_standard_id keep_new s (map ?h xs) =
      map (\<lambda>y. if st_standard_id y = st_standard_id s then s else y) (map ?h xs)"
    by (simp only: upsert_def if_True keep_new_def)
  also have "\<dots> = map ?g xs" unfolding map_map by (rule map_cong) simp_all
  finally have up: "upsert st_standard_id keep_new s (map ?h xs) = map ?g xs" .
  have none: "filter st_is_active (map ?g qs) = []" if "set qs \<subseteq> set ys \<union> set zs" for qs
    using that others by (induction qs) auto
  have "map ?g xs = map ?g ys @ s # map ?g zs" unfolding xs using y by simp
  then show ?thesis
    using none [of ys] none [of zs] assms(2) unfolding up by simp
qed

lemma compliance_tx_Inr:
  assumes "compliance_tx s rules db = (Inr n, db')" and "distinct (map st_standard_id (db_standards db))"
    and "st_is_active s"
  shows "filter st_is_active (db_standards db') = [s] \<and>
     filter (\<lambda>r. ar_standard_id r = st_standard_id s) (db_ast db') = map (ast_row (st_standard_id s)) rules \<and>
     filter (\<lambda>r. ar_standard_id r \<noteq> st_standard_id s) (db_ast db') =
       filter (\<lambda>r. ar_standard_id r \<noteq> st_standard_id s) (db_ast db) \<and>
     n = card (set (map cr_drug_id rules))"
proof -
  from assms(1) obtain u db3 where db3: "insert_rules (st_standard_id s) rules db3 = (Inr u, db')"
    "db_standards db3 = upsert st_standard_id keep_new s (db_standards (deactivateOtherStandards (st_standard_id s) db))"
    "db_ast db3 = filter (\<lambda>r. ar_standard_id r \<noteq> st_standard_id s) (db_ast db)"
    and n: "n = length (dedupe (map cr_drug_id rules))"
    by (fastforce simp: compliance_tx_def Let_def bind_op_Inr return_op_def deactivateOtherStandards_def)
  have own: "filter (\<lambda>r. ar_standard_id r = k) (map (ast_row k) rs) = map (ast_row k) rs"
    "filter (\<lambda>r. ar_standard_id r \<noteq> k) (map (ast_row k) rs) = []" for k rs
    by (induction rs) (auto simp: ast_row_def)
  have "length (dedupe xs) = card (set xs)" for xs :: "string list"
    using distinct_card [of "remdups (rev xs)"] by (simp add: dedupe_def)
  then show ?thesis
    using insert_rules_Inr [OF db3(1)] db3 n own assms active_after_upsert [of "db_standards db" s]
    by (simp add: deactivateOtherStandards_def)
qed

lemma record_single_event:
  "\<exists>e. audit_entries (record_single pre t session p fs (target_dir t)) = audit_entries (fs (target_dir t)) @ [e] \<and>
     ev_step e = rp_step p \<and> ev_status e = rp_status p"
  using record_event_entries [of "at_tick t" p "new_recorder (target_dir t) (pre @ at_rand t) session" fs,
      OF prod.collapse [symmetric]]
  by (auto simp: record_single_def new_recorder_def)

text \<open>
  A successful compliance import had the user's consent and a well-formed package, and
  leaves exactly one active standard, the imported one with the session that consented,
  whose rules are those of the package in their order; the rules of other standards stay, and
  one granted event is added to the audit file.
\<close>

theorem compliance_import_activates:
  assumes "importComplianceStandardPackage ie q (db, fs) = (Inr d, (db', fs'))"
    and "distinct (map st_standard_id (db_standards db))"
  shows "cq_consent q \<and> (\<exists>p s e.
     parseCompliancePackage (cq_package q) = Some p \<and>
     getActiveComplianceStandard db' = Some s \<and> filter st_is_active (db_standards db') = [s] \<and>
     st_standard_id s = cp_version_id p \<and> st_session s = trim (cq_session q) \<and>
     loadComplianceAstRules db' (cp_version_id p) None =
       sort_key ar_drug_id (sort_key ar_rule_id (map (ast_row (cp_version_id p)) (cp_rules p))) \<and>
     filter (\<lambda>r. ar_standard_id r \<noteq> cp_version_id p) (db_ast db') =
       filter (\<lambda>r. ar_standard_id r \<noteq> cp_version_id p) (db_ast db) \<and>
     audit_entries (fs' (target_dir (ie_audit ie))) = audit_entries (fs (target_dir (ie_audit ie))) @ [e] \<and>
     ev_step e = COMPLIANCE_IMPORT \<and> ev_status e = SUCCESS)"
proof -
  from assms(1) obtain sid pid p s db1 n where
    g: "cq_consent q" "trim_opt (Some (cq_session q)) = Some sid" "trim_opt (Some (cq_pack q)) = Some pid"
    "parseCompliancePackage (cq_package q) = Some p"
    and s: "s = standard_of (ie_clock ie) p (sha256Json (ie_sha ie) (compliance_json p)) (cq_label q) sid"
    and b: "bootstrapTraDatabase (ie_seeds ie) (ie_clock ie) db = (Inr (), db1)"
    and t: "compliance_tx s (cp_rules p) db1 = (Inr n, db')"
    and fs': "fs' = recordComplianceImportAudit (ie_audit ie) sid pid (cp_version_id p)
                (cp_ruleset_hash p) (int (length (cp_rules p))) True fs"
    by (auto simp: importComplianceStandardPackage_def bind_op_Inr Let_def
        split: if_splits option.splits prod.splits sum.splits)
  obtain dm where db1: "db1 = (seedNrdlGlp1RulesIfEmpty db)\<lparr>db_domain := dm\<rparr>"
    using bootstrap_keeps [OF b] by blast
  have s': "st_is_active s" "st_standard_id s = cp_version_id p" "st_session s = sid"
    by (simp_all add: s standard_of_def)
  have sid: "sid = trim (cq_session q)"
    using g(2) by (auto simp: trim_opt_def split: if_splits)
  have res: "filter st_is_active (db_standards db') = [s]"
    "filter (\<lambda>r. ar_standard_id r = st_standard_id s) (db_ast db') = map (ast_row (st_standard_id s)) (cp_rules p)"
    "filter (\<lambda>r. ar_standard_id r \<noteq> st_standard_id s) (db_ast db') =
       filter (\<lambda>r. ar_standard_id r \<noteq> st_standard_id s) (db_ast db)"
    using compliance_tx_Inr [OF t] assms(2) s'(1) by (simp_all add: db1)
  obtain e where "audit_entries (fs' (target_dir (ie_audit ie))) = audit_entries (fs (target_dir (ie_audit ie))) @ [e]"
    "ev_step e = COMPLIANCE_IMPORT" "ev_status e = SUCCESS"
    using record_single_event [of "''consent_''" "ie_audit ie" sid] unfolding fs' recordComplianceImportAudit_def
    by (metis (no_types, lifting) granted_status_def record_params.select_convs(1,5))
  then show ?thesis
    using g s' sid res
    by (auto simp: getActiveComplianceStandard_def loadComplianceAstRules_def opt_truthy_def)
qed

subsection \<open>A concrete import\<close>

definition demo_seeds :: db_seeds where
  "demo_seeds = \<lparr>sd_exec = demo_exec, sd_registry = ''b'', sd_migration = ''m''\<rparr>"

definition demo_target :: audit_target where
  "demo_target = \<lparr>at_host = \<lparr>h_cwd = ''/'', h_home = ''/h'', h_tmp = ''/t'', h_pid = ''1'', h_env = (\<lambda>_. None)\<rparr>,
     at_rand = ''r'', at_tick = \<lparr>tk_id = ''1'', tk_now_ms = 0\<rparr>, at_auditDir = Some ''/a'', at_overrides = None\<rparr>"

definition demo_env :: import_env where
  "demo_env = \<lparr>ie_sha = (\<lambda>s. s), ie_seeds = demo_seeds, ie_clock = demo_clock, ie_audit = demo_target\<rparr>"

lemma demo_boot:
  "\<exists>d. bootstrapTraDatabase demo_seeds demo_clock empty_db = (Inr (), seeded_db\<lparr>db_domain := d\<rparr>)"
proof -
  obtain d where "bootstrap_domain demo_exec ''b'' (ck_stamp demo_clock) no_tables = (Inr (), d)"
    using demo_bootstrap by blast
  then show ?thesis
    by (simp add: bootstrapTraDatabase_def on_domain_def demo_seeds_def seeded_db_def
        seedNrdlGlp1RulesIfEmpty_def empty_db_def)
qed

definition demo_standard :: jval where
  "demo_standard = JObj
     [(''metadata'', JObj [(''version_id'', JStr ''v2''), (''release_date'', JStr ''2026''),
        (''publisher'', JStr ''p''), (''ruleset_hash'', JStr ''h'')]),
      (''ast_rules'', JArr [JObj [(''rule_id'', JStr ''r1''), (''drug_id'', JStr ''29''),
        (''drug_name'', JStr ''x''), (''ast_root'', JObj [(''operator'', JStr ''AND''),
          (''children'', JArr [JObj [(''field'', JStr ''a.b''), (''operator'', JStr ''==''),
             (''value'', JBool True)]])])]])]"

definition demo_package :: compliance_package where
  "demo_package =
     \<lparr>cp_schema = None, cp_version_id = ''v2'', cp_release_date = ''2026'', cp_publisher = ''p'',
      cp_signature = None, cp_ruleset_hash = ''h'',
      cp_rules = [\<lparr>cr_rule_id = ''r1'', cr_drug_id = ''29'', cr_drug_name = ''x'',
        cr_root = Branch ''AND'' [Leaf ''a.b'' ''=='' (JBool True)]\<rparr>]\<rparr>"

lemma demo_parses: "parseCompliancePackage demo_standard = Some demo_package"
  by code_simp

definition demo_compliance :: compliance_request where
  "demo_compliance = \<lparr>cq_consent = True, cq_session = ''s1'', cq_pack = ''glp1'', cq_label = None,
     cq_package = demo_standard\<rparr>"

lemma demo_import_succeeds:
  "\<exists>d db' fs'. importComplianceStandardPackage demo_env demo_compliance (empty_db, \<lambda>_. None) = (Inr d, (db', fs'))"
proof -
  have t: "trim_opt (Some ''s1'') = Some ''s1''" "trim_opt (Some ''glp1'') = Some ''glp1''"
    by code_simp+
  obtain d where "bootstrapTraDatabase demo_seeds demo_clock empty_db = (Inr (), seeded_db\<lparr>db_domain := d\<rparr>)"
    using demo_boot by blast
  then show ?thesis
    using t demo_parses
    by (simp add: importComplianceStandardPackage_def demo_compliance_def demo_env_def Let_def bind_op_def
        compliance_tx_def runTraImmediateTransactionSync_def return_op_def demo_package_def
        insertAstRule_def deactivateOtherStandards_def seeded_db_def empty_db_def
        seedNrdlGlp1RulesIfEmpty_def)
qed

lemma compliance_import_activates_witness:
  "\<exists>db' fs' s. snd (importComplianceStandardPackage demo_env demo_compliance (empty_db, \<lambda>_. None)) = (db', fs') \<and>
     getActiveComplianceStandard db' = Some s \<and> st_standard_id s = ''v2'' \<and> st_session s = ''s1''"
proof -
  obtain d db' fs' where i: "importComplianceStandardPackage demo_env demo_compliance (empty_db, \<lambda>_. None) = (Inr d, (db', fs'))"
    using demo_import_succeeds by blast
  have "distinct (map st_standard_id (db_standards empty_db))" by (simp add: empty_db_def)
  moreover have "trim ''s1'' = ''s1''" by code_simp
  ultimately show ?thesis
    using compliance_import_activates [OF i] demo_parses i
    by (force simp: demo_compliance_def demo_package_def)
qed

end
