(* ===== verification/Reference_Sync.thy ===== *)
theory Reference_Sync
  imports Imports
begin

text \<open>
  The NRDL reference data (\<open>tra/reference-import.ts\<close>, \<open>tra/reference-types.ts\<close>): the schema
  of a package, the preview, the status and the synchronisation with its skip on an unchanged
  hash.  \<open>parse_url\<close> stands for \<open>new URL\<close> and gives the protocol and the host name, \<open>fetch\<close>
  for the answer of the server, already checked and parsed.
\<close>

subsection \<open>Packages\<close>

record reference_package =
  rk_schema :: "string option"
  rk_version_id :: string
  rk_release_date :: string
  rk_publisher :: string
  rk_package_hash :: string
  rk_drugs :: "(drug_row \<times> jval) list"
  rk_rules :: "payment_rule list"

text \<open>\<open>z.string().trim().min(1)\<close>\<close>

definition p_trim :: "jval \<Rightarrow> string option" where
  "p_trim v = (case v of JStr s \<Rightarrow> trim_opt (Some s) | _ \<Rightarrow> None)"

definition p_negotiated :: "jval \<Rightarrow> jval option" where
  "p_negotiated v =
     (if v = JInt 0 \<or> v = JInt 1 then Some v
      else (case v of JBool b \<Rightarrow> Some v | _ \<Rightarrow> None))"

definition normalizeNegotiatedDrug :: "jval \<Rightarrow> int" where
  "normalizeNegotiatedDrug v = (if v = JBool True \<or> v = JInt 1 then 1 else 0)"

text \<open>
  A drug as it is stored, with the value given for \<open>is_negotiated_drug\<close> (undefined when
  absent), which the hash of the package depends on.
\<close>

definition p_drug :: "jval \<Rightarrow> (drug_row \<times> jval) option" where
  "p_drug v =
     (if \<not> strict_keys [''drug_id'', ''generic_name'', ''active_ingredient'', ''atc_code'',
           ''is_negotiated_drug'', ''agreement_expiry_date''] v then None
      else do {
        i \<leftarrow> p_trim (own_prop v ''drug_id'');
        g \<leftarrow> p_trim (own_prop v ''generic_name'');
        a \<leftarrow> p_trim (own_prop v ''active_ingredient'');
        c \<leftarrow> p_trim (own_prop v ''atc_code'');
        n \<leftarrow> p_opt p_negotiated (own_prop v ''is_negotiated_drug'');
        x \<leftarrow> p_opt p_trim (own_prop v ''agreement_expiry_date'');
        let nv = (case n of None \<Rightarrow> JUndef | Some w \<Rightarrow> w);
        Some (\<lparr>dr_drug_id = i, dr_generic = g, dr_ingredient = a, dr_atc = c,
               dr_negotiated = normalizeNegotiatedDrug nv, dr_expiry = x\<rparr>, nv)
      })"

definition RULE_CATEGORIES :: "string list" where
  "RULE_CATEGORIES = [''DIAGNOSIS'', ''PRIOR_MED'', ''LAB_LIMIT'', ''SAFETY_LIMIT'']"

definition p_payment_rule :: "jval \<Rightarrow> payment_rule option" where
  "p_payment_rule v =
     (if \<not> strict_keys [''rule_id'', ''drug_id'', ''rule_category'', ''target_key'',
           ''comparison_operator'', ''comparison_value'', ''alert_message''] v then None
      else do {
        r \<leftarrow> p_trim (own_prop v ''rule_id'');
        d \<leftarrow> p_trim (own_prop v ''drug_id'');
        c \<leftarrow> p_enum (\<lambda>s. s) RULE_CATEGORIES (own_prop v ''rule_category'');
        k \<leftarrow> p_trim (own_prop v ''target_key'');
        op \<leftarrow> p_trim (own_prop v ''comparison_operator'');
        w \<leftarrow> p_trim (own_prop v ''comparison_value'');
        a \<leftarrow> p_trim (own_prop v ''alert_message'');
        Some \<lparr>pr_rule_id = r, pr_drug_id = d, pr_category = c, pr_target_key = k,
              pr_operator = op, pr_value = w, pr_alert = a\<rparr>
      })"

definition refers_known :: "(drug_row \<times> jval) list \<Rightarrow> payment_rule list \<Rightarrow> bool" where
  "refers_known drugs rules \<longleftrightarrow>
     list_all (\<lambda>r. pr_drug_id r \<in> set (map (dr_drug_id \<circ> fst) drugs)) rules"

definition parseReferencePackage :: "jval \<Rightarrow> reference_package option" where
  "parseReferencePackage v =
     (if \<not> strict_keys [''$schema'', ''metadata'', ''drugs'', ''payment_rules''] v then None
      else do {
        s \<leftarrow> p_opt p_trim (own_prop v ''$schema'');
        let md = own_prop v ''metadata'';
        (if strict_keys [''version_id'', ''release_date'', ''publisher'', ''package_hash''] md
         then Some () else None);
        ver \<leftarrow> p_trim (own_prop md ''version_id'');
        rel \<leftarrow> p_trim (own_prop md ''release_date'');
        pub \<leftarrow> p_trim (own_prop md ''publisher'');
        h \<leftarrow> p_trim (own_prop md ''package_hash'');
        drugs \<leftarrow> p_nonempty p_drug (own_prop v ''drugs'');
        rules \<leftarrow> p_nonempty p_payment_rule (own_prop v ''payment_rules'');
        if refers_known drugs rules
        then Some \<lparr>rk_schema = s, rk_version_id = ver, rk_release_date = rel, rk_publisher = pub,
                   rk_package_hash = h, rk_drugs = drugs, rk_rules = rules\<rparr>
        else None
      })"

definition drug_json :: "drug_row \<times> jval \<Rightarrow> jval" where
  "drug_json x = (case x of (d, negotiated) \<Rightarrow> JObj
     ([(''drug_id'', JStr (dr_drug_id d)), (''generic_name'', JStr (dr_generic d)),
       (''active_ingredient'', JStr (dr_ingredient d)), (''atc_code'', JStr (dr_atc d)),
       (''is_negotiated_drug'', negotiated)] @
      opt_field ''agreement_expiry_date'' JStr (dr_expiry d)))"

definition rule_json :: "payment_rule \<Rightarrow> jval" where
  "rule_json r = JObj
     [(''rule_id'', JStr (pr_rule_id r)), (''drug_id'', JStr (pr_drug_id r)),
      (''rule_category'', JStr (pr_category r)), (''target_key'', JStr (pr_target_key r)),
      (''comparison_operator'', JStr (pr_operator r)), (''comparison_value'', JStr (pr_value r)),
      (''alert_message'', JStr (pr_alert r))]"

definition reference_json :: "reference_package \<Rightarrow> jval" where
  "reference_json p = JObj
     (opt_field ''$schema'' JStr (rk_schema p) @
      [(''metadata'', JObj
         [(''version_id'', JStr (rk_version_id p)), (''release_date'', JStr (rk_release_date p)),
          (''publisher'', JStr (rk_publisher p)), (''package_hash'', JStr (rk_package_hash p))]),
       (''drugs'', JArr (map drug_json (rk_drugs p))),
       (''payment_rules'', JArr (map rule_json (rk_rules p)))])"

subsection \<open>Where a package may come from\<close>

type_synonym url_parser = "string \<Rightarrow> (string \<times> string) option"

definition isAllowedReferenceFetchUrl :: "url_parser \<Rightarrow> string \<Rightarrow> bool" where
  "isAllowedReferenceFetchUrl parse_url rawUrl =
     (case parse_url (trim rawUrl) of
        None \<Rightarrow> False
      | Some (protocol, hostname) \<Rightarrow>
          if protocol = ''https:'' then True
          else if protocol = ''http:'' then
            (let host = to_lower hostname
             in host = ''localhost'' \<or> host = ''127.0.0.1'' \<or> host = ''::1'')
          else False)"

record web =
  wb_url :: url_parser
  wb_fetch :: "string \<Rightarrow> jval option"

definition fetchReferencePackageFromUrl :: "web \<Rightarrow> string \<Rightarrow> import_error + jval" where
  "fetchReferencePackageFromUrl w url =
     (if \<not> isAllowedReferenceFetchUrl (wb_url w) (trim url) then Inl UrlNotAllowed
      else (case wb_fetch w (trim url) of None \<Rightarrow> Inl FetchFailed | Some v \<Rightarrow> Inr v))"

subsection \<open>Preview and status\<close>

definition getReferenceSyncState :: "tra_db \<Rightarrow> sync_row option" where
  "getReferenceSyncState db = db_sync db"

record reference_preview =
  rv_version_id :: string
  rv_drug_count :: nat
  rv_rule_count :: nat
  rv_drug_ids :: "string list"
  rv_package_hash :: string
  rv_changed :: bool

definition in_db :: "(tra_db, 'a) db_op \<Rightarrow> tra_db \<Rightarrow> (import_error + 'a) \<times> tra_db" where
  "in_db f db = (case f db of (Inl e, db') \<Rightarrow> (Inl (DatabaseFailed e), db') | (Inr x, db') \<Rightarrow> (Inr x, db'))"

definition previewNrdlReferencePackage ::
  "import_env \<Rightarrow> jval \<Rightarrow> tra_db \<Rightarrow> (import_error + reference_preview) \<times> tra_db" where
  "previewNrdlReferencePackage ie raw db =
     (case parseReferencePackage raw of
        None \<Rightarrow> (Inl InvalidPackage, db)
      | Some p \<Rightarrow>
          let hash = sha256Json (ie_sha ie) (reference_json p)
          in in_db (bind_op (bootstrapTraDatabase (ie_seeds ie) (ie_clock ie)) (\<lambda>_ db'.
               (Inr \<lparr>rv_version_id = rk_version_id p, rv_drug_count = length (rk_drugs p),
                     rv_rule_count = length (rk_rules p),
                     rv_drug_ids = dedupe (map (dr_drug_id \<circ> fst) (rk_drugs p)),
                     rv_package_hash = hash,
                     rv_changed = (case getReferenceSyncState db' of None \<Rightarrow> True
                                   | Some s \<Rightarrow> sy_package_hash s \<noteq> hash)\<rparr>, db'))) db)"

record reference_status =
  rs_drugs :: nat
  rs_rules :: nat
  rs_last_sync :: "sync_row option"

definition getNrdlReferenceStatus :: "db_seeds \<Rightarrow> clock \<Rightarrow> (tra_db, reference_status) db_op" where
  "getNrdlReferenceStatus sd ck =
     bind_op (bootstrapTraDatabase sd ck) (\<lambda>_ db.
       (Inr \<lparr>rs_drugs = length (db_drugs db), rs_rules = length (db_payment db),
             rs_last_sync = getReferenceSyncState db\<rparr>, db))"

subsection \<open>Synchronisation\<close>

record reference_request =
  rq_consent :: bool
  rq_session :: string
  rq_pack :: string
  rq_label :: "string option"
  rq_package :: jval
  rq_url :: "string option"
  rq_save_url :: bool

record reference_done =
  rd_version_id :: string
  rd_drugs :: nat
  rd_rules :: nat
  rd_hash :: string
  rd_url :: "string option"
  rd_skipped :: bool

definition ensureNrdlExternalSource :: "tra_db \<Rightarrow> tra_db" where
  "ensureNrdlExternalSource db =
     db\<lparr>db_sources := insert_or_ignore fst (''NRDL_EXTERNAL'', ''NRDL External Reference'') (db_sources db)\<rparr>"

definition upsertReferenceSyncState :: "sync_row \<Rightarrow> tra_db \<Rightarrow> tra_db" where
  "upsertReferenceSyncState s db =
     db\<lparr>db_sync := Some (s\<lparr>sy_url := (case sy_url s of Some u \<Rightarrow> Some u
                                     | None \<Rightarrow> Option.bind (db_sync db) sy_url)\<rparr>)\<rparr>"

definition sync_rows :: "drug_row list \<Rightarrow> payment_rule list \<Rightarrow> tra_db \<Rightarrow> tra_db" where
  "sync_rows drugs rules db =
     (let db1 = ensureNrdlExternalSource db;
          db2 = db1\<lparr>db_drugs := fold (upsert dr_drug_id keep_new) drugs (db_drugs db1)\<rparr>;
          db3 = db2\<lparr>db_payment := filter (\<lambda>r. pr_drug_id r \<notin> set (map dr_drug_id drugs)) (db_payment db2)\<rparr>
      in db3\<lparr>db_payment := fold (upsert pr_rule_id keep_new) rules (db_payment db3)\<rparr>)"

definition sync_label :: "reference_request \<Rightarrow> string option \<Rightarrow> string" where
  "sync_label q url = (case trim_opt (rq_label q) of Some l \<Rightarrow> l
     | None \<Rightarrow> (case url of Some u \<Rightarrow> u | None \<Rightarrow> ''nrdl-reference-package''))"

definition sync_tx ::
  "clock \<Rightarrow> reference_package \<Rightarrow> reference_request \<Rightarrow> string \<Rightarrow> string option \<Rightarrow> string \<Rightarrow> sync_row option \<Rightarrow>
     (tra_db, nat) db_op" where
  "sync_tx ck p q hash url sessionId existing db =
     (let savedUrl = (if rq_save_url q \<and> url \<noteq> None then url else Option.bind existing sy_url);
          s = \<lparr>sy_version_id = rk_version_id p, sy_package_hash = hash, sy_label = sync_label q url,
               sy_url = savedUrl, sy_session = sessionId, sy_drug_count = length (rk_drugs p),
               sy_rule_count = length (rk_rules p), sy_synced_at = ck_stamp ck\<rparr>
      in (Inr (length (dedupe (map (dr_drug_id \<circ> fst) (rk_drugs p)))),
          upsertReferenceSyncState s (sync_rows (map fst (rk_drugs p)) (rk_rules p) db)))"

text \<open>The package of the request, or what the subscription URL serves.\<close>

definition request_package :: "web \<Rightarrow> reference_request \<Rightarrow> import_error + jval" where
  "request_package w q =
     (if truthy (rq_package q) then Inr (rq_package q)
      else (case trim_opt (rq_url q) of
              None \<Rightarrow> Inl PackageOrUrlRequired | Some u \<Rightarrow> fetchReferencePackageFromUrl w u))"

definition run_sync ::
  "import_env \<Rightarrow> reference_request \<Rightarrow> string \<Rightarrow> string \<Rightarrow> reference_package \<Rightarrow> import_state \<Rightarrow>
     (import_error + reference_done) \<times> import_state" where
  "run_sync ie q sessionId agentPackId p st =
     (let hash = sha256Json (ie_sha ie) (reference_json p);
          url = trim_opt (rq_url q);
          saved = (if rq_save_url q then url else None)
      in case bootstrapTraDatabase (ie_seeds ie) (ie_clock ie) (fst st) of
           (Inl e, db) \<Rightarrow> (Inl (DatabaseFailed e), (db, snd st))
         | (Inr _, db) \<Rightarrow>
             (let existing = getReferenceSyncState db in
              if map_option sy_package_hash existing = Some hash
              then (Inr \<lparr>rd_version_id = rk_version_id p, rd_drugs = length (rk_drugs p),
                         rd_rules = length (rk_rules p), rd_hash = hash,
                         rd_url = (if rq_save_url q then url else Option.bind existing sy_url),
                         rd_skipped = True\<rparr>, (db, snd st))
              else (case runTraImmediateTransactionSync
                        (sync_tx (ie_clock ie) p q hash url sessionId existing) db of
                      (Inl e, db') \<Rightarrow> (Inl (DatabaseFailed e), (db', snd st))
                    | (Inr n, db') \<Rightarrow>
                        (Inr \<lparr>rd_version_id = rk_version_id p, rd_drugs = n,
                              rd_rules = length (rk_rules p), rd_hash = hash, rd_url = saved,
                              rd_skipped = False\<rparr>,
                         (db', recordReferenceSyncAudit (ie_audit ie) sessionId agentPackId
                                 (rk_version_id p) hash (int n) (int (length (rk_rules p))) True
                                 saved (snd st))))))"

definition syncNrdlReferencePackage ::
  "import_env \<Rightarrow> web \<Rightarrow> reference_request \<Rightarrow> import_state \<Rightarrow>
     (import_error + reference_done) \<times> import_state" where
  "syncNrdlReferencePackage ie w q st =
     (if \<not> rq_consent q then (Inl ConsentRequired, st)
      else (case (trim_opt (Some (rq_session q)), trim_opt (Some (rq_pack q))) of
        (None, _) \<Rightarrow> (Inl SessionIdRequired, st)
      | (_, None) \<Rightarrow> (Inl AgentPackIdRequired, st)
      | (Some sessionId, Some agentPackId) \<Rightarrow>
          (case request_package w q of
             Inl e \<Rightarrow> (Inl e, st)
           | Inr raw \<Rightarrow>
               (case parseReferencePackage raw of
                  None \<Rightarrow> (Inl InvalidPackage, st)
                | Some p \<Rightarrow> run_sync ie q sessionId agentPackId p st))))"

subsection \<open>What a synchronisation leaves\<close>

lemma set_upsert_new:
  "x \<in> set (upsert key keep_new y xs) \<longleftrightarrow> x = y \<or> (x \<in> set xs \<and> key x \<noteq> key y)"
  by (auto simp: upsert_def keep_new_def image_iff)

text \<open>The last element of a list with a given key is the one that stays.\<close>

definition last_with :: "('a \<Rightarrow> string) \<Rightarrow> 'a list \<Rightarrow> 'a \<Rightarrow> bool" where
  "last_with key ys x \<longleftrightarrow> find (\<lambda>y. key y = key x) (rev ys) = Some x"

lemma set_fold_upsert:
  "x \<in> set (fold (upsert key keep_new) ys xs) \<longleftrightarrow>
     last_with key ys x \<or> (x \<in> set xs \<and> key x \<notin> key ` set ys)"
proof (induction ys rule: rev_induct)
  case Nil
  then show ?case by (simp add: last_with_def)
next
  case (snoc y ys)
  have "last_with key (ys @ [y]) x \<longleftrightarrow> x = y \<or> (last_with key ys x \<and> key x \<noteq> key y)"
    by (auto simp: last_with_def)
  then show ?case
    using snoc by (auto simp: set_upsert_new)
qed

lemma last_with_member: "last_with key ys x \<Longrightarrow> x \<in> set ys"
  using nth_mem [of _ "rev ys"] by (auto simp: last_with_def find_Some_iff)

lemma last_with_distinct:
  assumes "distinct (map key ys)" and "x \<in> set ys"
  shows "last_with key ys x"
  using assms
proof (induction ys rule: rev_induct)
  case (snoc y ys)
  then show ?case by (auto simp: last_with_def image_iff)
qed simp

lemma run_sync_done:
  assumes "run_sync ie q sid pid p (db, fs) = (Inr d, (db', fs'))" and "\<not> rd_skipped d"
  shows "\<exists>db1 n. bootstrapTraDatabase (ie_seeds ie) (ie_clock ie) db = (Inr (), db1) \<and>
     rd_hash d = sha256Json (ie_sha ie) (reference_json p) \<and>
     sync_tx (ie_clock ie) p q (rd_hash d) (trim_opt (rq_url q)) sid (getReferenceSyncState db1) db1 = (Inr n, db') \<and>
     fs' = recordReferenceSyncAudit (ie_audit ie) sid pid (rk_version_id p) (rd_hash d) (int n)
             (int (length (rk_rules p))) True (if rq_save_url q then trim_opt (rq_url q) else None) fs"
  using assms
  by (auto simp: run_sync_def Let_def split: prod.splits sum.splits if_splits)

lemma request_guards:
  assumes "syncNrdlReferencePackage ie w q st = (Inr d, st')"
  shows "\<exists>sid pid raw p. rq_consent q \<and> trim_opt (Some (rq_session q)) = Some sid \<and>
     trim_opt (Some (rq_pack q)) = Some pid \<and> request_package w q = Inr raw \<and>
     parseReferencePackage raw = Some p \<and> run_sync ie q sid pid p st = (Inr d, st')"
  using assms
  by (auto simp: syncNrdlReferencePackage_def split: if_splits option.splits sum.splits)

lemma sync_tx_rows:
  assumes "sync_tx ck p q hash url sid existing db = (Inr n, db')"
  shows "db_payment db' = fold (upsert pr_rule_id keep_new) (rk_rules p)
           (filter (\<lambda>r. pr_drug_id r \<notin> (dr_drug_id \<circ> fst) ` set (rk_drugs p)) (db_payment db)) \<and>
     db_drugs db' = fold (upsert dr_drug_id keep_new) (map fst (rk_drugs p)) (db_drugs db) \<and>
     (\<exists>s. db_sync db' = Some s \<and> sy_package_hash s = hash \<and> sy_session s = sid \<and>
        (sy_url s = None \<longrightarrow> Option.bind (db_sync db) sy_url = None))"
  using assms
  by (auto simp: sync_tx_def sync_rows_def upsertReferenceSyncState_def ensureNrdlExternalSource_def
      Let_def image_comp split: option.splits)

text \<open>
  A synchronisation that was not skipped had the user's consent and a package that came
  with the request or from an allowed URL; afterwards the payment rules are, for every rule id
  of the package, its last rule with that id, and the rules there were before for other drugs
  under other rule ids; the same holds of the drugs; the state names the package by its hash
  and the session, keeps a URL saved earlier, and one granted event is added.
\<close>

theorem sync_installs_package:
  assumes "syncNrdlReferencePackage ie w q (db, fs) = (Inr d, (db', fs'))" and "\<not> rd_skipped d"
  shows "rq_consent q \<and> (\<exists>p raw db1 s e.
     request_package w q = Inr raw \<and> parseReferencePackage raw = Some p \<and>
     bootstrapTraDatabase (ie_seeds ie) (ie_clock ie) db = (Inr (), db1) \<and>
     set (db_payment db') = {r. last_with pr_rule_id (rk_rules p) r} \<union>
       {r\<in>set (db_payment db1). pr_drug_id r \<notin> (dr_drug_id \<circ> fst) ` set (rk_drugs p) \<and>
          pr_rule_id r \<notin> pr_rule_id ` set (rk_rules p)} \<and>
     set (db_drugs db') = {x. last_with dr_drug_id (map fst (rk_drugs p)) x} \<union>
       {x\<in>set (db_drugs db1). dr_drug_id x \<notin> (dr_drug_id \<circ> fst) ` set (rk_drugs p)} \<and>
     getReferenceSyncState db' = Some s \<and> sy_package_hash s = rd_hash d \<and>
     sy_session s = trim (rq_session q) \<and> (sy_url s = None \<longrightarrow> Option.bind (db_sync db) sy_url = None) \<and>
     audit_entries (fs' (target_dir (ie_audit ie))) = audit_entries (fs (target_dir (ie_audit ie))) @ [e] \<and>
     ev_step e = REFERENCE_SYNC \<and> ev_status e = SUCCESS)"
proof -
  obtain sid pid raw p where g: "rq_consent q" "trim_opt (Some (rq_session q)) = Some sid"
      "request_package w q = Inr raw" "parseReferencePackage raw = Some p"
    and run: "run_sync ie q sid pid p (db, fs) = (Inr d, (db', fs'))"
    using request_guards [OF assms(1)] by blast
  obtain db1 n where b: "bootstrapTraDatabase (ie_seeds ie) (ie_clock ie) db = (Inr (), db1)"
    and t: "sync_tx (ie_clock ie) p q (rd_hash d) (trim_opt (rq_url q)) sid (getReferenceSyncState db1) db1 = (Inr n, db')"
    and fs': "fs' = recordReferenceSyncAudit (ie_audit ie) sid pid (rk_version_id p) (rd_hash d) (int n)
             (int (length (rk_rules p))) True (if rq_save_url q then trim_opt (rq_url q) else None) fs"
    using run_sync_done [OF run assms(2)] by blast
  have same: "db_sync db1 = db_sync db" using bootstrap_keeps [OF b] by auto
  have sid: "sid = trim (rq_session q)" using g(2) by (auto simp: trim_opt_def split: if_splits)
  obtain e where "audit_entries (fs' (target_dir (ie_audit ie))) =
      audit_entries (fs (target_dir (ie_audit ie))) @ [e]" "ev_step e = REFERENCE_SYNC" "ev_status e = SUCCESS"
    using record_single_event [of "''consent_''" "ie_audit ie" sid] unfolding fs' recordReferenceSyncAudit_def
    by (metis (no_types, lifting) granted_status_def record_params.select_convs(1,5))
  then show ?thesis
    using g b sid same sync_tx_rows [OF t]
    by (force simp: set_fold_upsert getReferenceSyncState_def image_comp)
qed

text \<open>An unchanged package: the answer names a URL to save that is not saved.\<close>

lemma unchanged_sync_skips:
  assumes "rq_consent q" and "trim_opt (Some (rq_session q)) = Some sid"
    and "trim_opt (Some (rq_pack q)) = Some pid"
    and "request_package w q = Inr raw" and "parseReferencePackage raw = Some p"
    and "bootstrapTraDatabase (ie_seeds ie) (ie_clock ie) db = (Inr (), db1)"
    and "db_sync db = Some s" and "sy_package_hash s = sha256Json (ie_sha ie) (reference_json p)"
  shows "\<exists>d. syncNrdlReferencePackage ie w q (db, fs) = (Inr d, (db1, fs)) \<and> rd_skipped d \<and>
     db_sync db1 = Some s \<and> (rq_save_url q \<longrightarrow> rd_url d = trim_opt (rq_url q))"
proof -
  have "db_sync db1 = Some s" using bootstrap_keeps [OF assms(6)] assms(7) by auto
  then show ?thesis
    using assms by (simp add: syncNrdlReferencePackage_def run_sync_def getReferenceSyncState_def)
qed

definition demo_reference :: jval where
  "demo_reference = JObj
     [(''metadata'', JObj [(''version_id'', JStr ''v1''), (''release_date'', JStr ''2026''),
        (''publisher'', JStr ''p''), (''package_hash'', JStr ''h'')]),
      (''drugs'', JArr [JObj [(''drug_id'', JStr ''D1''), (''generic_name'', JStr ''g''),
        (''active_ingredient'', JStr ''a''), (''atc_code'', JStr ''A10'')]]),
      (''payment_rules'', JArr [JObj [(''rule_id'', JStr ''R1''), (''drug_id'', JStr '' D1 ''),
        (''rule_category'', JStr ''LAB_LIMIT''), (''target_key'', JStr ''k''),
        (''comparison_operator'', JStr ''>=''), (''comparison_value'', JStr ''1''),
        (''alert_message'', JStr ''m'')]])]"

definition demo_reference_package :: reference_package where
  "demo_reference_package =
     \<lparr>rk_schema = None, rk_version_id = ''v1'', rk_release_date = ''2026'', rk_publisher = ''p'',
      rk_package_hash = ''h'',
      rk_drugs = [(\<lparr>dr_drug_id = ''D1'', dr_generic = ''g'', dr_ingredient = ''a'', dr_atc = ''A10'',
                    dr_negotiated = 0, dr_expiry = None\<rparr>, JUndef)],
      rk_rules = [\<lparr>pr_rule_id = ''R1'', pr_drug_id = ''D1'', pr_category = ''LAB_LIMIT'',
                   pr_target_key = ''k'', pr_operator = ''>='', pr_value = ''1'', pr_alert = ''m''\<rparr>]\<rparr>"

lemma demo_reference_parses: "parseReferencePackage demo_reference = Some demo_reference_package"
  by code_simp

definition demo_sync :: reference_request where
  "demo_sync = \<lparr>rq_consent = True, rq_session = ''s1'', rq_pack = ''glp1'', rq_label = None,
     rq_package = demo_reference, rq_url = None, rq_save_url = False\<rparr>"

definition demo_web :: web where
  "demo_web = \<lparr>wb_url = (\<lambda>_. None), wb_fetch = (\<lambda>_. None)\<rparr>"

lemma demo_sync_runs:
  "\<exists>d db' fs'. syncNrdlReferencePackage demo_env demo_web demo_sync (empty_db, \<lambda>_. None) = (Inr d, (db', fs')) \<and>
     \<not> rd_skipped d"
proof -
  have t: "trim_opt (Some ''s1'') = Some ''s1''" "trim_opt (Some ''glp1'') = Some ''glp1''"
    "truthy demo_reference" "trim_opt None = (None :: string option)"
    by code_simp+
  obtain d where "bootstrapTraDatabase demo_seeds demo_clock empty_db = (Inr (), seeded_db\<lparr>db_domain := d\<rparr>)"
    using demo_boot by blast
  then show ?thesis
    using t demo_reference_parses
    by (simp add: syncNrdlReferencePackage_def demo_sync_def demo_env_def request_package_def run_sync_def
        sync_tx_def runTraImmediateTransactionSync_def getReferenceSyncState_def Let_def seeded_db_def
        empty_db_def seedNrdlGlp1RulesIfEmpty_def)
qed

lemma sync_installs_package_witness:
  "\<exists>d db' fs' r. syncNrdlReferencePackage demo_env demo_web demo_sync (empty_db, \<lambda>_. None) = (Inr d, (db', fs')) \<and>
     r \<in> set (db_payment db') \<and> pr_rule_id r = ''R1'' \<and> pr_drug_id r = ''D1''"
proof -
  obtain d db' fs' where i: "syncNrdlReferencePackage demo_env demo_web demo_sync (empty_db, \<lambda>_. None) = (Inr d, (db', fs'))"
    and s: "\<not> rd_skipped d"
    using demo_sync_runs by blast
  have t: "truthy demo_reference" by code_simp
  let ?r = "hd (rk_rules demo_reference_package)"
  have l: "last_with pr_rule_id (rk_rules demo_reference_package) ?r"
    by (simp add: last_with_def demo_reference_package_def)
  have "?r \<in> set (db_payment db')"
    using sync_installs_package [OF i s] demo_reference_parses t l
    by (auto simp: demo_sync_def request_package_def)
  then show ?thesis using i by (force simp: demo_reference_package_def)
qed

end
