(* ===== verification/Writes.thy ===== *)
theory Writes
  imports Reference_Sync
begin

text \<open>
  Writing personal data through generated SQL (\<open>tra/device-import.ts\<close>, \<open>tra/personal-write.ts\<close>):
  the preview that asks the language model, the execution of the reviewed statements with its
  hash check, and the write a chat requests.  \<open>run\<close> stands for SQLite running one accepted
  INSERT: the new database and the number of rows.  Appending an event to the audit file always
  succeeds: a failing append after the transaction, which the code would answer as an error with the
  database already changed, is not a branch of the model.
\<close>

type_synonym sql_run = "string \<Rightarrow> tra_db \<Rightarrow> db_error + (tra_db \<times> nat)"

definition hashDeviceImportStatements :: "(string \<Rightarrow> string) \<Rightarrow> string list \<Rightarrow> string" where
  "hashDeviceImportStatements sha statements = sha (join nl statements)"

fun run_statements :: "sql_run \<Rightarrow> string list \<Rightarrow> (tra_db, nat) db_op" where
  "run_statements run [] db = (Inr 0, db)"
| "run_statements run (s # ss) db =
     (case run s db of
        Inl e \<Rightarrow> (Inl e, db)
      | Inr (db', n) \<Rightarrow> bind_op (run_statements run ss) (\<lambda>k. return_op (n + k)) db')"

definition executeDeviceImportStatements :: "sql_run \<Rightarrow> string list \<Rightarrow> (tra_db, nat) db_op" where
  "executeDeviceImportStatements run statements db =
     (case assertDeviceImportStatements statements of
        Inl e \<Rightarrow> (Inl (WriteRefused e), db)
      | Inr _ \<Rightarrow> run_statements run statements db)"

subsection \<open>Device data\<close>

record device_source =
  dv_package :: jval
  dv_url :: "string option"

definition resolveDevicePayload :: "web \<Rightarrow> device_source \<Rightarrow> import_error + jval" where
  "resolveDevicePayload w b =
     (if dv_package b \<noteq> JUndef then Inr (dv_package b)
      else (case trim_opt (dv_url b) of
              None \<Rightarrow> Inl PackageOrUrlRequired | Some u \<Rightarrow> fetchReferencePackageFromUrl w u))"

record write_preview =
  wp_statements :: "string list"
  wp_hash :: string
  wp_tables :: "string list"

text \<open>The statements of a generation that passed the guard.\<close>

definition preview_of :: "(string \<Rightarrow> string) \<Rightarrow> write_result \<Rightarrow> import_error + write_preview" where
  "preview_of sha g =
     (if \<not> wr_verified g \<or> wr_statements g = [] then Inl (GenerationRefused (wr_security_error g))
      else Inr \<lparr>wp_statements = wr_statements g,
                wp_hash = hashDeviceImportStatements sha (wr_statements g), wp_tables = wr_tables g\<rparr>)"

text \<open>
  \<open>llm\<close> maps a prompt to the model's answer, \<open>None\<close> where the call throws; the prompt of a
  payload is an argument.
\<close>

definition previewDeviceImport ::
  "import_env \<Rightarrow> web \<Rightarrow> (string \<Rightarrow> string option) \<Rightarrow> (jval \<Rightarrow> string) \<Rightarrow> device_source \<Rightarrow> tra_db \<Rightarrow>
     (import_error + write_preview) \<times> tra_db" where
  "previewDeviceImport ie w llm prompt b db =
     (case resolveDevicePayload w b of
        Inl e \<Rightarrow> (Inl e, db)
      | Inr payload \<Rightarrow>
          (case bootstrapTraDatabase (ie_seeds ie) (ie_clock ie) db of
             (Inl e, db') \<Rightarrow> (Inl (DatabaseFailed e), db')
           | (Inr _, db') \<Rightarrow>
               (if \<not> opt_truthy (resolvePrimaryUserId db') then (Inl NotMounted, db')
                else (case generateDeviceImportSql llm (prompt payload) of
                        None \<Rightarrow> (Inl LlmThrew, db')
                      | Some g \<Rightarrow> (preview_of (ie_sha ie) g, db')))))"

record device_request =
  dq_consent :: bool
  dq_session :: string
  dq_pack :: "string option"
  dq_label :: "string option"
  dq_statements :: "string list"
  dq_hash :: string

record write_done =
  wd_rows :: nat
  wd_tables :: "string list"
  wd_statements :: nat
  wd_hash :: string

text \<open>The transaction of both writes.\<close>

definition write_tx :: "sql_run \<Rightarrow> string list \<Rightarrow> (tra_db, nat) db_op" where
  "write_tx run statements =
     runTraImmediateTransactionSync (\<lambda>db.
       if \<not> opt_truthy (resolvePrimaryUserId db) then (Inl TraNotInitialized, db)
       else executeDeviceImportStatements run statements db)"

text \<open>
  What both writes do with statements and their hash: the transaction, then one event, granted
  with the number of rows, or refused with none.
\<close>

definition commit_write ::
  "sql_run \<Rightarrow> audit_target \<Rightarrow> string \<Rightarrow> string \<Rightarrow> string option \<Rightarrow> string option \<Rightarrow> string list \<Rightarrow> string list \<Rightarrow>
     string \<Rightarrow> import_state \<Rightarrow> (import_error + write_done) \<times> import_state" where
  "commit_write run t session pack okLabel failLabel statements tables hash st =
     (case write_tx run statements (fst st) of
        (Inr n, db) \<Rightarrow>
          (Inr \<lparr>wd_rows = n, wd_tables = tables, wd_statements = length statements, wd_hash = hash\<rparr>,
           (db, recordDeviceImportAudit t session pack hash tables (int n) True okLabel (snd st)))
      | (Inl e, db) \<Rightarrow>
          (Inl (DatabaseFailed e),
           (db, recordDeviceImportAudit t session pack hash tables 0 False failLabel (snd st))))"

definition importDeviceData ::
  "import_env \<Rightarrow> sql_run \<Rightarrow> device_request \<Rightarrow> import_state \<Rightarrow> (import_error + write_done) \<times> import_state" where
  "importDeviceData ie run q st =
     (let pack = trim_opt (dq_pack q) in
      if \<not> dq_consent q then
        (Inl ConsentRequired,
         (case pack of
            None \<Rightarrow> st
          | Some p \<Rightarrow> (fst st, recordDeviceImportAudit (ie_audit ie) (dq_session q) p (dq_hash q) [] 0 False None (snd st))))
      else (case pack of
        None \<Rightarrow> (Inl AgentPackIdRequired, st)
      | Some p \<Rightarrow>
          let statements = filter (\<lambda>s. s \<noteq> []) (map trim (dq_statements q));
              sqlHash = hashDeviceImportStatements (ie_sha ie) statements
          in if sqlHash \<noteq> dq_hash q then (Inl HashMismatch, st)
             else (case assertDeviceImportStatements statements of
                     Inl e \<Rightarrow> (Inl (SqlRefused e), st)
                   | Inr tables \<Rightarrow>
                       commit_write run (ie_audit ie) (dq_session q) p (dq_label q) None statements tables sqlHash st)))"

subsection \<open>A write from the chat\<close>

record personal_request =
  pq_message :: string
  pq_consent :: bool
  pq_session :: string
  pq_pack :: string

text \<open>
  \<open>prompt\<close> builds the prompt from the message, the profile and the tables the pack may write;
  nothing else depends on these tables.
\<close>

type_synonym write_prompt = "string \<Rightarrow> profile_summary \<Rightarrow> string list option \<Rightarrow> string"

definition profileSnapshotForWrite :: "import_env \<Rightarrow> (tra_db, profile_summary option) db_op" where
  "profileSnapshotForWrite ie =
     bind_op (buildTraHealthProfileSummary (ie_seeds ie) (ie_clock ie))
       (\<lambda>p. return_op (if pf_mounted p then Some p else None))"

definition previewPersonalWrite ::
  "import_env \<Rightarrow> (string \<Rightarrow> string option) \<Rightarrow> write_prompt \<Rightarrow> string list option \<Rightarrow> string \<Rightarrow> tra_db \<Rightarrow>
     (import_error + write_preview) \<times> tra_db" where
  "previewPersonalWrite ie llm prompt writeTables message db =
     (case profileSnapshotForWrite ie db of
        (Inl e, db') \<Rightarrow> (Inl (DatabaseFailed e), db')
      | (Inr None, db') \<Rightarrow> (Inl NotMounted, db')
      | (Inr (Some p), db') \<Rightarrow>
          (case generatePersonalWriteSql llm (prompt message p writeTables) of
             None \<Rightarrow> (Inl LlmThrew, db')
           | Some g \<Rightarrow> (preview_of (ie_sha ie) g, db')))"

definition CHAT_WRITE :: string where "CHAT_WRITE = ''chat-personal-write''"

definition executePersonalWrite ::
  "import_env \<Rightarrow> sql_run \<Rightarrow> (string \<Rightarrow> string option) \<Rightarrow> write_prompt \<Rightarrow> string list option \<Rightarrow>
     personal_request \<Rightarrow> import_state \<Rightarrow> (import_error + write_done) \<times> import_state" where
  "executePersonalWrite ie run llm prompt writeTables q st =
     (if \<not> pq_consent q then
        (Inl ConsentRequired,
         (fst st, recordDeviceImportAudit (ie_audit ie) (pq_session q) (trim (pq_pack q)) ''blocked'' [] 0
            False (Some CHAT_WRITE) (snd st)))
      else (case previewPersonalWrite ie llm prompt writeTables (pq_message q) (fst st) of
              (Inl e, db) \<Rightarrow> (Inl e, (db, snd st))
            | (Inr v, db) \<Rightarrow>
                if wp_hash v = [] then (Inl (GenerationRefused None), (db, snd st))
                else commit_write run (ie_audit ie) (pq_session q) (trim (pq_pack q)) (Some CHAT_WRITE)
                       (Some CHAT_WRITE) (wp_statements v) (wp_tables v) (wp_hash v) (db, snd st)))"

text \<open>A test helper of the source: raw SQL to checked statements.\<close>

definition finalizeDeviceImportSql :: "string \<Rightarrow> write_error + string list" where
  "finalizeDeviceImportSql rawSql =
     (let statements = splitInsertStatements rawSql in
      case assertDeviceImportStatements statements of Inl e \<Rightarrow> Inl e | Inr _ \<Rightarrow> Inr statements)"

subsection \<open>What a write can touch\<close>

text \<open>
  The database with one table blanked: an INSERT into that table is documented to change
  nothing else, the schema having no triggers.
\<close>

definition blanked :: "string \<Rightarrow> tra_db \<Rightarrow> tra_db" where
  "blanked t db =
     (if t = ''user_profile'' then db\<lparr>db_users := []\<rparr>
      else if t = ''body_anthropometrics'' then db\<lparr>db_body := []\<rparr>
      else if t = ''lab_test_results'' then db\<lparr>db_labs := []\<rparr>
      else if t = ''clinical_diagnoses'' then db\<lparr>db_diagnoses := []\<rparr>
      else if t = ''medication_history'' then db\<lparr>db_medications := []\<rparr>
      else if t = ''prescription_context'' then db\<lparr>db_prescription := []\<rparr>
      else if t = ''nrdl_drug_registry'' then db\<lparr>db_drugs := []\<rparr>
      else if t = ''nrdl_payment_rules'' then db\<lparr>db_payment := []\<rparr>
      else if t = ''medication_compliance_standards'' then db\<lparr>db_standards := []\<rparr>
      else if t = ''medication_compliance_ast_rules'' then db\<lparr>db_ast := []\<rparr>
      else if t = ''nrdl_reference_sync_state'' then db\<lparr>db_sync := None\<rparr>
      else if t = ''data_source_registry'' then db\<lparr>db_sources := []\<rparr>
      else if t \<in> {''domain_agents'', ''domain_agent_packs''} then db\<lparr>db_domain := no_tables\<rparr>
      else db\<lparr>db_streams := filter (\<lambda>(n, _). n \<noteq> t) (db_streams db)\<rparr>)"

definition inserts_only :: "sql_run \<Rightarrow> bool" where
  "inserts_only run \<longleftrightarrow> (\<forall>s db db' n t. run s db = Inr (db', n) \<longrightarrow> trim_opt (insert_table s) = Some t \<longrightarrow>
     blanked t db' = blanked t db)"

text \<open>What is left of the database without the tables a device may write.\<close>

definition untouchable :: "tra_db \<Rightarrow> tra_db" where
  "untouchable db =
     db\<lparr>db_body := [], db_labs := [], db_sources := [],
        db_streams := filter (\<lambda>(n, _). \<not> isDeviceImportAllowedTable n) (db_streams db)\<rparr>"

lemma blanked_stream:
  "t \<in> {''device_registry'', ''daily_vitals'', ''wearable_sleep_metrics'', ''wearable_activity_metrics'',
      ''wearable_sleep_epochs''} \<Longrightarrow>
   blanked t db = db\<lparr>db_streams := filter (\<lambda>(n, _). n \<noteq> t) (db_streams db)\<rparr>"
  by (elim insertE emptyE; simp only: blanked_def; simp)

lemma untouchable_blanked:
  assumes "isDeviceImportAllowedTable t"
  shows "untouchable (blanked t db) = untouchable db"
proof -
  have other: "filter (\<lambda>(n, _). \<not> isDeviceImportAllowedTable n) (filter (\<lambda>(n, _). n \<noteq> t) xs) =
      filter (\<lambda>(n, _). \<not> isDeviceImportAllowedTable n) xs" for xs :: "(string \<times> sql_row list) list"
    using assms by (induction xs) auto
  have "t = ''data_source_registry'' \<or> t = ''body_anthropometrics'' \<or> t = ''lab_test_results'' \<or>
      t \<in> {''device_registry'', ''daily_vitals'', ''wearable_sleep_metrics'', ''wearable_activity_metrics'',
        ''wearable_sleep_epochs''}"
    using assms
    by (auto simp only: isDeviceImportAllowedTable_def DEVICE_IMPORT_ALLOWED_TABLES_def list.set insert_iff empty_iff)
  then show ?thesis
  proof (elim disjE)
    assume stream: "t \<in> {''device_registry'', ''daily_vitals'', ''wearable_sleep_metrics'',
        ''wearable_activity_metrics'', ''wearable_sleep_epochs''}"
    show ?thesis
      unfolding blanked_stream [OF stream] untouchable_def by (simp add: other del: filter_filter)
  qed (simp_all add: untouchable_def blanked_def)
qed

lemma insert_untouchable:
  assumes "inserts_only run" and "run s db = Inr (db', n)" and "check_insert s = Inr t"
  shows "untouchable db' = untouchable db"
proof -
  have "trim_opt (insert_table s) = Some t" "isDeviceImportAllowedTable t"
    using assms(3) by (auto simp: check_insert_def split: if_splits option.splits)
  then have "blanked t db' = blanked t db" "isDeviceImportAllowedTable t"
    using assms(1,2) by (auto simp: inserts_only_def)
  then show ?thesis by (metis untouchable_blanked)
qed

lemma run_statements_untouchable:
  assumes "inserts_only run" and "list_all (\<lambda>s. \<exists>t. check_insert s = Inr t) ss"
    and "run_statements run ss db = (Inr n, db')"
  shows "untouchable db' = untouchable db"
  using assms(2,3)
proof (induction ss arbitrary: db n)
  case Nil
  then show ?case by simp
next
  case (Cons s ss)
  then obtain db1 k m where r: "run s db = Inr (db1, k)" "run_statements run ss db1 = (Inr m, db')"
    by (auto simp: bind_op_Inr return_op_def split: sum.splits)
  moreover have "untouchable db1 = untouchable db"
    using insert_untouchable [OF assms(1) r(1)] Cons.prems(1) by auto
  ultimately show ?case using Cons by simp
qed

lemma write_tx_untouchable:
  assumes "inserts_only run" and "write_tx run ss db = (Inr n, db')"
  shows "untouchable db' = untouchable db \<and> opt_truthy (resolvePrimaryUserId db) \<and>
     (\<exists>tables. assertDeviceImportStatements ss = Inr tables)"
proof -
  have w: "opt_truthy (resolvePrimaryUserId db)" "executeDeviceImportStatements run ss db = (Inr n, db')"
    using assms(2) by (auto simp: write_tx_def split: if_splits)
  then obtain tables where a: "assertDeviceImportStatements ss = Inr tables" "run_statements run ss db = (Inr n, db')"
    by (auto simp: executeDeviceImportStatements_def split: sum.splits)
  then obtain ts where ts: "map_result check_insert ss = Inr ts"
    by (auto simp: assertDeviceImportStatements_def split: if_splits sum.splits)
  have "list_all (\<lambda>s. \<exists>t. check_insert s = Inr t) ss"
    using map_result_ok [OF ts] by (auto simp: list_all_iff)
  then show ?thesis
    using run_statements_untouchable [OF assms(1) _ a(2)] a(1) w(1) by simp
qed

lemma write_tx_Inl: "write_tx run ss db = (Inl e, db') \<Longrightarrow> db' = db"
  unfolding write_tx_def by (rule run_tx_Inl)

lemma device_event:
  "\<exists>e. audit_entries (recordDeviceImportAudit t session pack h tables k g l fs (target_dir t)) =
      audit_entries (fs (target_dir t)) @ [e] \<and> ev_step e = DEVICE_IMPORT \<and> (ev_status e = SUCCESS \<longleftrightarrow> g)"
proof -
  have "\<exists>e. audit_entries (recordDeviceImportAudit t session pack h tables k g l fs (target_dir t)) =
      audit_entries (fs (target_dir t)) @ [e] \<and> ev_step e = DEVICE_IMPORT \<and> (ev_status e = SUCCESS \<longleftrightarrow> g) \<and>
      (auditEventMatchesAgentPack e pack \<longleftrightarrow> trim pack \<noteq> [] \<and> trim pack = trim pack)"
    unfolding recordDeviceImportAudit_def
    by (intro record_single_attributed) (simp_all add: obj_keys_def)
  then show ?thesis by blast
qed

definition one_event :: "audit_target \<Rightarrow> audit_fs \<Rightarrow> audit_fs \<Rightarrow> bool \<Rightarrow> bool" where
  "one_event t fs fs' granted \<longleftrightarrow>
     (\<exists>e. audit_entries (fs' (target_dir t)) = audit_entries (fs (target_dir t)) @ [e] \<and>
        ev_step e = DEVICE_IMPORT \<and> (ev_status e = SUCCESS \<longleftrightarrow> granted))"

lemma commit_write_cases:
  assumes "commit_write run t session pack l1 l2 ss tables h (db, fs) = (out, (db', fs'))"
  shows "(isl out \<longrightarrow> db' = db) \<and> (inserts_only run \<longrightarrow> untouchable db' = untouchable db) \<and>
     one_event t fs fs' (\<not> isl out) \<and>
     (\<not> isl out \<longrightarrow> opt_truthy (resolvePrimaryUserId db) \<and> (\<exists>ts. assertDeviceImportStatements ss = Inr ts))"
proof (cases "write_tx run ss db")
  case (Pair r d)
  show ?thesis
  proof (cases r)
    case (Inl e)
    then show ?thesis
      using assms Pair write_tx_Inl [of run ss db e d] device_event [of t session pack h tables 0 False l2 fs]
      by (auto simp: commit_write_def one_event_def)
  next
    case (Inr n)
    then have w: "opt_truthy (resolvePrimaryUserId db) \<and> (\<exists>ts. assertDeviceImportStatements ss = Inr ts)"
      using Pair by (auto simp: write_tx_def executeDeviceImportStatements_def split: if_splits sum.splits)
    with Inr show ?thesis
      using assms Pair write_tx_untouchable [of run ss db n d]
        device_event [of t session pack h tables "int n" True l1 fs]
      by (auto simp: commit_write_def one_event_def)
  qed
qed

interpretation device_tx: atomic_op
  "\<lambda>q db. case importDeviceData ie run q (db, fs) of (out, (db', fs')) \<Rightarrow> ((out, fs'), db')"
  "\<lambda>x. \<not> isl (fst x)" for ie run fs
  by unfold_locales
     (auto simp: importDeviceData_def Let_def dest: commit_write_cases
        split: prod.splits if_splits option.splits sum.splits)

text \<open>
  C32 -- a device import changes the database only if it succeeds; then it had consent, the
  hash the user saw is the hash of the statements run, the guard accepted all of them and a
  profile was mounted.  When an INSERT changes nothing but its table, no other table than the
  eight a device may write ever changes.  Success is always recorded as one granted event, and a
  refusal never as a granted one.
\<close>

theorem device_import_outcome:
  assumes i: "importDeviceData ie run q (db, fs) = (out, (db', fs'))"
  shows "(isl out \<longrightarrow> db' = db) \<and>
    (\<not> isl out \<longrightarrow> dq_consent q \<and> opt_truthy (resolvePrimaryUserId db) \<and> one_event (ie_audit ie) fs fs' True \<and>
       (\<exists>statements tables. statements = filter (\<lambda>s. s \<noteq> []) (map trim (dq_statements q)) \<and>
          hashDeviceImportStatements (ie_sha ie) statements = dq_hash q \<and>
          assertDeviceImportStatements statements = Inr tables)) \<and>
    (inserts_only run \<longrightarrow> untouchable db' = untouchable db) \<and>
    (isl out \<longrightarrow> fs' = fs \<or> one_event (ie_audit ie) fs fs' False)"
proof (cases "dq_consent q \<and> trim_opt (dq_pack q) \<noteq> None \<and>
    hashDeviceImportStatements (ie_sha ie) (filter (\<lambda>s. s \<noteq> []) (map trim (dq_statements q))) = dq_hash q \<and>
    \<not> isl (assertDeviceImportStatements (filter (\<lambda>s. s \<noteq> []) (map trim (dq_statements q))))")
  case True
  then obtain p tables where g: "dq_consent q" "trim_opt (dq_pack q) = Some p"
      "hashDeviceImportStatements (ie_sha ie) (filter (\<lambda>s. s \<noteq> []) (map trim (dq_statements q))) = dq_hash q"
      "assertDeviceImportStatements (filter (\<lambda>s. s \<noteq> []) (map trim (dq_statements q))) = Inr tables"
    by (cases "assertDeviceImportStatements (filter (\<lambda>s. s \<noteq> []) (map trim (dq_statements q)))") auto
  then have "commit_write run (ie_audit ie) (dq_session q) p (dq_label q) None
      (filter (\<lambda>s. s \<noteq> []) (map trim (dq_statements q))) tables (dq_hash q) (db, fs) = (out, (db', fs'))"
    using i by (simp add: importDeviceData_def Let_def)
  from commit_write_cases [OF this] g show ?thesis by (cases "isl out") auto
next
  case False
  then have "isl out \<and> db' = db \<and> (fs' = fs \<or> one_event (ie_audit ie) fs fs' False)"
    using i device_event [of "ie_audit ie" "dq_session q" _ "dq_hash q" "[]" 0 False None fs]
    by (auto simp: importDeviceData_def Let_def one_event_def split: if_splits option.splits sum.splits)
  then show ?thesis by simp
qed

text \<open>The records a chat can never write.\<close>

definition clinical ::
  "tra_db \<Rightarrow> user_row list \<times> diagnosis_row list \<times> medication_row list \<times> standard_row list" where
  "clinical db = (db_users db, db_diagnoses db, db_medications db, db_standards db)"

lemma clinical_untouchable: "untouchable db' = untouchable db \<Longrightarrow> clinical db' = clinical db"
  by (auto simp: untouchable_def clinical_def dest: arg_cong [of _ _ db_users] arg_cong [of _ _ db_diagnoses]
      arg_cong [of _ _ db_medications] arg_cong [of _ _ db_standards])

lemma clinical_bootstrap:
  assumes "bootstrapTraDatabase sd ck db = (r, db1)"
  shows "clinical db1 = clinical db"
  using bootstrap_keeps [OF assms] by (auto simp: clinical_def seedNrdlGlp1RulesIfEmpty_def)

lemma clinical_profile:
  assumes "profileSnapshotForWrite ie db = (r, db1)"
  shows "clinical db1 = clinical db"
  using assms
  by (auto simp: profileSnapshotForWrite_def buildTraHealthProfileSummary_def readGlp1CheckSnapshot_def bind_op_def
      return_op_def split: prod.splits sum.splits option.splits if_splits dest!: clinical_bootstrap)

text \<open>
  C33 -- a write from the chat without consent changes nothing but the audit trail, where one
  refused event is added; with consent, whatever the language model answers, the accounts,
  diagnoses, medications and standards stay as they were when an INSERT changes nothing but its
  table, and a written result comes with a verified generation, whose statements have the hash
  reported, and with one granted event.
\<close>

theorem chat_write_guarded:
  assumes x: "executePersonalWrite ie run llm prompt tables q (db, fs) = (out, (db', fs'))"
  shows "(\<not> pq_consent q \<longrightarrow> out = Inl ConsentRequired \<and> db' = db \<and> one_event (ie_audit ie) fs fs' False) \<and>
    (inserts_only run \<longrightarrow> clinical db' = clinical db) \<and>
    (\<forall>d. out = Inr d \<longrightarrow> one_event (ie_audit ie) fs fs' True \<and>
       (\<exists>v. fst (previewPersonalWrite ie llm prompt tables (pq_message q) db) = Inr v \<and>
          isl (assertDeviceImportStatements (wp_statements v)) = False \<and> wd_hash d = wp_hash v \<and>
          wd_hash d = hashDeviceImportStatements (ie_sha ie) (wp_statements v)))"
proof (cases "pq_consent q")
  case False
  then show ?thesis
    using x device_event [of "ie_audit ie" "pq_session q" "trim (pq_pack q)" "''blocked''" "[]" 0 False
      "Some CHAT_WRITE" fs]
    by (auto simp: executePersonalWrite_def one_event_def)
next
  case consent: True
  obtain r db1 where p: "previewPersonalWrite ie llm prompt tables (pq_message q) db = (r, db1)" by force
  have c1: "clinical db1 = clinical db"
    using p by (auto simp: previewPersonalWrite_def split: prod.splits sum.splits option.splits
        dest!: clinical_profile)
  show ?thesis
  proof (cases "\<exists>v. r = Inr v \<and> wp_hash v \<noteq> []")
    case True
    then obtain v where v: "r = Inr v" "wp_hash v \<noteq> []" by blast
    then have w: "commit_write run (ie_audit ie) (pq_session q) (trim (pq_pack q)) (Some CHAT_WRITE)
        (Some CHAT_WRITE) (wp_statements v) (wp_tables v) (wp_hash v) (db1, fs) = (out, (db', fs'))"
      using x p consent by (simp add: executePersonalWrite_def)
    moreover have "wp_hash v = hashDeviceImportStatements (ie_sha ie) (wp_statements v)"
      using p v by (auto simp: previewPersonalWrite_def preview_of_def split: prod.splits sum.splits option.splits if_splits)
    moreover have "wd_hash d = wp_hash v" if "out = Inr d" for d
      using w that by (auto simp: commit_write_def split: prod.splits sum.splits)
    ultimately show ?thesis
      using commit_write_cases [OF w] p v consent c1 clinical_untouchable [of db' db1] by auto
  next
    case False
    then show ?thesis
      using x p consent c1 by (cases r) (auto simp: executePersonalWrite_def)
  qed
qed

text \<open>
  The tables a pack declares for writing reach the prompt only: for the same answer of the model
  the outcome does not depend on them.
\<close>

lemma write_tables_only_in_prompt:
  assumes "\<And>p. llm (prompt (pq_message q) p ts) = llm (prompt (pq_message q) p us)"
  shows "executePersonalWrite ie run llm prompt ts q st = executePersonalWrite ie run llm prompt us q st"
proof -
  have "previewPersonalWrite ie llm prompt ts (pq_message q) db =
      previewPersonalWrite ie llm prompt us (pq_message q) db" for db
    using assms
    by (simp add: previewPersonalWrite_def generatePersonalWriteSql_def split: prod.split sum.split option.split)
  then show ?thesis by (simp add: executePersonalWrite_def)
qed

subsection \<open>A run\<close>

definition demo_run :: sql_run where
  "demo_run s db =
     (case trim_opt (insert_table s) of
        None \<Rightarrow> Inl (SqlFailure s)
      | Some t \<Rightarrow>
          if t \<in> {''device_registry'', ''daily_vitals''}
          then Inr (db\<lparr>db_streams := db_streams db @ [(t, [[]])]\<rparr>, 1) else Inl (SqlFailure s))"

lemma demo_run_inserts_only: "inserts_only demo_run"
  by (auto simp: inserts_only_def demo_run_def blanked_stream split: if_splits)

definition mounted_db :: tra_db where
  "mounted_db = with_request demo_clock demo_request empty_db"

definition demo_device :: device_request where
  "demo_device = \<lparr>dq_consent = True, dq_session = ''s1'', dq_pack = Some ''glp1'', dq_label = None,
     dq_statements = demo_inserts, dq_hash = join nl demo_inserts\<rparr>"

lemma mounted_user: "opt_truthy (resolvePrimaryUserId mounted_db)"
  by (simp add: mounted_db_def users_request resolvePrimaryUserId_def empty_db_def demo_request_def
      request_user_def TRA_LOCAL_USER_ID_def opt_truthy_def)

lemma demo_device_runs:
  "\<exists>d db' fs'. importDeviceData demo_env demo_run demo_device (mounted_db, \<lambda>_. None) = (Inr d, (db', fs')) \<and>
     wd_rows d = 2"
proof -
  have e: "filter (\<lambda>s. s \<noteq> []) (map trim demo_inserts) = demo_inserts" "trim_opt (Some ''glp1'') = Some ''glp1''"
    "assertDeviceImportStatements demo_inserts = Inr [''daily_vitals'', ''device_registry'']"
    "trim_opt (insert_table ''INSERT OR IGNORE INTO device_registry (device_id) VALUES (1)'') = Some ''device_registry''"
    "trim_opt (insert_table ''insert into daily_vitals (heart_rate) values (60)'') = Some ''daily_vitals''"
    by code_simp+
  have "run_statements demo_run demo_inserts mounted_db = (Inr 2, mounted_db\<lparr>db_streams :=
      db_streams mounted_db @ [(''device_registry'', [[]])] @ [(''daily_vitals'', [[]])]\<rparr>)"
    by (simp add: demo_inserts_def demo_run_def e bind_op_def return_op_def)
  then show ?thesis
    using e mounted_user
    by (simp add: importDeviceData_def demo_device_def demo_env_def Let_def hashDeviceImportStatements_def
        commit_write_def write_tx_def runTraImmediateTransactionSync_def executeDeviceImportStatements_def)
qed

lemma device_import_outcome_witness:
  "\<exists>d db' fs'. importDeviceData demo_env demo_run demo_device (mounted_db, \<lambda>_. None) = (Inr d, (db', fs')) \<and>
     untouchable db' = untouchable mounted_db \<and> one_event demo_target (\<lambda>_. None) fs' True"
proof -
  obtain d db' fs' where i:
      "importDeviceData demo_env demo_run demo_device (mounted_db, \<lambda>_. None) = (Inr d, (db', fs'))"
    using demo_device_runs by blast
  show ?thesis
    using device_import_outcome [OF i] demo_run_inserts_only i by (auto simp: demo_env_def)
qed

lemma chat_write_guarded_witness:
  "\<exists>fs'. snd (executePersonalWrite demo_env demo_run (\<lambda>_. Some ''DROP TABLE users'') (\<lambda>m p t. m) None
       \<lparr>pq_message = ''m'', pq_consent = False, pq_session = ''s1'', pq_pack = ''glp1''\<rparr>
       (mounted_db, \<lambda>_. None)) = (mounted_db, fs') \<and> one_event demo_target (\<lambda>_. None) fs' False"
proof -
  obtain out db' fs' where i: "executePersonalWrite demo_env demo_run (\<lambda>_. Some ''DROP TABLE users'')
       (\<lambda>m p t. m) None \<lparr>pq_message = ''m'', pq_consent = False, pq_session = ''s1'', pq_pack = ''glp1''\<rparr>
       (mounted_db, \<lambda>_. None) = (out, (db', fs'))"
    using prod_cases3 by blast
  show ?thesis using chat_write_guarded [OF i] i by (simp add: demo_env_def)
qed

end
