(* ===== verification/Ledger.thy ===== *)
theory Ledger
  imports Jsonl_Log
begin

text \<open>
  The evidence ledger (\<open>trustclaw/ledger\<close>): receipts appended to a JSONL file, each
  holding the proof hash of its predecessor.  The SHA-256 digest is the parameter
  \<open>sha\<close>; what the theorems need of it is that it does not collide on the payloads at
  hand.  A line that parses is a receipt, as the code's cast says.
\<close>

record receipt =
  block_height :: int
  content_hash :: string
  previous_evidence_hash :: "string option"
  proof_hash :: string
  rc_audit_trail_id :: string
  rc_session_id :: string
  rc_agent_pack_id :: string
  committed_at :: int

record commit_input =
  ci_audit_trail_id :: string
  ci_session_id :: string
  ci_agent_pack_id :: string
  ci_content_hash :: string

datatype chain_fault = NegativeHeight | PreviousMismatch | ProofMismatch

datatype chain_result = ChainOk | ChainBroken int chain_fault

type_synonym ledger_file = "receipt jfile"

subsection \<open>Hashes\<close>

definition hashEvidenceContent :: "(string \<Rightarrow> string) \<Rightarrow> jval \<Rightarrow> string" where
  "hashEvidenceContent sha context = sha (json_stringify context)"

definition proof_payload ::
  "string option \<Rightarrow> string \<Rightarrow> string \<Rightarrow> string \<Rightarrow> string \<Rightarrow> string" where
  "proof_payload prev content trail session pack =
     json_stringify (JObj
       [(''previous_evidence_hash'', nullable_str prev),
        (''content_hash'', JStr content),
        (''audit_trail_id'', JStr trail),
        (''session_id'', JStr session),
        (''agent_pack_id'', JStr pack)])"

definition computeEvidenceProofHash ::
  "(string \<Rightarrow> string) \<Rightarrow> string option \<Rightarrow> string \<Rightarrow> string \<Rightarrow> string \<Rightarrow> string \<Rightarrow> string" where
  "computeEvidenceProofHash sha prev content trail session pack =
     sha (proof_payload prev content trail session pack)"

subsection \<open>The store\<close>

definition readEvidenceReceipts :: "ledger_file \<Rightarrow> receipt list" where
  "readEvidenceReceipts f = (case f of None \<Rightarrow> [] | Some ls \<Rightarrow> parsed_lines ls)"

definition readEvidenceChainHead :: "ledger_file \<Rightarrow> receipt option" where
  "readEvidenceChainHead f =
     (let rs = readEvidenceReceipts f in if rs = [] then None else Some (last rs))"

definition appendEvidenceReceipt :: "ledger_file \<Rightarrow> receipt \<Rightarrow> ledger_file" where
  "appendEvidenceReceipt f r = append_line f r"

definition clearEvidenceLedger :: "ledger_file \<Rightarrow> ledger_file" where
  "clearEvidenceLedger f = Some []"

interpretation ledger_log: append_log readEvidenceReceipts appendEvidenceReceipt clearEvidenceLedger
  by unfold_locales
     (auto simp: readEvidenceReceipts_def appendEvidenceReceipt_def clearEvidenceLedger_def
       append_line_def file_lines_def split: option.split)

subsection \<open>Commit and verify\<close>

definition commitEvidenceReceipt ::
  "(string \<Rightarrow> string) \<Rightarrow> int \<Rightarrow> commit_input \<Rightarrow> ledger_file \<Rightarrow> receipt \<times> ledger_file" where
  "commitEvidenceReceipt sha now_ms i f =
     (let head = readEvidenceChainHead f;
          prev = map_option proof_hash head;
          height = (case head of Some h \<Rightarrow> block_height h + 1 | None \<Rightarrow> 0);
          r = \<lparr>block_height = height,
               content_hash = ci_content_hash i,
               previous_evidence_hash = prev,
               proof_hash = computeEvidenceProofHash sha prev (ci_content_hash i)
                              (ci_audit_trail_id i) (ci_session_id i) (ci_agent_pack_id i),
               rc_audit_trail_id = ci_audit_trail_id i,
               rc_session_id = ci_session_id i,
               rc_agent_pack_id = ci_agent_pack_id i,
               committed_at = now_ms div 1000\<rparr>
      in (r, appendEvidenceReceipt f r))"

definition receipt_payload :: "receipt \<Rightarrow> string" where
  "receipt_payload r = proof_payload (previous_evidence_hash r) (content_hash r)
     (rc_audit_trail_id r) (rc_session_id r) (rc_agent_pack_id r)"

fun verify_from :: "(string \<Rightarrow> string) \<Rightarrow> string option \<Rightarrow> receipt list \<Rightarrow> chain_result" where
  "verify_from sha expectedPrevious [] = ChainOk"
| "verify_from sha expectedPrevious (r # rs) =
     (if block_height r < 0 then ChainBroken (block_height r) NegativeHeight
      else if previous_evidence_hash r \<noteq> expectedPrevious
        then ChainBroken (block_height r) PreviousMismatch
      else if proof_hash r \<noteq> computeEvidenceProofHash sha (previous_evidence_hash r)
                (content_hash r) (rc_audit_trail_id r) (rc_session_id r) (rc_agent_pack_id r)
        then ChainBroken (block_height r) ProofMismatch
      else verify_from sha (Some (proof_hash r)) rs)"

definition verifyEvidenceChain :: "(string \<Rightarrow> string) \<Rightarrow> receipt list \<Rightarrow> chain_result" where
  "verifyEvidenceChain sha rs = verify_from sha None rs"

subsection \<open>The specification: a chain link by link\<close>

definition link_ok :: "(string \<Rightarrow> string) \<Rightarrow> string option \<Rightarrow> receipt \<Rightarrow> bool" where
  "link_ok sha prev r \<longleftrightarrow> 0 \<le> block_height r \<and> previous_evidence_hash r = prev \<and>
     proof_hash r = sha (receipt_payload r)"

definition prev_of :: "receipt list \<Rightarrow> nat \<Rightarrow> string option" where
  "prev_of rs i = (if i = 0 then None else Some (proof_hash (rs ! (i - 1))))"

definition chain_ok :: "(string \<Rightarrow> string) \<Rightarrow> receipt list \<Rightarrow> bool" where
  "chain_ok sha rs \<longleftrightarrow> (\<forall>i < length rs. link_ok sha (prev_of rs i) (rs ! i))"

definition chain_tip :: "string option \<Rightarrow> receipt list \<Rightarrow> string option" where
  "chain_tip prev rs = (if rs = [] then prev else Some (proof_hash (last rs)))"

lemma chain_tip_Cons: "chain_tip prev (r # rs) = chain_tip (Some (proof_hash r)) rs"
  by (simp add: chain_tip_def)

lemma verify_from_append:
  "verify_from sha prev (rs @ qs) =
     (case verify_from sha prev rs of
        ChainOk \<Rightarrow> verify_from sha (chain_tip prev rs) qs | e \<Rightarrow> e)"
proof (induction rs arbitrary: prev)
  case Nil
  then show ?case by (simp add: chain_tip_def)
next
  case (Cons r rs)
  then show ?case by (simp add: chain_tip_Cons split: chain_result.split)
qed

lemma verify_from_single:
  "verify_from sha prev [r] = ChainOk \<longleftrightarrow> link_ok sha prev r"
  by (auto simp: link_ok_def computeEvidenceProofHash_def receipt_payload_def)

lemma verify_from_Cons:
  "verify_from sha prev (r # rs) = ChainOk \<longleftrightarrow>
     link_ok sha prev r \<and> verify_from sha (Some (proof_hash r)) rs = ChainOk"
  by (auto simp: link_ok_def computeEvidenceProofHash_def receipt_payload_def)

lemma chain_ok_snoc:
  "chain_ok sha (rs @ [r]) \<longleftrightarrow> chain_ok sha rs \<and> link_ok sha (chain_tip None rs) r"
proof -
  have "prev_of (rs @ [r]) i = prev_of rs i" if "i < length rs" for i
    using that by (auto simp: prev_of_def nth_append)
  moreover have "prev_of (rs @ [r]) (length rs) = chain_tip None rs"
    by (auto simp: prev_of_def chain_tip_def nth_append last_conv_nth)
  ultimately show ?thesis
    by (auto simp: chain_ok_def less_Suc_eq nth_append)
qed

lemma verify_chain_ok: "verifyEvidenceChain sha rs = ChainOk \<longleftrightarrow> chain_ok sha rs"
proof (induction rs rule: rev_induct)
  case Nil
  then show ?case by (simp add: verifyEvidenceChain_def chain_ok_def)
next
  case (snoc r rs)
  then show ?case
    by (cases "verify_from sha None rs")
       (simp_all add: verifyEvidenceChain_def verify_from_append chain_ok_snoc
        verify_from_single [symmetric] del: verify_from.simps)
qed

lemma commit_receipts:
  "commitEvidenceReceipt sha now i f = (r, f') \<Longrightarrow>
     readEvidenceReceipts f' = readEvidenceReceipts f @ [r]"
  by (auto simp: commitEvidenceReceipt_def Let_def ledger_log.entries_append)

lemma commit_link:
  assumes "commitEvidenceReceipt sha now i f = (r, f')"
    and "\<forall>q \<in> set (readEvidenceReceipts f). 0 \<le> block_height q"
  shows "link_ok sha (chain_tip None (readEvidenceReceipts f)) r"
  using assms
  by (auto simp: commitEvidenceReceipt_def Let_def link_ok_def chain_tip_def receipt_payload_def
      computeEvidenceProofHash_def readEvidenceChainHead_def dest!: last_in_set split: if_splits)

lemma chain_ok_heights: "chain_ok sha rs \<Longrightarrow> \<forall>q \<in> set rs. 0 \<le> block_height q"
  by (auto simp: chain_ok_def link_ok_def in_set_conv_nth)

text \<open>A commit extends an intact ledger to an intact ledger, by exactly one receipt.\<close>

theorem commit_preserves_chain:
  assumes "verifyEvidenceChain sha (readEvidenceReceipts f) = ChainOk"
    and "commitEvidenceReceipt sha now i f = (r, f')"
  shows "verifyEvidenceChain sha (readEvidenceReceipts f') = ChainOk \<and>
         readEvidenceReceipts f' = readEvidenceReceipts f @ [r] \<and>
         readEvidenceChainHead f' = Some r"
proof -
  have rs: "readEvidenceReceipts f' = readEvidenceReceipts f @ [r]"
    using assms(2) by (rule commit_receipts)
  moreover have "chain_ok sha (readEvidenceReceipts f @ [r])"
    using assms commit_link chain_ok_heights by (auto simp: chain_ok_snoc verify_chain_ok)
  ultimately show ?thesis by (simp add: verify_chain_ok readEvidenceChainHead_def)
qed

subsection \<open>Runs of the ledger\<close>

inductive ledger_reachable :: "(string \<Rightarrow> string) \<Rightarrow> ledger_file \<Rightarrow> bool" for sha where
  absent: "ledger_reachable sha None"
| commit: "ledger_reachable sha f \<Longrightarrow> commitEvidenceReceipt sha now i f = (r, f') \<Longrightarrow>
     ledger_reachable sha f'"
| clear: "ledger_reachable sha f \<Longrightarrow> ledger_reachable sha (clearEvidenceLedger f)"

definition ledger_inv :: "(string \<Rightarrow> string) \<Rightarrow> ledger_file \<Rightarrow> bool" where
  "ledger_inv sha f \<longleftrightarrow> chain_ok sha (readEvidenceReceipts f) \<and>
     map block_height (readEvidenceReceipts f) = map int [0..<length (readEvidenceReceipts f)]"

lemma commit_height:
  assumes "commitEvidenceReceipt sha now i f = (r, f')"
    and "map block_height (readEvidenceReceipts f) = map int [0..<length (readEvidenceReceipts f)]"
  shows "block_height r = int (length (readEvidenceReceipts f))"
proof (cases "readEvidenceReceipts f" rule: rev_cases)
  case Nil
  with assms show ?thesis
    by (auto simp: commitEvidenceReceipt_def Let_def readEvidenceChainHead_def)
next
  case (snoc qs q)
  with assms(2) have "block_height q = int (length qs)" by simp
  with snoc assms(1) show ?thesis
    by (auto simp: commitEvidenceReceipt_def Let_def readEvidenceChainHead_def)
qed

lemma ledger_inv_commit:
  assumes inv: "ledger_inv sha f" and c: "commitEvidenceReceipt sha now i f = (r, f')"
  shows "ledger_inv sha f'"
proof -
  have "chain_ok sha (readEvidenceReceipts f @ [r])"
    using inv c commit_link chain_ok_heights by (auto simp: ledger_inv_def chain_ok_snoc)
  with inv commit_height [OF c] commit_receipts [OF c] show ?thesis
    by (simp add: ledger_inv_def)
qed

lemma ledger_inv_empty: "readEvidenceReceipts f = [] \<Longrightarrow> ledger_inv sha f"
  by (simp add: ledger_inv_def chain_ok_def)

lemma ledger_reachable_inv: "ledger_reachable sha f \<Longrightarrow> ledger_inv sha f"
proof (induction rule: ledger_reachable.induct)
  case absent
  show ?case by (rule ledger_inv_empty) (simp add: readEvidenceReceipts_def)
next
  case (commit f now i r f')
  then show ?case by (blast intro: ledger_inv_commit)
next
  case (clear f)
  show ?case by (rule ledger_inv_empty) (rule ledger_log.entries_clear)
qed

subsection \<open>What a proof hash commits to\<close>

lemma json_quote_eq: "json_quote s = json_quote t \<longleftrightarrow> s = t"
  using json_quote_inj [of s "[]" t "[]"] by simp

lemma proof_payload_inj:
  "proof_payload p c t s a = proof_payload p' c' t' s' a' \<longleftrightarrow>
     p = p' \<and> c = c' \<and> t = t' \<and> s = s' \<and> a = a'"
proof -
  have null: "json_quote x @ y \<noteq> CHR ''n'' # z" for x y z by (simp add: json_quote_def)
  show ?thesis
    by (cases p; cases p')
       (auto simp: proof_payload_def nullable_str_def json_quote_inj json_quote_eq null null [symmetric])
qed

definition no_collision :: "(string \<Rightarrow> string) \<Rightarrow> receipt list \<Rightarrow> bool" where
  "no_collision sha rs \<longleftrightarrow> inj_on sha (set (map receipt_payload rs))"

definition same_evidence :: "receipt \<Rightarrow> receipt \<Rightarrow> bool" where
  "same_evidence r q \<longleftrightarrow> content_hash r = content_hash q \<and>
     previous_evidence_hash r = previous_evidence_hash q \<and>
     rc_audit_trail_id r = rc_audit_trail_id q \<and> rc_session_id r = rc_session_id q \<and>
     rc_agent_pack_id r = rc_agent_pack_id q"

lemma no_collision_payload:
  assumes "no_collision sha zs" "r \<in> set zs" "q \<in> set zs"
    and "sha (receipt_payload r) = sha (receipt_payload q)"
  shows "same_evidence r q"
proof -
  have "receipt_payload r = receipt_payload q"
    using assms by (auto simp: no_collision_def dest: inj_onD)
  then show ?thesis by (auto simp: receipt_payload_def proof_payload_inj same_evidence_def)
qed

lemma chain_same_tip:
  assumes "no_collision sha (rs @ qs)" "chain_ok sha rs" "chain_ok sha qs"
    and "chain_tip None rs = chain_tip None qs"
  shows "list_all2 same_evidence rs qs"
  using assms
proof (induction rs arbitrary: qs rule: rev_induct)
  case Nil
  then show ?case by (auto simp: chain_tip_def split: if_splits)
next
  case (snoc r rs)
  from snoc.prems(4) obtain qs' q where qs: "qs = qs' @ [q]"
    by (cases qs rule: rev_cases) (auto simp: chain_tip_def)
  with snoc.prems have hash: "sha (receipt_payload r) = sha (receipt_payload q)"
    by (auto simp: chain_ok_snoc link_ok_def chain_tip_def)
  have same: "same_evidence r q"
    by (rule no_collision_payload [OF snoc.prems(1) _ _ hash]) (auto simp: qs)
  have "no_collision sha (rs @ qs')"
    using snoc.prems(1) by (auto simp: no_collision_def qs intro: inj_on_subset)
  then have "list_all2 same_evidence rs qs'"
    using snoc.prems qs same by (intro snoc.IH) (auto simp: chain_ok_snoc link_ok_def same_evidence_def)
  with same qs show ?case by (auto intro: list_all2_appendI)
qed

lemma chain_link_at: "chain_ok sha rs \<Longrightarrow> i < length rs \<Longrightarrow> link_ok sha (prev_of rs i) (rs ! i)"
  by (simp add: chain_ok_def)

lemma chain_same_proof:
  assumes nc: "no_collision sha rs" and ok: "chain_ok sha rs"
    and "i < length rs" "j < length rs" "proof_hash (rs ! i) = proof_hash (rs ! j)"
  shows "prev_of rs i = prev_of rs j"
proof -
  have links: "link_ok sha (prev_of rs i) (rs ! i)" "link_ok sha (prev_of rs j) (rs ! j)"
    using assms by (auto intro: chain_link_at)
  then have "sha (receipt_payload (rs ! i)) = sha (receipt_payload (rs ! j))"
    using assms(5) by (simp add: link_ok_def)
  then have "same_evidence (rs ! i) (rs ! j)"
    using assms by (auto intro: no_collision_payload [OF nc])
  with links show ?thesis by (simp add: same_evidence_def link_ok_def)
qed

lemma chain_proofs_distinct:
  assumes nc: "no_collision sha rs" and ok: "chain_ok sha rs"
  shows "i < j \<Longrightarrow> j < length rs \<Longrightarrow> proof_hash (rs ! i) \<noteq> proof_hash (rs ! j)"
proof (induction i arbitrary: j)
  case (0 j)
  then have "0 < length rs" by linarith
  with 0 show ?case using chain_same_proof [OF nc ok, of 0 j] by (auto simp: prev_of_def)
next
  case (Suc i j)
  then have "proof_hash (rs ! i) \<noteq> proof_hash (rs ! (j - 1))" by simp
  with Suc.prems show ?case using chain_same_proof [OF nc ok, of "Suc i" j]
    by (auto simp: prev_of_def)
qed

lemma chain_prefix_same_tip:
  assumes nc: "no_collision sha rs" and ok: "chain_ok sha rs"
    and p: "prefix qs rs" and tip: "chain_tip None qs = chain_tip None rs"
  shows "qs = rs"
proof (rule ccontr)
  assume ne: "qs \<noteq> rs"
  with p have len: "length qs < length rs"
    by (auto simp: prefix_def)
  with tip have "qs \<noteq> []" by (auto simp: chain_tip_def split: if_splits)
  with len p tip have "proof_hash (rs ! (length qs - 1)) = proof_hash (rs ! (length rs - 1))"
    by (auto simp: chain_tip_def prefix_def last_conv_nth nth_append split: if_splits)
  moreover have "length qs - 1 < length rs - 1" using len \<open>qs \<noteq> []\<close> by (cases qs) auto
  ultimately show False
    using chain_proofs_distinct [OF nc ok, of "length qs - 1" "length rs - 1"] len
    by (cases rs) auto
qed

lemma no_collision_mono: "no_collision sha rs \<Longrightarrow> set qs \<subseteq> set rs \<Longrightarrow> no_collision sha qs"
  by (auto simp: no_collision_def intro: inj_on_subset)

lemma filter_prefix_snoc:
  "P r \<Longrightarrow> prefix (filter P rs @ [r]) (rs @ [r]) \<longleftrightarrow> filter P rs = rs"
proof
  assume P: "P r" and "prefix (filter P rs @ [r]) (rs @ [r])"
  moreover have False if "prefix (filter P rs @ [r]) rs"
  proof -
    from that obtain zs where zs: "rs = filter P rs @ r # zs" by (auto simp: prefix_def)
    from arg_cong [OF zs, of "\<lambda>l. length (filter P l)"] P show False by simp
  qed
  ultimately show "filter P rs = rs" by auto
qed simp

lemma chain_filter_prefix:
  assumes "no_collision sha rs" "chain_ok sha rs"
  shows "chain_ok sha (filter P rs) \<longleftrightarrow> prefix (filter P rs) rs"
  using assms
proof (induction rs rule: rev_induct)
  case Nil
  then show ?case by (simp add: chain_ok_def)
next
  case (snoc r rs)
  have nc: "no_collision sha rs" using snoc.prems(1) by (rule no_collision_mono) auto
  have ok: "chain_ok sha rs" and link: "link_ok sha (chain_tip None rs) r"
    using snoc.prems(2) by (auto simp: chain_ok_snoc)
  have IH: "chain_ok sha (filter P rs) \<longleftrightarrow> prefix (filter P rs) rs"
    by (rule snoc.IH [OF nc ok])
  show ?case
  proof (cases "P r")
    case False
    have "filter P rs \<noteq> rs @ [r]"
    proof
      assume "filter P rs = rs @ [r]"
      from arg_cong [OF this, of length] length_filter_le [of P rs] show False by simp
    qed
    with False IH show ?thesis by simp
  next
    case True
    have "chain_ok sha (filter P (rs @ [r])) \<longleftrightarrow>
        chain_ok sha (filter P rs) \<and> link_ok sha (chain_tip None (filter P rs)) r"
      using True by (simp add: chain_ok_snoc)
    also have "\<dots> \<longleftrightarrow> prefix (filter P rs) rs \<and> chain_tip None (filter P rs) = chain_tip None rs"
      using IH link by (auto simp: link_ok_def)
    also have "\<dots> \<longleftrightarrow> filter P rs = rs"
      using chain_prefix_same_tip [OF nc ok] by auto
    also have "\<dots> \<longleftrightarrow> prefix (filter P rs @ [r]) (rs @ [r])"
      using filter_prefix_snoc [of P r rs] True by blast
    finally show ?thesis using True by (simp del: prefix_snoc)
  qed
qed

definition fault_of :: "string option \<Rightarrow> receipt \<Rightarrow> chain_fault" where
  "fault_of prev r =
     (if block_height r < 0 then NegativeHeight
      else if previous_evidence_hash r \<noteq> prev then PreviousMismatch else ProofMismatch)"

lemma verify_from_broken:
  "verify_from sha prev [r] = ChainBroken h e \<longleftrightarrow>
     \<not> link_ok sha prev r \<and> h = block_height r \<and> e = fault_of prev r"
  by (auto simp: link_ok_def computeEvidenceProofHash_def receipt_payload_def fault_of_def)

text \<open>
  Verification fails exactly when some receipt breaks its link, and it reports the
  height of the first such receipt and the check that it fails.
\<close>

theorem verify_reports_first_fault:
  "verifyEvidenceChain sha rs = ChainBroken h e \<longleftrightarrow>
     (\<exists>i < length rs. chain_ok sha (take i rs) \<and> \<not> link_ok sha (prev_of rs i) (rs ! i) \<and>
        h = block_height (rs ! i) \<and> e = fault_of (prev_of rs i) (rs ! i))"
proof (induction rs rule: rev_induct)
  case Nil
  then show ?case by (simp add: verifyEvidenceChain_def)
next
  case (snoc r rs)
  have prev: "prev_of (rs @ [r]) i = (if i < length rs then prev_of rs i else chain_tip None rs)"
    if "i \<le> length rs" for i
    using that by (auto simp: prev_of_def chain_tip_def nth_append last_conv_nth)
  show ?case
  proof (cases "verify_from sha None rs")
    case ChainOk
    then have ok: "chain_ok sha rs" by (simp add: verify_chain_ok [symmetric] verifyEvidenceChain_def)
    then have "link_ok sha (prev_of rs i) (rs ! i)" if "i < length rs" for i
      using that by (simp add: chain_ok_def)
    with ok ChainOk prev show ?thesis
      by (auto simp: verifyEvidenceChain_def verify_from_append verify_from_broken nth_append
          less_Suc_eq simp del: verify_from.simps)
  next
    case (ChainBroken h' e')
    then have "\<not> chain_ok sha rs" by (simp add: verify_chain_ok [symmetric] verifyEvidenceChain_def)
    with ChainBroken prev snoc show ?thesis
      by (auto simp: verifyEvidenceChain_def verify_from_append nth_append less_Suc_eq
          simp del: verify_from.simps)
  qed
qed

text \<open>
  C1 -- every ledger the program can produce verifies, and its heights count up from 0
  without a gap.
\<close>

theorem reachable_ledger_verifies:
  assumes "ledger_reachable sha f"
  shows "verifyEvidenceChain sha (readEvidenceReceipts f) = ChainOk \<and>
         map block_height (readEvidenceReceipts f) = map int [0..<length (readEvidenceReceipts f)]"
  using ledger_reachable_inv [OF assms] by (simp add: ledger_inv_def verify_chain_ok)

text \<open>
  C2 -- the proof hash of the last receipt commits to the whole history: two verified
  ledgers with the same tip hold the same evidence at every height, unless the digest
  collides on one of their payloads.
\<close>

theorem tip_hash_commits_history:
  assumes "verifyEvidenceChain sha rs = ChainOk" and "verifyEvidenceChain sha qs = ChainOk"
    and "no_collision sha (rs @ qs)"
    and "map_option proof_hash (readEvidenceChainHead (Some (map Parsed rs))) =
         map_option proof_hash (readEvidenceChainHead (Some (map Parsed qs)))"
  shows "list_all2 same_evidence rs qs"
proof (rule chain_same_tip [OF assms(3)])
  show "chain_tip None rs = chain_tip None qs"
    using assms(4) by (auto simp: readEvidenceChainHead_def readEvidenceReceipts_def Let_def
        chain_tip_def split: if_splits)
qed (use assms in \<open>simp_all add: verify_chain_ok\<close>)

text \<open>
  Verifying the receipts of one pack alone succeeds only when that pack wrote the
  first receipts of the ledger and no other pack wrote between them.
\<close>

theorem filtered_view_verifies_iff_prefix:
  assumes "verifyEvidenceChain sha rs = ChainOk" and "no_collision sha rs"
  shows "verifyEvidenceChain sha (filter (\<lambda>r. rc_agent_pack_id r = p) rs) = ChainOk \<longleftrightarrow>
         prefix (filter (\<lambda>r. rc_agent_pack_id r = p) rs) rs"
  using assms by (simp add: verify_chain_ok chain_filter_prefix)

subsection \<open>Concrete ledgers\<close>

text \<open>Two packs commit in turn; the identity function stands for a digest without collisions.\<close>

definition demo_input :: "string \<Rightarrow> commit_input" where
  "demo_input pack = \<lparr>ci_audit_trail_id = ''t'', ci_session_id = ''s'',
     ci_agent_pack_id = pack, ci_content_hash = ''c''\<rparr>"

definition demo_ledger :: "int \<Rightarrow> ledger_file" where
  "demo_ledger now =
     snd (commitEvidenceReceipt (\<lambda>x. x) now (demo_input ''b'')
       (snd (commitEvidenceReceipt (\<lambda>x. x) now (demo_input ''a'') None)))"

lemma demo_ledger_reachable: "ledger_reachable (\<lambda>x. x) (demo_ledger now)"
  unfolding demo_ledger_def
  by (rule ledger_reachable.commit [OF ledger_reachable.commit [OF ledger_reachable.absent]])
     (rule prod.collapse [symmetric])+

lemma demo_ledger_ok:
  "verifyEvidenceChain (\<lambda>x. x) (readEvidenceReceipts (demo_ledger now)) = ChainOk"
  using ledger_reachable_inv [OF demo_ledger_reachable] by (simp add: ledger_inv_def verify_chain_ok)

lemma no_collision_id: "no_collision (\<lambda>x. x) rs"
  by (simp add: no_collision_def)

lemma commit_preserves_chain_witness:
  "verifyEvidenceChain (\<lambda>x. x) (readEvidenceReceipts
     (snd (commitEvidenceReceipt (\<lambda>x. x) 7000 (demo_input ''a'') (demo_ledger 5000)))) = ChainOk"
  using commit_preserves_chain [OF demo_ledger_ok prod.collapse [symmetric]] by blast

lemma reachable_ledger_verifies_witness:
  "map block_height (readEvidenceReceipts (demo_ledger 5000)) = [0, 1]"
  using reachable_ledger_verifies [OF demo_ledger_reachable, of 5000]
  by (simp add: demo_ledger_def commitEvidenceReceipt_def Let_def ledger_log.entries_append
      readEvidenceReceipts_def readEvidenceChainHead_def appendEvidenceReceipt_def append_line_def
      file_lines_def)

lemma tip_hash_commits_history_witness:
  "list_all2 same_evidence (readEvidenceReceipts (demo_ledger 5000))
     (readEvidenceReceipts (demo_ledger 9000))"
proof (rule tip_hash_commits_history [OF demo_ledger_ok demo_ledger_ok no_collision_id])
  show "map_option proof_hash (readEvidenceChainHead
          (Some (map Parsed (readEvidenceReceipts (demo_ledger 5000))))) =
        map_option proof_hash (readEvidenceChainHead
          (Some (map Parsed (readEvidenceReceipts (demo_ledger 9000)))))"
    by (simp add: demo_ledger_def commitEvidenceReceipt_def Let_def ledger_log.entries_append
      readEvidenceReceipts_def readEvidenceChainHead_def appendEvidenceReceipt_def append_line_def
      file_lines_def)
qed

lemma filtered_view_verifies_iff_prefix_witness:
  "verifyEvidenceChain (\<lambda>x. x)
     (filter (\<lambda>r. rc_agent_pack_id r = ''b'') (readEvidenceReceipts (demo_ledger 5000))) \<noteq> ChainOk"
proof
  let ?rs = "readEvidenceReceipts (demo_ledger 5000)"
  have rs: "map rc_agent_pack_id ?rs = [''a'', ''b'']"
    by (simp add: demo_ledger_def commitEvidenceReceipt_def Let_def ledger_log.entries_append
      demo_input_def readEvidenceReceipts_def appendEvidenceReceipt_def append_line_def file_lines_def)
  assume "verifyEvidenceChain (\<lambda>x. x) (filter (\<lambda>r. rc_agent_pack_id r = ''b'') ?rs) = ChainOk"
  then have "prefix (filter (\<lambda>r. rc_agent_pack_id r = ''b'') ?rs) ?rs"
    by (rule filtered_view_verifies_iff_prefix
        [OF demo_ledger_ok no_collision_id, THEN iffD1])
  with rs show False by (auto simp: map_eq_Cons_conv)
qed

end
