(* ===== verification/Pipeline.thy ===== *)
theory Pipeline
  imports Writes Ledger
begin

text \<open>
  The chat pipeline of a pack (\<open>runtime/pipeline\<close>, \<open>runtime/coordinator/context-attribution.ts\<close>):
  SQL generation, query, rule evaluation, decision and ledger commit, each with its audit event.
  The database is the one at the path the chat was given.  Appending to the files of the audit trail and
  the ledger always succeeds: a chat that throws because an event cannot be written, which can happen
  after its receipt was committed, is not a branch of the model.
\<close>

subsection \<open>Decisions\<close>

record citation =
  ct_index :: int
  ct_label :: string
  ct_value :: jval
  ct_rule_id :: string

record decision =
  dc_response :: string
  dc_citations :: "citation list"

definition TRA_MISSING_VITALS_MESSAGE :: string where
  "TRA_MISSING_VITALS_MESSAGE =
     (utf8 [0xE7, 0x94, 0xB1, 0xE4, 0xBA, 0x8E, 0xE6, 0x9C, 0xAC, 0xE5, 0x9C, 0xB0, 0xE6, 0x95, 0xB0,
        0xE6, 0x8D, 0xAE, 0xE7, 0xA9, 0xBA, 0xE9, 0x97, 0xB4, 0xE7, 0xBC, 0xBA, 0xE5, 0xB0, 0x91, 0xE5,
        0x85, 0xB3, 0xE9, 0x94, 0xAE, 0xE5, 0x81, 0xA5, 0xE5, 0xBA, 0xB7, 0xE6, 0x8C, 0x87, 0xE6, 0xA0,
        0x87, 0xEF, 0xBC, 0x88, 0xE5, 0xA6, 0x82, 0xE4, 0xBD, 0x93, 0xE9, 0x87,
        0x8D] @ ''/'' @ utf8 [0xE8, 0xA1, 0x80, 0xE7, 0xB3, 0x96, 0xEF, 0xBC, 0x89, 0xEF, 0xBC, 0x8C,
        0xE6, 0x97, 0xA0, 0xE6, 0xB3, 0x95, 0xE5, 0x81, 0x9A, 0xE5, 0x87, 0xBA, 0xE7, 0x94, 0xA8, 0xE8,
        0x8D, 0xAF, 0xE8, 0xAF, 0x84, 0xE4, 0xBC, 0xB0, 0xEF, 0xBC, 0x8C, 0xE8, 0xAF, 0xB7, 0xE5, 0x85,
        0x88, 0xE5, 0xAE, 0x8C, 0xE5, 0x96, 0x84, 0xE6, 0x9C, 0xAC, 0xE5, 0x9C, 0xB0, 0xE6, 0x95, 0xB0,
        0xE6, 0x8D, 0xAE, 0xE7, 0xA9, 0xBA, 0xE9, 0x97, 0xB4, 0xE9, 0x85, 0x8D, 0xE7, 0xBD, 0xAE, 0xE3,
        0x80, 0x82])"

definition evidence_tag :: "citation \<Rightarrow> string" where
  "evidence_tag c = ''[Evidence #'' @ show_int (ct_index c) @ '']''"

definition citations_of :: "rule_matrix \<Rightarrow> citation list" where
  "citations_of m =
     map (\<lambda>(i, r). \<lparr>ct_index = int i + 1, ct_label = re_name r, ct_value = re_value r, ct_rule_id = re_rule_id r\<rparr>)
       (List.enumerate 0 (rm_entries m))"

definition fail_line :: "citation list \<Rightarrow> rule_entry \<Rightarrow> string" where
  "fail_line cs r =
     (case find (\<lambda>c. ct_rule_id c = re_rule_id r) cs of Some c \<Rightarrow> evidence_tag c | None \<Rightarrow> []) @
     re_name r @ (utf8 [0xEF, 0xBC, 0x88, 0xE5, 0xBD, 0x93, 0xE5, 0x89, 0x8D, 0xE5, 0x80, 0xBC] @ '' '') @
     (if nullish (re_value r) then (utf8 [0xE7, 0xBC, 0xBA, 0xE5, 0xA4,
        0xB1]) else js_to_string (re_value r)) @
     (utf8 [0xEF, 0xBC, 0x8C, 0xE8, 0xA6, 0x81, 0xE6, 0xB1,
        0x82] @ '' '') @ re_threshold r @ (utf8 [0xEF, 0xBC, 0x89])"

definition buildGlp1Decision :: "string \<Rightarrow> jval obj option \<Rightarrow> rule_matrix \<Rightarrow> decision" where
  "buildGlp1Decision userQuery snapshot m =
     (case snapshot of
        None \<Rightarrow> \<lparr>dc_response = TRA_MISSING_VITALS_MESSAGE, dc_citations = []\<rparr>
      | Some _ \<Rightarrow>
          let cs = citations_of m;
              failed = filter (\<lambda>r. re_status r = FAIL) (rm_entries m);
              passed = filter (\<lambda>r. re_status r = PASS) (rm_entries m)
          in if rm_overall m = PASS
             then \<lparr>dc_response =
                 (utf8 [0xE6, 0xA0, 0xB9, 0xE6, 0x8D, 0xAE, 0xE6, 0x82, 0xA8, 0xE6, 0x9C, 0xAC, 0xE5,
        0x9C, 0xB0] @ '' TRA '' @ utf8 [0xE6, 0x95, 0xB0, 0xE6, 0x8D, 0xAE, 0xE4, 0xB8,
        0x8E] @ '' NRDL '' @ utf8 [0xE5, 0x8F, 0xB8, 0xE7, 0xBE, 0x8E, 0xE6, 0xA0, 0xBC, 0xE9, 0xB2,
        0x81, 0xE8, 0x82, 0xBD, 0xE8, 0xA7, 0x84, 0xE5, 0x88, 0x99, 0xE8, 0xAF, 0x84, 0xE4, 0xBC, 0xB0,
        0xEF, 0xBC, 0x8C, 0xE5, 0xBD, 0x93, 0xE5, 0x89, 0x8D, 0xE6, 0x8C, 0x87, 0xE6, 0xA0, 0x87, 0xE6,
        0xBB, 0xA1, 0xE8, 0xB6, 0xB3, 0xE7, 0x94, 0xA8, 0xE8, 0x8D, 0xAF, 0xE8, 0xB7, 0xAF, 0xE5, 0xBE,
        0x84, 0xE7, 0x9A, 0x84, 0xE5, 0x89, 0x8D, 0xE7, 0xBD, 0xAE, 0xE6, 0x9D, 0xA1, 0xE4, 0xBB, 0xB6,
        0xE3, 0x80, 0x82]) @
                 concat (map evidence_tag cs) @ '' '' @
                 (utf8 [0xE5, 0xA6, 0x82, 0xE9, 0x9C, 0x80, 0xE6, 0xAD, 0xA3, 0xE5, 0xBC, 0x8F, 0xE7,
        0x94, 0xA8, 0xE8, 0x8D, 0xAF, 0xE5, 0x86, 0xB3, 0xE7, 0xAD, 0x96, 0xEF, 0xBC, 0x8C, 0xE8, 0xAF,
        0xB7, 0xE7, 0xBB, 0x93, 0xE5, 0x90, 0x88, 0xE4, 0xB8, 0xB4, 0xE5, 0xBA, 0x8A, 0xE5, 0x8C, 0xBB,
        0xE7, 0x94, 0x9F, 0xE6, 0x84, 0x8F, 0xE8, 0xA7, 0x81, 0xE3, 0x80, 0x82]), dc_citations = cs\<rparr>
             else \<lparr>dc_response =
                 (utf8 [0xE5, 0x9F, 0xBA, 0xE4, 0xBA, 0x8E, 0xE6, 0x9C, 0xAC, 0xE5, 0x9C, 0xB0, 0xE6,
        0x95, 0xB0, 0xE6, 0x8D, 0xAE, 0xE7, 0xA9, 0xBA, 0xE9, 0x97, 0xB4, 0xE4, 0xB8,
        0x8E] @ '' NRDL '' @ utf8 [0xE8, 0xA7, 0x84, 0xE5, 0x88, 0x99, 0xEF, 0xBC, 0x8C, 0xE5, 0xBD,
        0x93, 0xE5, 0x89, 0x8D, 0xE5, 0xB0, 0x9A, 0xE4, 0xB8, 0x8D, 0xE6, 0xBB, 0xA1, 0xE8, 0xB6, 0xB3,
        0xE5, 0x8F, 0xB8, 0xE7, 0xBE, 0x8E, 0xE6, 0xA0, 0xBC, 0xE9, 0xB2, 0x81, 0xE8, 0x82, 0xBD, 0xE7,
        0x94, 0xA8, 0xE8, 0x8D, 0xAF, 0xE8, 0xB7, 0xAF, 0xE5, 0xBE, 0x84, 0xEF, 0xBC, 0x9A]) @
                 join (utf8 [0xEF, 0xBC, 0x9B]) (map (fail_line cs) failed) @ (utf8 [0xE3, 0x80, 0x82]) @
                 (if passed = [] then [] else (utf8 [0xE5, 0xB7, 0xB2, 0xE6, 0xBB, 0xA1, 0xE8, 0xB6,
        0xB3] @ '' '') @ show_int (int (length passed)) @ ('' '' @ utf8 [0xE9, 0xA1, 0xB9, 0xE6, 0x9D,
        0xA1, 0xE4, 0xBB, 0xB6, 0xE3, 0x80, 0x82])) @
                 (utf8 [0xE6, 0x82, 0xA8, 0xE7, 0x9A, 0x84, 0xE9, 0x97, 0xAE, 0xE9, 0xA2, 0x98, 0xE3,
        0x80, 0x8C]) @ trim userQuery @ (utf8 [0xE3, 0x80, 0x8D, 0xE9, 0x9C, 0x80, 0xE5, 0x85, 0x88,
        0xE8, 0xA1, 0xA5, 0xE9, 0xBD, 0x90, 0xE6, 0x88, 0x96, 0xE4, 0xBF, 0xAE, 0xE6, 0xAD, 0xA3, 0xE7,
        0x9B, 0xB8, 0xE5, 0x85, 0xB3, 0xE6, 0x8C, 0x87, 0xE6, 0xA0, 0x87, 0xE5, 0x90, 0x8E, 0xE5, 0x86,
        0x8D, 0xE8, 0xAF, 0x84, 0xE4, 0xBC, 0xB0, 0xE3, 0x80, 0x82]), dc_citations = cs\<rparr>)"

definition buildPackAgentDecision :: "agent_pack \<Rightarrow> string \<Rightarrow> jval obj option \<Rightarrow> rule_matrix \<Rightarrow> decision" where
  "buildPackAgentDecision p userQuery snapshot m =
     (if pl_decisionBuilder (ap_pipeline p) = PassThrough
      then \<lparr>dc_response = ''('' @ ap_name_en p @
               '') Query recorded. Summarize TRA query results and audit metadata only; '' @
               ''do not provide clinical prescribing advice. User question: '' @ userQuery,
             dc_citations = []\<rparr>
      else buildGlp1Decision userQuery snapshot m)"

definition packIncludesStage :: "agent_pack \<Rightarrow> step_code \<Rightarrow> bool" where
  "packIncludesStage p stage \<longleftrightarrow> stage \<in> set (pl_stages (ap_pipeline p))"

text \<open>
  \<open>slice(0, n)\<close> counts UTF-16 units, the model's text is UTF-8: a byte is worth the units of the
  character it starts, a continuation byte nothing.  A surrogate pair the cut would split is left out.
\<close>

definition utf16_units :: "char \<Rightarrow> nat" where
  "utf16_units c = (if chr_in c 128 191 then 0 else if chr_in c 240 255 then 2 else 1)"

fun utf16_take :: "nat \<Rightarrow> string \<Rightarrow> string" where
  "utf16_take n [] = []"
| "utf16_take n (c # s) =
     (if utf16_units c \<le> n then c # utf16_take (n - utf16_units c) s else [])"

subsection \<open>A chat\<close>

record chat_env =
  ce_host :: host
  ce_sha :: "string \<Rightarrow> string"
  ce_seeds :: db_seeds
  ce_clock :: clock
  ce_parse_ast :: "string \<Rightarrow> ast_node option"
  ce_query :: sql_query
  ce_files :: pack_fs
  ce_cwd :: string
  ce_default_template :: string
  ce_default_schema :: string
  ce_schema :: "string list \<Rightarrow> string"
  ce_registry :: registry
  ce_rand :: string
  ce_tick :: "step_code \<Rightarrow> tick"
  ce_commit_ms :: int
  ce_duration :: int

record chat_input =
  ch_session :: string
  ch_message :: string
  ch_pack :: "string option"

record chat_options =
  co_auditDir :: "string option"
  co_evidenceDir :: "string option"
  co_llm :: "string \<Rightarrow> string option"
  co_agentPack :: "resolved_pack option"

record chat_state =
  cs_db :: tra_db
  cs_audit :: audit_fs
  cs_ledger :: "string \<Rightarrow> ledger_file"

datatype chat_error = ChatPack pack_error | ChatDb db_error | ChatLlm

datatype block_status = Tra_Not_Initialized | Security_Blocked

record ledger_ref =
  lr_height :: int
  lr_proof :: string
  lr_previous :: "string option"

record runtime_context =
  rx_session :: string
  rx_query :: string
  rx_pack :: string
  rx_stages :: "step_code list"
  rx_sql :: text2sql_result
  rx_rows :: query_result
  rx_matrix :: rule_matrix
  rx_decision :: decision
  rx_trail :: string
  rx_receipt :: "ledger_ref option"

datatype chat_result = ChatOk runtime_context | ChatBlocked block_status string string

definition no_overrides :: path_overrides where
  "no_overrides = \<lparr>po_dbPath = None, po_auditDir = None, po_evidenceDir = None\<rparr>"

text \<open>\<open>options.auditDir\<close> is used untrimmed where it is not blank.\<close>

definition resolveAuditDir :: "chat_env \<Rightarrow> chat_options \<Rightarrow> string" where
  "resolveAuditDir e opts =
     (case (co_auditDir opts, trim_opt (co_auditDir opts)) of
        (Some d, Some _) \<Rightarrow> d | _ \<Rightarrow> resolveTraAuditDir no_overrides (ce_host e))"

definition resolveEvidenceDir :: "chat_env \<Rightarrow> chat_options \<Rightarrow> string" where
  "resolveEvidenceDir e opts =
     (case (co_evidenceDir opts, trim_opt (co_evidenceDir opts)) of
        (Some d, Some _) \<Rightarrow> d | _ \<Rightarrow> resolveTraEvidenceDir no_overrides (ce_host e))"

definition resolveAgentPack :: "chat_env \<Rightarrow> chat_input \<Rightarrow> chat_options \<Rightarrow> pack_error + resolved_pack" where
  "resolveAgentPack e i opts =
     (case co_agentPack opts of
        Some r \<Rightarrow> Inr r | None \<Rightarrow> resolve_pack (ce_registry e) (ch_pack i) None)"

definition createAuditTrailId :: "chat_env \<Rightarrow> string" where
  "createAuditTrailId e = ''aud_'' @ ce_rand e"

definition skipped_matrix :: rule_matrix where
  "skipped_matrix = \<lparr>rm_ruleset = ''skipped'', rm_drug_id = ''none'', rm_entries = [], rm_overall = PASS\<rparr>"

definition evaluateRulesForPack :: "chat_env \<Rightarrow> agent_pack \<Rightarrow> string \<Rightarrow> (tra_db, rule_matrix) db_op" where
  "evaluateRulesForPack e p message =
     (if ru_engine (ap_rules p) = NoEngine then return_op skipped_matrix
      else bind_op (bootstrapTraDatabase (ce_seeds e) (ce_clock e)) (\<lambda>_ db.
        let drug = resolveGlp1EvalDrugId message (getActiveComplianceStandard db \<noteq> None) in
        bind_op (evaluateGlp1RulesFromDb (ce_parse_ast e) (ce_seeds e) (ce_clock e) drug)
          (\<lambda>res. return_op (rr_matrix res)) db))"

text \<open>One audit event of the chat.\<close>

definition chat_record ::
  "chat_env \<Rightarrow> chat_input \<Rightarrow> chat_options \<Rightarrow> record_params \<Rightarrow> chat_state \<Rightarrow> chat_state" where
  "chat_record e i opts p st =
     st\<lparr>cs_audit := snd (record_event (ce_tick e (rp_step p)) p
          (new_recorder (resolveAuditDir e opts) (createAuditTrailId e) (ch_session i), cs_audit st))\<rparr>"

definition user_input :: "chat_input \<Rightarrow> agent_pack \<Rightarrow> jval obj" where
  "user_input i p = [(''user_query'', JStr (ch_message i)), (''agent_pack_id'', JStr (ap_id p))]"

definition query_error_text :: "query_error \<Rightarrow> string" where
  "query_error_text q =
     (case q of
        EmptySql \<Rightarrow> ''Empty SQL is not allowed.''
      | NotSelect \<Rightarrow> ''Only SELECT statements are allowed.''
      | ForbiddenKeyword \<Rightarrow> ''Forbidden SQL keyword detected.''
      | MultipleStatements \<Rightarrow> ''Multiple SQL statements are not allowed.'')"

definition verdict_text :: "verdict \<Rightarrow> string" where
  "verdict_text v = (case v of PASS \<Rightarrow> ''PASS'' | FAIL \<Rightarrow> ''FAIL'')"

definition citation_json :: "citation \<Rightarrow> jval" where
  "citation_json c = JObj [(''index'', JInt (ct_index c)), (''label'', JStr (ct_label c)), (''value'', ct_value c),
     (''rule_id'', JStr (ct_rule_id c)), (''source'', JStr ''nrdl_payment_rules'')]"

definition rule_entry_json :: "rule_entry \<Rightarrow> jval" where
  "rule_entry_json r = JObj [(''rule_id'', JStr (re_rule_id r)), (''name'', JStr (re_name r)),
     (''status'', JStr (verdict_text (re_status r))), (''value'', re_value r), (''threshold'', JStr (re_threshold r)),
     (''rule_category'', JStr (re_category r)), (''target_key'', JStr (re_target_key r))]"

definition source_text :: "sql_source \<Rightarrow> string" where
  "source_text s = (case s of FromLlm \<Rightarrow> ''llm'' | FromEmpty \<Rightarrow> ''empty'')"

text \<open>\<open>partialContext\<close>, whose JSON text is hashed into the ledger.\<close>

definition context_json :: "int \<Rightarrow> runtime_context \<Rightarrow> jval" where
  "context_json duration x =
     JObj [(''session_id'', JStr (rx_session x)), (''user_query'', JStr (rx_query x)),
       (''agent_pack_id'', JStr (rx_pack x)),
       (''pipeline_stages'', JObj
         [(''text2sql'', JObj [(''sql'', JStr (ts_sql (rx_sql x))), (''duration_ms'', JInt duration),
             (''source'', JStr (source_text (ts_source (rx_sql x))))]),
          (''db_query'', JObj [(''raw_data'', JObj [(''columns'', JArr (map JStr (qr_columns (rx_rows x)))),
             (''rows'', JArr (map JObj (qr_rows (rx_rows x)))), (''row_count'', JInt (int (qr_row_count (rx_rows x))))])]),
          (''rule_evaluation'', JObj [(''evaluated_rules'', JArr (map rule_entry_json (rm_entries (rx_matrix x)))),
             (''overall_status'', JStr (verdict_text (rm_overall (rx_matrix x)))),
             (''active_ruleset'', JStr (rm_ruleset (rx_matrix x)))]),
          (''agent_decision'', JObj [(''response'', JStr (dc_response (rx_decision x))),
             (''citations'', JArr (map citation_json (dc_citations (rx_decision x))))])]),
       (''audit_trail_id'', JStr (rx_trail x))]"

subsection \<open>The stages\<close>

definition commit_stage ::
  "chat_env \<Rightarrow> chat_input \<Rightarrow> chat_options \<Rightarrow> agent_pack \<Rightarrow> runtime_context \<Rightarrow> chat_state \<Rightarrow>
     chat_result \<times> chat_state" where
  "commit_stage e i opts p x st =
     (let h = hashEvidenceContent (ce_sha e) (context_json (ce_duration e) x);
          dir = resolveEvidenceDir e opts
      in if packIncludesStage p LEDGER_COMMIT
         then (case commitEvidenceReceipt (ce_sha e) (ce_commit_ms e)
                 \<lparr>ci_audit_trail_id = createAuditTrailId e, ci_session_id = ch_session i,
                  ci_agent_pack_id = ap_id p, ci_content_hash = h\<rparr> (cs_ledger st dir) of
                 (r, f) \<Rightarrow>
                   (ChatOk (x\<lparr>rx_receipt := Some \<lparr>lr_height = block_height r, lr_proof = proof_hash r,
                        lr_previous = previous_evidence_hash r\<rparr>\<rparr>),
                    chat_record e i opts
                      \<lparr>rp_step = LEDGER_COMMIT, rp_component = ''EvidenceLedger.Commit'',
                       rp_input = [(''audit_trail_id'', JStr (createAuditTrailId e)), (''agent_pack_id'', JStr (ap_id p))],
                       rp_output = [(''block_height'', JInt (block_height r)), (''proof_hash'', JStr (proof_hash r)),
                         (''previous_evidence_hash'', nullable_str (previous_evidence_hash r)),
                         (''content_hash'', JStr (content_hash r))],
                       rp_status = SUCCESS\<rparr>
                      (st\<lparr>cs_ledger := (cs_ledger st)(dir := f)\<rparr>)))
         else (ChatOk x, st))"

definition decision_stage ::
  "chat_env \<Rightarrow> chat_input \<Rightarrow> chat_options \<Rightarrow> agent_pack \<Rightarrow> jval obj \<Rightarrow> text2sql_result \<Rightarrow> query_result \<Rightarrow>
     rule_matrix \<Rightarrow> chat_state \<Rightarrow> chat_result \<times> chat_state" where
  "decision_stage e i opts p snapshot t rows m st =
     (let d = buildPackAgentDecision p (ch_message i) (Some snapshot) m;
          st' = chat_record e i opts
            \<lparr>rp_step = AGENT_DECISION, rp_component = au_decisionComponent (ap_audit p), rp_input = user_input i p,
             rp_output = [(''response_preview'', JStr (utf16_take 200 (dc_response d))),
               (''citation_count'', JInt (int (length (dc_citations d)))),
               (''citations'', JArr (map citation_json (dc_citations d)))] @
               (if packIncludesStage p RULE_EVAL
                then [(''rule_outcome'', JStr (if rm_overall m = FAIL then ''soft_fail'' else ''pass''))] else []),
             rp_status = SUCCESS\<rparr> st
      in commit_stage e i opts p
           \<lparr>rx_session = ch_session i, rx_query = ch_message i, rx_pack = ap_id p,
            rx_stages = pl_stages (ap_pipeline p), rx_sql = t, rx_rows = rows, rx_matrix = m, rx_decision = d,
            rx_trail = createAuditTrailId e, rx_receipt = None\<rparr> st')"

definition rule_stage ::
  "chat_env \<Rightarrow> chat_input \<Rightarrow> chat_options \<Rightarrow> agent_pack \<Rightarrow> jval obj \<Rightarrow> text2sql_result \<Rightarrow> query_result \<Rightarrow>
     chat_state \<Rightarrow> (chat_error + chat_result) \<times> chat_state" where
  "rule_stage e i opts p snapshot t rows st =
     (if packIncludesStage p RULE_EVAL
      then (case evaluateRulesForPack e p (ch_message i) (cs_db st) of
              (Inl err, db) \<Rightarrow> (Inl (ChatDb err), st\<lparr>cs_db := db\<rparr>)
            | (Inr m, db) \<Rightarrow>
                map_prod Inr id (decision_stage e i opts p snapshot t rows m
                  (chat_record e i opts
                    \<lparr>rp_step = RULE_EVAL,
                     rp_component = (case au_ruleEvalComponent (ap_audit p) of
                        Some c \<Rightarrow> c | None \<Rightarrow> ''AgentRuntime.ExecRule''),
                     rp_input = [(''active_ruleset'', JStr (rm_ruleset m)), (''agent_pack_id'', JStr (ap_id p))],
                     rp_output = [(''overall_status'', JStr (verdict_text (rm_overall m))),
                       (''evaluated_rule_count'', JInt (int (length (rm_entries m)))),
                       (''failed_rule_count'',
                          JInt (int (length (filter (\<lambda>r. re_status r = FAIL) (rm_entries m)))))],
                     rp_status = (if rm_overall m = FAIL then FAILURE else SUCCESS)\<rparr>
                    (st\<lparr>cs_db := db\<rparr>))))
      else map_prod Inr id (decision_stage e i opts p snapshot t rows skipped_matrix st))"

text \<open>
  The \<open>skipped\<close> branch of the source (an empty statement) is not reached: an empty generation is
  not verified, so it is blocked before (\<open>verified_sql_not_empty\<close>).
\<close>

definition query_stage ::
  "chat_env \<Rightarrow> chat_input \<Rightarrow> chat_options \<Rightarrow> agent_pack \<Rightarrow> jval obj \<Rightarrow> text2sql_result \<Rightarrow> chat_state \<Rightarrow>
     (chat_error + chat_result) \<times> chat_state" where
  "query_stage e i opts p snapshot t st =
     (case queryTra (ce_query e) (ce_seeds e) (ce_clock e) (ts_sql t) (cs_db st) of
        (Inl err, db) \<Rightarrow> (Inl (ChatDb err), st\<lparr>cs_db := db\<rparr>)
      | (Inr rows, db) \<Rightarrow>
          rule_stage e i opts p snapshot t rows
            (chat_record e i opts
              \<lparr>rp_step = DB_QUERY, rp_component = ''TRA.Query'',
               rp_input = [(''sql'', JStr (ts_sql t)), (''skipped'', JBool (ts_sql t = [])),
                 (''agent_pack_id'', JStr (ap_id p))],
               rp_output = [(''row_count'', JInt (int (qr_row_count rows))),
                 (''columns'', JArr (map JStr (qr_columns rows)))],
               rp_status = SUCCESS\<rparr>
              (st\<lparr>cs_db := db\<rparr>)))"

definition security_text :: "text2sql_result \<Rightarrow> string \<Rightarrow> string" where
  "security_text t fallback =
     (case ts_security_error t of Some q \<Rightarrow> query_error_text q | None \<Rightarrow> fallback)"

definition text2sql_stage ::
  "chat_env \<Rightarrow> chat_input \<Rightarrow> chat_options \<Rightarrow> resolved_pack \<Rightarrow> jval obj \<Rightarrow> chat_state \<Rightarrow>
     (chat_error + chat_result) \<times> chat_state" where
  "text2sql_stage e i opts r snapshot st =
     (let p = rv_doc r in
      case loadAgentPackText2SqlTemplate (ce_files e) (ce_cwd e) (ce_default_template e) r of
        Inl err \<Rightarrow> (Inl (ChatPack err), st)
      | Inr template \<Rightarrow>
          (case generateText2Sql (co_llm opts)
                  (buildText2SqlPrompt (ce_default_schema e) (ce_default_template e) (ch_message i)
                     (Some (ce_schema e (dt_readTables (ap_data p)))) (Some template)) of
             None \<Rightarrow> (Inl ChatLlm, st)
           | Some t \<Rightarrow>
               if ts_security_error t \<noteq> None \<or> \<not> ts_read_only t
               then (Inr (ChatBlocked Security_Blocked
                       (security_text t ''Text2SQL failed read-only verification.'') (createAuditTrailId e)),
                     chat_record e i opts
                       \<lparr>rp_step = TEXT2SQL_GEN, rp_component = ''AgentRuntime.Text2SQL'', rp_input = user_input i p,
                        rp_output = [(''sql'', JStr (ts_sql t)),
                          (''security_error'', JStr (security_text t ''read_only_verification failed''))],
                        rp_status = BLOCKED\<rparr> st)
               else query_stage e i opts p snapshot t
                 (chat_record e i opts
                   \<lparr>rp_step = TEXT2SQL_GEN, rp_component = ''AgentRuntime.Text2SQL'', rp_input = user_input i p,
                    rp_output = [(''sql'', JStr (ts_sql t)), (''duration_ms'', JInt (ce_duration e)),
                      (''allowed_tables'', JArr (map JStr (ts_tables t)))],
                    rp_status = SUCCESS\<rparr> st)))"

definition gate_step :: "agent_pack \<Rightarrow> step_code" where
  "gate_step p = (case pl_stages (ap_pipeline p) of s # _ \<Rightarrow> s | [] \<Rightarrow> TEXT2SQL_GEN)"

definition runTrustclawChat ::
  "chat_env \<Rightarrow> chat_input \<Rightarrow> chat_options \<Rightarrow> chat_state \<Rightarrow> (chat_error + chat_result) \<times> chat_state" where
  "runTrustclawChat e i opts st =
     (case resolveAgentPack e i opts of
        Inl err \<Rightarrow> (Inl (ChatPack err), st)
      | Inr r \<Rightarrow>
          (case readGlp1CheckSnapshot (ce_seeds e) (ce_clock e) (cs_db st) of
             (Inl err, db) \<Rightarrow> (Inl (ChatDb err), st\<lparr>cs_db := db\<rparr>)
           | (Inr None, db) \<Rightarrow>
               (Inr (ChatBlocked Tra_Not_Initialized
                  ''Trust runtime is not initialized. Call POST /api/tra/init first.'' (createAuditTrailId e)),
                chat_record e i opts
                  \<lparr>rp_step = gate_step (rv_doc r), rp_component = ''TRA.Query'', rp_input = user_input i (rv_doc r),
                   rp_output = [(''reason'', JStr ''tra_not_initialized'')], rp_status = BLOCKED\<rparr>
                  (st\<lparr>cs_db := db\<rparr>))
           | (Inr (Some snapshot), db) \<Rightarrow> text2sql_stage e i opts r snapshot (st\<lparr>cs_db := db\<rparr>)))"

subsection \<open>Attribution to the coordinator\<close>

record attributed_context = runtime_context +
  ax_source :: pack_source
  ax_locked :: bool
  ax_mismatch :: bool
  ax_suggested :: string

definition withCoordinatorAttribution :: "runtime_context \<Rightarrow> pack_resolution \<Rightarrow> attributed_context" where
  "withCoordinatorAttribution x c =
     runtime_context.extend x (attributed_context.fields (res_source c) (res_locked c) (res_mismatch c)
       (res_suggested_pack_id c))"

lemma attribution_keeps_context:
  "runtime_context.truncate (withCoordinatorAttribution x c) = x \<and> ax_source (withCoordinatorAttribution x c) = res_source c"
  by (simp add: withCoordinatorAttribution_def runtime_context.defs attributed_context.defs)

subsection \<open>What a chat leaves behind\<close>

text \<open>Trail, step and status of the events in the chat's directory.\<close>

definition chat_log :: "chat_env \<Rightarrow> chat_options \<Rightarrow> chat_state \<Rightarrow> (string \<times> step_code \<times> event_status) list" where
  "chat_log e opts st =
     map (\<lambda>v. (ev_trail v, ev_step v, ev_status v)) (audit_entries (cs_audit st (resolveAuditDir e opts)))"

lemma chat_log_record [simp]:
  "chat_log e opts (chat_record e i opts p st) =
     chat_log e opts st @ [(createAuditTrailId e, rp_step p, rp_status p)]"
  by (simp add: chat_log_def chat_record_def record_event_def new_recorder_def Let_def audit_log.entries_append)

lemma chat_record_keeps [simp]:
  "cs_ledger (chat_record e i opts p st) = cs_ledger st"
  "cs_db (chat_record e i opts p st) = cs_db st"
  by (simp_all add: chat_record_def)

lemma chat_log_upd [simp]:
  "chat_log e opts (st\<lparr>cs_db := db\<rparr>) = chat_log e opts st"
  "chat_log e opts (st\<lparr>cs_ledger := l\<rparr>) = chat_log e opts st"
  by (simp_all add: chat_log_def)

definition stamped :: "chat_env \<Rightarrow> step_code \<times> event_status \<Rightarrow> string \<times> step_code \<times> event_status" where
  "stamped e sq = (createAuditTrailId e, sq)"

text \<open>The events a complete run of the pack adds, given the verdict of the rules.\<close>

definition complete_log :: "agent_pack \<Rightarrow> verdict \<Rightarrow> (step_code \<times> event_status) list" where
  "complete_log p v =
     [(TEXT2SQL_GEN, SUCCESS), (DB_QUERY, SUCCESS)] @
     (if packIncludesStage p RULE_EVAL then [(RULE_EVAL, if v = FAIL then FAILURE else SUCCESS)] else []) @
     [(AGENT_DECISION, SUCCESS)] @
     (if packIncludesStage p LEDGER_COMMIT then [(LEDGER_COMMIT, SUCCESS)] else [])"

definition ledger_step ::
  "chat_env \<Rightarrow> chat_options \<Rightarrow> agent_pack \<Rightarrow> runtime_context \<Rightarrow> chat_state \<Rightarrow> chat_state \<Rightarrow> bool" where
  "ledger_step e opts p x st st' \<longleftrightarrow>
     (if packIncludesStage p LEDGER_COMMIT
      then \<exists>r. readEvidenceReceipts (cs_ledger st' (resolveEvidenceDir e opts)) =
               readEvidenceReceipts (cs_ledger st (resolveEvidenceDir e opts)) @ [r] \<and>
             rc_audit_trail_id r = rx_trail x \<and> rc_session_id r = rx_session x \<and> rc_agent_pack_id r = rx_pack x \<and>
             content_hash r = hashEvidenceContent (ce_sha e) (context_json (ce_duration e) x) \<and>
             rx_receipt x = Some \<lparr>lr_height = block_height r, lr_proof = proof_hash r,
               lr_previous = previous_evidence_hash r\<rparr> \<and>
             (\<forall>d. d \<noteq> resolveEvidenceDir e opts \<longrightarrow> cs_ledger st' d = cs_ledger st d)
      else cs_ledger st' = cs_ledger st \<and> rx_receipt x = None)"

lemma context_json_receipt [simp]: "context_json d (x\<lparr>rx_receipt := r\<rparr>) = context_json d x"
  by (simp add: context_json_def)

lemma commit_stage_ok:
  assumes "commit_stage e i opts p x st = (out, st')"
    and "rx_trail x = createAuditTrailId e" and "rx_session x = ch_session i" and "rx_pack x = ap_id p"
    and "rx_receipt x = None"
  shows "\<exists>rc. out = ChatOk (x\<lparr>rx_receipt := rc\<rparr>) \<and> ledger_step e opts p (x\<lparr>rx_receipt := rc\<rparr>) st st' \<and>
     chat_log e opts st' = chat_log e opts st @
       map (stamped e) (if packIncludesStage p LEDGER_COMMIT then [(LEDGER_COMMIT, SUCCESS)] else []) \<and>
     cs_db st' = cs_db st"
proof (cases "packIncludesStage p LEDGER_COMMIT")
  case True
  obtain r f where c: "commitEvidenceReceipt (ce_sha e) (ce_commit_ms e)
      \<lparr>ci_audit_trail_id = createAuditTrailId e, ci_session_id = ch_session i, ci_agent_pack_id = ap_id p,
       ci_content_hash = hashEvidenceContent (ce_sha e) (context_json (ce_duration e) x)\<rparr>
      (cs_ledger st (resolveEvidenceDir e opts)) = (r, f)" by force
  moreover have "rc_audit_trail_id r = createAuditTrailId e \<and> rc_session_id r = ch_session i \<and>
      rc_agent_pack_id r = ap_id p \<and>
      content_hash r = hashEvidenceContent (ce_sha e) (context_json (ce_duration e) x)"
    using c by (auto simp: commitEvidenceReceipt_def Let_def)
  ultimately show ?thesis
    using True assms commit_receipts [OF c]
    by (auto simp: commit_stage_def Let_def ledger_step_def stamped_def)
next
  case False
  then have "out = ChatOk (x\<lparr>rx_receipt := None\<rparr>) \<and> st' = st"
    using assms by (cases x) (auto simp: commit_stage_def Let_def)
  with False assms(5) show ?thesis
    by (intro exI [of _ None]) (simp add: ledger_step_def)
qed

definition ok_run ::
  "chat_env \<Rightarrow> chat_input \<Rightarrow> chat_options \<Rightarrow> agent_pack \<Rightarrow> runtime_context \<Rightarrow> chat_state \<Rightarrow> chat_state \<Rightarrow>
     (step_code \<times> event_status) list \<Rightarrow> bool" where
  "ok_run e i opts p x st st' steps \<longleftrightarrow>
     rx_trail x = createAuditTrailId e \<and> rx_session x = ch_session i \<and> rx_query x = ch_message i \<and>
     rx_pack x = ap_id p \<and> rx_stages x = pl_stages (ap_pipeline p) \<and> ledger_step e opts p x st st' \<and>
     chat_log e opts st' = chat_log e opts st @ map (stamped e) steps"

lemma ledger_step_from:
  "cs_ledger st1 = cs_ledger st \<Longrightarrow> ledger_step e opts p x st1 st' = ledger_step e opts p x st st'"
  by (simp add: ledger_step_def)

lemma decision_stage_ok:
  assumes "decision_stage e i opts p snapshot t rows m st = (out, st')"
  shows "\<exists>x. out = ChatOk x \<and> rx_sql x = t \<and> rx_rows x = rows \<and> rx_matrix x = m \<and>
     rx_decision x = buildPackAgentDecision p (ch_message i) (Some snapshot) m \<and>
     ok_run e i opts p x st st' ((AGENT_DECISION, SUCCESS) #
       (if packIncludesStage p LEDGER_COMMIT then [(LEDGER_COMMIT, SUCCESS)] else []))"
proof -
  obtain x st1 where c: "commit_stage e i opts p x st1 = (out, st')" "rx_trail x = createAuditTrailId e"
      "rx_session x = ch_session i" "rx_pack x = ap_id p" "rx_receipt x = None" "rx_sql x = t" "rx_rows x = rows"
      "rx_matrix x = m" "rx_decision x = buildPackAgentDecision p (ch_message i) (Some snapshot) m"
      "rx_query x = ch_message i" "rx_stages x = pl_stages (ap_pipeline p)"
      "cs_ledger st1 = cs_ledger st"
      "chat_log e opts st1 = chat_log e opts st @ [stamped e (AGENT_DECISION, SUCCESS)]"
    using assms by (auto simp: decision_stage_def Let_def stamped_def)
  from commit_stage_ok [OF c(1-5)] obtain rc where
      "out = ChatOk (x\<lparr>rx_receipt := rc\<rparr>)" "ledger_step e opts p (x\<lparr>rx_receipt := rc\<rparr>) st1 st'"
      "chat_log e opts st' = chat_log e opts st1 @
         map (stamped e) (if packIncludesStage p LEDGER_COMMIT then [(LEDGER_COMMIT, SUCCESS)] else [])"
    by blast
  then show ?thesis
    using c ledger_step_from [OF c(12)]
    by (intro exI [of _ "x\<lparr>rx_receipt := rc\<rparr>"]) (auto simp: ok_run_def)
qed

lemma ok_run_extend:
  assumes "ok_run e i opts p x st1 st' steps" and "cs_ledger st1 = cs_ledger st"
    and "chat_log e opts st1 = chat_log e opts st @ map (stamped e) before"
  shows "ok_run e i opts p x st st' (before @ steps)"
  using assms ledger_step_from [OF assms(2)] by (auto simp: ok_run_def)

lemma rule_stage_cases:
  assumes "rule_stage e i opts p snapshot t rows st = (out, st')"
  shows "(\<exists>err. out = Inl err \<and> cs_ledger st' = cs_ledger st \<and> chat_log e opts st' = chat_log e opts st) \<or>
     (\<exists>x. out = Inr (ChatOk x) \<and> rx_sql x = t \<and> rx_rows x = rows \<and>
        rx_decision x = buildPackAgentDecision p (ch_message i) (Some snapshot) (rx_matrix x) \<and>
        ok_run e i opts p x st st' (drop 2 (complete_log p (rm_overall (rx_matrix x)))))"
proof (cases "packIncludesStage p RULE_EVAL")
  case False
  obtain o1 where "decision_stage e i opts p snapshot t rows skipped_matrix st = (o1, st')" "out = Inr o1"
    using assms False by (auto simp: rule_stage_def map_prod_def split: prod.splits)
  then show ?thesis
    using decision_stage_ok [of e i opts p snapshot t rows skipped_matrix st o1 st'] False
    by (auto simp: complete_log_def)
next
  case True
  obtain res db where r: "evaluateRulesForPack e p (ch_message i) (cs_db st) = (res, db)" by force
  show ?thesis
  proof (cases res)
    case (Inl err)
    then show ?thesis using assms True r by (auto simp: rule_stage_def)
  next
    case (Inr m)
    then obtain o1 st1 where d: "decision_stage e i opts p snapshot t rows m st1 = (o1, st')" "out = Inr o1"
        "cs_ledger st1 = cs_ledger st"
        "chat_log e opts st1 = chat_log e opts st @
           map (stamped e) [(RULE_EVAL, if rm_overall m = FAIL then FAILURE else SUCCESS)]"
      using assms True r by (auto simp: rule_stage_def map_prod_def stamped_def split: prod.splits if_splits)
    from decision_stage_ok [OF d(1)] obtain x where x: "o1 = ChatOk x" "rx_sql x = t" "rx_rows x = rows"
        "rx_matrix x = m" "rx_decision x = buildPackAgentDecision p (ch_message i) (Some snapshot) m"
        "ok_run e i opts p x st1 st' ((AGENT_DECISION, SUCCESS) #
           (if packIncludesStage p LEDGER_COMMIT then [(LEDGER_COMMIT, SUCCESS)] else []))"
      by blast
    show ?thesis
      using ok_run_extend [OF x(6) d(3,4)] x(1-5) d(2) True by (auto simp: complete_log_def)
  qed
qed

lemma query_stage_cases:
  assumes "query_stage e i opts p snapshot t st = (out, st')"
  shows "(\<exists>err n. out = Inl err \<and> cs_ledger st' = cs_ledger st \<and> chat_log e opts st' = chat_log e opts st @
        map (stamped e) (take n [(DB_QUERY, SUCCESS)])) \<or>
     (\<exists>x safe. out = Inr (ChatOk x) \<and> rx_sql x = t \<and> assertReadOnlySelectSql (ts_sql t) = Inr safe \<and>
        rx_decision x = buildPackAgentDecision p (ch_message i) (Some snapshot) (rx_matrix x) \<and>
        ok_run e i opts p x st st' (tl (complete_log p (rm_overall (rx_matrix x)))))"
proof -
  obtain res db where q: "queryTra (ce_query e) (ce_seeds e) (ce_clock e) (ts_sql t) (cs_db st) = (res, db)" by force
  show ?thesis
  proof (cases res)
    case (Inl err)
    then show ?thesis using assms q by (auto simp: query_stage_def intro: exI [of _ 0])
  next
    case (Inr rows)
    then obtain safe where safe: "assertReadOnlySelectSql (ts_sql t) = Inr safe"
      using q by (auto simp: queryTra_def bind_op_def executeTraSelect_def split: prod.splits sum.splits)
    obtain st1 where r: "rule_stage e i opts p snapshot t rows st1 = (out, st')" "cs_ledger st1 = cs_ledger st"
        "chat_log e opts st1 = chat_log e opts st @ map (stamped e) [(DB_QUERY, SUCCESS)]"
      using assms q Inr by (auto simp: query_stage_def stamped_def)
    have "ok_run e i opts p x st st' (tl (complete_log p v))"
      if "ok_run e i opts p x st1 st' (drop 2 (complete_log p v))" for x v
      using ok_run_extend [OF that r(2,3)] by (simp add: complete_log_def)
    with rule_stage_cases [OF r(1)] r(2,3) safe show ?thesis
      by (fastforce intro: exI [of _ 1])
  qed
qed

lemma text2sql_stage_cases:
  assumes "text2sql_stage e i opts r snapshot st = (out, st')"
  shows "(\<exists>err n. out = Inl err \<and> cs_ledger st' = cs_ledger st \<and> chat_log e opts st' = chat_log e opts st @
        map (stamped e) (take n [(TEXT2SQL_GEN, SUCCESS), (DB_QUERY, SUCCESS)])) \<or>
     (\<exists>msg. out = Inr (ChatBlocked Security_Blocked msg (createAuditTrailId e)) \<and> cs_ledger st' = cs_ledger st \<and>
        chat_log e opts st' = chat_log e opts st @ [stamped e (TEXT2SQL_GEN, BLOCKED)]) \<or>
     (\<exists>x safe. out = Inr (ChatOk x) \<and> assertReadOnlySelectSql (ts_sql (rx_sql x)) = Inr safe \<and>
        rx_decision x = buildPackAgentDecision (rv_doc r) (ch_message i) (Some snapshot) (rx_matrix x) \<and>
        ok_run e i opts (rv_doc r) x st st' (complete_log (rv_doc r) (rm_overall (rx_matrix x))))"
proof -
  consider (failed) err where "out = Inl err" "st' = st"
    | (blocked) msg where "out = Inr (ChatBlocked Security_Blocked msg (createAuditTrailId e))"
        "cs_ledger st' = cs_ledger st" "chat_log e opts st' = chat_log e opts st @ [stamped e (TEXT2SQL_GEN, BLOCKED)]"
    | (query) t st1 where "query_stage e i opts (rv_doc r) snapshot t st1 = (out, st')" "cs_ledger st1 = cs_ledger st"
        "chat_log e opts st1 = chat_log e opts st @ map (stamped e) [(TEXT2SQL_GEN, SUCCESS)]"
    using assms by (auto simp: text2sql_stage_def Let_def stamped_def split: sum.splits option.splits if_splits)
  then show ?thesis
  proof cases
    case failed
    then show ?thesis by (auto intro: exI [of _ 0])
  next
    case blocked
    then show ?thesis by blast
  next
    case (query t st1)
    have ext: "ok_run e i opts (rv_doc r) x st st' (complete_log (rv_doc r) v)"
      if "ok_run e i opts (rv_doc r) x st1 st' (tl (complete_log (rv_doc r) v))" for x v
      using ok_run_extend [OF that query(2,3)] by (simp add: complete_log_def)
    have part: "[(TEXT2SQL_GEN, SUCCESS)] @ take n [(DB_QUERY, SUCCESS)] =
        take (Suc n) [(TEXT2SQL_GEN, SUCCESS), (DB_QUERY, SUCCESS)]" for n
      by simp
    from query_stage_cases [OF query(1)] show ?thesis
    proof (elim disjE exE conjE)
      fix err n
      assume "out = Inl err" "cs_ledger st' = cs_ledger st1"
        "chat_log e opts st' = chat_log e opts st1 @ map (stamped e) (take n [(DB_QUERY, SUCCESS)])"
      then show ?thesis
        using query(2,3) by (intro disjI1 exI [of _ err] exI [of _ "Suc n"]) simp
    qed (use ext in blast)
  qed
qed

lemma run_chat_cases:
  assumes "runTrustclawChat e i opts st = (out, st')"
  shows "(\<exists>err n. out = Inl err \<and> cs_ledger st' = cs_ledger st \<and> chat_log e opts st' = chat_log e opts st @
        map (stamped e) (take n [(TEXT2SQL_GEN, SUCCESS), (DB_QUERY, SUCCESS)])) \<or>
     (\<exists>b msg s. out = Inr (ChatBlocked b msg (createAuditTrailId e)) \<and> cs_ledger st' = cs_ledger st \<and>
        chat_log e opts st' = chat_log e opts st @ [stamped e (s, BLOCKED)]) \<or>
     (\<exists>r x safe snapshot. out = Inr (ChatOk x) \<and> resolveAgentPack e i opts = Inr r \<and>
        assertReadOnlySelectSql (ts_sql (rx_sql x)) = Inr safe \<and>
        rx_decision x = buildPackAgentDecision (rv_doc r) (ch_message i) (Some snapshot) (rx_matrix x) \<and>
        ok_run e i opts (rv_doc r) x st st' (complete_log (rv_doc r) (rm_overall (rx_matrix x))))"
proof -
  consider (failed) err where "out = Inl err" "cs_ledger st' = cs_ledger st" "chat_log e opts st' = chat_log e opts st"
    | (blocked) b msg s where "out = Inr (ChatBlocked b msg (createAuditTrailId e))" "cs_ledger st' = cs_ledger st"
        "chat_log e opts st' = chat_log e opts st @ [stamped e (s, BLOCKED)]"
    | (go) r snapshot db where "resolveAgentPack e i opts = Inr r"
        "text2sql_stage e i opts r snapshot (st\<lparr>cs_db := db\<rparr>) = (out, st')"
    using assms by (auto simp: runTrustclawChat_def stamped_def split: sum.splits prod.splits option.splits)
  then show ?thesis
  proof cases
    case failed
    then show ?thesis by (auto intro: exI [of _ 0])
  next
    case blocked
    then show ?thesis by blast
  next
    case (go r snapshot db)
    have "ok_run e i opts p x (st\<lparr>cs_db := db\<rparr>) st' ss = ok_run e i opts p x st st' ss" for p x ss
      by (simp add: ok_run_def ledger_step_def)
    with text2sql_stage_cases [OF go(2)]
    consider (a) err n where "out = Inl err" "cs_ledger st' = cs_ledger st" "chat_log e opts st' = chat_log e opts st @
        map (stamped e) (take n [(TEXT2SQL_GEN, SUCCESS), (DB_QUERY, SUCCESS)])"
      | (b) msg where "out = Inr (ChatBlocked Security_Blocked msg (createAuditTrailId e))" "cs_ledger st' = cs_ledger st"
        "chat_log e opts st' = chat_log e opts st @ [stamped e (TEXT2SQL_GEN, BLOCKED)]"
      | (c) x safe where "out = Inr (ChatOk x)" "assertReadOnlySelectSql (ts_sql (rx_sql x)) = Inr safe"
        "rx_decision x = buildPackAgentDecision (rv_doc r) (ch_message i) (Some snapshot) (rx_matrix x)"
        "ok_run e i opts (rv_doc r) x st st' (complete_log (rv_doc r) (rm_overall (rx_matrix x)))"
      by (elim disjE exE conjE) simp_all
    then show ?thesis
    proof cases
      case a
      then show ?thesis by blast
    next
      case b
      then show ?thesis by blast
    next
      case (c x safe)
      then show ?thesis using go(1) by (intro disjI2 exI [of _ r] exI [of _ x] exI [of _ safe] exI [of _ snapshot]) simp
    qed
  qed
qed

lemma logged_not_missing:
  assumes "chat_log e opts st' = chat_log e opts st @ map (stamped e) steps" and "length steps \<le> 200"
    and "(s, q) \<in> set steps"
  shows "s \<notin> set (missingChatPipelineSteps (cs_audit st' (resolveAuditDir e opts)) (createAuditTrailId e) exps)"
proof -
  let ?es = "audit_entries (cs_audit st' (resolveAuditDir e opts))"
  obtain xs ys where es: "?es = xs @ ys"
    "map (stamped e) steps = map (\<lambda>v. (ev_trail v, ev_step v, ev_status v)) ys"
    using assms(1) unfolding chat_log_def map_eq_append_conv by blast
  moreover have "length ys = length steps" using arg_cong [OF es(2), of length] by simp
  moreover have "stamped e (s, q) \<in> set (map (stamped e) steps)" using assms(3) by (metis image_eqI list.set_map)
  ultimately obtain v where v: "v \<in> set ys" "ev_trail v = createAuditTrailId e" "ev_step v = s" "length ys \<le> 200"
    using assms(2) by (auto simp: stamped_def)
  then have "v \<in> set (take_last 200 ?es)" by (auto simp: take_last_def es(1))
  with v show ?thesis by (auto simp: missing_iff)
qed

text \<open>
  C8 -- a chat that answers has run its pack's pipeline: the audit trail grew by exactly the
  generation, the query, the rule evaluation where the pack declares it (a failed verdict is
  recorded as such), the decision and the commit where declared, in this order and under one
  trail id, so the gate finds no declared step missing; the SQL passed the read-only guard, and
  the ledger grew by one receipt of this answer exactly where the pack declares the commit.
\<close>

theorem chat_runs_declared_pipeline:
  assumes run: "runTrustclawChat e i opts st = (Inr (ChatOk x), st')"
    and stages: "set (rx_stages x) \<subseteq> set CHAT_PIPELINE_AUDIT_STEPS"
  shows "\<exists>r. resolveAgentPack e i opts = Inr r \<and> rx_pack x = ap_id (rv_doc r) \<and>
     chat_log e opts st' = chat_log e opts st @
       map (stamped e) (complete_log (rv_doc r) (rm_overall (rx_matrix x))) \<and>
     missingChatPipelineSteps (cs_audit st' (resolveAuditDir e opts)) (rx_trail x) (Some (rx_stages x)) = [] \<and>
     (\<exists>safe. assertReadOnlySelectSql (ts_sql (rx_sql x)) = Inr safe) \<and>
     ledger_step e opts (rv_doc r) x st st'"
proof -
  obtain r safe where r: "resolveAgentPack e i opts = Inr r" "assertReadOnlySelectSql (ts_sql (rx_sql x)) = Inr safe"
      "ok_run e i opts (rv_doc r) x st st' (complete_log (rv_doc r) (rm_overall (rx_matrix x)))"
    using run_chat_cases [OF run] by auto
  then have log: "chat_log e opts st' = chat_log e opts st @
      map (stamped e) (complete_log (rv_doc r) (rm_overall (rx_matrix x)))"
    and t: "rx_trail x = createAuditTrailId e" and ss: "rx_stages x = pl_stages (ap_pipeline (rv_doc r))"
    by (auto simp: ok_run_def)
  have "s \<notin> set (missingChatPipelineSteps (cs_audit st' (resolveAuditDir e opts)) (rx_trail x) (Some (rx_stages x)))"
    if m: "s \<in> set (rx_stages x)" for s
  proof -
    have "s \<in> set CHAT_PIPELINE_AUDIT_STEPS" using m stages by blast
    then obtain q where "(s, q) \<in> set (complete_log (rv_doc r) (rm_overall (rx_matrix x)))"
      using m [unfolded ss] by (auto simp: complete_log_def CHAT_PIPELINE_AUDIT_STEPS_def packIncludesStage_def)
    then show ?thesis
      using logged_not_missing [OF log] t by (auto simp: complete_log_def)
  qed
  moreover have "set (missingChatPipelineSteps (cs_audit st' (resolveAuditDir e opts)) (rx_trail x)
      (Some (rx_stages x))) \<subseteq> set (rx_stages x)"
    by (auto simp: missing_iff)
  ultimately have "missingChatPipelineSteps (cs_audit st' (resolveAuditDir e opts)) (rx_trail x)
      (Some (rx_stages x)) = []"
    by (metis set_empty subset_empty subsetI subset_iff)
  then show ?thesis using r log by (auto simp: ok_run_def)
qed

lemma chat_env_query [simp]:
  "resolveAgentPack (e\<lparr>ce_query := q\<rparr>) = resolveAgentPack e"
  "chat_record (e\<lparr>ce_query := q\<rparr>) = chat_record e"
  "createAuditTrailId (e\<lparr>ce_query := q\<rparr>) = createAuditTrailId e"
  by (simp_all add: fun_eq_iff resolveAgentPack_def chat_record_def createAuditTrailId_def resolveAuditDir_def
      split: option.split)

lemma query_stage_not_blocked:
  "query_stage e i opts p snapshot t st \<noteq> (Inr (ChatBlocked b msg a), st')"
proof
  assume "query_stage e i opts p snapshot t st = (Inr (ChatBlocked b msg a), st')"
  from query_stage_cases [OF this] show False by auto
qed

lemma text2sql_blocked:
  assumes "text2sql_stage e i opts r snapshot st = (Inr (ChatBlocked b msg a), st')"
  shows "text2sql_stage (e\<lparr>ce_query := q\<rparr>) i opts r snapshot st = (Inr (ChatBlocked b msg a), st')"
proof (cases "loadAgentPackText2SqlTemplate (ce_files e) (ce_cwd e) (ce_default_template e) r")
  case (Inl err)
  then show ?thesis using assms by (simp add: text2sql_stage_def Let_def)
next
  case (Inr template)
  show ?thesis
  proof (cases "generateText2Sql (co_llm opts)
      (buildText2SqlPrompt (ce_default_schema e) (ce_default_template e) (ch_message i)
         (Some (ce_schema e (dt_readTables (ap_data (rv_doc r))))) (Some template))")
    case None
    then show ?thesis using assms Inr by (simp add: text2sql_stage_def Let_def)
  next
    case (Some t)
    show ?thesis
    proof (cases "ts_security_error t \<noteq> None \<or> \<not> ts_read_only t")
      case True
      then show ?thesis using assms Inr Some by (simp add: text2sql_stage_def Let_def)
    next
      case False
      then show ?thesis
        using assms Inr Some query_stage_not_blocked by (simp add: text2sql_stage_def Let_def)
    qed
  qed
qed

text \<open>
  What a chat has in hand once its generation is verified: the pack, the statement and the
  database as the snapshot left it.  \<open>None\<close> where the chat ends before that.
\<close>

definition verified_statement ::
  "chat_env \<Rightarrow> chat_input \<Rightarrow> chat_options \<Rightarrow> chat_state \<Rightarrow> (agent_pack \<times> text2sql_result \<times> tra_db) option" where
  "verified_statement e i opts st =
     (case (resolveAgentPack e i opts, readGlp1CheckSnapshot (ce_seeds e) (ce_clock e) (cs_db st)) of
        (Inr r, Inr (Some snapshot), db) \<Rightarrow>
          (case loadAgentPackText2SqlTemplate (ce_files e) (ce_cwd e) (ce_default_template e) r of
             Inl err \<Rightarrow> None
           | Inr template \<Rightarrow>
               (case generateText2Sql (co_llm opts)
                       (buildText2SqlPrompt (ce_default_schema e) (ce_default_template e) (ch_message i)
                          (Some (ce_schema e (dt_readTables (ap_data (rv_doc r))))) (Some template)) of
                  None \<Rightarrow> None
                | Some t \<Rightarrow> if ts_security_error t = None \<and> ts_read_only t then Some (rv_doc r, t, db) else None))
      | _ \<Rightarrow> None)"

text \<open>
  The events and the database a failed chat leaves, by how far it came: nothing without a verified
  statement; the generation where the query failed; the generation and the query where the query
  answered and the rules that the pack declares failed on the database.
\<close>

definition failed_after ::
  "chat_env \<Rightarrow> chat_input \<Rightarrow> chat_options \<Rightarrow> chat_state \<Rightarrow> chat_error \<Rightarrow> chat_state \<Rightarrow> (step_code \<times> event_status) list \<Rightarrow> bool" where
  "failed_after e i opts st err st' steps \<longleftrightarrow>
     (case verified_statement e i opts st of
        None \<Rightarrow> steps = []
      | Some (p, t, db) \<Rightarrow>
          (case queryTra (ce_query e) (ce_seeds e) (ce_clock e) (ts_sql t) db of
             (Inl q, db1) \<Rightarrow> steps = [(TEXT2SQL_GEN, SUCCESS)] \<and> err = ChatDb q \<and> cs_db st' = db1
           | (Inr rows, db1) \<Rightarrow> steps = [(TEXT2SQL_GEN, SUCCESS), (DB_QUERY, SUCCESS)] \<and>
               packIncludesStage p RULE_EVAL \<and>
               (\<exists>q. evaluateRulesForPack e p (ch_message i) db1 = (Inl q, cs_db st') \<and> err = ChatDb q)))"

lemma rule_stage_fails:
  assumes "rule_stage e i opts p snapshot t rows st = (Inl err, st')"
  shows "packIncludesStage p RULE_EVAL \<and> chat_log e opts st' = chat_log e opts st \<and>
    (\<exists>q. evaluateRulesForPack e p (ch_message i) (cs_db st) = (Inl q, cs_db st') \<and> err = ChatDb q)"
  using assms by (auto simp: rule_stage_def map_prod_def split: if_splits sum.splits prod.splits)

lemma query_stage_fails:
  assumes "query_stage e i opts p snapshot t st = (Inl err, st')"
  shows "case queryTra (ce_query e) (ce_seeds e) (ce_clock e) (ts_sql t) (cs_db st) of
      (Inl q, db1) \<Rightarrow> chat_log e opts st' = chat_log e opts st \<and> err = ChatDb q \<and> cs_db st' = db1
    | (Inr rows, db1) \<Rightarrow> chat_log e opts st' = chat_log e opts st @ [stamped e (DB_QUERY, SUCCESS)] \<and>
        packIncludesStage p RULE_EVAL \<and>
        (\<exists>q. evaluateRulesForPack e p (ch_message i) db1 = (Inl q, cs_db st') \<and> err = ChatDb q)"
  using assms by (auto simp: query_stage_def stamped_def split: sum.splits prod.splits dest!: rule_stage_fails)

lemma text2sql_stage_fails:
  assumes "text2sql_stage e i opts r snapshot st1 = (Inl err, st')" and "resolveAgentPack e i opts = Inr r"
    and "readGlp1CheckSnapshot (ce_seeds e) (ce_clock e) (cs_db st) = (Inr (Some snapshot), cs_db st1)"
  shows "\<exists>steps. chat_log e opts st' = chat_log e opts st1 @ map (stamped e) steps \<and>
    failed_after e i opts st err st' steps"
proof (cases "verified_statement e i opts st")
  case None
  then show ?thesis
    using assms by (auto simp: verified_statement_def failed_after_def text2sql_stage_def Let_def
        split: sum.splits option.splits if_splits)
next
  case (Some v)
  let ?o = "\<lambda>t. \<lparr>rp_step = TEXT2SQL_GEN, rp_component = ''AgentRuntime.Text2SQL'', rp_input = user_input i (rv_doc r),
      rp_output = [(''sql'', JStr (ts_sql t)), (''duration_ms'', JInt (ce_duration e)),
        (''allowed_tables'', JArr (map JStr (ts_tables t)))],
      rp_status = SUCCESS\<rparr>"
  obtain t where t: "v = (rv_doc r, t, cs_db st1)"
      "query_stage e i opts (rv_doc r) snapshot t (chat_record e i opts (?o t) st1) = (Inl err, st')"
    using Some assms by (auto simp: verified_statement_def text2sql_stage_def Let_def
        split: sum.splits option.splits if_splits)
  obtain res db1 where q: "queryTra (ce_query e) (ce_seeds e) (ce_clock e) (ts_sql t) (cs_db st1) = (res, db1)" by force
  show ?thesis
    using query_stage_fails [OF t(2)] Some t(1) q
    by (cases res) (auto simp: failed_after_def stamped_def intro: exI [of _ "[(TEXT2SQL_GEN, SUCCESS)]"]
        exI [of _ "[(TEXT2SQL_GEN, SUCCESS), (DB_QUERY, SUCCESS)]"])
qed

lemma chat_failed:
  assumes "runTrustclawChat e i opts st = (Inl err, st')"
  shows "\<exists>steps. chat_log e opts st' = chat_log e opts st @ map (stamped e) steps \<and>
    failed_after e i opts st err st' steps"
proof -
  consider (go) r s db where "resolveAgentPack e i opts = Inr r"
      "readGlp1CheckSnapshot (ce_seeds e) (ce_clock e) (cs_db st) = (Inr (Some s), db)"
      "text2sql_stage e i opts r s (st\<lparr>cs_db := db\<rparr>) = (Inl err, st')"
    | (stop) "verified_statement e i opts st = None" "chat_log e opts st' = chat_log e opts st"
    using assms by (auto simp: runTrustclawChat_def verified_statement_def split: sum.splits prod.splits option.splits)
  then show ?thesis
  proof cases
    case go
    then show ?thesis using text2sql_stage_fails [OF go(3,1), of st] by simp
  next
    case stop
    then show ?thesis by (auto simp: failed_after_def)
  qed
qed

lemma chat_blocked:
  assumes "runTrustclawChat e i opts st = (Inr (ChatBlocked b msg a), st')"
  shows "verified_statement e i opts st = None \<and>
    (\<exists>r. resolveAgentPack e i opts = Inr r \<and> chat_log e opts st' = chat_log e opts st @
       [stamped e (if b = Tra_Not_Initialized then gate_step (rv_doc r) else TEXT2SQL_GEN, BLOCKED)])"
  using assms query_stage_not_blocked
  by (auto simp: runTrustclawChat_def text2sql_stage_def verified_statement_def Let_def stamped_def
      split: sum.splits prod.splits option.splits if_splits)


lemma verified_sql_not_empty:
  "generateText2Sql llm prompt = Some t \<Longrightarrow> ts_read_only t \<Longrightarrow> ts_sql t \<noteq> []"
  by (auto simp: generateText2Sql_def finalizeSql_def Let_def assertReadOnlySelectSql_def
      split: if_splits sum.splits)

text \<open>The two engines a pack may name are evaluated alike: the active standard decides.\<close>

lemma engine_name_ignored:
  assumes "ru_engine (ap_rules p) \<noteq> NoEngine" and "ru_engine (ap_rules q) \<noteq> NoEngine"
  shows "evaluateRulesForPack e p message = evaluateRulesForPack e q message"
  using assms by (simp add: evaluateRulesForPack_def)

lemma preview_within_limit: "sum_list (map utf16_units (utf16_take n s)) \<le> n"
  by (induction n s rule: utf16_take.induct) auto

subsection \<open>A run\<close>

lemma demo_boot_any:
  assumes "\<not> has_legacy (db_domain db)"
  shows "\<exists>d. bootstrapTraDatabase demo_seeds demo_clock db = (Inr (), (seedNrdlGlp1RulesIfEmpty db)\<lparr>db_domain := d\<rparr>) \<and>
     \<not> has_legacy d"
proof -
  have step: "\<exists>d'. run_registry_script demo_exec now False sql d = (Inr 1, d') \<and> \<not> has_legacy d'" for now sql d
  proof -
    obtain d1 where d1: "demo_exec (normalizeLegacyTraNaming sql) d = (Inr (), d1)" "\<not> has_legacy d1"
      "countDomainAgents d1 = 1"
      by (auto simp: demo_exec_def has_legacy_def AGENT_COLUMNS_def countDomainAgents_def)
    obtain d2 where d2: "migrateLegacyDomainAgentsTable False d1 = (Inr False, d2)" "\<not> has_legacy d2"
      "countDomainAgents d2 = 1"
      using migrate_current [OF d1(2), of False] d1(3) by auto
    then show ?thesis
      using ensure_keeps [of now d2 "fst (ensureDomainAgentsPackSchema now d2)"
          "snd (ensureDomainAgentsPackSchema now d2)"] d1
      by (simp add: run_registry_script_def bind_op_def Let_def)
  qed
  obtain d1 where m1: "migrateLegacyDomainAgentsTable False (db_domain db) = (Inr False, d1)" "\<not> has_legacy d1"
    using migrate_current [OF assms, of False] by auto
  obtain d2 where m2: "migrateLegacyDomainAgentsTable False d1 = (Inr False, d2)" "\<not> has_legacy d2"
    using migrate_current [OF m1(2), of False] by auto
  have keep: "\<not> has_legacy (snd (ensureDomainAgentsPackSchema now d2))" for now
    using ensure_keeps [of now d2 "fst (ensureDomainAgentsPackSchema now d2)"
        "snd (ensureDomainAgentsPackSchema now d2)"] m2(2) by simp
  obtain d3 where "bootstrap_domain demo_exec ''b'' (ck_stamp demo_clock) (db_domain db) = (Inr (), d3)" "\<not> has_legacy d3"
  proof (cases "DOMAIN_AGENTS_FULL_REGISTRY_TARGET \<le> countDomainAgents d2")
    case True
    then show ?thesis
      using m1 m2 keep [of "ck_stamp demo_clock"]
      by (intro that [of "snd (ensureDomainAgentsPackSchema (ck_stamp demo_clock) d2)"])
         (simp_all add: bootstrap_domain_def seedDomainAgentsRegistryIfEmpty_def bind_op_def Let_def)
  next
    case False
    obtain d3 where "run_registry_script demo_exec (ck_stamp demo_clock) False ''b''
        (if 0 < countDomainAgents d2 then no_tables else d2) = (Inr 1, d3)" "\<not> has_legacy d3"
      using step by blast
    then show ?thesis
      using m1 m2 False
      by (intro that [of d3])
         (simp_all add: bootstrap_domain_def seedDomainAgentsRegistryIfEmpty_def bind_op_def return_op_def Let_def)
  qed
  moreover have "db_domain (seedNrdlGlp1RulesIfEmpty db) = db_domain db"
    by (simp add: seedNrdlGlp1RulesIfEmpty_def)
  ultimately show ?thesis
    by (auto simp: bootstrapTraDatabase_def on_domain_def demo_seeds_def)
qed

definition demo_chat_env :: chat_env where
  "demo_chat_env =
     \<lparr>ce_host = at_host demo_target, ce_sha = (\<lambda>s. s), ce_seeds = demo_seeds, ce_clock = demo_clock,
      ce_parse_ast = (\<lambda>_. None), ce_query = (\<lambda>sql db. Inr ([''name''], [[(''name'', JStr ''n'')]])),
      ce_files = demo_fs, ce_cwd = ''/'', ce_default_template = ''t'', ce_default_schema = ''s'',
      ce_schema = (\<lambda>_. ''s''), ce_registry = demo_registry, ce_rand = ''01'',
      ce_tick = (\<lambda>_. \<lparr>tk_id = ''1'', tk_now_ms = 1000\<rparr>), ce_commit_ms = 1000, ce_duration = 5\<rparr>"

definition demo_stages :: resolved_pack where
  "demo_stages = demo_resolved\<lparr>rv_doc := (demo_pack ''p-1'')\<lparr>ap_pipeline :=
     \<lparr>pl_stages = [TEXT2SQL_GEN, DB_QUERY, AGENT_DECISION, LEDGER_COMMIT], pl_decisionBuilder = PassThrough\<rparr>\<rparr>\<rparr>"

definition demo_options :: "string \<Rightarrow> chat_options" where
  "demo_options answer = \<lparr>co_auditDir = Some ''/a'', co_evidenceDir = Some ''/e'', co_llm = (\<lambda>_. Some answer),
     co_agentPack = Some demo_stages\<rparr>"

definition demo_chat :: chat_input where
  "demo_chat = \<lparr>ch_session = ''s1'', ch_message = ''hello'', ch_pack = None\<rparr>"

definition demo_world :: chat_state where
  "demo_world = \<lparr>cs_db = mounted_db, cs_audit = (\<lambda>_. None), cs_ledger = (\<lambda>_. None)\<rparr>"

lemma mounted_snapshot: "\<exists>s. snapshot_of ((seedNrdlGlp1RulesIfEmpty mounted_db)\<lparr>db_domain := d\<rparr>) = Some s"
proof -
  have "db_users mounted_db = [request_user demo_clock demo_request]"
    by (simp add: mounted_db_def users_request empty_db_def)
  moreover have "us_user_id (request_user demo_clock demo_request) = ''local_user''"
    by (simp add: request_user_def TRA_LOCAL_USER_ID_def)
  ultimately show ?thesis
    by (simp add: snapshot_of_def resolvePrimaryUserId_def find_user_def seedNrdlGlp1RulesIfEmpty_def)
qed

lemma seed_again: "seedNrdlGlp1RulesIfEmpty ((seedNrdlGlp1RulesIfEmpty db)\<lparr>db_domain := d\<rparr>) =
    (seedNrdlGlp1RulesIfEmpty db)\<lparr>db_domain := d\<rparr>"
  by (simp add: seedNrdlGlp1RulesIfEmpty_def)

lemma mounted_domain: "\<not> has_legacy (db_domain mounted_db)"
  by (simp add: mounted_db_def with_request_def empty_db_def has_legacy_def no_tables_def)

definition demo_sql :: string where "demo_sql = ''SELECT name FROM users''"

lemma demo_generated:
  "generateText2Sql (\<lambda>_. Some demo_sql) p =
     Some \<lparr>ts_sql = demo_sql, ts_source = FromLlm, ts_read_only = True, ts_tables = [''users''], ts_security_error = None\<rparr>"
proof -
  have "finalizeSql demo_sql = \<lparr>ts_sql = demo_sql, ts_source = FromLlm, ts_read_only = True,
      ts_tables = [''users''], ts_security_error = None\<rparr>"
    by code_simp
  then show ?thesis by (simp add: generateText2Sql_def)
qed

lemma demo_chat_answers:
  "\<exists>x st'. runTrustclawChat demo_chat_env demo_chat (demo_options demo_sql) demo_world = (Inr (ChatOk x), st') \<and>
     rx_stages x = [TEXT2SQL_GEN, DB_QUERY, AGENT_DECISION, LEDGER_COMMIT]"
proof -
  obtain d1 where d1: "bootstrapTraDatabase demo_seeds demo_clock mounted_db =
      (Inr (), (seedNrdlGlp1RulesIfEmpty mounted_db)\<lparr>db_domain := d1\<rparr>)" "\<not> has_legacy d1"
    using demo_boot_any [OF mounted_domain] by blast
  let ?db = "(seedNrdlGlp1RulesIfEmpty mounted_db)\<lparr>db_domain := d1\<rparr>"
  obtain s where s: "snapshot_of ?db = Some s" using mounted_snapshot by blast
  obtain d2 where d2: "bootstrapTraDatabase demo_seeds demo_clock ?db = (Inr (), ?db\<lparr>db_domain := d2\<rparr>)"
    using demo_boot_any [of ?db] d1(2) by (auto simp: seed_again)
  have g: "assertReadOnlySelectSql demo_sql = Inr demo_sql" by code_simp
  have t: "trim_opt (Some ''/a'') = Some ''/a''" "trim_opt (Some ''/e'') = Some ''/e''" by code_simp+
  obtain rows db where q: "queryTra (ce_query demo_chat_env) demo_seeds demo_clock demo_sql ?db = (Inr rows, db)"
    using d2 g by (simp add: queryTra_def bind_op_def executeTraSelect_def demo_chat_env_def)
  have r: "readGlp1CheckSnapshot demo_seeds demo_clock mounted_db = (Inr (Some s), ?db)"
    using d1 s by (simp add: readGlp1CheckSnapshot_def bind_op_def)
  have env: "ce_seeds demo_chat_env = demo_seeds" "ce_clock demo_chat_env = demo_clock" "cs_db demo_world = mounted_db"
    "co_llm (demo_options demo_sql) = (\<lambda>_. Some demo_sql)"
    "resolveAgentPack demo_chat_env demo_chat (demo_options demo_sql) = Inr demo_stages"
    "pl_stages (ap_pipeline (rv_doc demo_stages)) = [TEXT2SQL_GEN, DB_QUERY, AGENT_DECISION, LEDGER_COMMIT]"
    "loadAgentPackText2SqlTemplate fs cwd tpl demo_stages = Inr tpl" for fs cwd tpl
    by (simp_all add: demo_chat_env_def demo_world_def demo_options_def resolveAgentPack_def demo_stages_def
        loadAgentPackText2SqlTemplate_def demo_pack_def demo_resolved_def trim_opt_def)
  show ?thesis
    using r q
    by (simp add: runTrustclawChat_def env text2sql_stage_def demo_generated query_stage_def rule_stage_def
        packIncludesStage_def decision_stage_def commit_stage_def Let_def split: prod.split)
qed

lemma chat_runs_declared_pipeline_witness:
  "\<exists>x st'. runTrustclawChat demo_chat_env demo_chat (demo_options demo_sql) demo_world = (Inr (ChatOk x), st') \<and>
     map (\<lambda>(_, s, _). s) (chat_log demo_chat_env (demo_options demo_sql) st') =
       [TEXT2SQL_GEN, DB_QUERY, AGENT_DECISION, LEDGER_COMMIT]"
proof -
  obtain x st' where run: "runTrustclawChat demo_chat_env demo_chat (demo_options demo_sql) demo_world =
      (Inr (ChatOk x), st')" "rx_stages x = [TEXT2SQL_GEN, DB_QUERY, AGENT_DECISION, LEDGER_COMMIT]"
    using demo_chat_answers by blast
  have "set (rx_stages x) \<subseteq> set CHAT_PIPELINE_AUDIT_STEPS"
    by (simp add: run(2) CHAT_PIPELINE_AUDIT_STEPS_def)
  from chat_runs_declared_pipeline [OF run(1) this] obtain r where
      "resolveAgentPack demo_chat_env demo_chat (demo_options demo_sql) = Inr r"
      "chat_log demo_chat_env (demo_options demo_sql) st' = chat_log demo_chat_env (demo_options demo_sql) demo_world @
       map (stamped demo_chat_env) (complete_log (rv_doc r) (rm_overall (rx_matrix x)))"
    by blast
  moreover from this(1) have "rv_doc r = rv_doc demo_stages"
    by (simp add: resolveAgentPack_def demo_options_def)
  moreover have "chat_log demo_chat_env (demo_options demo_sql) demo_world = []"
    by (simp add: chat_log_def demo_world_def audit_entries_def file_lines_def)
  ultimately have "map (\<lambda>(_, s, _). s) (chat_log demo_chat_env (demo_options demo_sql) st') =
       [TEXT2SQL_GEN, DB_QUERY, AGENT_DECISION, LEDGER_COMMIT]"
    by (simp add: complete_log_def packIncludesStage_def demo_stages_def stamped_def)
  with run(1) show ?thesis by (intro exI conjI)
qed

text \<open>The chat of the run above, with an executor that fails: it has recorded the generation only.\<close>

lemma demo_chat_stops:
  "\<exists>t db db1 st'. verified_statement (demo_chat_env\<lparr>ce_query := \<lambda>_ _. Inl (SqlFailure ''locked'')\<rparr>) demo_chat (demo_options demo_sql) demo_world =
      Some (rv_doc demo_stages, t, db) \<and>
    queryTra (\<lambda>_ _. Inl (SqlFailure ''locked'')) demo_seeds demo_clock (ts_sql t) db = (Inl (SqlFailure ''locked''), db1) \<and>
    runTrustclawChat (demo_chat_env\<lparr>ce_query := \<lambda>_ _. Inl (SqlFailure ''locked'')\<rparr>) demo_chat (demo_options demo_sql) demo_world =
      (Inl (ChatDb (SqlFailure ''locked'')), st')"
proof -
  obtain d1 where d1: "bootstrapTraDatabase demo_seeds demo_clock mounted_db =
      (Inr (), (seedNrdlGlp1RulesIfEmpty mounted_db)\<lparr>db_domain := d1\<rparr>)" "\<not> has_legacy d1"
    using demo_boot_any [OF mounted_domain] by blast
  let ?db = "(seedNrdlGlp1RulesIfEmpty mounted_db)\<lparr>db_domain := d1\<rparr>"
  obtain s where s: "snapshot_of ?db = Some s" using mounted_snapshot by blast
  obtain d2 where d2: "bootstrapTraDatabase demo_seeds demo_clock ?db = (Inr (), ?db\<lparr>db_domain := d2\<rparr>)"
    using demo_boot_any [of ?db] d1(2) by (auto simp: seed_again)
  have g: "assertReadOnlySelectSql demo_sql = Inr demo_sql" by code_simp
  have q: "queryTra (\<lambda>_ _. Inl (SqlFailure ''locked'')) demo_seeds demo_clock demo_sql ?db =
      (Inl (SqlFailure ''locked''), ?db\<lparr>db_domain := d2\<rparr>)"
    using d2 g by (simp add: queryTra_def bind_op_def executeTraSelect_def)
  have r: "readGlp1CheckSnapshot demo_seeds demo_clock mounted_db = (Inr (Some s), ?db)"
    using d1 s by (simp add: readGlp1CheckSnapshot_def bind_op_def)
  have env: "ce_seeds demo_chat_env = demo_seeds" "ce_clock demo_chat_env = demo_clock" "cs_db demo_world = mounted_db"
    "co_llm (demo_options demo_sql) = (\<lambda>_. Some demo_sql)"
    "resolveAgentPack demo_chat_env demo_chat (demo_options demo_sql) = Inr demo_stages"
    "loadAgentPackText2SqlTemplate fs cwd tpl demo_stages = Inr tpl" for fs cwd tpl
    by (simp_all add: demo_chat_env_def demo_world_def demo_options_def resolveAgentPack_def demo_stages_def
        loadAgentPackText2SqlTemplate_def demo_pack_def demo_resolved_def trim_opt_def)
  show ?thesis
    using r q
    by (simp add: runTrustclawChat_def verified_statement_def env text2sql_stage_def demo_generated query_stage_def Let_def)
qed


end
