(* ===== verification/Plugin.thy ===== *)
theory Plugin
  imports Pipeline
begin

text \<open>
  What the handlers of the gateway plugin share (\<open>extensions/trustclaw-tra\<close>): its configuration,
  the files it works on, requests and answers, the pack bound to a session
  (\<open>runtime/agent-pack/resolve-session.ts\<close>) and the guard of the panel routes.  The pack registry of
  an environment is what loading it with the plugin's options gives when the request is served, a registry
  or the error; a request is served whole with it, and another one may find another
  (\<open>process_reachable\<close> in Plugin_Api).  URL parsing and \<open>JSON.parse\<close> are the language's.
\<close>

subsection \<open>Configuration and state\<close>

record plugin_env =
  pe_host :: host
  pe_cfg :: "plugin_config option"
  pe_seeds :: db_seeds
  pe_clock :: clock
  pe_now :: num64
  pe_rand :: string
  pe_tick :: tick
  pe_registry :: "pack_error + registry"
  pe_json :: "string \<Rightarrow> jval option"

record plugin_state =
  ps_dbs :: db_store
  ps_audit :: audit_fs
  ps_ledger :: "string \<Rightarrow> ledger_file"
  ps_sessions :: session_state
  ps_grants :: grant_state
  ps_consent :: consent_state

definition string_or_undef :: "jval \<Rightarrow> jval" where
  "string_or_undef v = (case v of JStr s \<Rightarrow> JStr s | _ \<Rightarrow> JUndef)"

definition readPluginConfig :: "jval option \<Rightarrow> plugin_config" where
  "readPluginConfig c =
     (case c of
        None \<Rightarrow> no_config
      | Some v \<Rightarrow>
          if \<not> truthy v then no_config
          else \<lparr>cfg_dbPath = string_or_undef (own_prop v ''dbPath''),
                cfg_auditDir = string_or_undef (own_prop v ''auditDir''),
                cfg_evidenceDir = string_or_undef (own_prop v ''evidenceDir''),
                cfg_agentPacksDir = string_or_undef (own_prop v ''agentPacksDir''),
                cfg_defaultAgentPack = string_or_undef (own_prop v ''defaultAgentPack'')\<rparr>)"

definition plugin_paths :: "plugin_env \<Rightarrow> tra_paths" where
  "plugin_paths pe = resolveTrustclawPaths (pe_cfg pe) (pe_host pe)"

text \<open>The overrides \<open>{ dbPath, auditDir }\<close> the handlers pass on, and where the stores then are.\<close>

definition plugin_overrides :: "plugin_env \<Rightarrow> path_overrides" where
  "plugin_overrides pe = \<lparr>po_dbPath = Some (tp_dbPath (plugin_paths pe)),
     po_auditDir = Some (tp_auditDir (plugin_paths pe)), po_evidenceDir = None\<rparr>"

definition plugin_store_dir :: "plugin_env \<Rightarrow> string" where
  "plugin_store_dir pe = store_dir (pe_host pe) (Some (plugin_overrides pe))"

definition plugin_db_path :: "plugin_env \<Rightarrow> string" where
  "plugin_db_path pe = resolveTraDbPath (plugin_overrides pe) (pe_host pe)"

definition plugin_registry :: "plugin_env \<Rightarrow> registry option" where
  "plugin_registry pe = (case pe_registry pe of Inl _ \<Rightarrow> None | Inr g \<Rightarrow> Some g)"

definition plugin_has_grant :: "plugin_env \<Rightarrow> plugin_state \<Rightarrow> string \<Rightarrow> string \<Rightarrow> bool" where
  "plugin_has_grant pe st pack scope =
     hasAgentDomainGrant (plugin_registry pe) (pe_now pe) (ps_grants st) (plugin_store_dir pe) pack scope"

text \<open>An audit event of a handler goes to the plugin's audit directory.\<close>

definition plugin_target :: "plugin_env \<Rightarrow> audit_target" where
  "plugin_target pe = \<lparr>at_host = pe_host pe, at_rand = pe_rand pe, at_tick = pe_tick pe,
     at_auditDir = Some (tp_auditDir (plugin_paths pe)), at_overrides = None\<rparr>"

text \<open>A database operation of a handler, on the plugin's database file.\<close>

definition on_plugin_db :: "plugin_env \<Rightarrow> (tra_db, 'a) db_op \<Rightarrow> plugin_state \<Rightarrow> (db_error + 'a) \<times> plugin_state" where
  "on_plugin_db pe f st =
     (case on_file (plugin_db_path pe) f (ps_dbs st) of (r, s) \<Rightarrow> (r, st\<lparr>ps_dbs := s\<rparr>))"

subsection \<open>The pack of a session\<close>

definition resolve_pack_with ::
  "bool \<Rightarrow> plugin_env \<Rightarrow> string \<Rightarrow> string option \<Rightarrow> string option \<Rightarrow> plugin_state \<Rightarrow>
     (pack_error + pack_resolution) \<times> plugin_state" where
  "resolve_pack_with bindLock pe sessionKey openclawAgentId requestedPackId st =
     (case pe_registry pe of
        Inl e \<Rightarrow> (Inl e, st)
      | Inr g \<Rightarrow>
          (case resolveCoordinatorAgentPack g (plugin_store_dir pe)
                  \<lparr>cp_sessionKey = sessionKey, cp_openclawAgentId = openclawAgentId,
                   cp_requestedPackId = requestedPackId, cp_bindLock = bindLock\<rparr> (ps_sessions st) of
             (r, ss) \<Rightarrow> (r, st\<lparr>ps_sessions := ss\<rparr>)))"

definition resolveBoundAgentPack ::
  "plugin_env \<Rightarrow> string \<Rightarrow> string option \<Rightarrow> string option \<Rightarrow> plugin_state \<Rightarrow>
     (pack_error + pack_resolution) \<times> plugin_state" where
  "resolveBoundAgentPack = resolve_pack_with True"

definition resolveSessionAgentPack ::
  "plugin_env \<Rightarrow> string \<Rightarrow> string option \<Rightarrow> plugin_state \<Rightarrow> pack_error + (resolved_pack \<times> pack_source)" where
  "resolveSessionAgentPack pe sessionKey openclawAgentId st =
     (case fst (resolve_pack_with False pe sessionKey openclawAgentId None st) of
        Inl e \<Rightarrow> Inl e
      | Inr r \<Rightarrow> Inr (res_pack r, if res_source r \<in> {SrcLock, SrcRequest} then SrcSession else res_source r))"

definition readSessionPackOverrides ::
  "plugin_env \<Rightarrow> string \<Rightarrow> plugin_state \<Rightarrow> string option \<times> string option" where
  "readSessionPackOverrides pe sessionKey st =
     (getSessionAgentPackId (ps_sessions st) (plugin_store_dir pe) sessionKey,
      getSessionAgentPackLock (ps_sessions st) (plugin_store_dir pe) sessionKey)"

subsection \<open>Requests and answers\<close>

text \<open>\<open>hr_query\<close> holds the decoded search parameters in order; \<open>get\<close> takes the first.\<close>

record http_request =
  hr_method :: "string option"
  hr_query :: "(string \<times> string) list"
  hr_header :: "string \<Rightarrow> string option"
  hr_chunks :: "string list"

definition query_get :: "http_request \<Rightarrow> string \<Rightarrow> string option" where
  "query_get q k = map_of (hr_query q) k"

text \<open>
  \<open>sendJson(res, status, { status: "error", message })\<close> is \<open>Refuse\<close>, any other answer a \<open>Reply\<close>, and
  \<open>Threw\<close> stands for a handler whose promise is rejected.  The cause of a refusal is its text or the
  error whose message it carries (\<open>RuntimeCause\<close>: an exception of the language, such as a file that cannot
  be read); the headers are always the same two.
\<close>

datatype cause =
    Msg string
  | PackCause pack_error
  | DbCause db_error
  | ImportCause import_error
  | StoreCause store_error
  | RuntimeCause

datatype 'a answer = Refuse int cause | Reply int 'a | Threw cause

definition methodIs :: "http_request \<Rightarrow> string \<Rightarrow> bool" where
  "methodIs q expected \<longleftrightarrow> to_upper (case hr_method q of Some m \<Rightarrow> m | None \<Rightarrow> ''GET'') = expected"

text \<open>The loop over the chunks, which stops at the first that exceeds the limit.\<close>

fun read_chunks :: "nat \<Rightarrow> nat \<Rightarrow> string list \<Rightarrow> string option" where
  "read_chunks maxBytes n [] = Some []"
| "read_chunks maxBytes n (c # cs) =
     (if maxBytes < n + length c then None
      else map_option ((@) c) (read_chunks maxBytes (n + length c) cs))"

definition DEFAULT_BODY_LIMIT :: nat where "DEFAULT_BODY_LIMIT = 262144"

definition readJsonBody :: "(string \<Rightarrow> jval option) \<Rightarrow> nat \<Rightarrow> http_request \<Rightarrow> string + jval" where
  "readJsonBody parse maxBytes q =
     (case read_chunks maxBytes 0 (hr_chunks q) of
        None \<Rightarrow> Inl ''Request body too large.''
      | Some text \<Rightarrow>
          let raw = trim text in
          if raw = [] then Inr (JObj [])
          else (case parse raw of None \<Rightarrow> Inl ''Invalid JSON body.'' | Some v \<Rightarrow> Inr v))"

lemma read_chunks_bound:
  "n \<le> maxBytes \<Longrightarrow> read_chunks maxBytes n cs =
     (if n + length (concat cs) \<le> maxBytes then Some (concat cs) else None)"
  by (induction maxBytes n cs rule: read_chunks.induct) auto

definition not_allowed :: "'a answer" where
  "not_allowed = Refuse 405 (Msg ''Method not allowed.'')"

subsection \<open>The guard of the panels\<close>

definition dquoted :: "string \<Rightarrow> string" where
  "dquoted s = [CHR 0x22] @ s @ [CHR 0x22]"

definition readAgentPackIdFromRequest :: "http_request \<Rightarrow> string option" where
  "readAgentPackIdFromRequest q =
     (case trim_opt (query_get q ''agentPackId'') of
        Some i \<Rightarrow> Some i | None \<Rightarrow> trim_opt (hr_header q ''x-trustclaw-agent-pack''))"

definition requireAgentDomainGrant ::
  "plugin_env \<Rightarrow> http_request \<Rightarrow> string \<Rightarrow> plugin_state \<Rightarrow> (int \<times> cause) + resolved_pack" where
  "requireAgentDomainGrant pe q scope st =
     (case readAgentPackIdFromRequest q of
        None \<Rightarrow> Inl (400, Msg ''Missing agentPackId query parameter (domain agent authorization).'')
      | Some i \<Rightarrow>
          (case pe_registry pe of
             Inl e \<Rightarrow> Inl (500, PackCause e)
           | Inr g \<Rightarrow>
               (case get_pack g i of
                  None \<Rightarrow> Inl (404, Msg (''Unknown agent pack: '' @ i))
                | Some r \<Rightarrow>
                    if \<not> plugin_has_grant pe st (ap_id (rv_doc r)) scope
                    then Inl (403, Msg (''Domain agent '' @ dquoted (ap_id (rv_doc r)) @
                      '' is not granted scope '' @ dquoted scope @ ''. Grant permissions in Panel C.''))
                    else Inr r)))"

lemma guard_passes:
  assumes "requireAgentDomainGrant pe q scope st = Inr r"
  shows "\<exists>g i. pe_registry pe = Inr g \<and> readAgentPackIdFromRequest q = Some i \<and> get_pack g i = Some r \<and>
     plugin_has_grant pe st (ap_id (rv_doc r)) scope"
  using assms by (auto simp: requireAgentDomainGrant_def split: option.splits sum.splits if_splits)

end
