(* ===== verification/Table_Lineage.thy ===== *)
theory Table_Lineage
  imports Plugin
begin

text \<open>
  What panel B shows of a table (\<open>tra/table-catalog.ts\<close>, \<open>tra/table-lineage.ts\<close>,
  \<open>tra/browse-subscriptions.ts\<close>): its place in the catalogue, the graph of where its rows come from
  and go to, and the state of the two subscriptions.  The names of the catalogue are looked up as own
  properties; the grouped count of a table's sources is SQLite's answer, a field of the environment.
\<close>

subsection \<open>The catalogue\<close>

datatype table_kind = KPersonal | KSubscribed | KReference | KProvenance | KView

datatype subscription_type = PharmaCompliance | NrdlReference | DeviceData

record table_entry =
  te_kind :: table_kind
  te_subscription :: "subscription_type option"
  te_en :: string
  te_zh :: string
  te_upstream :: "string list"
  te_downstream :: "string list"
  te_provenance :: "string list"
  te_panel_F :: bool
  te_audit_step :: "step_code option"

definition catalog_entry ::
  "table_kind \<Rightarrow> subscription_type option \<Rightarrow> string \<Rightarrow> string \<Rightarrow> string list \<Rightarrow> string list \<Rightarrow> string list \<Rightarrow>
     bool \<Rightarrow> step_code option \<Rightarrow> table_entry" where
  "catalog_entry k s en zh up down prov f a =
     \<lparr>te_kind = k, te_subscription = s, te_en = en, te_zh = zh, te_upstream = up, te_downstream = down,
      te_provenance = prov, te_panel_F = f, te_audit_step = a\<rparr>"

definition TRA_TABLE_CATALOG :: "(string \<times> table_entry) list" where
  "TRA_TABLE_CATALOG =
     [(''user_profile'', catalog_entry KPersonal None ''User profile'' (utf8 [0xE7, 0x94, 0xA8, 0xE6,
        0x88, 0xB7, 0xE7, 0x94, 0xBB, 0xE5, 0x83, 0x8F])
        [''Panel A init'']
        [''v_glp1_nrdl_check_snapshot'']
        [] False None),
      (''body_anthropometrics'', catalog_entry KPersonal None ''Body metrics'' (utf8 [0xE4, 0xBD, 0x93,
        0xE5, 0xBE, 0x81, 0xE6, 0x95, 0xB0, 0xE6, 0x8D, 0xAE])
        [''data_source_registry'', ''Panel A init'']
        []
        [''source_id'', ''provenance_level''] False None),
      (''lab_test_results'', catalog_entry KPersonal None ''Lab results'' (utf8 [0xE6, 0xA3, 0x80,
        0xE9, 0xAA, 0x8C, 0xE7, 0xBB, 0x93, 0xE6, 0x9E, 0x9C])
        [''data_source_registry'', ''Panel A init'', ''device import'']
        [''v_glp1_nrdl_check_snapshot'']
        [''source_id'', ''provenance_level''] False None),
      (''clinical_diagnoses'', catalog_entry KPersonal None ''Clinical diagnoses'' (utf8 [0xE4, 0xB8,
        0xB4, 0xE5, 0xBA, 0x8A, 0xE8, 0xAF, 0x8A, 0xE6, 0x96, 0xAD])
        [''data_source_registry'', ''Panel A init'']
        [''v_glp1_nrdl_check_snapshot'']
        [''source_id'', ''provenance_level''] False None),
      (''medication_history'', catalog_entry KPersonal None ''Medication history'' (utf8 [0xE7, 0x94,
        0xA8, 0xE8, 0x8D, 0xAF, 0xE5, 0x8F, 0xB2])
        [''data_source_registry'', ''Panel A init'']
        [''v_glp1_nrdl_check_snapshot'']
        [''source_id'', ''provenance_level''] False None),
      (''daily_vitals'', catalog_entry KPersonal None ''Daily vitals'' (utf8 [0xE6, 0x97, 0xA5, 0xE5,
        0xB8, 0xB8, 0xE4, 0xBD, 0x93, 0xE5, 0xBE, 0x81])
        [''data_source_registry'', ''Chat write / device import'']
        []
        [''source_id'', ''provenance_level''] False None),
      (''wearable_activity_metrics'', catalog_entry KPersonal (Some DeviceData) ''Wearable activity'' (utf8 [0xE7, 0xA9, 0xBF, 0xE6, 0x88, 0xB4, 0xE8, 0xAE, 0xBE, 0xE5, 0xA4, 0x87, 0xE6, 0xB4, 0xBB, 0xE5, 0x8A, 0xA8])
        [''data_source_registry'', ''device_registry'', ''Panel F device import'']
        []
        [''source_id'', ''provenance_level''] True (Some DEVICE_IMPORT)),
      (''wearable_sleep_metrics'', catalog_entry KPersonal (Some DeviceData) ''Wearable sleep'' (utf8 [0xE7, 0xA9, 0xBF, 0xE6, 0x88, 0xB4, 0xE8, 0xAE, 0xBE, 0xE5, 0xA4, 0x87, 0xE7, 0x9D, 0xA1, 0xE7, 0x9C, 0xA0])
        [''data_source_registry'', ''Panel F device import'']
        []
        [''source_id'', ''provenance_level''] True (Some DEVICE_IMPORT)),
      (''wearable_cardiovascular_metrics'', catalog_entry KPersonal (Some DeviceData) ''Wearable cardiovascular'' (utf8 [0xE7, 0xA9, 0xBF, 0xE6, 0x88, 0xB4, 0xE8, 0xAE, 0xBE, 0xE5, 0xA4, 0x87, 0xE5, 0xBF, 0x83, 0xE8, 0xA1, 0x80, 0xE7, 0xAE, 0xA1])
        [''data_source_registry'', ''Panel F device import'']
        []
        [''source_id'', ''provenance_level''] True (Some DEVICE_IMPORT)),
      (''prescription_context'', catalog_entry KPersonal None ''Prescription context'' (utf8 [0xE5,
        0xA4, 0x84, 0xE6, 0x96, 0xB9, 0xE4, 0xB8, 0x8A, 0xE4, 0xB8, 0x8B, 0xE6, 0x96, 0x87])
        [''Panel A init'']
        []
        [] False None),
      (''data_source_registry'', catalog_entry KProvenance None ''Data source registry'' (utf8 [0xE6,
        0x95, 0xB0, 0xE6, 0x8D, 0xAE, 0xE6, 0xBA, 0x90, 0xE6, 0xB3, 0xA8, 0xE5, 0x86, 0x8C, 0xE8, 0xA1, 0xA8])
        []
        [''body_anthropometrics'', ''lab_test_results'', ''clinical_diagnoses'', ''medication_history'', ''wearable_activity_metrics'']
        [] False None),
      (''device_registry'', catalog_entry KProvenance (Some DeviceData) ''Device registry'' (utf8 [0xE8, 0xAE, 0xBE, 0xE5, 0xA4, 0x87, 0xE6, 0xB3, 0xA8, 0xE5, 0x86, 0x8C, 0xE8, 0xA1, 0xA8])
        [''Panel F device import'']
        [''wearable_activity_metrics'']
        [] True (Some DEVICE_IMPORT)),
      (''medication_compliance_standards'', catalog_entry KSubscribed (Some PharmaCompliance) ''Compliance standards'' (utf8 [0xE5, 0x90, 0x88, 0xE8, 0xA7, 0x84, 0xE6, 0xA0, 0x87, 0xE5, 0x87, 0x86, 0xE5, 0x8C, 0x85])
        [''Panel F pharma import'']
        [''medication_compliance_ast_rules'']
        [] True (Some COMPLIANCE_IMPORT)),
      (''medication_compliance_ast_rules'', catalog_entry KSubscribed (Some PharmaCompliance) ''Compliance AST rules'' (utf8 [0xE5, 0x90, 0x88, 0xE8, 0xA7, 0x84] @ '' AST '' @ utf8 [0xE8, 0xA7, 0x84, 0xE5, 0x88, 0x99])
        [''medication_compliance_standards'']
        [''Rule evaluation engine'']
        [] True (Some COMPLIANCE_IMPORT)),
      (''nrdl_drug_registry'', catalog_entry KSubscribed (Some NrdlReference) ''NRDL drug registry'' (''NRDL '' @ utf8 [0xE8, 0x8D, 0xAF, 0xE5, 0x93, 0x81, 0xE7, 0x9B, 0xAE, 0xE5, 0xBD, 0x95])
        [''Panel F NRDL sync'', ''nrdl_reference_sync_state'']
        [''nrdl_payment_rules'']
        [] True (Some REFERENCE_SYNC)),
      (''nrdl_payment_rules'', catalog_entry KSubscribed (Some NrdlReference) ''NRDL payment rules'' (''NRDL '' @ utf8 [0xE6, 0x94, 0xAF, 0xE4, 0xBB, 0x98, 0xE8, 0xA7, 0x84, 0xE5, 0x88, 0x99])
        [''nrdl_drug_registry'', ''Panel F NRDL sync'']
        [''v_glp1_nrdl_check_snapshot'']
        [] True (Some REFERENCE_SYNC)),
      (''nrdl_reference_sync_state'', catalog_entry KSubscribed (Some NrdlReference) ''NRDL sync state'' (''NRDL '' @ utf8 [0xE8, 0xAE, 0xA2, 0xE9, 0x98, 0x85, 0xE5, 0x90, 0x8C, 0xE6, 0xAD, 0xA5, 0xE7, 0x8A, 0xB6, 0xE6, 0x80, 0x81])
        [''Panel F NRDL subscription URL / file'']
        [''nrdl_drug_registry'', ''nrdl_payment_rules'']
        [] True (Some REFERENCE_SYNC)),
      (''v_glp1_nrdl_check_snapshot'', catalog_entry KView None ''GLP-1 NRDL check snapshot'' (''GLP-1 NRDL '' @ utf8 [0xE6, 0xA0, 0xA1, 0xE9, 0xAA, 0x8C, 0xE5, 0xBF, 0xAB, 0xE7, 0x85, 0xA7])
        [''user_profile'', ''clinical_diagnoses'', ''medication_history'', ''lab_test_results'', ''nrdl_payment_rules'']
        [''Rule evaluation engine'', ''Chat agent decision'']
        [] False None)]"

definition getTableCatalogEntry :: "string \<Rightarrow> table_entry option" where
  "getTableCatalogEntry table = map_of TRA_TABLE_CATALOG table"

definition classifyTraTable :: "string \<Rightarrow> table_kind" where
  "classifyTraTable table = (case getTableCatalogEntry table of Some e \<Rightarrow> te_kind e | None \<Rightarrow> KPersonal)"

definition isSubscribedTable :: "string \<Rightarrow> bool" where
  "isSubscribedTable table =
     (case getTableCatalogEntry table of
        None \<Rightarrow> False | Some e \<Rightarrow> te_kind e = KSubscribed \<or> te_subscription e \<noteq> None)"

definition TRA_BROWSER_DEFAULT_TABLES :: "string list" where
  "TRA_BROWSER_DEFAULT_TABLES =
     [''body_anthropometrics'', ''lab_test_results'', ''clinical_diagnoses'', ''medication_compliance_standards'',
      ''medication_compliance_ast_rules'', ''nrdl_drug_registry'', ''nrdl_payment_rules'',
      ''nrdl_reference_sync_state'', ''v_glp1_nrdl_check_snapshot'']"

record catalog_summary =
  sm_table :: string
  sm_kind :: table_kind
  sm_subscription :: "subscription_type option"
  sm_en :: string
  sm_zh :: string

definition summarizeTableCatalog :: "string \<Rightarrow> catalog_summary" where
  "summarizeTableCatalog table =
     (let e = getTableCatalogEntry table in
      \<lparr>sm_table = table, sm_kind = classifyTraTable table, sm_subscription = Option.bind e te_subscription,
       sm_en = (case e of Some x \<Rightarrow> te_en x | None \<Rightarrow> table), sm_zh = (case e of Some x \<Rightarrow> te_zh x | None \<Rightarrow> table)\<rparr>)"

subsection \<open>The lineage graph\<close>

datatype lineage_role = RoleTable | RoleSource | RoleSubscription | RolePanel | RoleEngine

record lineage_node =
  ln_id :: string
  ln_role :: lineage_role
  ln_label :: string
  ln_meta :: "jval obj option"

type_synonym lineage_edge = "string \<times> string \<times> string"
type_synonym lineage_graph = "lineage_node list \<times> lineage_edge list"

definition path_char :: "char \<Rightarrow> bool" where
  "path_char c \<longleftrightarrow> is_word c \<or> c = CHR ''-''"

fun path_id_from :: "bool \<Rightarrow> string \<Rightarrow> string" where
  "path_id_from in_run [] = []"
| "path_id_from in_run (c # cs) =
     (if path_char c then c # path_id_from False cs
      else if in_run then path_id_from True cs else CHR ''_'' # path_id_from True cs)"

definition pathId :: "string \<Rightarrow> string" where
  "pathId value = path_id_from False value"

definition addNode :: "lineage_node \<Rightarrow> lineage_graph \<Rightarrow> lineage_graph" where
  "addNode n g = (if ln_id n \<in> set (map ln_id (fst g)) then g else (fst g @ [n], snd g))"

definition addEdge :: "string \<Rightarrow> string \<Rightarrow> string \<Rightarrow> lineage_graph \<Rightarrow> lineage_graph" where
  "addEdge a b label g = (fst g, snd g @ [(a, b, label)])"

definition table_id :: "string \<Rightarrow> string" where
  "table_id table = ''table:'' @ table"

definition add_upstream :: "string \<Rightarrow> string \<Rightarrow> lineage_graph \<Rightarrow> lineage_graph" where
  "add_upstream table up g =
     (let i = (if starts_with up ''Panel '' \<or> js_includes up '' '' then ''panel:'' @ pathId up else ''table:'' @ up);
          role = (if starts_with up ''Panel '' then RolePanel
                  else if js_includes up ''engine'' then RoleEngine else RoleTable)
      in addEdge i (table_id table) ''upstream''
           (addNode \<lparr>ln_id = i, ln_role = role, ln_label = up, ln_meta = None\<rparr> g))"

definition add_downstream :: "string \<Rightarrow> string \<Rightarrow> lineage_graph \<Rightarrow> lineage_graph" where
  "add_downstream table down g =
     (let engine = js_includes down ''engine'' \<or> js_includes down ''Chat'';
          i = (if engine then ''engine:'' @ pathId down else ''table:'' @ down)
      in addEdge (table_id table) i ''downstream''
           (addNode \<lparr>ln_id = i, ln_role = (if engine then RoleEngine else RoleTable), ln_label = down,
              ln_meta = None\<rparr> g))"

record source_row =
  sr_id :: string
  sr_name :: string
  sr_category :: string
  sr_reliability :: int
  sr_rows :: int

text \<open>The columns of a table and the grouped count of its sources, most rows first.\<close>

record lineage_env =
  le_columns :: "string \<Rightarrow> tra_db \<Rightarrow> string list"
  le_sources :: "string \<Rightarrow> tra_db \<Rightarrow> source_row list"

definition plain_name :: "string \<Rightarrow> bool" where
  "plain_name s \<longleftrightarrow> s \<noteq> [] \<and> list_all is_word s"

definition readSourceLineage :: "lineage_env \<Rightarrow> string \<Rightarrow> tra_db \<Rightarrow> source_row list" where
  "readSourceLineage le table db =
     (if \<not> plain_name table then []
      else if ''source_id'' \<notin> set (le_columns le table db) then [] else le_sources le table db)"

definition add_source :: "string \<Rightarrow> source_row \<Rightarrow> lineage_graph \<Rightarrow> lineage_graph" where
  "add_source table r g =
     (let i = ''source:'' @ sr_id r in
      addEdge i (table_id table) ''provenance''
        (addNode \<lparr>ln_id = i, ln_role = RoleSource, ln_label = sr_name r,
           ln_meta = Some [(''source_id'', JStr (sr_id r)), (''category'', JStr (sr_category r)),
             (''reliability_level'', JInt (sr_reliability r)), (''row_count'', JInt (sr_rows r))]\<rparr> g))"

record lineage_live =
  lv_standard :: "standard_row option"
  lv_reference :: "sync_row option"
  lv_sources :: "source_row list"

record table_lineage =
  tn_table :: string
  tn_kind :: table_kind
  tn_subscription :: "subscription_type option"
  tn_provenance :: "string list"
  tn_graph :: lineage_graph
  tn_live :: lineage_live

definition COMPLIANCE_TABLES :: "string list" where
  "COMPLIANCE_TABLES = [''medication_compliance_standards'', ''medication_compliance_ast_rules'']"

definition REFERENCE_TABLES :: "string list" where
  "REFERENCE_TABLES = [''nrdl_drug_registry'', ''nrdl_payment_rules'', ''nrdl_reference_sync_state'']"

definition add_standard :: "string \<Rightarrow> standard_row \<Rightarrow> lineage_graph \<Rightarrow> lineage_graph" where
  "add_standard table s g =
     addEdge ''subscription:pharma-compliance'' (table_id table) ''COMPLIANCE_IMPORT''
       (addNode \<lparr>ln_id = ''subscription:pharma-compliance'', ln_role = RoleSubscription,
          ln_label = (''Panel F '' @ utf8 [0xC2, 0xB7] @ '' pharma compliance''),
          ln_meta = Some [(''standard_id'', JStr (st_standard_id s)), (''ruleset_hash'', JStr (st_ruleset_hash s))]\<rparr> g)"

definition add_reference :: "string \<Rightarrow> sync_row \<Rightarrow> lineage_graph \<Rightarrow> lineage_graph" where
  "add_reference table y g =
     addEdge ''subscription:nrdl-reference'' (table_id table) ''REFERENCE_SYNC''
       (addNode \<lparr>ln_id = ''subscription:nrdl-reference'', ln_role = RoleSubscription,
          ln_label = (''Panel F '' @ utf8 [0xC2, 0xB7] @ '' NRDL reference''),
          ln_meta = Some [(''version_id'', JStr (sy_version_id y)), (''package_hash'', JStr (sy_package_hash y))]\<rparr> g)"

definition catalog_graph :: "string \<Rightarrow> lineage_graph" where
  "catalog_graph table =
     (let e = getTableCatalogEntry table;
          start = ([\<lparr>ln_id = table_id table, ln_role = RoleTable, ln_label = table,
            ln_meta = map_option (\<lambda>x. [(''kind'', JStr (case te_kind x of KPersonal \<Rightarrow> ''personal''
              | KSubscribed \<Rightarrow> ''subscribed'' | KReference \<Rightarrow> ''reference'' | KProvenance \<Rightarrow> ''provenance''
              | KView \<Rightarrow> ''view''))]) e\<rparr>], []);
          ups = (case e of Some x \<Rightarrow> te_upstream x | None \<Rightarrow> []);
          downs = (case e of Some x \<Rightarrow> te_downstream x | None \<Rightarrow> [])
      in fold (add_downstream table) downs (fold (add_upstream table) ups start))"

definition buildTableLineage :: "lineage_env \<Rightarrow> string \<Rightarrow> tra_db \<Rightarrow> table_lineage" where
  "buildTableLineage le table db =
     (let e = getTableCatalogEntry table;
          g0 = catalog_graph table;
          active = (if table \<in> set COMPLIANCE_TABLES then getActiveComplianceStandard db else None);
          g1 = (case active of Some s \<Rightarrow> add_standard table s g0 | None \<Rightarrow> g0);
          sync = (if table \<in> set REFERENCE_TABLES then getReferenceSyncState db else None);
          g2 = (case sync of Some y \<Rightarrow> add_reference table y g1 | None \<Rightarrow> g1);
          sources = readSourceLineage le table db
      in \<lparr>tn_table = table, tn_kind = classifyTraTable table, tn_subscription = Option.bind e te_subscription,
          tn_provenance = (case e of Some x \<Rightarrow> te_provenance x | None \<Rightarrow> []),
          tn_graph = fold (add_source table) sources g2,
          tn_live = \<lparr>lv_standard = active, lv_reference = sync, lv_sources = sources\<rparr>\<rparr>)"

subsection \<open>The subscriptions\<close>

record browse_snapshot =
  bs_active :: "(string \<times> string \<times> string) option"
  bs_synced :: bool
  bs_version :: "string option"
  bs_hash :: "string option"
  bs_drugs :: nat
  bs_rules :: nat
  bs_quick :: "catalog_summary list"

definition quick_tables :: "catalog_summary list" where
  "quick_tables =
     map (\<lambda>(t, e). \<lparr>sm_table = t, sm_kind = te_kind e, sm_subscription = te_subscription e, sm_en = te_en e, sm_zh = te_zh e\<rparr>)
       (filter (\<lambda>(t, e). te_kind e = KSubscribed \<and> te_panel_F e) TRA_TABLE_CATALOG)"

definition getBrowseSubscriptionSnapshot :: "tra_db \<Rightarrow> browse_snapshot" where
  "getBrowseSubscriptionSnapshot db =
     (let sync = getReferenceSyncState db in
      \<lparr>bs_active = map_option (\<lambda>s. (st_standard_id s, st_publisher s, st_ruleset_hash s)) (getActiveComplianceStandard db),
       bs_synced = opt_truthy (map_option sy_version_id sync), bs_version = map_option sy_version_id sync,
       bs_hash = map_option sy_package_hash sync, bs_drugs = length (db_drugs db), bs_rules = length (db_payment db),
       bs_quick = quick_tables\<rparr>)"

subsection \<open>The shape of the graph\<close>

text \<open>Distinct node ids, and every edge joins the table to another listed node.\<close>

definition star_ok :: "string \<Rightarrow> lineage_graph \<Rightarrow> bool" where
  "star_ok c g \<longleftrightarrow> distinct (map ln_id (fst g)) \<and> c \<in> ln_id ` set (fst g) \<and>
     (\<forall>(a, b, l)\<in>set (snd g). a \<in> ln_id ` set (fst g) \<and> b \<in> ln_id ` set (fst g) \<and> (a = c \<or> b = c))"

lemma star_node: "star_ok c g \<Longrightarrow> star_ok c (addNode n g)"
  by (auto simp: star_ok_def addNode_def)

lemma node_present: "ln_id n \<in> ln_id ` set (fst (addNode n g))"
  by (auto simp: addNode_def)

lemma star_edge:
  assumes "star_ok c g" and "(a = c \<and> b \<in> ln_id ` set (fst g)) \<or> (b = c \<and> a \<in> ln_id ` set (fst g))"
  shows "star_ok c (addEdge a b l g)"
  using assms by (auto simp: star_ok_def addEdge_def)

lemma star_link:
  assumes "star_ok c g"
  shows "star_ok c (addEdge (ln_id n) c l (addNode n g))" "star_ok c (addEdge c (ln_id n) l (addNode n g))"
  using assms node_present [of n g] star_node [OF assms, of n] by (auto intro!: star_edge)

lemma fold_keeps: "P g \<Longrightarrow> (\<And>x g. P g \<Longrightarrow> P (f x g)) \<Longrightarrow> P (fold f xs g)"
  by (induction xs arbitrary: g) auto

lemma star_steps:
  assumes "star_ok (table_id t) g"
  shows "star_ok (table_id t) (add_upstream t up g)" "star_ok (table_id t) (add_downstream t up g)"
    "star_ok (table_id t) (add_source t r g)" "star_ok (table_id t) (add_standard t s g)"
    "star_ok (table_id t) (add_reference t y g)"
  using star_link(1) [OF assms, of "\<lparr>ln_id = i, ln_role = ro, ln_label = la, ln_meta = me\<rparr>" for i ro la me]
    star_link(2) [OF assms, of "\<lparr>ln_id = i, ln_role = ro, ln_label = la, ln_meta = me\<rparr>" for i ro la me]
  by (simp_all add: add_upstream_def add_downstream_def add_source_def add_standard_def add_reference_def Let_def)

lemma catalog_star: "star_ok (table_id t) (catalog_graph t)"
proof -
  have "star_ok (table_id t) ([\<lparr>ln_id = table_id t, ln_role = RoleTable, ln_label = l, ln_meta = m\<rparr>], [])" for l m
    by (simp add: star_ok_def)
  then show ?thesis
    unfolding catalog_graph_def Let_def by (intro fold_keeps [where P = "star_ok (table_id t)"]) (auto intro: star_steps)
qed

lemma source_edges:
  "snd (fold (add_source t) rs g) = snd g @ map (\<lambda>r. (''source:'' @ sr_id r, table_id t, ''provenance'')) rs"
  by (induction rs arbitrary: g) (auto simp: add_source_def addEdge_def addNode_def Let_def)

definition catalog_label :: "string \<Rightarrow> bool" where
  "catalog_label l \<longleftrightarrow> l \<in> {''upstream'', ''downstream''}"

lemma catalog_edges: "\<forall>(a, b, l)\<in>set (snd (catalog_graph t)). catalog_label l"
proof -
  have "catalog_label ''upstream''" "catalog_label ''downstream''" by (simp_all add: catalog_label_def)
  then show ?thesis
    unfolding catalog_graph_def Let_def
    by (intro fold_keeps [where P = "\<lambda>g. \<forall>(a, b, l)\<in>set (snd g). catalog_label l"])
       (auto simp: add_upstream_def add_downstream_def addEdge_def addNode_def Let_def)
qed

text \<open>
  The lineage graph of a table is a star: the node ids are distinct, every edge joins the table
  with a listed node, whatever the database holds; a compliance or reference table is linked to its
  subscription exactly when one is active.
\<close>

theorem lineage_is_a_star:
  "star_ok (table_id t) (tn_graph (buildTableLineage le t db)) \<and>
   (t \<in> set COMPLIANCE_TABLES \<and> getActiveComplianceStandard db \<noteq> None \<longleftrightarrow>
      (''subscription:pharma-compliance'', table_id t, ''COMPLIANCE_IMPORT'') \<in> set (snd (tn_graph (buildTableLineage le t db)))) \<and>
   (t \<in> set REFERENCE_TABLES \<and> getReferenceSyncState db \<noteq> None \<longleftrightarrow>
      (''subscription:nrdl-reference'', table_id t, ''REFERENCE_SYNC'') \<in> set (snd (tn_graph (buildTableLineage le t db))))"
proof -
  let ?s = "case (if t \<in> set COMPLIANCE_TABLES then getActiveComplianceStandard db else None) of
      Some s \<Rightarrow> add_standard t s (catalog_graph t) | None \<Rightarrow> catalog_graph t"
  let ?r = "case (if t \<in> set REFERENCE_TABLES then getReferenceSyncState db else None) of
      Some y \<Rightarrow> add_reference t y ?s | None \<Rightarrow> ?s"
  have g: "tn_graph (buildTableLineage le t db) = fold (add_source t) (readSourceLineage le t db) ?r"
    by (simp add: buildTableLineage_def Let_def)
  have star: "star_ok (table_id t) ?r"
    using catalog_star [of t] by (auto intro!: star_steps split: option.split)
  have edges: "set (snd ?r) = set (snd (catalog_graph t)) \<union>
      (if t \<in> set COMPLIANCE_TABLES \<and> getActiveComplianceStandard db \<noteq> None
       then {(''subscription:pharma-compliance'', table_id t, ''COMPLIANCE_IMPORT'')} else {}) \<union>
      (if t \<in> set REFERENCE_TABLES \<and> getReferenceSyncState db \<noteq> None
       then {(''subscription:nrdl-reference'', table_id t, ''REFERENCE_SYNC'')} else {})"
    by (auto simp: add_standard_def add_reference_def addEdge_def addNode_def split: option.split)
  have star': "star_ok (table_id t) (tn_graph (buildTableLineage le t db))"
    unfolding g by (rule fold_keeps [where P = "star_ok (table_id t)"]) (use star star_steps(3) in blast)+
  have out: "\<not> catalog_label ''COMPLIANCE_IMPORT''" "\<not> catalog_label ''REFERENCE_SYNC''"
    "''COMPLIANCE_IMPORT'' \<noteq> ''provenance''" "''REFERENCE_SYNC'' \<noteq> ''provenance''"
    by (simp_all add: catalog_label_def)
  have in_graph: "(a, b, l) \<in> set (snd (tn_graph (buildTableLineage le t db))) \<longleftrightarrow> (a, b, l) \<in>
      (if t \<in> set COMPLIANCE_TABLES \<and> getActiveComplianceStandard db \<noteq> None
       then {(''subscription:pharma-compliance'', table_id t, ''COMPLIANCE_IMPORT'')} else {}) \<union>
      (if t \<in> set REFERENCE_TABLES \<and> getReferenceSyncState db \<noteq> None
       then {(''subscription:nrdl-reference'', table_id t, ''REFERENCE_SYNC'')} else {})"
    if "\<not> catalog_label l" "l \<noteq> ''provenance''" for a b l
  proof -
    have "(a, b, l) \<notin> set (snd (catalog_graph t))" using catalog_edges [of t] that(1) by blast
    moreover have "(a, b, l) \<notin> set (map (\<lambda>r. (''source:'' @ sr_id r, table_id t, ''provenance'')) (readSourceLineage le t db))"
      using that(2) by (simp add: image_iff)
    ultimately show ?thesis unfolding g source_edges set_append edges by (simp only: Un_iff simp_thms)
  qed
  show ?thesis
    by (simp add: star' in_graph [OF out(1,3)] in_graph [OF out(2,4)])
qed

end
