(* ===== verification/Gateway_Base.thy ===== *)
theory Gateway_Base
  imports JS_Value
begin

text \<open>
  What the components of the gateway share: the bounds of a timer
  (packages/normalization-core/src/number-coercion.ts) and the operator scopes
  (src/src/gateway/operator-scopes.ts, method-scopes.ts).
\<close>

subsection \<open>Timers\<close>

definition MAX_TIMER_TIMEOUT_MS :: int where "MAX_TIMER_TIMEOUT_MS = 2147000000"

definition resolveTimerTimeoutMs :: "num64 \<Rightarrow> int \<Rightarrow> int \<Rightarrow> int" where
  "resolveTimerTimeoutMs value fallback minMs =
     min (max (case value of Fin q \<Rightarrow> \<lfloor>q\<rfloor> | _ \<Rightarrow> fallback) (max 0 minMs)) MAX_TIMER_TIMEOUT_MS"

subsection \<open>Operator scopes\<close>

definition ADMIN_SCOPE :: string where "ADMIN_SCOPE = ''operator.admin''"
definition READ_SCOPE :: string where "READ_SCOPE = ''operator.read''"
definition WRITE_SCOPE :: string where "WRITE_SCOPE = ''operator.write''"
definition APPROVALS_SCOPE :: string where "APPROVALS_SCOPE = ''operator.approvals''"
definition PAIRING_SCOPE :: string where "PAIRING_SCOPE = ''operator.pairing''"
definition TALK_SECRETS_SCOPE :: string where "TALK_SECRETS_SCOPE = ''operator.talk.secrets''"

definition CLI_DEFAULT_OPERATOR_SCOPES :: "string list" where
  "CLI_DEFAULT_OPERATOR_SCOPES =
     [ADMIN_SCOPE, READ_SCOPE, WRITE_SCOPE, APPROVALS_SCOPE, PAIRING_SCOPE, TALK_SECRETS_SCOPE]"

definition isOperatorScope :: "string \<Rightarrow> bool" where
  "isOperatorScope s \<longleftrightarrow> s \<in> set CLI_DEFAULT_OPERATOR_SCOPES"

end
