(* ===== verification/Approvals.thy ===== *)
theory Approvals
  imports Gateway_Base
begin

text \<open>
  Operator approvals of the gateway (\<open>gateway/exec-approval-manager.ts\<close>,
  \<open>gateway/server-methods/approval-shared.ts\<close>, \<open>infra/plugin-approvals.ts\<close>): the pending records, their
  one decision, its single use, who may see a record, and the handlers that resolve and wait.  The
  promise of an entry is the value it is settled with; timers are steps of a transition system.
\<close>

subsection \<open>Decisions and records\<close>

datatype exec_decision = ExAllowOnce | ExAllowAlways | ExDeny

definition decision_string :: "exec_decision \<Rightarrow> string" where
  "decision_string d = (case d of ExAllowOnce \<Rightarrow> ''allow-once'' | ExAllowAlways \<Rightarrow> ''allow-always'' | ExDeny \<Rightarrow> ''deny'')"

definition isApprovalDecision :: "string \<Rightarrow> exec_decision option" where
  "isApprovalDecision s =
     (if s = ''allow-once'' then Some ExAllowOnce else if s = ''allow-always'' then Some ExAllowAlways
      else if s = ''deny'' then Some ExDeny else None)"

record 'p approval_record =
  ar_id :: string
  ar_request :: 'p
  ar_created :: int
  ar_expires :: int
  ar_conn :: "string option"
  ar_device :: "string option"
  ar_client :: "string option"
  ar_reviewers :: "string list"
  ar_resolved :: "int option"
  ar_decision :: "exec_decision option"
  ar_consumed :: "exec_decision option"
  ar_by :: "string option"

text \<open>\<open>pn_settled\<close> is \<open>None\<close> while the promise is open, \<open>Some None\<close> once it resolved with \<open>null\<close>.\<close>

record 'p pending_entry =
  pn_record :: "'p approval_record"
  pn_settled :: "exec_decision option option"

type_synonym 'p manager = "'p pending_entry obj"

definition MAX_PLUGIN_APPROVAL_TIMEOUT_MS :: int where "MAX_PLUGIN_APPROVAL_TIMEOUT_MS = 600000"
definition DEFAULT_PLUGIN_APPROVAL_TIMEOUT_MS :: int where "DEFAULT_PLUGIN_APPROVAL_TIMEOUT_MS = 120000"

definition resolvePluginApprovalTimeoutMs :: "jval \<Rightarrow> int" where
  "resolvePluginApprovalTimeoutMs v =
     (let candidate = (case v of JNum (Fin q) \<Rightarrow> \<lfloor>q\<rfloor> | _ \<Rightarrow> DEFAULT_PLUGIN_APPROVAL_TIMEOUT_MS)
      in min MAX_PLUGIN_APPROVAL_TIMEOUT_MS (max 1 candidate))"

definition DEFAULT_PLUGIN_APPROVAL_DECISIONS :: "exec_decision list" where
  "DEFAULT_PLUGIN_APPROVAL_DECISIONS = [ExAllowOnce, ExAllowAlways, ExDeny]"

definition push_decision :: "string \<Rightarrow> exec_decision list \<Rightarrow> exec_decision list" where
  "push_decision s explicit =
     (case isApprovalDecision s of
        Some d \<Rightarrow> if d \<in> set explicit then explicit else explicit @ [d] | None \<Rightarrow> explicit)"

definition resolvePluginApprovalRequestAllowedDecisions :: "string list option \<Rightarrow> exec_decision list" where
  "resolvePluginApprovalRequestAllowedDecisions allowed =
     (let explicit = (case allowed of Some xs \<Rightarrow> fold push_decision xs [] | None \<Rightarrow> [])
      in if explicit \<noteq> [] then explicit else DEFAULT_PLUGIN_APPROVAL_DECISIONS)"

definition approvalDecisionLabel :: "exec_decision \<Rightarrow> string" where
  "approvalDecisionLabel d =
     (case d of ExAllowOnce \<Rightarrow> ''allowed once'' | ExAllowAlways \<Rightarrow> ''allowed always'' | ExDeny \<Rightarrow> ''denied'')"

subsection \<open>The manager\<close>

definition create_record :: "int \<Rightarrow> string \<Rightarrow> 'p \<Rightarrow> num64 \<Rightarrow> string option \<Rightarrow> 'p approval_record" where
  "create_record now fresh_uuid request timeout i =
     \<lparr>ar_id = (case trim_opt i of Some t \<Rightarrow> t | None \<Rightarrow> fresh_uuid), ar_request = request, ar_created = now,
      ar_expires = now + resolveTimerTimeoutMs timeout 1 1, ar_conn = None, ar_device = None,
      ar_client = None, ar_reviewers = [], ar_resolved = None, ar_decision = None, ar_consumed = None,
      ar_by = None\<rparr>"

text \<open>\<open>None\<close> where it throws: the id was already resolved.\<close>

definition register_record :: "'p approval_record \<Rightarrow> 'p manager \<Rightarrow> 'p manager option" where
  "register_record r m =
     (case obj_get m (ar_id r) of
        Some e \<Rightarrow> if ar_resolved (pn_record e) = None then Some m else None
      | None \<Rightarrow> Some (obj_set m (ar_id r) \<lparr>pn_record = r, pn_settled = None\<rparr>))"

definition settle ::
  "int \<Rightarrow> string \<Rightarrow> exec_decision option \<Rightarrow> string option \<Rightarrow> 'p manager \<Rightarrow> bool \<times> 'p manager" where
  "settle now i d by m =
     (case obj_get m i of
        None \<Rightarrow> (False, m)
      | Some e \<Rightarrow>
          if ar_resolved (pn_record e) \<noteq> None then (False, m)
          else (True, obj_set m i
                 \<lparr>pn_record = (pn_record e)\<lparr>ar_resolved := Some now, ar_decision := d, ar_by := by\<rparr>,
                  pn_settled = Some d\<rparr>))"

definition resolve_record ::
  "int \<Rightarrow> string \<Rightarrow> exec_decision \<Rightarrow> string option \<Rightarrow> 'p manager \<Rightarrow> bool \<times> 'p manager" where
  "resolve_record now i d by m = settle now i (Some d) by m"

definition expire_record :: "int \<Rightarrow> string \<Rightarrow> string option \<Rightarrow> 'p manager \<Rightarrow> bool \<times> 'p manager" where
  "expire_record now i by m = settle now i None by m"

definition getSnapshot :: "'p manager \<Rightarrow> string \<Rightarrow> 'p approval_record option" where
  "getSnapshot m i = map_option pn_record (obj_get m i)"

definition listPendingRecords :: "'p manager \<Rightarrow> 'p approval_record list" where
  "listPendingRecords m = filter (\<lambda>r. ar_resolved r = None) (map (\<lambda>(_, e). pn_record e) m)"

definition consumeAllowOnce :: "string \<Rightarrow> 'p manager \<Rightarrow> bool \<times> 'p manager" where
  "consumeAllowOnce i m =
     (case obj_get m i of
        None \<Rightarrow> (False, m)
      | Some e \<Rightarrow>
          if ar_decision (pn_record e) \<noteq> Some ExAllowOnce then (False, m)
          else (True, obj_set m i (e\<lparr>pn_record := (pn_record e)\<lparr>ar_consumed := ar_decision (pn_record e),
                                          ar_decision := None\<rparr>\<rparr>)))"

text \<open>The settled value of the promise, \<open>None\<close> where the id is unknown.\<close>

definition awaitDecision :: "'p manager \<Rightarrow> string \<Rightarrow> exec_decision option option option" where
  "awaitDecision m i = map_option pn_settled (obj_get m i)"

text \<open>The clean-up of a settled entry after the grace period.\<close>

definition cleanup_entry :: "string \<Rightarrow> 'p manager \<Rightarrow> 'p manager" where
  "cleanup_entry i m =
     (case obj_get m i of
        Some e \<Rightarrow> if pn_settled e \<noteq> None then obj_del m i else m | None \<Rightarrow> m)"

datatype id_lookup = LookExact string | LookPrefix string | LookAmbiguous "string list" | LookNone

definition lower_id :: "string \<Rightarrow> string" where
  "lower_id s = to_lower (trim s)"

definition lookupApprovalId ::
  "'p manager \<Rightarrow> string \<Rightarrow> bool \<Rightarrow> ('p approval_record \<Rightarrow> bool) \<Rightarrow> id_lookup" where
  "lookupApprovalId m input includeResolved ok =
     (let n = trim input in
      if n = [] then LookNone
      else (case obj_get m n of
              Some e \<Rightarrow> if (includeResolved \<or> ar_resolved (pn_record e) = None) \<and> ok (pn_record e)
                        then LookExact n else LookNone
            | None \<Rightarrow>
                let matches = map fst (filter (\<lambda>(i, e).
                      (includeResolved \<or> ar_resolved (pn_record e) = None) \<and> ok (pn_record e) \<and>
                      starts_with (lower_id i) (lower_id n)) m)
                in (case matches of [] \<Rightarrow> LookNone | [i] \<Rightarrow> LookPrefix i | _ \<Rightarrow> LookAmbiguous matches)))"

subsection \<open>Who sees a record\<close>

record gateway_client =
  gc_scopes :: "string list"
  gc_runtime :: bool
  gc_device :: "string option"
  gc_conn :: "string option"
  gc_client :: "string option"
  gc_name :: "string option"

definition client_field :: "gateway_client option \<Rightarrow> (gateway_client \<Rightarrow> string option) \<Rightarrow> string option" where
  "client_field c f = trim_opt (Option.bind c f)"

definition normalizeApprovalIdentities :: "string list \<Rightarrow> string list" where
  "normalizeApprovalIdentities xs =
     rev (remdups (rev (concat (map (\<lambda>x. case trim_opt (Some x) of Some t \<Rightarrow> [t] | None \<Rightarrow> []) xs))))"

definition isApprovalRecordVisibleToClient :: "'p approval_record \<Rightarrow> gateway_client option \<Rightarrow> bool" where
  "isApprovalRecordVisibleToClient r c =
     (let scopes = (case c of Some g \<Rightarrow> gc_scopes g | None \<Rightarrow> []);
          approvals = APPROVALS_SCOPE \<in> set scopes;
          device = client_field c gc_device
      in if ADMIN_SCOPE \<in> set scopes then True
         else if approvals \<and> (case c of Some g \<Rightarrow> gc_runtime g | None \<Rightarrow> False) then True
         else if approvals \<and> device \<noteq> None \<and> the device \<in> set (normalizeApprovalIdentities (ar_reviewers r)) then True
         else (case trim_opt (ar_device r) of
                 Some d \<Rightarrow> Some d = device
               | None \<Rightarrow>
                   (case trim_opt (ar_conn r) of
                      Some k \<Rightarrow> Some k = client_field c gc_conn
                    | None \<Rightarrow> trim_opt (ar_client r) = None)))"

definition listVisiblePendingApprovalRequests :: "'p manager \<Rightarrow> gateway_client option \<Rightarrow> 'p approval_record list" where
  "listVisiblePendingApprovalRequests m c =
     filter (\<lambda>r. isApprovalRecordVisibleToClient r c) (listPendingRecords m)"

definition bindApprovalRequesterMetadata :: "gateway_client option \<Rightarrow> 'p approval_record \<Rightarrow> 'p approval_record" where
  "bindApprovalRequesterMetadata c r =
     r\<lparr>ar_conn := Option.bind c gc_conn, ar_device := Option.bind c gc_device, ar_client := Option.bind c gc_client\<rparr>"

definition bindApprovalReviewerDeviceIds :: "string list \<Rightarrow> 'p approval_record \<Rightarrow> 'p approval_record" where
  "bindApprovalReviewerDeviceIds ids r =
     (let ds = normalizeApprovalIdentities ids in if ds \<noteq> [] then r\<lparr>ar_reviewers := ds\<rparr> else r)"

subsection \<open>Resolving and waiting\<close>

datatype lookup_error = LookupMissing | LookupAmbiguous

definition resolveApprovalRecordForState ::
  "'p manager \<Rightarrow> string \<Rightarrow> gateway_client option \<Rightarrow> bool \<Rightarrow> bool \<Rightarrow> lookup_error + (string \<times> 'p approval_record)" where
  "resolveApprovalRecordForState m input c expose wantResolved =
     (let found = (\<lambda>i. case getSnapshot m i of
            None \<Rightarrow> Inl LookupMissing
          | Some r \<Rightarrow> if (ar_resolved r \<noteq> None) = wantResolved then Inr (i, r) else Inl LookupMissing)
      in (case lookupApprovalId m input wantResolved (\<lambda>r. isApprovalRecordVisibleToClient r c) of
            LookExact i \<Rightarrow> found i
          | LookPrefix i \<Rightarrow> found i
          | LookAmbiguous _ \<Rightarrow> Inl (if expose then LookupAmbiguous else LookupMissing)
          | LookNone \<Rightarrow> Inl LookupMissing))"

definition resolveRecordedApprovalDecision :: "'p approval_record \<Rightarrow> exec_decision option" where
  "resolveRecordedApprovalDecision r = (case ar_decision r of Some d \<Rightarrow> Some d | None \<Rightarrow> ar_consumed r)"

datatype resolve_answer = AnsOk | AnsAlreadyResolved | AnsUnknown | AnsAmbiguous | AnsUnavailable

definition resolved_by :: "gateway_client option \<Rightarrow> string option" where
  "resolved_by c = (case Option.bind c gc_name of Some n \<Rightarrow> Some n | None \<Rightarrow> Option.bind c gc_client)"

definition handleApprovalResolve ::
  "('p approval_record \<Rightarrow> bool) \<Rightarrow> int \<Rightarrow> string \<Rightarrow> exec_decision \<Rightarrow> gateway_client option \<Rightarrow> bool \<Rightarrow> 'p manager \<Rightarrow>
     resolve_answer \<times> 'p manager" where
  "handleApprovalResolve valid now input d c expose m =
     (case resolveApprovalRecordForState m input c expose False of
        Inl err \<Rightarrow>
          ((case resolveApprovalRecordForState m input c expose True of
              Inr (_, r) \<Rightarrow> if resolveRecordedApprovalDecision r = Some d then AnsOk else AnsAlreadyResolved
            | Inl _ \<Rightarrow> if err = LookupMissing then AnsUnknown else AnsAmbiguous), m)
      | Inr (i, r) \<Rightarrow>
          if \<not> valid r then (AnsUnavailable, m)
          else (case resolve_record now i d (resolved_by c) m of
                  (ok, m') \<Rightarrow> (if ok then AnsOk else AnsUnknown, m')))"

definition handleApprovalWaitDecision ::
  "'p manager \<Rightarrow> jval \<Rightarrow> gateway_client option \<Rightarrow> string + exec_decision option option" where
  "handleApprovalWaitDecision m inputId c =
     (case inputId of
        JStr s \<Rightarrow>
          (case trim_opt (Some s) of
             None \<Rightarrow> Inl ''id is required''
           | Some i \<Rightarrow>
               (case getSnapshot m i of
                  None \<Rightarrow> Inl ''approval expired or not found''
                | Some r \<Rightarrow>
                    if \<not> isApprovalRecordVisibleToClient r c then Inl ''approval expired or not found''
                    else (case awaitDecision m i of
                            None \<Rightarrow> Inl ''approval expired or not found'' | Some p \<Rightarrow> Inr p)))
      | _ \<Rightarrow> Inl ''id is required'')"

subsection \<open>Plugin approvals\<close>

record plugin_payload =
  pp_plugin :: "string option"
  pp_title :: string
  pp_description :: string
  pp_severity :: "string option"
  pp_tool :: "string option"
  pp_tool_call :: "string option"
  pp_allowed :: "exec_decision list option"
  pp_agent :: "string option"
  pp_session :: "string option"
  pp_channel :: "string option"
  pp_to :: "string option"
  pp_account :: "string option"
  pp_thread :: jval

record request_params =
  ra_plugin :: "string option"
  ra_title :: string
  ra_description :: string
  ra_severity :: "string option"
  ra_tool :: "string option"
  ra_tool_call :: "string option"
  ra_allowed :: "string list option"
  ra_agent :: "string option"
  ra_session :: "string option"
  ra_channel :: "string option"
  ra_to :: "string option"
  ra_account :: "string option"
  ra_thread :: jval
  ra_timeout :: jval
  ra_two_phase :: bool

text \<open>The request handler keeps the decisions it knows, each once, or all three.\<close>

definition plugin_request_payload :: "request_params \<Rightarrow> plugin_payload" where
  "plugin_request_payload p =
     \<lparr>pp_plugin = ra_plugin p, pp_title = ra_title p, pp_description = ra_description p,
      pp_severity = ra_severity p, pp_tool = ra_tool p, pp_tool_call = ra_tool_call p,
      pp_allowed = (case ra_allowed p of
         Some xs \<Rightarrow> Some (resolvePluginApprovalRequestAllowedDecisions (Some xs)) | None \<Rightarrow> None),
      pp_agent = ra_agent p, pp_session = ra_session p, pp_channel = trim_opt (ra_channel p),
      pp_to = trim_opt (ra_to p), pp_account = trim_opt (ra_account p),
      pp_thread = (if nullish (ra_thread p) then JNull else ra_thread p)\<rparr>"

definition payload_decisions :: "plugin_payload \<Rightarrow> exec_decision list" where
  "payload_decisions p =
     resolvePluginApprovalRequestAllowedDecisions (map_option (map decision_string) (pp_allowed p))"

datatype plugin_answer = PlInvalidDecision | PlAnswer resolve_answer

definition plugin_approval_resolve ::
  "int \<Rightarrow> string \<Rightarrow> string \<Rightarrow> gateway_client option \<Rightarrow> plugin_payload manager \<Rightarrow> plugin_answer \<times> plugin_payload manager" where
  "plugin_approval_resolve now inputId decision c m =
     (case isApprovalDecision decision of
        None \<Rightarrow> (PlInvalidDecision, m)
      | Some d \<Rightarrow>
          (case handleApprovalResolve (\<lambda>r. d \<in> set (payload_decisions (ar_request r))) now inputId d c False m of
             (a, m') \<Rightarrow> (PlAnswer a, m')))"

text \<open>
  Where a request can be answered: approval clients that see it, a forwarder that delivered it, or
  the channel the turn came from.  Broadcasts and follow-ups do not change the manager.
\<close>

record approval_routes =
  ro_clients :: bool
  ro_delivered :: bool
  ro_turn_source :: bool

datatype request_reply = RepNoRoute string | RepAccepted string | RepWaits string | RepFailed

definition hasTurnSourceRoute :: "approval_routes \<Rightarrow> string option \<Rightarrow> bool" where
  "hasTurnSourceRoute ro channel \<longleftrightarrow>
     \<not> ro_clients ro \<and> \<not> ro_delivered ro \<and> trim_opt channel \<noteq> None \<and> ro_turn_source ro"

text \<open>
  As the plugin approvals call it: the options of the other kind of approval (to keep a request without
  a route, to suppress its delivery or to insist on one) are not passed by them and are left out, as is
  the mark of a requester that authenticated by a device token, which only the policies of the nodes read.
\<close>

definition handlePendingApprovalRequest ::
  "int \<Rightarrow> approval_routes \<Rightarrow> string option \<Rightarrow> bool \<Rightarrow> 'p approval_record \<Rightarrow> 'p manager \<Rightarrow> request_reply \<times> 'p manager" where
  "handlePendingApprovalRequest now ro channel twoPhase r m =
     (if \<not> ro_clients ro \<and> \<not> hasTurnSourceRoute ro channel \<and> \<not> ro_delivered ro
      then (RepNoRoute (ar_id r), snd (expire_record now (ar_id r) (Some ''no-approval-route'') m))
      else (if twoPhase then RepAccepted (ar_id r) else RepWaits (ar_id r), m))"

text \<open>The id is always made by the server.\<close>

definition plugin_approval_request ::
  "int \<Rightarrow> string \<Rightarrow> approval_routes \<Rightarrow> gateway_client option \<Rightarrow> request_params \<Rightarrow> plugin_payload manager \<Rightarrow>
     request_reply \<times> plugin_payload manager" where
  "plugin_approval_request now uuid ro c p m =
     (let timeoutMs = resolvePluginApprovalTimeoutMs (ra_timeout p);
          payload = plugin_request_payload p;
          r = bindApprovalRequesterMetadata c
                (create_record now uuid payload (Fin (of_int timeoutMs)) (Some (''plugin:'' @ uuid)))
      in case register_record r m of
           None \<Rightarrow> (RepFailed, m)
         | Some m' \<Rightarrow> handlePendingApprovalRequest now ro (pp_channel payload) (ra_two_phase p) r m')"

subsection \<open>Runs of the manager\<close>

datatype approval_action =
    ActRequest string
  | ActDecide string exec_decision
  | ActExpire string
  | ActConsume string
  | ActClean string

definition fresh_record :: "'p approval_record \<Rightarrow> bool" where
  "fresh_record r \<longleftrightarrow> ar_resolved r = None \<and> ar_decision r = None \<and> ar_consumed r = None"

inductive approval_run :: "approval_action list \<Rightarrow> 'p manager \<Rightarrow> bool" where
  start: "approval_run [] []"
| request: "approval_run as m \<Longrightarrow> fresh_record r \<Longrightarrow> obj_get m (ar_id r) = None \<Longrightarrow>
    register_record r m = Some m' \<Longrightarrow> approval_run (as @ [ActRequest (ar_id r)]) m'"
| rejoin: "approval_run as m \<Longrightarrow> obj_get m (ar_id r) \<noteq> None \<Longrightarrow> register_record r m = Some m' \<Longrightarrow> approval_run as m'"
| decide: "approval_run as m \<Longrightarrow> resolve_record now i d by m = (True, m') \<Longrightarrow> approval_run (as @ [ActDecide i d]) m'"
| expire: "approval_run as m \<Longrightarrow> expire_record now i by m = (True, m') \<Longrightarrow> approval_run (as @ [ActExpire i]) m'"
| consume: "approval_run as m \<Longrightarrow> consumeAllowOnce i m = (True, m') \<Longrightarrow> approval_run (as @ [ActConsume i]) m'"
| clean: "approval_run as m \<Longrightarrow> approval_run (as @ [ActClean i]) (cleanup_entry i m)"

inductive_simps run_start: "approval_run [] m"

lemma getSnapshot_upd [simp]: "getSnapshot (obj_set m i e) j = (if i = j then Some (pn_record e) else getSnapshot m j)"
  by (simp add: getSnapshot_def kv_simps)

fun settles_id :: "string \<Rightarrow> approval_action \<Rightarrow> bool" where
  "settles_id i (ActDecide j d) = (i = j)"
| "settles_id i (ActExpire j) = (i = j)"
| "settles_id i _ = False"

definition requests :: "string \<Rightarrow> approval_action list \<Rightarrow> nat" where
  "requests i as = count_list as (ActRequest i)"

definition settlements :: "string \<Rightarrow> approval_action list \<Rightarrow> nat" where
  "settlements i as = length (filter (settles_id i) as)"

lemmas counts = requests_def settlements_def

text \<open>What holds of an id and the entry it has after the given actions.\<close>

definition entry_ok :: "string \<Rightarrow> approval_action list \<Rightarrow> 'p pending_entry option \<Rightarrow> bool" where
  "entry_ok i as en \<longleftrightarrow>
     (case en of
        None \<Rightarrow> settlements i as = requests i as
      | Some e \<Rightarrow>
          (case pn_settled e of
             None \<Rightarrow> fresh_record (pn_record e) \<and> Suc (settlements i as) = requests i as
           | Some d \<Rightarrow> ar_resolved (pn_record e) \<noteq> None \<and> settlements i as = requests i as \<and>
               (ar_decision (pn_record e) = d \<or> (d = Some ExAllowOnce \<and> ar_decision (pn_record e) = None)) \<and>
               (\<forall>x. d = Some x \<longrightarrow> ActDecide i x \<in> set as))) \<and>
     count_list as (ActConsume i) +
       (case en of None \<Rightarrow> 0 | Some e \<Rightarrow> if ar_decision (pn_record e) = Some ExAllowOnce then 1 else 0)
       \<le> count_list as (ActDecide i ExAllowOnce)"

lemma entry_ok_other:
  assumes "entry_ok i as en" and "a \<notin> {ActRequest i, ActExpire i, ActConsume i}" and "\<And>d. a \<noteq> ActDecide i d"
  shows "entry_ok i (as @ [a]) en"
proof -
  have "\<not> settles_id i a" using assms(2,3) by (cases a) auto
  then show ?thesis
    using assms by (auto simp: entry_ok_def counts split: option.splits)
qed

lemma run_entries: "approval_run as m \<Longrightarrow> entry_ok i as (obj_get m i)"
proof (induction as m rule: approval_run.induct)
  case start
  then show ?case by (simp add: entry_ok_def obj_get_def counts)
next
  case (request as m r m')
  show ?case
  proof (cases "i = ar_id r")
    case True
    then show ?thesis
      using request by (auto simp: register_record_def kv_simps entry_ok_def counts fresh_record_def)
  next
    case False
    then show ?thesis
      using request by (auto simp: register_record_def kv_simps intro!: entry_ok_other)
  qed
next
  case (rejoin as m r m')
  then show ?case by (auto simp: register_record_def split: option.splits if_splits)
next
  case (decide as m now j d "by" m')
  then obtain e where e: "obj_get m j = Some e" "ar_resolved (pn_record e) = None"
      "m' = obj_set m j \<lparr>pn_record = (pn_record e)\<lparr>ar_resolved := Some now, ar_decision := Some d, ar_by := by\<rparr>,
         pn_settled = Some (Some d)\<rparr>"
    by (auto simp: resolve_record_def settle_def split: option.splits if_splits)
  show ?case
  proof (cases "i = j")
    case True
    then show ?thesis
      using decide.IH e by (auto simp: kv_simps entry_ok_def counts fresh_record_def split: option.splits)
  next
    case False
    then show ?thesis using decide.IH e by (auto simp: kv_simps intro!: entry_ok_other)
  qed
next
  case (expire as m now j "by" m')
  then obtain e where e: "obj_get m j = Some e" "ar_resolved (pn_record e) = None"
      "m' = obj_set m j \<lparr>pn_record = (pn_record e)\<lparr>ar_resolved := Some now, ar_decision := None, ar_by := by\<rparr>,
         pn_settled = Some None\<rparr>"
    by (auto simp: expire_record_def settle_def split: option.splits if_splits)
  show ?case
  proof (cases "i = j")
    case True
    then show ?thesis
      using expire.IH e by (auto simp: kv_simps entry_ok_def counts fresh_record_def split: option.splits)
  next
    case False
    then show ?thesis using expire.IH e by (auto simp: kv_simps intro!: entry_ok_other)
  qed
next
  case (consume as m j m')
  then obtain e where e: "obj_get m j = Some e" "ar_decision (pn_record e) = Some ExAllowOnce"
      "m' = obj_set m j (e\<lparr>pn_record := (pn_record e)\<lparr>ar_consumed := Some ExAllowOnce, ar_decision := None\<rparr>\<rparr>)"
    by (auto simp: consumeAllowOnce_def split: option.splits if_splits)
  show ?case
  proof (cases "i = j")
    case True
    then show ?thesis
      using consume.IH e by (auto simp: kv_simps entry_ok_def counts fresh_record_def split: option.splits)
  next
    case False
    then show ?thesis using consume.IH e by (auto simp: kv_simps intro!: entry_ok_other)
  qed
next
  case (clean as m j)
  have "entry_ok i (as @ [ActClean j]) (obj_get m i)"
    using clean.IH by (rule entry_ok_other) auto
  then show ?case
    by (auto simp: cleanup_entry_def kv_simps entry_ok_def split: option.splits)
qed

text \<open>A request that nobody can answer is settled at once with no decision.\<close>

lemma unroutable_request:
  assumes "plugin_approval_request now uuid ro c p m = (RepNoRoute i, m')"
  shows "awaitDecision m' i = Some (Some None)"
proof -
  let ?p = "plugin_request_payload p"
  let ?r = "bindApprovalRequesterMetadata c (create_record now uuid ?p
      (Fin (of_int (resolvePluginApprovalTimeoutMs (ra_timeout p)))) (Some (''plugin:'' @ uuid)))"
  obtain m1 where m1: "register_record ?r m = Some m1"
      "handlePendingApprovalRequest now ro (pp_channel ?p) (ra_two_phase p) ?r m1 = (RepNoRoute i, m')"
    using assms by (auto simp: plugin_approval_request_def Let_def split: option.splits)
  then have i: "i = ar_id ?r" "m' = snd (expire_record now i (Some ''no-approval-route'') m1)"
    by (auto simp: handlePendingApprovalRequest_def split: if_splits)
  moreover obtain e where "obj_get m1 (ar_id ?r) = Some e" "ar_resolved (pn_record e) = None"
    using m1(1)
    by (auto simp: register_record_def kv_simps bindApprovalRequesterMetadata_def create_record_def
        split: option.splits if_splits)
  ultimately show ?thesis
    by (simp add: expire_record_def settle_def awaitDecision_def kv_simps)
qed

text \<open>
  C13 -- in every run of the approval manager an approval is decided or expires at most once per
  request, an allow-once is used at most as often as it was given, and a waiter is told only a
  decision that was made for its id.
\<close>

theorem approval_settles_once:
  assumes "approval_run as m"
  shows "settlements i as \<le> requests i as \<and>
         count_list as (ActConsume i) \<le> count_list as (ActDecide i ExAllowOnce) \<and>
         (\<forall>d. awaitDecision m i = Some (Some (Some d)) \<longrightarrow> ActDecide i d \<in> set as)"
  using run_entries [OF assms, of i]
  by (auto simp: entry_ok_def awaitDecision_def split: option.splits)

lemma run_distinct: "approval_run as m \<Longrightarrow> distinct (obj_keys m)"
proof (induction as m rule: approval_run.induct)
  case start
  then show ?case by (simp add: obj_keys_def)
qed (auto simp: register_record_def resolve_record_def expire_record_def settle_def consumeAllowOnce_def
    cleanup_entry_def obj_del_distinct intro: obj_set_distinct split: option.splits if_splits)

text \<open>A run can be followed through the gateway's handlers.\<close>

lemma lookup_found:
  assumes "distinct (obj_keys m)" and "lookupApprovalId m input False ok \<in> {LookExact i, LookPrefix i}"
  shows "\<exists>e. obj_get m i = Some e \<and> ar_resolved (pn_record e) = None \<and> ok (pn_record e) \<and>
     (i = trim input \<or> starts_with (lower_id i) (lower_id (trim input)))"
proof (cases "obj_get m (trim input)")
  case (Some e)
  then show ?thesis
    using assms(2) by (auto simp: lookupApprovalId_def Let_def split: if_splits)
next
  case None
  let ?ms = "map fst (filter (\<lambda>(i, e). (False \<or> ar_resolved (pn_record e) = None) \<and> ok (pn_record e) \<and>
      starts_with (lower_id i) (lower_id (trim input))) m)"
  have "?ms = [i]"
    using assms(2) None by (auto simp: lookupApprovalId_def Let_def split: if_splits list.splits)
  then have "i \<in> set ?ms" by simp
  then obtain e where "(i, e) \<in> set m" "ar_resolved (pn_record e) = None" "ok (pn_record e)"
      "starts_with (lower_id i) (lower_id (trim input))"
    by auto
  moreover from this(1) have "obj_get m i = Some e"
    using assms(1) by (simp add: obj_get_def obj_keys_def)
  ultimately show ?thesis by blast
qed

lemma pending_found:
  assumes "distinct (obj_keys m)" and "resolveApprovalRecordForState m input c expose False = Inr (i, r)"
  shows "\<exists>e. obj_get m i = Some e \<and> pn_record e = r \<and> ar_resolved r = None \<and> isApprovalRecordVisibleToClient r c \<and>
     (i = trim input \<or> starts_with (lower_id i) (lower_id (trim input)))"
proof -
  have l: "lookupApprovalId m input False (\<lambda>r. isApprovalRecordVisibleToClient r c) \<in> {LookExact i, LookPrefix i}"
    "getSnapshot m i = Some r"
    using assms(2) by (auto simp: resolveApprovalRecordForState_def Let_def split: id_lookup.splits option.splits if_splits)
  from lookup_found [OF assms(1) l(1)] l(2) show ?thesis by (auto simp: getSnapshot_def)
qed

text \<open>
  Who an approval belongs to: the device that asked, else its connection, else the client it
  named, else nobody.
\<close>

datatype requester = OfDevice string | OfConnection string | OfClient string | Unbound

definition requester_of :: "'p approval_record \<Rightarrow> requester" where
  "requester_of r =
     (case trim_opt (ar_device r) of
        Some d \<Rightarrow> OfDevice d
      | None \<Rightarrow>
          (case trim_opt (ar_conn r) of
             Some n \<Rightarrow> OfConnection n
           | None \<Rightarrow> (case trim_opt (ar_client r) of Some k \<Rightarrow> OfClient k | None \<Rightarrow> Unbound)))"

text \<open>A client that may answer for anybody: an administrator, the approval runtime, a named reviewer.\<close>

definition answers_for_others :: "'p approval_record \<Rightarrow> gateway_client \<Rightarrow> bool" where
  "answers_for_others r g \<longleftrightarrow>
     ADMIN_SCOPE \<in> set (gc_scopes g) \<or>
     APPROVALS_SCOPE \<in> set (gc_scopes g) \<and>
       (gc_runtime g \<or> (\<exists>d. trim_opt (gc_device g) = Some d \<and> (\<exists>x\<in>set (ar_reviewers r). trim_opt (Some x) = Some d)))"

definition may_resolve :: "'p approval_record \<Rightarrow> gateway_client option \<Rightarrow> bool" where
  "may_resolve r c \<longleftrightarrow>
     (\<exists>g. c = Some g \<and> answers_for_others r g) \<or>
     (case requester_of r of
        OfDevice d \<Rightarrow> \<exists>g. c = Some g \<and> trim_opt (gc_device g) = Some d
      | OfConnection n \<Rightarrow> \<exists>g. c = Some g \<and> trim_opt (gc_conn g) = Some n
      | OfClient k \<Rightarrow> False
      | Unbound \<Rightarrow> True)"

lemma set_identities:
  "d \<in> set (normalizeApprovalIdentities xs) \<longleftrightarrow> (\<exists>x\<in>set xs. trim_opt (Some x) = Some d)"
  by (force simp: normalizeApprovalIdentities_def split: option.splits)

lemma client_field_simps [simp]:
  "client_field None f = None" "client_field (Some g) f = trim_opt (f g)"
  by (simp_all add: client_field_def trim_opt_def)

lemma visible_may_resolve:
  assumes "isApprovalRecordVisibleToClient r c"
  shows "may_resolve r c"
proof (cases c)
  case None
  then show ?thesis
    using assms by (simp add: isApprovalRecordVisibleToClient_def may_resolve_def requester_of_def Let_def
        split: option.splits)
next
  case (Some g)
  have "isApprovalRecordVisibleToClient r (Some g) \<longleftrightarrow> answers_for_others r g \<or>
      (case requester_of r of
        OfDevice d \<Rightarrow> trim_opt (gc_device g) = Some d
      | OfConnection n \<Rightarrow> trim_opt (gc_conn g) = Some n
      | OfClient k \<Rightarrow> False
      | Unbound \<Rightarrow> True)"
    by (cases "trim_opt (gc_device g)"; cases "trim_opt (ar_device r)"; cases "trim_opt (ar_conn r)"; cases "trim_opt (ar_client r)")
       (auto simp: isApprovalRecordVisibleToClient_def answers_for_others_def requester_of_def set_identities Let_def)
  then show ?thesis using assms Some by (auto simp: may_resolve_def split: requester.splits)
qed

text \<open>
  C14 -- when an operator's answer changes a plugin approval, the approval was still open, the
  answer is one of the decisions its plugin allowed, no other approval changes, and whoever answered may
  do so: an administrator, the approval runtime, a named reviewer, or the requester itself -- the device
  the approval is bound to, else the connection.  One that is bound to a named client only is left to
  those three, and one that is bound to nobody to any operator.
\<close>

theorem plugin_resolve_authorized:
  assumes "distinct (obj_keys m)" and "plugin_approval_resolve now input decision c m = (a, m')" and "m' \<noteq> m"
  shows "\<exists>i e d. obj_get m i = Some e \<and> ar_resolved (pn_record e) = None \<and> a = PlAnswer AnsOk \<and>
     isApprovalDecision decision = Some d \<and> d \<in> set (payload_decisions (ar_request (pn_record e))) \<and>
     (i = trim input \<or> starts_with (lower_id i) (lower_id (trim input))) \<and>
     may_resolve (pn_record e) c \<and>
     awaitDecision m' i = Some (Some (Some d)) \<and> (\<forall>j. j \<noteq> i \<longrightarrow> obj_get m' j = obj_get m j)"
proof -
  obtain d where d: "isApprovalDecision decision = Some d"
    using assms(2,3) by (auto simp: plugin_approval_resolve_def split: option.splits)
  obtain i r where f: "resolveApprovalRecordForState m input c False False = Inr (i, r)"
    using assms(2,3) d
    by (cases "resolveApprovalRecordForState m input c False False")
       (auto simp: plugin_approval_resolve_def handleApprovalResolve_def split: prod.splits)
  obtain e where e: "obj_get m i = Some e" "pn_record e = r" "ar_resolved r = None"
      "isApprovalRecordVisibleToClient r c" "i = trim input \<or> starts_with (lower_id i) (lower_id (trim input))"
    using pending_found [OF assms(1) f] by blast
  have v: "d \<in> set (payload_decisions (ar_request r))"
    using assms(2,3) d f by (auto simp: plugin_approval_resolve_def handleApprovalResolve_def split: if_splits)
  obtain x where m': "m' = obj_set m i x" "pn_settled x = Some (Some d)" "a = PlAnswer AnsOk"
    using assms(2) d f v e
    by (auto simp: plugin_approval_resolve_def handleApprovalResolve_def resolve_record_def settle_def)
  show ?thesis
    using d v e m' visible_may_resolve [OF e(4)]
    by (intro exI [of _ i] exI [of _ e] exI [of _ d]) (auto simp: awaitDecision_def kv_simps)
qed

subsection \<open>A run\<close>

definition demo_ask :: request_params where
  "demo_ask = \<lparr>ra_plugin = Some ''trustclaw-tra'', ra_title = ''t'', ra_description = ''d'', ra_severity = None,
     ra_tool = Some ''trustclaw_tra_query'', ra_tool_call = None, ra_allowed = Some [''allow-once'', ''deny''],
     ra_agent = None, ra_session = None, ra_channel = None, ra_to = None, ra_account = None,
     ra_thread = JUndef, ra_timeout = JNum (Fin 300000), ra_two_phase = True\<rparr>"

definition demo_approval :: "plugin_payload approval_record" where
  "demo_approval =
     bindApprovalRequesterMetadata
       (Some \<lparr>gc_scopes = [], gc_runtime = False, gc_device = Some ''d1'', gc_conn = None, gc_client = None, gc_name = None\<rparr>)
       (create_record 0 ''u'' (plugin_request_payload demo_ask) (Fin 300000) (Some ''plugin:1''))"

definition demo_admin :: gateway_client where
  "demo_admin = \<lparr>gc_scopes = [ADMIN_SCOPE], gc_runtime = False, gc_device = None, gc_conn = None, gc_client = None,
     gc_name = Some ''op''\<rparr>"

definition demo_manager :: "plugin_payload manager" where
  "demo_manager = [(''plugin:1'', \<lparr>pn_record = demo_approval, pn_settled = None\<rparr>)]"

lemma demo_answer:
  "fst (plugin_approval_resolve 5 ''PLUGIN'' ''allow-once'' (Some demo_admin) demo_manager) = PlAnswer AnsOk"
  "snd (plugin_approval_resolve 5 ''PLUGIN'' ''allow-once'' (Some demo_admin) demo_manager) \<noteq> demo_manager"
  "plugin_approval_resolve 5 ''PLUGIN'' ''allow-always'' (Some demo_admin) demo_manager = (PlAnswer AnsUnavailable, demo_manager)"
  by code_simp+

lemma plugin_resolve_authorized_witness:
  "awaitDecision (snd (plugin_approval_resolve 5 ''PLUGIN'' ''allow-once'' (Some demo_admin) demo_manager)) ''plugin:1'' =
     Some (Some (Some ExAllowOnce))"
proof -
  have "distinct (obj_keys demo_manager)" by (simp add: demo_manager_def obj_keys_def)
  from plugin_resolve_authorized [OF this prod.collapse [symmetric] demo_answer(2)]
  obtain i e d where "obj_get demo_manager i = Some e" "isApprovalDecision ''allow-once'' = Some d"
    "awaitDecision (snd (plugin_approval_resolve 5 ''PLUGIN'' ''allow-once'' (Some demo_admin) demo_manager)) i =
       Some (Some (Some d))"
    by blast
  then show ?thesis
    by (auto simp: demo_manager_def obj_get_def isApprovalDecision_def split: if_splits)
qed

lemma demo_settled_run:
  "\<exists>m :: plugin_payload manager. approval_run [ActRequest ''plugin:1'', ActDecide ''plugin:1'' ExAllowOnce, ActConsume ''plugin:1''] m \<and>
     awaitDecision m ''plugin:1'' = Some (Some (Some ExAllowOnce))"
proof -
  have i: "ar_id demo_approval = ''plugin:1''" "trim_opt (Some ''plugin:1'') = Some ''plugin:1''" by code_simp+
  have "approval_run ([] @ [ActRequest (ar_id demo_approval)]) demo_manager"
    by (rule approval_run.request [OF approval_run.start])
       (auto simp: demo_manager_def register_record_def obj_get_def i fresh_record_def demo_approval_def
         bindApprovalRequesterMetadata_def create_record_def)
  moreover obtain m1 where m1: "resolve_record 5 ''plugin:1'' ExAllowOnce None demo_manager = (True, m1)"
      "\<exists>e. obj_get m1 ''plugin:1'' = Some e \<and> ar_decision (pn_record e) = Some ExAllowOnce \<and>
         pn_settled e = Some (Some ExAllowOnce)"
    by (auto simp: resolve_record_def settle_def demo_manager_def obj_get_def demo_approval_def
        bindApprovalRequesterMetadata_def create_record_def)
  moreover obtain m2 where m2: "consumeAllowOnce ''plugin:1'' m1 = (True, m2)"
      "awaitDecision m2 ''plugin:1'' = Some (Some (Some ExAllowOnce))"
    using m1(2) by (auto simp: consumeAllowOnce_def awaitDecision_def kv_simps)
  ultimately have "approval_run ((([] @ [ActRequest (ar_id demo_approval)]) @ [ActDecide ''plugin:1'' ExAllowOnce]) @
      [ActConsume ''plugin:1'']) m2"
    by (intro approval_run.consume approval_run.decide)
  with m2(2) i show ?thesis by auto
qed

lemma approval_settles_once_witness:
  "\<exists>m :: plugin_payload manager. approval_run [ActRequest ''plugin:1'', ActDecide ''plugin:1'' ExAllowOnce, ActConsume ''plugin:1''] m \<and>
     settlements ''plugin:1'' [ActRequest ''plugin:1'', ActDecide ''plugin:1'' ExAllowOnce, ActConsume ''plugin:1''] = 1 \<and>
     requests ''plugin:1'' [ActRequest ''plugin:1'', ActDecide ''plugin:1'' ExAllowOnce, ActConsume ''plugin:1''] = 1"
proof -
  obtain m :: "plugin_payload manager" where m: "approval_run [ActRequest ''plugin:1'', ActDecide ''plugin:1'' ExAllowOnce, ActConsume ''plugin:1''] m"
    using demo_settled_run by blast
  from approval_settles_once [OF m, of "''plugin:1''"] m show ?thesis by (auto simp: counts)
qed

end
