(* ===== verification/Tool_Gate.thy ===== *)
theory Tool_Gate
  imports Approvals
begin

text \<open>
  The gate before a tool call: the runner of \<open>before_tool_call\<close> hooks (\<open>plugins/hooks.ts\<close>, with the
  fail-closed policy of \<open>plugins/hook-runner-global.ts\<close>), the approval it asks for and its outcome
  (\<open>agents/agent-tools.before-tool-call.ts\<close>).  Loop detection, trusted policies and the skill
  workshop, which come before or after, are not part of this model; \<open>'s\<close> is the state the plugins' hooks
  work on.
\<close>

datatype resolution = ResAllowOnce | ResAllowAlways | ResDeny | ResTimeout | ResCancelled

record 's approval_request =
  aq_title :: string
  aq_description :: string
  aq_decisions :: "string list option"
  aq_timeout_ms :: "num64 option"
  aq_timeout_allows :: "bool option"
  aq_plugin :: "string option"
  aq_resolve :: "(resolution \<Rightarrow> 's \<Rightarrow> 's) option"

record 's hook_reply =
  hp_params :: "jval option"
  hp_block :: "bool option"
  hp_reason :: "string option"
  hp_approval :: "'s approval_request option"

type_synonym ('e, 's) tool_hook = "'s \<Rightarrow> ('e + 's hook_reply option) \<times> 's"

definition lastDefined :: "'a option \<Rightarrow> 'a option \<Rightarrow> 'a option" where
  "lastDefined prev nxt = (case nxt of Some x \<Rightarrow> Some x | None \<Rightarrow> prev)"

definition stickyTrue :: "bool option \<Rightarrow> bool option \<Rightarrow> bool option" where
  "stickyTrue prev nxt = (if prev = Some True \<or> nxt = Some True then Some True else None)"

definition no_reply :: "'s hook_reply" where
  "no_reply = \<lparr>hp_params = None, hp_block = None, hp_reason = None, hp_approval = None\<rparr>"

text \<open>\<open>mergeResults\<close>: the accumulated reply is absent at the first hook that answers.\<close>

definition merge_replies :: "'s hook_reply option \<Rightarrow> 's hook_reply \<Rightarrow> string \<Rightarrow> 's hook_reply" where
  "merge_replies acc nxt pid =
     (let a = (case acc of Some a \<Rightarrow> a | None \<Rightarrow> no_reply);
          owner = Option.bind (hp_approval a) aq_plugin;
          freeze = (case owner of Some p \<Rightarrow> p \<noteq> [] \<and> p \<noteq> pid | None \<Rightarrow> False)
      in if hp_block a = Some True then a
         else \<lparr>hp_params = (if freeze then hp_params a else lastDefined (hp_params a) (hp_params nxt)),
               hp_block = stickyTrue (hp_block a) (hp_block nxt),
               hp_reason = lastDefined (hp_reason a) (hp_reason nxt),
               hp_approval = (case hp_approval a of
                  Some q \<Rightarrow> Some q | None \<Rightarrow> map_option (\<lambda>q. q\<lparr>aq_plugin := Some pid\<rparr>) (hp_approval nxt))\<rparr>)"

text \<open>The hooks in order; an exception of one ends the run (fail closed), and so does a block.\<close>

fun run_modifying :: "(string \<times> ('e, 's) tool_hook) list \<Rightarrow> 's hook_reply option \<Rightarrow> 's \<Rightarrow> ('e + 's hook_reply option) \<times> 's" where
  "run_modifying [] acc st = (Inr acc, st)"
| "run_modifying ((pid, h) # hs) acc st =
     (case h st of
        (Inl err, st') \<Rightarrow> (Inl err, st')
      | (Inr None, st') \<Rightarrow> run_modifying hs acc st'
      | (Inr (Some r), st') \<Rightarrow>
          (let acc' = merge_replies acc r pid in
           if hp_block acc' = Some True then (Inr (Some acc'), st') else run_modifying hs (Some acc') st'))"

definition runBeforeToolCall :: "(string \<times> ('e, 's) tool_hook) list \<Rightarrow> 's \<Rightarrow> ('e + 's hook_reply option) \<times> 's" where
  "runBeforeToolCall hooks st = run_modifying hooks None st"

subsection \<open>Asking for the approval\<close>

text \<open>
  What the gateway answers: \<open>gr_request\<close> is \<open>None\<close> where the call throws, else the id and the
  \<open>decision\<close> property if the answer has one; \<open>gr_wait\<close> is \<open>None\<close> where waiting throws or the run is
  aborted, else the decision waited for; \<open>gr_aborted\<close> says that an exception was the run's abort.
\<close>

record gateway_replies =
  gr_request :: "(string option \<times> jval option) option"
  gr_wait :: "jval option"
  gr_aborted :: bool

datatype hook_outcome = HoBlocked string | HoAllowed "resolution option" jval

definition notify :: "'s approval_request \<Rightarrow> resolution \<Rightarrow> 's \<Rightarrow> 's" where
  "notify a r st = (case aq_resolve a of None \<Rightarrow> st | Some f \<Rightarrow> f r st)"

definition is_plain_object :: "jval \<Rightarrow> bool" where
  "is_plain_object v = (case v of JObj _ \<Rightarrow> True | _ \<Rightarrow> False)"

definition mergeParamsWithApprovalOverrides :: "jval \<Rightarrow> jval option \<Rightarrow> jval" where
  "mergeParamsWithApprovalOverrides original over =
     (case over of
        Some (JObj b) \<Rightarrow> (case original of JObj a \<Rightarrow> JObj (obj_spread a b) | _ \<Rightarrow> JObj b)
      | _ \<Rightarrow> original)"

definition or_text :: "string \<Rightarrow> string \<Rightarrow> string" where
  "or_text s fallback = (if s \<noteq> [] then s else fallback)"

definition resolution_of :: "jval \<Rightarrow> resolution" where
  "resolution_of d =
     (if d = JStr ''allow-once'' then ResAllowOnce else if d = JStr ''allow-always'' then ResAllowAlways
      else if d = JStr ''deny'' then ResDeny else ResTimeout)"

definition decided ::
  "'s approval_request \<Rightarrow> jval \<Rightarrow> jval option \<Rightarrow> jval \<Rightarrow> 's \<Rightarrow> hook_outcome \<times> 's" where
  "decided a base over decision st =
     (let r = resolution_of decision;
          outcome =
            (if r = ResAllowOnce \<or> r = ResAllowAlways
             then HoAllowed (Some r) (mergeParamsWithApprovalOverrides base over)
             else if r = ResDeny then HoBlocked ''Denied by user''
             else if aq_timeout_allows a = Some True
             then HoAllowed (Some r) (mergeParamsWithApprovalOverrides base over)
             else HoBlocked ''Approval timed out'')
      in (outcome, notify a r st))"

definition failure_reason :: "gateway_replies \<Rightarrow> string" where
  "failure_reason g =
     (if gr_aborted g then ''Approval cancelled (run aborted)'' else ''Plugin approval required (gateway unavailable)'')"

definition requestPluginToolApproval ::
  "gateway_replies \<Rightarrow> 's approval_request \<Rightarrow> jval \<Rightarrow> jval option \<Rightarrow> 's \<Rightarrow> hook_outcome \<times> 's" where
  "requestPluginToolApproval g a base over st =
     (case gr_request g of
        None \<Rightarrow> (HoBlocked (failure_reason g), notify a ResCancelled st)
      | Some (i, immediate) \<Rightarrow>
          if (case i of None \<Rightarrow> True | Some s \<Rightarrow> s = [])
          then (HoBlocked (or_text (aq_description a) ''Plugin approval request failed''), notify a ResCancelled st)
          else (case immediate of
                  Some JNull \<Rightarrow>
                    (HoBlocked ''Plugin approval unavailable (no approval route)'', notify a ResCancelled st)
                | Some d \<Rightarrow> decided a base over d st
                | None \<Rightarrow>
                    (case gr_wait g of
                       None \<Rightarrow> (HoBlocked (failure_reason g), notify a ResCancelled st)
                     | Some d \<Rightarrow> decided a base over d st)))"

definition resolvePluginToolApprovalTimeoutMs :: "'s approval_request \<Rightarrow> int" where
  "resolvePluginToolApprovalTimeoutMs a =
     (case aq_timeout_ms a of
        Some (Fin q) \<Rightarrow> if q \<le> 0 then DEFAULT_PLUGIN_APPROVAL_TIMEOUT_MS
                       else min \<lfloor>q\<rfloor> MAX_PLUGIN_APPROVAL_TIMEOUT_MS
      | _ \<Rightarrow> DEFAULT_PLUGIN_APPROVAL_TIMEOUT_MS)"

datatype approval_mode = ModeRequest | ModeReport | ModeDefer

datatype 's gate_outcome = Decided hook_outcome | Deferred "'s approval_request" jval "jval option"

definition resolveBeforeToolCallApprovalOutcome ::
  "approval_mode \<Rightarrow> gateway_replies \<Rightarrow> 's hook_reply \<Rightarrow> jval \<Rightarrow> 's \<Rightarrow> 's gate_outcome option \<times> 's" where
  "resolveBeforeToolCallApprovalOutcome mode g r base st =
     (case hp_approval r of
        None \<Rightarrow> (None, st)
      | Some a \<Rightarrow>
          (case mode of
             ModeDefer \<Rightarrow> (Some (Deferred a base (hp_params r)), st)
           | ModeReport \<Rightarrow>
               (Some (Decided (HoBlocked (or_text (aq_description a) (or_text (aq_title a) ''Plugin approval required'')))),
                notify a ResCancelled st)
           | ModeRequest \<Rightarrow> map_prod (Some \<circ> Decided) id (requestPluginToolApproval g a base (hp_params r) st)))"

text \<open>The deferred request is made later at the execution boundary, or cancelled.\<close>

definition requestDeferredPluginToolApproval ::
  "gateway_replies \<Rightarrow> 's approval_request \<Rightarrow> jval \<Rightarrow> jval option \<Rightarrow> 's \<Rightarrow> hook_outcome \<times> 's" where
  "requestDeferredPluginToolApproval g a base over st = requestPluginToolApproval g a base over st"

definition cancelDeferredPluginToolApproval :: "'s approval_request \<Rightarrow> 's \<Rightarrow> 's" where
  "cancelDeferredPluginToolApproval a st = notify a ResCancelled st"

definition BEFORE_TOOL_CALL_HOOK_FAILURE_REASON :: string where
  "BEFORE_TOOL_CALL_HOOK_FAILURE_REASON = ''Tool call blocked because before_tool_call hook failed''"

text \<open>The part of \<open>runBeforeToolCallHook\<close> from the hook runner on.\<close>

definition runBeforeToolCallHook ::
  "approval_mode \<Rightarrow> gateway_replies \<Rightarrow> (string \<times> ('e, 's) tool_hook) list \<Rightarrow> jval \<Rightarrow> 's \<Rightarrow> 's gate_outcome \<times> 's" where
  "runBeforeToolCallHook mode g hooks params st =
     (case runBeforeToolCall hooks st of
        (Inl err, st') \<Rightarrow> (Decided (HoBlocked BEFORE_TOOL_CALL_HOOK_FAILURE_REASON), st')
      | (Inr None, st') \<Rightarrow> (Decided (HoAllowed None params), st')
      | (Inr (Some r), st') \<Rightarrow>
          if hp_block r = Some True
          then (Decided (HoBlocked (or_text (case hp_reason r of Some s \<Rightarrow> s | None \<Rightarrow> [])
                  ''Tool call blocked by plugin hook'')), st')
          else (case resolveBeforeToolCallApprovalOutcome mode g r params st' of
                  (Some (Decided (HoAllowed res p)), st2) \<Rightarrow>
                    (Decided (HoAllowed res (mergeParamsWithApprovalOverrides p (hp_params r))), st2)
                | (Some out, st2) \<Rightarrow> (out, st2)
                | (None, st2) \<Rightarrow>
                    (Decided (HoAllowed None (mergeParamsWithApprovalOverrides params (hp_params r))), st2)))"

subsection \<open>What an allowed call went through\<close>

text \<open>The replies of all hooks, run in order; \<open>None\<close> where one throws.\<close>

fun replies :: "(string \<times> ('e, 's) tool_hook) list \<Rightarrow> 's \<Rightarrow> ((string \<times> 's hook_reply) list \<times> 's) option" where
  "replies [] st = Some ([], st)"
| "replies ((pid, h) # hs) st =
     (case h st of
        (Inl _, _) \<Rightarrow> None
      | (Inr None, st') \<Rightarrow> replies hs st'
      | (Inr (Some r), st') \<Rightarrow> map_option (\<lambda>(rs, s). ((pid, r) # rs, s)) (replies hs st'))"

definition first_approval :: "(string \<times> 's hook_reply) list \<Rightarrow> 's approval_request option" where
  "first_approval rs =
     (case find (\<lambda>(_, r). hp_approval r \<noteq> None) rs of
        None \<Rightarrow> None | Some (pid, r) \<Rightarrow> map_option (\<lambda>q. q\<lparr>aq_plugin := Some pid\<rparr>) (hp_approval r))"

lemma first_approval_Cons:
  "first_approval ((pid, r) # rs) =
     (case hp_approval r of Some q \<Rightarrow> Some (q\<lparr>aq_plugin := Some pid\<rparr>) | None \<Rightarrow> first_approval rs)"
  by (auto simp: first_approval_def split: option.split)

definition unblocked :: "'s hook_reply option \<Rightarrow> bool" where
  "unblocked r = (case r of None \<Rightarrow> True | Some a \<Rightarrow> hp_block a \<noteq> Some True)"

lemma merge_unblocked:
  assumes "unblocked acc" and "hp_block (merge_replies acc r pid) \<noteq> Some True"
  shows "hp_block r \<noteq> Some True \<and> hp_approval (merge_replies acc r pid) =
     (case Option.bind acc hp_approval of
        Some q \<Rightarrow> Some q | None \<Rightarrow> map_option (\<lambda>q. q\<lparr>aq_plugin := Some pid\<rparr>) (hp_approval r))"
  using assms
  by (cases acc) (auto simp: merge_replies_def Let_def unblocked_def stickyTrue_def no_reply_def split: if_splits)

lemma run_unblocked:
  assumes "run_modifying hs acc st = (Inr out, st')" and "unblocked acc" and "unblocked out"
  shows "\<exists>rs. replies hs st = Some (rs, st') \<and> (\<forall>(p, r)\<in>set rs. hp_block r \<noteq> Some True) \<and>
     Option.bind out hp_approval =
       (case Option.bind acc hp_approval of Some q \<Rightarrow> Some q | None \<Rightarrow> first_approval rs)"
  using assms
proof (induction hs arbitrary: acc st)
  case Nil
  then show ?case by (auto simp: first_approval_def split: option.split)
next
  case (Cons x hs)
  obtain pid h where x: "x = (pid, h)" by force
  obtain res st1 where h: "h st = (res, st1)" by force
  show ?case
  proof (cases res)
    case (Inl err)
    then show ?thesis using Cons.prems x h by simp
  next
    case (Inr reply)
    show ?thesis
    proof (cases reply)
      case None
      then show ?thesis using Cons.IH [of acc st1] Cons.prems x h Inr by simp
    next
      case (Some r)
      let ?acc = "merge_replies acc r pid"
      have go: "hp_block ?acc \<noteq> Some True"
        using Cons.prems x h Inr Some by (auto simp: Let_def unblocked_def split: if_splits)
      then have run: "run_modifying hs (Some ?acc) st1 = (Inr out, st')"
        using Cons.prems x h Inr Some by (simp add: Let_def)
      obtain rs where rs: "replies hs st1 = Some (rs, st')" "\<forall>(p, r)\<in>set rs. hp_block r \<noteq> Some True"
          "Option.bind out hp_approval =
             (case hp_approval ?acc of Some q \<Rightarrow> Some q | None \<Rightarrow> first_approval rs)"
        using Cons.IH [OF run _ Cons.prems(3)] go by (auto simp: unblocked_def)
      show ?thesis
        using x h Inr Some rs merge_unblocked [OF Cons.prems(2) go]
        by (auto simp: first_approval_Cons split: option.splits)
    qed
  qed
qed

text \<open>What the gateway says of an approval, when it answers.\<close>

definition gateway_decision :: "gateway_replies \<Rightarrow> jval option" where
  "gateway_decision g =
     (case gr_request g of
        None \<Rightarrow> None | Some (i, Some d) \<Rightarrow> Some d | Some (i, None) \<Rightarrow> gr_wait g)"

lemma resolution_of_neq [simp]: "resolution_of d \<noteq> ResCancelled"
  by (simp add: resolution_of_def)

lemma request_allowed:
  assumes "requestPluginToolApproval g a base over st = (HoAllowed res p, st2)"
  shows "\<exists>d. gateway_decision g = Some d \<and> res = Some (resolution_of d) \<and> st2 = notify a (resolution_of d) st \<and>
     (resolution_of d \<in> {ResAllowOnce, ResAllowAlways} \<or> (resolution_of d = ResTimeout \<and> aq_timeout_allows a = Some True))"
proof -
  have "\<exists>d. gateway_decision g = Some d \<and> decided a base over d st = (HoAllowed res p, st2)"
    using assms by (auto simp: requestPluginToolApproval_def gateway_decision_def
        split: option.splits jval.splits if_splits)
  then obtain d where d: "gateway_decision g = Some d" "decided a base over d st = (HoAllowed res p, st2)" by blast
  then show ?thesis
    by (cases "resolution_of d") (auto simp: decided_def Let_def split: if_splits)
qed

definition asked ::
  "gateway_replies \<Rightarrow> jval \<Rightarrow> 's hook_reply option \<Rightarrow> 's \<Rightarrow> resolution option \<Rightarrow> 's \<Rightarrow> bool" where
  "asked g params out st1 res st2 \<longleftrightarrow>
     (case Option.bind out hp_approval of
        None \<Rightarrow> res = None \<and> st2 = st1
      | Some a \<Rightarrow> \<exists>p over. requestPluginToolApproval g a params over st1 = (HoAllowed res p, st2))"

lemma gate_run:
  assumes "runBeforeToolCallHook ModeRequest g hooks params st = (Decided (HoAllowed res p), st2)"
  shows "\<exists>out st1. run_modifying hooks None st = (Inr out, st1) \<and> unblocked out \<and> asked g params out st1 res st2"
  using assms
  by (auto simp: runBeforeToolCallHook_def runBeforeToolCall_def resolveBeforeToolCallApprovalOutcome_def
      unblocked_def asked_def map_prod_def split: prod.splits sum.splits option.splits if_splits
      gate_outcome.splits hook_outcome.splits)

lemma gate_cases:
  assumes "runBeforeToolCallHook ModeRequest g hooks params st = (Decided (HoAllowed res p), st2)"
  shows "\<exists>rs st1. replies hooks st = Some (rs, st1) \<and> (\<forall>(p, r)\<in>set rs. hp_block r \<noteq> Some True) \<and>
     (case first_approval rs of
        None \<Rightarrow> res = None \<and> st2 = st1
      | Some a \<Rightarrow> \<exists>d. gateway_decision g = Some d \<and> res = Some (resolution_of d) \<and>
          st2 = notify a (resolution_of d) st1 \<and>
          (resolution_of d \<in> {ResAllowOnce, ResAllowAlways} \<or>
           (resolution_of d = ResTimeout \<and> aq_timeout_allows a = Some True)))"
proof -
  obtain out st1 where run: "run_modifying hooks None st = (Inr out, st1)" and ok: "unblocked out"
    and rest: "asked g params out st1 res st2"
    using gate_run [OF assms] by blast
  from run_unblocked [OF run _ ok] obtain rs where rs: "replies hooks st = Some (rs, st1)"
      "\<forall>(p, r)\<in>set rs. hp_block r \<noteq> Some True" "Option.bind out hp_approval = first_approval rs"
    by (auto simp: unblocked_def)
  have "(case first_approval rs of
        None \<Rightarrow> res = None \<and> st2 = st1
      | Some a \<Rightarrow> \<exists>d. gateway_decision g = Some d \<and> res = Some (resolution_of d) \<and>
          st2 = notify a (resolution_of d) st1 \<and>
          (resolution_of d \<in> {ResAllowOnce, ResAllowAlways} \<or>
           (resolution_of d = ResTimeout \<and> aq_timeout_allows a = Some True)))"
  proof (cases "first_approval rs")
    case None
    then show ?thesis using rest rs(3) by (simp add: asked_def)
  next
    case (Some a)
    then obtain p' over where "requestPluginToolApproval g a params over st1 = (HoAllowed res p', st2)"
      using rest rs(3) by (auto simp: asked_def)
    from request_allowed [OF this] Some show ?thesis by simp
  qed
  with rs show ?thesis by blast
qed

lemma gate_first_approval:
  assumes "runBeforeToolCallHook ModeRequest g hooks params st = (Decided (HoAllowed res p), st2)"
    and "replies hooks st = Some (rs, st1)"
  shows "case first_approval rs of
        None \<Rightarrow> res = None \<and> st2 = st1
      | Some a \<Rightarrow> \<exists>d. gateway_decision g = Some d \<and> res = Some (resolution_of d) \<and>
          st2 = notify a (resolution_of d) st1 \<and>
          (resolution_of d \<in> {ResAllowOnce, ResAllowAlways} \<or>
           (resolution_of d = ResTimeout \<and> aq_timeout_allows a = Some True))"
  using gate_cases [OF assms(1)] assms(2) by auto

text \<open>
  C41 -- a tool call is allowed only after every \<open>before_tool_call\<close> hook has run without an exception
  and without a block; if a hook asked for an approval, the approval of the first that did was put to
  the gateway and answered by an allowing decision (or timed out where the plugin says that a timeout
  allows), and the plugin was told; the approvals of later hooks are not asked.
\<close>

theorem allowed_call_was_approved:
  assumes "runBeforeToolCallHook ModeRequest g hooks params st = (Decided (HoAllowed res p), st2)"
  shows "\<exists>rs st1. replies hooks st = Some (rs, st1) \<and> (\<forall>(p, r)\<in>set rs. hp_block r \<noteq> Some True) \<and>
     (case first_approval rs of
        None \<Rightarrow> res = None \<and> st2 = st1
      | Some a \<Rightarrow> \<exists>d. gateway_decision g = Some d \<and> res = Some (resolution_of d) \<and>
          st2 = notify a (resolution_of d) st1 \<and>
          (resolution_of d \<in> {ResAllowOnce, ResAllowAlways} \<or>
           (resolution_of d = ResTimeout \<and> aq_timeout_allows a = Some True)))"
  by (rule gate_cases [OF assms])

definition demo_hooks :: "(string \<times> (nat, nat) tool_hook) list" where
  "demo_hooks =
     [(''watch'', \<lambda>n. (Inr None, Suc n)),
      (''ask'', \<lambda>n. (Inr (Some (no_reply\<lparr>hp_approval := Some \<lparr>aq_title = ''t'', aq_description = ''d'',
          aq_decisions = None, aq_timeout_ms = None, aq_timeout_allows = Some False, aq_plugin = None,
          aq_resolve = Some (\<lambda>r n. if r = ResAllowOnce then n + 10 else n)\<rparr>\<rparr>)), Suc n))]"

definition demo_gateway :: gateway_replies where
  "demo_gateway = \<lparr>gr_request = Some (Some ''plugin:1'', Some (JStr ''allow-once'')), gr_wait = None, gr_aborted = False\<rparr>"

lemma allowed_call_was_approved_witness:
  "\<exists>p n. runBeforeToolCallHook ModeRequest demo_gateway demo_hooks (JObj []) 0 =
       (Decided (HoAllowed (Some ResAllowOnce) p), n) \<and> n = 12 \<and>
     gateway_decision demo_gateway = Some (JStr ''allow-once'')"
proof -
  have run: "runBeforeToolCallHook ModeRequest demo_gateway demo_hooks (JObj []) 0 =
      (Decided (HoAllowed (Some ResAllowOnce) (JObj [])), 12)"
    by (simp add: runBeforeToolCallHook_def runBeforeToolCall_def demo_hooks_def demo_gateway_def Let_def
        merge_replies_def no_reply_def lastDefined_def stickyTrue_def resolveBeforeToolCallApprovalOutcome_def
        requestPluginToolApproval_def decided_def resolution_of_def notify_def mergeParamsWithApprovalOverrides_def)
  from allowed_call_was_approved [OF run] run show ?thesis
    by (auto simp: demo_hooks_def no_reply_def first_approval_def gateway_decision_def demo_gateway_def)
qed

subsection \<open>The gate and the gateway's manager together\<close>

definition decision_json :: "exec_decision option \<Rightarrow> jval" where
  "decision_json d = (case d of Some x \<Rightarrow> JStr (decision_string x) | None \<Rightarrow> JNull)"

text \<open>
  The answers to the two calls of the gate, given the request handler's reply and the manager at the
  time the wait is answered; \<open>c\<close> is the client of the wait.
\<close>

definition replies_of_manager ::
  "request_reply \<Rightarrow> plugin_payload manager \<Rightarrow> gateway_client option \<Rightarrow> gateway_replies" where
  "replies_of_manager rep m c =
     (case rep of
        RepNoRoute i \<Rightarrow> \<lparr>gr_request = Some (Some i, Some JNull), gr_wait = None, gr_aborted = False\<rparr>
      | RepAccepted i \<Rightarrow> \<lparr>gr_request = Some (Some i, None),
          gr_wait = (case handleApprovalWaitDecision m (JStr i) c of
             Inr (Some d) \<Rightarrow> Some (decision_json d) | _ \<Rightarrow> None), gr_aborted = False\<rparr>
      | RepWaits i \<Rightarrow> \<lparr>gr_request = Some (Some i,
          (case awaitDecision m i of Some (Some d) \<Rightarrow> Some (decision_json d) | _ \<Rightarrow> None)),
          gr_wait = None, gr_aborted = False\<rparr>
      | RepFailed \<Rightarrow> \<lparr>gr_request = None, gr_wait = None, gr_aborted = False\<rparr>)"

lemma decision_json_resolution:
  "resolution_of (decision_json d) = ResAllowOnce \<longleftrightarrow> d = Some ExAllowOnce"
  "resolution_of (decision_json d) = ResAllowAlways \<longleftrightarrow> d = Some ExAllowAlways"
  by (auto simp: resolution_of_def decision_json_def decision_string_def split: option.splits exec_decision.splits)

lemma manager_decision:
  assumes "gateway_decision (replies_of_manager (RepAccepted i) m c) = Some v" and "trim i = i"
  shows "\<exists>d. v = decision_json d \<and> awaitDecision m i = Some (Some d)"
  using assms
  by (auto simp: gateway_decision_def replies_of_manager_def handleApprovalWaitDecision_def trim_opt_def
      split: sum.splits option.splits if_splits)

text \<open>
  C12 -- whatever happened in the approval manager, a tool call for which a plugin asked an approval,
  and for which a timeout does not allow, runs only if an operator decided allow-once or allow-always
  for exactly this approval; one that nobody could answer is blocked.
\<close>

theorem allowed_call_was_decided:
  assumes gate: "runBeforeToolCallHook ModeRequest (replies_of_manager rep m c) hooks params st =
      (Decided (HoAllowed res p), st2)"
    and run: "approval_run as m"
    and rep: "rep \<in> {RepNoRoute i, RepAccepted i, RepFailed}" "trim i = i"
    and asked: "replies hooks st = Some (rs, st1)" "first_approval rs = Some a" "aq_timeout_allows a \<noteq> Some True"
  shows "rep = RepAccepted i \<and>
    (\<exists>d. d \<in> {ExAllowOnce, ExAllowAlways} \<and> ActDecide i d \<in> set as \<and> res = Some (resolution_of (JStr (decision_string d))))"
proof -
  obtain v where v: "gateway_decision (replies_of_manager rep m c) = Some v" "res = Some (resolution_of v)"
      "resolution_of v \<in> {ResAllowOnce, ResAllowAlways}"
    using gate_first_approval [OF gate asked(1)] asked(2,3) by auto
  have acc: "rep = RepAccepted i"
    using rep(1) v(1,3) by (auto simp: gateway_decision_def replies_of_manager_def resolution_of_def)
  obtain d where d: "v = decision_json d" "awaitDecision m i = Some (Some d)"
    using manager_decision v(1) acc rep(2) by blast
  then obtain x where x: "d = Some x" "x \<in> {ExAllowOnce, ExAllowAlways}"
    using v(3) by (auto simp: decision_json_resolution)
  then have "ActDecide i x \<in> set as"
    using run_entries [OF run, of i] d(2) by (auto simp: awaitDecision_def entry_ok_def split: option.splits)
  then show ?thesis using acc v(2) d(1) x by (auto simp: decision_json_def)
qed

lemma allowed_call_was_decided_witness:
  "\<exists>(m :: plugin_payload manager) p n.
     runBeforeToolCallHook ModeRequest (replies_of_manager (RepAccepted ''plugin:1'') m (Some demo_admin)) demo_hooks
       (JObj []) 0 = (Decided (HoAllowed (Some ResAllowOnce) p), n) \<and>
     ActDecide ''plugin:1'' ExAllowOnce \<in> set [ActRequest ''plugin:1'', ActDecide ''plugin:1'' ExAllowOnce, ActConsume ''plugin:1'']"
proof -
  let ?as = "[ActRequest ''plugin:1'', ActDecide ''plugin:1'' ExAllowOnce, ActConsume ''plugin:1'']"
  obtain m :: "plugin_payload manager" where m: "approval_run ?as m"
      "awaitDecision m ''plugin:1'' = Some (Some (Some ExAllowOnce))"
    using demo_settled_run by blast
  have t: "trim ''plugin:1'' = ''plugin:1''" by code_simp
  have admin: "isApprovalRecordVisibleToClient r (Some demo_admin)" for r :: "plugin_payload approval_record"
    by (simp add: isApprovalRecordVisibleToClient_def demo_admin_def)
  have wait: "handleApprovalWaitDecision m (JStr ''plugin:1'') (Some demo_admin) = Inr (Some (Some ExAllowOnce))"
    using m(2) t admin
    by (auto simp: handleApprovalWaitDecision_def trim_opt_def awaitDecision_def getSnapshot_def)
  have run: "runBeforeToolCallHook ModeRequest (replies_of_manager (RepAccepted ''plugin:1'') m (Some demo_admin)) demo_hooks
      (JObj []) 0 = (Decided (HoAllowed (Some ResAllowOnce) (JObj [])), 12)"
    using wait
    by (simp add: runBeforeToolCallHook_def runBeforeToolCall_def demo_hooks_def replies_of_manager_def Let_def
        merge_replies_def no_reply_def lastDefined_def stickyTrue_def resolveBeforeToolCallApprovalOutcome_def
        requestPluginToolApproval_def decided_def resolution_of_def notify_def mergeParamsWithApprovalOverrides_def
        decision_json_def decision_string_def)
  obtain rs where rs: "replies demo_hooks 0 = Some (rs, 2)" "\<exists>a. first_approval rs = Some a \<and> aq_timeout_allows a = Some False"
    by (auto simp: demo_hooks_def no_reply_def first_approval_def)
  then obtain a where a: "first_approval rs = Some a" "aq_timeout_allows a \<noteq> Some True" by auto
  from allowed_call_was_decided [OF run m(1) _ t rs(1) a] run show ?thesis by auto
qed

end
