(* ===== verification/Hooks.thy ===== *)
theory Hooks
  imports Plugin Tool_Gate
begin

text \<open>
  The plugin's own gate (\<open>extensions/trustclaw-tra/src/data-consent-hook.ts\<close>), which asks the user before
  a tool reads or writes personal data, the two tools it guards, and the context it adds to the
  prompt of an agent (\<open>agent-guidance.ts\<close>).
\<close>

subsection \<open>Texts\<close>


definition TRA_PRIVATE_DATA_FIELD_LABELS :: "(string \<times> string \<times> string) list" where
  "TRA_PRIVATE_DATA_FIELD_LABELS =
     [(''patient_name'', ''Patient name'', (utf8 [0xE6, 0x82, 0xA3, 0xE8, 0x80, 0x85, 0xE5, 0xA7, 0x93,
        0xE5, 0x90, 0x8D])),
      (''age'', ''Age'', (utf8 [0xE5, 0xB9, 0xB4, 0xE9, 0xBE, 0x84])),
      (''gender'', ''Gender'', (utf8 [0xE6, 0x80, 0xA7, 0xE5, 0x88, 0xAB])),
      (''weight_kg'', ''Weight (kg)'', (utf8 [0xE4, 0xBD, 0x93, 0xE9, 0x87, 0x8D] @ '' (kg)'')),
      (''height_cm'', ''Height (cm)'', (utf8 [0xE8, 0xBA, 0xAB, 0xE9, 0xAB, 0x98] @ '' (cm)'')),
      (''bmi'', ''BMI'', (''BMI '' @ utf8 [0xE6, 0x8C, 0x87, 0xE6, 0x95, 0xB0])),
      (''hba1c'', ''HbA1c (%)'', (utf8 [0xE7, 0xB3, 0x96, 0xE5, 0x8C, 0x96, 0xE8, 0xA1, 0x80, 0xE7,
        0xBA, 0xA2, 0xE8, 0x9B, 0x8B, 0xE7, 0x99, 0xBD] @ '' HbA1c'')),
      (''clinical_diagnoses'', ''Clinical diagnoses'', (utf8 [0xE4, 0xB8, 0xB4, 0xE5, 0xBA, 0x8A, 0xE8,
        0xAF, 0x8A, 0xE6, 0x96, 0xAD, 0xE8, 0xAE, 0xB0, 0xE5, 0xBD, 0x95])),
      (''medication_history'', ''Medication history'', (utf8 [0xE7, 0x94, 0xA8, 0xE8, 0x8D, 0xAF, 0xE5,
        0x8F, 0xB2])),
      (''glp1_eligibility_snapshot'', ''GLP-1 eligibility snapshot'', (''GLP-1 '' @ utf8 [0xE5, 0x8C,
        0xBB, 0xE4, 0xBF, 0x9D, 0xE8, 0xB5, 0x84, 0xE6, 0xA0, 0xBC, 0xE5, 0xBF, 0xAB, 0xE7, 0x85, 0xA7]))]"

datatype locale_tag = LocEn | LocZh

definition formatPrivateDataFieldLabels :: "string list \<Rightarrow> locale_tag \<Rightarrow> string list" where
  "formatPrivateDataFieldLabels keys loc =
     map (\<lambda>k. case map_of TRA_PRIVATE_DATA_FIELD_LABELS k of
            None \<Rightarrow> k | Some (en, zh) \<Rightarrow> (case loc of LocEn \<Rightarrow> en | LocZh \<Rightarrow> zh)) keys"

definition ellipsis :: string where "ellipsis = (utf8 [0xE2, 0x80, 0xA6])"

definition utf16_length :: "string \<Rightarrow> nat" where
  "utf16_length s = sum_list (map utf16_units s)"

definition truncateDescription :: "string \<Rightarrow> nat \<Rightarrow> string" where
  "truncateDescription s limit = (if utf16_length s \<le> limit then s else utf16_take (limit - 1) s @ ellipsis)"

definition buildTraDataConsentDescription :: "string \<Rightarrow> string list \<Rightarrow> string \<Rightarrow> string" where
  "buildTraDataConsentDescription question labels purpose =
     (let preview = (if 80 < utf16_length question then utf16_take 77 question @ ellipsis else question);
          names = join (utf8 [0xE3, 0x80, 0x81]) labels
      in truncateDescription
           ((utf8 [0xE5, 0xB0, 0x86, 0xE8, 0xAF, 0xBB, 0xE5, 0x8F, 0x96, 0xE6, 0x9C, 0xAC, 0xE5, 0x9C,
        0xB0] @ '' TRA '' @ utf8 [0xE7, 0xA7, 0x81, 0xE4, 0xBA, 0xBA, 0xE6, 0x95, 0xB0, 0xE6, 0x8D,
        0xAE, 0xEF, 0xBC, 0x9A]) @ names @ (utf8 [0xE3, 0x80, 0x82, 0xE7, 0x94, 0xA8, 0xE9, 0x80, 0x94,
        0xEF, 0xBC, 0x9A]) @ purpose @ (utf8 [0xEF, 0xBC, 0x88, 0xE5, 0x90, 0xAB, 0xE5, 0xAE, 0xA1,
        0xE8, 0xAE, 0xA1, 0xEF, 0xBC, 0x89, 0xE3, 0x80, 0x82, 0xE9, 0x97, 0xAE, 0xE9, 0xA2, 0x98, 0xEF,
        0xBC, 0x9A]) @ preview) 256)"

lemma utf16_length_take: "utf16_length (utf16_take n s) \<le> n"
  unfolding utf16_length_def by (rule preview_within_limit)

lemma truncated_within: "0 < limit \<Longrightarrow> utf16_length (truncateDescription s limit) \<le> limit"
  using utf16_length_take [of "limit - 1" s]
  by (auto simp: truncateDescription_def utf16_length_def ellipsis_def utf8_def utf16_units_def chr_in_def)

subsection \<open>The consent hook\<close>

record tool_ctx =
  tc_sessionKey :: "string option"
  tc_sessionId :: "string option"
  tc_agentId :: "string option"
  tc_sandboxed :: bool

definition resolution_text :: "resolution \<Rightarrow> string" where
  "resolution_text r =
     (case r of ResAllowOnce \<Rightarrow> ''allow-once'' | ResAllowAlways \<Rightarrow> ''allow-always'' | ResDeny \<Rightarrow> ''deny''
      | ResTimeout \<Rightarrow> ''timeout'' | ResCancelled \<Rightarrow> ''cancelled'')"

definition readQuestion :: "jval \<Rightarrow> string" where
  "readQuestion params = (case own_prop params ''message'' of JStr s \<Rightarrow> trim s | _ \<Rightarrow> [])"

text \<open>\<open>ctx.sessionKey?.trim() || ctx.sessionId?.trim() || "default"\<close>.\<close>

definition resolveSessionId :: "tool_ctx \<Rightarrow> string" where
  "resolveSessionId c =
     (case trim_opt (tc_sessionKey c) of
        Some s \<Rightarrow> s | None \<Rightarrow> (case trim_opt (tc_sessionId c) of Some s \<Rightarrow> s | None \<Rightarrow> ''default''))"

definition resolveSessionKey :: "tool_ctx \<Rightarrow> string" where
  "resolveSessionKey c = resolveCoordinatorSessionKey (resolveSessionId c) (tc_agentId c)"

definition blocked_reply :: "string \<Rightarrow> plugin_state hook_reply" where
  "blocked_reply reason = \<lparr>hp_params = None, hp_block = Some True, hp_reason = Some reason, hp_approval = None\<rparr>"

definition CONSENT_TITLE :: string where
  "CONSENT_TITLE = (utf8 [0xE8, 0xAE, 0xBF, 0xE9, 0x97, 0xAE, 0xE4, 0xB8, 0xAA, 0xE4, 0xBA, 0xBA, 0xE5,
        0x81, 0xA5, 0xE5, 0xBA, 0xB7, 0xE6, 0x95, 0xB0, 0xE6, 0x8D,
        0xAE] @ '' / Access personal health data'')"
definition WRITE_CONSENT_TITLE :: string where
  "WRITE_CONSENT_TITLE = (utf8 [0xE5, 0x86, 0x99, 0xE5, 0x85, 0xA5, 0xE4, 0xB8, 0xAA, 0xE4, 0xBA, 0xBA,
        0xE5, 0x81, 0xA5, 0xE5, 0xBA, 0xB7, 0xE6, 0x95, 0xB0, 0xE6, 0x8D,
        0xAE] @ '' / Write personal health data'')"

definition approval_reply ::
  "string \<Rightarrow> string \<Rightarrow> string list \<Rightarrow> (resolution \<Rightarrow> plugin_state \<Rightarrow> plugin_state) \<Rightarrow> plugin_state hook_reply" where
  "approval_reply title description decisions resolve =
     \<lparr>hp_params = None, hp_block = None, hp_reason = None,
      hp_approval = Some \<lparr>aq_title = title, aq_description = description, aq_decisions = Some decisions,
        aq_timeout_ms = Some (Fin 300000), aq_timeout_allows = Some False, aq_plugin = Some ''trustclaw-tra'',
        aq_resolve = Some resolve\<rparr>\<rparr>"

text \<open>
  \<open>onResolution\<close>: the decision is recorded, granted when it is one of the given, and only a read that
  offers it stores an \<open>allow-always\<close>.
\<close>

definition record_decision ::
  "plugin_env \<Rightarrow> string \<Rightarrow> string \<Rightarrow> string \<Rightarrow> string list \<Rightarrow> resolution set \<Rightarrow> bool \<Rightarrow> resolution \<Rightarrow>
     plugin_state \<Rightarrow> plugin_state" where
  "record_decision pe key pack question flds granting stores r st =
     st\<lparr>ps_audit := recordTraConsentAudit (plugin_target pe) key pack question flds (resolution_text r)
          (r \<in> granting) (ps_audit st),
        ps_consent := (if stores \<and> r = ResAllowAlways
          then grantTraDataAccess (ps_consent st) (plugin_store_dir pe) key pack AllowAlways else ps_consent st)\<rparr>"

definition required_scope :: "string \<Rightarrow> string" where
  "required_scope tool = (if tool = TRUSTCLAW_TRA_WRITE_TOOL then ''tra.write'' else ''tra.chat'')"

definition write_description :: "agent_pack \<Rightarrow> string \<Rightarrow> string" where
  "write_description p question =
     truncateDescription
       ((utf8 [0xE5, 0xB0, 0x86, 0xE7, 0x94, 0xA8] @ '' Text2SQL '' @ utf8 [0xE7, 0x94, 0x9F, 0xE6,
        0x88, 0x90] @ '' INSERT '' @ utf8 [0xE5, 0xB9, 0xB6, 0xE5, 0x86, 0x99, 0xE5, 0x85, 0xA5, 0xE6,
        0x9C, 0xAC, 0xE5, 0x9C, 0xB0] @ '' TRA'' @ utf8 [0xEF, 0xBC,
        0x88]) @ ap_name_zh p @ (utf8 [0xEF, 0xBC, 0x89, 0xE3, 0x80, 0x82]) @
        (if question \<noteq> [] then (utf8 [0xE8, 0xAF, 0xB7, 0xE6, 0xB1, 0x82, 0xEF, 0xBC,
        0x9A]) @ question else [])) 256"

definition read_description :: "agent_pack \<Rightarrow> profile_summary \<Rightarrow> string \<Rightarrow> string" where
  "read_description p profile question =
     buildTraDataConsentDescription question (formatPrivateDataFieldLabels (pf_fields profile) LocZh) (ap_name_zh p)"

text \<open>What the hook answers once profile and pack are known.\<close>

definition consent_reply ::
  "plugin_env \<Rightarrow> string \<Rightarrow> string \<Rightarrow> string \<Rightarrow> profile_summary \<Rightarrow> agent_pack \<Rightarrow> plugin_state \<Rightarrow>
     plugin_state hook_reply option" where
  "consent_reply pe tool key question profile p st =
     (if \<not> pf_mounted profile then
        Some (blocked_reply
          ''Trust runtime is not mounted. Ask the user to initialize personal data in Panel A first.'')
      else if \<not> plugin_has_grant pe st (ap_id p) (required_scope tool) then
        Some (blocked_reply (''Domain agent '' @ dquoted (ap_id p) @ '' lacks user grant for '' @
          required_scope tool @ ''. Grant permissions in Panel C first.''))
      else if tool = TRUSTCLAW_TRA_WRITE_TOOL then
        (if \<not> opt_truthy (tl_write (ap_tools p)) then
           Some (blocked_reply (''Agent pack '' @ dquoted (ap_id p) @ '' does not allow TRA writes.''))
         else Some (approval_reply WRITE_CONSENT_TITLE (write_description p question)
                (if cn_write_allowAlways (ap_consent p) = Some True
                 then [''allow-once'', ''allow-always'', ''deny''] else [''allow-once'', ''deny''])
                (record_decision pe key (ap_id p) question (pf_fields profile) {ResAllowOnce, ResAllowAlways} False)))
      else if \<not> cn_read_allowAlways (ap_consent p) then
        Some (approval_reply CONSENT_TITLE (read_description p profile question) [''allow-once'', ''deny'']
                (record_decision pe key (ap_id p) question (pf_fields profile) {ResAllowOnce} False))
      else if hasTraDataAccessGrant (ps_consent st) (plugin_store_dir pe) key (ap_id p) then None
      else Some (approval_reply CONSENT_TITLE (read_description p profile question)
                [''allow-once'', ''allow-always'', ''deny'']
                (record_decision pe key (ap_id p) question (pf_fields profile) {ResAllowOnce, ResAllowAlways} True)))"

definition createTrustclawTraDataConsentHook ::
  "plugin_env \<Rightarrow> string \<Rightarrow> jval \<Rightarrow> tool_ctx \<Rightarrow> (cause, plugin_state) tool_hook" where
  "createTrustclawTraDataConsentHook pe tool params c st =
     (if tool \<notin> {TRUSTCLAW_TRA_QUERY_TOOL, TRUSTCLAW_TRA_WRITE_TOOL} then (Inr None, st)
      else (case on_plugin_db pe (buildTraHealthProfileSummary (pe_seeds pe) (pe_clock pe)) st of
              (Inl e, st1) \<Rightarrow> (Inl (DbCause e), st1)
            | (Inr profile, st1) \<Rightarrow>
                (case resolveBoundAgentPack pe (resolveSessionKey c) (tc_agentId c) None st1 of
                   (Inl e, st2) \<Rightarrow> (Inl (PackCause e), st2)
                 | (Inr res, st2) \<Rightarrow>
                     (Inr (consent_reply pe tool (resolveSessionKey c) (readQuestion params) profile
                        (rv_doc (res_pack res)) st2), st2))))"

subsection \<open>What an allowed tool call went through\<close>

text \<open>A reply that asks the user and records what the user says.\<close>

definition asks_user ::
  "plugin_env \<Rightarrow> string \<Rightarrow> string \<Rightarrow> string \<Rightarrow> string list \<Rightarrow> resolution set \<Rightarrow> plugin_state hook_reply \<Rightarrow> bool" where
  "asks_user pe key pack q flds granting rp \<longleftrightarrow>
     (\<exists>title desc ds stores. rp = approval_reply title desc ds (record_decision pe key pack q flds granting stores))"

text \<open>The answers that count as a grant: both, except that a pack which keeps no consent takes \<open>allow-once\<close> only.\<close>

definition granting_answers :: "string \<Rightarrow> agent_pack \<Rightarrow> resolution set" where
  "granting_answers tool p =
     (if tool = TRUSTCLAW_TRA_WRITE_TOOL \<or> cn_read_allowAlways (ap_consent p)
      then {ResAllowOnce, ResAllowAlways} else {ResAllowOnce})"

lemma consent_reply_cases:
  assumes "unblocked (consent_reply pe tool key q profile p st)"
  shows "pf_mounted profile \<and> plugin_has_grant pe st (ap_id p) (required_scope tool) \<and>
    (tool = TRUSTCLAW_TRA_WRITE_TOOL \<longrightarrow> opt_truthy (tl_write (ap_tools p))) \<and>
    (case consent_reply pe tool key q profile p st of
       None \<Rightarrow> tool \<noteq> TRUSTCLAW_TRA_WRITE_TOOL \<and> cn_read_allowAlways (ap_consent p) \<and>
         hasTraDataAccessGrant (ps_consent st) (plugin_store_dir pe) key (ap_id p)
     | Some rp \<Rightarrow> asks_user pe key (ap_id p) q (pf_fields profile) (granting_answers tool p) rp)"
  using assms
  by (auto simp: consent_reply_def unblocked_def blocked_reply_def granting_answers_def asks_user_def split: if_splits)

lemma consent_event:
  "\<exists>e. audit_entries (ps_audit (record_decision pe key pack q flds granting stores r st) (target_dir (plugin_target pe))) =
       audit_entries (ps_audit st (target_dir (plugin_target pe))) @ [e] \<and> ev_step e = DATA_CONSENT \<and>
       (ev_status e = SUCCESS \<longleftrightarrow> r \<in> granting)"
proof -
  have "\<exists>e. audit_entries (recordTraConsentAudit (plugin_target pe) key pack q flds (resolution_text r) (r \<in> granting)
         (ps_audit st) (target_dir (plugin_target pe))) =
       audit_entries (ps_audit st (target_dir (plugin_target pe))) @ [e] \<and> ev_step e = DATA_CONSENT \<and>
       (ev_status e = SUCCESS \<longleftrightarrow> r \<in> granting) \<and>
       (auditEventMatchesAgentPack e pack \<longleftrightarrow> trim pack \<noteq> [] \<and> trim pack = trim pack)"
    unfolding recordTraConsentAudit_def
    by (intro record_single_attributed) (simp_all add: obj_keys_def)
  then show ?thesis by (auto simp: record_decision_def)
qed

lemma resolution_of_allowing:
  "resolution_of d = ResAllowOnce \<longleftrightarrow> d = JStr ''allow-once''"
  "resolution_of d = ResAllowAlways \<longleftrightarrow> d = JStr ''allow-always''"
  by (auto simp: resolution_of_def)

lemma resolution_of_text [simp]:
  "resolution_of (JStr ''allow-once'') = ResAllowOnce" "resolution_of (JStr ''allow-always'') = ResAllowAlways"
  by (simp_all add: resolution_of_def)

lemma first_approval_append:
  "first_approval (xs @ ys) = (case first_approval xs of Some a \<Rightarrow> Some a | None \<Rightarrow> first_approval ys)"
  by (induction xs) (auto simp: first_approval_Cons first_approval_def split: option.split)

text \<open>A hook somewhere in the list, with the replies before it.\<close>

lemma replies_at:
  assumes "replies (hs @ (pid, h) # hs') st = Some (rs, st3)"
  shows "\<exists>rs0 st0 reply st1 rs1. replies hs st = Some (rs0, st0) \<and> h st0 = (Inr reply, st1) \<and>
     replies hs' st1 = Some (rs1, st3) \<and>
     rs = rs0 @ (case reply of None \<Rightarrow> [] | Some r \<Rightarrow> [(pid, r)]) @ rs1"
  using assms
proof (induction hs arbitrary: st rs)
  case Nil
  then show ?case by (auto split: prod.splits sum.splits option.splits)
next
  case (Cons x hs)
  obtain p k where x: "x = (p, k)" by force
  obtain res st' where k: "k st = (res, st')" by force
  then obtain reply where res: "res = Inr reply" using Cons.prems x by (cases res) simp_all
  show ?case
  proof (cases reply)
    case None
    then show ?thesis using Cons.IH [of st' rs] Cons.prems x k res by simp
  next
    case (Some r)
    then obtain rs' where rs': "replies (hs @ (pid, h) # hs') st' = Some (rs', st3)" "rs = (p, r) # rs'"
      using Cons.prems x k res by auto
    show ?thesis using Cons.IH [OF rs'(1)] x k res Some rs'(2) by force
  qed
qed

text \<open>An allowed call whose first approval is the consent hook's.\<close>

lemma consent_asked:
  assumes run: "runBeforeToolCallHook ModeRequest g hooks p0 st = (Decided (HoAllowed res p), st2)"
    and rs: "replies hooks st = Some (rs0 @ [(pid, rp)] @ rs1, st3)" "first_approval rs0 = None"
    and asks: "asks_user pe key pack q flds granting rp"
  shows "\<exists>d e. gateway_decision g = Some (JStr d) \<and> d \<in> {''allow-once'', ''allow-always''} \<and>
     audit_entries (ps_audit st2 (target_dir (plugin_target pe))) =
       audit_entries (ps_audit st3 (target_dir (plugin_target pe))) @ [e] \<and>
     ev_step e = DATA_CONSENT \<and> (ev_status e = SUCCESS \<longleftrightarrow> resolution_of (JStr d) \<in> granting)"
proof -
  obtain title desc ds stores where rp: "rp = approval_reply title desc ds (record_decision pe key pack q flds granting stores)"
    using asks by (auto simp: asks_user_def)
  obtain d where d: "gateway_decision g = Some d" "resolution_of d \<in> {ResAllowOnce, ResAllowAlways}"
      "st2 = record_decision pe key pack q flds granting stores (resolution_of d) st3"
    using gate_first_approval [OF run rs(1)] rs(2)
    by (auto simp: first_approval_append first_approval_Cons rp approval_reply_def notify_def)
  from d(2) obtain t where "d = JStr t" "t \<in> {''allow-once'', ''allow-always''}"
    by (auto simp: resolution_of_allowing)
  with d(1,3) consent_event [of pe key pack q flds granting stores "resolution_of d" st3] show ?thesis by auto
qed


subsection \<open>A run\<close>

definition demo_plugin :: plugin_env where
  "demo_plugin = \<lparr>pe_host = at_host demo_target, pe_cfg = None, pe_seeds = demo_seeds, pe_clock = demo_clock,
     pe_now = Fin 1000, pe_rand = ''01'', pe_tick = \<lparr>tk_id = ''1'', tk_now_ms = 1000\<rparr>,
     pe_registry = Inr demo_registry, pe_json = (\<lambda>_. None)\<rparr>"

definition demo_plugin_state :: plugin_state where
  "demo_plugin_state = \<lparr>ps_dbs = (\<lambda>_. mounted_db), ps_audit = (\<lambda>_. None), ps_ledger = (\<lambda>_. None),
     ps_sessions = fresh_sessions,
     ps_grants = \<lparr>gs_empty = [(''p-1'', \<lparr>ge_granted_at = Fin 0, ge_scopes = [''tra.chat'']\<rparr>)], gs_files = (\<lambda>_. None)\<rparr>,
     ps_consent = (\<lambda>_. None)\<rparr>"

definition demo_ctx :: tool_ctx where
  "demo_ctx = \<lparr>tc_sessionKey = Some ''agent:x:s'', tc_sessionId = None, tc_agentId = None, tc_sandboxed = False\<rparr>"

lemma demo_profile:
  "\<exists>p st1. on_plugin_db demo_plugin (buildTraHealthProfileSummary (pe_seeds demo_plugin) (pe_clock demo_plugin))
     demo_plugin_state = (Inr p, st1) \<and> pf_mounted p \<and> st1 = demo_plugin_state\<lparr>ps_dbs := ps_dbs st1\<rparr>"
proof -
  obtain d1 where d1: "bootstrapTraDatabase demo_seeds demo_clock mounted_db =
      (Inr (), (seedNrdlGlp1RulesIfEmpty mounted_db)\<lparr>db_domain := d1\<rparr>)" "\<not> has_legacy d1"
    using demo_boot_any [OF mounted_domain] by blast
  let ?db = "(seedNrdlGlp1RulesIfEmpty mounted_db)\<lparr>db_domain := d1\<rparr>"
  obtain s where s: "snapshot_of ?db = Some s" using mounted_snapshot by blast
  obtain d2 where d2: "bootstrapTraDatabase demo_seeds demo_clock ?db = (Inr (), ?db\<lparr>db_domain := d2\<rparr>)"
    using demo_boot_any [of ?db] d1(2) by (auto simp: seed_again)
  have users: "db_users ?db = [request_user demo_clock demo_request]"
    by (simp add: mounted_db_def users_request empty_db_def seedNrdlGlp1RulesIfEmpty_def)
  then obtain p where p: "readProfileFromDb demo_clock ?db = Some p" "pf_mounted p"
    by (auto simp: readProfileFromDb_def resolvePrimaryUserId_def find_user_def Let_def request_user_def
        TRA_LOCAL_USER_ID_def)
  have "\<exists>q db. buildTraHealthProfileSummary demo_seeds demo_clock mounted_db = (Inr q, db) \<and> pf_mounted q"
    using d1 d2 p by (simp add: buildTraHealthProfileSummary_def bind_op_def readGlp1CheckSnapshot_def return_op_def)
  then show ?thesis
    by (auto simp: on_plugin_db_def on_file_def demo_plugin_def demo_plugin_state_def)
qed

lemma demo_first_pack:
  "\<exists>r ss. resolveCoordinatorAgentPack demo_registry dir \<lparr>cp_sessionKey = ''agent:x:s'', cp_openclawAgentId = None,
     cp_requestedPackId = None, cp_bindLock = bindLock\<rparr> fresh_sessions = (Inr r, ss) \<and> res_pack r = demo_resolved"
  by (simp add: resolveCoordinatorAgentPack_def Let_def demo_key session_defs trim_demo_key fresh_read obj_get_def
      resolveOpenClawSuggestedPack_def getDefault_def demo_registry_def demo_resolved_def demo_pack_def)

lemma demo_bound_pack:
  assumes "ps_sessions st = fresh_sessions"
  shows "\<exists>r ss. resolveBoundAgentPack demo_plugin ''agent:x:s'' None None st = (Inr r, st\<lparr>ps_sessions := ss\<rparr>) \<and>
     res_pack r = demo_resolved"
proof -
  have "pe_registry demo_plugin = Inr demo_registry" by (simp add: demo_plugin_def)
  then show ?thesis
    using demo_first_pack [of "plugin_store_dir demo_plugin" True] assms
    by (auto simp: resolveBoundAgentPack_def resolve_pack_with_def)
qed

lemma demo_granted:
  assumes "ps_grants st = ps_grants demo_plugin_state"
  shows "plugin_has_grant demo_plugin st ''p-1'' ''tra.chat''"
  using assms
  by (simp add: plugin_has_grant_def hasAgentDomainGrant_def getAgentDomainGrant_def listAgentDomainGrants_def readGrantFile_def demo_plugin_state_def
      trim_plain obj_get_def trim_opt_def Let_def)

lemma demo_consent_call:
  "\<exists>p st2. runBeforeToolCallHook ModeRequest demo_gateway
     [(''trustclaw-tra'', createTrustclawTraDataConsentHook demo_plugin TRUSTCLAW_TRA_QUERY_TOOL (JObj []) demo_ctx)]
     (JObj []) demo_plugin_state = (Decided (HoAllowed (Some ResAllowOnce) p), st2)"
proof -
  obtain pf st1 where st1: "on_plugin_db demo_plugin (buildTraHealthProfileSummary (pe_seeds demo_plugin)
        (pe_clock demo_plugin)) demo_plugin_state = (Inr pf, st1)" "pf_mounted pf"
      "st1 = demo_plugin_state\<lparr>ps_dbs := ps_dbs st1\<rparr>"
    using demo_profile by blast
  have sel: "ps_sessions st1 = fresh_sessions" "ps_grants st1 = ps_grants demo_plugin_state" "ps_consent st1 = (\<lambda>_. None)"
    by (subst st1(3), simp add: demo_plugin_state_def)+
  obtain r ss where r: "resolveBoundAgentPack demo_plugin ''agent:x:s'' None None st1 = (Inr r, st1\<lparr>ps_sessions := ss\<rparr>)"
      "res_pack r = demo_resolved"
    using demo_bound_pack [OF sel(1)] by blast
  have key: "resolveSessionKey demo_ctx = ''agent:x:s''" "tc_agentId demo_ctx = None"
    by (simp_all add: resolveSessionKey_def resolveSessionId_def demo_ctx_def trim_opt_def trim_demo_key demo_key)
  have gr: "plugin_has_grant demo_plugin (st1\<lparr>ps_sessions := ss\<rparr>) ''p-1'' ''tra.chat''"
    using sel(2) by (intro demo_granted) simp
  have pk: "ap_id (rv_doc demo_resolved) = ''p-1''" "cn_read_allowAlways (ap_consent (rv_doc demo_resolved))"
    by (simp_all add: demo_resolved_def demo_pack_def)
  have none: "\<not> hasTraDataAccessGrant (ps_consent (st1\<lparr>ps_sessions := ss\<rparr>)) d k i" for d k i
    using sel(3) by (simp add: hasTraDataAccessGrant_def readConsentFile_def resolvePackEntry_def Let_def
        obj_get_def emptyPackEntry_def)
  obtain rp where rp: "consent_reply demo_plugin TRUSTCLAW_TRA_QUERY_TOOL ''agent:x:s'' (readQuestion (JObj [])) pf
        (rv_doc demo_resolved) (st1\<lparr>ps_sessions := ss\<rparr>) = Some rp" "hp_block rp = None" "hp_params rp = None"
      "hp_approval rp \<noteq> None"
    using st1(2) gr pk none
    by (simp add: consent_reply_def required_scope_def TRUSTCLAW_TRA_QUERY_TOOL_def TRUSTCLAW_TRA_WRITE_TOOL_def
        approval_reply_def)
  have "createTrustclawTraDataConsentHook demo_plugin TRUSTCLAW_TRA_QUERY_TOOL (JObj []) demo_ctx demo_plugin_state =
      (Inr (Some rp), st1\<lparr>ps_sessions := ss\<rparr>)"
    using st1(1) r rp by (simp add: createTrustclawTraDataConsentHook_def key)
  then show ?thesis
    using rp(2-4)
    by (auto simp: runBeforeToolCallHook_def runBeforeToolCall_def demo_gateway_def Let_def
        merge_replies_def no_reply_def lastDefined_def stickyTrue_def resolveBeforeToolCallApprovalOutcome_def
        requestPluginToolApproval_def decided_def resolution_of_def)
qed


end
