(* ===== verification/Panel_Routes.thy ===== *)
theory Panel_Routes
  imports Table_Lineage Hooks
begin

text \<open>
  The panel handlers (\<open>extensions/trustclaw-tra/src/tra-routes.ts\<close>, \<open>ledger-routes.ts\<close>,
  \<open>audit-routes.ts\<close>): initialisation, reset, status, profile, tables, browsing, the ledger and the
  audit trail.
\<close>

subsection \<open>What the handlers take from their surroundings\<close>

text \<open>
  \<open>ae_query\<close> and \<open>ae_run\<close> are SQLite, \<open>ae_llm\<close> the model, \<open>ae_web\<close> the network, \<open>ae_bundled\<close> the
  seed files by path, parsed (\<open>None\<close> where reading or parsing throws); the rest are files, clocks and
  prompts as in the components.
\<close>

record api_env =
  ae_plugin :: plugin_env
  ae_sha :: "string \<Rightarrow> string"
  ae_parse_ast :: "string \<Rightarrow> ast_node option"
  ae_query :: sql_query
  ae_run :: sql_run
  ae_llm :: "string \<Rightarrow> string option"
  ae_web :: web
  ae_device_prompt :: "jval \<Rightarrow> string"
  ae_write_prompt :: "string \<Rightarrow> write_prompt"
  ae_files :: pack_fs
  ae_module_dir :: string
  ae_default_template :: string
  ae_write_template :: string
  ae_default_schema :: string
  ae_schema :: "string list \<Rightarrow> string"
  ae_chat_tick :: "step_code \<Rightarrow> tick"
  ae_commit_ms :: int
  ae_duration :: int
  ae_now_ms :: int
  ae_lineage :: lineage_env
  ae_bundled :: "string \<Rightarrow> jval option"

text \<open>What an import or a write takes from this; its audit events go to the plugin's directory.\<close>

definition import_env_of :: "api_env \<Rightarrow> import_env" where
  "import_env_of ae =
     (let pe = ae_plugin ae in
      \<lparr>ie_sha = ae_sha ae, ie_seeds = pe_seeds pe, ie_clock = pe_clock pe,
       ie_audit = (plugin_target pe)\<lparr>at_overrides := Some (plugin_overrides pe)\<rparr>\<rparr>)"

text \<open>A handler answers and changes the stores.\<close>

type_synonym 'a handler = "api_env \<Rightarrow> http_request \<Rightarrow> plugin_state \<Rightarrow> 'a answer \<times> plugin_state"

definition for_method :: "string \<Rightarrow> 'a handler \<Rightarrow> 'a handler" where
  "for_method m h ae q st = (if \<not> methodIs q m then (not_allowed, st) else h ae q st)"

definition with_body :: "(jval \<Rightarrow> 'a handler) \<Rightarrow> 'a handler" where
  "with_body h ae q st =
     (case readJsonBody (pe_json (ae_plugin ae)) DEFAULT_BODY_LIMIT q of
        Inl message \<Rightarrow> (Refuse 400 (Msg message), st) | Inr v \<Rightarrow> h v ae q st)"

definition with_grant :: "string \<Rightarrow> (resolved_pack \<Rightarrow> 'a handler) \<Rightarrow> 'a handler" where
  "with_grant scope h ae q st =
     (case requireAgentDomainGrant (ae_plugin ae) q scope st of
        Inl (status, c) \<Rightarrow> (Refuse status c, st) | Inr r \<Rightarrow> h r ae q st)"

definition refuse :: "int \<Rightarrow> string \<Rightarrow> 'a handler" where
  "refuse status message ae q st = (Refuse status (Msg message), st)"

text \<open>An operation on the plugin's database; \<open>h\<close> says what to do where it throws.\<close>

definition db_handler ::
  "(tra_db, 'b) db_op \<Rightarrow> (db_error \<Rightarrow> 'a answer) \<Rightarrow> ('b \<Rightarrow> 'a answer) \<Rightarrow> api_env \<Rightarrow> plugin_state \<Rightarrow>
     'a answer \<times> plugin_state" where
  "db_handler f threw h ae st =
     (case on_plugin_db (ae_plugin ae) f st of (Inl e, st') \<Rightarrow> (threw e, st') | (Inr x, st') \<Rightarrow> (h x, st'))"

definition rejected :: "db_error \<Rightarrow> 'a answer" where
  "rejected e = Threw (DbCause e)"

subsection \<open>Initialisation\<close>

definition p_finite :: "(rat \<Rightarrow> bool) \<Rightarrow> jval \<Rightarrow> num64 option" where
  "p_finite ok v = (case v of JNum (Fin q) \<Rightarrow> if ok q then Some (Fin q) else None | _ \<Rightarrow> None)"

definition p_int_range :: "int \<Rightarrow> int \<Rightarrow> jval \<Rightarrow> num64 option" where
  "p_int_range a b = p_finite (\<lambda>q. q = of_int \<lfloor>q\<rfloor> \<and> of_int a \<le> q \<and> q \<le> of_int b)"

definition p_gender :: "jval \<Rightarrow> gender option" where
  "p_gender v = (case v of JStr s \<Rightarrow> if s = (utf8 [0xE7, 0x94,
        0xB7]) then Some Male else if s = (utf8 [0xE5, 0xA5,
        0xB3]) then Some Female else None | _ \<Rightarrow> None)"

definition INIT_KEYS :: "string list" where
  "INIT_KEYS = [''patientName'', ''gender'', ''age'', ''weight'', ''height'', ''bmi'', ''hba1c'',
     ''isPregnantOrLactating'', ''hasType2Diabetes'', ''thyroidHistory'', ''pancreatitisHistory'',
     ''cardiovascularRisk'', ''gastrointestinalSensitivity'', ''hasArteriosclerosis'',
     ''hasCoronaryHeartDisease'', ''hasMyocardialInfarction'', ''hasStroke'', ''usedMetforminBadControl'',
     ''usedSulfonylureaBadControl'', ''usedInsulinBadControl'', ''isFirstPrescription'',
     ''institutionLevel'', ''isSpecialistPhysician'']"

definition initRequestSchema :: "jval \<Rightarrow> init_request option" where
  "initRequestSchema v =
     (if \<not> strict_keys INIT_KEYS v then None
      else do {
        n \<leftarrow> p_opt p_trim (own_prop v ''patientName'');
        g \<leftarrow> p_gender (own_prop v ''gender'');
        a \<leftarrow> p_int_range 1 120 (own_prop v ''age'');
        w \<leftarrow> p_finite (\<lambda>q. 0 < q) (own_prop v ''weight'');
        h \<leftarrow> p_finite (\<lambda>q. 0 < q) (own_prop v ''height'');
        _ \<leftarrow> p_opt (p_finite (\<lambda>q. 0 < q)) (own_prop v ''bmi'');
        hb \<leftarrow> p_finite (\<lambda>q. 0 \<le> q) (own_prop v ''hba1c'');
        b1 \<leftarrow> p_bool (own_prop v ''isPregnantOrLactating'');
        b2 \<leftarrow> p_bool (own_prop v ''hasType2Diabetes'');
        b3 \<leftarrow> p_bool (own_prop v ''thyroidHistory'');
        b4 \<leftarrow> p_bool (own_prop v ''pancreatitisHistory'');
        b5 \<leftarrow> p_bool (own_prop v ''cardiovascularRisk'');
        b6 \<leftarrow> p_bool (own_prop v ''gastrointestinalSensitivity'');
        b7 \<leftarrow> p_bool (own_prop v ''hasArteriosclerosis'');
        b8 \<leftarrow> p_bool (own_prop v ''hasCoronaryHeartDisease'');
        b9 \<leftarrow> p_bool (own_prop v ''hasMyocardialInfarction'');
        b10 \<leftarrow> p_bool (own_prop v ''hasStroke'');
        b11 \<leftarrow> p_bool (own_prop v ''usedMetforminBadControl'');
        b12 \<leftarrow> p_bool (own_prop v ''usedSulfonylureaBadControl'');
        b13 \<leftarrow> p_bool (own_prop v ''usedInsulinBadControl'');
        f \<leftarrow> p_opt p_bool (own_prop v ''isFirstPrescription'');
        l \<leftarrow> p_opt (p_int_range 1 3) (own_prop v ''institutionLevel'');
        s \<leftarrow> p_opt p_bool (own_prop v ''isSpecialistPhysician'');
        Some \<lparr>ir_patientName = n, ir_gender = g, ir_age = a, ir_weight = w, ir_height = h, ir_hba1c = hb,
          ir_isPregnantOrLactating = b1, ir_hasType2Diabetes = b2, ir_thyroidHistory = b3,
          ir_pancreatitisHistory = b4, ir_cardiovascularRisk = b5, ir_gastrointestinalSensitivity = b6,
          ir_hasArteriosclerosis = b7, ir_hasCoronaryHeartDisease = b8, ir_hasMyocardialInfarction = b9,
          ir_hasStroke = b10, ir_usedMetforminBadControl = b11, ir_usedSulfonylureaBadControl = b12,
          ir_usedInsulinBadControl = b13, ir_isFirstPrescription = f, ir_institutionLevel = l,
          ir_isSpecialistPhysician = s\<rparr>
      })"

text \<open>The handlers pass only the database path on.\<close>

definition db_override :: "plugin_env \<Rightarrow> path_overrides" where
  "db_override pe = \<lparr>po_dbPath = Some (tp_dbPath (plugin_paths pe)), po_auditDir = None, po_evidenceDir = None\<rparr>"

definition profile_op :: "plugin_env \<Rightarrow> (tra_db, profile_summary) db_op" where
  "profile_op pe = buildTraHealthProfileSummary (pe_seeds pe) (pe_clock pe)"

definition createTraInitHandler :: "(tra_result \<times> profile_summary option) handler" where
  "createTraInitHandler =
     for_method ''POST'' (with_body (\<lambda>body. case initRequestSchema body of
        None \<Rightarrow> refuse 400 ''Invalid TRA init payload.''
      | Some r \<Rightarrow> (\<lambda>ae q st.
          let pe = ae_plugin ae in
          (case initializeTra (pe_seeds pe) (pe_clock pe) (pe_host pe) r (db_override pe) (ps_dbs st) of
             (result, dbs) \<Rightarrow>
               (let st' = st\<lparr>ps_dbs := dbs\<rparr> in
                if tr_error result \<noteq> None then (Reply 500 (result, None), st')
                else db_handler (profile_op pe) rejected (\<lambda>p. Reply 200 (result, Some p)) ae st')))))"

subsection \<open>Reset\<close>

definition createTraResetHandler :: "(tra_result \<times> string option) handler" where
  "createTraResetHandler =
     for_method ''POST'' (\<lambda>ae q st.
       let pe = ae_plugin ae; paths = plugin_paths pe in
       (case resetTra (pe_seeds pe) (pe_clock pe) (pe_host pe) (db_override pe) (ps_dbs st) of
          (result, dbs) \<Rightarrow>
            if tr_error result \<noteq> None then (Reply 500 (result, None), st\<lparr>ps_dbs := dbs\<rparr>)
            else (let cleared = (ps_audit st)(tp_auditDir paths := clearAuditEvents (ps_audit st (tp_auditDir paths)))
                  in (case recordTraResetAudit (pe_rand pe) (pe_tick pe) (tp_auditDir paths) cleared of
                        (trail, fs) \<Rightarrow>
                          (Reply 200 (result, Some trail),
                           st\<lparr>ps_dbs := dbs,
                             ps_consent := clearTraDataAccessGrants (ps_consent st) (plugin_store_dir pe),
                             ps_grants := clearAgentDomainGrants (ps_grants st) (plugin_store_dir pe),
                             ps_audit := fs,
                             ps_ledger := (ps_ledger st)(tp_evidenceDir paths :=
                               clearEvidenceLedger (ps_ledger st (tp_evidenceDir paths)))\<rparr>)))))"

subsection \<open>Status and profile\<close>

definition createTraStatusHandler :: "(string \<times> jval obj option) handler" where
  "createTraStatusHandler =
     for_method ''GET'' (\<lambda>ae q st.
       let pe = ae_plugin ae in
       db_handler (readGlp1CheckSnapshot (pe_seeds pe) (pe_clock pe)) rejected
         (\<lambda>s. Reply 200 (tp_dbPath (plugin_paths pe), s)) ae st)"

definition createTraProfileSummaryHandler :: "profile_summary handler" where
  "createTraProfileSummaryHandler =
     for_method ''GET'' (\<lambda>ae q st. db_handler (profile_op (ae_plugin ae)) rejected (Reply 200) ae st)"

subsection \<open>Tables\<close>

record tables_body =
  tb_pack :: string
  tb_default :: "string list"
  tb_tables :: "string list"
  tb_catalog :: "catalog_summary list"
  tb_personal :: "string list"
  tb_subscribed :: "string list"

definition tables_of :: "agent_pack \<Rightarrow> string list \<Rightarrow> tables_body" where
  "tables_of p allTables =
     (let filtered = filter (\<lambda>t. t \<in> set (resolveAgentBrowseTables p)) allTables;
          catalog = map summarizeTableCatalog filtered
      in \<lparr>tb_pack = ap_id p, tb_default = filter (\<lambda>t. t \<in> set TRA_BROWSER_DEFAULT_TABLES) filtered,
          tb_tables = filtered, tb_catalog = catalog,
          tb_personal = map sm_table (filter (\<lambda>r. sm_kind r \<in> {KPersonal, KView}) catalog),
          tb_subscribed = map sm_table (filter (\<lambda>r. sm_kind r = KSubscribed) catalog)\<rparr>)"

definition createTraTablesHandler :: "tables_body handler" where
  "createTraTablesHandler =
     for_method ''GET'' (with_grant ''panel.browse'' (\<lambda>r ae q st.
       let pe = ae_plugin ae in
       db_handler (listTraTables (pe_seeds pe) (pe_clock pe)) rejected (\<lambda>ts. Reply 200 (tables_of (rv_doc r) ts)) ae st))"

definition createTraBrowseSubscriptionsHandler :: "(string \<times> browse_snapshot) handler" where
  "createTraBrowseSubscriptionsHandler =
     for_method ''GET'' (with_grant ''panel.browse'' (\<lambda>r ae q st.
       let s = getBrowseSubscriptionSnapshot (ps_dbs st (plugin_db_path (ae_plugin ae)))
       in (Reply 200 (ap_id (rv_doc r), s\<lparr>bs_quick :=
              filter (\<lambda>t. sm_table t \<in> set (resolveAgentBrowseTables (rv_doc r))) (bs_quick s)\<rparr>), st)))"

text \<open>\<open>Math.min(Math.max(Number.parseInt(limitRaw, 10) || 100, 1), 500)\<close>; a value that is not a number is falsy.\<close>

definition browse_limit :: "http_request \<Rightarrow> int" where
  "browse_limit q =
     (let raw = (case query_get q ''limit'' of Some s \<Rightarrow> s | None \<Rightarrow> ''100'');
          n = (case parse_int raw of Some k \<Rightarrow> if k = 0 then 100 else k | None \<Rightarrow> 100)
      in min (max n 1) 500)"

record browse_body =
  bb_pack :: string
  bb_table :: string
  bb_lineage :: table_lineage
  bb_result :: query_result

definition browse_sql :: "string \<Rightarrow> int \<Rightarrow> string" where
  "browse_sql table limit = ''SELECT * FROM '' @ table @ '' LIMIT '' @ show_int limit"

definition createTraBrowseHandler :: "browse_body handler" where
  "createTraBrowseHandler =
     for_method ''GET'' (with_grant ''panel.browse'' (\<lambda>r ae q st.
       let pe = ae_plugin ae; table = (case query_get q ''table'' of Some t \<Rightarrow> trim t | None \<Rightarrow> []); p = rv_doc r in
       if table = [] then refuse 400 ''Missing table query parameter.'' ae q st
       else if table \<notin> set (resolveAgentBrowseTables p) \<or> \<not> plain_name table
       then refuse 403 (''Table '' @ dquoted table @ '' is not in agent pack '' @ dquoted (ap_id p) @ '' readTables.'') ae q st
       else db_handler
              (bind_op (queryTra (ae_query ae) (pe_seeds pe) (pe_clock pe) (browse_sql table (browse_limit q)))
                 (\<lambda>result db. (Inr (result, buildTableLineage (ae_lineage ae) table db), db)))
              (\<lambda>e. Refuse 500 (DbCause e))
              (\<lambda>(result, lineage). Reply 200 \<lparr>bb_pack = ap_id p, bb_table = table, bb_lineage = lineage, bb_result = result\<rparr>)
              ae st))"

subsection \<open>Ledger and audit trail\<close>

record ledger_body =
  lb_pack :: string
  lb_dir :: string
  lb_receipts :: "receipt list"
  lb_verify :: chain_result

definition createTraLedgerHandler :: "ledger_body handler" where
  "createTraLedgerHandler =
     for_method ''GET'' (with_grant ''panel.ledger'' (\<lambda>r ae q st.
       let dir = tp_evidenceDir (plugin_paths (ae_plugin ae));
           rs = filter (\<lambda>x. rc_agent_pack_id x = ap_id (rv_doc r)) (readEvidenceReceipts (ps_ledger st dir))
       in (Reply 200 \<lparr>lb_pack = ap_id (rv_doc r), lb_dir = dir, lb_receipts = rs,
             lb_verify = verifyEvidenceChain (ae_sha ae) rs\<rparr>, st)))"

definition resolveSteps :: "string \<Rightarrow> step_code list option" where
  "resolveSteps scope =
     (if scope = ''compliance'' then Some COMPLIANCE_AUDIT_STEPS
      else if scope = ''chat'' then Some CHAT_PIPELINE_AUDIT_STEPS else None)"

text \<open>The limit as read: \<open>None\<close> for one that is refused.\<close>

definition audit_limit :: "http_request \<Rightarrow> int option" where
  "audit_limit q =
     (case trim_opt (query_get q ''limit'') of
        None \<Rightarrow> Some 30
      | Some raw \<Rightarrow> (case parse_int raw of
                       None \<Rightarrow> None | Some n \<Rightarrow> if n < 1 \<or> 500 < n then None else Some n))"

record audit_body =
  ab_scope :: string
  ab_pack :: string
  ab_dir :: string
  ab_events :: "audit_event list"

definition createTraAuditEventsHandler :: "audit_body handler" where
  "createTraAuditEventsHandler =
     for_method ''GET'' (\<lambda>ae q st.
       let scope = (case trim_opt (query_get q ''scope'') of Some s \<Rightarrow> s | None \<Rightarrow> ''compliance'') in
       if scope \<notin> {''compliance'', ''chat'', ''all''}
       then refuse 400 ''Invalid scope. Use compliance, chat, or all.'' ae q st
       else (case audit_limit q of
               None \<Rightarrow> refuse 400 (''Invalid limit. Use 1'' @ utf8 [0xE2, 0x80,
        0x93] @ ''500.'') ae q st
             | Some limit \<Rightarrow>
                 with_grant ''panel.audit'' (\<lambda>r ae q st.
                   let dir = tp_auditDir (plugin_paths (ae_plugin ae));
                       pack = ap_id (rv_doc r)
                   in (Reply 200 \<lparr>ab_scope = scope, ab_pack = pack, ab_dir = dir,
                         ab_events = filter (\<lambda>e. auditEventMatchesAgentPack e pack)
                           (readAuditEvents (ps_audit st dir) (Some limit) (resolveSteps scope))\<rparr>, st)) ae q st))"

end
