(* ===== verification/Import_Routes.thy ===== *)
theory Import_Routes
  imports Panel_Routes
begin

text \<open>
  The import handlers of panel F (\<open>compliance-routes.ts\<close>, \<open>reference-routes.ts\<close>, \<open>device-routes.ts\<close>)
  and the registry handlers (\<open>domain-agent-routes.ts\<close>).  The schemas are zod's: an absent key of an
  optional or unknown field is accepted, any other key is refused.
\<close>

subsection \<open>Bodies\<close>

record import_body =
  im_consent :: bool
  im_session :: string
  im_label :: "string option"
  im_package :: jval
  im_url :: "string option"
  im_save_url :: bool

definition importRequestSchema :: "jval \<Rightarrow> import_body option" where
  "importRequestSchema v =
     (if \<not> strict_keys [''consentGranted'', ''sessionId'', ''sourceLabel'', ''package''] v then None
      else do {
        c \<leftarrow> p_bool (own_prop v ''consentGranted'');
        s \<leftarrow> p_trim (own_prop v ''sessionId'');
        l \<leftarrow> p_opt p_trim (own_prop v ''sourceLabel'');
        Some \<lparr>im_consent = c, im_session = s, im_label = l, im_package = own_prop v ''package'',
              im_url = None, im_save_url = False\<rparr>
      })"

definition previewRequestSchema :: "jval \<Rightarrow> jval option" where
  "previewRequestSchema v = (if \<not> strict_keys [''package''] v then None else Some (own_prop v ''package''))"

definition bundledRequestSchema :: "jval \<Rightarrow> (bool \<times> string) option" where
  "bundledRequestSchema v =
     (if \<not> strict_keys [''consentGranted'', ''sessionId''] v then None
      else do {
        c \<leftarrow> p_bool (own_prop v ''consentGranted'');
        s \<leftarrow> p_trim (own_prop v ''sessionId'');
        Some (c, s)
      })"

text \<open>\<open>refine\<close>: a package or a URL must be given.\<close>

definition referencePreviewSchema :: "jval \<Rightarrow> (jval \<times> string option) option" where
  "referencePreviewSchema v =
     (if \<not> strict_keys [''package'', ''url''] v then None
      else do {
        u \<leftarrow> p_opt p_trim (own_prop v ''url'');
        if own_prop v ''package'' = JUndef \<and> u = None then None else Some (own_prop v ''package'', u)
      })"

definition syncRequestSchema :: "jval \<Rightarrow> import_body option" where
  "syncRequestSchema v =
     (if \<not> strict_keys [''consentGranted'', ''sessionId'', ''sourceLabel'', ''package'', ''url'', ''saveSubscriptionUrl''] v
      then None
      else do {
        c \<leftarrow> p_bool (own_prop v ''consentGranted'');
        s \<leftarrow> p_trim (own_prop v ''sessionId'');
        l \<leftarrow> p_opt p_trim (own_prop v ''sourceLabel'');
        u \<leftarrow> p_opt p_trim (own_prop v ''url'');
        sv \<leftarrow> p_opt p_bool (own_prop v ''saveSubscriptionUrl'');
        if own_prop v ''package'' = JUndef \<and> u = None then None
        else Some \<lparr>im_consent = c, im_session = s, im_label = l, im_package = own_prop v ''package'',
                   im_url = u, im_save_url = (sv = Some True)\<rparr>
      })"

definition p_hint :: "jval \<Rightarrow> string option" where
  "p_hint v = (case p_trim v of Some s \<Rightarrow> if js_length s \<le> 120 then Some s else None | None \<Rightarrow> None)"

definition p_hash :: "jval \<Rightarrow> string option" where
  "p_hash v = (case v of JStr s \<Rightarrow> if 16 \<le> js_length (trim s) then Some (trim s) else None | _ \<Rightarrow> None)"

definition deviceImportPreviewRequestSchema :: "jval \<Rightarrow> device_source option" where
  "deviceImportPreviewRequestSchema v =
     (if \<not> strict_keys [''package'', ''url'', ''deviceHint''] v then None
      else do {
        u \<leftarrow> p_opt p_trim (own_prop v ''url'');
        _ \<leftarrow> p_opt p_hint (own_prop v ''deviceHint'');
        if own_prop v ''package'' = JUndef \<and> u = None then None
        else Some \<lparr>dv_package = own_prop v ''package'', dv_url = u\<rparr>
      })"

definition deviceImportExecuteRequestSchema :: "jval \<Rightarrow> device_request option" where
  "deviceImportExecuteRequestSchema v =
     (if \<not> strict_keys [''consentGranted'', ''sessionId'', ''agentPackId'', ''sourceLabel'', ''package'', ''url'',
           ''deviceHint'', ''sql_statements'', ''sql_hash''] v then None
      else do {
        c \<leftarrow> p_bool (own_prop v ''consentGranted'');
        s \<leftarrow> p_trim (own_prop v ''sessionId'');
        p \<leftarrow> p_opt p_trim (own_prop v ''agentPackId'');
        l \<leftarrow> p_opt p_trim (own_prop v ''sourceLabel'');
        u \<leftarrow> p_opt p_trim (own_prop v ''url'');
        _ \<leftarrow> p_opt p_hint (own_prop v ''deviceHint'');
        ss \<leftarrow> p_nonempty p_trim (own_prop v ''sql_statements'');
        h \<leftarrow> p_hash (own_prop v ''sql_hash'');
        if own_prop v ''package'' = JUndef \<and> u = None then None
        else Some \<lparr>dq_consent = c, dq_session = s, dq_pack = p, dq_label = l, dq_statements = ss, dq_hash = h\<rparr>
      })"

subsection \<open>Running an import\<close>

text \<open>An import works on the plugin's database and audit files; a failure is answered with 400.\<close>

definition run_import ::
  "(import_state \<Rightarrow> (import_error + 'a) \<times> import_state) \<Rightarrow> 'a handler" where
  "run_import f ae q st =
     (let p = plugin_db_path (ae_plugin ae) in
      case f (ps_dbs st p, ps_audit st) of
        (out, (db, fs)) \<Rightarrow>
          ((case out of Inr x \<Rightarrow> Reply 200 x | Inl e \<Rightarrow> Refuse 400 (ImportCause e)),
           st\<lparr>ps_dbs := (ps_dbs st)(p := db), ps_audit := fs\<rparr>))"

definition on_db_only :: "(tra_db \<Rightarrow> 'r \<times> tra_db) \<Rightarrow> import_state \<Rightarrow> 'r \<times> import_state" where
  "on_db_only f st = (case f (fst st) of (r, db) \<Rightarrow> (r, (db, snd st)))"

subsection \<open>Compliance standards\<close>

definition compliance_handler :: "string \<Rightarrow> (resolved_pack \<Rightarrow> 'a handler) \<Rightarrow> 'a handler" where
  "compliance_handler m h = for_method m (with_grant ''panel.compliance'' h)"

definition createCompliancePreviewHandler :: "compliance_preview handler" where
  "createCompliancePreviewHandler =
     compliance_handler ''POST'' (\<lambda>r. with_body (\<lambda>body. case previewRequestSchema body of
        None \<Rightarrow> refuse 400 ''Invalid preview payload.''
      | Some pkg \<Rightarrow> (\<lambda>ae q st.
          ((case previewComplianceStandardPackage (ae_sha ae) pkg of
              Inr x \<Rightarrow> Reply 200 x | Inl e \<Rightarrow> Refuse 400 (ImportCause e)), st))))"

definition createComplianceImportHandler :: "compliance_done handler" where
  "createComplianceImportHandler =
     compliance_handler ''POST'' (\<lambda>r. with_body (\<lambda>body. case importRequestSchema body of
        None \<Rightarrow> refuse 400 ''Invalid import payload.''
      | Some b \<Rightarrow> (\<lambda>ae. run_import (importComplianceStandardPackage (import_env_of ae)
          \<lparr>cq_consent = im_consent b, cq_session = im_session b, cq_pack = ap_id (rv_doc r),
           cq_label = im_label b, cq_package = im_package b\<rparr>) ae)))"

definition createComplianceStandardsHandler :: "standard_row list handler" where
  "createComplianceStandardsHandler =
     compliance_handler ''GET'' (\<lambda>r ae q st.
       let pe = ae_plugin ae in
       db_handler (bind_op (bootstrapTraDatabase (pe_seeds pe) (pe_clock pe))
           (\<lambda>_ db. (Inr (listComplianceStandards db), db))) rejected (Reply 200) ae st)"

definition createComplianceRulesHandler :: "(string \<times> string option \<times> ast_rule list) handler" where
  "createComplianceRulesHandler =
     compliance_handler ''GET'' (\<lambda>r ae q st.
       let pe = ae_plugin ae;
           standardId = (case query_get q ''standard_id'' of Some s \<Rightarrow> trim s | None \<Rightarrow> []);
           drugId = trim_opt (query_get q ''drug_id'')
       in if standardId = [] then refuse 400 ''Missing standard_id query parameter.'' ae q st
          else db_handler (bind_op (bootstrapTraDatabase (pe_seeds pe) (pe_clock pe))
                 (\<lambda>_ db. (Inr (standardId, drugId, loadComplianceAstRules db standardId drugId), db)))
                 rejected (Reply 200) ae st)"

definition createComplianceImportBundledHandler :: "string \<Rightarrow> compliance_done handler" where
  "createComplianceImportBundledHandler seedPath =
     compliance_handler ''POST'' (\<lambda>r. with_body (\<lambda>body. case bundledRequestSchema body of
        None \<Rightarrow> refuse 400 ''Invalid bundled import payload.''
      | Some (consent, session) \<Rightarrow> (\<lambda>ae q st.
          (case ae_bundled ae seedPath of
             None \<Rightarrow> (Refuse 500 RuntimeCause, st)
           | Some pkg \<Rightarrow> run_import (importComplianceStandardPackage (import_env_of ae)
               \<lparr>cq_consent = consent, cq_session = session, cq_pack = ap_id (rv_doc r),
                cq_label = Some ''glp1-nrdl-ast-handshake-v2.json'', cq_package = pkg\<rparr>) ae q st))))"

subsection \<open>The NRDL reference\<close>

definition resolvePackageBody :: "web \<Rightarrow> jval \<times> string option \<Rightarrow> import_error + jval" where
  "resolvePackageBody w b =
     (if fst b \<noteq> JUndef then Inr (fst b)
      else (case trim_opt (snd b) of None \<Rightarrow> Inl PackageOrUrlRequired | Some u \<Rightarrow> fetchReferencePackageFromUrl w u))"

definition createReferencePreviewHandler :: "reference_preview handler" where
  "createReferencePreviewHandler =
     compliance_handler ''POST'' (\<lambda>r. with_body (\<lambda>body. case referencePreviewSchema body of
        None \<Rightarrow> refuse 400 ''Invalid reference preview payload.''
      | Some b \<Rightarrow> (\<lambda>ae q st.
          (case resolvePackageBody (ae_web ae) b of
             Inl e \<Rightarrow> (Refuse 400 (ImportCause e), st)
           | Inr pkg \<Rightarrow>
               run_import (on_db_only (previewNrdlReferencePackage (import_env_of ae) pkg)) ae q st))))"

definition createReferenceSyncHandler :: "reference_done handler" where
  "createReferenceSyncHandler =
     compliance_handler ''POST'' (\<lambda>r. with_body (\<lambda>body. case syncRequestSchema body of
        None \<Rightarrow> refuse 400 ''Invalid reference sync payload.''
      | Some b \<Rightarrow> (\<lambda>ae. run_import (syncNrdlReferencePackage (import_env_of ae) (ae_web ae)
          \<lparr>rq_consent = im_consent b, rq_session = im_session b, rq_pack = ap_id (rv_doc r),
           rq_label = im_label b, rq_package = im_package b, rq_url = im_url b, rq_save_url = im_save_url b\<rparr>) ae)))"

definition createReferenceStatusHandler :: "reference_status handler" where
  "createReferenceStatusHandler =
     compliance_handler ''GET'' (\<lambda>r ae q st.
       let pe = ae_plugin ae in
       db_handler (getNrdlReferenceStatus (pe_seeds pe) (pe_clock pe)) rejected (Reply 200) ae st)"

definition createReferenceSyncBundledHandler :: "string \<Rightarrow> reference_done handler" where
  "createReferenceSyncBundledHandler seedPath =
     compliance_handler ''POST'' (\<lambda>r. with_body (\<lambda>body. case bundledRequestSchema body of
        None \<Rightarrow> refuse 400 ''Invalid bundled reference sync payload.''
      | Some (consent, session) \<Rightarrow> (\<lambda>ae q st.
          (case ae_bundled ae seedPath of
             None \<Rightarrow> (Refuse 500 RuntimeCause, st)
           | Some pkg \<Rightarrow> run_import (syncNrdlReferencePackage (import_env_of ae) (ae_web ae)
               \<lparr>rq_consent = consent, rq_session = session, rq_pack = ap_id (rv_doc r),
                rq_label = Some ''nrdl-reference-glp1-v1.json'', rq_package = pkg, rq_url = None,
                rq_save_url = False\<rparr>) ae q st))))"

subsection \<open>Devices\<close>

definition createDevicePreviewHandler :: "write_preview handler" where
  "createDevicePreviewHandler =
     compliance_handler ''POST'' (\<lambda>r. with_body (\<lambda>body. case deviceImportPreviewRequestSchema body of
        None \<Rightarrow> refuse 400 ''Invalid device import preview payload.''
      | Some b \<Rightarrow> (\<lambda>ae. run_import (on_db_only
          (previewDeviceImport (import_env_of ae) (ae_web ae) (ae_llm ae) (ae_device_prompt ae) b)) ae)))"

text \<open>The pack of the body is replaced by the pack of the grant.\<close>

definition createDeviceImportHandler :: "write_done handler" where
  "createDeviceImportHandler =
     compliance_handler ''POST'' (\<lambda>r. with_body (\<lambda>body. case deviceImportExecuteRequestSchema body of
        None \<Rightarrow> refuse 400 ''Invalid device import payload.''
      | Some b \<Rightarrow> (\<lambda>ae. run_import (importDeviceData (import_env_of ae) (ae_run ae)
          (b\<lparr>dq_pack := Some (ap_id (rv_doc r))\<rparr>)) ae)))"

subsection \<open>The registry of domain agents\<close>

text \<open>These handlers ask for no grant; \<open>replace\<close> is read and not used.\<close>

definition registryImportSchema :: "jval \<Rightarrow> string option" where
  "registryImportSchema v =
     (if \<not> strict_keys [''sql'', ''replace''] v then None
      else do { s \<leftarrow> p_trim (own_prop v ''sql''); _ \<leftarrow> p_opt p_bool (own_prop v ''replace''); Some s })"

definition bundledRegistryImportSchema :: "jval \<Rightarrow> bool option" where
  "bundledRegistryImportSchema v =
     (if \<not> strict_keys [''force''] v then None else map_option (\<lambda>b. b = Some True) (p_opt p_bool (own_prop v ''force'')))"

text \<open>The bootstrap, where the operation runs it, seeds the payment rules before it turns to the registry.\<close>

definition on_registry :: "bool \<Rightarrow> (domain_tables \<Rightarrow> 'r \<times> domain_tables) \<Rightarrow> plugin_env \<Rightarrow> plugin_state \<Rightarrow> 'r \<times> plugin_state" where
  "on_registry boots f pe st =
     (let p = plugin_db_path pe;
          db = (if boots then seedNrdlGlp1RulesIfEmpty (ps_dbs st p) else ps_dbs st p) in
      case f (db_domain db) of (r, d) \<Rightarrow> (r, st\<lparr>ps_dbs := (ps_dbs st)(p := db\<lparr>db_domain := d\<rparr>)\<rparr>))"

definition createDomainAgentsHandler :: "domain_list handler" where
  "createDomainAgentsHandler =
     for_method ''GET'' (\<lambda>ae q st.
       let pe = ae_plugin ae in
       (case on_registry True (listDomainAgents (sd_exec (pe_seeds pe)) (sd_registry (pe_seeds pe)) (ck_stamp (pe_clock pe))
              \<lparr>af_pack_id = trim_opt (query_get q ''pack_id''), af_enabled = trim_opt (query_get q ''enabled''),
               af_domain = trim_opt (query_get q ''domain'')\<rparr>) pe st of
          (Inl e, st') \<Rightarrow> (Refuse 500 (DbCause e), st') | (Inr l, st') \<Rightarrow> (Reply 200 l, st')))"

definition outcome_answer :: "import_outcome \<Rightarrow> import_outcome answer" where
  "outcome_answer out = (case out of ImportFailed _ \<Rightarrow> Reply 500 out | _ \<Rightarrow> Reply 200 out)"

definition createDomainAgentsImportHandler :: "import_outcome handler" where
  "createDomainAgentsImportHandler =
     for_method ''POST'' (with_body (\<lambda>body. case registryImportSchema body of
        None \<Rightarrow> refuse 400 ''Invalid domain agent registry import payload.''
      | Some sql \<Rightarrow> (\<lambda>ae q st.
          let pe = ae_plugin ae in
          (case on_registry True (importDomainAgentsRegistryPackage (sd_exec (pe_seeds pe)) (sd_registry (pe_seeds pe))
                 (ck_stamp (pe_clock pe)) sql) pe st of
             (out, st') \<Rightarrow> (outcome_answer out, st')))))"

definition createDomainAgentsBundledMigrationHandler :: "import_outcome handler" where
  "createDomainAgentsBundledMigrationHandler =
     for_method ''POST'' (\<lambda>ae q st.
       let pe = ae_plugin ae in
       (case on_registry True (importBundledDomainAgentsMigration (sd_exec (pe_seeds pe)) (sd_registry (pe_seeds pe))
              (sd_migration (pe_seeds pe)) (ck_stamp (pe_clock pe))) pe st of
          (Inl e, st') \<Rightarrow> (Threw (DbCause e), st') | (Inr out, st') \<Rightarrow> (outcome_answer out, st')))"

definition createDomainAgentsBundledRegistryHandler :: "import_outcome handler" where
  "createDomainAgentsBundledRegistryHandler =
     for_method ''POST'' (with_body (\<lambda>body.
       case bundledRegistryImportSchema (if nullish body then JObj [] else body) of
        None \<Rightarrow> refuse 400 ''Invalid bundled domain agent registry import payload.''
      | Some force \<Rightarrow> (\<lambda>ae q st.
          let pe = ae_plugin ae in
          (case on_registry False (importBundledDomainAgentsRegistry (sd_exec (pe_seeds pe)) (sd_registry (pe_seeds pe))
                 (ck_stamp (pe_clock pe)) force) pe st of
             (out, st') \<Rightarrow> (outcome_answer out, st')))))"

end
