(* ===== verification/Agent_Routes.thy ===== *)
theory Agent_Routes
  imports Panel_Routes
begin

text \<open>
  The chat handler (\<open>agent-routes.ts\<close>), the two tools (\<open>tra-query-tool.ts\<close>, \<open>tra-write-tool.ts\<close>), the
  context added to a prompt (\<open>agent-guidance.ts\<close>), and the handlers of grants
  (\<open>agent-grant-routes.ts\<close>) and of a session's pack (\<open>session-agent-pack-routes.ts\<close>).
\<close>

subsection \<open>Chat\<close>

definition chat_env_of :: "api_env \<Rightarrow> registry \<Rightarrow> chat_env" where
  "chat_env_of ae g =
     (let pe = ae_plugin ae in
      \<lparr>ce_host = pe_host pe, ce_sha = ae_sha ae, ce_seeds = pe_seeds pe, ce_clock = pe_clock pe,
       ce_parse_ast = ae_parse_ast ae, ce_query = ae_query ae, ce_files = ae_files ae,
       ce_cwd = h_cwd (pe_host pe), ce_default_template = ae_default_template ae,
       ce_default_schema = ae_default_schema ae, ce_schema = ae_schema ae, ce_registry = g,
       ce_rand = pe_rand pe, ce_tick = ae_chat_tick ae, ce_commit_ms = ae_commit_ms ae,
       ce_duration = ae_duration ae\<rparr>)"

definition chat_options_of :: "api_env \<Rightarrow> resolved_pack \<Rightarrow> chat_options" where
  "chat_options_of ae r =
     (let paths = plugin_paths (ae_plugin ae) in
      \<lparr>co_auditDir = Some (tp_auditDir paths), co_evidenceDir = Some (tp_evidenceDir paths),
       co_llm = ae_llm ae, co_agentPack = Some r\<rparr>)"

definition run_chat ::
  "api_env \<Rightarrow> registry \<Rightarrow> chat_input \<Rightarrow> resolved_pack \<Rightarrow> plugin_state \<Rightarrow> (chat_error + chat_result) \<times> plugin_state" where
  "run_chat ae g i r st =
     (let p = plugin_db_path (ae_plugin ae) in
      case runTrustclawChat (chat_env_of ae g) i (chat_options_of ae r)
             \<lparr>cs_db = ps_dbs st p, cs_audit = ps_audit st, cs_ledger = ps_ledger st\<rparr> of
        (out, cs) \<Rightarrow>
          (out, st\<lparr>ps_dbs := (ps_dbs st)(p := cs_db cs), ps_audit := cs_audit cs, ps_ledger := cs_ledger cs\<rparr>))"

definition chat_cause :: "chat_error \<Rightarrow> cause" where
  "chat_cause e = (case e of ChatPack x \<Rightarrow> PackCause x | ChatDb x \<Rightarrow> DbCause x | ChatLlm \<Rightarrow> RuntimeCause)"

record chat_body =
  cb_session :: string
  cb_message :: string
  cb_pack :: "string option"
  cb_agent :: "string option"

definition chatRequestSchema :: "jval \<Rightarrow> chat_body option" where
  "chatRequestSchema v =
     (if \<not> strict_keys [''session_id'', ''message'', ''agent_pack_id'', ''openclaw_agent_id''] v then None
      else do {
        s \<leftarrow> p_trim (own_prop v ''session_id'');
        m \<leftarrow> p_trim (own_prop v ''message'');
        p \<leftarrow> p_opt p_trim (own_prop v ''agent_pack_id'');
        a \<leftarrow> p_opt p_trim (own_prop v ''openclaw_agent_id'');
        Some \<lparr>cb_session = s, cb_message = m, cb_pack = p, cb_agent = a\<rparr>
      })"

datatype chat_answer = ChatContext attributed_context | ChatRefused block_status string string

definition chat_status :: "block_status \<Rightarrow> int" where
  "chat_status b = (case b of Tra_Not_Initialized \<Rightarrow> 409 | Security_Blocked \<Rightarrow> 403)"

text \<open>An error the pipeline does not turn into a result, and one of the pack, leave the handler.\<close>

definition createAgentChatHandler :: "chat_answer handler" where
  "createAgentChatHandler =
     for_method ''POST'' (with_body (\<lambda>body. case chatRequestSchema body of
        None \<Rightarrow> refuse 400 ''Invalid chat payload.''
      | Some b \<Rightarrow> (\<lambda>ae q st.
          let pe = ae_plugin ae; key = resolveCoordinatorSessionKey (cb_session b) (cb_agent b) in
          (case resolveBoundAgentPack pe key (cb_agent b) (cb_pack b) st of
             (Inl e, st1) \<Rightarrow> (Threw (PackCause e), st1)
           | (Inr res, st1) \<Rightarrow>
               (let r = res_pack res; i = ap_id (rv_doc r) in
                if \<not> plugin_has_grant pe st1 i ''tra.chat''
                then refuse 403 (''Domain agent '' @ dquoted i @ '' lacks tra.chat grant. Grant in Panel C.'') ae q st1
                else (case pe_registry pe of
                  Inl e \<Rightarrow> (Threw (PackCause e), st1)
                | Inr g \<Rightarrow>
                    (case run_chat ae g \<lparr>ch_session = key, ch_message = cb_message b, ch_pack = Some i\<rparr> r st1 of
                       (Inl err, st2) \<Rightarrow> (Threw (chat_cause err), st2)
                     | (Inr (ChatBlocked bs msg trail), st2) \<Rightarrow> (Reply (chat_status bs) (ChatRefused bs msg trail), st2)
                     | (Inr (ChatOk x), st2) \<Rightarrow>
                         (Reply 200 (ChatContext (withCoordinatorAttribution x res)), st2))))))))"

subsection \<open>The tools\<close>

text \<open>A tool is absent in a sandbox; an exception of \<open>execute\<close> is the left value.\<close>

type_synonym 'a tool = "(jval \<Rightarrow> plugin_state \<Rightarrow> (cause + 'a) \<times> plugin_state) option"

definition readMessageParam :: "jval \<Rightarrow> cause + string" where
  "readMessageParam params =
     (let message = readQuestion params in if message = [] then Inl (Msg ''message required'') else Inr message)"

definition createTrustclawTraQueryTool :: "api_env \<Rightarrow> tool_ctx \<Rightarrow> (string \<times> attributed_context) tool" where
  "createTrustclawTraQueryTool ae c =
     (if tc_sandboxed c then None
      else Some (\<lambda>params st.
        case readMessageParam params of
          Inl e \<Rightarrow> (Inl e, st)
        | Inr message \<Rightarrow>
            (let pe = ae_plugin ae; key = resolveSessionKey c in
             case resolveBoundAgentPack pe key (tc_agentId c) None st of
               (Inl e, st1) \<Rightarrow> (Inl (PackCause e), st1)
             | (Inr res, st1) \<Rightarrow>
                 (case pe_registry pe of
                    Inl e \<Rightarrow> (Inl (PackCause e), st1)
                  | Inr g \<Rightarrow>
                      (case run_chat ae g \<lparr>ch_session = key, ch_message = message, ch_pack = None\<rparr> (res_pack res) st1 of
                         (Inl err, st2) \<Rightarrow> (Inl (chat_cause err), st2)
                       | (Inr (ChatBlocked _ msg _), st2) \<Rightarrow> (Inl (Msg msg), st2)
                       | (Inr (ChatOk x), st2) \<Rightarrow>
                           (Inr (dc_response (rx_decision x), withCoordinatorAttribution x res), st2))))))"

definition written_text :: "write_done \<Rightarrow> string" where
  "written_text d =
     (utf8 [0xE5, 0xB7, 0xB2, 0xE5, 0x86, 0x99, 0xE5, 0x85, 0xA5, 0xE5, 0x8F, 0xAF, 0xE4, 0xBF, 0xA1,
        0xE8, 0xBF, 0x90, 0xE8, 0xA1, 0x8C, 0xE6, 0x97, 0xB6, 0xEF, 0xBC,
        0x9A]) @ show_nat (wd_rows d) @ ('' '' @ utf8 [0xE8, 0xA1, 0x8C, 0xEF, 0xBC, 0x8C, 0xE8, 0xA1,
        0xA8] @ '' '') @ join '', '' (wd_tables d) @
     (utf8 [0xE3, 0x80, 0x82, 0xE5, 0x8F, 0xAF, 0xE5, 0x9C, 0xA8] @ '' Panel B '' @ utf8 [0xE5, 0x88,
        0xB7, 0xE6, 0x96, 0xB0, 0xE6, 0x9F, 0xA5, 0xE7, 0x9C, 0x8B, 0xE3, 0x80, 0x82])"

definition createTrustclawTraWriteTool :: "api_env \<Rightarrow> tool_ctx \<Rightarrow> (string \<times> write_done) tool" where
  "createTrustclawTraWriteTool ae c =
     (if tc_sandboxed c then None
      else Some (\<lambda>params st.
        case readMessageParam params of
          Inl e \<Rightarrow> (Inl e, st)
        | Inr message \<Rightarrow>
            (let pe = ae_plugin ae; key = resolveSessionKey c; p = plugin_db_path pe in
             case resolveBoundAgentPack pe key (tc_agentId c) None st of
               (Inl e, st1) \<Rightarrow> (Inl (PackCause e), st1)
             | (Inr res, st1) \<Rightarrow>
                 (let r = res_pack res in
                  case loadAgentPackPersonalWriteTemplate (ae_files ae) (h_cwd (pe_host pe)) (ae_module_dir ae)
                         (ae_write_template ae) r of
                    Inl e \<Rightarrow> (Inl (PackCause e), st1)
                  | Inr template \<Rightarrow>
                      (case executePersonalWrite (import_env_of ae) (ae_run ae) (ae_llm ae) (ae_write_prompt ae template)
                              (dt_writeTables (ap_data (rv_doc r)))
                              \<lparr>pq_message = message, pq_consent = True, pq_session = key, pq_pack = ap_id (rv_doc r)\<rparr>
                              (ps_dbs st1 p, ps_audit st1) of
                         (out, (db, fs)) \<Rightarrow>
                           ((case out of Inl e \<Rightarrow> Inl (ImportCause e) | Inr d \<Rightarrow> Inr (written_text d, d)),
                            st1\<lparr>ps_dbs := (ps_dbs st1)(p := db), ps_audit := fs\<rparr>))))))"

subsection \<open>The context of a prompt\<close>

fun json_pretty :: "nat \<Rightarrow> jval \<Rightarrow> string" where
  "json_pretty d (JArr xs) =
     (if xs = [] then ''[]''
      else ''['' @ nl @ join ('','' @ nl) (map (\<lambda>x. replicate (2 * d + 2) (CHR '' '') @ json_pretty (Suc d) x) xs) @
           nl @ replicate (2 * d) (CHR '' '') @ '']'')"
| "json_pretty d (JObj m) =
     (let fs = filter (\<lambda>(_, v). v \<noteq> JUndef) m in
      if fs = [] then ''{}''
      else ''{'' @ nl @ join ('','' @ nl) (map (\<lambda>(k, v).
             replicate (2 * d + 2) (CHR '' '') @ json_quote k @ '': '' @ json_pretty (Suc d) v) fs) @
           nl @ replicate (2 * d) (CHR '' '') @ ''}'')"
| "json_pretty d v = json_stringify v"

definition BRIEFING_MARKER :: string where "BRIEFING_MARKER = ''TRA profile briefing''"

definition contentHasBriefingMarker :: "string \<Rightarrow> bool" where
  "contentHasBriefingMarker text \<longleftrightarrow> js_includes text BRIEFING_MARKER \<or> js_includes text BRIEFING_MARKER"

definition has_marker :: "jval \<Rightarrow> bool" where
  "has_marker v = (case v of JStr s \<Rightarrow> contentHasBriefingMarker s | _ \<Rightarrow> False)"

definition entry_has_marker :: "jval \<Rightarrow> bool" where
  "entry_has_marker entry \<longleftrightarrow>
     own_prop entry ''role'' = JStr ''assistant'' \<and>
     (has_marker (own_prop entry ''content'') \<or>
      (case own_prop entry ''content'' of JArr bs \<Rightarrow> list_ex (\<lambda>b. has_marker (own_prop b ''text'')) bs | _ \<Rightarrow> False))"

definition sessionHasMountBriefing :: "jval list option \<Rightarrow> bool" where
  "sessionHasMountBriefing messages = (case messages of None \<Rightarrow> False | Some xs \<Rightarrow> list_ex entry_has_marker xs)"

definition profile_json :: "profile_summary \<Rightarrow> jval" where
  "profile_json p = JObj
     [(''patient_name'', JStr (pf_patient_name p)),
      (''gender'', JStr (case pf_gender p of Male \<Rightarrow> (utf8 [0xE7, 0x94,
        0xB7]) | Female \<Rightarrow> (utf8 [0xE5, 0xA5, 0xB3]))),
      (''age_years'', JInt (pf_age_years p)), (''weight_kg'', JNum (pf_weight_kg p)),
      (''height_cm'', JNum (pf_height_cm p)), (''bmi'', JNum (pf_bmi p)), (''hba1c_percent'', JNum (pf_hba1c p)),
      (''diagnoses'', JArr (map (\<lambda>(c, n). JObj [(''icd10_code'', JStr c), (''diagnosis_name'', JStr n)]) (pf_diagnoses p))),
      (''medications'', JArr (map (\<lambda>(m, r). JObj [(''drug_name'', JStr m), (''termination_reason'', nullable_str r)])
         (pf_medications p))),
      (''snapshot'', (case pf_snapshot p of None \<Rightarrow> JNull | Some s \<Rightarrow> JObj s)),
      (''analysis_notes'', j_strs (pf_notes p))]"

definition backtick :: string where "backtick = [CHR 0x60]"

definition formatMountedProfileContext :: "profile_summary \<Rightarrow> agent_pack \<Rightarrow> bool \<Rightarrow> string" where
  "formatMountedProfileContext p pack needsBriefing =
     join nl ([''## Mounted TRA profile (agent pack: '' @ ap_id pack @ '')'', fence @ ''json'',
               json_pretty 0 (profile_json p), fence] @
              (if needsBriefing
               then [[], ''**Action required:** Deliver the **TRA profile briefing** now (include the marker phrase '' @
                     backtick @ BRIEFING_MARKER @ backtick @ '' once).'']
               else []))"

record guidance =
  gd_system :: string
  gd_context :: "string option"
  gd_pack :: string

definition guidance_pack ::
  "plugin_env \<Rightarrow> string option \<Rightarrow> string option \<Rightarrow> plugin_state \<Rightarrow> (pack_error + pack_resolution) \<times> plugin_state" where
  "guidance_pack pe sessionKey agentId st =
     (case sessionKey of
        Some k \<Rightarrow> if trim k \<noteq> [] then resolveBoundAgentPack pe k agentId None st
                  else resolve_pack_with False pe ''default'' agentId None st
      | None \<Rightarrow> resolve_pack_with False pe ''default'' agentId None st)"

definition buildTrustclawTraAgentGuidance ::
  "api_env \<Rightarrow> jval list option \<Rightarrow> string option \<Rightarrow> string option \<Rightarrow> plugin_state \<Rightarrow> (cause + guidance) \<times> plugin_state" where
  "buildTrustclawTraAgentGuidance ae messages sessionKey agentId st =
     (let pe = ae_plugin ae in
      case guidance_pack pe sessionKey agentId st of
        (Inl e, st1) \<Rightarrow> (Inl (PackCause e), st1)
      | (Inr res, st1) \<Rightarrow>
          (let r = res_pack res; i = ap_id (rv_doc r) in
           case buildAgentPackSystemContext (ae_files ae) (h_cwd (pe_host pe)) r of
             Inl e \<Rightarrow> (Inl (PackCause e), st1)
           | Inr system \<Rightarrow>
               (case on_plugin_db pe (profile_op pe) st1 of
                  (Inl e, st2) \<Rightarrow> (Inl (DbCause e), st2)
                | (Inr p, st2) \<Rightarrow>
                    (Inr \<lparr>gd_system = system,
                       gd_context = (if pf_mounted p
                         then Some (formatMountedProfileContext p (rv_doc r) (\<not> sessionHasMountBriefing messages))
                         else None), gd_pack = i\<rparr>, st2))))"

subsection \<open>Grants\<close>

record grant_history =
  gh_event :: string
  gh_trail :: string
  gh_timestamp :: int
  gh_pack :: string
  gh_scopes :: "string list"
  gh_granted :: bool
  gh_status :: event_status

definition history_of :: "audit_event \<Rightarrow> grant_history" where
  "history_of e =
     \<lparr>gh_event = ev_id e, gh_trail = ev_trail e, gh_timestamp = ev_timestamp e,
      gh_pack = (case own_prop (JObj (ev_input e)) ''agent_pack_id'' of JStr s \<Rightarrow> s | _ \<Rightarrow> ''unknown''),
      gh_scopes = (case own_prop (JObj (ev_input e)) ''scopes'' of
         JArr xs \<Rightarrow> concat (map (\<lambda>x. case x of JStr s \<Rightarrow> [s] | _ \<Rightarrow> []) xs) | _ \<Rightarrow> []),
      gh_granted = (own_prop (JObj (ev_output e)) ''granted'' = JBool True), gh_status = ev_status e\<rparr>"

record pack_grants =
  pg_summary :: jval
  pg_available :: "string list"
  pg_scopes :: "string list"
  pg_granted_at :: "num64 option"

record grants_body =
  gb_packs :: "pack_grants list"
  gb_grants :: "grant_entry obj"
  gb_history :: "grant_history list"

definition packs_with_grants :: "registry \<Rightarrow> grant_entry obj \<Rightarrow> pack_grants list" where
  "packs_with_grants g grants =
     map (\<lambda>r. let p = rv_doc r; e = obj_get grants (ap_id p) in
        \<lparr>pg_summary = summarizeAgentPack p, pg_available = deriveAgentDomainScopes p,
         pg_scopes = (case e of Some x \<Rightarrow> ge_scopes x | None \<Rightarrow> []), pg_granted_at = map_option ge_granted_at e\<rparr>)
       (list_packs g)"

definition createAgentGrantsGetHandler :: "grants_body handler" where
  "createAgentGrantsGetHandler =
     for_method ''GET'' (\<lambda>ae q st.
       let pe = ae_plugin ae in
       (case pe_registry pe of
          Inl e \<Rightarrow> (Refuse 500 (PackCause e), st)
        | Inr g \<Rightarrow>
            (let grants = listAgentDomainGrants (plugin_registry pe) (pe_now pe) (ps_grants st) (plugin_store_dir pe);
                 events = readAuditEvents (ps_audit st (tp_auditDir (plugin_paths pe))) (Some 200) (Some [AGENT_DOMAIN_GRANT])
             in (Reply 200 \<lparr>gb_packs = packs_with_grants g grants, gb_grants = grants,
                   gb_history = sort_key (\<lambda>h. - gh_timestamp h) (map history_of events)\<rparr>, st))))"

record grant_put =
  gp_session :: string
  gp_pack :: string
  gp_scopes :: "string list"

definition putGrantSchema :: "jval \<Rightarrow> grant_put option" where
  "putGrantSchema v =
     (if \<not> strict_keys [''session_id'', ''agent_pack_id'', ''scopes''] v then None
      else do {
        s \<leftarrow> p_trim (own_prop v ''session_id'');
        p \<leftarrow> p_trim (own_prop v ''agent_pack_id'');
        xs \<leftarrow> p_list p_trim (own_prop v ''scopes'');
        Some \<lparr>gp_session = s, gp_pack = p, gp_scopes = xs\<rparr>
      })"

definition not_grantable :: "agent_pack \<Rightarrow> string \<Rightarrow> bool" where
  "not_grantable p s \<longleftrightarrow> \<not> isAgentDomainScope s \<or> s \<notin> set (deriveAgentDomainScopes p)"

definition createAgentGrantsPutHandler :: "(string \<times> grant_entry) handler" where
  "createAgentGrantsPutHandler =
     for_method ''PUT'' (with_body (\<lambda>body. case putGrantSchema body of
        None \<Rightarrow> refuse 400 ''Invalid agent grant payload.''
      | Some b \<Rightarrow> (\<lambda>ae q st.
          let pe = ae_plugin ae in
          (case pe_registry pe of
             Inl e \<Rightarrow> (Refuse 500 (PackCause e), st)
           | Inr g \<Rightarrow>
               (case get_pack g (gp_pack b) of
                  None \<Rightarrow> refuse 404 (''Unknown agent pack: '' @ gp_pack b) ae q st
                | Some r \<Rightarrow>
                    (let p = rv_doc r in
                     case find (not_grantable p) (gp_scopes b) of
                       Some s \<Rightarrow> refuse 400 (''Scope '' @ dquoted s @ '' is not grantable for pack '' @ dquoted (ap_id p) @ ''.'') ae q st
                     | None \<Rightarrow>
                         (case setAgentDomainGrant (plugin_registry pe) (ae_now_ms ae) (ps_grants st) (plugin_store_dir pe)
                                 (ap_id p) (gp_scopes b) of
                            None \<Rightarrow> (Refuse 500 RuntimeCause, st)
                          | Some (e, gs) \<Rightarrow>
                              (Reply 200 (ap_id p, e),
                               st\<lparr>ps_grants := gs,
                                 ps_audit := recordAgentDomainGrantAudit (plugin_target pe) (gp_session b) (ap_id p)
                                   (ge_scopes e) (ge_scopes e \<noteq> []) (ps_audit st)\<rparr>))))))))"

subsection \<open>The pack of a session\<close>

definition readSessionIdFromQuery :: "http_request \<Rightarrow> string option" where
  "readSessionIdFromQuery q =
     (case trim_opt (query_get q ''session_id'') of Some s \<Rightarrow> Some s | None \<Rightarrow> trim_opt (query_get q ''session_key''))"

record session_body =
  sb_session :: string
  sb_pack :: string
  sb_source :: pack_source
  sb_locked :: bool
  sb_lock :: "string option"
  sb_override :: "string option"
  sb_suggested :: string
  sb_mismatch :: bool
  sb_summary :: jval

definition createSessionAgentPackGetHandler :: "session_body handler" where
  "createSessionAgentPackGetHandler =
     for_method ''GET'' (\<lambda>ae q st.
       case readSessionIdFromQuery q of
         None \<Rightarrow> refuse 400 ''session_id query parameter is required.'' ae q st
       | Some i \<Rightarrow>
           (let pe = ae_plugin ae; agentId = trim_opt (query_get q ''openclaw_agent_id'');
                key = resolveCoordinatorSessionKey i agentId in
            case resolve_pack_with False pe key agentId None st of
              (Inl e, st1) \<Rightarrow> (Refuse 500 (PackCause e), st1)
            | (Inr res, st1) \<Rightarrow>
                (Reply 200 \<lparr>sb_session = key, sb_pack = ap_id (rv_doc (res_pack res)), sb_source = res_source res,
                   sb_locked = res_locked res, sb_lock = res_lock_pack_id res,
                   sb_override = getSessionAgentPackId (ps_sessions st1) (plugin_store_dir pe) key,
                   sb_suggested = res_suggested_pack_id res, sb_mismatch = res_mismatch res,
                   sb_summary = summarizeAgentPack (rv_doc (res_pack res))\<rparr>, st1)))"

definition putBodySchema :: "jval \<Rightarrow> (string \<times> string) option" where
  "putBodySchema v =
     (if \<not> strict_keys [''session_id'', ''agent_pack_id''] v then None
      else do { s \<leftarrow> p_trim (own_prop v ''session_id''); p \<leftarrow> p_trim (own_prop v ''agent_pack_id''); Some (s, p) })"

definition createSessionAgentPackPutHandler :: "(string \<times> string \<times> jval) handler" where
  "createSessionAgentPackPutHandler =
     for_method ''PUT'' (with_body (\<lambda>body. case putBodySchema body of
        None \<Rightarrow> refuse 400 ''Invalid session agent pack payload.''
      | Some (session, pack) \<Rightarrow> (\<lambda>ae q st.
          let pe = ae_plugin ae in
          (case pe_registry pe of
             Inl e \<Rightarrow> (Refuse 400 (PackCause e), st)
           | Inr g \<Rightarrow>
               (case resolve_pack g (Some pack) None of
                  Inl e \<Rightarrow> (Refuse 400 (PackCause e), st)
                | Inr r \<Rightarrow>
                    (let i = ap_id (rv_doc r) in
                     case setSessionAgentPackBinding (ps_sessions st) (plugin_store_dir pe) session i of
                       Inl e \<Rightarrow> (Refuse 400 (StoreCause e), st)
                     | Inr ss \<Rightarrow> (Reply 200 (session, i, summarizeAgentPack (rv_doc r)), st\<lparr>ps_sessions := ss\<rparr>)))))))"

definition createSessionAgentPackDeleteHandler :: "string handler" where
  "createSessionAgentPackDeleteHandler =
     for_method ''DELETE'' (\<lambda>ae q st.
       case readSessionIdFromQuery q of
         None \<Rightarrow> refuse 400 ''session_id query parameter is required.'' ae q st
       | Some i \<Rightarrow>
           (Reply 200 i, st\<lparr>ps_sessions :=
              clearSessionAgentPackBinding (ps_sessions st) (plugin_store_dir (ae_plugin ae)) i\<rparr>))"

end
