(* ===== verification/Pack_Routes.thy ===== *)
theory Pack_Routes
  imports Panel_Routes
begin

text \<open>
  The handlers that work on files: the agent packs (\<open>agent-pack-routes.ts\<close>) and the static files of
  the user interface (\<open>ui-routes.ts\<close>).  The path of a request is the one \<open>new URL\<close> gives; the issues
  of a refused document and the extension points are the library's and the program's constants.
\<close>

subsection \<open>Agent packs\<close>

record pack_env =
  ke_cwd :: string
  ke_module_dir :: string
  ke_cfg :: plugin_config
  ke_issues :: "jval \<Rightarrow> (string list \<times> string) list"
  ke_json :: "string \<Rightarrow> jval option"

text \<open>The files and the module's cached registry.\<close>

type_synonym pack_state = "pack_fs \<times> registry option"

datatype pack_answer =
    PkRefuse int string
  | PkCode int string string
  | PkInvalid "(string \<times> string) list"
  | PkPack int jval
  | PkDeleted string
  | PkList string "jval list"
  | PkExtensionPoints
  | PkThrew pack_error

definition config_text :: "jval \<Rightarrow> string option" where
  "config_text v = (case v of JStr s \<Rightarrow> Some s | _ \<Rightarrow> None)"

definition pack_subpath :: "string \<Rightarrow> string" where
  "pack_subpath pathname =
     (let base = ''/api/tra/agent-packs'' in
      trim (if starts_with pathname base
            then (let rest = drop (length base) pathname in if starts_with rest [sep] then tl rest else rest)
            else pathname))"

definition loadRegistry :: "pack_env \<Rightarrow> pack_state \<Rightarrow> (pack_error + registry) \<times> pack_state" where
  "loadRegistry ke st =
     (case getAgentPackRegistry (fst st) (ke_module_dir ke)
             \<lparr>ro_agentsDir = config_text (cfg_agentPacksDir (ke_cfg ke)),
              ro_defaultPackId = config_text (cfg_defaultAgentPack (ke_cfg ke))\<rparr> (snd st) of
        (r, cache) \<Rightarrow> (r, (fst st, cache)))"

definition resolveWritableAgentsDir :: "pack_env \<Rightarrow> string option" where
  "resolveWritableAgentsDir ke = trim_opt (config_text (cfg_agentPacksDir (ke_cfg ke)))"

definition write_disabled :: pack_answer where
  "write_disabled = PkCode 403 ''pack_write_disabled'' ''Agent pack writes require plugin config agentPacksDir.''"

text \<open>Reading and inspecting the document of a request.\<close>

definition read_document :: "pack_env \<Rightarrow> http_request \<Rightarrow> pack_answer + agent_pack" where
  "read_document ke q =
     (case readJsonBody (ke_json ke) DEFAULT_BODY_LIMIT q of
        Inl message \<Rightarrow> Inl (PkRefuse 400 message)
      | Inr v \<Rightarrow> (case inspectAgentPackDocument (ke_issues ke) v of
                    Inl issues \<Rightarrow> Inl (PkInvalid issues) | Inr p \<Rightarrow> Inr p))"

text \<open>The cache is dropped and the registry loaded again; the pack just written must be in it.\<close>

definition reload :: "pack_env \<Rightarrow> int \<Rightarrow> string \<Rightarrow> string \<Rightarrow> pack_state \<Rightarrow> pack_answer \<times> pack_state" where
  "reload ke status i verb st =
     (case loadRegistry ke (fst st, resetAgentPackRegistryCache (snd st)) of
        (Inl e, st') \<Rightarrow> (PkThrew e, st')
      | (Inr g, st') \<Rightarrow>
          (case get_pack g i of
             None \<Rightarrow> (PkRefuse 500 (''Pack '' @ i @ '' was '' @ verb @ '' but could not be reloaded.''), st')
           | Some r \<Rightarrow> (PkPack status (describeAgentPackDetail (rv_doc r)), st')))"

definition create_pack :: "pack_env \<Rightarrow> string \<Rightarrow> agent_pack \<Rightarrow> pack_state \<Rightarrow> pack_answer \<times> pack_state" where
  "create_pack ke agentsDir p st =
     (case loadRegistry ke st of
        (Inl e, st1) \<Rightarrow> (PkThrew e, st1)
      | (Inr g, st1) \<Rightarrow>
          if get_pack g (ap_id p) \<noteq> None
          then (PkCode 409 ''pack_already_exists'' (''Agent pack already exists: '' @ ap_id p), st1)
          else if exists_path (fst st1) (path_join (path_join agentsDir [ap_id p]) [PACK_FILENAME])
          then (PkCode 409 ''pack_already_exists'' (''Agent pack directory already exists: '' @ ap_id p), st1)
          else (case writeAgentPackDocument (fst st1) (ke_cwd ke) agentsDir p None of
                  Inl e \<Rightarrow> (PkThrew e, st1)
                | Inr (d, f, fs) \<Rightarrow> reload ke 201 (ap_id p) ''created'' (fs, snd st1)))"

definition update_pack :: "pack_env \<Rightarrow> string \<Rightarrow> string \<Rightarrow> agent_pack \<Rightarrow> pack_state \<Rightarrow> pack_answer \<times> pack_state" where
  "update_pack ke agentsDir subpath p st =
     (if ap_id p \<noteq> subpath
      then (PkCode 400 ''pack_id_mismatch'' (''Pack id '' @ ap_id p @ '' does not match URL path '' @ subpath @ ''.''), st)
      else (case loadRegistry ke st of
              (Inl e, st1) \<Rightarrow> (PkThrew e, st1)
            | (Inr g, st1) \<Rightarrow>
                (case writeAgentPackDocument (fst st1) (ke_cwd ke) agentsDir p
                         (map_option rv_packDir (get_pack g subpath)) of
                   Inl e \<Rightarrow> (PkThrew e, st1)
                 | Inr (d, f, fs) \<Rightarrow> reload ke 200 subpath ''written'' (fs, snd st1))))"

definition delete_pack :: "pack_env \<Rightarrow> string \<Rightarrow> string \<Rightarrow> pack_state \<Rightarrow> pack_answer \<times> pack_state" where
  "delete_pack ke agentsDir subpath st =
     (case loadRegistry ke st of
        (Inl e, st1) \<Rightarrow> (PkThrew e, st1)
      | (Inr g, st1) \<Rightarrow>
          (case get_pack g subpath of
             None \<Rightarrow> (PkCode 404 ''pack_not_found'' (''Unknown agent pack id: '' @ subpath), st1)
           | Some r \<Rightarrow>
               if ap_id (rv_doc r) = ap_id (rv_doc (getDefault g))
               then (PkCode 403 ''default_pack_protected''
                       (''Cannot delete default agent pack: '' @ ap_id (rv_doc r)), st1)
               else (case deleteAgentPackDirectory (fst st1) (ke_cwd ke) agentsDir (rv_packDir r) of
                       Inl e \<Rightarrow> (PkThrew e, st1)
                     | Inr fs \<Rightarrow> (PkDeleted (ap_id (rv_doc r)),
                                  (fs, resetAgentPackRegistryCache (snd st1))))))"

definition read_packs :: "pack_env \<Rightarrow> string \<Rightarrow> pack_state \<Rightarrow> pack_answer \<times> pack_state" where
  "read_packs ke subpath st =
     (case loadRegistry ke st of
        (Inl e, st1) \<Rightarrow> (PkThrew e, st1)
      | (Inr g, st1) \<Rightarrow>
          (if subpath = []
           then PkList (ap_id (rv_doc (getDefault g))) (map (\<lambda>r. summarizeAgentPack (rv_doc r)) (list_packs g))
           else if subpath = ''extension-points'' then PkExtensionPoints
           else (case get_pack g subpath of
                   None \<Rightarrow> PkCode 404 ''pack_not_found'' (''Unknown agent pack id: '' @ subpath)
                 | Some r \<Rightarrow> PkPack 200 (describeAgentPackDetail (rv_doc r))), st1))"

definition createAgentPacksHandler :: "pack_env \<Rightarrow> string \<Rightarrow> http_request \<Rightarrow> pack_state \<Rightarrow> pack_answer \<times> pack_state" where
  "createAgentPacksHandler ke pathname q st =
     (let subpath = pack_subpath pathname;
          writing = (\<lambda>f. case resolveWritableAgentsDir ke of
              None \<Rightarrow> (write_disabled, st)
            | Some agentsDir \<Rightarrow> (case read_document ke q of Inl a \<Rightarrow> (a, st) | Inr p \<Rightarrow> f agentsDir p))
      in if subpath = ''validate''
         then (if \<not> methodIs q ''POST'' then (PkRefuse 405 ''Method not allowed.'', st)
               else (case read_document ke q of
                       Inl a \<Rightarrow> (a, st) | Inr p \<Rightarrow> (PkPack 200 (describeAgentPackDetail p), st)))
         else if subpath = [] \<and> methodIs q ''POST'' then writing (\<lambda>d p. create_pack ke d p st)
         else if subpath \<noteq> [] \<and> methodIs q ''PUT'' then writing (\<lambda>d p. update_pack ke d subpath p st)
         else if subpath \<noteq> [] \<and> methodIs q ''DELETE''
         then (case resolveWritableAgentsDir ke of
                 None \<Rightarrow> (write_disabled, st) | Some d \<Rightarrow> delete_pack ke d subpath st)
         else if \<not> methodIs q ''GET'' then (PkRefuse 405 ''Method not allowed.'', st)
         else read_packs ke subpath st)"

subsection \<open>Static files\<close>

fun rel_segs :: "string list \<Rightarrow> string list \<Rightarrow> string list" where
  "rel_segs (a # as) (b # bs) =
     (if a = b then rel_segs as bs else replicate (Suc (length as)) ''..'' @ b # bs)"
| "rel_segs [] bs = bs"
| "rel_segs as [] = replicate (length as) ''..''"

text \<open>\<open>path.relative\<close> of two absolute paths.\<close>

definition path_relative :: "string \<Rightarrow> string \<Rightarrow> string" where
  "path_relative a b = join [sep] (rel_segs (segs a) (segs b))"

definition isPathInside :: "string \<Rightarrow> string \<Rightarrow> string \<Rightarrow> bool" where
  "isPathInside cwd base target =
     (let relative = path_relative (path_resolve cwd [base]) (path_resolve cwd [target])
      in relative = [] \<or> (\<not> starts_with relative ''..'' \<and> \<not> is_absolute relative))"

definition TRUSTCLAW_UI_BASE_PATH :: string where "TRUSTCLAW_UI_BASE_PATH = ''/trustclaw''"

definition index_html :: string where "index_html = ''index.html''"

definition resolveTrustclawUiRoot :: "pack_fs \<Rightarrow> string \<Rightarrow> string option" where
  "resolveTrustclawUiRoot fs pluginDir =
     find (\<lambda>base. exists_path fs (path_join base [index_html]))
       [path_resolve pluginDir [''dist'', ''ui''], path_resolve pluginDir [''..'', ''dist'', ''ui''],
        path_resolve pluginDir [''..'', ''..'', ''..'', ''extensions'', ''trustclaw-tra'', ''dist'', ''ui''],
        path_resolve pluginDir [''..'', ''..'', ''..'', ''trustclaw'', ''ui'', ''dist'']]"

definition drop_slashes :: "string \<Rightarrow> string" where
  "drop_slashes s = dropWhile (\<lambda>c. c = sep) s"

definition ui_relative :: "string \<Rightarrow> string" where
  "ui_relative pathname =
     (let r = drop_slashes (drop (length TRUSTCLAW_UI_BASE_PATH) pathname) in
      if r = [] \<or> last r = sep
      then (let t = rev (drop_slashes (rev r)) @ sep # index_html in if starts_with t [sep] then tl t else t)
      else r)"

definition extname :: "string \<Rightarrow> string" where
  "extname p =
     (let base = (if segs p = [] then [] else last (segs p));
          before = dropWhile (\<lambda>c. c \<noteq> CHR ''.'') (rev base)
      in if before = [] \<or> tl before = [] then []
         else drop (length base - length (takeWhile (\<lambda>c. c \<noteq> CHR ''.'') (rev base)) - 1) base)"

definition MIME_BY_EXT :: "(string \<times> string) list" where
  "MIME_BY_EXT =
     [(''.html'', ''text/html; charset=utf-8''), (''.js'', ''text/javascript; charset=utf-8''),
      (''.css'', ''text/css; charset=utf-8''), (''.svg'', ''image/svg+xml''), (''.png'', ''image/png''),
      (''.json'', ''application/json''), (''.woff2'', ''font/woff2''), (''.map'', ''application/json'')]"

text \<open>\<open>UiFile path type cache body\<close>; \<open>UiPass\<close> leaves the request to other handlers.\<close>

datatype ui_answer = UiPass | UiNoAssets | UiForbidden | UiNotFound | UiFile string string string "fs_node option"

definition ui_file :: "pack_fs \<Rightarrow> bool \<Rightarrow> string \<Rightarrow> ui_answer" where
  "ui_file fs headOnly p =
     (let ext = to_lower (extname p) in
      UiFile p (case map_of MIME_BY_EXT ext of Some m \<Rightarrow> m | None \<Rightarrow> ''application/octet-stream'')
        (if ext = ''.html'' then ''no-store'' else ''public, max-age=3600'')
        (if headOnly then None else obj_get fs p))"

definition createTrustclawUiHandler :: "pack_fs \<Rightarrow> string \<Rightarrow> string option \<Rightarrow> string \<Rightarrow> http_request \<Rightarrow> ui_answer" where
  "createTrustclawUiHandler fs cwd uiRoot pathname0 q =
     (let get = methodIs q ''GET''; headOnly = methodIs q ''HEAD'';
          pathname = (if pathname0 = TRUSTCLAW_UI_BASE_PATH then TRUSTCLAW_UI_BASE_PATH @ [sep] else pathname0)
      in if \<not> get \<and> \<not> headOnly then UiPass
         else if \<not> starts_with pathname (TRUSTCLAW_UI_BASE_PATH @ [sep]) then UiPass
         else (case uiRoot of
                 None \<Rightarrow> UiNoAssets
               | Some base \<Rightarrow>
                   (let p = path_resolve cwd [base, ui_relative pathname] in
                    if \<not> isPathInside cwd base p then UiForbidden
                    else (let f = (if \<not> exists_path fs p \<or> obj_get fs p = Some DirNode
                                   then path_join base [index_html] else p)
                          in if \<not> exists_path fs f then UiNotFound else ui_file fs headOnly f))))"

subsection \<open>Files stay in their directory\<close>

lemma rel_segs_prefix:
  "list_all clean_seg bs \<Longrightarrow> rel_segs as bs = [] \<or> hd (rel_segs as bs) \<noteq> ''..'' \<Longrightarrow> prefix as bs"
proof (induction as bs rule: rel_segs.induct)
  case (1 a as b bs)
  then show ?case by (cases "a = b") auto
qed auto

lemma inside_prefix:
  assumes "isPathInside cwd base target"
  shows "prefix (segs (path_resolve cwd [base])) (segs (path_resolve cwd [target]))"
proof -
  let ?r = "rel_segs (segs (path_resolve cwd [base])) (segs (path_resolve cwd [target]))"
  have "?r = [] \<or> hd ?r \<noteq> ''..''"
  proof (cases ?r)
    case (Cons w ws)
    have "join [sep] ?r = w @ (if ws = [] then [] else [sep] @ join [sep] ws)"
      using Cons by (cases ws) simp_all
    moreover have "join [sep] ?r = [] \<or> \<not> starts_with (join [sep] ?r) ''..''"
      using assms by (auto simp: isPathInside_def path_relative_def Let_def)
    ultimately show ?thesis using Cons by (auto simp: starts_with_def)
  qed simp
  then show ?thesis by (rule rel_segs_prefix [OF segs_resolve_clean])
qed

lemma path_resolve_idem: "path_resolve cwd [path_resolve cwd' ps] = path_resolve cwd' ps"
  by (simp add: path_resolve_def is_absolute_def starts_with_def norm_segs_built norm_segs_clean)

text \<open>
  Whatever the path of a request is, a file of the user interface that is served lies below the
  directory of the built assets and exists, and only GET and HEAD are answered.
\<close>

theorem ui_serves_only_assets:
  assumes "createTrustclawUiHandler fs cwd (Some base) pathname q = UiFile p mime cache body"
    and "path_resolve cwd [base] = base"
  shows "prefix (segs base) (segs p) \<and> exists_path fs p \<and> (methodIs q ''GET'' \<or> methodIs q ''HEAD'') \<and>
    (body = None \<or> body = obj_get fs p)"
proof -
  let ?p = "\<lambda>n. path_resolve cwd [base, ui_relative n]"
  have inside: "prefix (segs base) (segs (?p n))" if "isPathInside cwd base (?p n)" for n
    using inside_prefix [OF that] assms(2) by (simp add: path_resolve_idem)
  have "clean_seg index_html" by (simp add: index_html_def clean_seg_def sep_def)
  then have index: "prefix (segs base) (segs (path_join base [index_html]))"
    by (simp add: segs_join_snoc)
  show ?thesis
    using assms(1) inside index
    by (auto simp: createTrustclawUiHandler_def ui_file_def Let_def split: if_splits)
qed

lemma load_keeps_files: "loadRegistry ke st = (r, st') \<Longrightarrow> fst st' = fst st"
  by (auto simp: loadRegistry_def split: prod.splits)

lemma reload_keeps_files: "reload ke status i verb st = (a, st') \<Longrightarrow> fst st' = fst st"
  by (auto simp: reload_def dest!: load_keeps_files split: prod.splits sum.splits option.splits)

lemma write_confined:
  assumes "\<not> prefix (segs (path_resolve cwd [d])) (segs k)" and "obj_get fs k = Some n"
    and "writeAgentPackDocument fs cwd d p t = Inr (x, y, fs')"
  shows "obj_get fs' k = Some n"
  using pack_writes_confined [OF assms(1,2), of p t] assms(3) by simp

lemma delete_confined:
  assumes "\<not> prefix (segs (path_resolve cwd [d])) (segs k)" and "obj_get fs k = Some n"
    and "deleteAgentPackDirectory fs cwd d t = Inr fs'"
  shows "obj_get fs' k = Some n"
  using pack_writes_confined [OF assms(1,2), where packDir = t] assms(3) by simp

definition keeps_outside :: "string list \<Rightarrow> pack_state \<Rightarrow> pack_state \<Rightarrow> bool" where
  "keeps_outside dir st st' \<longleftrightarrow>
     (\<forall>k n. \<not> prefix dir (segs k) \<longrightarrow> obj_get (fst st) k = Some n \<longrightarrow> obj_get (fst st') k = Some n)"

lemma keeps_same: "fst st' = fst st \<Longrightarrow> keeps_outside d st st'"
  by (simp add: keeps_outside_def)

lemma reload_answer:
  assumes "reload ke status i verb st = (a, st')"
  shows "a \<noteq> PkDeleted j \<and> (a = PkPack c v \<longrightarrow> c = status)"
  using assms by (auto simp: reload_def split: prod.splits sum.splits option.splits)

lemma keeps_reload:
  assumes "reload ke status i verb (fs, c) = (a, st')" and "keeps_outside dir st (fs, c)"
  shows "keeps_outside dir st st'"
  using reload_keeps_files [OF assms(1)] assms(2) by (simp add: keeps_outside_def)

lemma create_ok:
  assumes run: "create_pack ke d p st = (a, st')"
  shows "keeps_outside (segs (path_resolve (ke_cwd ke) [d])) st st' \<and> a \<noteq> PkDeleted i \<and>
    (a = PkPack 201 j \<longrightarrow> (\<exists>g st1. loadRegistry ke st = (Inr g, st1) \<and> get_pack g (ap_id p) = None \<and>
       \<not> exists_path (fst st) (path_join (path_join d [ap_id p]) [PACK_FILENAME])))"
proof -
  obtain r st1 where r: "loadRegistry ke st = (r, st1)" by (cases "loadRegistry ke st") auto
  then have f: "fst st1 = fst st" by (rule load_keeps_files)
  let ?taken = "exists_path (fst st) (path_join (path_join d [ap_id p]) [PACK_FILENAME])"
  let ?w = "writeAgentPackDocument (fst st) (ke_cwd ke) d p None"
  have conf: "keeps_outside (segs (path_resolve (ke_cwd ke) [d])) st (fs, c)" if "?w = Inr (x, y, fs)" for x y fs c
    using write_confined [OF _ _ that] by (simp add: keeps_outside_def)
  consider (refused) "fst st' = fst st" "a \<noteq> PkDeleted i" "a \<noteq> PkPack 201 j"
    | (written) g x y fs where "r = Inr g" "get_pack g (ap_id p) = None" "\<not> ?taken" "?w = Inr (x, y, fs)"
        "reload ke 201 (ap_id p) ''created'' (fs, snd st1) = (a, st')"
    using run r f
    by (cases r; cases "case r of Inr g \<Rightarrow> get_pack g (ap_id p) = None | Inl e \<Rightarrow> False"; cases ?taken; cases ?w)
      (auto simp: create_pack_def)
  then show ?thesis
  proof cases
    case refused
    then show ?thesis by (simp add: keeps_same)
  next
    case (written g x y fs)
    then show ?thesis
      using keeps_reload [OF written(5) conf [OF written(4)]] reload_answer [OF written(5)] r by simp
  qed
qed

lemma update_ok:
  assumes run: "update_pack ke d sub p st = (a, st')"
  shows "keeps_outside (segs (path_resolve (ke_cwd ke) [d])) st st' \<and> a \<noteq> PkDeleted i \<and> a \<noteq> PkPack 201 j"
proof -
  obtain r st1 where r: "loadRegistry ke st = (r, st1)" by (cases "loadRegistry ke st") auto
  then have f: "fst st1 = fst st" by (rule load_keeps_files)
  let ?w = "\<lambda>g. writeAgentPackDocument (fst st) (ke_cwd ke) d p (map_option rv_packDir (get_pack g sub))"
  have conf: "keeps_outside (segs (path_resolve (ke_cwd ke) [d])) st (fs, c)"
    if "?w g = Inr (x, y, fs)" for g x y fs c
    using write_confined [OF _ _ that] by (simp add: keeps_outside_def)
  consider (refused) "fst st' = fst st" "a \<noteq> PkDeleted i" "a \<noteq> PkPack 201 j"
    | (written) g x y fs where "?w g = Inr (x, y, fs)"
        "reload ke 200 sub ''written'' (fs, snd st1) = (a, st')"
    using run r f
    by (cases r; cases "ap_id p = sub"; cases "case r of Inr g \<Rightarrow> ?w g | Inl e \<Rightarrow> Inl e")
      (auto simp: update_pack_def)
  then show ?thesis
  proof cases
    case refused
    then show ?thesis by (simp add: keeps_same)
  next
    case (written g x y fs)
    then show ?thesis
      using keeps_reload [OF written(2) conf [OF written(1)]] reload_answer [OF written(2), of i 201 j] by auto
  qed
qed

lemma delete_ok:
  assumes "delete_pack ke d sub st = (a, st')"
  shows "keeps_outside (segs (path_resolve (ke_cwd ke) [d])) st st' \<and> a \<noteq> PkPack 201 j \<and>
    (a = PkDeleted i \<longrightarrow> (\<exists>g st1. loadRegistry ke st = (Inr g, st1) \<and> i \<noteq> ap_id (rv_doc (getDefault g))))"
proof -
  obtain r st1 where r: "loadRegistry ke st = (r, st1)" by (cases "loadRegistry ke st") auto
  then have f: "fst st1 = fst st" by (rule load_keeps_files)
  have conf: "keeps_outside (segs (path_resolve (ke_cwd ke) [d])) st (fs, c)"
    if "deleteAgentPackDirectory (fst st1) (ke_cwd ke) d t = Inr fs" for t fs c
    using delete_confined [OF _ _ that] f by (simp add: keeps_outside_def)
  show ?thesis
    using assms r f conf
    by (auto simp: delete_pack_def keeps_same split: sum.splits option.splits if_splits)
qed

lemma pack_read_ok:
  assumes "read_packs ke sub st = (a, st')"
  shows "fst st' = fst st \<and> a \<noteq> PkPack 201 j \<and> a \<noteq> PkDeleted i"
  using assms
  by (auto simp: read_packs_def dest!: load_keeps_files split: prod.splits sum.splits option.splits if_splits)

lemma document_answer: "read_document ke q = Inl a \<Longrightarrow> a \<noteq> PkPack c j \<and> a \<noteq> PkDeleted i"
  by (auto simp: read_document_def split: sum.splits)

subsection \<open>Where the packs of a loaded registry lie\<close>

lemma map_result_members:
  "map_result f xs = Inr ys \<Longrightarrow> y \<in> set ys \<Longrightarrow> \<exists>x\<in>set xs. f x = Inr y"
  by (induction xs arbitrary: ys) (auto split: sum.splits)

lemma discovered_file:
  assumes "f \<in> set (discoverAgentPackFiles fs d)"
  shows "\<exists>name. clean_seg name \<and> f = path_join d [name, PACK_FILENAME]"
proof -
  obtain name n where "(name, n) \<in> set (readdir fs d)" "f = path_join d [name, PACK_FILENAME]"
    using assms by (auto simp: discoverAgentPackFiles_def split: if_splits)
  moreover from this obtain p where "segs p \<noteq> []" "name = last (segs p)" by (auto simp: readdir_def)
  ultimately show ?thesis using segs_resolve_clean [of p] by (auto simp: list_all_iff)
qed

lemma segs_pack_file:
  assumes "clean_seg name"
  shows "segs (path_join d [name, PACK_FILENAME]) = segs d @ [name, PACK_FILENAME]"
proof -
  have "norm_segs ((d @ sep # name) @ sep # PACK_FILENAME) = norm_segs d @ [name, PACK_FILENAME]"
    using norm_segs_snoc [OF filename_clean, of "d @ sep # name"] norm_segs_snoc [OF assms, of d] by simp
  moreover have "list_all clean_seg (norm_segs d @ [name, PACK_FILENAME])"
    using assms filename_clean norm_segs_clean [of d] by simp
  ultimately show ?thesis by (simp add: path_join_def segs_def norm_segs_built del: list_all_append)
qed

lemma loaded_pack:
  assumes "loadAgentPacksFromDir fs d = Inr packs" and "r \<in> set packs"
  shows "\<exists>name. clean_seg name \<and> rv_packFile r = path_join d [name, PACK_FILENAME] \<and>
    rv_packDir r = dirname (rv_packFile r) \<and> loadAgentPackFromFile fs (rv_packFile r) = Inr r"
proof -
  obtain f where f: "f \<in> set (discoverAgentPackFiles fs d)" "loadAgentPackFromFile fs f = Inr r"
    using map_result_members [OF assms(1) [unfolded loadAgentPacksFromDir_def] assms(2)] by blast
  moreover have "rv_packFile r = f" "rv_packDir r = dirname f"
    using f(2) by (auto simp: loadAgentPackFromFile_def split: option.splits fs_node.split_asm)
  ultimately show ?thesis using discovered_file [OF f(1)] by simp
qed

lemma segs_pack_dir:
  assumes "clean_seg name"
  shows "segs (path_resolve cwd [dirname (path_join d [name, PACK_FILENAME])]) = segs d @ [name]"
proof -
  have c: "list_all clean_seg (segs d @ [name])" using assms segs_resolve_clean [of d] by simp
  have "dirname (path_join d [name, PACK_FILENAME]) = sep # join [sep] (segs d @ [name])"
    using segs_pack_file [OF assms] by (simp add: dirname_def butlast_append)
  then show ?thesis
    using c by (simp add: path_resolve_def is_absolute_def starts_with_def segs_def norm_segs_built)
qed

text \<open>Two packs of one agents directory have directories of their own.\<close>

lemma packs_apart:
  assumes l: "loadAgentPacksFromDir fs d = Inr packs" and r: "r \<in> set packs" "r' \<in> set packs" "r \<noteq> r'"
    and f: "prefix (segs (path_resolve cwd [rv_packDir r])) (segs f)"
  shows "\<not> prefix (segs (path_resolve cwd [rv_packDir r'])) (segs f)"
proof
  assume f': "prefix (segs (path_resolve cwd [rv_packDir r'])) (segs f)"
  obtain x where x: "clean_seg x" "rv_packFile r = path_join d [x, PACK_FILENAME]" "rv_packDir r = dirname (rv_packFile r)"
      "loadAgentPackFromFile fs (rv_packFile r) = Inr r"
    using loaded_pack [OF l r(1)] by blast
  obtain y where y: "clean_seg y" "rv_packFile r' = path_join d [y, PACK_FILENAME]" "rv_packDir r' = dirname (rv_packFile r')"
      "loadAgentPackFromFile fs (rv_packFile r') = Inr r'"
    using loaded_pack [OF l r(2)] by blast
  have "prefix (segs d @ [x]) (segs f)" "prefix (segs d @ [y]) (segs f)"
    using f f' segs_pack_dir x(1-3) y(1-3) by simp_all
  then have "x = y" by (auto simp: prefix_def)
  with x y r(3) show False by simp
qed

lemma get_pack_member:
  assumes "new_registry packs o' = Inr g" and "get_pack g i = Some r"
  shows "r \<in> set packs \<and> ap_id (rv_doc r) = i"
proof -
  have "find (\<lambda>r. ap_id (rv_doc r) = i) (rev packs) = Some r"
    using assms by (auto simp: new_registry_def Let_def get_pack_def fold_ids split: if_splits)
  from find_mem [OF this] show ?thesis by simp
qed

lemma default_found:
  assumes "new_registry packs o' = Inr g"
  shows "get_pack g (ap_id (rv_doc (getDefault g))) = Some (getDefault g)"
proof -
  have "obj_get (rg_byId g) (rg_default g) \<noteq> None"
    using assms by (auto simp: new_registry_def Let_def split: if_splits)
  then obtain r where r: "get_pack g (rg_default g) = Some r" by (auto simp: get_pack_def)
  with get_pack_member [OF assms r] show ?thesis by (simp add: getDefault_def get_pack_def)
qed

text \<open>With an agents directory configured the registry is read from the files at every request.\<close>

lemma loaded_from_files:
  assumes "loadRegistry ke st = (Inr g, st1)" and "resolveWritableAgentsDir ke = Some d"
  shows "\<exists>packs. loadAgentPacksFromDir (fst st) d = Inr packs \<and>
    new_registry packs (config_text (cfg_defaultAgentPack (ke_cfg ke))) = Inr g"
proof -
  have d: "trim_opt (config_text (cfg_agentPacksDir (ke_cfg ke))) = Some d"
    using assms(2) by (simp add: resolveWritableAgentsDir_def)
  have "trim [] = []" by code_simp
  then have t: "opt_truthy (config_text (cfg_agentPacksDir (ke_cfg ke)))"
    using d by (auto simp: opt_truthy_def trim_opt_def split: option.splits if_splits)
  have "load_registry (fst st) (ke_module_dir ke)
             \<lparr>ro_agentsDir = config_text (cfg_agentPacksDir (ke_cfg ke)),
              ro_defaultPackId = config_text (cfg_defaultAgentPack (ke_cfg ke))\<rparr> = Inr g"
    using assms(1) t
    by (auto simp: loadRegistry_def getAgentPackRegistry_def split: prod.splits option.splits sum.splits if_splits)
  then show ?thesis using d by (auto simp: load_registry_def split: sum.splits if_splits)
qed

subsection \<open>What creating and deleting do\<close>

lemma created_file:
  assumes id: "valid_pack_id (ap_id p)" and abs: "is_absolute d"
    and w: "writeAgentPackDocument fs cwd d p None = Inr (x, y, fs')"
    and free: "\<not> exists_path fs (path_join (path_join d [ap_id p]) [PACK_FILENAME])"
    and old: "obj_get fs k = Some n"
  shows "obj_get fs' k = Some n"
proof -
  have c: "clean_seg (ap_id p)" by (rule valid_id_clean [OF id])
  have y: "y = path_join (path_resolve cwd [d, ap_id p]) [PACK_FILENAME]"
    "fs' = obj_set (mkdir_p fs (path_resolve cwd [d, ap_id p])) y (JsonFile (Some (pack_json p)))"
    using w by (auto simp: writeAgentPackDocument_def assertPackDirUnderAgentsRoot_def Let_def split: if_splits)
  have "segs (path_resolve cwd [d]) = segs d"
    using abs by (simp add: path_resolve_def segs_def norm_segs_built norm_segs_clean)
  then have "segs y = segs (path_join (path_join d [ap_id p]) [PACK_FILENAME])"
    by (simp add: y(1) segs_join_snoc filename_clean c segs_resolve_snoc)
  then have "y = path_join (path_join d [ap_id p]) [PACK_FILENAME]"
    using path_join_built unfolding y(1) by metis
  with free old have "k \<noteq> y" by (auto simp: exists_path_def)
  with old y(2) show ?thesis by (simp add: kv_simps mkdir_p_get)
qed

lemma create_answer:
  assumes run: "create_pack ke d p st = (PkPack 201 j, st')"
  shows "\<exists>g st1 x y g' r. loadRegistry ke st = (Inr g, st1) \<and> get_pack g (ap_id p) = None \<and>
    \<not> exists_path (fst st) (path_join (path_join d [ap_id p]) [PACK_FILENAME]) \<and>
    writeAgentPackDocument (fst st) (ke_cwd ke) d p None = Inr (x, y, fst st') \<and>
    loadRegistry ke (fst st', None) = (Inr g', st') \<and> get_pack g' (ap_id p) = Some r \<and>
    j = describeAgentPackDetail (rv_doc r)"
proof -
  obtain g st1 where l: "loadRegistry ke st = (Inr g, st1)"
    using run by (auto simp: create_pack_def split: prod.splits sum.splits)
  have f: "fst st1 = fst st" by (rule load_keeps_files [OF l])
  obtain x y fs where w: "get_pack g (ap_id p) = None"
      "\<not> exists_path (fst st) (path_join (path_join d [ap_id p]) [PACK_FILENAME])"
      "writeAgentPackDocument (fst st) (ke_cwd ke) d p None = Inr (x, y, fs)"
      "reload ke 201 (ap_id p) ''created'' (fs, snd st1) = (PkPack 201 j, st')"
    using run l f by (auto simp: create_pack_def split: if_splits sum.splits)
  have fs: "fst st' = fs" using reload_keeps_files [OF w(4)] by simp
  obtain g' r where "loadRegistry ke (fs, None) = (Inr g', st')" "get_pack g' (ap_id p) = Some r"
      "j = describeAgentPackDetail (rv_doc r)"
    using w(4) by (auto simp: reload_def resetAgentPackRegistryCache_def split: prod.splits sum.splits option.splits)
  then show ?thesis using l w(1-3) fs by blast
qed

lemma delete_answer:
  assumes run: "delete_pack ke d sub st = (PkDeleted i, st')" and dir: "resolveWritableAgentsDir ke = Some d"
  shows "\<exists>g st1 r. loadRegistry ke st = (Inr g, st1) \<and> get_pack g i = Some r \<and> i = sub \<and>
    i \<noteq> ap_id (rv_doc (getDefault g)) \<and>
    (\<forall>k. obj_get (fst st') k =
       (if prefix (segs (path_resolve (ke_cwd ke) [rv_packDir r])) (segs k) then None else obj_get (fst st) k)) \<and>
    (\<forall>r'. get_pack g (ap_id (rv_doc r')) = Some r' \<longrightarrow> r' \<noteq> r \<longrightarrow>
       (\<forall>k. prefix (segs (path_resolve (ke_cwd ke) [rv_packDir r'])) (segs k) \<longrightarrow> obj_get (fst st') k = obj_get (fst st) k))"
proof -
  obtain g st1 where l: "loadRegistry ke st = (Inr g, st1)"
    using run by (auto simp: delete_pack_def split: prod.splits sum.splits)
  have f: "fst st1 = fst st" by (rule load_keeps_files [OF l])
  obtain r where r: "get_pack g sub = Some r" "ap_id (rv_doc r) \<noteq> ap_id (rv_doc (getDefault g))" "i = ap_id (rv_doc r)"
      "deleteAgentPackDirectory (fst st) (ke_cwd ke) d (rv_packDir r) = Inr (fst st')"
    using run l f by (auto simp: delete_pack_def split: option.splits if_splits sum.splits)
  obtain packs where p: "loadAgentPacksFromDir (fst st) d = Inr packs"
      "new_registry packs (config_text (cfg_defaultAgentPack (ke_cfg ke))) = Inr g"
    using loaded_from_files [OF l dir] by blast
  have m: "r \<in> set packs" "ap_id (rv_doc r) = sub" using get_pack_member [OF p(2) r(1)] by simp_all
  let ?dir = "\<lambda>r. segs (path_resolve (ke_cwd ke) [rv_packDir r])"
  have "fst st' = rm_tree (fst st) (path_resolve (ke_cwd ke) [rv_packDir r])"
    using r(4) by (simp add: deleteAgentPackDirectory_def Let_def split: if_splits)
  then have gone: "obj_get (fst st') k = (if prefix (?dir r) (segs k) then None else obj_get (fst st) k)" for k
    by (simp add: rm_tree_def obj_get_filter [where P = "\<lambda>q. \<not> prefix (?dir r) (segs q)"]
        obj_get_filter_out [where P = "\<lambda>q. \<not> prefix (?dir r) (segs q)"])
  moreover have "obj_get (fst st') k = obj_get (fst st) k"
    if "get_pack g (ap_id (rv_doc r')) = Some r'" "r' \<noteq> r" "prefix (?dir r') (segs k)" for r' k
    using gone packs_apart [OF p(1) _ m(1) that(2) that(3)] get_pack_member [OF p(2) that(1)] by simp
  ultimately show ?thesis using l r m by blast
qed


text \<open>Which request does what: only the answers of creations and deletions carry 201 and the deleted id.\<close>

definition on_files :: "pack_env \<Rightarrow> string \<Rightarrow> http_request \<Rightarrow> pack_state \<Rightarrow> pack_answer \<times> pack_state \<Rightarrow> bool" where
  "on_files ke sub q st out \<longleftrightarrow>
     (\<exists>d. resolveWritableAgentsDir ke = Some d \<and>
        ((\<exists>p. sub = [] \<and> methodIs q ''POST'' \<and> read_document ke q = Inr p \<and> create_pack ke d p st = out) \<or>
         (\<exists>p. methodIs q ''PUT'' \<and> read_document ke q = Inr p \<and> update_pack ke d sub p st = out) \<or>
         methodIs q ''DELETE'' \<and> delete_pack ke d sub st = out))"

definition only_reads :: "pack_env \<Rightarrow> string \<Rightarrow> pack_state \<Rightarrow> pack_answer \<times> pack_state \<Rightarrow> bool" where
  "only_reads ke sub st out \<longleftrightarrow>
     fst (snd out) = fst st \<and> (\<forall>i j. fst out \<noteq> PkDeleted i \<and> fst out \<noteq> PkPack 201 j)"

lemma only_reads_same:
  "(\<And>i j. a \<noteq> PkDeleted i \<and> a \<noteq> PkPack 201 j) \<Longrightarrow> only_reads ke sub st (a, st)"
  by (simp add: only_reads_def)

lemma only_reads_doc: "read_document ke q = Inl a \<Longrightarrow> only_reads ke sub st (a, st)"
  by (rule only_reads_same) (simp add: document_answer)

lemma only_reads_read: "only_reads ke sub st (read_packs ke sub st)"
  using pack_read_ok [of ke sub st "fst (read_packs ke sub st)" "snd (read_packs ke sub st)"]
  by (simp add: only_reads_def)

lemma handler_cases:
  "only_reads ke (pack_subpath n) st (createAgentPacksHandler ke n q st) \<or>
   on_files ke (pack_subpath n) q st (createAgentPacksHandler ke n q st)"
proof -
  define sub where "sub = pack_subpath n"
  define check where "check = (sub = ''validate'')"
  have w: "only_reads ke sub st (write_disabled, st)" by (simp add: only_reads_same write_disabled_def)
  have r: "only_reads ke sub st (PkRefuse c m, st)" for c m by (simp add: only_reads_same)
  have g: "only_reads ke sub st (PkPack 200 v, st)" for v by (simp add: only_reads_same)
  show ?thesis
    unfolding createAgentPacksHandler_def Let_def sub_def [symmetric] check_def [symmetric]
    using w r g only_reads_doc only_reads_read
    by (auto simp: on_files_def split: sum.splits option.splits)
qed

lemma document_ok: "read_document ke q = Inr p \<Longrightarrow> pack_ok p"
  by (auto simp: read_document_def inspectAgentPackDocument_def intro: parse_pack_ok split: sum.splits option.splits)

definition pack_created ::
  "pack_env \<Rightarrow> string \<Rightarrow> http_request \<Rightarrow> pack_state \<Rightarrow> jval \<Rightarrow> pack_state \<Rightarrow> bool" where
  "pack_created ke pathname q st j st' \<longleftrightarrow>
     (\<exists>p d g st1 x y g' r. pack_subpath pathname = [] \<and> methodIs q ''POST'' \<and> read_document ke q = Inr p \<and>
        resolveWritableAgentsDir ke = Some d \<and>
        loadRegistry ke st = (Inr g, st1) \<and> get_pack g (ap_id p) = None \<and>
        writeAgentPackDocument (fst st) (ke_cwd ke) d p None = Inr (x, y, fst st') \<and>
        (is_absolute d \<longrightarrow> (\<forall>k n. obj_get (fst st) k = Some n \<longrightarrow> obj_get (fst st') k = Some n)) \<and>
        loadRegistry ke (fst st', None) = (Inr g', st') \<and> get_pack g' (ap_id p) = Some r \<and>
        j = describeAgentPackDetail (rv_doc r))"

definition pack_deleted ::
  "pack_env \<Rightarrow> string \<Rightarrow> http_request \<Rightarrow> pack_state \<Rightarrow> string \<Rightarrow> pack_state \<Rightarrow> bool" where
  "pack_deleted ke pathname q st i st' \<longleftrightarrow>
     (\<exists>g st1 r. i = pack_subpath pathname \<and> methodIs q ''DELETE'' \<and>
        loadRegistry ke st = (Inr g, st1) \<and> get_pack g i = Some r \<and> r \<noteq> getDefault g \<and>
        (\<forall>k. obj_get (fst st') k =
           (if prefix (segs (path_resolve (ke_cwd ke) [rv_packDir r])) (segs k) then None else obj_get (fst st) k)) \<and>
        (\<forall>r'. r' = getDefault g \<or> get_pack g (ap_id (rv_doc r')) = Some r' \<longrightarrow> r' \<noteq> r \<longrightarrow>
           (\<forall>k. prefix (segs (path_resolve (ke_cwd ke) [rv_packDir r'])) (segs k) \<longrightarrow>
              obj_get (fst st') k = obj_get (fst st) k)))"

text \<open>
  C34 -- a request to the pack API changes files only if the configuration names an agents directory,
  and then no file outside that directory.  A creation that is answered with 201 was a POST whose
  document is the pack that is now loaded: no pack of its id was loaded before, and nothing that existed
  was overwritten (for an absolute agents directory).  A deletion that is answered removed the directory
  of the requested pack and nothing else, and neither the default pack nor the directory of another
  loaded pack was touched.
\<close>

theorem pack_api_confined:
  assumes run: "createAgentPacksHandler ke pathname q st = (a, st')"
  shows "(case resolveWritableAgentsDir ke of None \<Rightarrow> fst st' = fst st
          | Some d \<Rightarrow> keeps_outside (segs (path_resolve (ke_cwd ke) [d])) st st') \<and>
    (\<forall>j. a = PkPack 201 j \<longrightarrow> pack_created ke pathname q st j st') \<and>
    (\<forall>i. a = PkDeleted i \<longrightarrow> pack_deleted ke pathname q st i st')"
  using handler_cases [of ke pathname st q]
proof
  assume "only_reads ke (pack_subpath pathname) st (createAgentPacksHandler ke pathname q st)"
  then show ?thesis using run by (simp add: only_reads_def keeps_same split: option.split)
next
  assume "on_files ke (pack_subpath pathname) q st (createAgentPacksHandler ke pathname q st)"
  then consider (create) d p where "resolveWritableAgentsDir ke = Some d" "pack_subpath pathname = []" "methodIs q ''POST''"
      "read_document ke q = Inr p" "create_pack ke d p st = (a, st')"
    | (update) d p where "resolveWritableAgentsDir ke = Some d" "update_pack ke d (pack_subpath pathname) p st = (a, st')"
    | (delete) d where "resolveWritableAgentsDir ke = Some d" "methodIs q ''DELETE''"
      "delete_pack ke d (pack_subpath pathname) st = (a, st')"
    unfolding on_files_def run by auto
  then show ?thesis
  proof cases
    case (create d p)
    have "pack_created ke pathname q st j st'" if a: "a = PkPack 201 j" for j
    proof -
      obtain g st1 x y g' r where c: "loadRegistry ke st = (Inr g, st1)" "get_pack g (ap_id p) = None"
          "\<not> exists_path (fst st) (path_join (path_join d [ap_id p]) [PACK_FILENAME])"
          "writeAgentPackDocument (fst st) (ke_cwd ke) d p None = Inr (x, y, fst st')"
          "loadRegistry ke (fst st', None) = (Inr g', st')" "get_pack g' (ap_id p) = Some r"
          "j = describeAgentPackDetail (rv_doc r)"
        using create_answer [of ke d p st j st'] create(5) a by blast
      have "valid_pack_id (ap_id p)" using document_ok [OF create(4)] by (simp add: pack_ok_def)
      from created_file [OF this _ c(4,3)] create(1-4) c(1,2,4-7) show ?thesis
        unfolding pack_created_def by blast
    qed
    then show ?thesis using create_ok [OF create(5)] create(1) by simp
  next
    case (update d p)
    then show ?thesis using update_ok [OF update(2)] by auto
  next
    case (delete d)
    have "pack_deleted ke pathname q st i st'" if a: "a = PkDeleted i" for i
    proof -
      obtain g st1 r where c: "loadRegistry ke st = (Inr g, st1)" "get_pack g i = Some r" "i = pack_subpath pathname"
          "i \<noteq> ap_id (rv_doc (getDefault g))"
          "\<forall>k. obj_get (fst st') k =
             (if prefix (segs (path_resolve (ke_cwd ke) [rv_packDir r])) (segs k) then None else obj_get (fst st) k)"
          "\<forall>r'. get_pack g (ap_id (rv_doc r')) = Some r' \<longrightarrow> r' \<noteq> r \<longrightarrow>
             (\<forall>k. prefix (segs (path_resolve (ke_cwd ke) [rv_packDir r'])) (segs k) \<longrightarrow> obj_get (fst st') k = obj_get (fst st) k)"
        using delete_answer [of ke d "pack_subpath pathname" st i st'] delete(1,3) a by blast
      obtain packs where p: "new_registry packs (config_text (cfg_defaultAgentPack (ke_cfg ke))) = Inr g"
        using loaded_from_files [OF c(1) delete(1)] by blast
      have own: "get_pack g (ap_id (rv_doc (getDefault g))) = Some (getDefault g)" "ap_id (rv_doc r) = i"
        using default_found [OF p] get_pack_member [OF p c(2)] by simp_all
      then have "r \<noteq> getDefault g" using c(4) by auto
      then show ?thesis
        using c delete(2) own(1) unfolding pack_deleted_def by blast
    qed
    then show ?thesis using delete_ok [OF delete(3)] delete(1) by simp
  qed
qed

subsection \<open>Concrete requests\<close>

definition demo_pack_request :: "string \<Rightarrow> http_request" where
  "demo_pack_request m = \<lparr>hr_method = Some m, hr_query = [], hr_header = (\<lambda>_. None), hr_chunks = []\<rparr>"

definition demo_pack_env :: pack_env where
  "demo_pack_env =
     \<lparr>ke_cwd = ''/'', ke_module_dir = ''/x/y'',
      ke_cfg = \<lparr>cfg_dbPath = JNull, cfg_auditDir = JNull, cfg_evidenceDir = JNull,
                cfg_agentPacksDir = JStr ''/a'', cfg_defaultAgentPack = JStr ''p-1''\<rparr>,
      ke_issues = (\<lambda>_. []), ke_json = (\<lambda>_. None)\<rparr>"

definition two_packs :: "jval \<Rightarrow> jval \<Rightarrow> pack_fs" where
  "two_packs v w =
     [(''/a'', DirNode), (''/a/p-1'', DirNode), (''/a/p-1/agent.pack.json'', JsonFile (Some v)),
      (''/a/p-2'', DirNode), (''/a/p-2/agent.pack.json'', JsonFile (Some w)), (''/b'', TextFile ''other'')]"

definition demo_packs :: pack_fs where
  "demo_packs = two_packs (pack_json (demo_pack ''p-1'')) (pack_json (demo_pack ''p-2''))"

definition ui_files :: pack_fs where
  "ui_files = [(''/ui/index.html'', TextFile ''page''), (''/ui/app.js'', TextFile ''code''), (''/etc'', TextFile ''no'')]"

lemma ui_serves_only_assets_witness:
  "createTrustclawUiHandler ui_files ''/'' (Some ''/ui'') ''/trustclaw/app.js'' (demo_pack_request ''GET'') =
     UiFile ''/ui/app.js'' ''text/javascript; charset=utf-8'' ''public, max-age=3600'' (Some (TextFile ''code'')) \<and>
   prefix (segs ''/ui'') (segs ''/ui/app.js'')"
proof -
  have run: "createTrustclawUiHandler ui_files ''/'' (Some ''/ui'') ''/trustclaw/app.js'' (demo_pack_request ''GET'') =
     UiFile ''/ui/app.js'' ''text/javascript; charset=utf-8'' ''public, max-age=3600'' (Some (TextFile ''code''))"
    by code_simp
  have "path_resolve ''/'' [''/ui''] = ''/ui''" by code_simp
  from ui_serves_only_assets [OF run this] run show ?thesis by blast
qed

lemma escape_forbidden:
  "createTrustclawUiHandler ui_files ''/'' (Some ''/ui'') ''/trustclaw/../etc'' (demo_pack_request ''GET'') = UiForbidden"
  by code_simp

lemma two_packs_found:
  "discoverAgentPackFiles (two_packs v w) ''/a'' = [''/a/p-1/agent.pack.json'', ''/a/p-2/agent.pack.json'']"
  "dirname ''/a/p-1/agent.pack.json'' = ''/a/p-1''" "dirname ''/a/p-2/agent.pack.json'' = ''/a/p-2''"
  "obj_get (two_packs v w) ''/a/p-1/agent.pack.json'' = Some (JsonFile (Some v))"
  "obj_get (two_packs v w) ''/a/p-2/agent.pack.json'' = Some (JsonFile (Some w))"
  "obj_get (rm_tree (two_packs v w) ''/a/p-2'') ''/a/p-2'' = None"
  by code_simp+

lemma demo_plain:
  "trim ''p-2'' = ''p-2''" "trim ''/a'' = ''/a''"
  "pack_subpath ''/api/tra/agent-packs/p-2'' = ''p-2''"
  "path_resolve ''/'' [''/a''] = ''/a''" "path_resolve ''/'' [''/a/p-2''] = ''/a/p-2''"
  "under ''/a'' ''/a/p-2''" "segs ''/a'' = [''a'']"
  "methodIs (demo_pack_request ''DELETE'') ''DELETE''" "\<not> methodIs (demo_pack_request ''DELETE'') ''POST''"
  "\<not> methodIs (demo_pack_request ''DELETE'') ''PUT''"
  by code_simp+

lemma demo_packs_parsed:
  "parse_pack (pack_json (demo_pack ''p-1'')) = Some (demo_pack ''p-1'')"
  "parse_pack (pack_json (demo_pack ''p-2'')) = Some (demo_pack ''p-2'')"
  by (rule pack_parse_json, rule demo_pack_ok, code_simp)+

lemma demo_packs_list:
  "loadAgentPacksFromDir demo_packs ''/a'' =
     Inr [\<lparr>rv_doc = demo_pack ''p-1'', rv_packDir = ''/a/p-1'', rv_packFile = ''/a/p-1/agent.pack.json''\<rparr>,
          \<lparr>rv_doc = demo_pack ''p-2'', rv_packDir = ''/a/p-2'', rv_packFile = ''/a/p-2/agent.pack.json''\<rparr>]"
  by (simp add: loadAgentPacksFromDir_def demo_packs_def two_packs_found loadAgentPackFromFile_def demo_packs_parsed)

lemma demo_packs_load:
  "\<exists>g. loadRegistry demo_pack_env (demo_packs, None) = (Inr g, demo_packs, Some g) \<and> rg_default g = ''p-1'' \<and>
     map_option rv_doc (get_pack g ''p-1'') = Some (demo_pack ''p-1'') \<and>
     map_option rv_doc (get_pack g ''p-2'') = Some (demo_pack ''p-2'') \<and>
     map_option rv_packDir (get_pack g ''p-2'') = Some ''/a/p-2''"
proof -
  have id: "ap_id (demo_pack i) = i" for i by (simp add: demo_pack_def)
  obtain g where g: "load_registry demo_packs ''/x/y''
      \<lparr>ro_agentsDir = Some ''/a'', ro_defaultPackId = Some ''p-1''\<rparr> = Inr g" "rg_default g = ''p-1''"
    "map_option rv_doc (get_pack g ''p-1'') = Some (demo_pack ''p-1'')"
    "map_option rv_doc (get_pack g ''p-2'') = Some (demo_pack ''p-2'')"
    "map_option rv_packDir (get_pack g ''p-2'') = Some ''/a/p-2''"
    by (simp add: load_registry_def trim_opt_def demo_plain trim_plain demo_packs_list new_registry_def Let_def
        id get_pack_def obj_get_def)
  then show ?thesis
    by (simp add: loadRegistry_def getAgentPackRegistry_def demo_pack_env_def config_text_def)
qed

lemma pack_api_confined_witness:
  "\<exists>st'. createAgentPacksHandler demo_pack_env ''/api/tra/agent-packs/p-2'' (demo_pack_request ''DELETE'') (demo_packs, None)
     = (PkDeleted ''p-2'', st') \<and> keeps_outside [''a''] (demo_packs, None) st' \<and> obj_get (fst st') ''/a/p-2'' = None"
proof -
  have d: "resolveWritableAgentsDir demo_pack_env = Some ''/a''" "ke_cwd demo_pack_env = ''/''"
    by (simp_all add: resolveWritableAgentsDir_def demo_pack_env_def config_text_def trim_opt_def demo_plain)
  obtain g p1 p2 where "loadRegistry demo_pack_env (demo_packs, None) = (Inr g, demo_packs, Some g)"
      "rg_default g = ''p-1''" "get_pack g ''p-1'' = Some p1" "rv_doc p1 = demo_pack ''p-1''"
      "get_pack g ''p-2'' = Some p2" "rv_doc p2 = demo_pack ''p-2''" "rv_packDir p2 = ''/a/p-2''"
    using demo_packs_load by (auto simp: map_option_case split: option.splits)
  then have run: "createAgentPacksHandler demo_pack_env ''/api/tra/agent-packs/p-2''
      (demo_pack_request ''DELETE'') (demo_packs, None) = (PkDeleted ''p-2'', rm_tree demo_packs ''/a/p-2'', None)"
    by (simp add: createAgentPacksHandler_def Let_def demo_plain d delete_pack_def getDefault_def get_pack_def
        demo_pack_def deleteAgentPackDirectory_def resetAgentPackRegistryCache_def)
  from pack_api_confined [OF run] run d show ?thesis
    by (simp add: demo_plain demo_packs_def two_packs_found)
qed

end
