(* ===== verification/Plugin_Api.thy ===== *)
theory Plugin_Api
  imports Import_Routes Agent_Routes Pack_Routes
begin

text \<open>
  The plugin as a whole (\<open>extensions/trustclaw-tra/index.ts\<close>): which handler answers which path, and
  what holds of its stores after any sequence of requests, tool calls and hooks.
\<close>

subsection \<open>Dispatch\<close>

datatype plugin_body =
    InitBody "tra_result \<times> profile_summary option"
  | ResetBody "tra_result \<times> string option"
  | StatusBody "string \<times> jval obj option"
  | CompliancePreview compliance_preview
  | ComplianceDone compliance_done
  | Standards "standard_row list"
  | AstRules "string \<times> string option \<times> ast_rule list"
  | ReferencePreview reference_preview
  | ReferenceDone reference_done
  | ReferenceStatus reference_status
  | DevicePreview write_preview
  | DeviceDone write_done
  | ProfileBody profile_summary
  | AuditBody audit_body
  | LedgerBody ledger_body
  | TablesBody tables_body
  | SubscriptionsBody "string \<times> browse_snapshot"
  | BrowseBody browse_body
  | DomainList domain_list
  | DomainImport import_outcome
  | GrantsBody grants_body
  | GrantDone "string \<times> grant_entry"
  | SessionBody session_body
  | SessionDone "string \<times> string \<times> jval"
  | SessionCleared string
  | ChatBody chat_answer

definition body_of :: "('a \<Rightarrow> plugin_body) \<Rightarrow> 'a handler \<Rightarrow> plugin_body handler" where
  "body_of f h ae q st = (case h ae q st of (a, st') \<Rightarrow> (map_answer f a, st'))"

text \<open>A route with one handler per method.\<close>

fun by_method :: "(string \<times> plugin_body handler) list \<Rightarrow> plugin_body handler" where
  "by_method [] ae q st = (not_allowed, st)"
| "by_method ((m, h) # hs) ae q st = (if methodIs q m then h ae q st else by_method hs ae q st)"

text \<open>The two bundled seeds are files of the program; their paths are the arguments.\<close>

definition plugin_routes :: "string \<Rightarrow> string \<Rightarrow> (string \<times> plugin_body handler) list" where
  "plugin_routes astSeed referenceSeed =
     [(''/api/tra/init'', body_of InitBody createTraInitHandler),
      (''/api/tra/reset'', body_of ResetBody createTraResetHandler),
      (''/api/tra/status'', body_of StatusBody createTraStatusHandler),
      (''/api/tra/compliance/preview'', body_of CompliancePreview createCompliancePreviewHandler),
      (''/api/tra/compliance/import'', body_of ComplianceDone createComplianceImportHandler),
      (''/api/tra/compliance/import/bundled-glp1-v2'',
        body_of ComplianceDone (createComplianceImportBundledHandler astSeed)),
      (''/api/tra/compliance/standards'', body_of Standards createComplianceStandardsHandler),
      (''/api/tra/compliance/rules'', body_of AstRules createComplianceRulesHandler),
      (''/api/tra/reference/preview'', body_of ReferencePreview createReferencePreviewHandler),
      (''/api/tra/reference/sync'', body_of ReferenceDone createReferenceSyncHandler),
      (''/api/tra/reference/status'', body_of ReferenceStatus createReferenceStatusHandler),
      (''/api/tra/reference/sync/bundled-glp1'',
        body_of ReferenceDone (createReferenceSyncBundledHandler referenceSeed)),
      (''/api/tra/device/preview'', body_of DevicePreview createDevicePreviewHandler),
      (''/api/tra/device/import'', body_of DeviceDone createDeviceImportHandler),
      (''/api/tra/profile-summary'', body_of ProfileBody createTraProfileSummaryHandler),
      (''/api/tra/audit/events'', body_of AuditBody createTraAuditEventsHandler),
      (''/api/tra/ledger'', body_of LedgerBody createTraLedgerHandler),
      (''/api/tra/tables'', body_of TablesBody createTraTablesHandler),
      (''/api/tra/browse/subscriptions'', body_of SubscriptionsBody createTraBrowseSubscriptionsHandler),
      (''/api/tra/browse'', body_of BrowseBody createTraBrowseHandler),
      (''/api/tra/domain-agents'',
        by_method [(''GET'', body_of DomainList createDomainAgentsHandler),
                   (''POST'', body_of DomainImport createDomainAgentsImportHandler)]),
      (''/api/tra/domain-agents/import/bundled-migration'',
        body_of DomainImport createDomainAgentsBundledMigrationHandler),
      (''/api/tra/domain-agents/import/bundled-registry'',
        body_of DomainImport createDomainAgentsBundledRegistryHandler),
      (''/api/tra/agent-grants'',
        by_method [(''GET'', body_of GrantsBody createAgentGrantsGetHandler),
                   (''PUT'', body_of GrantDone createAgentGrantsPutHandler)]),
      (''/api/tra/session/agent-pack'',
        by_method [(''GET'', body_of SessionBody createSessionAgentPackGetHandler),
                   (''PUT'', body_of SessionDone createSessionAgentPackPutHandler),
                   (''DELETE'', body_of SessionCleared createSessionAgentPackDeleteHandler)]),
      (''/api/agent/chat'', body_of ChatBody createAgentChatHandler)]"

definition plugin_request ::
  "string \<Rightarrow> string \<Rightarrow> api_env \<Rightarrow> string \<Rightarrow> http_request \<Rightarrow> plugin_state \<Rightarrow> (plugin_body answer \<times> plugin_state) option" where
  "plugin_request astSeed referenceSeed ae path q st =
     map_option (\<lambda>h. h ae q st) (map_of (plugin_routes astSeed referenceSeed) path)"

subsection \<open>What a chat keeps\<close>

text \<open>
  Every change a chat makes is to the database, one event of its trail, or one receipt; what all three
  keep, the chat keeps.
\<close>

locale chat_invariant =
  fixes I :: "chat_state \<Rightarrow> bool" and e :: chat_env and i :: chat_input and opts :: chat_options
  assumes db: "I st \<Longrightarrow> I (st\<lparr>cs_db := db\<rparr>)"
    and event: "I st \<Longrightarrow> I (chat_record e i opts p st)"
    and receipt: "I st \<Longrightarrow> commitEvidenceReceipt (ce_sha e) now c (cs_ledger st d) = (r, f) \<Longrightarrow>
      I (st\<lparr>cs_ledger := (cs_ledger st)(d := f)\<rparr>)"
begin

lemma commit: "I st \<Longrightarrow> I (snd (commit_stage e i opts p x st))"
  by (auto simp: commit_stage_def Let_def intro!: event intro: receipt split: prod.split)

lemma decision: "I st \<Longrightarrow> I (snd (decision_stage e i opts p s t rows m st))"
  by (simp add: decision_stage_def Let_def commit event)

lemma rules: "I st \<Longrightarrow> I (snd (rule_stage e i opts p s t rows st))"
  by (auto simp: rule_stage_def intro!: decision event db split: prod.split sum.split)

lemma query: "I st \<Longrightarrow> I (snd (query_stage e i opts p s t st))"
  by (auto simp: query_stage_def intro!: rules event db split: prod.split sum.split)

lemma text2sql: "I st \<Longrightarrow> I (snd (text2sql_stage e i opts r s st))"
  by (auto simp: text2sql_stage_def Let_def intro!: query event split: sum.split option.split)

lemma chat: "I st \<Longrightarrow> runTrustclawChat e i opts st = (out, st') \<Longrightarrow> I st'"
  by (auto simp: runTrustclawChat_def dest!: sym [of _ st'] split: prod.splits sum.splits option.splits
      intro!: event db) (metis db snd_conv text2sql)

end

definition audit_grows :: "audit_fs \<Rightarrow> audit_fs \<Rightarrow> bool" where
  "audit_grows fs fs' \<longleftrightarrow> (\<forall>d. prefix (audit_entries (fs d)) (audit_entries (fs' d)))"

lemma audit_grows_refl [simp]: "audit_grows fs fs"
  by (simp add: audit_grows_def)

lemma audit_grows_trans: "audit_grows fs fs1 \<Longrightarrow> audit_grows fs1 fs2 \<Longrightarrow> audit_grows fs fs2"
  by (meson audit_grows_def prefix_order.trans)

lemma audit_grows_record: "audit_grows fs (snd (record_event t p (r, fs)))"
  by (simp add: audit_grows_def record_event_def Let_def audit_log.entries_append)

lemma audit_grows_single [simp]: "audit_grows fs (record_single pre t s p fs)"
  by (simp add: record_single_def audit_grows_record)

interpretation chat_ledgers: chat_invariant
  "\<lambda>st. \<forall>d. ledger_reachable (ce_sha e) (cs_ledger st d)" e i opts for e i opts
  by unfold_locales (auto intro: ledger_reachable.commit)

interpretation chat_audit: chat_invariant "\<lambda>st. audit_grows fs (cs_audit st)" e i opts for fs e i opts
proof unfold_locales
  show "audit_grows fs (cs_audit st) \<Longrightarrow> audit_grows fs (cs_audit (chat_record e i opts p st))" for p st
    by (auto simp: chat_record_def intro: audit_grows_trans audit_grows_record)
qed simp_all

subsection \<open>What an import keeps\<close>

lemma compliance_grows: "audit_grows (snd st) (snd (snd (importComplianceStandardPackage ie q st)))"
  by (auto simp: importComplianceStandardPackage_def Let_def recordComplianceImportAudit_def
      split: option.split prod.split sum.split)

lemma run_sync_grows: "audit_grows (snd st) (snd (snd (run_sync ie q s p k st)))"
  by (auto simp: run_sync_def Let_def recordReferenceSyncAudit_def split: prod.split sum.split)

lemma sync_grows: "audit_grows (snd st) (snd (snd (syncNrdlReferencePackage ie w q st)))"
  by (auto simp: syncNrdlReferencePackage_def run_sync_grows split: option.split sum.split)

lemma commit_write_grows: "audit_grows (snd st) (snd (snd (commit_write run t s p ok failed ss ts h st)))"
  by (auto simp: commit_write_def recordDeviceImportAudit_def split: prod.split sum.split)

lemma device_grows: "audit_grows (snd st) (snd (snd (importDeviceData ie run q st)))"
  by (auto simp: importDeviceData_def Let_def recordDeviceImportAudit_def commit_write_grows
      split: option.split sum.split)

lemma personal_grows: "audit_grows (snd st) (snd (snd (executePersonalWrite ie run llm prompt ts q st)))"
proof (cases "pq_consent q")
  case True
  obtain out db where p: "previewPersonalWrite ie llm prompt ts (pq_message q) (fst st) = (out, db)" by force
  show ?thesis
    using True p commit_write_grows [of "(db, snd st)"]
    by (cases out) (simp_all add: executePersonalWrite_def)
qed (simp add: executePersonalWrite_def recordDeviceImportAudit_def)

lemma db_only_grows: "audit_grows (snd st) (snd (snd (on_db_only f st)))"
  by (simp add: on_db_only_def split: prod.split)

subsection \<open>What a handler keeps\<close>

definition dbs_audit :: "plugin_state \<Rightarrow> plugin_state \<Rightarrow> bool" where
  "dbs_audit st st' \<longleftrightarrow>
     (\<exists>dbs fs. st' = st\<lparr>ps_dbs := dbs, ps_audit := fs\<rparr>) \<and> audit_grows (ps_audit st) (ps_audit st')"

text \<open>
  The grants kept in memory while there is no readable grant file are within what one of the registries
  \<open>G\<close> allows; grants in a file are cut down to the current registry whenever they are read.
\<close>

definition manifest_allows :: "registry \<Rightarrow> string \<Rightarrow> string \<Rightarrow> bool" where
  "manifest_allows g pack scope \<longleftrightarrow>
     (\<exists>r. get_pack g pack = Some r \<and> scope \<in> set (deriveAgentDomainScopes (rv_doc r)))"

definition grants_below :: "registry set \<Rightarrow> grant_state \<Rightarrow> bool" where
  "grants_below G gst \<longleftrightarrow> (\<forall>pack scope. scope \<in> set (scopes_of (obj_get (gs_empty gst) pack)) \<longrightarrow>
     (\<exists>g\<in>G. manifest_allows g pack scope))"

definition no_grant_file :: "grant_state \<Rightarrow> string \<Rightarrow> bool" where
  "no_grant_file gst dir \<longleftrightarrow> (case gs_files gst dir of None \<Rightarrow> True | Some v \<Rightarrow> nullish v)"

lemma ceiling_allows: "scope \<in> set (pack_ceiling g pack) \<longleftrightarrow> manifest_allows g pack scope"
  by (cases "get_pack g pack") (simp_all add: pack_ceiling_def manifest_allows_def)

lemma grants_below_mono: "grants_below G gst \<Longrightarrow> G \<subseteq> H \<Longrightarrow> grants_below H gst"
  unfolding grants_below_def by blast

lemma read_shared: "readGrantFile reg now gst dir = (gs, True) \<Longrightarrow> gs = gs_empty gst"
  by (auto simp: readGrantFile_def split: option.splits if_splits)

lemma set_grants_below:
  assumes set: "setAgentDomainGrant (Some g) now gst dir pack scopes = Some (e, gst')"
    and "g \<in> G" and b: "grants_below G gst"
  shows "grants_below G gst'"
proof -
  obtain gs sh where r: "readGrantFile (Some g) (Fin (of_int now)) gst dir = (gs, sh)" by fastforce
  have e: "scope \<in> set (ge_scopes e) \<Longrightarrow> manifest_allows g (trim pack) scope" for scope
    using set_grant_put [OF r set] by (simp add: ceiling_allows)
  have "gs_empty gst' = (if sh then put_grant (gs_empty gst) (trim pack) e else gs_empty gst)"
    using set_grant_put [OF r set] read_shared [of "Some g" "Fin (of_int now)" gst dir gs] r
    by (simp add: writeGrantFile_def)
  with b e \<open>g \<in> G\<close> show ?thesis by (auto simp: grants_below_def put_grant_scopes)
qed

lemma clear_grants_below: "grants_below G gst \<Longrightarrow> grants_below G (clearAgentDomainGrants gst dir)"
  by (simp add: grants_below_def clearAgentDomainGrants_def)

text \<open>Where the grants come from the file, what the pack may do now decides alone.\<close>

lemma granted_is_allowed:
  assumes "hasAgentDomainGrant (Some g) now gst dir pack scope" and "grants_below G gst"
  shows "manifest_allows g (trim pack) scope \<or>
    (no_grant_file gst dir \<and> (\<exists>g'\<in>G. manifest_allows g' (trim pack) scope))"
proof (cases "no_grant_file gst dir")
  case True
  then have "fst (readGrantFile (Some g) now gst dir) = gs_empty gst"
    by (auto simp: no_grant_file_def readGrantFile_def split: option.splits)
  with assms True show ?thesis by (auto simp: has_grant_scopes grants_below_def)
next
  case False
  define gs where "gs = fst (readGrantFile (Some g) now gst dir)"
  from False obtain v where v: "gs_files gst dir = Some v" "\<not> nullish v"
    by (auto simp: no_grant_file_def split: option.splits)
  have "below g gs"
  proof (cases "obj_entries (own_prop v ''grants'')")
    case None
    with v show ?thesis by (simp add: gs_def readGrantFile_def below_Nil)
  next
    case (Some m)
    with v read_entries_below [OF below_Nil, of g now m] show ?thesis by (auto simp: gs_def readGrantFile_def)
  qed
  with assms(1) show ?thesis
    by (cases "obj_get gs (trim pack)")
       (auto simp: has_grant_scopes gs_def [symmetric] scopes_of_def below_def ceiling_allows [symmetric])
qed

text \<open>
  That exception is real: a scope granted while there was no grant file is granted again when the file is
  lost, whatever the manifest of the pack says by then.
\<close>

lemma lost_file_restores_grant:
  assumes "gs_empty gst = []" and "gs_files gst dir = None"
    and set: "setAgentDomainGrant (Some g) now gst dir pack scopes = Some (e, gst')"
    and "scope \<in> set scopes" and "manifest_allows g (trim pack) scope"
  shows "hasAgentDomainGrant reg t (gst'\<lparr>gs_files := (gs_files gst')(dir := None)\<rparr>) dir pack scope"
proof -
  have r: "readGrantFile (Some g) (Fin (of_int now)) gst dir = ([], True)"
    using assms(1,2) by (simp add: readGrantFile_def)
  with set_grant_put [OF r set] assms(4,5) show ?thesis
    by (simp add: has_grant_scopes readGrantFile_def writeGrantFile_def put_grant_scopes ceiling_allows)
qed

text \<open>What every step of the plugin but a reset does to its stores.\<close>

definition sound_step :: "(string \<Rightarrow> string) \<Rightarrow> registry set \<Rightarrow> plugin_state \<Rightarrow> plugin_state \<Rightarrow> bool" where
  "sound_step sha G st st' \<longleftrightarrow>
     audit_grows (ps_audit st) (ps_audit st') \<and>
     ((\<forall>d. ledger_reachable sha (ps_ledger st d)) \<longrightarrow> (\<forall>d. ledger_reachable sha (ps_ledger st' d))) \<and>
     (session_ok (ps_sessions st) \<longrightarrow> session_ok (ps_sessions st')) \<and>
     (grants_below G (ps_grants st) \<longrightarrow> grants_below G (ps_grants st'))"

lemma sound_refl [simp]: "sound_step sha G st st"
  by (simp add: sound_step_def)

lemma sound_trans: "sound_step sha G st st1 \<Longrightarrow> sound_step sha G st1 st2 \<Longrightarrow> sound_step sha G st st2"
  by (auto simp: sound_step_def intro: audit_grows_trans)

lemma dbs_audit_sound: "dbs_audit st st' \<Longrightarrow> sound_step sha G st st'"
  by (auto simp: dbs_audit_def sound_step_def)

lemma dbs_audit_refl [simp]: "dbs_audit st st"
  by (simp add: dbs_audit_def exI [of _ "ps_dbs st"] exI [of _ "ps_audit st"])

lemma dbs_audit_dbs [simp]: "dbs_audit st (st\<lparr>ps_dbs := dbs\<rparr>)"
proof -
  have "st\<lparr>ps_dbs := dbs\<rparr> = st\<lparr>ps_dbs := dbs, ps_audit := ps_audit st\<rparr>" by simp
  then show ?thesis unfolding dbs_audit_def by (metis audit_grows_refl plugin_state.select_convs(2) plugin_state.surjective plugin_state.update_convs(1))
qed

definition keeps :: "(plugin_state \<Rightarrow> plugin_state \<Rightarrow> bool) \<Rightarrow> api_env \<Rightarrow> 'a handler \<Rightarrow> bool" where
  "keeps R ae h \<longleftrightarrow> (\<forall>q st. R st (snd (h ae q st)))"

text \<open>The wrappers of the handlers keep any reflexive relation their inner handlers keep.\<close>

locale state_relation =
  fixes R :: "plugin_state \<Rightarrow> plugin_state \<Rightarrow> bool"
  assumes R_refl: "R st st"
begin

lemma keeps_method: "keeps R ae h \<Longrightarrow> keeps R ae (for_method m h)"
  by (simp add: keeps_def for_method_def R_refl)

lemma keeps_body: "(\<And>v. keeps R ae (h v)) \<Longrightarrow> keeps R ae (with_body h)"
  by (simp add: keeps_def with_body_def R_refl split: sum.split)

lemma keeps_grant: "(\<And>r. keeps R ae (h r)) \<Longrightarrow> keeps R ae (with_grant s h)"
  by (simp add: keeps_def with_grant_def R_refl split: sum.split prod.split)

lemma keeps_refuse: "keeps R ae (refuse c m)"
  by (simp add: keeps_def refuse_def R_refl)

lemma keeps_compliance: "(\<And>r. keeps R ae (h r)) \<Longrightarrow> keeps R ae (compliance_handler m h)"
  unfolding compliance_handler_def by (intro keeps_method keeps_grant)

lemma keeps_body_of: "keeps R ae h \<Longrightarrow> keeps R ae (body_of f h)"
  by (simp add: keeps_def body_of_def split: prod.split) (metis snd_conv)

lemma keeps_by_method: "list_all (\<lambda>x. keeps R ae (snd x)) hs \<Longrightarrow> keeps R ae (by_method hs)"
  by (induction hs) (auto simp: keeps_def R_refl)

end

interpretation frame: state_relation dbs_audit
  by unfold_locales simp

interpretation sound: state_relation "sound_step sha G" for sha G
  by unfold_locales simp

lemmas frame_rules = frame.keeps_method frame.keeps_body frame.keeps_grant frame.keeps_refuse frame.keeps_compliance

lemma on_db_dbs: "on_plugin_db pe f st = (r, st') \<Longrightarrow> \<exists>dbs. st' = st\<lparr>ps_dbs := dbs\<rparr>"
  by (auto simp: on_plugin_db_def split: prod.splits)

lemma db_handler_keeps: "dbs_audit st (snd (db_handler f threw h ae st))"
  by (auto simp: db_handler_def dest!: on_db_dbs split: prod.split sum.split)

lemma dbs_audit_both: "audit_grows (ps_audit st) fs \<Longrightarrow> dbs_audit st (st\<lparr>ps_dbs := dbs, ps_audit := fs\<rparr>)"
  by (auto simp: dbs_audit_def)

lemma run_import_keeps:
  assumes "\<And>s. audit_grows (snd s) (snd (snd (f s)))"
  shows "keeps dbs_audit ae (run_import f)"
proof -
  have "audit_grows fs fs'" if "f (db, fs) = (out, db', fs')" for db fs out db' fs'
    using assms [of "(db, fs)"] that by simp
  then show ?thesis
    by (auto simp: keeps_def run_import_def Let_def intro!: dbs_audit_both split: prod.split)
qed

lemma reads_only: "(\<And>q st. snd (h ae q st) = st) \<Longrightarrow> keeps dbs_audit ae h"
  by (simp add: keeps_def)

lemma init_keeps: "keeps dbs_audit ae createTraInitHandler"
proof -
  have "dbs_audit st (snd (db_handler f t h ae (st\<lparr>ps_dbs := dbs\<rparr>)))" for st dbs f t h
    using db_handler_keeps [of "st\<lparr>ps_dbs := dbs\<rparr>" f t h ae] by (auto simp: dbs_audit_def)
  then show ?thesis
    unfolding createTraInitHandler_def
    by (intro frame_rules) (auto simp: keeps_def refuse_def Let_def split: option.split prod.split)
qed

lemma panel_keeps:
  "keeps dbs_audit ae createTraStatusHandler"
  "keeps dbs_audit ae createTraProfileSummaryHandler"
  "keeps dbs_audit ae createTraTablesHandler"
  "keeps dbs_audit ae createTraBrowseSubscriptionsHandler"
  "keeps dbs_audit ae createTraBrowseHandler"
  "keeps dbs_audit ae createTraLedgerHandler"
  unfolding createTraStatusHandler_def createTraProfileSummaryHandler_def createTraTablesHandler_def
    createTraBrowseSubscriptionsHandler_def createTraBrowseHandler_def createTraLedgerHandler_def
  by (intro frame_rules; auto simp: keeps_def refuse_def Let_def intro!: db_handler_keeps)+

lemma audit_handler_keeps: "keeps dbs_audit ae createTraAuditEventsHandler"
  unfolding createTraAuditEventsHandler_def
  by (intro frame_rules) (auto simp: keeps_def refuse_def with_grant_def Let_def split: option.split sum.split prod.split)

lemma keeps_at: "keeps R ae h \<Longrightarrow> R st (snd (h ae q st))"
  by (simp add: keeps_def)

lemma compliance_keeps:
  "keeps dbs_audit ae createCompliancePreviewHandler"
  "keeps dbs_audit ae createComplianceImportHandler"
  "keeps dbs_audit ae createComplianceStandardsHandler"
  "keeps dbs_audit ae createComplianceRulesHandler"
  "keeps dbs_audit ae (createComplianceImportBundledHandler seed)"
  unfolding createCompliancePreviewHandler_def createComplianceImportHandler_def
    createComplianceStandardsHandler_def createComplianceRulesHandler_def createComplianceImportBundledHandler_def
  by (intro frame_rules; auto simp: keeps_def refuse_def Let_def intro!: db_handler_keeps
      keeps_at [OF run_import_keeps] compliance_grows split: option.split sum.split)+

lemma reference_keeps:
  "keeps dbs_audit ae createReferencePreviewHandler"
  "keeps dbs_audit ae createReferenceSyncHandler"
  "keeps dbs_audit ae createReferenceStatusHandler"
  "keeps dbs_audit ae (createReferenceSyncBundledHandler seed)"
  unfolding createReferencePreviewHandler_def createReferenceSyncHandler_def
    createReferenceStatusHandler_def createReferenceSyncBundledHandler_def
  by (intro frame_rules; auto simp: keeps_def refuse_def Let_def intro!: db_handler_keeps
      keeps_at [OF run_import_keeps] sync_grows db_only_grows split: option.split sum.split)+

lemma device_keeps:
  "keeps dbs_audit ae createDevicePreviewHandler"
  "keeps dbs_audit ae createDeviceImportHandler"
  unfolding createDevicePreviewHandler_def createDeviceImportHandler_def
  by (intro frame_rules; auto simp: keeps_def refuse_def Let_def
      intro!: keeps_at [OF run_import_keeps] device_grows db_only_grows split: option.split sum.split)+

lemma on_registry_dbs: "on_registry b f pe st = (r, st') \<Longrightarrow> \<exists>dbs. st' = st\<lparr>ps_dbs := dbs\<rparr>"
  by (auto simp: on_registry_def Let_def split: prod.splits)

lemma registry_keeps:
  "keeps dbs_audit ae createDomainAgentsHandler"
  "keeps dbs_audit ae createDomainAgentsImportHandler"
  "keeps dbs_audit ae createDomainAgentsBundledMigrationHandler"
  "keeps dbs_audit ae createDomainAgentsBundledRegistryHandler"
  unfolding createDomainAgentsHandler_def createDomainAgentsImportHandler_def
    createDomainAgentsBundledMigrationHandler_def createDomainAgentsBundledRegistryHandler_def
  by (intro frame_rules; auto simp: keeps_def refuse_def Let_def dest!: on_registry_dbs
      split: option.split sum.split prod.split)+

subsection \<open>Sessions, grants and chats\<close>

lemma binding_ok: "session_ok ss \<Longrightarrow> setSessionAgentPackBinding ss d k i = Inr ss' \<Longrightarrow> session_ok ss'"
  by (rule set_binding_read(1))

lemma lock_ok: "session_ok ss \<Longrightarrow> setSessionAgentPackLock ss d k i = Inr ss' \<Longrightarrow> session_ok ss'"
  using read_ok [of ss d]
  by (auto simp: setSessionAgentPackLock_def Let_def file_ok_def intro!: write_ok nonblank_set
      split: if_splits prod.splits)

lemma clear_ok: "session_ok ss \<Longrightarrow> session_ok (clearSessionAgentPackBinding ss d k)"
  using read_ok [of ss d]
  by (auto simp: clearSessionAgentPackBinding_def Let_def file_ok_def intro!: write_ok nonblank_del
      split: prod.split)

lemma bind_ok: "session_ok ss \<Longrightarrow> session_ok (bind_session b ss d k i)"
  by (auto simp: bind_session_def intro: binding_ok split: sum.split)

lemma coordinator_ok: "session_ok ss \<Longrightarrow> session_ok (snd (resolveCoordinatorAgentPack g d p ss))"
  by (auto simp: resolveCoordinatorAgentPack_def Let_def intro: lock_ok bind_ok split: option.split sum.split)

lemma resolve_sound: "resolve_pack_with b pe k a q st = (r, st') \<Longrightarrow> sound_step sha G st st'"
  using coordinator_ok by (auto simp: resolve_pack_with_def sound_step_def split: sum.splits prod.splits) (metis snd_conv)+

lemma resolve_keeps_grants: "resolve_pack_with b pe k a q st = (r, st') \<Longrightarrow> \<exists>ss. st' = st\<lparr>ps_sessions := ss\<rparr>"
  by (auto simp: resolve_pack_with_def split: sum.splits prod.splits intro: exI [of _ "ps_sessions st"])

lemma run_chat_sound:
  assumes "run_chat ae g0 i r st = (out, st')"
  shows "sound_step (ae_sha ae) G st st'"
proof -
  let ?e = "chat_env_of ae g0" and ?o = "chat_options_of ae r"
  let ?c = "\<lparr>cs_db = ps_dbs st (plugin_db_path (ae_plugin ae)), cs_audit = ps_audit st, cs_ledger = ps_ledger st\<rparr>"
  obtain o1 cs where c: "runTrustclawChat ?e i ?o ?c = (o1, cs)" by (cases "runTrustclawChat ?e i ?o ?c")
  have "audit_grows (ps_audit st) (cs_audit cs)"
    using chat_audit.chat [where fs = "ps_audit st", OF _ c] by simp
  moreover have "\<forall>d. ledger_reachable (ae_sha ae) (cs_ledger cs d)" if "\<forall>d. ledger_reachable (ae_sha ae) (ps_ledger st d)"
    using chat_ledgers.chat [OF _ c] that by (simp add: chat_env_of_def Let_def)
  ultimately show ?thesis using assms c by (auto simp: run_chat_def Let_def sound_step_def)
qed

lemmas sound_rules = sound.keeps_method sound.keeps_body sound.keeps_grant sound.keeps_refuse

lemma keeps_sound: "keeps dbs_audit ae h \<Longrightarrow> keeps (sound_step sha G) ae h"
  by (simp add: keeps_def dbs_audit_sound)

lemma sound_sessions: "(session_ok (ps_sessions st) \<Longrightarrow> session_ok ss) \<Longrightarrow> sound_step sha G st (st\<lparr>ps_sessions := ss\<rparr>)"
  by (simp add: sound_step_def)

lemma session_keeps:
  "keeps (sound_step sha G) ae createSessionAgentPackGetHandler"
  "keeps (sound_step sha G) ae createSessionAgentPackPutHandler"
  "keeps (sound_step sha G) ae createSessionAgentPackDeleteHandler"
  unfolding createSessionAgentPackGetHandler_def createSessionAgentPackPutHandler_def
    createSessionAgentPackDeleteHandler_def
  by (intro sound_rules; auto simp: keeps_def refuse_def Let_def intro!: sound_sessions
      intro: resolve_sound binding_ok clear_ok split: option.split sum.split prod.split)+

text \<open>The registries a request may work with: the one that was loaded, none where loading failed.\<close>

definition registries_of :: "'e + 'r \<Rightarrow> 'r set" where
  "registries_of r = (case r of Inl _ \<Rightarrow> {} | Inr g \<Rightarrow> {g})"

lemma registries_of_simps [simp]: "registries_of (Inl e) = {}" "registries_of (Inr g) = {g}"
  by (simp_all add: registries_of_def)

lemma grants_keeps:
  assumes "registries_of (pe_registry (ae_plugin ae)) \<subseteq> G"
  shows "keeps (sound_step sha G) ae createAgentGrantsGetHandler"
    and "keeps (sound_step sha G) ae createAgentGrantsPutHandler"
proof -
  have "sound_step sha G st (st\<lparr>ps_grants := gs, ps_audit := recordAgentDomainGrantAudit t s p ss b (ps_audit st)\<rparr>)"
    if "setAgentDomainGrant (plugin_registry (ae_plugin ae)) now (ps_grants st) d p0 sc = Some (e, gs)"
      "pe_registry (ae_plugin ae) = Inr g" for st gs t s p ss b now d p0 sc e g
  proof -
    have "g \<in> G" using assms that(2) by simp
    with set_grants_below [of g now "ps_grants st" d p0 sc e gs G] that show ?thesis
      by (simp add: sound_step_def recordAgentDomainGrantAudit_def plugin_registry_def)
  qed
  then show "keeps (sound_step sha G) ae createAgentGrantsPutHandler"
    unfolding createAgentGrantsPutHandler_def
    by (intro sound_rules) (auto simp: keeps_def refuse_def Let_def split: option.split prod.split sum.split)
  show "keeps (sound_step sha G) ae createAgentGrantsGetHandler"
    unfolding createAgentGrantsGetHandler_def
    by (intro sound_rules) (auto simp: keeps_def Let_def split: sum.split)
qed

lemma chat_keeps: "keeps (sound_step (ae_sha ae) G) ae createAgentChatHandler"
proof -
  have "sound_step (ae_sha ae) G st st2"
    if "resolveBoundAgentPack pe k a p st = (r, st1)" "run_chat ae g0 i r0 st1 = (out, st2)" for st pe k a p r st1 g0 i r0 out st2
    using that resolve_sound run_chat_sound unfolding resolveBoundAgentPack_def by (blast intro: sound_trans)
  moreover have "sound_step (ae_sha ae) G st st1"
    if "resolveBoundAgentPack pe k a p st = (r, st1)" for st pe k a p r st1
    using that resolve_sound unfolding resolveBoundAgentPack_def by blast
  ultimately show ?thesis
    unfolding createAgentChatHandler_def
    by (intro sound_rules) (auto simp: keeps_def refuse_def Let_def
        split: option.split prod.split sum.split chat_result.split)
qed

lemma route_keeps:
  assumes "registries_of (pe_registry (ae_plugin ae)) \<subseteq> G" and "(path, h) \<in> set (plugin_routes a b)"
    and "path \<noteq> ''/api/tra/reset''"
  shows "keeps (sound_step (ae_sha ae) G) ae h"
proof -
  note frames = init_keeps panel_keeps audit_handler_keeps compliance_keeps reference_keeps device_keeps registry_keeps
  have "list_all (\<lambda>(p, h). p = ''/api/tra/reset'' \<or> keeps (sound_step (ae_sha ae) G) ae h) (plugin_routes a b)"
    unfolding plugin_routes_def
    by (simp add: sound.keeps_body_of sound.keeps_by_method keeps_sound frames session_keeps grants_keeps [OF assms(1)]
        chat_keeps)
  with assms(2,3) show ?thesis by (auto simp: list_all_iff)
qed

subsection \<open>Reset\<close>

lemma cleared_consent: "\<not> hasTraDataAccessGrant (clearTraDataAccessGrants st dir) dir s q"
  by (simp add: clearTraDataAccessGrants_def hasTraDataAccessGrant_def Let_def
      read_consent_written [of "[]"] obj_keys_def resolvePackEntry_def obj_get_def emptyPackEntry_def)

lemma cleared_grants:
  "gs_empty st = [] \<Longrightarrow> \<not> hasAgentDomainGrant reg now (clearAgentDomainGrants st dir) dir pack scope"
  by (simp add: clearAgentDomainGrants_def hasAgentDomainGrant_def getAgentDomainGrant_def listAgentDomainGrants_def
      readGrantFile_def grants_json_def nullish_def own_prop_def obj_get_def obj_entries_def)

definition no_personal_rows :: "tra_db \<Rightarrow> bool" where
  "no_personal_rows db \<longleftrightarrow>
     db_diagnoses db = [] \<and> db_medications db = [] \<and> db_labs db = [] \<and> db_body db = [] \<and>
     obj_get (db_prescription db) TRA_LOCAL_USER_ID = None \<and>
     TRA_LOCAL_USER_ID \<notin> us_user_id ` set (db_users db)"

lemma reset_db:
  assumes "resetTra sd ck h ov s = (r, s')" and "tr_error r = None"
  shows "no_personal_rows (s' (resolveTraDbPath ov h)) \<and>
     db_streams (s' (resolveTraDbPath ov h)) = db_streams (s (resolveTraDbPath ov h))"
  using assms
  by (auto simp: resetTra_def tra_outcome_def on_file_def bind_op_def update_op_def return_op_def Let_def
      clearTraPersonalData_def no_personal_rows_def kv_simps dest!: bootstrap_keeps split: prod.splits sum.splits)

text \<open>
  C11 -- a reset that is answered with 200 leaves no personal row of the local user in the plugin's
  database, an empty ledger, no consent for any session and pack, and one event in the audit trail, the
  reset itself; it keeps the measured streams and the sessions' bindings, and it leaves no grant if the
  module's empty grant file is still empty.
\<close>

theorem reset_clears_the_user:
  assumes run: "createTraResetHandler ae q st = (Reply 200 body, st')"
  shows "no_personal_rows (ps_dbs st' (resolveTraDbPath (db_override (ae_plugin ae)) (pe_host (ae_plugin ae)))) \<and>
    db_streams (ps_dbs st' (resolveTraDbPath (db_override (ae_plugin ae)) (pe_host (ae_plugin ae)))) =
      db_streams (ps_dbs st (resolveTraDbPath (db_override (ae_plugin ae)) (pe_host (ae_plugin ae)))) \<and>
    readEvidenceReceipts (ps_ledger st' (tp_evidenceDir (plugin_paths (ae_plugin ae)))) = [] \<and>
    (\<exists>e. audit_entries (ps_audit st' (tp_auditDir (plugin_paths (ae_plugin ae)))) = [e] \<and> ev_step e = TRA_RESET) \<and>
    (\<forall>s pack. \<not> hasTraDataAccessGrant (ps_consent st') (plugin_store_dir (ae_plugin ae)) s pack) \<and>
    ps_sessions st' = ps_sessions st \<and>
    (gs_empty (ps_grants st) = [] \<longrightarrow> (\<forall>pack scope. \<not> plugin_has_grant (ae_plugin ae) st' pack scope))"
proof -
  let ?pe = "ae_plugin ae"
  obtain r dbs where r: "resetTra (pe_seeds ?pe) (pe_clock ?pe) (pe_host ?pe) (db_override ?pe) (ps_dbs st) = (r, dbs)"
    by (cases "resetTra (pe_seeds ?pe) (pe_clock ?pe) (pe_host ?pe) (db_override ?pe) (ps_dbs st)")
  have ok: "tr_error r = None"
    using run r by (auto simp: createTraResetHandler_def for_method_def not_allowed_def Let_def split: if_splits)
  let ?cleared = "(ps_audit st)(tp_auditDir (plugin_paths ?pe) := clearAuditEvents (ps_audit st (tp_auditDir (plugin_paths ?pe))))"
  have "\<exists>e. audit_entries (snd (recordTraResetAudit (pe_rand ?pe) (pe_tick ?pe) (tp_auditDir (plugin_paths ?pe)) ?cleared)
      (tp_auditDir (plugin_paths ?pe))) = [e] \<and> ev_step e = TRA_RESET"
    by (simp add: recordTraResetAudit_def record_event_def new_recorder_def Let_def audit_log.entries_after_clear)
  then show ?thesis
    using run r ok reset_db [OF r ok]
    by (auto simp: createTraResetHandler_def for_method_def not_allowed_def Let_def plugin_has_grant_def
        cleared_consent cleared_grants ledger_log.entries_clear split: if_splits prod.splits)
qed

subsection \<open>Everything the plugin does\<close>

datatype plugin_event = EvRequest string | EvQueryTool | EvWriteTool | EvToolHook string | EvPrompt

text \<open>
  One step: a request to a path, a run of one of the tools, the hook before a tool call with the answer
  of the user it is then told, or the hook that adds the context of a prompt.  The registry \<open>rg\<close> is what
  loading it gives at that moment, a registry or the error.
\<close>

inductive plugin_step ::
  "(string \<Rightarrow> string) \<Rightarrow> pack_error + registry \<Rightarrow> plugin_event \<Rightarrow> plugin_state \<Rightarrow> plugin_state \<Rightarrow> bool" for sha rg where
  request: "ae_sha ae = sha \<Longrightarrow> pe_registry (ae_plugin ae) = rg \<Longrightarrow>
     plugin_request a b ae path q st = Some (ans, st') \<Longrightarrow> plugin_step sha rg (EvRequest path) st st'"
| query_tool: "ae_sha ae = sha \<Longrightarrow> pe_registry (ae_plugin ae) = rg \<Longrightarrow>
     createTrustclawTraQueryTool ae c = Some f \<Longrightarrow> f params st = (out, st') \<Longrightarrow> plugin_step sha rg EvQueryTool st st'"
| write_tool: "ae_sha ae = sha \<Longrightarrow> pe_registry (ae_plugin ae) = rg \<Longrightarrow>
     createTrustclawTraWriteTool ae c = Some f' \<Longrightarrow> f' params st = (out', st') \<Longrightarrow> plugin_step sha rg EvWriteTool st st'"
| hook: "createTrustclawTraDataConsentHook pe tool params c st = (r, st') \<Longrightarrow> plugin_step sha rg (EvToolHook tool) st st'"
| answer: "createTrustclawTraDataConsentHook pe tool params c st = (Inr (Some rp), st1) \<Longrightarrow> hp_approval rp = Some ap \<Longrightarrow>
     plugin_step sha rg (EvToolHook tool) st (notify ap res st1)"
| prompt: "buildTrustclawTraAgentGuidance ae messages k aid st = (gd, st') \<Longrightarrow> plugin_step sha rg EvPrompt st st'"

lemma on_db_sound: "on_plugin_db pe f st = (r, st') \<Longrightarrow> sound_step sha G st st'"
  by (auto dest!: on_db_dbs intro!: dbs_audit_sound)

lemma bound_sound: "resolveBoundAgentPack pe k a p st = (r, st') \<Longrightarrow> sound_step sha G st st'"
  unfolding resolveBoundAgentPack_def by (rule resolve_sound)

lemma query_tool_sound:
  assumes "createTrustclawTraQueryTool ae c = Some f" and "f params st = (out, st')"
  shows "sound_step (ae_sha ae) G st st'"
  using assms
  by (auto simp: createTrustclawTraQueryTool_def Let_def split: if_splits sum.splits prod.splits chat_result.splits
      intro: bound_sound sound_trans [OF bound_sound run_chat_sound])

lemma write_tool_sound:
  assumes "createTrustclawTraWriteTool ae c = Some f" and "f params st = (out, st')"
  shows "sound_step sha G st st'"
proof -
  have w: "sound_step sha G st1 (st1\<lparr>ps_dbs := dbs, ps_audit := fs\<rparr>)"
    if "executePersonalWrite ie run llm pr ts rq (db, ps_audit st1) = (o1, db1, fs)" for st1 ie run llm pr ts rq db o1 db1 fs dbs
    using personal_grows [of "(db, ps_audit st1)" ie run llm pr ts rq] that
    by (auto intro!: dbs_audit_sound dbs_audit_both)
  show ?thesis
    using assms
    by (auto simp: createTrustclawTraWriteTool_def Let_def split: if_splits sum.splits prod.splits
        intro: bound_sound sound_trans [OF bound_sound w])
qed

lemma hook_sound:
  assumes "createTrustclawTraDataConsentHook pe tool params c st = (r, st')"
  shows "sound_step sha G st st'"
  using assms
  by (auto simp: createTrustclawTraDataConsentHook_def split: if_splits sum.splits prod.splits
      intro: on_db_sound sound_trans [OF on_db_sound bound_sound])

lemma prompt_sound:
  assumes "buildTrustclawTraAgentGuidance ae ms k aid st = (gd, st')"
  shows "sound_step sha G st st'"
proof -
  have p: "sound_step sha G st st1" if "guidance_pack pe k aid st = (r, st1)" for pe r st1
    using that by (auto simp: guidance_pack_def intro: bound_sound resolve_sound split: option.splits if_splits)
  show ?thesis
    using assms
    by (auto simp: buildTrustclawTraAgentGuidance_def Let_def split: sum.splits prod.splits
        intro: p sound_trans [OF p on_db_sound])
qed

lemma recorded_sound: "sound_step sha G st (record_decision pe k p q fl gr b r st)"
  by (simp add: sound_step_def record_decision_def recordTraConsentAudit_def)

lemma notified_sound:
  assumes "createTrustclawTraDataConsentHook pe tool params c st = (Inr (Some rp), st1)" and "hp_approval rp = Some ap"
  shows "sound_step sha G st1 (notify ap res st1)"
  using assms recorded_sound
  by (auto simp: createTrustclawTraDataConsentHook_def consent_reply_def blocked_reply_def approval_reply_def notify_def
      split: if_splits sum.splits prod.splits)

inductive_cases request_stepE: "plugin_step sha rg (EvRequest path) st st'"

lemma request_route:
  "plugin_request a b ae path q st = Some (ans, st') \<longleftrightarrow>
     (\<exists>h. map_of (plugin_routes a b) path = Some h \<and> h ae q st = (ans, st'))"
  by (auto simp: plugin_request_def)

lemma request_sound:
  assumes "registries_of (pe_registry (ae_plugin ae)) \<subseteq> G" and "plugin_request a b ae path q st = Some (ans, st')"
    and "path \<noteq> ''/api/tra/reset''"
  shows "sound_step (ae_sha ae) G st st'"
proof -
  from assms(2) obtain h where h: "(path, h) \<in> set (plugin_routes a b)" "h ae q st = (ans, st')"
    unfolding request_route by (auto dest: map_of_SomeD)
  show ?thesis using keeps_at [OF route_keeps [OF assms(1) h(1) assms(3)], of st q] h(2) by simp
qed

lemma step_sound:
  assumes "plugin_step sha rg ev st st'" and "ev \<noteq> EvRequest ''/api/tra/reset''" and "registries_of rg \<subseteq> G"
  shows "sound_step sha G st st'"
  using assms
proof (cases rule: plugin_step.cases)
  case (answer pe tool params c rp st1 ap res)
  then show ?thesis
    using sound_trans [OF hook_sound [OF answer(3)] notified_sound [OF answer(3,4)]] by simp
qed (auto intro: request_sound query_tool_sound write_tool_sound hook_sound prompt_sound)

definition stores_ok :: "(string \<Rightarrow> string) \<Rightarrow> registry set \<Rightarrow> plugin_state \<Rightarrow> bool" where
  "stores_ok sha G st \<longleftrightarrow>
     (\<forall>d. ledger_reachable sha (ps_ledger st d)) \<and> session_ok (ps_sessions st) \<and> grants_below G (ps_grants st)"

lemma stores_ok_mono: "stores_ok sha G st \<Longrightarrow> G \<subseteq> H \<Longrightarrow> stores_ok sha H st"
  by (auto simp: stores_ok_def intro: grants_below_mono)

lemma sound_stores: "sound_step sha G st st' \<Longrightarrow> stores_ok sha G st \<Longrightarrow> stores_ok sha G st'"
  by (simp add: sound_step_def stores_ok_def)

lemma reset_route: "plugin_request a b ae ''/api/tra/reset'' q st = Some (body_of ResetBody createTraResetHandler ae q st)"
  by (simp add: plugin_request_def plugin_routes_def)

lemma reset_stores:
  assumes "createTraResetHandler ae q st = (ans, st')" and "stores_ok sha G st"
  shows "stores_ok sha G st'"
  using assms
  by (auto simp: createTraResetHandler_def for_method_def Let_def stores_ok_def
      intro!: ledger_reachable.clear clear_grants_below split: if_splits prod.splits)

lemma step_stores:
  assumes "plugin_step sha rg ev st st'" and "stores_ok sha G st" and "registries_of rg \<subseteq> G"
  shows "stores_ok sha G st'"
proof (cases "ev = EvRequest ''/api/tra/reset''")
  case True
  with assms(1) obtain a b ae q ans where "body_of ResetBody createTraResetHandler ae q st = (ans, st')"
    by (auto elim!: request_stepE simp: reset_route)
  then obtain r where "createTraResetHandler ae q st = (r, st')" by (auto simp: body_of_def split: prod.splits)
  then show ?thesis using assms(2) by (rule reset_stores)
next
  case False
  then show ?thesis using step_sound [OF assms(1) _ assms(3)] assms(2) sound_stores by blast
qed

text \<open>
  A process that starts with no ledger, no session file and no grants in memory.  Each step of the plugin
  works with the registry the module gives at that moment: the cached one, or the packs on disk read
  again.  Between the steps the pack routes change the packs and drop the cache, and the packs may be
  edited on disk.  The set \<open>G\<close> holds the registries that were in use so far.
\<close>

inductive process_reachable ::
  "(string \<Rightarrow> string) \<Rightarrow> registry set \<Rightarrow> plugin_state \<Rightarrow> pack_state \<Rightarrow> bool" for sha where
  start: "(\<forall>d. ps_ledger st d = None) \<Longrightarrow> ps_sessions st = fresh_sessions \<Longrightarrow> gs_empty (ps_grants st) = [] \<Longrightarrow>
     process_reachable sha {} st packs"
| step: "process_reachable sha G st (fs, cache) \<Longrightarrow> getAgentPackRegistry fs moduleDir opts cache = (rg, cache') \<Longrightarrow>
     plugin_step sha rg ev st st' \<Longrightarrow> process_reachable sha (registries_of rg \<union> G) st' (fs, cache')"
| packs: "process_reachable sha G st packs \<Longrightarrow> createAgentPacksHandler ke pathname q packs = (a, packs') \<Longrightarrow>
     process_reachable sha G st packs'"
| disk: "process_reachable sha G st (fs, cache) \<Longrightarrow> process_reachable sha G st (fs', cache)"

lemma reachable_stores: "process_reachable sha G st packs \<Longrightarrow> stores_ok sha G st"
proof (induction rule: process_reachable.induct)
  case (start st packs)
  then show ?case
    using fresh_ok by (simp add: stores_ok_def ledger_reachable.absent grants_below_def obj_get_def scopes_of_def)
next
  case (step G st fs cache moduleDir opts rg cache' ev st')
  have "stores_ok sha (registries_of rg \<union> G) st" using stores_ok_mono [OF step.IH] by simp
  with step_stores [OF step.hyps(3)] show ?case by simp
qed

text \<open>
  C3 -- whatever requests, pack API requests, tool calls, consent answers and prompts a process handles,
  in any order and while the packs on disk change: every evidence ledger verifies from its first receipt
  to its last, heights counting from zero; and a scope that is granted to a pack is one the pack's
  manifest in the registry \<open>g\<close> it is asked with allows.  The one exception is stated: with no readable
  grant file the grants held in memory count, which are not cut down again, so that such a scope may be
  one that only the manifest of a registry \<open>G\<close> in use earlier allowed.
\<close>

theorem plugin_stores_stay_sound:
  assumes "process_reachable sha G st packs"
  shows "verifyEvidenceChain sha (readEvidenceReceipts (ps_ledger st d)) = ChainOk \<and>
    map block_height (readEvidenceReceipts (ps_ledger st d)) =
      map int [0..<length (readEvidenceReceipts (ps_ledger st d))] \<and>
    (hasAgentDomainGrant (Some g) now (ps_grants st) dir pack scope \<longrightarrow>
       manifest_allows g (trim pack) scope \<or>
       (no_grant_file (ps_grants st) dir \<and> (\<exists>g'\<in>G. manifest_allows g' (trim pack) scope)))"
proof -
  have "ledger_inv sha (ps_ledger st d)" "grants_below G (ps_grants st)"
    using reachable_stores [OF assms] ledger_reachable_inv by (auto simp: stores_ok_def)
  then show ?thesis
    using granted_is_allowed by (auto simp: ledger_inv_def verify_chain_ok)
qed

text \<open>
  C10 -- the audit trail is append-only: every step of the plugin except a request to the reset route
  leaves what every audit directory held as a prefix of what it holds.
\<close>

theorem audit_trail_append_only:
  assumes "plugin_step sha rg ev st st'" and "ev \<noteq> EvRequest ''/api/tra/reset''"
  shows "prefix (audit_entries (ps_audit st d)) (audit_entries (ps_audit st' d))"
  using step_sound [OF assms subset_refl] by (simp add: sound_step_def audit_grows_def)

subsection \<open>Authorisation\<close>

text \<open>The scope each panel route asks for.\<close>

definition route_scopes :: "(string \<times> string) list" where
  "route_scopes =
     map (\<lambda>p. (''/api/tra/'' @ p, ''panel.compliance''))
       [''compliance/preview'', ''compliance/import'', ''compliance/import/bundled-glp1-v2'',
        ''compliance/standards'', ''compliance/rules'', ''reference/preview'', ''reference/sync'',
        ''reference/status'', ''reference/sync/bundled-glp1'', ''device/preview'', ''device/import''] @
     map (\<lambda>p. (''/api/tra/'' @ p, ''panel.browse'')) [''tables'', ''browse/subscriptions'', ''browse''] @
     [(''/api/tra/ledger'', ''panel.ledger''), (''/api/tra/audit/events'', ''panel.audit'')]"

definition refused :: "'a answer \<Rightarrow> bool" where
  "refused a \<longleftrightarrow> (\<exists>c m. a = Refuse c m)"

definition guarded :: "string \<Rightarrow> 'a handler \<Rightarrow> bool" where
  "guarded s h \<longleftrightarrow>
     (\<forall>ae q st. isl (requireAgentDomainGrant (ae_plugin ae) q s st) \<longrightarrow>
        refused (fst (h ae q st)) \<and> snd (h ae q st) = st)"

lemma refused_Refuse [simp]: "refused (Refuse c m)"
  by (simp add: refused_def)

lemma without_grant:
  "isl (requireAgentDomainGrant (ae_plugin ae) q s st) \<Longrightarrow>
     refused (fst (with_grant s h ae q st)) \<and> snd (with_grant s h ae q st) = st"
  by (auto simp: with_grant_def split: sum.split prod.split)

lemma guarded_grant: "guarded s (with_grant s h)"
  by (simp add: guarded_def without_grant)

lemma guarded_method: "guarded s h \<Longrightarrow> guarded s (for_method m h)"
  by (simp add: guarded_def for_method_def refused_def not_allowed_def)

lemma guarded_compliance: "guarded ''panel.compliance'' (compliance_handler m h)"
  unfolding compliance_handler_def by (intro guarded_method guarded_grant)

lemma refused_map: "refused (map_answer f a) = refused a"
  by (cases a) (simp_all add: refused_def)

lemma guarded_body_of: "guarded s h \<Longrightarrow> guarded s (body_of f h)"
  by (simp add: guarded_def body_of_def refused_map case_prod_beta)

lemma guarded_audit: "guarded ''panel.audit'' createTraAuditEventsHandler"
  unfolding createTraAuditEventsHandler_def
  by (intro guarded_method)
    (simp add: guarded_def refuse_def without_grant Let_def split: option.split)

lemma guarded_handlers:
  "guarded ''panel.compliance'' createCompliancePreviewHandler"
  "guarded ''panel.compliance'' createComplianceImportHandler"
  "guarded ''panel.compliance'' createComplianceStandardsHandler"
  "guarded ''panel.compliance'' createComplianceRulesHandler"
  "guarded ''panel.compliance'' (createComplianceImportBundledHandler seed)"
  "guarded ''panel.compliance'' createReferencePreviewHandler"
  "guarded ''panel.compliance'' createReferenceSyncHandler"
  "guarded ''panel.compliance'' createReferenceStatusHandler"
  "guarded ''panel.compliance'' (createReferenceSyncBundledHandler seed)"
  "guarded ''panel.compliance'' createDevicePreviewHandler"
  "guarded ''panel.compliance'' createDeviceImportHandler"
  "guarded ''panel.browse'' createTraTablesHandler"
  "guarded ''panel.browse'' createTraBrowseSubscriptionsHandler"
  "guarded ''panel.browse'' createTraBrowseHandler"
  "guarded ''panel.ledger'' createTraLedgerHandler"
  unfolding createCompliancePreviewHandler_def createComplianceImportHandler_def
    createComplianceStandardsHandler_def createComplianceRulesHandler_def createComplianceImportBundledHandler_def
    createReferencePreviewHandler_def createReferenceSyncHandler_def createReferenceStatusHandler_def
    createReferenceSyncBundledHandler_def createDevicePreviewHandler_def createDeviceImportHandler_def
    createTraTablesHandler_def createTraBrowseSubscriptionsHandler_def createTraBrowseHandler_def
    createTraLedgerHandler_def
  by (rule guarded_compliance | rule guarded_method, rule guarded_grant)+

lemma routes_guarded:
  "list_all (\<lambda>(path, s). \<exists>h. map_of (plugin_routes a b) path = Some h \<and> guarded s h) route_scopes"
  unfolding route_scopes_def plugin_routes_def
  by (simp add: guarded_body_of guarded_handlers guarded_audit)

text \<open>
  C4 -- a panel route answers only for a pack the registry knows and the user has granted the route's
  scope: any other request is refused and changes nothing, whatever its method and body.
\<close>

theorem panel_routes_authorised:
  assumes "(path, scope) \<in> set route_scopes" and "plugin_request a b ae path q st = Some (ans, st')"
    and "\<not> refused ans \<or> st' \<noteq> st"
  shows "\<exists>g i r. pe_registry (ae_plugin ae) = Inr g \<and> readAgentPackIdFromRequest q = Some i \<and>
     get_pack g i = Some r \<and> plugin_has_grant (ae_plugin ae) st (ap_id (rv_doc r)) scope"
proof -
  obtain h where h: "map_of (plugin_routes a b) path = Some h" "guarded scope h"
    using routes_guarded [of a b] assms(1) by (auto simp: list_all_iff)
  then have run: "h ae q st = (ans, st')" using assms(2) by (simp add: plugin_request_def)
  show ?thesis
  proof (cases "requireAgentDomainGrant (ae_plugin ae) q scope st")
    case (Inl e)
    then have "isl (requireAgentDomainGrant (ae_plugin ae) q scope st)" by simp
    then have "refused (fst (h ae q st)) \<and> snd (h ae q st) = st" using h(2) unfolding guarded_def by blast
    then show ?thesis using run assms(3) by simp
  next
    case (Inr r)
    then show ?thesis using guard_passes by blast
  qed
qed

subsection \<open>Browsing\<close>

text \<open>What SQLite does with the \<open>LIMIT\<close> of a statement.\<close>

definition honours_limit :: "sql_query \<Rightarrow> bool" where
  "honours_limit query \<longleftrightarrow>
     (\<forall>t n db columns rows. 0 \<le> n \<longrightarrow> query (trim (browse_sql t n)) db = Inr (columns, rows) \<longrightarrow>
        int (length rows) \<le> n)"

lemma browse_limit_range: "1 \<le> browse_limit q \<and> browse_limit q \<le> 500"
  by (simp add: browse_limit_def Let_def)

lemma query_rows:
  assumes "queryTra query sd ck (browse_sql t n) db = (Inr res, db')" and "honours_limit query" and "0 \<le> n"
  shows "int (qr_row_count res) \<le> n"
  using assms
  by (auto simp: queryTra_def bind_op_Inr executeTraSelect_def honours_limit_def assertReadOnlySelectSql_def Let_def
      split: sum.splits prod.splits if_splits)

text \<open>
  Browsing answers at most 500 rows, whatever limit the request asks for, and only of a table the
  granted pack declares as readable and whose name is a plain word.
\<close>

theorem browse_is_bounded:
  assumes limit: "honours_limit (ae_query ae)" and run: "createTraBrowseHandler ae q st = (Reply c body, st')"
  shows "qr_row_count (bb_result body) \<le> 500 \<and> plain_name (bb_table body) \<and>
    (\<exists>r. requireAgentDomainGrant (ae_plugin ae) q ''panel.browse'' st = Inr r \<and>
       bb_table body \<in> set (resolveAgentBrowseTables (rv_doc r)))"
proof -
  obtain r table res db db' where r: "requireAgentDomainGrant (ae_plugin ae) q ''panel.browse'' st = Inr r"
      "table \<in> set (resolveAgentBrowseTables (rv_doc r))" "plain_name table" "bb_table body = table"
      "queryTra (ae_query ae) (pe_seeds (ae_plugin ae)) (pe_clock (ae_plugin ae)) (browse_sql table (browse_limit q)) db
         = (Inr res, db')" "bb_result body = res"
    using run
    by (auto simp: createTraBrowseHandler_def for_method_def not_allowed_def with_grant_def refuse_def db_handler_def
        on_plugin_db_def on_file_def bind_op_Inr Let_def split: if_splits sum.splits prod.splits option.splits)
  have "int (qr_row_count res) \<le> 500"
    using query_rows [OF r(5) limit] browse_limit_range [of q] by linarith
  then show ?thesis using r by auto
qed

subsection \<open>A concrete plugin\<close>

definition demo_api :: api_env where
  "demo_api =
     \<lparr>ae_plugin = demo_plugin, ae_sha = (\<lambda>s. s), ae_parse_ast = (\<lambda>_. None),
      ae_query = (\<lambda>_ _. Inr ([''id''], [])), ae_run = demo_run, ae_llm = (\<lambda>_. None),
      ae_web = \<lparr>wb_url = (\<lambda>_. None), wb_fetch = (\<lambda>_. None)\<rparr>, ae_device_prompt = (\<lambda>_. []),
      ae_write_prompt = (\<lambda>m p t ts. m), ae_files = [], ae_module_dir = ''/x'', ae_default_template = [],
      ae_write_template = [], ae_default_schema = [], ae_schema = (\<lambda>_. []),
      ae_chat_tick = (\<lambda>_. \<lparr>tk_id = ''1'', tk_now_ms = 1000\<rparr>), ae_commit_ms = 1000, ae_duration = 1,
      ae_now_ms = 1000, ae_lineage = \<lparr>le_columns = (\<lambda>_ _. []), le_sources = (\<lambda>_ _. [])\<rparr>,
      ae_bundled = (\<lambda>_. None)\<rparr>"

definition demo_get :: "(string \<times> string) list \<Rightarrow> http_request" where
  "demo_get ps = \<lparr>hr_method = Some ''GET'', hr_query = ps, hr_header = (\<lambda>_. None), hr_chunks = []\<rparr>"

lemma demo_methods:
  "methodIs (demo_get ps) ''GET''" "methodIs (demo_pack_request ''POST'') ''POST''"
  by (simp_all add: methodIs_def demo_get_def demo_pack_request_def) code_simp+

definition panel_state :: plugin_state where
  "panel_state = demo_plugin_state\<lparr>ps_grants := \<lparr>gs_empty =
     [(''p-1'', \<lparr>ge_granted_at = Fin 0, ge_scopes = [''panel.ledger'', ''panel.browse'']\<rparr>)], gs_files = (\<lambda>_. None)\<rparr>\<rparr>"

lemma demo_panel_grant:
  "requireAgentDomainGrant demo_plugin (demo_get ((''agentPackId'', ''p-1'') # ps)) s panel_state = Inr demo_resolved
     \<longleftrightarrow> s \<in> {''panel.ledger'', ''panel.browse''}"
  by (simp add: requireAgentDomainGrant_def readAgentPackIdFromRequest_def query_get_def demo_get_def trim_opt_def
      trim_plain demo_plugin_def plugin_has_grant_def plugin_registry_def get_pack_def demo_registry_def obj_get_def
      demo_resolved_def demo_pack_def hasAgentDomainGrant_def getAgentDomainGrant_def listAgentDomainGrants_def
      readGrantFile_def panel_state_def)

lemma panel_routes_authorised_witness:
  "\<exists>b. plugin_request ''/s1'' ''/s2'' demo_api ''/api/tra/ledger'' (demo_get [(''agentPackId'', ''p-1'')]) panel_state =
     Some (Reply 200 b, panel_state) \<and> plugin_has_grant demo_plugin panel_state ''p-1'' ''panel.ledger''"
proof -
  have g: "requireAgentDomainGrant (ae_plugin demo_api) (demo_get [(''agentPackId'', ''p-1'')]) ''panel.ledger'' panel_state =
      Inr demo_resolved"
    using demo_panel_grant [of "[]" "''panel.ledger''"] by (simp add: demo_api_def)
  obtain b where run: "plugin_request ''/s1'' ''/s2'' demo_api ''/api/tra/ledger'' (demo_get [(''agentPackId'', ''p-1'')])
      panel_state = Some (Reply 200 b, panel_state)"
    using g by (simp add: plugin_request_def plugin_routes_def body_of_def createTraLedgerHandler_def for_method_def
        demo_methods with_grant_def Let_def)
  have "(''/api/tra/ledger'', ''panel.ledger'') \<in> set route_scopes" by (simp add: route_scopes_def)
  from panel_routes_authorised [OF this run] obtain r where "get_pack demo_registry ''p-1'' = Some r"
      "plugin_has_grant demo_plugin panel_state (ap_id (rv_doc r)) ''panel.ledger''"
    by (auto simp: demo_api_def demo_plugin_def readAgentPackIdFromRequest_def query_get_def demo_get_def trim_opt_def
        trim_plain refused_def)
  then show ?thesis
    using run by (auto simp: get_pack_def demo_registry_def obj_get_def demo_resolved_def demo_pack_def)
qed

lemma demo_reset:
  "\<exists>body st'. createTraResetHandler demo_api (demo_pack_request ''POST'') demo_plugin_state = (Reply 200 body, st')"
proof -
  obtain d where "bootstrapTraDatabase demo_seeds demo_clock mounted_db =
      (Inr (), (seedNrdlGlp1RulesIfEmpty mounted_db)\<lparr>db_domain := d\<rparr>)"
    using demo_boot_any [OF mounted_domain] by blast
  then show ?thesis
    by (simp add: createTraResetHandler_def for_method_def demo_methods Let_def resetTra_def tra_outcome_def on_file_def
        bind_op_def update_op_def return_op_def demo_api_def demo_plugin_def demo_plugin_state_def split: prod.split)
qed

lemma reset_clears_the_user_witness:
  "\<exists>body st'. createTraResetHandler demo_api (demo_pack_request ''POST'') demo_plugin_state = (Reply 200 body, st') \<and>
     no_personal_rows (ps_dbs st' (resolveTraDbPath (db_override demo_plugin) (pe_host demo_plugin)))"
proof -
  obtain body st' where "createTraResetHandler demo_api (demo_pack_request ''POST'') demo_plugin_state = (Reply 200 body, st')"
    using demo_reset by blast
  from this reset_clears_the_user [OF this] show ?thesis by (auto simp: demo_api_def)
qed

lemma demo_step:
  "\<exists>r st'. createTrustclawTraDataConsentHook demo_plugin TRUSTCLAW_TRA_QUERY_TOOL (JObj []) demo_ctx
     (demo_plugin_state\<lparr>ps_grants := fresh_grants\<rparr>) = (r, st')"
  by (cases "createTrustclawTraDataConsentHook demo_plugin TRUSTCLAW_TRA_QUERY_TOOL (JObj []) demo_ctx
     (demo_plugin_state\<lparr>ps_grants := fresh_grants\<rparr>)") blast

lemma plugin_stores_stay_sound_witness:
  "\<exists>st. process_reachable (\<lambda>s. s) {demo_registry} st ([], Some demo_registry) \<and>
     verifyEvidenceChain (\<lambda>s. s) (readEvidenceReceipts (ps_ledger st ''/e'')) = ChainOk"
proof -
  let ?st = "demo_plugin_state\<lparr>ps_grants := fresh_grants\<rparr>"
  have s: "process_reachable (\<lambda>s. s) {} ?st ([], Some demo_registry)"
    by (rule process_reachable.start) (simp_all add: demo_plugin_state_def fresh_grants_def)
  have r: "getAgentPackRegistry [] ''/m'' \<lparr>ro_agentsDir = None, ro_defaultPackId = None\<rparr> (Some demo_registry) =
      (Inr demo_registry, Some demo_registry)"
    by (simp add: getAgentPackRegistry_def opt_truthy_def)
  obtain st where "plugin_step (\<lambda>s. s) (Inr demo_registry) (EvToolHook TRUSTCLAW_TRA_QUERY_TOOL) ?st st"
    using demo_step by (blast intro: plugin_step.hook)
  from process_reachable.step [OF s r this]
  have "process_reachable (\<lambda>s. s) {demo_registry} st ([], Some demo_registry)" by simp
  with plugin_stores_stay_sound [OF this, of "''/e''"] show ?thesis by blast
qed

lemma audit_trail_append_only_witness:
  "\<exists>st'. plugin_step (\<lambda>s. s) (Inr demo_registry) (EvToolHook TRUSTCLAW_TRA_QUERY_TOOL)
       (demo_plugin_state\<lparr>ps_grants := fresh_grants\<rparr>) st' \<and>
     prefix (audit_entries (ps_audit (demo_plugin_state\<lparr>ps_grants := fresh_grants\<rparr>) ''/a'')) (audit_entries (ps_audit st' ''/a''))"
proof -
  obtain st' where st': "plugin_step (\<lambda>s. s) (Inr demo_registry) (EvToolHook TRUSTCLAW_TRA_QUERY_TOOL)
       (demo_plugin_state\<lparr>ps_grants := fresh_grants\<rparr>) st'" using demo_step by (blast intro: plugin_step.hook)
  with audit_trail_append_only [OF st', of "''/a''"] show ?thesis by blast
qed

lemma demo_honours_limit: "honours_limit (ae_query demo_api)"
  by (simp add: honours_limit_def demo_api_def)

lemma browse_is_bounded_witness:
  "\<exists>body st'. createTraBrowseHandler demo_api (demo_get [(''agentPackId'', ''p-1''), (''table'', ''users'')]) panel_state =
     (Reply 200 body, st') \<and> qr_row_count (bb_result body) \<le> 500"
proof -
  let ?q = "demo_get [(''agentPackId'', ''p-1''), (''table'', ''users'')]"
  have g: "requireAgentDomainGrant (ae_plugin demo_api) ?q ''panel.browse'' panel_state = Inr demo_resolved"
    using demo_panel_grant [of "[(''table'', ''users'')]" "''panel.browse''"] by (simp add: demo_api_def)
  obtain d where d: "bootstrapTraDatabase demo_seeds demo_clock mounted_db =
      (Inr (), (seedNrdlGlp1RulesIfEmpty mounted_db)\<lparr>db_domain := d\<rparr>)"
    using demo_boot_any [OF mounted_domain] by blast
  have t: "trim ''users'' = ''users''" "plain_name ''users''" "browse_limit ?q = 100"
    "assertReadOnlySelectSql (browse_sql ''users'' 100) = Inr ''SELECT * FROM users LIMIT 100''"
    unfolding demo_get_def by code_simp+
  have dbs: "ps_dbs panel_state p = mounted_db" for p by (simp add: panel_state_def demo_plugin_state_def)
  have r: "''users'' \<in> set (resolveAgentBrowseTables (rv_doc demo_resolved))"
    by (simp add: resolveAgentBrowseTables_def demo_resolved_def demo_pack_def)
  have q: "query_get ?q ''table'' = Some ''users''" by (simp add: query_get_def demo_get_def)
  have env: "ae_plugin demo_api = demo_plugin" "pe_seeds demo_plugin = demo_seeds" "pe_clock demo_plugin = demo_clock"
    "ae_query demo_api = (\<lambda>_ _. Inr ([''id''], []))"
    by (simp_all add: demo_api_def demo_plugin_def)
  obtain body st' where run: "createTraBrowseHandler demo_api ?q panel_state = (Reply 200 body, st')"
    using g d t r q dbs
    by (simp add: createTraBrowseHandler_def for_method_def demo_methods with_grant_def env db_handler_def Let_def
        on_plugin_db_def on_file_def bind_op_def queryTra_def executeTraSelect_def)
  with browse_is_bounded [OF demo_honours_limit run] show ?thesis by blast
qed

end
