(* ===== verification/Security_Path.thy ===== *)
theory Security_Path
  imports JS_Base
begin

text \<open>
  The path security of the gateway (src/src/gateway/security-path.ts, the path context of
  plugin routes in server/plugins-http/path-context.ts, the normal form of a route path in
  src/src/plugins/http-path.ts and the overlap test of http-route-overlap.ts).

  A request path is decoded up to 32 times and every intermediate form is kept as a
  candidate, so that the guards see each path a later consumer could arrive at.  Of the
  language the theory models \<open>decodeURIComponent\<close> (percent escapes that must form UTF-8) and
  the part of \<open>new URL\<close> that resolves a path; \<open>au\<close> is the URL class on a reference that
  names a scheme or a host of its own (its path, None when it throws).
\<close>

subsection \<open>decodeURIComponent\<close>

definition hex_val :: "char \<Rightarrow> nat option" where
  "hex_val c =
     (if chr_in c 48 57 then Some (of_char c - 48)
      else if chr_in c 65 70 then Some (of_char c - 55)
      else if chr_in c 97 102 then Some (of_char c - 87)
      else None)"

text \<open>The bytes of a text, each with the mark that it was written as an escape.\<close>

definition percent :: char where "percent = CHR ''%''"

definition hex_byte :: "char \<Rightarrow> char \<Rightarrow> nat option" where
  "hex_byte h l =
     (case hex_val h of None \<Rightarrow> None | Some a \<Rightarrow> map_option (\<lambda>b. 16 * a + b) (hex_val l))"

fun escapes :: "string \<Rightarrow> (bool \<times> nat) list option" where
  "escapes [] = Some []"
| "escapes (c # s) =
     (if c = percent then
        (case s of
           h # l # r \<Rightarrow>
             (case hex_byte h l of
                None \<Rightarrow> None
              | Some b \<Rightarrow> map_option (Cons (True, b)) (escapes r))
         | _ \<Rightarrow> None)
      else map_option (Cons (False, of_char c)) (escapes s))"

definition cont_byte :: "nat \<Rightarrow> bool" where
  "cont_byte b \<longleftrightarrow> 128 \<le> b \<and> b \<le> 191"

text \<open>The second byte of a well-formed sequence of more than two bytes depends on the first.\<close>

definition second_ok :: "nat \<Rightarrow> nat \<Rightarrow> bool" where
  "second_ok a b \<longleftrightarrow> cont_byte b \<and> (a = 224 \<longrightarrow> 160 \<le> b) \<and> (a = 237 \<longrightarrow> b < 160) \<and>
     (a = 240 \<longrightarrow> 144 \<le> b) \<and> (a = 244 \<longrightarrow> b < 144)"

definition tail_len :: "nat \<Rightarrow> nat" where
  "tail_len a =
     (if 194 \<le> a \<and> a \<le> 223 then 1 else if 224 \<le> a \<and> a \<le> 239 then 2
      else if 240 \<le> a \<and> a \<le> 244 then 3 else 0)"

definition tail_ok :: "nat \<Rightarrow> (bool \<times> nat) list \<Rightarrow> bool" where
  "tail_ok a w \<longleftrightarrow> tail_len a \<noteq> 0 \<and> length w = tail_len a \<and> list_all fst w \<and>
     second_ok a (snd (hd w)) \<and> list_all cont_byte (map snd w)"

fun octets :: "(bool \<times> nat) list \<Rightarrow> nat list option" where
  "octets [] = Some []"
| "octets ((e, a) # ts) =
     (if \<not> e \<or> a < 128 then map_option (Cons a) (octets ts)
      else (let w = take (tail_len a) ts in
        if tail_ok a w then map_option (\<lambda>s. a # map snd w @ s) (octets (drop (tail_len a) ts))
        else None))"

definition decodeURIComponent :: "string \<Rightarrow> string option" where
  "decodeURIComponent s =
     (case escapes s of
        None \<Rightarrow> None
      | Some ts \<Rightarrow> map_option (map char_of) (octets ts))"

subsection \<open>The path of a URL\<close>

definition strip_controls :: "string \<Rightarrow> string" where
  "strip_controls s =
     (let blank = (\<lambda>c. (of_char c :: nat) \<le> 32)
      in filter (\<lambda>c. \<not> chr_in c 9 10 \<and> \<not> chr_in c 13 13)
           (rev (dropWhile blank (rev (dropWhile blank s)))))"

definition is_slash :: "char \<Rightarrow> bool" where
  "is_slash c \<longleftrightarrow> c = CHR ''/'' \<or> c = CHR 0x5C"

definition scheme_char :: "char \<Rightarrow> bool" where
  "scheme_char c \<longleftrightarrow> is_alpha c \<or> is_digit c \<or> c = CHR ''+'' \<or> c = CHR ''-'' \<or> c = CHR ''.''"

definition has_scheme :: "string \<Rightarrow> bool" where
  "has_scheme s \<longleftrightarrow>
     s \<noteq> [] \<and> is_alpha (hd s) \<and> (case dropWhile scheme_char s of c # _ \<Rightarrow> c = CHR '':'' | [] \<Rightarrow> False)"

definition names_host :: "string \<Rightarrow> bool" where
  "names_host s \<longleftrightarrow> (case s of a # b # _ \<Rightarrow> is_slash a \<and> is_slash b | _ \<Rightarrow> False)"

definition hex_digit :: "nat \<Rightarrow> char" where
  "hex_digit n = (if n < 10 then char_of (n + 48) else char_of (n + 55))"

text \<open>The path percent-encode set of the URL standard.\<close>

definition encode_char :: "char \<Rightarrow> string" where
  "encode_char c =
     (let n = of_char c in
      if n \<le> 32 \<or> 126 < n \<or> n \<in> {34, 35, 60, 62, 63, 94, 96, 123, 125}
      then [percent, hex_digit (n div 16), hex_digit (n mod 16)] else [c])"

definition encode_path :: "string \<Rightarrow> string" where
  "encode_path s = concat (map encode_char s)"

definition dot_seg :: "string \<Rightarrow> bool" where
  "dot_seg s \<longleftrightarrow> to_lower s \<in> set [''.'', ''%2e'']"

definition dot_dot_seg :: "string \<Rightarrow> bool" where
  "dot_dot_seg s \<longleftrightarrow> to_lower s \<in> set [''..'', ''.%2e'', ''%2e.'', ''%2e%2e'']"

fun url_segs :: "string list \<Rightarrow> string list \<Rightarrow> string list" where
  "url_segs acc [] = acc"
| "url_segs acc [s] =
     (if dot_dot_seg s then butlast acc @ [[]]
      else if dot_seg s then acc @ [[]] else acc @ [encode_path s])"
| "url_segs acc (s # t # ss) =
     url_segs (if dot_dot_seg s then butlast acc
               else if dot_seg s then acc else acc @ [encode_path s]) (t # ss)"

definition unbackslash :: "string \<Rightarrow> string" where
  "unbackslash s = map (\<lambda>c. if c = CHR 0x5C then CHR ''/'' else c) s"

definition url_pathname :: "(string \<Rightarrow> string option) \<Rightarrow> string \<Rightarrow> string option" where
  "url_pathname au pathname =
     (let s = strip_controls pathname in
      if has_scheme s \<or> names_host s then au s
      else (let p = unbackslash (takeWhile (\<lambda>c. c \<noteq> CHR ''?'' \<and> c \<noteq> CHR ''#'') s);
                rest = (case p of c # r \<Rightarrow> if c = CHR ''/'' then r else p | [] \<Rightarrow> [])
            in Some (CHR ''/'' # join ''/'' (url_segs [] (split_on (CHR ''/'') rest)))))"

subsection \<open>Canonical candidates\<close>

definition MAX_PATH_DECODE_PASSES :: nat where "MAX_PATH_DECODE_PASSES = 32"

fun collapse :: "string \<Rightarrow> string" where
  "collapse (a # b # s) =
     (if a = CHR ''/'' \<and> b = CHR ''/'' then collapse (b # s) else a # collapse (b # s))"
| "collapse s = s"

definition normalizePathSeparators :: "string \<Rightarrow> string" where
  "normalizePathSeparators p =
     (let c = collapse p in
      if length c \<le> 1 then c else rev (dropWhile (\<lambda>x. x = CHR ''/'') (rev c)))"

definition slash_if_empty :: "string \<Rightarrow> string" where
  "slash_if_empty s = (if s = [] then ''/'' else s)"

definition normalizeProtectedPrefix :: "string \<Rightarrow> string" where
  "normalizeProtectedPrefix p = slash_if_empty (normalizePathSeparators (to_lower (trim p)))"

definition resolveDotSegments :: "(string \<Rightarrow> string option) \<Rightarrow> string \<Rightarrow> string" where
  "resolveDotSegments au p = (case url_pathname au p of Some q \<Rightarrow> q | None \<Rightarrow> p)"

definition normalizePathForSecurity :: "(string \<Rightarrow> string option) \<Rightarrow> string \<Rightarrow> string" where
  "normalizePathForSecurity au p = normalizeProtectedPrefix (resolveDotSegments au p)"

definition pushNormalizedCandidate ::
  "(string \<Rightarrow> string option) \<Rightarrow> string list \<Rightarrow> string \<Rightarrow> string list" where
  "pushNormalizedCandidate au cs v =
     (let n = normalizePathForSecurity au v in if n \<in> set cs then cs else cs @ [n])"

record canonical =
  cn_candidates :: "string list"
  cn_passes :: nat
  cn_limit :: bool
  cn_malformed :: bool

text \<open>
  The decoding loop: \<open>n\<close> passes are left; the result is the last decoded text with the
  candidates, the number of passes that changed it, and whether decoding threw.
\<close>

fun decode_loop ::
  "(string \<Rightarrow> string option) \<Rightarrow> nat \<Rightarrow> string \<Rightarrow> string list \<Rightarrow> nat \<Rightarrow> string \<times> string list \<times> nat \<times> bool" where
  "decode_loop au 0 d cs k = (d, cs, k, False)"
| "decode_loop au (Suc n) d cs k =
     (case decodeURIComponent d of
        None \<Rightarrow> (d, cs, k, True)
      | Some d' \<Rightarrow>
          if d' = d then (d, cs, k, False)
          else decode_loop au n d' (pushNormalizedCandidate au cs d') (Suc k))"

definition buildCanonicalPathCandidates ::
  "(string \<Rightarrow> string option) \<Rightarrow> nat \<Rightarrow> string \<Rightarrow> canonical" where
  "buildCanonicalPathCandidates au maxDecodePasses pathname =
     (case decode_loop au maxDecodePasses pathname (pushNormalizedCandidate au [] pathname) 0 of
        (d, cs, k, bad) \<Rightarrow>
          \<lparr>cn_candidates = cs, cn_passes = k,
           cn_limit = (\<not> bad \<and> decodeURIComponent d \<noteq> None \<and> decodeURIComponent d \<noteq> Some d),
           cn_malformed = (bad \<or> decodeURIComponent d = None)\<rparr>)"

definition last_or_slash :: "string list \<Rightarrow> string" where
  "last_or_slash cs = (if cs = [] then ''/'' else last cs)"

definition canonicalizePathVariant :: "(string \<Rightarrow> string option) \<Rightarrow> string \<Rightarrow> string" where
  "canonicalizePathVariant au p =
     last_or_slash (cn_candidates (buildCanonicalPathCandidates au MAX_PATH_DECODE_PASSES p))"

definition prefixMatch :: "string \<Rightarrow> string \<Rightarrow> bool" where
  "prefixMatch p pre \<longleftrightarrow> p = pre \<or> starts_with p (pre @ ''/'') \<or> starts_with p (pre @ ''%'')"

subsection \<open>The path context of a request, and the protected prefixes\<close>

record path_context =
  px_pathname :: string
  px_canonical :: string
  px_candidates :: "string list"
  px_malformed :: bool
  px_limit :: bool
  px_raw :: string

text \<open>\<open>canonicalizePathForSecurity\<close>, kept as the context that \<open>resolvePluginRoutePathContext\<close> copies.\<close>

definition resolvePluginRoutePathContext ::
  "(string \<Rightarrow> string option) \<Rightarrow> string \<Rightarrow> path_context" where
  "resolvePluginRoutePathContext au p =
     (let c = buildCanonicalPathCandidates au MAX_PATH_DECODE_PASSES p
      in \<lparr>px_pathname = p, px_canonical = last_or_slash (cn_candidates c),
          px_candidates = cn_candidates c, px_malformed = cn_malformed c, px_limit = cn_limit c,
          px_raw = normalizeProtectedPrefix p\<rparr>)"

definition PROTECTED_PLUGIN_ROUTE_PREFIXES :: "string list" where
  "PROTECTED_PLUGIN_ROUTE_PREFIXES = [''/api/channels'']"

definition any_prefix :: "string list \<Rightarrow> string \<Rightarrow> bool" where
  "any_prefix pres p \<longleftrightarrow> list_ex (\<lambda>pre. prefixMatch p (normalizeProtectedPrefix pre)) pres"

definition isPathProtectedByPrefixes ::
  "(string \<Rightarrow> string option) \<Rightarrow> string \<Rightarrow> string list \<Rightarrow> bool" where
  "isPathProtectedByPrefixes au p pres =
     (let c = resolvePluginRoutePathContext au p in
      if list_ex (any_prefix pres) (px_candidates c) then True
      else if px_limit c then True
      else if \<not> px_malformed c then False
      else any_prefix pres (px_raw c))"

definition isProtectedPluginRoutePath :: "(string \<Rightarrow> string option) \<Rightarrow> string \<Rightarrow> bool" where
  "isProtectedPluginRoutePath au p =
     isPathProtectedByPrefixes au p PROTECTED_PLUGIN_ROUTE_PREFIXES"

definition isProtectedPluginRoutePathFromContext :: "path_context \<Rightarrow> bool" where
  "isProtectedPluginRoutePathFromContext c =
     (if list_ex (any_prefix PROTECTED_PLUGIN_ROUTE_PREFIXES) (px_candidates c) then True
      else if \<not> px_malformed c then False
      else any_prefix PROTECTED_PLUGIN_ROUTE_PREFIXES (px_raw c))"

subsection \<open>Route paths and their overlap\<close>

definition lead_slash :: "string \<Rightarrow> string" where
  "lead_slash s = (if starts_with s ''/'' then s else CHR ''/'' # s)"

definition normalizePluginHttpPath :: "string option \<Rightarrow> string option \<Rightarrow> string option" where
  "normalizePluginHttpPath path fallback =
     (case trim_opt path of
        None \<Rightarrow> map_option lead_slash (trim_opt fallback)
      | Some t \<Rightarrow> Some (lead_slash t))"

datatype route_match = MatchExact | MatchPrefix

definition doPluginHttpRoutesOverlap ::
  "(string \<Rightarrow> string option) \<Rightarrow> string \<times> route_match \<Rightarrow> string \<times> route_match \<Rightarrow> bool" where
  "doPluginHttpRoutesOverlap au a b =
     (let aPath = canonicalizePathVariant au (fst a); bPath = canonicalizePathVariant au (fst b) in
      case (snd a, snd b) of
        (MatchExact, MatchExact) \<Rightarrow> aPath = bPath
      | (MatchPrefix, MatchPrefix) \<Rightarrow> prefixMatch aPath bPath \<or> prefixMatch bPath aPath
      | (MatchPrefix, MatchExact) \<Rightarrow> prefixMatch bPath aPath
      | (MatchExact, MatchPrefix) \<Rightarrow> prefixMatch aPath bPath)"

subsection \<open>Decoding shortens a text\<close>

lemma escapes_length:
  "escapes s = Some ts \<Longrightarrow> length s = length ts + 2 * length (filter fst ts)"
proof (induction s arbitrary: ts rule: escapes.induct)
  case (2 c s)
  then show ?case
    by (auto split: if_splits list.splits option.splits)
qed simp

lemma escapes_plain:
  "escapes s = Some ts \<Longrightarrow> filter fst ts = [] \<Longrightarrow> map snd ts = (map of_char s :: nat list)"
proof (induction s arbitrary: ts rule: escapes.induct)
  case (2 c s)
  show ?case
  proof (cases "c = percent")
    case True
    with 2 have False by (simp split: list.splits option.splits) auto
    then show ?thesis ..
  next
    case False
    with 2(3) obtain us where us: "escapes s = Some us" "ts = (False, of_char c) # us" by auto
    with 2(4) have "map snd us = (map of_char s :: nat list)"
      by (intro 2(2) [OF False]) simp_all
    with us show ?thesis by simp
  qed
qed simp

lemma octets_length: "octets ts = Some bs \<Longrightarrow> length bs = length ts"
  by (induction ts arbitrary: bs rule: octets.induct)
     (auto simp: Let_def tail_ok_def split: if_splits)

lemma octets_plain: "filter fst ts = [] \<Longrightarrow> octets ts = Some (map snd ts)"
  by (induction ts rule: octets.induct) (auto split: if_splits)

lemma decode_shortens:
  assumes "decodeURIComponent s = Some t" "t \<noteq> s"
  shows "length t + 2 \<le> length s"
proof -
  obtain ts bs where ts: "escapes s = Some ts" and bs: "octets ts = Some bs" and t: "t = map char_of bs"
    using assms(1) by (auto simp: decodeURIComponent_def split: option.splits)
  have "filter fst ts \<noteq> []"
  proof
    assume plain: "filter fst ts = []"
    then have "bs = map of_char s"
      using octets_plain [OF plain] bs escapes_plain [OF ts plain] by simp
    then have "t = s" using t by (simp add: comp_def)
    with assms(2) show False ..
  qed
  then show ?thesis
    using escapes_length [OF ts] octets_length [OF bs] t
    by (cases "filter fst ts") auto
qed

subsection \<open>What the candidates cover\<close>

text \<open>\<open>decodes k s\<close> is the text after \<open>k\<close> decodings, None when one of them throws.\<close>

fun decodes :: "nat \<Rightarrow> string \<Rightarrow> string option" where
  "decodes 0 s = Some s"
| "decodes (Suc k) s = (case decodeURIComponent s of None \<Rightarrow> None | Some t \<Rightarrow> decodes k t)"

lemma decodes_add:
  "decodes (j + k) s = (case decodes j s of None \<Rightarrow> None | Some t \<Rightarrow> decodes k t)"
  by (induction j arbitrary: s) (auto split: option.splits)

lemma decodes_fixed: "decodeURIComponent s = Some s \<Longrightarrow> decodes k s = Some s"
  by (induction k) auto

lemma push_candidate:
  "set (pushNormalizedCandidate au cs v) = insert (normalizePathForSecurity au v) (set cs)"
  "distinct cs \<Longrightarrow> distinct (pushNormalizedCandidate au cs v)"
  "length (pushNormalizedCandidate au cs v) \<le> Suc (length cs)"
  "pushNormalizedCandidate au cs v \<noteq> []"
  by (auto simp: pushNormalizedCandidate_def Let_def)

text \<open>The invariant of the decoding loop started on \<open>d\<close> with the candidates \<open>cs\<close>.\<close>

definition decoded_from ::
  "(string \<Rightarrow> string option) \<Rightarrow> string \<Rightarrow> string list \<Rightarrow> nat \<Rightarrow> string \<Rightarrow> string list \<Rightarrow> bool" where
  "decoded_from au d cs m e cs' \<longleftrightarrow>
     decodes m d = Some e \<and> length e + 2 * m \<le> length d \<and>
     (\<forall>j\<le>m. \<exists>t. decodes j d = Some t \<and> (j = 0 \<or> normalizePathForSecurity au t \<in> set cs')) \<and>
     set cs \<subseteq> set cs' \<and> (distinct cs \<longrightarrow> distinct cs') \<and> length cs' \<le> length cs + m"

lemma decoded_from_refl: "decoded_from au d cs 0 d cs"
  by (simp add: decoded_from_def)

lemma decoded_from_step:
  assumes dec: "decodeURIComponent d = Some d'" "d' \<noteq> d"
    and rest: "decoded_from au d' (pushNormalizedCandidate au cs d') m e cs'"
  shows "decoded_from au d cs (Suc m) e cs'"
proof -
  note r = rest [unfolded decoded_from_def]
  have "\<exists>t. decodes j d = Some t \<and> (j = 0 \<or> normalizePathForSecurity au t \<in> set cs')"
    if "j \<le> Suc m" for j
  proof (cases j)
    case (Suc i)
    with that have "i \<le> m" by simp
    then obtain t where t: "decodes i d' = Some t" "i = 0 \<or> normalizePathForSecurity au t \<in> set cs'"
      using r by blast
    have "normalizePathForSecurity au t \<in> set cs'"
      using t r push_candidate(1) [of au cs d'] by (cases "i = 0") auto
    with t Suc dec show ?thesis by simp
  qed simp
  moreover have "length cs' \<le> length cs + Suc m"
    using r push_candidate(3) [of au cs d'] by linarith
  ultimately show ?thesis
    using r dec decode_shortens [OF dec] push_candidate(1) [of au cs d'] push_candidate(2) [of cs au d']
    by (auto simp: decoded_from_def)
qed

lemma decode_loop_spec:
  assumes "decode_loop au n d cs k = (e, cs', k', bad)"
  shows "\<exists>m. k' = k + m \<and> m \<le> n \<and> decoded_from au d cs m e cs' \<and>
           (bad \<longrightarrow> decodeURIComponent e = None) \<and>
           (\<not> bad \<longrightarrow> m = n \<or> decodeURIComponent e = Some e)"
  using assms
proof (induction n arbitrary: d cs k)
  case 0
  then show ?case by (auto intro: decoded_from_refl)
next
  case (Suc n)
  show ?case
  proof (cases "decodeURIComponent d")
    case None
    with Suc.prems show ?thesis by (auto intro!: exI [of _ 0] decoded_from_refl)
  next
    case (Some d')
    show ?thesis
    proof (cases "d' = d")
      case True
      with Some Suc.prems show ?thesis by (auto intro!: exI [of _ 0] decoded_from_refl)
    next
      case False
      with Some Suc.prems
      have "decode_loop au n d' (pushNormalizedCandidate au cs d') (Suc k) = (e, cs', k', bad)" by simp
      from Suc.IH [OF this] obtain m where
        "k' = Suc k + m" "m \<le> n" "decoded_from au d' (pushNormalizedCandidate au cs d') m e cs'"
        "bad \<longrightarrow> decodeURIComponent e = None"
        "\<not> bad \<longrightarrow> m = n \<or> decodeURIComponent e = Some e" by blast
      then show ?thesis
        using decoded_from_step [OF Some False] by (intro exI [of _ "Suc m"]) auto
    qed
  qed
qed

lemma build_candidates_spec:
  assumes "buildCanonicalPathCandidates au n p = c"
  obtains m e where "m \<le> n" "cn_passes c = m" "decodes m p = Some e" "length e + 2 * m \<le> length p"
    "\<forall>j\<le>m. \<exists>t. decodes j p = Some t \<and> normalizePathForSecurity au t \<in> set (cn_candidates c)"
    "distinct (cn_candidates c)" "cn_candidates c \<noteq> []" "length (cn_candidates c) \<le> Suc n"
    "cn_malformed c \<longleftrightarrow> decodeURIComponent e = None"
    "cn_limit c \<longrightarrow> m = n \<and> decodeURIComponent e \<noteq> None \<and> decodeURIComponent e \<noteq> Some e"
    "\<not> cn_limit c \<and> \<not> cn_malformed c \<longrightarrow> decodeURIComponent e = Some e"
proof -
  let ?cs = "pushNormalizedCandidate au [] p"
  obtain e cs' k bad where loop: "decode_loop au n p ?cs 0 = (e, cs', k, bad)"
    by (cases "decode_loop au n p ?cs 0") auto
  from decode_loop_spec [OF loop] obtain m where m: "k = m" "m \<le> n" "decoded_from au p ?cs m e cs'"
    "bad \<longrightarrow> decodeURIComponent e = None" "\<not> bad \<longrightarrow> m = n \<or> decodeURIComponent e = Some e"
    by auto
  have c: "cn_candidates c = cs'" "cn_passes c = m"
    "cn_limit c = (\<not> bad \<and> decodeURIComponent e \<noteq> None \<and> decodeURIComponent e \<noteq> Some e)"
    "cn_malformed c = (bad \<or> decodeURIComponent e = None)"
    using assms loop m(1) by (auto simp: buildCanonicalPathCandidates_def)
  note d = m(3) [unfolded decoded_from_def]
  have all: "\<forall>j\<le>m. \<exists>t. decodes j p = Some t \<and> normalizePathForSecurity au t \<in> set cs'"
  proof (intro allI impI)
    fix j assume "j \<le> m"
    then show "\<exists>t. decodes j p = Some t \<and> normalizePathForSecurity au t \<in> set cs'"
      using d push_candidate(1) [of au "[]" p] by (cases "j = 0") auto
  qed
  have "cs' \<noteq> []" using d push_candidate(1) [of au "[]" p] by auto
  moreover have "length cs' \<le> Suc n"
    using d m(2) push_candidate(3) [of au "[]" p] by simp
  moreover have "distinct cs'" using d push_candidate(2) [of "[]" au p] by simp
  moreover have "\<not> (\<not> bad \<and> decodeURIComponent e \<noteq> None \<and> decodeURIComponent e \<noteq> Some e) \<and>
      \<not> (bad \<or> decodeURIComponent e = None) \<longrightarrow> decodeURIComponent e = Some e"
    by blast
  moreover have "bad \<or> decodeURIComponent e = None \<longleftrightarrow> decodeURIComponent e = None"
    using m(4) by blast
  moreover have "\<not> bad \<and> decodeURIComponent e \<noteq> None \<and> decodeURIComponent e \<noteq> Some e \<longrightarrow>
      m = n \<and> decodeURIComponent e \<noteq> None \<and> decodeURIComponent e \<noteq> Some e"
    using m(5) by blast
  ultimately show ?thesis
    using m(2) d all by - (rule that [of m e], unfold c, blast+)
qed

lemma decodes_covered:
  assumes "buildCanonicalPathCandidates au n p = c" "\<not> cn_limit c" "decodes k p = Some t"
  shows "normalizePathForSecurity au t \<in> set (cn_candidates c)"
proof -
  obtain m e where m: "m \<le> n" "cn_passes c = m" "decodes m p = Some e"
    "\<forall>j\<le>m. \<exists>t. decodes j p = Some t \<and> normalizePathForSecurity au t \<in> set (cn_candidates c)"
    "cn_malformed c \<longleftrightarrow> decodeURIComponent e = None"
    "\<not> cn_limit c \<and> \<not> cn_malformed c \<longrightarrow> decodeURIComponent e = Some e"
    by (rule build_candidates_spec [OF assms(1)])
  show ?thesis
  proof (cases "k \<le> m")
    case True
    with m(4) assms(3) show ?thesis by force
  next
    case False
    then obtain i where k: "k = m + Suc i" by (auto dest!: less_imp_Suc_add simp: not_le)
    show ?thesis
    proof (cases "cn_malformed c")
      case True
      with decodes_add [of m "Suc i" p] k m(3,5) assms(3) show ?thesis by simp
    next
      case False
      with m(6) assms(2) have "decodeURIComponent e = Some e" by blast
      with decodes_add [of m "Suc i" p] k m(3) assms(3) have "t = e" by (simp add: decodes_fixed)
      with m(3,4) show ?thesis by force
    qed
  qed
qed

lemma guard_from_context:
  "isProtectedPluginRoutePath au p \<longleftrightarrow>
     px_limit (resolvePluginRoutePathContext au p) \<or>
     isProtectedPluginRoutePathFromContext (resolvePluginRoutePathContext au p)"
  by (auto simp: isProtectedPluginRoutePath_def isPathProtectedByPrefixes_def Let_def
      isProtectedPluginRoutePathFromContext_def)

lemma unprotected_candidates:
  assumes "\<not> isProtectedPluginRoutePathFromContext (resolvePluginRoutePathContext au p)"
    and "\<not> px_limit (resolvePluginRoutePathContext au p)" and "decodes k p = Some t"
  shows "\<not> any_prefix PROTECTED_PLUGIN_ROUTE_PREFIXES (normalizePathForSecurity au t)"
proof -
  have "normalizePathForSecurity au t \<in> set (px_candidates (resolvePluginRoutePathContext au p))"
    using decodes_covered [OF refl _ assms(3), of au MAX_PATH_DECODE_PASSES] assms(2)
    by (simp add: resolvePluginRoutePathContext_def Let_def)
  with assms(1) show ?thesis
    by (auto simp: isProtectedPluginRoutePathFromContext_def list_ex_iff split: if_splits)
qed

subsection \<open>Properties\<close>

text \<open>
  C20 -- Canonicalising a path of the gateway takes at most 32 decodings, each of which
  removes at least two bytes, and gives between one and 33 distinct candidates; a path
  shorter than 66 bytes is always decoded to the end.
\<close>

theorem decoding_is_bounded:
  "\<exists>c x. c = buildCanonicalPathCandidates au MAX_PATH_DECODE_PASSES p \<and>
     x = resolvePluginRoutePathContext au p \<and>
     cn_passes c \<le> 32 \<and> 2 * cn_passes c \<le> length p \<and>
     px_candidates x \<noteq> [] \<and> distinct (px_candidates x) \<and> length (px_candidates x) \<le> 33 \<and>
     (length p < 66 \<longrightarrow> \<not> px_limit x)"
proof -
  let ?c = "buildCanonicalPathCandidates au MAX_PATH_DECODE_PASSES p"
  obtain m e where m: "m \<le> MAX_PATH_DECODE_PASSES" "cn_passes ?c = m" "length e + 2 * m \<le> length p"
    "distinct (cn_candidates ?c)" "cn_candidates ?c \<noteq> []"
    "length (cn_candidates ?c) \<le> Suc MAX_PATH_DECODE_PASSES"
    "cn_limit ?c \<longrightarrow> m = MAX_PATH_DECODE_PASSES \<and> decodeURIComponent e \<noteq> None \<and>
       decodeURIComponent e \<noteq> Some e"
    by (rule build_candidates_spec [OF refl])
  have "\<not> cn_limit ?c" if "length p < 66"
  proof
    assume "cn_limit ?c"
    with m(7) obtain t where "m = 32" "decodeURIComponent e = Some t" "t \<noteq> e"
      by (auto simp: MAX_PATH_DECODE_PASSES_def)
    with decode_shortens [of e t] m(3) that show False by simp
  qed
  with m show ?thesis
    by (simp add: resolvePluginRoutePathContext_def Let_def MAX_PATH_DECODE_PASSES_def)
qed

text \<open>
  C19 -- A path that the guard of the protected routes lets pass never becomes a path below
  /api/channels, however often a later consumer decodes it before it resolves the dot
  segments and the separators.
\<close>

theorem unguarded_path_stays_unprotected:
  assumes "\<not> isProtectedPluginRoutePath au p" and "decodes k p = Some t"
  shows "\<not> any_prefix PROTECTED_PLUGIN_ROUTE_PREFIXES (normalizePathForSecurity au t)"
  using assms by (auto simp: guard_from_context dest: unprotected_candidates)

subsection \<open>Witnesses\<close>

lemma any_protected_prefix:
  "any_prefix PROTECTED_PLUGIN_ROUTE_PREFIXES p \<longleftrightarrow>
     p = ''/api/channels'' \<or> starts_with p ''/api/channels/'' \<or> starts_with p ''/api/channels%''"
proof -
  have "normalizeProtectedPrefix ''/api/channels'' = ''/api/channels''" by code_simp
  then show ?thesis
    by (simp add: any_prefix_def PROTECTED_PLUGIN_ROUTE_PREFIXES_def prefixMatch_def)
qed

definition no_url :: "string \<Rightarrow> string option" where "no_url s = None"

lemma decoding_is_bounded_witness:
  "\<not> px_limit (resolvePluginRoutePathContext no_url ''/a%2525'')"
  using decoding_is_bounded [of no_url "''/a%2525''"] by simp

lemma context_twice_encoded:
  "resolvePluginRoutePathContext no_url ''/a%252Fb'' =
     \<lparr>px_pathname = ''/a%252Fb'', px_canonical = ''/a/b'',
      px_candidates = [''/a%252fb'', ''/a%2fb'', ''/a/b''],
      px_malformed = False, px_limit = False, px_raw = ''/a%252fb''\<rparr>"
  by code_simp

lemma unguarded_path_stays_unprotected_witness:
  "\<not> any_prefix PROTECTED_PLUGIN_ROUTE_PREFIXES (normalizePathForSecurity no_url ''/a/b'')"
proof (rule unguarded_path_stays_unprotected [where p = "''/a%252Fb''" and k = 2])
  have "list_ex (any_prefix PROTECTED_PLUGIN_ROUTE_PREFIXES) [''/a%252fb'', ''/a%2fb'', ''/a/b''] = False"
    by (simp add: any_protected_prefix starts_with_def)
  then show "\<not> isProtectedPluginRoutePath no_url ''/a%252Fb''"
    by (simp only: guard_from_context context_twice_encoded isProtectedPluginRoutePathFromContext_def
        path_context.select_convs if_False not_False_eq_True if_True simp_thms)
  show "decodes 2 ''/a%252Fb'' = Some ''/a/b''" by code_simp
qed

end
