(* ===== verification/Plain_Path.thy ===== *)
theory Plain_Path
  imports Security_Path
begin

text \<open>
  Plain paths, the ones plugins register: segments of small letters, digits and dashes.  The
  canonicalisation leaves them as they are, so that a request for one has that path as its
  only candidate.
\<close>

definition plain_char :: "char \<Rightarrow> bool" where
  "plain_char c \<longleftrightarrow> chr_in c 97 122 \<or> chr_in c 48 57 \<or> chr_in c 45 45"

definition plain_path :: "string \<Rightarrow> bool" where
  "plain_path p \<longleftrightarrow>
     (case split_on (CHR ''/'') p of
        [] # w # ws \<Rightarrow> list_all (\<lambda>s. s \<noteq> [] \<and> list_all plain_char s) (w # ws)
      | _ \<Rightarrow> False)"

lemma split_on_chars: "c \<in> set s \<Longrightarrow> c \<noteq> d \<Longrightarrow> \<exists>w\<in>set (split_on d s). c \<in> set w"
  by (induction s) (auto split: list.splits)

lemma plain_path_shape:
  assumes "plain_path p"
  obtains r where "p = CHR ''/'' # r" "r \<noteq> []"
    "\<forall>w\<in>set (split_on (CHR ''/'') r). w \<noteq> [] \<and> (\<forall>c\<in>set w. plain_char c)"
    "\<forall>c\<in>set p. c = CHR ''/'' \<or> plain_char c"
proof (cases p)
  case Nil
  with assms show ?thesis by (simp add: plain_path_def)
next
  case (Cons c r)
  have c: "c = CHR ''/''"
    using assms Cons by (auto simp: plain_path_def split: list.splits if_splits)
  have ws: "\<forall>w\<in>set (split_on (CHR ''/'') r). w \<noteq> [] \<and> (\<forall>c\<in>set w. plain_char c)"
    using assms Cons c by (auto simp: plain_path_def list_all_iff split: list.splits)
  moreover have "r \<noteq> []" using ws by auto
  moreover have "\<forall>c\<in>set p. c = CHR ''/'' \<or> plain_char c"
    using split_on_chars [of _ r "CHR ''/''"] ws Cons c by fastforce
  ultimately show ?thesis using that Cons c by blast
qed

lemma plain_char_code: "plain_char c \<Longrightarrow> 45 \<le> (of_char c :: nat) \<and> (of_char c :: nat) \<le> 122 \<and>
   \<not> (46 \<le> (of_char c :: nat) \<and> (of_char c :: nat) \<le> 47) \<and> \<not> (58 \<le> (of_char c :: nat) \<and> (of_char c :: nat) \<le> 96)"
  by (auto simp: plain_char_def chr_in_def)


lemma plain_text_decoded:
  assumes "percent \<notin> set s"
  shows "decodeURIComponent s = Some s"
proof -
  have e: "escapes s = Some (map (\<lambda>c. (False, of_char c)) s)"
    using assms by (induction s rule: escapes.induct) auto
  have "octets (map (\<lambda>c. (False, of_char c)) s) = Some (map of_char s)"
    by (subst octets_plain) (simp_all add: comp_def filter_empty_conv)
  with e show ?thesis by (simp add: decodeURIComponent_def comp_def)
qed

lemma plain_char_other:
  assumes "plain_char c"
  shows "c \<noteq> percent" "c \<noteq> CHR ''/''" "c \<noteq> CHR 0x5C" "c \<noteq> CHR ''?''" "c \<noteq> CHR ''#''" "c \<noteq> CHR ''.''"
  using assms by (auto simp: plain_char_def chr_in_def percent_def)

lemma plain_char_same:
  assumes "plain_char c"
  shows "lower_char c = c" "encode_char c = [c]"
  using plain_char_code [OF assms] by (auto simp: lower_char_def chr_in_def encode_char_def Let_def)

lemma plain_seg:
  assumes "\<forall>c\<in>set w. plain_char c"
  shows "to_lower w = w" "encode_path w = w" "\<not> dot_seg w" "\<not> dot_dot_seg w"
proof -
  show low: "to_lower w = w"
    using assms plain_char_same(1) by (auto simp: to_lower_def intro!: map_idI)
  have "encode_path w = concat (map (\<lambda>c. [c]) w)"
    using assms plain_char_same(2) unfolding encode_path_def by (metis (mono_tags, lifting) map_cong)
  then show "encode_path w = w" by simp
  have no: "CHR ''%'' \<notin> set w" "CHR ''.'' \<notin> set w"
    using assms plain_char_other(1,6) by (auto simp: percent_def)
  have "w \<noteq> ''.'' \<and> w \<noteq> ''%2e'' \<and> w \<noteq> ''..'' \<and> w \<noteq> ''.%2e'' \<and> w \<noteq> ''%2e.'' \<and> w \<noteq> ''%2e%2e''"
    by (intro conjI notI; use no in simp)
  then show "\<not> dot_seg w" "\<not> dot_dot_seg w"
    unfolding dot_seg_def dot_dot_seg_def low by simp_all
qed

lemma plain_url_segs:
  "\<forall>w\<in>set ws. \<forall>c\<in>set w. plain_char c \<Longrightarrow> url_segs acc ws = acc @ ws"
  by (induction acc ws rule: url_segs.induct) (auto simp: plain_seg)

lemma plain_no_blank: "c = CHR ''/'' \<or> plain_char c \<Longrightarrow> 45 \<le> (of_char c :: nat) \<and> (of_char c :: nat) \<le> 122"
  using plain_char_code [of c] by auto

lemma plain_url:
  assumes "plain_path p"
  shows "url_pathname au p = Some p"
proof -
  obtain r where r: "p = CHR ''/'' # r" "r \<noteq> []"
    "\<forall>w\<in>set (split_on (CHR ''/'') r). w \<noteq> [] \<and> (\<forall>c\<in>set w. plain_char c)"
    "\<forall>c\<in>set p. c = CHR ''/'' \<or> plain_char c"
    by (rule plain_path_shape [OF assms])
  have big: "\<forall>c\<in>set p. 45 \<le> (of_char c :: nat)" using r(4) plain_no_blank by blast
  have fst_ok: "dropWhile (\<lambda>c. (of_char c :: nat) \<le> 32) p = p"
    using big r(1) by (subst dropWhile_eq_self_iff) auto
  have "dropWhile (\<lambda>c. (of_char c :: nat) \<le> 32) (rev p) = rev p"
    using big r(1) hd_in_set [of "rev p"] by (subst dropWhile_eq_self_iff) fastforce
  moreover have "filter (\<lambda>c. \<not> chr_in c 9 10 \<and> \<not> chr_in c 13 13) p = p"
    using big by (auto simp: chr_in_def intro!: filter_True)
  ultimately have strip: "strip_controls p = p"
    using fst_ok by (simp add: strip_controls_def Let_def)
  obtain a t where a: "r = a # t" using r(2) by (cases r) auto
  have "a \<noteq> CHR ''/''" using r(3) a by auto
  moreover have "a = CHR ''/'' \<or> plain_char a" using r(1,4) a by simp
  ultimately have "\<not> is_slash a" using plain_char_other(2,3) [of a] by (simp add: is_slash_def)
  then have host: "\<not> names_host p" using r(1) a by (simp add: names_host_def)
  have scheme: "\<not> has_scheme p" using r(1) by (simp add: has_scheme_def is_alpha_def chr_in_def)
  have ends: "c \<noteq> CHR ''?'' \<and> c \<noteq> CHR ''#'' \<and> c \<noteq> CHR 0x5C" if "c \<in> set p" for c
    using r(4) that plain_char_other(3,4,5) [of c] by auto
  have take_all: "takeWhile (\<lambda>c. c \<noteq> CHR ''?'' \<and> c \<noteq> CHR ''#'') p = p"
    using ends by (simp add: takeWhile_eq_all_conv)
  have slashes: "unbackslash p = p"
    unfolding unbackslash_def by (rule map_idI) (use ends in auto)
  have "url_segs [] (split_on (CHR ''/'') r) = split_on (CHR ''/'') r"
    using plain_url_segs [of "split_on (CHR ''/'') r" "[]"] r(3) by simp
  moreover have "url_pathname au p =
      Some (CHR ''/'' # join ''/'' (url_segs [] (split_on (CHR ''/'')
        (case p of c # r \<Rightarrow> if c = CHR ''/'' then r else p | [] \<Rightarrow> []))))"
    by (simp only: url_pathname_def Let_def strip take_all slashes host scheme simp_thms if_False)
  ultimately show ?thesis
    using join_split [of "CHR ''/''" r] r(1) by simp
qed

lemma collapse_id: "\<not> (\<exists>a b. s = a @ CHR ''/'' # CHR ''/'' # b) \<Longrightarrow> collapse s = s"
proof (induction s rule: collapse.induct)
  case (1 a b s)
  then have "\<not> (a = CHR ''/'' \<and> b = CHR ''/'')" by (metis append_Nil)
  moreover have "\<not> (\<exists>c d. b # s = c @ CHR ''/'' # CHR ''/'' # d)"
    using 1(3) by (metis append_Cons)
  ultimately show ?case using 1(2) by auto
qed simp_all

lemma plain_no_double:
  assumes "plain_path p"
  shows "\<not> (\<exists>a b. p = a @ CHR ''/'' # CHR ''/'' # b)" "last p \<noteq> CHR ''/''"
proof -
  obtain w ws where s: "split_on (CHR ''/'') p = [] # w # ws" "[] \<notin> set (w # ws)"
    using assms by (auto simp: plain_path_def list_all_iff split: list.splits)
  show "\<not> (\<exists>a b. p = a @ CHR ''/'' # CHR ''/'' # b)"
  proof
    assume "\<exists>a b. p = a @ CHR ''/'' # CHR ''/'' # b"
    then obtain a b where "p = a @ CHR ''/'' # CHR ''/'' # b" by blast
    then have "split_on (CHR ''/'') p = split_on (CHR ''/'') a @ [] # split_on (CHR ''/'') b"
      by (simp add: split_on_append)
    then have "[] \<in> set (tl (split_on (CHR ''/'') p))"
      by (cases "split_on (CHR ''/'') a") auto
    with s show False by simp
  qed
  show "last p \<noteq> CHR ''/''"
  proof
    assume l: "last p = CHR ''/''"
    have "p \<noteq> []" using s by auto
    with l have "p = butlast p @ CHR ''/'' # []" by (metis append_butlast_last_id)
    then have "split_on (CHR ''/'') p = split_on (CHR ''/'') (butlast p) @ [[]]"
      by (metis split_on.simps(1) split_on_append)
    then have "[] \<in> set (tl (split_on (CHR ''/'') p))"
      by (cases "split_on (CHR ''/'') (butlast p)") auto
    with s show False by simp
  qed
qed

lemma first_tok_plain:
  assumes "45 \<le> (of_char c :: nat) \<and> (of_char c :: nat) \<le> 122"
  shows "first_tok ws_tokens (c # s) = None" "first_tok (map rev ws_tokens) (c # s) = None"
  using assms by (auto simp: first_tok_None ws_tokens_def)

lemma plain_trim:
  assumes "plain_path p"
  shows "trim p = p"
proof -
  obtain r where r: "p = CHR ''/'' # r" "\<forall>c\<in>set p. c = CHR ''/'' \<or> plain_char c"
    by (rule plain_path_shape [OF assms])
  have "trim_start p = p"
    unfolding trim_start_def r(1) by (rule strip_id, rule first_tok_plain) simp
  moreover obtain c s where c: "rev p = c # s" using r(1) by (cases "rev p") auto
  then have "c \<in> set p" by (metis list.set_intros(1) set_rev)
  then have "first_tok (map rev ws_tokens) (rev p) = None"
    unfolding c using r(2) plain_no_blank by (intro first_tok_plain) blast
  then have "trim_end p = p" by (simp add: trim_end_def strip_id)
  ultimately show ?thesis by (simp add: trim_def)
qed

lemma lower_slash: "lower_char (CHR ''/'') = CHR ''/''"
  by code_simp

lemma plain_normal:
  assumes "plain_path p"
  shows "normalizeProtectedPrefix p = p"
proof -
  obtain r where r: "p = CHR ''/'' # r" "r \<noteq> []" "\<forall>c\<in>set p. c = CHR ''/'' \<or> plain_char c"
    by (rule plain_path_shape [OF assms])
  have low: "to_lower p = p"
    unfolding to_lower_def
  proof (rule map_idI)
    fix c assume "c \<in> set p"
    with r(3) have "c = CHR ''/'' \<or> plain_char c" by blast
    then show "lower_char c = c" using lower_slash plain_char_same(1) by (elim disjE) simp_all
  qed
  have "collapse p = p" by (rule collapse_id [OF plain_no_double(1) [OF assms]])
  moreover have "dropWhile (\<lambda>x. x = CHR ''/'') (rev p) = rev p"
    using plain_no_double(2) [OF assms] r(1,2) by (subst dropWhile_eq_self_iff) (simp add: hd_rev hd_append)
  ultimately have "normalizePathSeparators p = p"
    using r(1,2) by (simp add: normalizePathSeparators_def)
  with plain_trim [OF assms] low r(1) show ?thesis
    by (simp add: normalizeProtectedPrefix_def slash_if_empty_def)
qed

text \<open>A plain path is its only candidate.\<close>

lemma plain_candidates:
  assumes "plain_path p"
  shows "buildCanonicalPathCandidates au (Suc n) p =
    \<lparr>cn_candidates = [p], cn_passes = 0, cn_limit = False, cn_malformed = False\<rparr>"
proof -
  obtain r where r: "p = CHR ''/'' # r" "\<forall>c\<in>set p. c = CHR ''/'' \<or> plain_char c"
    by (rule plain_path_shape [OF assms])
  have "percent \<noteq> CHR ''/''" by (simp add: percent_def)
  then have "percent \<notin> set p" using r(2) plain_char_other(1) by blast
  then have dec: "decodeURIComponent p = Some p" by (rule plain_text_decoded)
  have "normalizePathForSecurity au p = p"
    using plain_url [OF assms] plain_normal [OF assms]
    by (simp add: normalizePathForSecurity_def resolveDotSegments_def)
  with dec show ?thesis
    by (simp add: buildCanonicalPathCandidates_def pushNormalizedCandidate_def)
qed

lemma plain_context:
  assumes "plain_path p"
  shows "resolvePluginRoutePathContext au p =
      \<lparr>px_pathname = p, px_canonical = p, px_candidates = [p], px_malformed = False,
       px_limit = False, px_raw = p\<rparr>"
    and "canonicalizePathVariant au p = p"
  using plain_candidates [OF assms, of au 31] plain_normal [OF assms]
  by (simp_all add: resolvePluginRoutePathContext_def canonicalizePathVariant_def Let_def
      MAX_PATH_DECODE_PASSES_def last_or_slash_def)

end
