(* ===== verification/Client_Ip.thy ===== *)
theory Client_Ip
  imports JS_Base
begin

text \<open>
  Which client a gateway request comes from: src/src/gateway/net.ts (trusted proxies, the
  forwarded chain, host names) and src/src/gateway/origin-check.ts (the browser origin).

  The reading of IP literals is that of the package ipaddr.js behind @openclaw/net-policy and
  of \<open>net.isIP\<close>; it is the parameter \<open>ip_lib\<close>, as is the URL class on an origin.
\<close>

subsection \<open>Addresses and headers\<close>

record ip_lib =
  il_normalize :: "string \<Rightarrow> string option"
  il_loopback :: "string \<Rightarrow> bool"
  il_private :: "string \<Rightarrow> bool"
  il_in_cidr :: "string \<Rightarrow> string \<Rightarrow> bool"
  il_version :: "string \<Rightarrow> nat"

text \<open>A header of a Node request: one text, or the list of a repeated header.\<close>

datatype header_value = HText string | HList "string list"

type_synonym headers = "header_value obj"

definition headerValue :: "header_value option \<Rightarrow> string option" where
  "headerValue v =
     (case v of None \<Rightarrow> None | Some (HText s) \<Rightarrow> Some s
      | Some (HList []) \<Rightarrow> None | Some (HList (s # _)) \<Rightarrow> Some s)"

text \<open>\<open>normalizeOptionalString\<close> of a header: a text that is not blank, trimmed.\<close>

definition header_text :: "header_value option \<Rightarrow> string option" where
  "header_text v = (case v of Some (HText s) \<Rightarrow> trim_opt (Some s) | _ \<Rightarrow> None)"

record http_peer =
  hq_remote :: "string option"
  hq_headers :: headers

definition getHeader :: "http_peer \<Rightarrow> string \<Rightarrow> string option" where
  "getHeader q name = headerValue (obj_get (hq_headers q) (to_lower (trim name)))"

definition normalizeIp :: "ip_lib \<Rightarrow> string option \<Rightarrow> string option" where
  "normalizeIp il ip = (case ip of None \<Rightarrow> None | Some s \<Rightarrow> il_normalize il s)"

definition isLoopbackAddress :: "ip_lib \<Rightarrow> string option \<Rightarrow> bool" where
  "isLoopbackAddress il ip \<longleftrightarrow> (case ip of None \<Rightarrow> False | Some s \<Rightarrow> il_loopback il s)"

subsection \<open>The forwarded chain\<close>

definition after_last :: "char \<Rightarrow> string \<Rightarrow> nat option" where
  "after_last c s = (if c \<in> set s then Some (length s - Suc (length (takeWhile (\<lambda>x. x \<noteq> c) (rev s)))) else None)"

definition stripOptionalPort :: "ip_lib \<Rightarrow> string \<Rightarrow> string" where
  "stripOptionalPort il ip =
     (if starts_with ip ''['' \<and> CHR '']'' \<in> set ip then takeWhile (\<lambda>c. c \<noteq> CHR '']'') (tl ip)
      else if il_version il ip \<noteq> 0 then ip
      else (case after_last (CHR '':'') ip of
              None \<Rightarrow> ip
            | Some n \<Rightarrow>
                if CHR ''.'' \<in> set ip \<and> length (takeWhile (\<lambda>c. c \<noteq> CHR '':'') ip) = n \<and>
                   il_version il (take n ip) = 4
                then take n ip else ip))"

definition parseIpLiteral :: "ip_lib \<Rightarrow> string option \<Rightarrow> string option" where
  "parseIpLiteral il raw =
     (case trim_opt raw of
        None \<Rightarrow> None
      | Some t \<Rightarrow>
          (case il_normalize il (stripOptionalPort il t) of
             None \<Rightarrow> None
           | Some n \<Rightarrow> if n = [] \<or> il_version il n = 0 then None else Some n))"

definition isTrustedProxyAddress :: "ip_lib \<Rightarrow> string option \<Rightarrow> string list \<Rightarrow> bool" where
  "isTrustedProxyAddress il ip trustedProxies \<longleftrightarrow>
     (case normalizeIp il ip of
        None \<Rightarrow> False
      | Some n \<Rightarrow> n \<noteq> [] \<and>
          list_ex (\<lambda>proxy. trim proxy \<noteq> [] \<and> il_in_cidr il n (trim proxy)) trustedProxies)"

definition forwarded_chain :: "ip_lib \<Rightarrow> string option \<Rightarrow> string list" where
  "forwarded_chain il forwardedFor =
     (case forwardedFor of
        None \<Rightarrow> []
      | Some f \<Rightarrow> List.map_filter (\<lambda>e. parseIpLiteral il (Some e)) (split_on (CHR '','') f))"

definition outside_hop :: "ip_lib \<Rightarrow> string list \<Rightarrow> string \<Rightarrow> bool" where
  "outside_hop il trustedProxies hop \<longleftrightarrow>
     \<not> il_loopback il hop \<and> \<not> isTrustedProxyAddress il (Some hop) trustedProxies"

text \<open>The chain is walked from the right to the first hop that is no proxy of ours.\<close>

definition resolveForwardedClientIp ::
  "ip_lib \<Rightarrow> string option \<Rightarrow> string list \<Rightarrow> string option" where
  "resolveForwardedClientIp il forwardedFor trustedProxies =
     (if trustedProxies = [] then None
      else find (outside_hop il trustedProxies) (rev (forwarded_chain il forwardedFor)))"

definition resolveClientIp ::
  "ip_lib \<Rightarrow> string option \<Rightarrow> string option \<Rightarrow> string option \<Rightarrow> string list \<Rightarrow> bool \<Rightarrow> string option" where
  "resolveClientIp il remoteAddr forwardedFor realIp trustedProxies allowRealIpFallback =
     (case normalizeIp il remoteAddr of
        None \<Rightarrow> None
      | Some remote \<Rightarrow>
          if remote = [] then None
          else if \<not> isTrustedProxyAddress il (Some remote) trustedProxies then Some remote
          else (case resolveForwardedClientIp il forwardedFor trustedProxies of
                  Some ip \<Rightarrow> Some ip
                | None \<Rightarrow> if allowRealIpFallback then parseIpLiteral il realIp else None))"

definition or_empty :: "string option \<Rightarrow> string" where
  "or_empty x = (case x of Some s \<Rightarrow> s | None \<Rightarrow> [])"

definition resolveRequestClientIp ::
  "ip_lib \<Rightarrow> http_peer option \<Rightarrow> string list \<Rightarrow> bool \<Rightarrow> string option" where
  "resolveRequestClientIp il req trustedProxies allowRealIpFallback =
     (case req of
        None \<Rightarrow> None
      | Some q \<Rightarrow>
          resolveClientIp il (Some (or_empty (hq_remote q)))
            (headerValue (obj_get (hq_headers q) ''x-forwarded-for''))
            (headerValue (obj_get (hq_headers q) ''x-real-ip''))
            trustedProxies allowRealIpFallback)"

definition resolveLocalInterfaceAddressMatch ::
  "ip_lib \<Rightarrow> string list option \<Rightarrow> string option \<Rightarrow> bool option" where
  "resolveLocalInterfaceAddressMatch il interfaces ip =
     (case normalizeIp il ip of
        None \<Rightarrow> Some False
      | Some n \<Rightarrow>
          if n = [] then Some False
          else map_option (list_ex (\<lambda>a. il_normalize il a = Some n)) interfaces)"

subsection \<open>Host names\<close>

definition resolveHostName :: "ip_lib \<Rightarrow> string option \<Rightarrow> string" where
  "resolveHostName il hostHeader =
     (let host = to_lower (trim (or_empty hostHeader)) in
      if host = [] then []
      else if starts_with host ''['' \<and> CHR '']'' \<in> set host then takeWhile (\<lambda>c. c \<noteq> CHR '']'') (tl host)
      else if il_version il host = 6 then host
      else hd (split_on (CHR '':'') host))"

definition ends_with :: "string \<Rightarrow> string \<Rightarrow> bool" where
  "ends_with s e \<longleftrightarrow> starts_with (rev s) (rev e)"

text \<open>\<open>parseHostForAddressChecks\<close>: None for an empty host, Inl for localhost, else the bare host.\<close>

definition parseHostForAddressChecks :: "string \<Rightarrow> (unit + string) option" where
  "parseHostForAddressChecks host =
     (if host = [] then None
      else (let h = to_lower (trim host);
                canonical = rev (dropWhile (\<lambda>c. c = CHR ''.'') (rev h))
            in if canonical = ''localhost'' then Some (Inl ())
               else Some (Inr (if starts_with h ''['' \<and> ends_with h '']'' then butlast (tl h) else h))))"

definition isLoopbackHost :: "ip_lib \<Rightarrow> string \<Rightarrow> bool" where
  "isLoopbackHost il host =
     (case parseHostForAddressChecks host of
        None \<Rightarrow> False | Some (Inl _) \<Rightarrow> True | Some (Inr h) \<Rightarrow> isLoopbackAddress il (Some h))"

definition isPrivateOrLoopbackHost :: "ip_lib \<Rightarrow> string \<Rightarrow> bool" where
  "isPrivateOrLoopbackHost il host =
     (case parseHostForAddressChecks host of
        None \<Rightarrow> False
      | Some (Inl _) \<Rightarrow> True
      | Some (Inr h) \<Rightarrow>
          (case il_normalize il h of
             None \<Rightarrow> False
           | Some n \<Rightarrow>
               if n = [] \<or> \<not> il_private il n then False
               else if il_version il n = 6
               then \<not> starts_with n ''ff'' \<and> n \<noteq> ''::'' else True))"

definition isLocalishHost :: "ip_lib \<Rightarrow> string option \<Rightarrow> bool" where
  "isLocalishHost il hostHeader =
     (let host = resolveHostName il hostHeader
      in host \<noteq> [] \<and> (isLoopbackHost il host \<or> ends_with host ''.ts.net''))"

subsection \<open>The browser origin\<close>

record url_origin =
  uo_origin :: string
  uo_host :: string
  uo_hostname :: string

record origin_policy =
  op_request_host :: "string option"
  op_origin :: "string option"
  op_allowed :: "string list"
  op_host_fallback :: bool

datatype origin_match = Allowlist | HostHeaderFallback | PrivateSameOrigin | LocalLoopback

definition lower_origin :: "url_origin \<Rightarrow> url_origin" where
  "lower_origin u =
     \<lparr>uo_origin = to_lower (trim (uo_origin u)), uo_host = to_lower (trim (uo_host u)),
      uo_hostname = to_lower (trim (uo_hostname u))\<rparr>"

definition parseOrigin :: "(string \<Rightarrow> url_origin option) \<Rightarrow> string option \<Rightarrow> url_origin option" where
  "parseOrigin url raw =
     (let t = trim (or_empty raw)
      in if t = [] \<or> t = ''null'' then None else map_option lower_origin (url t))"

definition isTrustedSameOriginHost :: "ip_lib \<Rightarrow> string \<Rightarrow> bool option \<Rightarrow> bool" where
  "isTrustedSameOriginHost il hostHeader isLocalClient =
     (let hostname = resolveHostName il (Some hostHeader) in
      if hostname = [] then False
      else if isLoopbackHost il hostname then isLocalClient \<noteq> Some False
      else if il_version il hostname \<noteq> 0 then il_private il hostname
      else ends_with hostname ''.local'' \<or> ends_with hostname ''.ts.net'')"

definition checkBrowserOrigin ::
  "ip_lib \<Rightarrow> (string \<Rightarrow> url_origin option) \<Rightarrow> origin_policy \<Rightarrow> bool option \<Rightarrow> string + origin_match" where
  "checkBrowserOrigin il url p isLocalClient =
     (case parseOrigin url (op_origin p) of
        None \<Rightarrow> Inl ''origin missing or invalid''
      | Some o1 \<Rightarrow>
          (let allow = filter (\<lambda>v. v \<noteq> []) (map (\<lambda>v. to_lower (trim v)) (op_allowed p));
               requestHost = to_lower (trim (or_empty (op_request_host p)))
           in if ''*'' \<in> set allow \<or> uo_origin o1 \<in> set allow then Inr Allowlist
              else if op_host_fallback p \<and> requestHost \<noteq> [] \<and> uo_host o1 = requestHost
              then Inr HostHeaderFallback
              else if requestHost \<noteq> [] \<and> uo_host o1 = requestHost \<and>
                isTrustedSameOriginHost il requestHost isLocalClient
              then Inr PrivateSameOrigin
              else if isLocalClient = Some True \<and> isLoopbackHost il (uo_hostname o1)
              then Inr LocalLoopback
              else Inl ''origin not allowed''))"

subsection \<open>Nobody but the last untrusted hop names the client\<close>

lemma forwarded_chain_append:
  "forwarded_chain il (Some (x @ CHR '','' # f)) =
     forwarded_chain il (Some x) @ forwarded_chain il (Some f)"
  by (simp add: forwarded_chain_def split_on_append List.map_filter_def)

lemma find_append: "find P (a @ b) = (case find P a of None \<Rightarrow> find P b | Some y \<Rightarrow> Some y)"
  by (induction a) auto

lemma forwarded_prefix_ignored:
  "resolveForwardedClientIp il (Some f) tp = Some ip \<Longrightarrow>
     resolveForwardedClientIp il (Some (x @ CHR '','' # f)) tp = Some ip"
  by (simp add: resolveForwardedClientIp_def forwarded_chain_append find_append split: if_splits)

lemma find_first:
  "find P xs = Some y \<Longrightarrow> P y \<and> (\<exists>b ys. xs = b @ y # ys \<and> (\<forall>h\<in>set b. \<not> P h))"
proof (induction xs)
  case Nil
  then show ?case by simp
next
  case (Cons x xs)
  show ?case
  proof (cases "P x")
    case True
    with Cons.prems show ?thesis by (auto intro: exI [of _ "[]"])
  next
    case False
    with Cons obtain b ys where "xs = b @ y # ys" "\<forall>h\<in>set b. \<not> P h" "P y" by auto
    with False show ?thesis by (intro conjI exI [of _ "x # b"] exI [of _ ys]) auto
  qed
qed

lemma forwarded_rightmost:
  assumes "resolveForwardedClientIp il f tp = Some ip"
  shows "outside_hop il tp ip \<and>
    (\<exists>a b. forwarded_chain il f = a @ ip # b \<and> (\<forall>h\<in>set b. \<not> outside_hop il tp h))"
proof -
  have "find (outside_hop il tp) (rev (forwarded_chain il f)) = Some ip"
    using assms by (simp add: resolveForwardedClientIp_def split: if_splits)
  from find_first [OF this] obtain b ys where s: "outside_hop il tp ip"
      "rev (forwarded_chain il f) = b @ ip # ys" "\<forall>h\<in>set b. \<not> outside_hop il tp h"
    by blast
  have "forwarded_chain il f = rev ys @ ip # rev b" using arg_cong [OF s(2), of rev] by simp
  with s(1,3) show ?thesis by (intro conjI exI [of _ "rev ys"] exI [of _ "rev b"]) simp_all
qed

lemma forwarded_none:
  "tp \<noteq> [] \<Longrightarrow> resolveForwardedClientIp il f tp = None \<longleftrightarrow> (\<forall>h\<in>set (forwarded_chain il f). \<not> outside_hop il tp h)"
  by (auto simp: resolveForwardedClientIp_def find_None_iff)

lemma trusted_some: "isTrustedProxyAddress il ip tp \<Longrightarrow> tp \<noteq> []"
  by (auto simp: isTrustedProxyAddress_def split: option.splits)

text \<open>
  C31 -- The client address of a request is the peer itself, whatever its headers say, unless the peer
  is a trusted proxy.  Then it is the right-most hop of the forwarded chain that is neither loopback nor a
  trusted proxy, and neither further hops written in front of the header nor an X-Real-IP change it.  Only
  where the chain has no such hop and the fallback to X-Real-IP is configured is it the address in that
  header, which a trusted proxy that passes the header on leaves to the client.
\<close>

theorem client_ip_not_spoofable:
  assumes "resolveClientIp il r f real tp fallback = Some ip"
  shows "\<exists>remote. normalizeIp il r = Some remote \<and>
    (if isTrustedProxyAddress il (Some remote) tp
     then (outside_hop il tp ip \<and>
           (\<exists>a b. forwarded_chain il f = a @ ip # b \<and> (\<forall>h\<in>set b. \<not> outside_hop il tp h)) \<and>
           (\<forall>x g real' fallback'. f = Some g \<longrightarrow>
              resolveClientIp il r (Some (x @ CHR '','' # g)) real' tp fallback' = Some ip)) \<or>
          ((\<forall>h\<in>set (forwarded_chain il f). \<not> outside_hop il tp h) \<and> fallback \<and> parseIpLiteral il real = Some ip)
     else ip = remote \<and> (\<forall>f' real' fallback'. resolveClientIp il r f' real' tp fallback' = Some ip))"
proof -
  obtain remote where remote: "normalizeIp il r = Some remote" "remote \<noteq> []"
    using assms by (auto simp: resolveClientIp_def split: option.splits if_splits)
  show ?thesis
  proof (cases "isTrustedProxyAddress il (Some remote) tp")
    case False
    then show ?thesis using assms remote by (auto simp: resolveClientIp_def)
  next
    case True
    show ?thesis
    proof (cases "resolveForwardedClientIp il f tp")
      case None
      then have "fallback \<and> parseIpLiteral il real = Some ip"
        using assms remote True by (simp add: resolveClientIp_def split: if_splits)
      then show ?thesis using remote True None forwarded_none [OF trusted_some [OF True]] by simp
    next
      case (Some hop)
      then have hop: "hop = ip" using assms remote True by (simp add: resolveClientIp_def)
      have "resolveClientIp il r (Some (x @ CHR '','' # g)) real' tp fallback' = Some ip" if "f = Some g" for x g real' fallback'
        using Some remote True forwarded_prefix_ignored that hop by (simp add: resolveClientIp_def)
      then show ?thesis using forwarded_rightmost [OF Some] remote True hop by auto
    qed
  qed
qed

subsection \<open>Witness\<close>

definition demo_ip :: ip_lib where
  "demo_ip =
     \<lparr>il_normalize = (\<lambda>s. if s = [] then None else Some s),
      il_loopback = (\<lambda>s. s = ''127.0.0.1''), il_private = (\<lambda>s. starts_with s ''10.''),
      il_in_cidr = (\<lambda>ip cidr. ip = cidr), il_version = (\<lambda>s. if s = [] then 0 else 4)\<rparr>"

lemma client_ip_not_spoofable_witness:
  "resolveClientIp demo_ip (Some ''10.0.0.1'') (Some ''127.0.0.1,6.6.6.6,9.9.9.9, 10.0.0.1'') (Some ''7.7.7.7'')
     [''10.0.0.1''] True = Some ''9.9.9.9''"
proof -
  let ?f = "''9.9.9.9, 10.0.0.1''"
  have r: "resolveClientIp demo_ip (Some ''10.0.0.1'') (Some ?f) None [''10.0.0.1''] False = Some ''9.9.9.9''"
    "normalizeIp demo_ip (Some ''10.0.0.1'') = Some ''10.0.0.1''"
    "isTrustedProxyAddress demo_ip (Some ''10.0.0.1'') [''10.0.0.1'']"
    by code_simp+
  from client_ip_not_spoofable [OF r(1)] r(2,3)
  have "resolveClientIp demo_ip (Some ''10.0.0.1'') (Some (x @ CHR '','' # ?f)) real' [''10.0.0.1''] fallback' = Some ''9.9.9.9''"
    for x real' fallback'
    by simp
  from this [of "''127.0.0.1,6.6.6.6''"] show ?thesis by simp
qed

end
