(* ===== verification/Rate_Limit.thy ===== *)
theory Rate_Limit
  imports Client_Ip Gateway_Base
begin

text \<open>
  The sliding-window limiter of failed authentications
  (src/src/gateway/auth-rate-limit.ts): the state of a limiter is the map from
  scope and client to the recent failures and the lock; the clock is an argument of each
  operation, and the number of attempts is an integer.
\<close>

subsection \<open>Configuration\<close>

record limiter_config =
  lc_max :: "int option"
  lc_window :: "num64 option"
  lc_lockout :: "num64 option"
  lc_exempt :: "bool option"

record limits =
  lm_max :: int
  lm_window :: int
  lm_lockout :: int
  lm_exempt :: bool

definition timer_ms :: "num64 option \<Rightarrow> int \<Rightarrow> int" where
  "timer_ms v fallback = resolveTimerTimeoutMs (case v of Some n \<Rightarrow> n | None \<Rightarrow> NaN) fallback 0"

definition createAuthRateLimiter :: "limiter_config \<Rightarrow> limits" where
  "createAuthRateLimiter c =
     \<lparr>lm_max = (case lc_max c of Some n \<Rightarrow> n | None \<Rightarrow> 10),
      lm_window = timer_ms (lc_window c) 60000,
      lm_lockout = timer_ms (lc_lockout c) 300000,
      lm_exempt = (lc_exempt c \<noteq> Some False)\<rparr>"

definition AUTH_RATE_LIMIT_SCOPE_DEFAULT :: string where
  "AUTH_RATE_LIMIT_SCOPE_DEFAULT = ''default''"

definition AUTH_RATE_LIMIT_SCOPE_SHARED_SECRET :: string where
  "AUTH_RATE_LIMIT_SCOPE_SHARED_SECRET = ''shared-secret''"

subsection \<open>Keys\<close>

definition normalizeRateLimitClientIp :: "ip_lib \<Rightarrow> string option \<Rightarrow> string" where
  "normalizeRateLimitClientIp il ip =
     (case ip of
        Some s \<Rightarrow>
          if starts_with s ''browser-origin:'' \<or> starts_with s ''identity:'' then s
          else (case resolveClientIp il ip None None [] False of Some r \<Rightarrow> r | None \<Rightarrow> ''unknown'')
      | None \<Rightarrow> ''unknown'')"

definition buildRateLimitIdentityKey :: "string \<Rightarrow> string \<Rightarrow> string" where
  "buildRateLimitIdentityKey namespace identity = ''identity:'' @ namespace @ '':'' @ identity"

definition normalizeScope :: "string option \<Rightarrow> string" where
  "normalizeScope s =
     (case trim_opt s of Some t \<Rightarrow> t | None \<Rightarrow> AUTH_RATE_LIMIT_SCOPE_DEFAULT)"

definition resolveKey :: "ip_lib \<Rightarrow> string option \<Rightarrow> string option \<Rightarrow> string" where
  "resolveKey il ip scope = normalizeScope scope @ '':'' @ normalizeRateLimitClientIp il ip"

definition isExempt :: "ip_lib \<Rightarrow> limits \<Rightarrow> string option \<Rightarrow> bool" where
  "isExempt il lm ip \<longleftrightarrow> lm_exempt lm \<and> il_loopback il (normalizeRateLimitClientIp il ip)"

subsection \<open>Operations\<close>

record limit_entry =
  le_attempts :: "int list"
  le_locked :: "int option"

type_synonym limiter = "limit_entry obj"

record limit_check =
  lk_allowed :: bool
  lk_remaining :: int
  lk_retry :: int

text \<open>\<open>entry.lockedUntil && now < entry.lockedUntil\<close>: a time of 0 counts as no lock.\<close>

definition lock_set :: "limit_entry \<Rightarrow> bool" where
  "lock_set e \<longleftrightarrow> (case le_locked e of Some l \<Rightarrow> l \<noteq> 0 | None \<Rightarrow> False)"

definition locked_at :: "limit_entry \<Rightarrow> int \<Rightarrow> bool" where
  "locked_at e now \<longleftrightarrow> (case le_locked e of Some l \<Rightarrow> l \<noteq> 0 \<and> now < l | None \<Rightarrow> False)"

definition slideWindow :: "limits \<Rightarrow> int \<Rightarrow> limit_entry \<Rightarrow> limit_entry" where
  "slideWindow lm now e = e\<lparr>le_attempts := filter (\<lambda>ts. now - lm_window lm < ts) (le_attempts e)\<rparr>"

definition unlock :: "limit_entry \<Rightarrow> limit_entry" where
  "unlock e = (if lock_set e then e\<lparr>le_locked := None, le_attempts := []\<rparr> else e)"

definition limiter_check ::
  "ip_lib \<Rightarrow> limits \<Rightarrow> string option \<Rightarrow> string option \<Rightarrow> int \<Rightarrow> limiter \<Rightarrow> limit_check \<times> limiter" where
  "limiter_check il lm ip scope now st =
     (let key = resolveKey il ip scope;
          free = \<lparr>lk_allowed = True, lk_remaining = lm_max lm, lk_retry = 0\<rparr>
      in if isExempt il lm ip then (free, st)
         else (case obj_get st key of
                 None \<Rightarrow> (free, st)
               | Some e \<Rightarrow>
                   if locked_at e now
                   then (\<lparr>lk_allowed = False, lk_remaining = 0, lk_retry = the (le_locked e) - now\<rparr>, st)
                   else (let e' = slideWindow lm now (unlock e);
                             remaining = max 0 (lm_max lm - int (length (le_attempts e')))
                         in (\<lparr>lk_allowed = (0 < remaining), lk_remaining = remaining, lk_retry = 0\<rparr>,
                             obj_set st key e'))))"

definition add_failure :: "limits \<Rightarrow> int \<Rightarrow> limit_entry \<Rightarrow> limit_entry" where
  "add_failure lm now e =
     (let s = slideWindow lm now e; attempts = le_attempts s @ [now]
      in if lm_max lm \<le> int (length attempts)
         then s\<lparr>le_attempts := attempts, le_locked := Some (now + lm_lockout lm)\<rparr>
         else s\<lparr>le_attempts := attempts\<rparr>)"

definition recordFailure ::
  "ip_lib \<Rightarrow> limits \<Rightarrow> string option \<Rightarrow> string option \<Rightarrow> int \<Rightarrow> limiter \<Rightarrow> limiter" where
  "recordFailure il lm ip scope now st =
     (let key = resolveKey il ip scope in
      if isExempt il lm ip then st
      else (let e = (case obj_get st key of Some e \<Rightarrow> e | None \<Rightarrow> \<lparr>le_attempts = [], le_locked = None\<rparr>)
            in obj_set st key (if locked_at e now then e else add_failure lm now e)))"

definition limiter_reset :: "ip_lib \<Rightarrow> string option \<Rightarrow> string option \<Rightarrow> limiter \<Rightarrow> limiter" where
  "limiter_reset il ip scope st = obj_del st (resolveKey il ip scope)"

definition prune_entry :: "limits \<Rightarrow> int \<Rightarrow> limit_entry \<Rightarrow> limit_entry option" where
  "prune_entry lm now e =
     (if locked_at e now then Some e
      else (let s = slideWindow lm now e in if le_attempts s = [] then None else Some s))"

fun prune :: "limits \<Rightarrow> int \<Rightarrow> limiter \<Rightarrow> limiter" where
  "prune lm now [] = []"
| "prune lm now ((k, e) # st) =
     (case prune_entry lm now e of
        None \<Rightarrow> prune lm now st | Some e' \<Rightarrow> (k, e') # prune lm now st)"

subsection \<open>Runs of a limiter\<close>

text \<open>
  A \<open>Guess\<close> is what the gateway does with a wrong secret: it checks the client at the first
  time and, if the check passes, compares the secret and records the failure at the second.
  A \<open>Probe\<close> checks without a comparison (no secret was given), a \<open>Clear\<close> follows a right one.
\<close>

datatype limit_event =
  Guess "string option" "string option" int int
| Probe "string option" "string option" int
| Clear "string option" "string option"
| Prune int

fun limit_step :: "ip_lib \<Rightarrow> limits \<Rightarrow> limit_event \<Rightarrow> limiter \<Rightarrow> bool \<times> limiter" where
  "limit_step il lm (Guess ip scope t u) st =
     (case limiter_check il lm ip scope t st of
        (c, st') \<Rightarrow> if lk_allowed c then (True, recordFailure il lm ip scope u st') else (False, st'))"
| "limit_step il lm (Probe ip scope t) st = (False, snd (limiter_check il lm ip scope t st))"
| "limit_step il lm (Clear ip scope) st = (False, limiter_reset il ip scope st)"
| "limit_step il lm (Prune t) st = (False, prune lm t st)"

text \<open>The times at which a secret of the client \<open>key\<close> was compared and found wrong.\<close>

definition guess_of :: "ip_lib \<Rightarrow> string \<Rightarrow> limit_event \<Rightarrow> int list" where
  "guess_of il key ev =
     (case ev of Guess ip scope t u \<Rightarrow> if resolveKey il ip scope = key then [u] else [] | _ \<Rightarrow> [])"

fun limit_run ::
  "ip_lib \<Rightarrow> limits \<Rightarrow> string \<Rightarrow> limit_event list \<Rightarrow> int list \<times> limiter \<Rightarrow> int list \<times> limiter" where
  "limit_run il lm key [] s = s"
| "limit_run il lm key (ev # evs) (hist, st) =
     (case limit_step il lm ev st of
        (tested, st') \<Rightarrow> limit_run il lm key evs (if tested then hist @ guess_of il key ev else hist, st'))"

fun event_times :: "limit_event \<Rightarrow> int list" where
  "event_times (Guess _ _ t u) = [t, u]"
| "event_times (Probe _ _ t) = [t]"
| "event_times (Clear _ _) = []"
| "event_times (Prune t) = [t]"

definition chronological :: "int \<Rightarrow> limit_event list \<Rightarrow> bool" where
  "chronological now evs \<longleftrightarrow> 0 < now \<and> sorted (now # concat (map event_times evs))"

text \<open>The event does not clear the client, and the client is not exempt.\<close>

fun concerns :: "ip_lib \<Rightarrow> limits \<Rightarrow> string \<Rightarrow> limit_event \<Rightarrow> bool" where
  "concerns il lm key (Guess ip scope t u) = (resolveKey il ip scope = key \<longrightarrow> \<not> isExempt il lm ip)"
| "concerns il lm key (Probe ip scope t) = True"
| "concerns il lm key (Clear ip scope) = (resolveKey il ip scope \<noteq> key)"
| "concerns il lm key (Prune t) = True"

subsection \<open>What an entry records of the failures\<close>

definition bounded_log :: "limits \<Rightarrow> int list \<Rightarrow> bool" where
  "bounded_log lm hist \<longleftrightarrow>
     (\<forall>u. int (length (filter (\<lambda>s. u < s \<and> s \<le> u + lm_window lm) hist)) \<le> lm_max lm)"

text \<open>\<open>hist\<close> holds the failures of the client so far, \<open>x\<close> is its entry at the time \<open>now\<close>.\<close>

definition tracks :: "limits \<Rightarrow> int \<Rightarrow> int list \<Rightarrow> limit_entry option \<Rightarrow> bool" where
  "tracks lm now hist x \<longleftrightarrow>
     0 < now \<and> (\<forall>ts\<in>set hist. ts \<le> now) \<and> bounded_log lm hist \<and>
     (case x of
        None \<Rightarrow> \<forall>ts\<in>set hist. ts \<le> now - lm_window lm
      | Some e \<Rightarrow>
          (case le_locked e of
             None \<Rightarrow> int (length (le_attempts e)) < lm_max lm \<and>
               (\<exists>cut\<le>now - lm_window lm. le_attempts e = filter (\<lambda>ts. cut < ts) hist)
           | Some l \<Rightarrow> 0 < l \<and> (\<forall>ts\<in>set hist \<union> set (le_attempts e). ts \<le> l - lm_lockout lm)))"

definition sane :: "limits \<Rightarrow> bool" where
  "sane lm \<longleftrightarrow> 0 < lm_max lm \<and> 0 < lm_window lm \<and> lm_window lm \<le> lm_lockout lm"

definition unlocked :: "limit_entry option \<Rightarrow> bool" where
  "unlocked x \<longleftrightarrow> (case x of None \<Rightarrow> True | Some e \<Rightarrow> le_locked e = None)"

lemma tracks_mono: "tracks lm now hist x \<Longrightarrow> now \<le> t \<Longrightarrow> tracks lm t hist x"
  unfolding tracks_def by (auto split: option.splits) (force | smt (verit))+

lemma filter_recent:
  "lo \<le> hi \<Longrightarrow> filter (\<lambda>ts. hi < ts) (filter (\<lambda>ts. lo < ts) xs) = filter (\<lambda>ts. (hi::int) < ts) xs"
  by (auto intro!: filter_cong)

lemma tracks_check_entry:
  assumes "sane lm" "tracks lm t hist (Some e)" "\<not> locked_at e t"
  shows "tracks lm t hist (Some (slideWindow lm t (unlock e))) \<and>
         le_locked (slideWindow lm t (unlock e)) = None"
proof (cases "le_locked e")
  case None
  then obtain cut where c: "cut \<le> t - lm_window lm" "le_attempts e = filter (\<lambda>ts. cut < ts) hist"
    "int (length (le_attempts e)) < lm_max lm"
    using assms(2) by (auto simp: tracks_def)
  have len: "int (length (filter (\<lambda>ts. t - lm_window lm < ts) (le_attempts e))) < lm_max lm"
    using c(3) length_filter_le [of "\<lambda>ts. t - lm_window lm < ts" "le_attempts e"] by linarith
  have eq: "filter (\<lambda>ts. t - lm_window lm < ts) (le_attempts e) = filter (\<lambda>ts. t - lm_window lm < ts) hist"
    using filter_recent [OF c(1)] c(2) by simp
  from None len [unfolded eq] assms(2) show ?thesis
    by (auto simp: tracks_def slideWindow_def unlock_def lock_set_def eq)
next
  case (Some l)
  with assms(2,3) have l: "0 < l" "l \<le> t" "\<forall>ts\<in>set hist. ts \<le> l - lm_lockout lm"
    by (auto simp: tracks_def locked_at_def)
  with assms(1) have "\<forall>ts\<in>set hist. ts \<le> t - lm_window lm" by (auto simp: sane_def)
  then have "filter (\<lambda>ts. t - lm_window lm < ts) hist = []"
    by (auto simp: filter_empty_conv not_less)
  with Some l assms(1,2) show ?thesis
    by (auto simp: tracks_def slideWindow_def unlock_def lock_set_def sane_def
        intro!: exI [of _ "t - lm_window lm"])
qed

lemma recent_of_log:
  assumes "sane lm" "tracks lm t hist x" "unlocked x"
  shows "int (length (filter (\<lambda>ts. t - lm_window lm < ts) hist)) < lm_max lm"
proof (cases x)
  case None
  with assms(2) have "filter (\<lambda>ts. t - lm_window lm < ts) hist = []"
    by (auto simp: tracks_def filter_empty_conv not_less)
  with assms(1) show ?thesis by (simp add: sane_def)
next
  case (Some e)
  with assms(2,3) obtain cut where c: "cut \<le> t - lm_window lm" "le_attempts e = filter (\<lambda>ts. cut < ts) hist"
    "int (length (le_attempts e)) < lm_max lm"
    by (auto simp: tracks_def unlocked_def)
  have "filter (\<lambda>ts. t - lm_window lm < ts) (le_attempts e) = filter (\<lambda>ts. t - lm_window lm < ts) hist"
    using filter_recent [OF c(1)] c(2) by simp
  with c(3) length_filter_le [of "\<lambda>ts. t - lm_window lm < ts" "le_attempts e"] show ?thesis
    by simp
qed

lemma bounded_snoc:
  assumes "bounded_log lm hist" "\<forall>ts\<in>set hist. ts \<le> t"
    and recent: "int (length (filter (\<lambda>ts. t - lm_window lm < ts) hist)) < lm_max lm"
  shows "bounded_log lm (hist @ [t])"
  unfolding bounded_log_def
proof
  fix u
  show "int (length (filter (\<lambda>s. u < s \<and> s \<le> u + lm_window lm) (hist @ [t]))) \<le> lm_max lm"
  proof (cases "u < t \<and> t \<le> u + lm_window lm")
    case True
    have "length (filter (\<lambda>s. u < s \<and> s \<le> u + lm_window lm) hist)
        \<le> length (filter (\<lambda>ts. t - lm_window lm < ts) hist)"
      using True assms(2) by (induction hist) auto
    with True recent show ?thesis by simp
  next
    case False
    with assms(1) show ?thesis by (auto simp: bounded_log_def)
  qed
qed

lemma tracks_failure:
  assumes "sane lm" "tracks lm t hist x" "unlocked x"
  shows "tracks lm t (hist @ [t])
           (Some (add_failure lm t (case x of Some e \<Rightarrow> e | None \<Rightarrow> \<lparr>le_attempts = [], le_locked = None\<rparr>)))"
proof -
  define e where "e = (case x of Some e \<Rightarrow> e | None \<Rightarrow> \<lparr>le_attempts = [], le_locked = None\<rparr>)"
  let ?new = "filter (\<lambda>ts. t - lm_window lm < ts) (le_attempts e) @ [t]"
  have old: "0 < t" "\<forall>ts\<in>set hist. ts \<le> t" "bounded_log lm hist"
    using assms(2) by (auto simp: tracks_def)
  have unl: "le_locked e = None"
    using assms(3) by (auto simp: e_def unlocked_def split: option.splits)
  have recent: "filter (\<lambda>ts. t - lm_window lm < ts) (le_attempts e) = filter (\<lambda>ts. t - lm_window lm < ts) hist"
  proof (cases x)
    case None
    with assms(2) show ?thesis by (auto simp: tracks_def e_def filter_empty_conv not_less)
  next
    case (Some e')
    with assms(2) unl obtain cut where "cut \<le> t - lm_window lm" "le_attempts e = filter (\<lambda>ts. cut < ts) hist"
      by (auto simp: tracks_def e_def)
    then show ?thesis using filter_recent by simp
  qed
  have new: "?new = filter (\<lambda>ts. t - lm_window lm < ts) (hist @ [t])"
    using recent assms(1) by (simp add: sane_def)
  have bounded: "bounded_log lm (hist @ [t])"
    by (rule bounded_snoc [OF old(3,2) recent_of_log [OF assms]])
  show ?thesis
  proof (cases "lm_max lm \<le> int (length ?new)")
    case True
    with old bounded unl assms(1) show ?thesis
      by (auto simp: e_def [symmetric] tracks_def add_failure_def slideWindow_def sane_def recent)
  next
    case False
    moreover have "\<exists>cut\<le>t - lm_window lm. ?new = filter (\<lambda>ts. cut < ts) (hist @ [t])"
      using new by blast
    ultimately show ?thesis
      using old bounded unl
      by (simp add: e_def [symmetric] tracks_def add_failure_def slideWindow_def del: filter_append)
  qed
qed

lemma tracks_check:
  assumes "sane lm" "tracks lm t hist (obj_get st key)"
    and run: "limiter_check il lm ip scope t st = (r, st')"
  shows "tracks lm t hist (obj_get st' key) \<and>
    (resolveKey il ip scope = key \<and> \<not> isExempt il lm ip \<and> lk_allowed r \<longrightarrow> unlocked (obj_get st' key))"
proof (cases "isExempt il lm ip \<or> obj_get st (resolveKey il ip scope) = None \<or>
    (\<exists>e. obj_get st (resolveKey il ip scope) = Some e \<and> locked_at e t)")
  case True
  with assms show ?thesis
    by (auto simp: limiter_check_def Let_def unlocked_def split: if_splits option.splits)
next
  case False
  then obtain e where e: "obj_get st (resolveKey il ip scope) = Some e" "\<not> locked_at e t" by auto
  with False run have "st' = obj_set st (resolveKey il ip scope) (slideWindow lm t (unlock e))"
    by (auto simp: limiter_check_def Let_def)
  with e assms(1,2) tracks_check_entry [OF assms(1) _ e(2), of hist] show ?thesis
    by (auto simp: kv_simps unlocked_def)
qed

lemma check_distinct:
  "distinct (obj_keys st) \<Longrightarrow> limiter_check il lm ip scope t st = (r, st') \<Longrightarrow> distinct (obj_keys st')"
  by (auto simp: limiter_check_def Let_def intro: obj_set_distinct split: if_splits option.splits)

lemma record_get:
  "\<not> isExempt il lm ip \<Longrightarrow> unlocked (obj_get st (resolveKey il ip scope)) \<Longrightarrow>
   obj_get (recordFailure il lm ip scope t st) key =
     (if resolveKey il ip scope = key
      then Some (add_failure lm t (case obj_get st key of Some e \<Rightarrow> e
                                   | None \<Rightarrow> \<lparr>le_attempts = [], le_locked = None\<rparr>))
      else obj_get st key)"
  by (auto simp: recordFailure_def kv_simps unlocked_def locked_at_def split: option.splits)

lemma record_other:
  "resolveKey il ip scope \<noteq> key \<Longrightarrow> obj_get (recordFailure il lm ip scope t st) key = obj_get st key"
  by (simp add: recordFailure_def Let_def kv_simps)

lemma record_distinct:
  "distinct (obj_keys st) \<Longrightarrow> distinct (obj_keys (recordFailure il lm ip scope t st))"
  by (auto simp: recordFailure_def Let_def intro: obj_set_distinct)

lemma prune_keys: "set (obj_keys (prune lm t st)) \<subseteq> set (obj_keys st)"
  by (induction lm t st rule: prune.induct) (auto simp: obj_keys_def split: option.splits)

lemma prune_get:
  "distinct (obj_keys st) \<Longrightarrow>
     obj_get (prune lm t st) key =
       (case obj_get st key of None \<Rightarrow> None | Some e \<Rightarrow> prune_entry lm t e)"
proof (induction lm t st rule: prune.induct)
  case (2 lm t k e st)
  have "obj_get (prune lm t st) k = None"
    using 2(3) prune_keys [of lm t st] obj_get_keys [of "prune lm t st" k] by (auto simp: obj_keys_def)
  with 2 show ?case by (auto simp: obj_get_def obj_keys_def split: option.splits)
qed (simp add: obj_get_def)

lemma prune_distinct: "distinct (obj_keys st) \<Longrightarrow> distinct (obj_keys (prune lm t st))"
proof (induction lm t st rule: prune.induct)
  case (2 lm t k e st)
  with prune_keys [of lm t st] show ?case by (auto simp: obj_keys_def split: option.splits)
qed simp

lemma tracks_prune:
  assumes "sane lm" "tracks lm t hist (Some e)"
  shows "tracks lm t hist (prune_entry lm t e)"
proof (cases "locked_at e t")
  case False
  note slid = tracks_check_entry [OF assms False]
  show ?thesis
  proof (cases "le_locked e")
    case None
    then have u: "unlock e = e" by (simp add: unlock_def lock_set_def)
    have "int (length (filter (\<lambda>ts. t - lm_window lm < ts) hist)) < lm_max lm"
      by (rule recent_of_log [OF assms]) (simp add: unlocked_def None)
    obtain cut where c: "cut \<le> t - lm_window lm" "le_attempts e = filter (\<lambda>ts. cut < ts) hist"
      using None assms(2) by (auto simp: tracks_def)
    have "le_attempts (slideWindow lm t e) = filter (\<lambda>ts. t - lm_window lm < ts) hist"
      using filter_recent [OF c(1)] c(2) by (simp add: slideWindow_def)
    with False slid u assms(2) show ?thesis
      by (auto simp: prune_entry_def Let_def tracks_def filter_empty_conv not_less)
  next
    case (Some l)
    with assms(2) False have l: "0 < l" "l \<le> t" "\<forall>ts\<in>set hist \<union> set (le_attempts e). ts \<le> l - lm_lockout lm"
      by (auto simp: tracks_def locked_at_def)
    with assms(1) have old: "\<forall>ts\<in>set hist \<union> set (le_attempts e). ts \<le> t - lm_window lm"
      by (force simp: sane_def)
    then have "le_attempts (slideWindow lm t e) = []"
      by (auto simp: slideWindow_def filter_empty_conv not_less)
    with False old assms(2) show ?thesis
      by (simp add: prune_entry_def tracks_def)
  qed
qed (use assms in \<open>simp add: prune_entry_def\<close>)

subsection \<open>The invariant of a run\<close>

definition watched :: "limits \<Rightarrow> string \<Rightarrow> int \<Rightarrow> int list \<times> limiter \<Rightarrow> bool" where
  "watched lm key now s \<longleftrightarrow>
     distinct (obj_keys (snd s)) \<and> tracks lm now (fst s) (obj_get (snd s) key)"

definition last_time :: "int \<Rightarrow> limit_event \<Rightarrow> int" where
  "last_time now ev = (if event_times ev = [] then now else last (event_times ev))"

lemma watched_start: "0 < now \<Longrightarrow> 0 \<le> lm_max lm \<Longrightarrow> watched lm key now ([], [])"
  by (simp add: watched_def tracks_def bounded_log_def obj_get_def obj_keys_def)

lemma watched_guess:
  assumes lm: "sane lm" and w: "watched lm key t (hist, st)" "t \<le> u"
    and con: "resolveKey il ip scope = key \<longrightarrow> \<not> isExempt il lm ip"
    and step: "limit_step il lm (Guess ip scope t u) st = (tested, st')"
  shows "watched lm key u (if tested then hist @ guess_of il key (Guess ip scope t u) else hist, st')"
proof -
  obtain r st1 where chk: "limiter_check il lm ip scope t st = (r, st1)"
    by (cases "limiter_check il lm ip scope t st")
  have tr: "tracks lm u hist (obj_get st1 key)" and dis: "distinct (obj_keys st1)"
    and unl: "resolveKey il ip scope = key \<and> \<not> isExempt il lm ip \<and> lk_allowed r \<longrightarrow> unlocked (obj_get st1 key)"
    using tracks_check [OF lm _ chk, of hist key] w check_distinct [OF _ chk] tracks_mono
    by (auto simp: watched_def)
  show ?thesis
  proof (cases "lk_allowed r")
    case False
    with step chk tr dis show ?thesis by (auto simp: watched_def)
  next
    case True
    with step chk have st': "tested" "st' = recordFailure il lm ip scope u st1" by auto
    show ?thesis
    proof (cases "resolveKey il ip scope = key")
      case True
      with con unl \<open>lk_allowed r\<close> tracks_failure [OF lm tr] st' dis show ?thesis
        by (auto simp: watched_def guess_of_def record_get record_distinct)
    next
      case False
      with st' tr dis show ?thesis
        by (auto simp: watched_def guess_of_def record_other record_distinct)
    qed
  qed
qed

lemma watched_step:
  assumes lm: "sane lm" and w: "watched lm key now (hist, st)"
    and time: "sorted (now # event_times ev)" and con: "concerns il lm key ev"
    and step: "limit_step il lm ev st = (tested, st')"
  shows "watched lm key (last_time now ev) (if tested then hist @ guess_of il key ev else hist, st')"
proof (cases ev)
  case (Guess ip scope t u)
  with time w have "watched lm key t (hist, st)" "t \<le> u" by (auto simp: watched_def intro: tracks_mono)
  from watched_guess [OF lm this, of il ip scope tested st'] con step Guess show ?thesis
    by (simp add: last_time_def split: if_splits del: limit_step.simps)
next
  case (Probe ip scope t)
  obtain r st1 where chk: "limiter_check il lm ip scope t st = (r, st1)"
    by (cases "limiter_check il lm ip scope t st")
  from w time Probe have "tracks lm t hist (obj_get st key)" "distinct (obj_keys st)"
    by (auto simp: watched_def intro: tracks_mono)
  with tracks_check [OF lm _ chk] check_distinct [OF _ chk] chk Probe step show ?thesis
    by (auto simp: watched_def last_time_def guess_of_def)
next
  case (Clear ip scope)
  with w con step show ?thesis
    by (auto simp: watched_def last_time_def guess_of_def limiter_reset_def kv_simps obj_del_distinct)
next
  case (Prune t)
  from w time Prune have t: "tracks lm t hist (obj_get st key)" "distinct (obj_keys st)"
    by (auto simp: watched_def intro: tracks_mono)
  have "tracks lm t hist (obj_get (prune lm t st) key)"
  proof (cases "obj_get st key")
    case (Some e)
    with tracks_prune [OF lm, of t hist e] t show ?thesis by (simp add: prune_get)
  qed (use t in \<open>simp add: prune_get\<close>)
  with t Prune step show ?thesis
    by (auto simp: watched_def last_time_def guess_of_def prune_distinct)
qed

lemma watched_run:
  assumes "sane lm" "watched lm key now s" "sorted (now # concat (map event_times evs))"
    "list_all (concerns il lm key) evs"
  shows "\<exists>now'. watched lm key now' (limit_run il lm key evs s)"
  using assms(2-)
proof (induction evs arbitrary: now s)
  case Nil
  then show ?case by auto
next
  case (Cons ev evs)
  obtain hist st where s: "s = (hist, st)" by (cases s)
  obtain tested st' where step: "limit_step il lm ev st = (tested, st')"
    by (cases "limit_step il lm ev st")
  have "watched lm key (last_time now ev) (if tested then hist @ guess_of il key ev else hist, st')"
    by (rule watched_step [OF assms(1) _ _ _ step]) (use Cons.prems s in \<open>auto simp: sorted_append\<close>)
  moreover have "sorted (last_time now ev # concat (map event_times evs))"
    using Cons.prems(2) by (auto simp: last_time_def sorted_append)
  ultimately show ?case
    using Cons.IH [of "last_time now ev"] Cons.prems(3) s step by simp
qed

subsection \<open>Properties\<close>

text \<open>
  C17 -- However the attempts of all clients, the checks and the prunings interleave, a client
  that presented no right secret has at most the configured number of guesses compared
  with the secret in any window of time (if the lock lasts at least as long as the window).
\<close>

theorem guessing_is_bounded:
  assumes "sane lm" "chronological now evs" "list_all (concerns il lm key) evs"
  shows "int (length (filter (\<lambda>s. u < s \<and> s \<le> u + lm_window lm)
           (fst (limit_run il lm key evs ([], []))))) \<le> lm_max lm"
proof -
  have "0 < now" "0 \<le> lm_max lm" "sorted (now # concat (map event_times evs))"
    using assms by (auto simp: chronological_def sane_def)
  with watched_run [OF assms(1) watched_start [OF this(1,2)] _ assms(3)] show ?thesis
    by (auto simp: watched_def tracks_def bounded_log_def)
qed

text \<open>
  C18 -- A client that is refused is locked out for exactly the time it is told: every check
  before is refused and every check from then on passes, whatever happened before.
\<close>

theorem lockout_ends:
  assumes run: "sane lm" "chronological now evs" "list_all (concerns il lm (resolveKey il ip scope)) evs"
    and refused: "limiter_check il lm ip scope t
                    (snd (limit_run il lm (resolveKey il ip scope) evs ([], []))) = (r, st)"
      "\<not> lk_allowed r"
  shows "0 < lk_retry r \<and>
    (\<forall>d\<ge>0. lk_allowed (fst (limiter_check il lm ip scope (t + d) st)) \<longleftrightarrow> lk_retry r \<le> d)"
proof -
  let ?key = "resolveKey il ip scope"
  let ?st = "snd (limit_run il lm ?key evs ([], []))"
  have "0 < now" "0 \<le> lm_max lm" "sorted (now # concat (map event_times evs))"
    using run by (auto simp: chronological_def sane_def)
  with watched_run [OF run(1) watched_start [OF this(1,2)] _ run(3)] obtain now' where
    tr: "tracks lm now' (fst (limit_run il lm ?key evs ([], []))) (obj_get ?st ?key)"
    by (auto simp: watched_def)
  from refused have exm: "\<not> isExempt il lm ip" and "obj_get ?st ?key \<noteq> None"
    by (auto simp: limiter_check_def Let_def split: if_splits option.splits)
  then obtain e where e: "obj_get ?st ?key = Some e" by auto
  have lock: "locked_at e t"
  proof (rule ccontr)
    assume no: "\<not> locked_at e t"
    have "int (length (le_attempts (slideWindow lm t (unlock e)))) < lm_max lm"
    proof (cases "le_locked e")
      case None
      with tr e have "int (length (le_attempts e)) < lm_max lm" by (auto simp: tracks_def)
      with None show ?thesis
        using le_less_trans [of "int (length (filter (\<lambda>ts. t - lm_window lm < ts) (le_attempts e)))"
            "int (length (le_attempts e))" "lm_max lm"]
        by (simp add: slideWindow_def unlock_def lock_set_def)
    next
      case (Some l)
      with tr e run(1) show ?thesis
        by (auto simp: tracks_def slideWindow_def unlock_def lock_set_def sane_def)
    qed
    with refused no e exm show False by (auto simp: limiter_check_def Let_def)
  qed
  then obtain l where l: "le_locked e = Some l" "l \<noteq> 0" "t < l"
    by (auto simp: locked_at_def split: option.splits)
  have r: "lk_retry r = l - t" "st = ?st"
    using refused lock e exm l by (auto simp: limiter_check_def Let_def)
  have "lk_allowed (fst (limiter_check il lm ip scope (t + d) st)) \<longleftrightarrow> l - t \<le> d" for d
    using run(1) e exm l
    by (auto simp: r(2) limiter_check_def Let_def locked_at_def slideWindow_def unlock_def lock_set_def sane_def)
  with r l show ?thesis by simp
qed

subsection \<open>Witnesses\<close>

definition demo_limits :: limits where
  "demo_limits = createAuthRateLimiter \<lparr>lc_max = Some 2, lc_window = Some (Fin 100), lc_lockout = Some (Fin 200), lc_exempt = None\<rparr>"

definition demo_attack :: "limit_event list" where
  "demo_attack =
     [Guess (Some ''9.9.9.9'') None 1000 1000, Prune 1010, Guess (Some ''9.9.9.9'') None 1050 1051,
      Guess (Some ''9.9.9.9'') None 1060 1060, Clear (Some ''8.8.8.8'') None]"

definition demo_client_key :: string where "demo_client_key = resolveKey demo_ip (Some ''9.9.9.9'') None"

lemma demo_attack_run:
  "limit_run demo_ip demo_limits demo_client_key demo_attack ([], []) =
     ([1000, 1051], [(''default:9.9.9.9'', \<lparr>le_attempts = [1000, 1051], le_locked = Some 1251\<rparr>)])"
  by code_simp

lemma demo_attack_ok:
  "sane demo_limits" "chronological 1000 demo_attack" "list_all (concerns demo_ip demo_limits demo_client_key) demo_attack"
  by code_simp+

lemma guessing_is_bounded_witness: "length (filter (\<lambda>s. 950 < s \<and> s \<le> 1050) [1000, 1051 :: int]) \<le> 2"
  using guessing_is_bounded [OF demo_attack_ok, of 950]
  by (simp add: demo_attack_run)

lemma lockout_ends_witness:
  "lk_allowed (fst (limiter_check demo_ip demo_limits (Some ''9.9.9.9'') None (1100 + 151)
     (snd (limit_run demo_ip demo_limits demo_client_key demo_attack ([], [])))))"
proof -
  let ?st = "snd (limit_run demo_ip demo_limits demo_client_key demo_attack ([], []))"
  have st: "?st = [(''default:9.9.9.9'', \<lparr>le_attempts = [1000, 1051], le_locked = Some 1251\<rparr>)]"
    by (simp add: demo_attack_run)
  have refused: "limiter_check demo_ip demo_limits (Some ''9.9.9.9'') None 1100 ?st =
      (\<lparr>lk_allowed = False, lk_remaining = 0, lk_retry = 151\<rparr>, ?st)"
    unfolding st by code_simp
  from lockout_ends [OF demo_attack_ok(1,2) demo_attack_ok(3) [unfolded demo_client_key_def]
      refused [unfolded demo_client_key_def]]
  have "\<forall>d\<ge>0. lk_allowed (fst (limiter_check demo_ip demo_limits (Some ''9.9.9.9'') None (1100 + d) ?st))
      \<longleftrightarrow> 151 \<le> d"
    by (simp add: demo_client_key_def)
  from this [rule_format, of 151] show ?thesis by simp
qed

end
