(* ===== verification/Gateway_Auth.thy ===== *)
theory Gateway_Auth
  imports Rate_Limit
begin

text \<open>
  The authorisation of a connection to the gateway: src/src/gateway/auth.ts, the HTTP side of
  it in http-auth-utils.ts, the comparison of secrets in src/src/security/secret-equal.ts, the
  operator scopes and the scopes a plugin route runs with.

  The limiter is threaded through as a state (None when there is none); the network
  interfaces, the URL class, the Tailscale lookup and the two readings of the clock are
  fields of the environment.
\<close>

subsection \<open>Secrets\<close>

definition padSecretBytes :: "string \<Rightarrow> nat \<Rightarrow> string" where
  "padSecretBytes bytes n =
     (if length bytes = n then bytes else bytes @ replicate (n - length bytes) (CHR 0x00))"

definition safeEqualSecret :: "string option \<Rightarrow> string option \<Rightarrow> bool" where
  "safeEqualSecret provided expected \<longleftrightarrow>
     (case (provided, expected) of
        (Some p, Some e) \<Rightarrow>
          (let n = max (length p) (length e) in
           if n = 0 then True
           else padSecretBytes p n = padSecretBytes e n \<and> length p = length e)
      | _ \<Rightarrow> False)"

lemma safeEqualSecret_iff: "safeEqualSecret a b \<longleftrightarrow> (\<exists>s. a = Some s \<and> b = Some s)"
  by (auto simp: safeEqualSecret_def padSecretBytes_def Let_def split: option.splits if_splits)

text \<open>A JavaScript text is true when it is there and not empty.\<close>

definition truthy_text :: "string option \<Rightarrow> bool" where
  "truthy_text x \<longleftrightarrow> (case x of Some s \<Rightarrow> s \<noteq> [] | None \<Rightarrow> False)"

subsection \<open>The configuration and the request\<close>

text \<open>A mode outside the four of the type reaches the last line of the authorisation.\<close>

datatype auth_mode = ModeNone | ModeToken | ModePassword | ModeTrustedProxy | ModeOther string

record proxy_config =
  pc_user_header :: string
  pc_required :: "string list"
  pc_users :: "string list"
  pc_loopback :: bool

record gateway_auth =
  ga_mode :: auth_mode
  ga_token :: "string option"
  ga_password :: "string option"
  ga_tailscale :: bool
  ga_proxy :: "proxy_config option"

datatype auth_surface = SurfaceHttp | SurfaceWsControlUi

record connect_params =
  gp_auth :: gateway_auth
  gp_token :: "string option"
  gp_password :: "string option"
  gp_req :: "http_peer option"
  gp_proxies :: "string list"
  gp_surface :: auth_surface
  gp_client_ip :: "string option"
  gp_scope :: "string option"
  gp_real_ip :: bool
  gp_origin :: "origin_policy option"

datatype auth_method =
  ByNone | ByToken | ByPassword | ByTailscale | ByDeviceToken | ByBootstrapToken | ByTrustedProxy

datatype auth_result = AuthOk auth_method "string option" | AuthRefused string | AuthLimited int

record auth_env =
  en_ip :: ip_lib
  en_interfaces :: "string list option"
  en_url :: "string \<Rightarrow> url_origin option"
  en_whois :: "string \<Rightarrow> string option"
  en_check_ms :: int
  en_record_ms :: int

type_synonym auth_limiter = "(limits \<times> limiter) option"

datatype config_error =
  TokenNotConfigured | PasswordIsReference | PasswordNotConfigured
| ProxyConfigMissing | ProxyUserHeaderEmpty | ProxyWithToken

text \<open>\<open>reference\<close>: the raw configuration holds a password that is no text.\<close>

definition assertGatewayAuthConfigured :: "gateway_auth \<Rightarrow> bool \<Rightarrow> config_error option" where
  "assertGatewayAuthConfigured a reference =
     (if ga_mode a = ModeToken \<and> \<not> truthy_text (ga_token a) then
        (if ga_tailscale a then None else Some TokenNotConfigured)
      else if ga_mode a = ModePassword \<and> \<not> truthy_text (ga_password a) then
        Some (if reference then PasswordIsReference else PasswordNotConfigured)
      else if ga_mode a = ModeTrustedProxy then
        (case ga_proxy a of
           None \<Rightarrow> Some ProxyConfigMissing
         | Some c \<Rightarrow>
             if trim (pc_user_header c) = [] then Some ProxyUserHeaderEmpty
             else if truthy_text (ga_token a) then Some ProxyWithToken
             else None)
      else None)"

subsection \<open>Who is asking\<close>

definition header_present :: "header_value option \<Rightarrow> bool" where
  "header_present v \<longleftrightarrow> (case v of None \<Rightarrow> False | Some (HText s) \<Rightarrow> s \<noteq> [] | Some (HList _) \<Rightarrow> True)"

definition hasForwardedRequestHeaders :: "http_peer option \<Rightarrow> bool" where
  "hasForwardedRequestHeaders req \<longleftrightarrow>
     (case req of
        None \<Rightarrow> False
      | Some q \<Rightarrow>
          header_present (obj_get (hq_headers q) ''forwarded'') \<or>
          header_present (obj_get (hq_headers q) ''x-real-ip'') \<or>
          list_ex (\<lambda>h. starts_with (to_lower (trim h)) ''x-forwarded-'') (obj_keys (hq_headers q)))"

definition isLocalDirectRequest :: "ip_lib \<Rightarrow> http_peer option \<Rightarrow> bool" where
  "isLocalDirectRequest il req \<longleftrightarrow>
     (case req of
        None \<Rightarrow> False
      | Some q \<Rightarrow> \<not> hasForwardedRequestHeaders req \<and> isLoopbackAddress il (hq_remote q))"

definition request_ip :: "auth_env \<Rightarrow> connect_params \<Rightarrow> string option" where
  "request_ip en p =
     (case gp_client_ip p of
        Some i \<Rightarrow> Some i
      | None \<Rightarrow>
          (case resolveRequestClientIp (en_ip en) (gp_req p) (gp_proxies p) (gp_real_ip p) of
             Some i \<Rightarrow> Some i
           | None \<Rightarrow> Option.bind (gp_req p) hq_remote))"

definition request_scope :: "connect_params \<Rightarrow> string" where
  "request_scope p = (case gp_scope p of Some s \<Rightarrow> s | None \<Rightarrow> AUTH_RATE_LIMIT_SCOPE_SHARED_SECRET)"

definition local_direct :: "auth_env \<Rightarrow> connect_params \<Rightarrow> bool" where
  "local_direct en p = isLocalDirectRequest (en_ip en) (gp_req p)"

definition hasExplicitSharedSecretAuth :: "connect_params \<Rightarrow> bool" where
  "hasExplicitSharedSecretAuth p \<longleftrightarrow> trim_opt (gp_token p) \<noteq> None \<or> trim_opt (gp_password p) \<noteq> None"

definition resolveTailscaleClientIp :: "ip_lib \<Rightarrow> http_peer \<Rightarrow> string option" where
  "resolveTailscaleClientIp il q =
     resolveClientIp il (Some (or_empty (hq_remote q)))
       (headerValue (obj_get (hq_headers q) ''x-forwarded-for'')) None [''127.0.0.1'', ''::1''] False"

definition isTailscaleProxyRequest :: "ip_lib \<Rightarrow> http_peer \<Rightarrow> bool" where
  "isTailscaleProxyRequest il q \<longleftrightarrow>
     isLoopbackAddress il (hq_remote q) \<and>
     list_all (\<lambda>h. header_present (obj_get (hq_headers q) h))
       [''x-forwarded-for'', ''x-forwarded-proto'', ''x-forwarded-host'']"

text \<open>The lookup answers the login of the address; the verified user is that login.\<close>

definition resolveVerifiedTailscaleUser :: "auth_env \<Rightarrow> http_peer option \<Rightarrow> string + string" where
  "resolveVerifiedTailscaleUser en req =
     (case req of
        None \<Rightarrow> Inl ''tailscale_user_missing''
      | Some q \<Rightarrow>
          (case header_text (obj_get (hq_headers q) ''tailscale-user-login'') of
             None \<Rightarrow> Inl ''tailscale_user_missing''
           | Some login \<Rightarrow>
               if \<not> isTailscaleProxyRequest (en_ip en) q then Inl ''tailscale_proxy_missing''
               else (case resolveTailscaleClientIp (en_ip en) q of
                       None \<Rightarrow> Inl ''tailscale_whois_failed''
                     | Some ip \<Rightarrow>
                         if ip = [] \<or> \<not> truthy_text (en_whois en ip) then Inl ''tailscale_whois_failed''
                         else if to_lower (trim (the (en_whois en ip))) \<noteq> to_lower (trim login)
                         then Inl ''tailscale_user_mismatch''
                         else Inr (the (en_whois en ip)))))"

subsection \<open>Trusted proxies\<close>

definition proxy_source :: "auth_env \<Rightarrow> proxy_config \<Rightarrow> string list \<Rightarrow> http_peer \<Rightarrow> string option" where
  "proxy_source en c proxies q =
     (if \<not> truthy_text (hq_remote q) \<or> \<not> isTrustedProxyAddress (en_ip en) (hq_remote q) proxies
      then Some ''trusted_proxy_untrusted_source''
      else if isLoopbackAddress (en_ip en) (hq_remote q) then
        (if pc_loopback c then None else Some ''trusted_proxy_loopback_source'')
      else (case resolveLocalInterfaceAddressMatch (en_ip en) (en_interfaces en) (hq_remote q) of
              None \<Rightarrow> Some ''trusted_proxy_local_interface_check_failed''
            | Some True \<Rightarrow> Some ''trusted_proxy_local_interface_source''
            | Some False \<Rightarrow> None))"

definition blank_header :: "http_peer \<Rightarrow> string \<Rightarrow> bool" where
  "blank_header q h \<longleftrightarrow> trim (or_empty (headerValue (obj_get (hq_headers q) (to_lower (trim h))))) = []"

definition authorizeTrustedProxy ::
  "auth_env \<Rightarrow> http_peer option \<Rightarrow> string list \<Rightarrow> proxy_config \<Rightarrow> string + string" where
  "authorizeTrustedProxy en req proxies c =
     (case req of
        None \<Rightarrow> Inl ''trusted_proxy_no_request''
      | Some q \<Rightarrow>
          (case proxy_source en c proxies q of
             Some e \<Rightarrow> Inl e
           | None \<Rightarrow>
               (case find (blank_header q) (pc_required c) of
                  Some h \<Rightarrow> Inl (''trusted_proxy_missing_header_'' @ h)
                | None \<Rightarrow>
                    if blank_header q (pc_user_header c) then Inl ''trusted_proxy_user_missing''
                    else (let user = trim (or_empty (getHeader q (pc_user_header c))) in
                          if pc_users c \<noteq> [] \<and> user \<notin> set (pc_users c)
                          then Inl ''trusted_proxy_user_not_allowed'' else Inr user))))"

definition authorizeTrustedProxyBrowserOrigin :: "auth_env \<Rightarrow> connect_params \<Rightarrow> bool" where
  "authorizeTrustedProxyBrowserOrigin en p \<longleftrightarrow>
     gp_surface p \<noteq> SurfaceHttp \<or>
     (case gp_origin p of
        None \<Rightarrow> True
      | Some pol \<Rightarrow>
          (case trim_opt (op_origin pol) of
             None \<Rightarrow> True
           | Some origin \<Rightarrow>
               (case checkBrowserOrigin (en_ip en) (en_url en) (pol\<lparr>op_origin := Some origin\<rparr>) (Some False) of
                  Inr _ \<Rightarrow> True | Inl _ \<Rightarrow> False)))"

subsection \<open>Shared secrets under the limiter\<close>

definition rejectIfRateLimited ::
  "auth_env \<Rightarrow> string option \<Rightarrow> string \<Rightarrow> auth_limiter \<Rightarrow> auth_result option \<times> auth_limiter" where
  "rejectIfRateLimited en ip scope bk =
     (case bk of
        None \<Rightarrow> (None, bk)
      | Some (lm, st) \<Rightarrow>
          (case limiter_check (en_ip en) lm ip (Some scope) (en_check_ms en) st of
             (r, st') \<Rightarrow> (if lk_allowed r then None else Some (AuthLimited (lk_retry r)), Some (lm, st'))))"

definition note_failure :: "auth_env \<Rightarrow> string option \<Rightarrow> string \<Rightarrow> auth_limiter \<Rightarrow> auth_limiter" where
  "note_failure en ip scope bk =
     map_option (\<lambda>(lm, st). (lm, recordFailure (en_ip en) lm ip (Some scope) (en_record_ms en) st)) bk"

definition note_success :: "auth_env \<Rightarrow> string option \<Rightarrow> string \<Rightarrow> auth_limiter \<Rightarrow> auth_limiter" where
  "note_success en ip scope bk =
     map_option (\<lambda>(lm, st). (lm, limiter_reset (en_ip en) ip (Some scope) st)) bk"

text \<open>\<open>authorizeTokenAuth\<close> and \<open>authorizePasswordAuth\<close>: they differ in the method and in the reasons.\<close>

definition authorize_secret ::
  "auth_env \<Rightarrow> auth_method \<Rightarrow> string \<Rightarrow> string option \<Rightarrow> string option \<Rightarrow> string option \<Rightarrow> string \<Rightarrow>
     auth_limiter \<Rightarrow> auth_result \<times> auth_limiter" where
  "authorize_secret en m name expected provided ip scope bk =
     (if \<not> truthy_text expected then (AuthRefused (name @ ''_missing_config''), bk)
      else if \<not> truthy_text provided then (AuthRefused (name @ ''_missing''), bk)
      else if \<not> safeEqualSecret provided expected
      then (AuthRefused (name @ ''_mismatch''), note_failure en ip scope bk)
      else (AuthOk m None, note_success en ip scope bk))"

definition authorizeTokenAuth ::
  "auth_env \<Rightarrow> string option \<Rightarrow> string option \<Rightarrow> string option \<Rightarrow> string \<Rightarrow> auth_limiter \<Rightarrow> auth_result \<times> auth_limiter" where
  "authorizeTokenAuth en authToken connectToken = authorize_secret en ByToken ''token'' authToken connectToken"

definition authorizePasswordAuth ::
  "auth_env \<Rightarrow> string option \<Rightarrow> string option \<Rightarrow> string option \<Rightarrow> string \<Rightarrow> auth_limiter \<Rightarrow> auth_result \<times> auth_limiter" where
  "authorizePasswordAuth en authPassword connectPassword =
     authorize_secret en ByPassword ''password'' authPassword connectPassword"

subsection \<open>The authorisation of a connection\<close>

definition authorize_proxy_mode ::
  "auth_env \<Rightarrow> connect_params \<Rightarrow> auth_limiter \<Rightarrow> auth_result \<times> auth_limiter" where
  "authorize_proxy_mode en p bk =
     (case ga_proxy (gp_auth p) of
        None \<Rightarrow> (AuthRefused ''trusted_proxy_config_missing'', bk)
      | Some c \<Rightarrow>
          if gp_proxies p = [] then (AuthRefused ''trusted_proxy_no_proxies_configured'', bk)
          else (case authorizeTrustedProxy en (gp_req p) (gp_proxies p) c of
                  Inr user \<Rightarrow>
                    (if authorizeTrustedProxyBrowserOrigin en p then AuthOk ByTrustedProxy (Some user)
                     else AuthRefused ''trusted_proxy_origin_not_allowed'', bk)
                | Inl reason \<Rightarrow>
                    if local_direct en p \<and> truthy_text (ga_password (gp_auth p)) \<and> truthy_text (gp_password p)
                    then (case rejectIfRateLimited en (request_ip en p) (request_scope p) bk of
                            (Some r, bk') \<Rightarrow> (r, bk')
                          | (None, bk') \<Rightarrow>
                              authorizePasswordAuth en (ga_password (gp_auth p)) (gp_password p)
                                (request_ip en p) (request_scope p) bk')
                    else (AuthRefused reason, bk)))"

definition authorize_secret_mode ::
  "auth_env \<Rightarrow> connect_params \<Rightarrow> auth_limiter \<Rightarrow> auth_result \<times> auth_limiter" where
  "authorize_secret_mode en p bk =
     (let a = gp_auth p; ip = request_ip en p; scope = request_scope p in
      case ga_mode a of
        ModeToken \<Rightarrow> authorizeTokenAuth en (ga_token a) (gp_token p) ip scope bk
      | ModePassword \<Rightarrow> authorizePasswordAuth en (ga_password a) (gp_password p) ip scope bk
      | _ \<Rightarrow> (AuthRefused ''unauthorized'', note_failure en ip scope bk))"

definition tailscale_login :: "auth_env \<Rightarrow> connect_params \<Rightarrow> string option" where
  "tailscale_login en p =
     (if gp_surface p = SurfaceWsControlUi \<and> ga_tailscale (gp_auth p) \<and> \<not> local_direct en p \<and>
         \<not> hasExplicitSharedSecretAuth p
      then (case resolveVerifiedTailscaleUser en (gp_req p) of Inr u \<Rightarrow> Some u | Inl _ \<Rightarrow> None)
      else None)"

definition authorizeGatewayConnectCore ::
  "auth_env \<Rightarrow> connect_params \<Rightarrow> auth_limiter \<Rightarrow> auth_result \<times> auth_limiter" where
  "authorizeGatewayConnectCore en p bk =
     (if ga_mode (gp_auth p) = ModeTrustedProxy then authorize_proxy_mode en p bk
      else if ga_mode (gp_auth p) = ModeNone then (AuthOk ByNone None, bk)
      else (case rejectIfRateLimited en (request_ip en p) (request_scope p) bk of
              (Some r, bk') \<Rightarrow> (r, bk')
            | (None, bk') \<Rightarrow>
                (case tailscale_login en p of
                   Some user \<Rightarrow>
                     (AuthOk ByTailscale (Some user),
                      note_success en (request_ip en p) (request_scope p) bk')
                 | None \<Rightarrow> authorize_secret_mode en p bk')))"

text \<open>
  \<open>authorizeGatewayConnect\<close> runs the core; where it first queues behind the other attempts of
  the same client it only fixes the order of the runs.
\<close>

definition authorizeHttpGatewayConnect ::
  "auth_env \<Rightarrow> connect_params \<Rightarrow> auth_limiter \<Rightarrow> auth_result \<times> auth_limiter" where
  "authorizeHttpGatewayConnect en p bk =
     authorizeGatewayConnectCore en (p\<lparr>gp_surface := SurfaceHttp\<rparr>) bk"

definition authorizeWsControlUiGatewayConnect ::
  "auth_env \<Rightarrow> connect_params \<Rightarrow> auth_limiter \<Rightarrow> auth_result \<times> auth_limiter" where
  "authorizeWsControlUiGatewayConnect en p bk =
     authorizeGatewayConnectCore en (p\<lparr>gp_surface := SurfaceWsControlUi\<rparr>) bk"

subsection \<open>HTTP requests\<close>

definition getBearerToken :: "http_peer \<Rightarrow> string option" where
  "getBearerToken q =
     (let raw = (case trim_opt (getHeader q ''authorization'') of Some t \<Rightarrow> t | None \<Rightarrow> [])
      in if starts_with (to_lower (trim raw)) ''bearer '' then trim_opt (Some (drop 7 raw)) else None)"

definition usesSharedSecretGatewayMethod :: "auth_method \<Rightarrow> bool" where
  "usesSharedSecretGatewayMethod m \<longleftrightarrow> m = ByToken \<or> m = ByPassword"

record http_auth =
  ha_method :: auth_method
  ha_trust_scopes :: bool

record http_config =
  hc_auth :: gateway_auth
  hc_proxies :: "string list"
  hc_real_ip :: bool
  hc_allowed_origins :: "string list"
  hc_host_fallback :: bool

definition resolveHttpBrowserOriginPolicy :: "http_config \<Rightarrow> http_peer \<Rightarrow> origin_policy" where
  "resolveHttpBrowserOriginPolicy c q =
     \<lparr>op_request_host = getHeader q ''host'', op_origin = getHeader q ''origin'',
      op_allowed = hc_allowed_origins c, op_host_fallback = hc_host_fallback c\<rparr>"

definition http_connect :: "http_config \<Rightarrow> http_peer \<Rightarrow> connect_params" where
  "http_connect c q =
     (let t = (case getBearerToken q of Some s \<Rightarrow> if s = [] then None else Some s | None \<Rightarrow> None)
      in \<lparr>gp_auth = hc_auth c, gp_token = t, gp_password = t, gp_req = Some q,
          gp_proxies = hc_proxies c, gp_surface = SurfaceHttp, gp_client_ip = None, gp_scope = None,
          gp_real_ip = hc_real_ip c, gp_origin = Some (resolveHttpBrowserOriginPolicy c q)\<rparr>)"

definition checkGatewayHttpRequestAuth ::
  "auth_env \<Rightarrow> http_config \<Rightarrow> http_peer \<Rightarrow> auth_limiter \<Rightarrow> (auth_result + http_auth) \<times> auth_limiter" where
  "checkGatewayHttpRequestAuth en c q bk =
     (case authorizeHttpGatewayConnect en (http_connect c q) bk of
        (AuthOk m u, bk') \<Rightarrow>
          (Inr \<lparr>ha_method = m, ha_trust_scopes = (\<not> usesSharedSecretGatewayMethod m)\<rparr>, bk')
      | (r, bk') \<Rightarrow> (Inl r, bk'))"

subsection \<open>Operator scopes\<close>

definition authorizeOperatorScopesForRequiredScope :: "string \<Rightarrow> string list \<Rightarrow> string option" where
  "authorizeOperatorScopesForRequiredScope required scopes =
     (if ADMIN_SCOPE \<in> set scopes then None
      else if required = READ_SCOPE then
        (if READ_SCOPE \<in> set scopes \<or> WRITE_SCOPE \<in> set scopes then None else Some READ_SCOPE)
      else if required \<in> set scopes then None else Some required)"

definition resolveTrustedHttpOperatorScopes :: "http_peer \<Rightarrow> http_auth \<Rightarrow> string list" where
  "resolveTrustedHttpOperatorScopes q a =
     (if \<not> ha_trust_scopes a then []
      else (case getHeader q ''x-openclaw-scopes'' of
              None \<Rightarrow> CLI_DEFAULT_OPERATOR_SCOPES
            | Some h \<Rightarrow>
                if trim h = [] then []
                else filter (\<lambda>s. s \<noteq> []) (map trim (split_on (CHR '','') (trim h)))))"

definition resolveSharedSecretHttpOperatorScopes :: "http_peer \<Rightarrow> http_auth \<Rightarrow> string list" where
  "resolveSharedSecretHttpOperatorScopes q a =
     (if usesSharedSecretGatewayMethod (ha_method a) then CLI_DEFAULT_OPERATOR_SCOPES
      else resolveTrustedHttpOperatorScopes q a)"

definition resolveHttpSenderIsOwner :: "http_peer \<Rightarrow> http_auth \<Rightarrow> bool" where
  "resolveHttpSenderIsOwner q a \<longleftrightarrow> ADMIN_SCOPE \<in> set (resolveTrustedHttpOperatorScopes q a)"

datatype scope_surface = WriteDefault | TrustedOperator

definition resolvePluginRouteRuntimeOperatorScopes ::
  "http_peer \<Rightarrow> http_auth \<Rightarrow> scope_surface \<Rightarrow> string list" where
  "resolvePluginRouteRuntimeOperatorScopes q a surface =
     (if surface = TrustedOperator then
        (if \<not> ha_trust_scopes a then CLI_DEFAULT_OPERATOR_SCOPES
         else resolveTrustedHttpOperatorScopes q a)
      else if ha_method a \<noteq> ByTrustedProxy then [WRITE_SCOPE]
      else if getHeader q ''x-openclaw-scopes'' = None then [WRITE_SCOPE]
      else resolveTrustedHttpOperatorScopes q a)"

subsection \<open>What an accepted connection has shown\<close>

definition same_secret :: "string option \<Rightarrow> string option \<Rightarrow> bool" where
  "same_secret a b \<longleftrightarrow> (\<exists>s. s \<noteq> [] \<and> a = Some s \<and> b = Some s)"

definition vouched_by_proxy :: "auth_env \<Rightarrow> connect_params \<Rightarrow> string option \<Rightarrow> bool" where
  "vouched_by_proxy en p u \<longleftrightarrow>
     (\<exists>c q user. ga_proxy (gp_auth p) = Some c \<and> gp_req p = Some q \<and> u = Some user \<and> user \<noteq> [] \<and>
        isTrustedProxyAddress (en_ip en) (hq_remote q) (gp_proxies p) \<and>
        (if isLoopbackAddress (en_ip en) (hq_remote q) then pc_loopback c
         else resolveLocalInterfaceAddressMatch (en_ip en) (en_interfaces en) (hq_remote q) = Some False) \<and>
        (\<forall>h\<in>set (pc_required c). \<not> blank_header q h) \<and>
        user = trim (or_empty (getHeader q (pc_user_header c))) \<and>
        (pc_users c \<noteq> [] \<longrightarrow> user \<in> set (pc_users c)) \<and>
        authorizeTrustedProxyBrowserOrigin en p)"

definition vouched_by_tailscale :: "auth_env \<Rightarrow> connect_params \<Rightarrow> string option \<Rightarrow> bool" where
  "vouched_by_tailscale en p u \<longleftrightarrow>
     gp_surface p = SurfaceWsControlUi \<and> ga_tailscale (gp_auth p) \<and>
     (\<exists>q ip login. gp_req p = Some q \<and> isTailscaleProxyRequest (en_ip en) q \<and>
        resolveTailscaleClientIp (en_ip en) q = Some ip \<and> en_whois en ip = u \<and>
        header_text (obj_get (hq_headers q) ''tailscale-user-login'') = Some login \<and>
        to_lower (trim (or_empty u)) = to_lower (trim login))"

text \<open>The limiter, where there is one, lets the client try.\<close>

definition limiter_admits :: "auth_env \<Rightarrow> connect_params \<Rightarrow> auth_limiter \<Rightarrow> bool" where
  "limiter_admits en p bk \<longleftrightarrow>
     (\<forall>lm st. bk = Some (lm, st) \<longrightarrow>
        lk_allowed (fst (limiter_check (en_ip en) lm (request_ip en p) (Some (request_scope p)) (en_check_ms en) st)))"

lemma not_limited:
  "fst (rejectIfRateLimited en (request_ip en p) (request_scope p) bk) = None \<longleftrightarrow> limiter_admits en p bk"
  by (auto simp: rejectIfRateLimited_def limiter_admits_def split: option.splits prod.splits)

definition proves_identity :: "auth_env \<Rightarrow> connect_params \<Rightarrow> auth_method \<Rightarrow> string option \<Rightarrow> bool" where
  "proves_identity en p m u \<longleftrightarrow>
     (case m of
        ByNone \<Rightarrow> ga_mode (gp_auth p) = ModeNone
      | ByToken \<Rightarrow> ga_mode (gp_auth p) = ModeToken \<and> same_secret (ga_token (gp_auth p)) (gp_token p)
      | ByPassword \<Rightarrow>
          (ga_mode (gp_auth p) = ModePassword \<or>
           ga_mode (gp_auth p) = ModeTrustedProxy \<and> local_direct en p) \<and>
          same_secret (ga_password (gp_auth p)) (gp_password p)
      | ByTailscale \<Rightarrow> vouched_by_tailscale en p u
      | ByTrustedProxy \<Rightarrow> ga_mode (gp_auth p) = ModeTrustedProxy \<and> vouched_by_proxy en p u
      | _ \<Rightarrow> False)"

lemma authorize_secret_ok:
  "authorize_secret en m name e s ip scope bk = (AuthOk m' u, bk') \<Longrightarrow> m' = m \<and> same_secret e s"
  by (auto simp: authorize_secret_def safeEqualSecret_iff same_secret_def truthy_text_def
      split: if_splits option.splits)

lemma authorizeTrustedProxy_ok:
  assumes "authorizeTrustedProxy en (gp_req p) (gp_proxies p) c = Inr user"
    "ga_proxy (gp_auth p) = Some c" "authorizeTrustedProxyBrowserOrigin en p"
  shows "vouched_by_proxy en p (Some user)"
proof -
  obtain q where q: "gp_req p = Some q" using assms(1) by (cases "gp_req p") (auto simp: authorizeTrustedProxy_def)
  have src: "proxy_source en c (gp_proxies p) q = None" and req: "find (blank_header q) (pc_required c) = None"
    and usr: "\<not> blank_header q (pc_user_header c)" "user = trim (or_empty (getHeader q (pc_user_header c)))"
      "pc_users c \<noteq> [] \<longrightarrow> user \<in> set (pc_users c)"
    using assms(1) q by (auto simp: authorizeTrustedProxy_def Let_def split: option.splits if_splits)
  have "isTrustedProxyAddress (en_ip en) (hq_remote q) (gp_proxies p)"
    "if isLoopbackAddress (en_ip en) (hq_remote q) then pc_loopback c
     else resolveLocalInterfaceAddressMatch (en_ip en) (en_interfaces en) (hq_remote q) = Some False"
    using src by (auto simp: proxy_source_def split: if_splits option.splits)
  with q req usr assms(2,3) show ?thesis
    by (auto simp: vouched_by_proxy_def find_None_iff blank_header_def getHeader_def)
qed

lemma tailscale_login_ok: "tailscale_login en p = Some u \<Longrightarrow> vouched_by_tailscale en p (Some u)"
  by (auto simp: tailscale_login_def resolveVerifiedTailscaleUser_def vouched_by_tailscale_def
      truthy_text_def or_empty_def split: if_splits option.splits sum.splits)

lemma proxy_mode_ok:
  assumes "authorize_proxy_mode en p bk = (AuthOk m u, bk')" "ga_mode (gp_auth p) = ModeTrustedProxy"
  shows "proves_identity en p m u \<and> (m = ByTrustedProxy \<or> limiter_admits en p bk)"
proof -
  obtain c where c: "ga_proxy (gp_auth p) = Some c" "gp_proxies p \<noteq> []"
    using assms(1) by (auto simp: authorize_proxy_mode_def split: option.splits if_splits)
  show ?thesis
  proof (cases "authorizeTrustedProxy en (gp_req p) (gp_proxies p) c")
    case (Inr user)
    with c assms have "m = ByTrustedProxy" "u = Some user" "authorizeTrustedProxyBrowserOrigin en p"
      by (auto simp: authorize_proxy_mode_def split: if_splits)
    with authorizeTrustedProxy_ok [OF Inr c(1)] assms(2) show ?thesis
      by (simp add: proves_identity_def)
  next
    case (Inl reason)
    obtain res bk1 where rl: "rejectIfRateLimited en (request_ip en p) (request_scope p) bk = (res, bk1)" by force
    have "res = None"
      using c assms(1) Inl rl
      by (auto simp: authorize_proxy_mode_def rejectIfRateLimited_def split: if_splits option.splits prod.splits)
    moreover from this have "local_direct en p" "authorizePasswordAuth en (ga_password (gp_auth p)) (gp_password p)
         (request_ip en p) (request_scope p) bk1 = (AuthOk m u, bk')"
      using c assms(1) Inl rl by (auto simp: authorize_proxy_mode_def split: if_splits)
    ultimately show ?thesis
      using authorize_secret_ok assms(2) rl not_limited [of en p bk]
      by (force simp: proves_identity_def authorizePasswordAuth_def)
  qed
qed

lemma authorize_core_ok:
  assumes "authorizeGatewayConnectCore en p bk = (AuthOk m u, bk')"
  shows "proves_identity en p m u \<and> (m = ByNone \<or> m = ByTrustedProxy \<or> limiter_admits en p bk)"
proof (cases "ga_mode (gp_auth p) \<in> {ModeNone, ModeTrustedProxy}")
  case True
  with assms proxy_mode_ok [of en p bk m u bk'] show ?thesis
    by (auto simp: authorizeGatewayConnectCore_def proves_identity_def)
next
  case False
  with assms obtain bk1 where
    free: "rejectIfRateLimited en (request_ip en p) (request_scope p) bk = (None, bk1)"
    and rest: "(case tailscale_login en p of
        Some user \<Rightarrow> (AuthOk ByTailscale (Some user), note_success en (request_ip en p) (request_scope p) bk1)
      | None \<Rightarrow> authorize_secret_mode en p bk1) = (AuthOk m u, bk')"
    by (auto simp: authorizeGatewayConnectCore_def rejectIfRateLimited_def
        split: if_splits option.splits prod.splits)
  have "proves_identity en p m u"
  proof (cases "tailscale_login en p")
    case (Some user)
    with rest tailscale_login_ok [OF Some] show ?thesis by (auto simp: proves_identity_def)
  next
    case None
    with rest False show ?thesis
      by (auto simp: authorize_secret_mode_def authorizeTokenAuth_def authorizePasswordAuth_def
          proves_identity_def Let_def split: auth_mode.splits dest!: authorize_secret_ok)
  qed
  with free not_limited [of en p bk] show ?thesis by simp
qed

text \<open>
  C15 -- A connection is authorised only if authentication is switched off, if it presents
  exactly the configured token or password, if the Tailscale lookup of its address confirms
  the login it claims, or if a trusted proxy names an allowed user for it: a proxy of the list that is
  not this host itself (no address of its interfaces, or loopback where that is allowed), with every
  required header, for a page of an allowed origin where the request names one over HTTP.  A client that the limiter refuses is never authorised by a secret or a login,
  in no mode: the local password next to a trusted proxy stands under the limiter as well.
\<close>

theorem gateway_auth_sound:
  assumes "authorizeGatewayConnectCore en p bk = (AuthOk m u, bk')"
  shows "proves_identity en p m u \<and>
    (m \<noteq> ByNone \<longrightarrow> m \<noteq> ByTrustedProxy \<longrightarrow> limiter_admits en p bk)"
  using authorize_core_ok [OF assms] by blast

subsection \<open>The authorisation is a run of the limiter\<close>

definition the_secret :: "connect_params \<Rightarrow> string option" where
  "the_secret p = (if ga_mode (gp_auth p) = ModeToken then ga_token (gp_auth p) else ga_password (gp_auth p))"

definition the_guess :: "connect_params \<Rightarrow> string option" where
  "the_guess p = (if ga_mode (gp_auth p) = ModeToken then gp_token p else gp_password p)"

text \<open>The steps of the limiter that an attempt with result \<open>r\<close> makes.\<close>

definition auth_events :: "auth_env \<Rightarrow> connect_params \<Rightarrow> auth_result \<Rightarrow> limit_event list" where
  "auth_events en p r =
     (let ip = request_ip en p; scope = Some (request_scope p) in
      if truthy_text (the_secret p) \<and> truthy_text (the_guess p) \<and> the_guess p \<noteq> the_secret p
      then [Guess ip scope (en_check_ms en) (en_record_ms en)]
      else Probe ip scope (en_check_ms en) #
        (case r of AuthOk _ _ \<Rightarrow> [Clear ip scope] | _ \<Rightarrow> []))"

text \<open>
  C16 -- Over HTTP with a token or a password the authorisation does to the limiter exactly a
  run of its steps: a guess for a wrong secret, a check for a missing one, a check and a
  clearing for the right one; so the bound on the guesses holds for the gateway.
\<close>

theorem auth_refines_limiter:
  assumes "ga_mode (gp_auth p) = ModeToken \<or> ga_mode (gp_auth p) = ModePassword"
    and "authorizeHttpGatewayConnect en p (Some (lm, st)) = (r, bk')"
  shows "bk' = Some (lm, snd (limit_run (en_ip en) lm key (auth_events en p r) (hist, st)))"
proof -
  let ?ip = "request_ip en p" and ?scope = "request_scope p"
  obtain c st1 where chk: "limiter_check (en_ip en) lm ?ip (Some ?scope) (en_check_ms en) st = (c, st1)"
    by (cases "limiter_check (en_ip en) lm ?ip (Some ?scope) (en_check_ms en) st")
  have same: "request_ip en (p\<lparr>gp_surface := SurfaceHttp\<rparr>) = ?ip"
    "request_scope (p\<lparr>gp_surface := SurfaceHttp\<rparr>) = ?scope"
    "tailscale_login en (p\<lparr>gp_surface := SurfaceHttp\<rparr>) = None"
    by (simp_all add: request_ip_def request_scope_def tailscale_login_def split: option.split)
  have mode: "ga_mode (gp_auth p) \<noteq> ModeTrustedProxy" "ga_mode (gp_auth p) \<noteq> ModeNone"
    using assms(1) by auto
  show ?thesis
  proof (cases "lk_allowed c")
    case False
    with assms(2) chk same mode have "r = AuthLimited (lk_retry c)" "bk' = Some (lm, st1)"
      by (auto simp: authorizeHttpGatewayConnect_def authorizeGatewayConnectCore_def rejectIfRateLimited_def)
    with chk False show ?thesis by (simp add: auth_events_def Let_def)
  next
    case True
    have "authorize_secret_mode en (p\<lparr>gp_surface := SurfaceHttp\<rparr>) (Some (lm, st1)) = (r, bk')"
      using assms(2) chk same mode True
      by (auto simp: authorizeHttpGatewayConnect_def authorizeGatewayConnectCore_def rejectIfRateLimited_def)
    then obtain m name where secret:
      "authorize_secret en m name (the_secret p) (the_guess p) ?ip ?scope (Some (lm, st1)) = (r, bk')"
      using assms(1) same
      by (auto simp: authorize_secret_mode_def authorizeTokenAuth_def authorizePasswordAuth_def
          the_secret_def the_guess_def)
    then show ?thesis
      using chk True
      by (auto simp: authorize_secret_def auth_events_def Let_def safeEqualSecret_iff note_failure_def
          note_success_def truthy_text_def split: if_splits option.splits)
  qed
qed

subsection \<open>Witnesses\<close>

definition demo_auth_env :: auth_env where
  "demo_auth_env = \<lparr>en_ip = demo_ip, en_interfaces = Some [], en_url = (\<lambda>_. None),
     en_whois = (\<lambda>_. None), en_check_ms = 1100, en_record_ms = 1101\<rparr>"

definition demo_peer :: http_peer where
  "demo_peer = \<lparr>hq_remote = Some ''9.9.9.9'', hq_headers = [(''authorization'', HText ''Bearer key'')]\<rparr>"

definition demo_http :: http_config where
  "demo_http = \<lparr>hc_auth = \<lparr>ga_mode = ModeToken, ga_token = Some ''key'', ga_password = None,
       ga_tailscale = False, ga_proxy = None\<rparr>, hc_proxies = [], hc_real_ip = False,
     hc_allowed_origins = [], hc_host_fallback = False\<rparr>"

definition demo_connect :: connect_params where "demo_connect = http_connect demo_http demo_peer"

lemma demo_accepted:
  "authorizeGatewayConnectCore demo_auth_env demo_connect (Some (demo_limits, [])) =
     (AuthOk ByToken None, Some (demo_limits, []))"
  by code_simp

lemma gateway_auth_sound_witness:
  "proves_identity demo_auth_env demo_connect ByToken None \<and> limiter_admits demo_auth_env demo_connect (Some (demo_limits, []))"
  using gateway_auth_sound [OF demo_accepted] by simp

definition demo_wrong :: connect_params where
  "demo_wrong = demo_connect\<lparr>gp_auth := hc_auth demo_http\<lparr>ga_token := Some ''other''\<rparr>\<rparr>"

lemma demo_refused:
  "authorizeHttpGatewayConnect demo_auth_env demo_wrong (Some (demo_limits, [])) =
     (AuthRefused ''token_mismatch'',
      Some (demo_limits, [(''shared-secret:9.9.9.9'', \<lparr>le_attempts = [1101], le_locked = None\<rparr>)]))"
  by code_simp

lemma auth_refines_limiter_witness:
  "snd (limit_run demo_ip demo_limits [] (auth_events demo_auth_env demo_wrong (AuthRefused ''token_mismatch'')) ([], [])) =
     [(''shared-secret:9.9.9.9'', \<lparr>le_attempts = [1101], le_locked = None\<rparr>)]"
proof -
  have "ga_mode (gp_auth demo_wrong) = ModeToken" by (simp add: demo_wrong_def demo_http_def)
  then have "ga_mode (gp_auth demo_wrong) = ModeToken \<or> ga_mode (gp_auth demo_wrong) = ModePassword" ..
  from auth_refines_limiter [OF this demo_refused, of "[]" "[]"] show ?thesis
    by (simp add: demo_auth_env_def)
qed

end
