(* ===== verification/Plugin_Http.thy ===== *)
theory Plugin_Http
  imports Plain_Path Gateway_Auth
begin

text \<open>
  The HTTP routes of plugins at the gateway: their registration
  (\<open>registerHttpRoute\<close> in src/src/plugins/registry.ts and src/src/plugins/http-registry.ts), the
  matching of a request (server/plugins-http/route-match.ts), the decision that the gateway must
  authenticate it (route-auth.ts), the dispatch (server/plugins-http.ts) and the two stages
  of the server that put them together (\<open>buildPluginRequestStages\<close> in server-http.ts).

  A handler is a value of the type \<open>'h\<close>; what it answers when it runs with the given operator
  scopes is an argument of the dispatch, and every run is noted in a trace.
\<close>

subsection \<open>Routes\<close>

datatype route_auth = GatewayRoute | PluginRoute

record node_capability =
  nc_surface :: string
  nc_ttl :: "int option"
  nc_scope_key :: "string option"

record 'h http_route =
  hr_plugin :: "string option"
  hr_path :: string
  hr_handler :: 'h
  hr_upgrade :: "'h option"
  hr_auth :: route_auth
  hr_match :: route_match
  hr_surface :: "scope_surface option"
  hr_dispatch :: bool
  hr_capability :: "node_capability option"
  hr_source :: "string option"

fun find_index :: "('a \<Rightarrow> bool) \<Rightarrow> 'a list \<Rightarrow> nat option" where
  "find_index P [] = None"
| "find_index P (x # xs) = (if P x then Some 0 else map_option Suc (find_index P xs))"

definition findOverlappingPluginHttpRoute ::
  "(string \<Rightarrow> string option) \<Rightarrow> 'h http_route list \<Rightarrow> string \<times> route_match \<Rightarrow> 'h http_route option" where
  "findOverlappingPluginHttpRoute au routes candidate =
     find (\<lambda>r. doPluginHttpRoutesOverlap au (hr_path r, hr_match r) candidate) routes"

definition same_slot :: "string \<Rightarrow> route_match \<Rightarrow> 'h http_route \<Rightarrow> bool" where
  "same_slot path m r \<longleftrightarrow> hr_path r = path \<and> hr_match r = m"

definition match_of :: "route_match option \<Rightarrow> route_match" where
  "match_of m = (case m of Some x \<Rightarrow> x | None \<Rightarrow> MatchExact)"

subsection \<open>Registration by the plugin API\<close>

datatype route_error = RouteNoPath | RouteBadAuth | RouteOverlap | RouteTaken | RouteNotOwner

record plugin_record =
  pr_id :: string
  pr_source :: string
  pr_routes :: nat
  pr_dispatch :: bool

record 'h route_params =
  rp_path :: "string option"
  rp_handler :: 'h
  rp_upgrade :: "'h option"
  rp_auth :: "route_auth option"
  rp_match :: "route_match option"
  rp_surface :: "scope_surface option"
  rp_capability :: "node_capability option"
  rp_replace :: bool

definition route_entry :: "plugin_record \<Rightarrow> 'h route_params \<Rightarrow> string \<Rightarrow> route_auth \<Rightarrow> 'h http_route" where
  "route_entry r p path auth =
     \<lparr>hr_plugin = Some (pr_id r), hr_path = path, hr_handler = rp_handler p, hr_upgrade = rp_upgrade p,
      hr_auth = auth, hr_match = match_of (rp_match p), hr_surface = rp_surface p,
      hr_dispatch = pr_dispatch r, hr_capability = rp_capability p, hr_source = Some (pr_source r)\<rparr>"

text \<open>The result is the error that is pushed as a diagnostic, or the changed record and routes.\<close>

definition registerHttpRoute ::
  "(string \<Rightarrow> string option) \<Rightarrow> plugin_record \<Rightarrow> 'h route_params \<Rightarrow> 'h http_route list \<Rightarrow>
     route_error + (plugin_record \<times> 'h http_route list)" where
  "registerHttpRoute au r p routes =
     (case normalizePluginHttpPath (rp_path p) None of
        None \<Rightarrow> Inl RouteNoPath
      | Some path \<Rightarrow>
          (case rp_auth p of
             None \<Rightarrow> Inl RouteBadAuth
           | Some auth \<Rightarrow>
               (let m = match_of (rp_match p); entry = route_entry r p path auth in
                if (case findOverlappingPluginHttpRoute au routes (path, m) of
                      Some o1 \<Rightarrow> hr_auth o1 \<noteq> auth | None \<Rightarrow> False)
                then Inl RouteOverlap
                else (case find_index (same_slot path m) routes of
                        None \<Rightarrow> Inr (r\<lparr>pr_routes := Suc (pr_routes r)\<rparr>, routes @ [entry])
                      | Some i \<Rightarrow>
                          (let existing = routes ! i in
                           if \<not> rp_replace p \<and> hr_plugin existing \<noteq> Some (pr_id r) then Inl RouteTaken
                           else if truthy_text (hr_plugin existing) \<and> hr_plugin existing \<noteq> Some (pr_id r)
                           then Inl RouteNotOwner
                           else Inr (r, routes[i := entry]))))))"

subsection \<open>Registration by a channel (http-registry.ts)\<close>

record 'h hook_params =
  hp_path :: "string option"
  hp_fallback :: "string option"
  hp_handler :: 'h
  hp_auth :: route_auth
  hp_match :: "route_match option"
  hp_surface :: "scope_surface option"
  hp_replace :: bool
  hp_plugin :: "string option"
  hp_source :: "string option"

definition hook_entry :: "'h hook_params \<Rightarrow> string \<Rightarrow> 'h http_route" where
  "hook_entry p path =
     \<lparr>hr_plugin = hp_plugin p, hr_path = path, hr_handler = hp_handler p, hr_upgrade = None,
      hr_auth = hp_auth p, hr_match = match_of (hp_match p), hr_surface = hp_surface p,
      hr_dispatch = False, hr_capability = None, hr_source = hp_source p\<rparr>"

definition drop_nth :: "nat \<Rightarrow> 'a list \<Rightarrow> 'a list" where
  "drop_nth i xs = take i xs @ drop (Suc i) xs"

definition registerPluginHttpRoute ::
  "(string \<Rightarrow> string option) \<Rightarrow> 'h hook_params \<Rightarrow> 'h http_route list \<Rightarrow>
     route_error + ('h http_route \<times> 'h http_route list)" where
  "registerPluginHttpRoute au p routes =
     (case normalizePluginHttpPath (hp_path p) (hp_fallback p) of
        None \<Rightarrow> Inl RouteNoPath
      | Some path \<Rightarrow>
          (let m = match_of (hp_match p); entry = hook_entry p path in
           if (case findOverlappingPluginHttpRoute au routes (path, m) of
                 Some o1 \<Rightarrow> hr_auth o1 \<noteq> hp_auth p | None \<Rightarrow> False)
           then Inl RouteOverlap
           else (case find_index (same_slot path m) routes of
                   None \<Rightarrow> Inr (entry, routes @ [entry])
                 | Some i \<Rightarrow>
                     (let existing = routes ! i in
                      if \<not> hp_replace p then Inl RouteTaken
                      else if truthy_text (hr_plugin existing) \<and> truthy_text (hp_plugin p) \<and>
                        hr_plugin existing \<noteq> hp_plugin p
                      then Inl RouteNotOwner
                      else Inr (entry, drop_nth i routes @ [entry])))))"

text \<open>
  The function a registration returns: the entry is taken out again if it is still there.  The code looks
  for the object it has put in, the model for the first entry equal to it; of two entries that are equal
  in every field it does not matter which one goes.
\<close>

definition unregister_route :: "'h http_route \<Rightarrow> 'h http_route list \<Rightarrow> 'h http_route list" where
  "unregister_route entry routes = remove1 entry routes"

subsection \<open>Matching\<close>

definition doesPluginRouteMatchPath ::
  "(string \<Rightarrow> string option) \<Rightarrow> 'h http_route \<Rightarrow> path_context \<Rightarrow> bool" where
  "doesPluginRouteMatchPath au r c =
     (let rp = canonicalizePathVariant au (hr_path r) in
      if hr_match r = MatchPrefix then list_ex (\<lambda>x. prefixMatch x rp) (px_candidates c)
      else list_ex (\<lambda>x. x = rp) (px_candidates c))"

definition longest_first :: "'h http_route list \<Rightarrow> 'h http_route list" where
  "longest_first = sort_key (\<lambda>r. - int (js_length (hr_path r)))"

definition findMatchingPluginHttpRoutes ::
  "(string \<Rightarrow> string option) \<Rightarrow> 'h http_route list \<Rightarrow> path_context \<Rightarrow> 'h http_route list" where
  "findMatchingPluginHttpRoutes au routes c =
     (let hits = filter (\<lambda>r. doesPluginRouteMatchPath au r c) routes
      in longest_first (filter (\<lambda>r. hr_match r \<noteq> MatchPrefix) hits) @
         longest_first (filter (\<lambda>r. hr_match r = MatchPrefix) hits))"

definition findRegisteredPluginHttpRoute ::
  "(string \<Rightarrow> string option) \<Rightarrow> 'h http_route list \<Rightarrow> string \<Rightarrow> 'h http_route option" where
  "findRegisteredPluginHttpRoute au routes p =
     (case findMatchingPluginHttpRoutes au routes (resolvePluginRoutePathContext au p) of
        [] \<Rightarrow> None | r # _ \<Rightarrow> Some r)"

definition isRegisteredPluginHttpRoutePath ::
  "(string \<Rightarrow> string option) \<Rightarrow> 'h http_route list \<Rightarrow> string \<Rightarrow> bool" where
  "isRegisteredPluginHttpRoutePath au routes p \<longleftrightarrow> findRegisteredPluginHttpRoute au routes p \<noteq> None"

definition matchedPluginRoutesRequireGatewayAuth :: "'h http_route list \<Rightarrow> bool" where
  "matchedPluginRoutesRequireGatewayAuth routes \<longleftrightarrow> list_ex (\<lambda>r. hr_auth r = GatewayRoute) routes"

definition shouldEnforceGatewayAuthForPluginPath ::
  "(string \<Rightarrow> string option) \<Rightarrow> 'h http_route list \<Rightarrow> path_context \<Rightarrow> bool" where
  "shouldEnforceGatewayAuthForPluginPath au routes c =
     (if px_malformed c \<or> px_limit c then True
      else if isProtectedPluginRoutePathFromContext c then True
      else matchedPluginRoutesRequireGatewayAuth (findMatchingPluginHttpRoutes au routes c))"

definition shouldEnforceDefaultPluginGatewayAuth :: "path_context \<Rightarrow> bool" where
  "shouldEnforceDefaultPluginGatewayAuth c \<longleftrightarrow>
     px_malformed c \<or> px_limit c \<or> isProtectedPluginRoutePathFromContext c"

subsection \<open>Routes of a node capability\<close>

definition trimmed_surface :: "'h http_route \<Rightarrow> string option" where
  "trimmed_surface r = (case hr_capability r of None \<Rightarrow> None | Some c \<Rightarrow> trim_opt (Some (nc_surface c)))"

definition resolvePluginNodeCapabilityRouteSurface :: "'h http_route \<Rightarrow> node_capability \<Rightarrow> string \<Rightarrow> node_capability" where
  "resolvePluginNodeCapabilityRouteSurface r c surface =
     (case (case trim_opt (hr_plugin r) of Some o1 \<Rightarrow> Some o1 | None \<Rightarrow> trim_opt (hr_source r)) of
        Some owner \<Rightarrow> c\<lparr>nc_surface := surface, nc_scope_key := Some (owner @ '':'' @ surface)\<rparr>
      | None \<Rightarrow> c\<lparr>nc_surface := surface\<rparr>)"

definition findMatchingPluginNodeCapabilityRoutes ::
  "(string \<Rightarrow> string option) \<Rightarrow> 'h http_route list \<Rightarrow> path_context \<Rightarrow> 'h http_route list" where
  "findMatchingPluginNodeCapabilityRoutes au routes c =
     List.map_filter (\<lambda>r. case (hr_capability r, trimmed_surface r) of
         (Some k, Some s) \<Rightarrow>
           Some (r\<lparr>hr_capability := Some (resolvePluginNodeCapabilityRouteSurface r k s)\<rparr>)
       | _ \<Rightarrow> None)
       (findMatchingPluginHttpRoutes au routes c)"

subsection \<open>Dispatch\<close>

record dispatch_context =
  dc_satisfied :: bool
  dc_auth :: "http_auth option"
  dc_scopes :: "string list option"

datatype missing_context = CallerAuth | CallerScopes

definition getMissingPluginRouteRuntimeContext ::
  "'h http_route \<Rightarrow> dispatch_context \<Rightarrow> missing_context option" where
  "getMissingPluginRouteRuntimeContext r d =
     (if hr_auth r \<noteq> GatewayRoute then None
      else if hr_surface r = Some TrustedOperator then
        (if dc_auth d \<noteq> None then None else Some CallerAuth)
      else if dc_scopes d = None then Some CallerScopes else None)"

definition createPluginRouteRuntimeScope :: "http_peer \<Rightarrow> 'h http_route \<Rightarrow> dispatch_context \<Rightarrow> string list" where
  "createPluginRouteRuntimeScope q r d =
     (if hr_auth r \<noteq> GatewayRoute then []
      else if hr_surface r = Some TrustedOperator
      then resolvePluginRouteRuntimeOperatorScopes q (the (dc_auth d)) TrustedOperator
      else the (dc_scopes d))"

datatype handler_answer = Answered | Declined | Raised

datatype dispatch_outcome = Unhandled | Served | ServerError | UpgradeUnauthorized | SocketDestroyed

type_synonym 'h trace = "('h http_route \<times> string list) list"

fun run_routes ::
  "('h http_route \<Rightarrow> string list \<Rightarrow> handler_answer) \<Rightarrow> dispatch_outcome \<Rightarrow> http_peer \<Rightarrow> dispatch_context \<Rightarrow>
     'h http_route list \<Rightarrow> dispatch_outcome \<times> 'h trace" where
  "run_routes h failed q d [] = (Unhandled, [])"
| "run_routes h failed q d (r # rs) =
     (let scopes = createPluginRouteRuntimeScope q r d in
      case h r scopes of
        Answered \<Rightarrow> (Served, [(r, scopes)])
      | Raised \<Rightarrow> (failed, [(r, scopes)])
      | Declined \<Rightarrow>
          (case run_routes h failed q d rs of (out, tr) \<Rightarrow> (out, (r, scopes) # tr)))"

text \<open>The guards that both handlers share; \<open>blocked\<close> is the answer when one of them fails.\<close>

definition dispatch_routes ::
  "('h http_route \<Rightarrow> string list \<Rightarrow> handler_answer) \<Rightarrow> dispatch_outcome \<Rightarrow> dispatch_outcome \<Rightarrow> http_peer \<Rightarrow>
     dispatch_context \<Rightarrow> 'h http_route list \<Rightarrow> dispatch_outcome \<times> 'h trace" where
  "dispatch_routes h blocked failed q d matched =
     (if matched = [] then (Unhandled, [])
      else if matchedPluginRoutesRequireGatewayAuth matched \<and> \<not> dc_satisfied d then (blocked, [])
      else if list_ex (\<lambda>r. getMissingPluginRouteRuntimeContext r d \<noteq> None) matched then (blocked, [])
      else run_routes h failed q d matched)"

definition createGatewayPluginRequestHandler ::
  "(string \<Rightarrow> string option) \<Rightarrow> ('h http_route \<Rightarrow> string list \<Rightarrow> handler_answer) \<Rightarrow> 'h http_route list \<Rightarrow>
     http_peer \<Rightarrow> path_context \<Rightarrow> dispatch_context \<Rightarrow> dispatch_outcome \<times> 'h trace" where
  "createGatewayPluginRequestHandler au h routes q c d =
     dispatch_routes h Unhandled ServerError q d (findMatchingPluginHttpRoutes au routes c)"

definition createGatewayPluginUpgradeHandler ::
  "(string \<Rightarrow> string option) \<Rightarrow> ('h http_route \<Rightarrow> string list \<Rightarrow> handler_answer) \<Rightarrow> 'h http_route list \<Rightarrow>
     http_peer \<Rightarrow> path_context \<Rightarrow> dispatch_context \<Rightarrow> dispatch_outcome \<times> 'h trace" where
  "createGatewayPluginUpgradeHandler au h routes q c d =
     dispatch_routes h UpgradeUnauthorized SocketDestroyed q d
       (filter (\<lambda>r. hr_upgrade r \<noteq> None) (findMatchingPluginHttpRoutes au routes c))"

subsection \<open>The stages of the server\<close>

datatype stage_outcome = AuthFailed auth_result | Dispatched dispatch_outcome

definition no_dispatch :: dispatch_context where
  "no_dispatch = \<lparr>dc_satisfied = False, dc_auth = None, dc_scopes = None\<rparr>"

definition dispatch_of :: "http_peer \<Rightarrow> http_auth \<Rightarrow> dispatch_context" where
  "dispatch_of q a =
     \<lparr>dc_satisfied = True, dc_auth = Some a,
      dc_scopes = Some (resolvePluginRouteRuntimeOperatorScopes q a WriteDefault)\<rparr>"

text \<open>
  The plugin stages of a request for \<open>path\<close>.  \<open>enforce\<close> is the policy the runtime passes, None for
  the default; the routes are read again at the dispatch, so \<open>routes\<close> are those of that moment.
\<close>

definition buildPluginRequestStages ::
  "(string \<Rightarrow> string option) \<Rightarrow> ('h http_route \<Rightarrow> string list \<Rightarrow> handler_answer) \<Rightarrow> auth_env \<Rightarrow> http_config \<Rightarrow>
     (path_context \<Rightarrow> bool) option \<Rightarrow> string list \<Rightarrow> 'h http_route list \<Rightarrow> http_peer \<Rightarrow> string \<Rightarrow>
     auth_limiter \<Rightarrow> (stage_outcome \<times> 'h trace) \<times> auth_limiter" where
  "buildPluginRequestStages au h en cfg enforce bypass routes q path bk =
     (let c = resolvePluginRoutePathContext au path;
          must = (case enforce of Some f \<Rightarrow> f c | None \<Rightarrow> shouldEnforceDefaultPluginGatewayAuth c);
          dispatch = (\<lambda>d. case createGatewayPluginRequestHandler au h routes q c d of
                            (out, tr) \<Rightarrow> (Dispatched out, tr))
      in if \<not> must then (dispatch no_dispatch, bk)
         else if path \<in> set bypass then (dispatch no_dispatch, bk)
         else (case checkGatewayHttpRequestAuth en cfg q bk of
                 (Inl e, bk') \<Rightarrow> ((AuthFailed e, []), bk')
               | (Inr a, bk') \<Rightarrow> (dispatch (dispatch_of q a), bk')))"

subsection \<open>Matching and dispatch\<close>

lemma longest_first_set [simp]: "set (longest_first rs) = set rs"
  by (simp add: longest_first_def)

lemma matching_set:
  "set (findMatchingPluginHttpRoutes au routes c) = {r \<in> set routes. doesPluginRouteMatchPath au r c}"
  by (auto simp: findMatchingPluginHttpRoutes_def Let_def)

lemma run_routes_trace:
  "run_routes h failed q d rs = (out, tr) \<Longrightarrow> (r, scopes) \<in> set tr \<Longrightarrow>
     r \<in> set rs \<and> scopes = createPluginRouteRuntimeScope q r d"
  by (induction rs arbitrary: out tr)
     (auto simp: Let_def split: handler_answer.splits prod.splits)

lemma dispatch_trace:
  assumes "dispatch_routes h blocked failed q d matched = (out, tr)" "(r, scopes) \<in> set tr"
  shows "r \<in> set matched \<and> scopes = createPluginRouteRuntimeScope q r d \<and>
    (hr_auth r = GatewayRoute \<longrightarrow> dc_satisfied d)"
proof -
  have "run_routes h failed q d matched = (out, tr)"
    and gate: "\<not> (matchedPluginRoutesRequireGatewayAuth matched \<and> \<not> dc_satisfied d)"
    using assms by (auto simp: dispatch_routes_def split: if_splits)
  with run_routes_trace [OF _ assms(2)] have r: "r \<in> set matched" "scopes = createPluginRouteRuntimeScope q r d"
    by auto
  with gate show ?thesis by (auto simp: matchedPluginRoutesRequireGatewayAuth_def list_ex_iff)
qed

lemma stage_dispatch:
  assumes "buildPluginRequestStages au h en cfg enforce bypass routes q path bk = ((out, tr), bk')"
    and "(r, scopes) \<in> set tr"
  obtains d where "r \<in> set routes" "doesPluginRouteMatchPath au r (resolvePluginRoutePathContext au path)"
    "scopes = createPluginRouteRuntimeScope q r d" "hr_auth r = GatewayRoute \<longrightarrow> dc_satisfied d"
    "d = no_dispatch \<and>
       (path \<in> set bypass \<or>
        \<not> (case enforce of Some f \<Rightarrow> f (resolvePluginRoutePathContext au path)
             | None \<Rightarrow> shouldEnforceDefaultPluginGatewayAuth (resolvePluginRoutePathContext au path))) \<or>
     (\<exists>a. d = dispatch_of q a \<and> path \<notin> set bypass \<and> fst (checkGatewayHttpRequestAuth en cfg q bk) = Inr a)"
proof -
  let ?c = "resolvePluginRoutePathContext au path"
  have "\<exists>d out'. createGatewayPluginRequestHandler au h routes q ?c d = (out', tr) \<and>
    (d = no_dispatch \<and>
       (path \<in> set bypass \<or>
        \<not> (case enforce of Some f \<Rightarrow> f ?c | None \<Rightarrow> shouldEnforceDefaultPluginGatewayAuth ?c)) \<or>
     (\<exists>a. d = dispatch_of q a \<and> path \<notin> set bypass \<and> fst (checkGatewayHttpRequestAuth en cfg q bk) = Inr a))"
    using assms unfolding buildPluginRequestStages_def Let_def
    by (force split: if_splits prod.splits sum.splits)
  then obtain d out' where d: "createGatewayPluginRequestHandler au h routes q ?c d = (out', tr)"
    "d = no_dispatch \<and>
       (path \<in> set bypass \<or>
        \<not> (case enforce of Some f \<Rightarrow> f ?c | None \<Rightarrow> shouldEnforceDefaultPluginGatewayAuth ?c)) \<or>
     (\<exists>a. d = dispatch_of q a \<and> path \<notin> set bypass \<and> fst (checkGatewayHttpRequestAuth en cfg q bk) = Inr a)"
    by blast
  from dispatch_trace [OF d(1) [unfolded createGatewayPluginRequestHandler_def] assms(2)] d(2)
  show ?thesis by (intro that [of d]) (simp_all add: matching_set)
qed

lemma check_http_ok:
  assumes "fst (checkGatewayHttpRequestAuth en cfg q bk) = Inr a"
  shows "\<exists>u. proves_identity en (http_connect cfg q) (ha_method a) u"
proof -
  have same: "http_connect cfg q\<lparr>gp_surface := SurfaceHttp\<rparr> = http_connect cfg q"
    by (simp add: http_connect_def Let_def)
  from assms obtain u bk' where
    "authorizeGatewayConnectCore en (http_connect cfg q) bk = (AuthOk (ha_method a) u, bk')"
    unfolding checkGatewayHttpRequestAuth_def authorizeHttpGatewayConnect_def same
    by (auto split: prod.splits auth_result.splits)
  from authorize_core_ok [OF this] show ?thesis by blast
qed

definition runtime_policy ::
  "(string \<Rightarrow> string option) \<Rightarrow> (path_context \<Rightarrow> bool) option \<Rightarrow> 'h http_route list \<Rightarrow> bool" where
  "runtime_policy au enforce rs \<longleftrightarrow>
     enforce = None \<or> enforce = Some (shouldEnforceGatewayAuthForPluginPath au rs)"

lemma policy_enforces_protected:
  assumes "runtime_policy au enforce rs" "isProtectedPluginRoutePath au path"
  shows "case enforce of Some f \<Rightarrow> f (resolvePluginRoutePathContext au path)
    | None \<Rightarrow> shouldEnforceDefaultPluginGatewayAuth (resolvePluginRoutePathContext au path)"
  using assms
  by (auto simp: runtime_policy_def guard_from_context shouldEnforceGatewayAuthForPluginPath_def
      shouldEnforceDefaultPluginGatewayAuth_def)

text \<open>
  C5 -- Whatever the path, the routes and the policy, a request that has not shown its
  identity to the gateway runs no handler of a gateway route, and the handlers of the other
  routes run with no operator scope; under the policies of the server it runs no handler at
  all on a protected path that is not one of the bypass paths.
\<close>

theorem gateway_routes_need_identity:
  assumes "buildPluginRequestStages au h en cfg enforce bypass routes q path bk = ((out, tr), bk')"
    and "(r, scopes) \<in> set tr"
  shows "r \<in> set routes \<and> doesPluginRouteMatchPath au r (resolvePluginRoutePathContext au path) \<and>
    (if hr_auth r = GatewayRoute
     then path \<notin> set bypass \<and> (\<exists>m u. proves_identity en (http_connect cfg q) m u)
     else scopes = []) \<and>
    (runtime_policy au enforce rs \<and> isProtectedPluginRoutePath au path \<and> path \<notin> set bypass \<longrightarrow>
       (\<exists>m u. proves_identity en (http_connect cfg q) m u))"
proof -
  obtain d where d: "r \<in> set routes" "doesPluginRouteMatchPath au r (resolvePluginRoutePathContext au path)"
    "scopes = createPluginRouteRuntimeScope q r d" "hr_auth r = GatewayRoute \<longrightarrow> dc_satisfied d"
    "d = no_dispatch \<and>
       (path \<in> set bypass \<or>
        \<not> (case enforce of Some f \<Rightarrow> f (resolvePluginRoutePathContext au path)
             | None \<Rightarrow> shouldEnforceDefaultPluginGatewayAuth (resolvePluginRoutePathContext au path))) \<or>
     (\<exists>a. d = dispatch_of q a \<and> path \<notin> set bypass \<and> fst (checkGatewayHttpRequestAuth en cfg q bk) = Inr a)"
    by (rule stage_dispatch [OF assms])
  have shown: "path \<notin> set bypass \<and> (\<exists>m u. proves_identity en (http_connect cfg q) m u)"
    if "dc_satisfied d"
    using d(5) that check_http_ok by (force simp: no_dispatch_def)
  have "scopes = []" if "hr_auth r \<noteq> GatewayRoute"
    using d(3) that by (simp add: createPluginRouteRuntimeScope_def)
  moreover have "dc_satisfied d"
    if "runtime_policy au enforce rs" "isProtectedPluginRoutePath au path" "path \<notin> set bypass"
    using d(5) that policy_enforces_protected [OF that(1,2)] by (auto simp: dispatch_of_def)
  ultimately show ?thesis using d(1,2,4) shown by auto
qed

subsection \<open>The table of routes\<close>

definition slots :: "'h http_route list \<Rightarrow> (string \<times> route_match) list" where
  "slots routes = map (\<lambda>r. (hr_path r, hr_match r)) routes"

lemma find_index_Some: "find_index P xs = Some i \<Longrightarrow> i < length xs \<and> P (xs ! i)"
  by (induction P xs arbitrary: i rule: find_index.induct) (auto split: if_splits)

lemma find_index_None: "find_index P xs = None \<longleftrightarrow> (\<forall>x\<in>set xs. \<not> P x)"
  by (induction P xs rule: find_index.induct) auto

lemma slots_update:
  "i < length routes \<Longrightarrow> same_slot path m (routes ! i) \<Longrightarrow> hr_path e = path \<Longrightarrow> hr_match e = m \<Longrightarrow>
     slots (routes[i := e]) = slots routes"
  by (auto simp: slots_def map_update same_slot_def intro!: list_update_same_conv [THEN iffD2])

lemma in_update: "i < length xs \<Longrightarrow> x \<in> set xs \<Longrightarrow> x \<noteq> xs ! i \<Longrightarrow> x \<in> set (xs[i := e])"
  by (metis in_set_conv_nth length_list_update nth_list_update_neq)

text \<open>
  A registration that the table accepts adds exactly one route of the plugin, keeps one
  route for each path and kind of match, agrees in its authentication with the first route it
  overlaps, and takes away at most the route of its own slot, which belonged to the plugin
  or to nobody.
\<close>

theorem registration_keeps_owners:
  assumes "registerHttpRoute au r p routes = Inr (r', routes')" "distinct (slots routes)"
  shows "distinct (slots routes') \<and>
    (\<exists>path auth e. normalizePluginHttpPath (rp_path p) None = Some path \<and> rp_auth p = Some auth \<and>
       e = route_entry r p path auth \<and> e \<in> set routes' \<and>
       set routes' \<subseteq> insert e (set routes) \<and>
       (case findOverlappingPluginHttpRoute au routes (path, hr_match e) of
          None \<Rightarrow> True | Some o1 \<Rightarrow> hr_auth o1 = auth) \<and>
       (\<forall>x\<in>set routes. x \<in> set routes' \<or>
          same_slot path (hr_match e) x \<and> (hr_plugin x = Some (pr_id r) \<or> \<not> truthy_text (hr_plugin x))))"
proof -
  obtain path auth where pa: "normalizePluginHttpPath (rp_path p) None = Some path" "rp_auth p = Some auth"
    using assms(1) by (auto simp: registerHttpRoute_def split: option.splits)
  define e where "e = route_entry r p path auth"
  define m where "m = match_of (rp_match p)"
  have e: "hr_path e = path" "hr_match e = m" by (simp_all add: e_def m_def route_entry_def)
  have over: "case findOverlappingPluginHttpRoute au routes (path, m) of
      None \<Rightarrow> True | Some o1 \<Rightarrow> hr_auth o1 = auth"
    using assms(1) pa by (auto simp: registerHttpRoute_def Let_def m_def split: option.splits if_splits)
  have rest: "(case find_index (same_slot path m) routes of
       None \<Rightarrow> Inr (r\<lparr>pr_routes := Suc (pr_routes r)\<rparr>, routes @ [e])
     | Some i \<Rightarrow>
         if \<not> rp_replace p \<and> hr_plugin (routes ! i) \<noteq> Some (pr_id r) then Inl RouteTaken
         else if truthy_text (hr_plugin (routes ! i)) \<and> hr_plugin (routes ! i) \<noteq> Some (pr_id r)
         then Inl RouteNotOwner else Inr (r, routes[i := e])) = Inr (r', routes')"
    using assms(1) pa unfolding registerHttpRoute_def Let_def m_def e_def
    by (simp split: if_splits)
  show ?thesis
  proof (cases "find_index (same_slot path m) routes")
    case None
    with rest have r': "routes' = routes @ [e]" by simp
    have "(path, m) \<notin> set (slots routes)"
      using None by (auto simp: find_index_None slots_def same_slot_def)
    with r' e pa over assms(2) show ?thesis
      by (auto simp: e_def [symmetric] slots_def)
  next
    case (Some i)
    from find_index_Some [OF Some] have i: "i < length routes" "same_slot path m (routes ! i)" by auto
    from rest Some have r': "routes' = routes[i := e]"
      "hr_plugin (routes ! i) = Some (pr_id r) \<or> \<not> truthy_text (hr_plugin (routes ! i))"
      by (auto split: if_splits)
    have "slots routes' = slots routes" using slots_update [OF i e] r' by simp
    moreover have "e \<in> set routes'" using i r' by (simp add: set_update_memI)
    moreover have "set routes' \<subseteq> insert e (set routes)" using r' by (simp add: set_update_subset_insert)
    moreover have "x \<in> set routes' \<or> same_slot path m x \<and>
        (hr_plugin x = Some (pr_id r) \<or> \<not> truthy_text (hr_plugin x))" if "x \<in> set routes" for x
      using in_update [OF i(1) that] i(2) r' by (cases "x = routes ! i") auto
    ultimately show ?thesis using pa over e assms(2) by (auto simp: e_def [symmetric])
  qed
qed

subsection \<open>Routes of different authentication can overlap\<close>

definition demo_gateway_plugin :: plugin_record where
  "demo_gateway_plugin = \<lparr>pr_id = ''demo'', pr_source = ''demo.js'', pr_routes = 0, pr_dispatch = False\<rparr>"

definition demo_route :: "string \<Rightarrow> route_auth \<Rightarrow> nat route_params" where
  "demo_route path auth =
     \<lparr>rp_path = Some path, rp_handler = 0, rp_upgrade = None, rp_auth = Some auth,
      rp_match = Some MatchPrefix, rp_surface = None, rp_capability = None, rp_replace = False\<rparr>"

text \<open>
  Only the first route that overlaps is compared: after /p/x of the plugin kind and /p/y of the
  gateway kind, the prefix /p of the plugin kind is accepted although it overlaps /p/y.
\<close>

definition demo_table :: "nat http_route list" where
  "demo_table =
     [route_entry demo_gateway_plugin (demo_route ''/p/x'' PluginRoute) ''/p/x'' PluginRoute,
      route_entry demo_gateway_plugin (demo_route ''/p/y'' GatewayRoute) ''/p/y'' GatewayRoute]"

lemma demo_paths:
  "canonicalizePathVariant no_url ''/p/x'' = ''/p/x''"
  "canonicalizePathVariant no_url ''/p/y'' = ''/p/y''"
  "canonicalizePathVariant no_url ''/p'' = ''/p''"
  by (rule plain_context(2), code_simp)+

lemma demo_overlaps:
  "doPluginHttpRoutesOverlap no_url (''/p/x'', MatchPrefix) (''/p'', MatchPrefix)"
  "doPluginHttpRoutesOverlap no_url (''/p/y'', MatchPrefix) (''/p'', MatchPrefix)"
  by (simp_all add: doPluginHttpRoutesOverlap_def demo_paths prefixMatch_def starts_with_def)

lemma demo_path_kept: "normalizePluginHttpPath (Some ''/p'') None = Some ''/p''"
  by code_simp

lemma mixed_overlap_accepted:
  "\<exists>r' e. registerHttpRoute no_url demo_gateway_plugin (demo_route ''/p'' PluginRoute) demo_table = Inr (r', demo_table @ [e]) \<and>
     hr_auth e = PluginRoute \<and>
     (\<exists>o1\<in>set demo_table. hr_auth o1 = GatewayRoute \<and>
        doPluginHttpRoutesOverlap no_url (hr_path o1, hr_match o1) (hr_path e, hr_match e))"
  using demo_overlaps
  by (simp add: registerHttpRoute_def demo_route_def demo_path_kept demo_table_def route_entry_def
      match_of_def findOverlappingPluginHttpRoute_def same_slot_def)

lemma registration_keeps_owners_witness:
  "\<exists>routes'. distinct (slots (routes' :: nat http_route list)) \<and> set demo_table \<subseteq> set routes'"
proof -
  obtain r' e where reg: "registerHttpRoute no_url demo_gateway_plugin (demo_route ''/p'' PluginRoute) demo_table
      = Inr (r', demo_table @ [e])"
    using mixed_overlap_accepted by blast
  have "distinct (slots demo_table)"
    by (simp add: demo_table_def slots_def route_entry_def demo_route_def match_of_def)
  from registration_keeps_owners [OF reg this] show ?thesis
    by (intro exI [of _ "demo_table @ [e]"]) auto
qed

subsection \<open>A request with the right token reaches a gateway route\<close>

definition demo_gateway_route :: "nat http_route" where
  "demo_gateway_route = route_entry demo_gateway_plugin (demo_route ''/p/y'' GatewayRoute) ''/p/y'' GatewayRoute"

lemma demo_context:
  "resolvePluginRoutePathContext no_url ''/p/y'' =
     \<lparr>px_pathname = ''/p/y'', px_canonical = ''/p/y'', px_candidates = [''/p/y''],
      px_malformed = False, px_limit = False, px_raw = ''/p/y''\<rparr>"
  by (rule plain_context(1)) code_simp

lemma demo_matching:
  "findMatchingPluginHttpRoutes no_url [demo_gateway_route]
     \<lparr>px_pathname = ''/p/y'', px_canonical = ''/p/y'', px_candidates = [''/p/y''],
      px_malformed = False, px_limit = False, px_raw = ''/p/y''\<rparr> = [demo_gateway_route]"
  by (simp add: findMatchingPluginHttpRoutes_def doesPluginRouteMatchPath_def demo_gateway_route_def
      route_entry_def demo_route_def match_of_def demo_paths prefixMatch_def longest_first_def)

lemma demo_checked:
  "checkGatewayHttpRequestAuth demo_auth_env demo_http demo_peer (Some (demo_limits, [])) =
     (Inr \<lparr>ha_method = ByToken, ha_trust_scopes = False\<rparr>, Some (demo_limits, []))"
  by code_simp

lemma demo_request_stages:
  "buildPluginRequestStages no_url (\<lambda>_ _. Answered) demo_auth_env demo_http
     (Some (shouldEnforceGatewayAuthForPluginPath no_url [demo_gateway_route])) []
     [demo_gateway_route] demo_peer ''/p/y'' (Some (demo_limits, [])) =
   ((Dispatched Served, [(demo_gateway_route, [WRITE_SCOPE])]), Some (demo_limits, []))"
proof -
  have gw: "hr_auth demo_gateway_route = GatewayRoute" "hr_surface demo_gateway_route = None"
    by (simp_all add: demo_gateway_route_def route_entry_def demo_route_def)
  show ?thesis
    by (simp add: buildPluginRequestStages_def Let_def demo_context demo_matching demo_checked gw
        shouldEnforceGatewayAuthForPluginPath_def matchedPluginRoutesRequireGatewayAuth_def
        createGatewayPluginRequestHandler_def dispatch_routes_def dispatch_of_def
        getMissingPluginRouteRuntimeContext_def createPluginRouteRuntimeScope_def
        resolvePluginRouteRuntimeOperatorScopes_def)
qed

lemma gateway_routes_need_identity_witness:
  "\<exists>m u. proves_identity demo_auth_env (http_connect demo_http demo_peer) m u"
proof -
  have "hr_auth demo_gateway_route = GatewayRoute"
    by (simp add: demo_gateway_route_def route_entry_def demo_route_def)
  with gateway_routes_need_identity [OF demo_request_stages, of demo_gateway_route "[WRITE_SCOPE]" "[]"]
  show ?thesis by auto
qed

end
