(* ===== verification/Plugin_Gateway.thy ===== *)
theory Plugin_Gateway
  imports Plugin_Api Plugin_Http
begin

text \<open>
  The plugin behind the gateway: the routes extensions/trustclaw-tra/index.ts registers, in
  its order, and a request of a network peer as it passes the plugin stages of the gateway
  and, if it is dispatched, the handler of the plugin.
\<close>

subsection \<open>The registrations\<close>

definition TRA_ROUTES :: "(string \<times> route_match) list" where
  "TRA_ROUTES =
     map (\<lambda>p. (p, MatchExact))
       [''/api/tra/init'', ''/api/tra/reset'', ''/api/tra/status'', ''/api/tra/compliance/preview'',
        ''/api/tra/compliance/import'', ''/api/tra/compliance/import/bundled-glp1-v2'',
        ''/api/tra/compliance/standards'', ''/api/tra/compliance/rules'', ''/api/tra/reference/preview'',
        ''/api/tra/reference/sync'', ''/api/tra/reference/status'',
        ''/api/tra/reference/sync/bundled-glp1'', ''/api/tra/device/preview'', ''/api/tra/device/import'',
        ''/api/tra/profile-summary'', ''/api/tra/audit/events'', ''/api/tra/ledger'', ''/api/tra/tables'',
        ''/api/tra/browse/subscriptions'', ''/api/tra/browse''] @
     [(''/api/tra/agent-packs'', MatchPrefix)] @
     map (\<lambda>p. (p, MatchExact))
       [''/api/tra/domain-agents'', ''/api/tra/domain-agents/import/bundled-migration'',
        ''/api/tra/domain-agents/import/bundled-registry'', ''/api/tra/agent-grants'',
        ''/api/tra/session/agent-pack'', ''/api/agent/chat''] @
     [(''/trustclaw'', MatchPrefix)]"

text \<open>The handler of a route is the path under which the plugin answers.\<close>

definition tra_params :: "string \<times> route_match \<Rightarrow> string route_params" where
  "tra_params x =
     \<lparr>rp_path = Some (fst x), rp_handler = fst x, rp_upgrade = None, rp_auth = Some PluginRoute,
      rp_match = Some (snd x), rp_surface = None, rp_capability = None, rp_replace = False\<rparr>"

definition tra_entry :: "plugin_record \<Rightarrow> string \<times> route_match \<Rightarrow> string http_route" where
  "tra_entry r x = route_entry r (tra_params x) (fst x) PluginRoute"

definition register_one ::
  "(string \<Rightarrow> string option) \<Rightarrow> plugin_record \<times> 'h http_route list \<Rightarrow> 'h route_params \<Rightarrow>
     plugin_record \<times> 'h http_route list" where
  "register_one au st p =
     (case registerHttpRoute au (fst st) p (snd st) of Inr st' \<Rightarrow> st' | Inl _ \<Rightarrow> st)"

text \<open>A registration that is refused leaves a diagnostic, and the plugin goes on with the next.\<close>

definition register_tra ::
  "(string \<Rightarrow> string option) \<Rightarrow> plugin_record \<Rightarrow> string http_route list \<Rightarrow>
     plugin_record \<times> string http_route list" where
  "register_tra au r routes = foldl (register_one au) (r, routes) (map tra_params TRA_ROUTES)"

subsection \<open>A request of a peer\<close>

text \<open>
  A handler of the plugin answers, or its promise is rejected; \<open>other\<close> stands for the two prefix
  routes, whose handlers work on files.
\<close>

definition tra_handler ::
  "string \<Rightarrow> string \<Rightarrow> api_env \<Rightarrow> http_request \<Rightarrow> plugin_state \<Rightarrow> handler_answer \<Rightarrow>
     string http_route \<Rightarrow> string list \<Rightarrow> handler_answer" where
  "tra_handler astSeed referenceSeed ae q st other r scopes =
     (case plugin_request astSeed referenceSeed ae (hr_handler r) q st of
        None \<Rightarrow> other
      | Some (Threw _, _) \<Rightarrow> Raised
      | Some _ \<Rightarrow> Answered)"

definition gateway_tra_request ::
  "(string \<Rightarrow> string option) \<Rightarrow> string \<Rightarrow> string \<Rightarrow> api_env \<Rightarrow> auth_env \<Rightarrow> http_config \<Rightarrow> string list \<Rightarrow>
     string http_route list \<Rightarrow> handler_answer \<Rightarrow> http_peer \<Rightarrow> string \<Rightarrow> http_request \<Rightarrow>
     auth_limiter \<times> plugin_state \<Rightarrow> stage_outcome \<times> auth_limiter \<times> plugin_state" where
  "gateway_tra_request au astSeed referenceSeed ae en cfg bypass routes other peer path q s =
     (case buildPluginRequestStages au (tra_handler astSeed referenceSeed ae q (snd s) other) en cfg
         (Some (shouldEnforceGatewayAuthForPluginPath au routes)) bypass routes peer path (fst s) of
        ((out, tr), bk') \<Rightarrow>
          (out, bk', fold (\<lambda>(r, _) st.
             case plugin_request astSeed referenceSeed ae (hr_handler r) q st of
               None \<Rightarrow> st | Some (_, st') \<Rightarrow> st') tr (snd s)))"

subsection \<open>Every route of the plugin is registered\<close>

lemma tra_routes_plain: "list_all (\<lambda>x. plain_path (fst x)) TRA_ROUTES"
  by code_simp

lemma tra_routes_distinct: "distinct (map fst TRA_ROUTES)"
  by code_simp

lemma tra_exact_handled:
  "map fst (plugin_routes a b) = map fst (filter (\<lambda>x. snd x = MatchExact) TRA_ROUTES)"
  by (simp add: plugin_routes_def TRA_ROUTES_def)

lemma tra_prefixes_apart:
  "list_all (\<lambda>x. snd x = MatchExact \<longrightarrow>
     \<not> prefixMatch (fst x) ''/api/tra/agent-packs'' \<and> \<not> prefixMatch (fst x) ''/trustclaw'') TRA_ROUTES"
  by code_simp

lemma tra_unprotected:
  "list_all (\<lambda>x. \<not> any_prefix PROTECTED_PLUGIN_ROUTE_PREFIXES (fst x)) TRA_ROUTES"
  unfolding any_protected_prefix by code_simp

lemma plain_http_path: "plain_path p \<Longrightarrow> normalizePluginHttpPath (Some p) fb = Some p"
proof -
  assume p: "plain_path p"
  then obtain r where "p = CHR ''/'' # r" by (rule plain_path_shape)
  with plain_trim [OF p] show ?thesis
    by (simp add: normalizePluginHttpPath_def trim_opt_def lead_slash_def starts_with_def)
qed

lemma tra_entry_fields [simp]:
  "hr_path (tra_entry r x) = fst x" "hr_match (tra_entry r x) = snd x"
  "hr_auth (tra_entry r x) = PluginRoute" "hr_handler (tra_entry r x) = fst x"
  "tra_entry (r\<lparr>pr_routes := n\<rparr>) x = tra_entry r x"
  by (simp_all add: tra_entry_def tra_params_def route_entry_def match_of_def)

lemma register_fresh:
  assumes "plain_path (fst x)" "x \<notin> set (slots routes)" "\<forall>e\<in>set routes. hr_auth e = PluginRoute"
  shows "register_one au (r, routes) (tra_params x) = (r\<lparr>pr_routes := Suc (pr_routes r)\<rparr>, routes @ [tra_entry r x])"
proof -
  have "find_index (same_slot (fst x) (snd x)) routes = None"
    using assms(2) by (auto simp: find_index_None same_slot_def slots_def image_iff)
  moreover have "\<not> (case findOverlappingPluginHttpRoute au routes (fst x, snd x) of
      None \<Rightarrow> False | Some e \<Rightarrow> hr_auth e \<noteq> PluginRoute)"
    using assms(3) by (auto simp: findOverlappingPluginHttpRoute_def find_Some_iff split: option.splits)
  ultimately show ?thesis
    using plain_http_path [OF assms(1)]
    by (simp add: register_one_def registerHttpRoute_def tra_params_def match_of_def tra_entry_def Let_def)
qed

lemma register_list:
  assumes "list_all (\<lambda>x. plain_path (fst x)) xs" "distinct (slots routes @ xs)"
    "\<forall>e\<in>set routes. hr_auth e = PluginRoute"
  shows "foldl (register_one au) (r, routes) (map tra_params xs) =
    (r\<lparr>pr_routes := pr_routes r + length xs\<rparr>, routes @ map (tra_entry r) xs)"
  using assms
proof (induction xs arbitrary: r routes)
  case (Cons x xs)
  have "register_one au (r, routes) (tra_params x) =
      (r\<lparr>pr_routes := Suc (pr_routes r)\<rparr>, routes @ [tra_entry r x])"
    by (rule register_fresh) (use Cons.prems in auto)
  moreover have "distinct (slots (routes @ [tra_entry r x]) @ xs)"
    using Cons.prems(2) by (auto simp: slots_def)
  ultimately show ?case
    using Cons.IH [of "routes @ [tra_entry r x]" "r\<lparr>pr_routes := Suc (pr_routes r)\<rparr>"] Cons.prems by simp
qed simp

lemma register_tra_table:
  "register_tra au r [] = (r\<lparr>pr_routes := pr_routes r + length TRA_ROUTES\<rparr>, map (tra_entry r) TRA_ROUTES)"
  unfolding register_tra_def
  by (subst register_list) (use tra_routes_plain tra_routes_distinct in \<open>simp_all add: slots_def distinct_map\<close>)

subsection \<open>Which route a request reaches\<close>

lemma exact_route_matches:
  assumes "(path, MatchExact) \<in> set TRA_ROUTES" "x \<in> set TRA_ROUTES"
  shows "doesPluginRouteMatchPath au (tra_entry r x) (resolvePluginRoutePathContext au path) \<longleftrightarrow>
    x = (path, MatchExact)"
proof -
  have plain: "plain_path path" "plain_path (fst x)"
    using tra_routes_plain assms by (auto simp: list_all_iff)
  have canon: "canonicalizePathVariant au (fst x) = fst x" "canonicalizePathVariant au path = path"
    "px_candidates (resolvePluginRoutePathContext au path) = [path]"
    using plain_context(2) [OF plain(2)] plain_context(1,2) [OF plain(1)] by simp_all
  show ?thesis
  proof (cases "snd x")
    case MatchExact
    then show ?thesis
      using canon by (cases x) (auto simp: doesPluginRouteMatchPath_def)
  next
    case MatchPrefix
    then have "fst x = ''/api/tra/agent-packs'' \<or> fst x = ''/trustclaw''"
      using assms(2) by (auto simp: TRA_ROUTES_def)
    then have "\<not> prefixMatch path (fst x)"
      using tra_prefixes_apart assms(1) by (auto simp: list_all_iff)
    with MatchPrefix show ?thesis
      using canon by (cases x) (auto simp: doesPluginRouteMatchPath_def)
  qed
qed

lemma filter_single: "distinct xs \<Longrightarrow> y \<in> set xs \<Longrightarrow> filter (\<lambda>x. x = y) xs = [y]"
  by (induction xs) (auto simp: filter_empty_conv)

lemma matching_tra:
  assumes "(path, MatchExact) \<in> set TRA_ROUTES"
  shows "findMatchingPluginHttpRoutes au (map (tra_entry r) TRA_ROUTES) (resolvePluginRoutePathContext au path) =
    [tra_entry r (path, MatchExact)]"
proof -
  have "filter (\<lambda>e. doesPluginRouteMatchPath au e (resolvePluginRoutePathContext au path)) (map (tra_entry r) TRA_ROUTES) =
      map (tra_entry r) (filter (\<lambda>x. x = (path, MatchExact)) TRA_ROUTES)"
    unfolding filter_map comp_def using exact_route_matches [OF assms]
    by (intro arg_cong [where f = "map (tra_entry r)"] filter_cong) auto
  also have "\<dots> = [tra_entry r (path, MatchExact)]"
    using filter_single [OF _ assms] tra_routes_distinct by (simp add: distinct_map)
  finally show ?thesis
    by (simp add: findMatchingPluginHttpRoutes_def longest_first_def)
qed

lemma tra_not_enforced:
  assumes "(path, MatchExact) \<in> set TRA_ROUTES"
  shows "\<not> shouldEnforceGatewayAuthForPluginPath au (map (tra_entry r) TRA_ROUTES) (resolvePluginRoutePathContext au path)"
proof -
  have "plain_path path" "\<not> any_prefix PROTECTED_PLUGIN_ROUTE_PREFIXES path"
    using tra_routes_plain tra_unprotected assms by (auto simp: list_all_iff)
  then show ?thesis
    unfolding shouldEnforceGatewayAuthForPluginPath_def matching_tra [OF assms]
    by (simp add: plain_context isProtectedPluginRoutePathFromContext_def matchedPluginRoutesRequireGatewayAuth_def)
qed

lemma plugin_request_total:
  assumes "(path, MatchExact) \<in> set TRA_ROUTES"
  obtains a st' where "plugin_request astSeed referenceSeed ae path q st = Some (a, st')"
proof -
  have "path \<in> set (map fst (plugin_routes astSeed referenceSeed))"
    unfolding tra_exact_handled using assms by force
  then obtain h where "map_of (plugin_routes astSeed referenceSeed) path = Some h"
    by (metis map_of_eq_None_iff not_Some_eq set_map)
  then show ?thesis using that by (cases "h ae q st") (auto simp: plugin_request_def)
qed

text \<open>
  C6 -- Every registration of the plugin is accepted, and then each request for one of its
  exact routes is answered by the handler of that route alone, with no operator scope and no
  look at the credentials: whatever the mode and the secrets of the gateway, the peer and
  its headers, the limiter stays as it was and the plugin is left as its handler leaves it.
\<close>

theorem tra_routes_skip_gateway_auth:
  assumes "register_tra au r [] = (r', routes)" and "(path, MatchExact) \<in> set TRA_ROUTES"
  shows "length routes = length TRA_ROUTES \<and>
    (\<exists>a st'. plugin_request astSeed referenceSeed ae path q st = Some (a, st') \<and>
       gateway_tra_request au astSeed referenceSeed ae en cfg bypass routes other peer path q (bk, st) =
         (Dispatched (case a of Threw _ \<Rightarrow> ServerError | _ \<Rightarrow> Served), bk, st'))"
proof -
  have routes: "routes = map (tra_entry r) TRA_ROUTES" using assms(1) by (simp add: register_tra_table)
  obtain a st' where a: "plugin_request astSeed referenceSeed ae path q st = Some (a, st')"
    by (rule plugin_request_total [OF assms(2)])
  have "gateway_tra_request au astSeed referenceSeed ae en cfg bypass routes other peer path q (bk, st) =
      (Dispatched (case a of Threw _ \<Rightarrow> ServerError | _ \<Rightarrow> Served), bk, st')"
    using tra_not_enforced [OF assms(2), of au r] a
    by (auto simp: gateway_tra_request_def buildPluginRequestStages_def Let_def routes
        createGatewayPluginRequestHandler_def matching_tra [OF assms(2)] dispatch_routes_def
        matchedPluginRoutesRequireGatewayAuth_def getMissingPluginRouteRuntimeContext_def
        createPluginRouteRuntimeScope_def tra_handler_def split: answer.split)
  with a routes show ?thesis by auto
qed

subsection \<open>Witness: a stranger resets the data\<close>

definition demo_stranger :: http_peer where
  "demo_stranger = \<lparr>hq_remote = Some ''6.6.6.6'', hq_headers = []\<rparr>"

lemma tra_routes_skip_gateway_auth_witness:
  "\<exists>body st'. gateway_tra_request no_url ''/s1'' ''/s2'' demo_api demo_auth_env demo_http []
      (map (tra_entry demo_gateway_plugin) TRA_ROUTES) Declined demo_stranger ''/api/tra/reset''
      (demo_pack_request ''POST'') (Some (demo_limits, []), demo_plugin_state) =
        (Dispatched Served, Some (demo_limits, []), st') \<and>
     createTraResetHandler demo_api (demo_pack_request ''POST'') demo_plugin_state = (Reply 200 body, st')"
proof -
  obtain body st' where reset:
    "createTraResetHandler demo_api (demo_pack_request ''POST'') demo_plugin_state = (Reply 200 body, st')"
    using demo_reset by blast
  then have run: "plugin_request ''/s1'' ''/s2'' demo_api ''/api/tra/reset'' (demo_pack_request ''POST'') demo_plugin_state =
      Some (Reply 200 (ResetBody body), st')"
    by (simp add: plugin_request_def plugin_routes_def body_of_def)
  have "(''/api/tra/reset'', MatchExact) \<in> set TRA_ROUTES" by (simp add: TRA_ROUTES_def)
  from tra_routes_skip_gateway_auth [OF register_tra_table this, where au = no_url and astSeed = "''/s1''"
      and referenceSeed = "''/s2''" and ae = demo_api and q = "demo_pack_request ''POST''"
      and st = demo_plugin_state and en = demo_auth_env and cfg = demo_http and bypass = "[]"
      and other = Declined and peer = demo_stranger and bk = "Some (demo_limits, [])"
      and r = demo_gateway_plugin]
  show ?thesis using run reset by simp
qed

end
