(* ===== verification/Session_Keys.thy ===== *)
theory Session_Keys
  imports JS_Value
begin

text \<open>
  The keys of sessions: account and agent identifiers (src/src/routing/account-id.ts,
  session-key.ts), the keys built from an agent, a channel and a peer, and their readers
  (src/src/sessions/session-key-utils.ts).

  Positions in a key are counted in bytes; the delimiters are ASCII, so every cut falls on the
  same character as in the source.  The caches in front of the normal forms are modelled as
  what they keep, and shown to change no result.
\<close>

subsection \<open>Normal forms of text (packages/normalization-core/src/string-coerce.ts)\<close>

definition normalizeOptionalString :: "string option \<Rightarrow> string option" where
  "normalizeOptionalString v = trim_opt v"

definition normalizeOptionalLowercaseString :: "string option \<Rightarrow> string option" where
  "normalizeOptionalLowercaseString v = map_option to_lower (normalizeOptionalString v)"

definition normalizeLowercaseStringOrEmpty :: "string option \<Rightarrow> string" where
  "normalizeLowercaseStringOrEmpty v =
     (case normalizeOptionalLowercaseString v of Some s \<Rightarrow> s | None \<Rightarrow> [])"

definition or_text :: "string \<Rightarrow> string \<Rightarrow> string" where
  "or_text s d = (if s = [] then d else s)"

definition plain_text :: "string option \<Rightarrow> string" where
  "plain_text v = trim (case v of Some s \<Rightarrow> s | None \<Rightarrow> [])"

subsection \<open>Identifiers\<close>

definition is_id_char :: "char \<Rightarrow> bool" where
  "is_id_char ch \<longleftrightarrow> chr_in ch 97 122 \<or> is_digit ch \<or> ch = CHR ''_'' \<or> ch = CHR ''-''"

text \<open>\<open>/^[a-z0-9][a-z0-9_-]{0,63}$/i\<close>\<close>

definition VALID_ID_RE :: "string \<Rightarrow> bool" where
  "VALID_ID_RE s \<longleftrightarrow>
     (case to_lower s of
        [] \<Rightarrow> False
      | ch # r \<Rightarrow> (chr_in ch 97 122 \<or> is_digit ch) \<and> list_all is_id_char r \<and> length r \<le> 63)"

text \<open>\<open>replace(/[^a-z0-9_-]+/g, "-")\<close>: the flag says that a run is being replaced.\<close>

fun dash_runs :: "bool \<Rightarrow> string \<Rightarrow> string" where
  "dash_runs run [] = []"
| "dash_runs run (ch # s) =
     (if is_id_char ch then ch # dash_runs False s
      else if run then dash_runs True s else CHR ''-'' # dash_runs True s)"

definition strip_dashes :: "string \<Rightarrow> string" where
  "strip_dashes s =
     rev (dropWhile (\<lambda>ch. ch = CHR ''-'') (rev (dropWhile (\<lambda>ch. ch = CHR ''-'') s)))"

definition best_effort_id :: "string \<Rightarrow> string" where
  "best_effort_id s = take 64 (strip_dashes (dash_runs False s))"

definition DEFAULT_AGENT_ID :: string where "DEFAULT_AGENT_ID = ''main''"
definition DEFAULT_MAIN_KEY :: string where "DEFAULT_MAIN_KEY = ''main''"
definition DEFAULT_ACCOUNT_ID :: string where "DEFAULT_ACCOUNT_ID = ''default''"

definition normalizeAgentId :: "string option \<Rightarrow> string" where
  "normalizeAgentId v =
     (let t = plain_text v; n = normalizeLowercaseStringOrEmpty (Some t)
      in if t = [] then DEFAULT_AGENT_ID
         else if VALID_ID_RE t then n
         else or_text (best_effort_id n) DEFAULT_AGENT_ID)"

definition normalizeOptionalAgentId :: "string option \<Rightarrow> string option" where
  "normalizeOptionalAgentId v =
     (case normalizeOptionalString v of Some t \<Rightarrow> Some (normalizeAgentId (Some t)) | None \<Rightarrow> None)"

definition isValidAgentId :: "string option \<Rightarrow> bool" where
  "isValidAgentId v \<longleftrightarrow> plain_text v \<noteq> [] \<and> VALID_ID_RE (plain_text v)"

definition sanitizeAgentId :: "string option \<Rightarrow> string" where
  "sanitizeAgentId v = normalizeAgentId v"

definition isBlockedObjectKey :: "string \<Rightarrow> bool" where
  "isBlockedObjectKey k \<longleftrightarrow> k \<in> set [''__proto__'', ''prototype'', ''constructor'']"

definition canonicalizeAccountId :: "string \<Rightarrow> string" where
  "canonicalizeAccountId v =
     (let n = normalizeLowercaseStringOrEmpty (Some v)
      in if VALID_ID_RE v then n else best_effort_id n)"

definition normalizeCanonicalAccountId :: "string \<Rightarrow> string option" where
  "normalizeCanonicalAccountId v =
     (let k = canonicalizeAccountId v in if k = [] \<or> isBlockedObjectKey k then None else Some k)"

definition normalizeAccountId :: "string option \<Rightarrow> string" where
  "normalizeAccountId v =
     (let t = plain_text v
      in if t = [] then DEFAULT_ACCOUNT_ID
         else case normalizeCanonicalAccountId t of Some k \<Rightarrow> k | None \<Rightarrow> DEFAULT_ACCOUNT_ID)"

definition normalizeOptionalAccountId :: "string option \<Rightarrow> string option" where
  "normalizeOptionalAccountId v =
     (let t = plain_text v in if t = [] then None else normalizeCanonicalAccountId t)"

subsection \<open>The caches of normal forms\<close>

definition ACCOUNT_ID_CACHE_MAX :: nat where "ACCOUNT_ID_CACHE_MAX = 512"

definition setNormalizeCache :: "'v obj \<Rightarrow> string \<Rightarrow> 'v \<Rightarrow> 'v obj" where
  "setNormalizeCache m k v =
     (let m' = obj_set m k v in if length m' \<le> ACCOUNT_ID_CACHE_MAX then m' else tl m')"

definition normalizeAccountId_cached :: "string obj \<Rightarrow> string option \<Rightarrow> string \<times> string obj" where
  "normalizeAccountId_cached m v =
     (let t = plain_text v
      in if t = [] then (DEFAULT_ACCOUNT_ID, m)
         else case obj_get m t of
                Some (ch # r) \<Rightarrow> (ch # r, m)
              | _ \<Rightarrow> (let n = (case normalizeCanonicalAccountId t of Some k \<Rightarrow> k | None \<Rightarrow> DEFAULT_ACCOUNT_ID)
                      in (n, setNormalizeCache m t n)))"

definition normalizeOptionalAccountId_cached ::
  "string option obj \<Rightarrow> string option \<Rightarrow> string option \<times> string option obj" where
  "normalizeOptionalAccountId_cached m v =
     (let t = plain_text v
      in if t = [] then (None, m)
         else case obj_get m t of
                Some n \<Rightarrow> (n, m)
              | None \<Rightarrow> (let n = normalizeCanonicalAccountId t in (n, setNormalizeCache m t n)))"

subsection \<open>Accounts of a configuration (src/src/routing/account-lookup.ts)\<close>

definition resolveNormalizedAccountEntry ::
  "'a obj option \<Rightarrow> string \<Rightarrow> (string \<Rightarrow> string) \<Rightarrow> 'a option" where
  "resolveNormalizedAccountEntry accounts accountId nf =
     (case accounts of
        None \<Rightarrow> None
      | Some m \<Rightarrow>
          (case obj_get m accountId of
             Some a \<Rightarrow> Some a
           | None \<Rightarrow>
               (case find (\<lambda>k. nf k = nf accountId) (obj_keys m) of
                  Some (ch # r) \<Rightarrow> obj_get m (ch # r) | _ \<Rightarrow> None)))"

definition resolveAccountEntry :: "'a obj option \<Rightarrow> string \<Rightarrow> 'a option" where
  "resolveAccountEntry accounts accountId =
     resolveNormalizedAccountEntry accounts accountId (\<lambda>k. normalizeLowercaseStringOrEmpty (Some k))"

subsection \<open>Peers whose identifiers keep their case\<close>

datatype chat_type = Direct | Group | Channel

primrec chat_name :: "chat_type \<Rightarrow> string" where
  "chat_name Direct = ''direct''"
| "chat_name Group = ''group''"
| "chat_name Channel = ''channel''"

definition normalizeChatType :: "string option \<Rightarrow> chat_type option" where
  "normalizeChatType raw =
     (case normalizeOptionalLowercaseString raw of
        None \<Rightarrow> None
      | Some v \<Rightarrow>
          if v = ''direct'' \<or> v = ''dm'' then Some Direct
          else if v = ''group'' then Some Group
          else if v = ''channel'' then Some Channel else None)"

datatype peer_span = Segment | Tail

record case_peer =
  cp_channel :: string
  cp_kinds :: "string list"
  cp_span :: peer_span
  cp_unscoped :: bool

definition CASE_PRESERVING_PEERS :: "case_peer list" where
  "CASE_PRESERVING_PEERS =
     [\<lparr>cp_channel = ''signal'', cp_kinds = [''group''], cp_span = Segment, cp_unscoped = True\<rparr>,
      \<lparr>cp_channel = ''matrix'', cp_kinds = [''channel'', ''group''], cp_span = Tail, cp_unscoped = True\<rparr>]"

definition findCasePreservingPeerDescriptor :: "string option \<Rightarrow> string option \<Rightarrow> case_peer option" where
  "findCasePreservingPeerDescriptor channel kind =
     find (\<lambda>d. cp_channel d = normalizeLowercaseStringOrEmpty channel \<and>
               normalizeLowercaseStringOrEmpty kind \<in> set (cp_kinds d)) CASE_PRESERVING_PEERS"

definition isCasePreservingPeer :: "string option \<Rightarrow> string option \<Rightarrow> bool" where
  "isCasePreservingPeer channel kind \<longleftrightarrow> findCasePreservingPeerDescriptor channel kind \<noteq> None"

definition normalizeSessionPeerId :: "string option \<Rightarrow> string option \<Rightarrow> string option \<Rightarrow> string" where
  "normalizeSessionPeerId channel kind peerId =
     (let t = plain_text peerId
      in if t = [] then []
         else if isCasePreservingPeer channel kind then t
         else normalizeLowercaseStringOrEmpty (Some t))"

text \<open>A span of a key whose case is kept: its ends, and whether it is trimmed.\<close>

type_synonym span = "nat \<times> nat \<times> bool"

text \<open>\<open>(^|:)channel:kind:([^:]+)\<close>, every match, over the colon-separated parts of the key.\<close>

fun segment_spans :: "string \<Rightarrow> string \<Rightarrow> nat \<Rightarrow> string list \<Rightarrow> span list" where
  "segment_spans ch k off (a # b # s # ps) =
     (if to_lower a = ch \<and> to_lower b = k \<and> s \<noteq> []
      then (off + length a + length b + 2, off + length a + length b + 2 + length s, True) #
           segment_spans ch k (off + length a + length b + length s + 3) ps
      else segment_spans ch k (off + length a + 1) (b # s # ps))"
| "segment_spans ch k off _ = []"

text \<open>\<open>s.lastIndexOf(n)\<close> for a non-empty \<open>n\<close>\<close>

fun last_index :: "string \<Rightarrow> string \<Rightarrow> nat option" where
  "last_index n [] = None"
| "last_index n (ch # s) =
     (case last_index n s of
        Some i \<Rightarrow> Some (Suc i)
      | None \<Rightarrow> if starts_with (ch # s) n then Some 0 else None)"

definition thread_marker :: string where "thread_marker = '':thread:''"

definition collectTailSpan :: "string \<Rightarrow> nat \<Rightarrow> span list" where
  "collectTailSpan raw start =
     (if length raw \<le> start then []
      else case last_index thread_marker (normalizeLowercaseStringOrEmpty (Some (drop start raw))) of
             None \<Rightarrow> [(start, length raw, False)]
           | Some i \<Rightarrow>
               (let t = start + i + length thread_marker
                in (start, start + i, False) #
                   (if t < length raw then [(t, length raw, False)] else [])))"

definition scoped_tail :: "string \<Rightarrow> string \<Rightarrow> string list \<Rightarrow> nat option" where
  "scoped_tail ch k parts =
     (case parts of
        a # i # b # d # _ # _ \<Rightarrow>
          if to_lower a = ''agent'' \<and> i \<noteq> [] \<and> to_lower b = ch \<and> to_lower d = k
          then Some (length a + length i + length b + length d + 4) else None
      | _ \<Rightarrow> None)"

definition unscoped_tail :: "string \<Rightarrow> string \<Rightarrow> string list \<Rightarrow> nat option" where
  "unscoped_tail ch k parts =
     (case parts of
        b # d # _ # _ \<Rightarrow> if to_lower b = ch \<and> to_lower d = k then Some (length b + length d + 2) else None
      | _ \<Rightarrow> None)"

definition peer_spans :: "string \<Rightarrow> case_peer \<Rightarrow> string \<Rightarrow> span list" where
  "peer_spans raw d k =
     (let ch = cp_channel d; parts = split_on (CHR '':'') raw
      in case cp_span d of
           Segment \<Rightarrow> segment_spans ch k 0 parts
         | Tail \<Rightarrow>
             (case scoped_tail ch k parts of
                Some t \<Rightarrow> collectTailSpan raw t
              | None \<Rightarrow>
                  if cp_unscoped d
                  then (case unscoped_tail ch k parts of Some t \<Rightarrow> collectTailSpan raw t | None \<Rightarrow> [])
                  else []))"

definition collectCasePreservedSpans :: "string \<Rightarrow> span list" where
  "collectCasePreservedSpans raw =
     concat (map (\<lambda>d. concat (map (peer_spans raw d) (cp_kinds d))) CASE_PRESERVING_PEERS)"

definition mayContainCasePreservingPeer :: "string \<Rightarrow> bool" where
  "mayContainCasePreservingPeer raw \<longleftrightarrow>
     list_ex (\<lambda>d. js_includes (to_lower raw) (cp_channel d @ '':'')) CASE_PRESERVING_PEERS"

definition slice :: "string \<Rightarrow> nat \<Rightarrow> nat \<Rightarrow> string" where
  "slice s a b = take (b - a) (drop a s)"

fun fold_spans :: "string \<Rightarrow> nat \<Rightarrow> span list \<Rightarrow> string" where
  "fold_spans raw cursor [] = normalizeLowercaseStringOrEmpty (Some (drop cursor raw))"
| "fold_spans raw cursor ((a, b, tr) # ss) =
     (if a < cursor then fold_spans raw cursor ss
      else normalizeLowercaseStringOrEmpty (Some (slice raw cursor a)) @
           (if tr then trim (slice raw a b) else slice raw a b) @ fold_spans raw b ss)"

definition normalizeSessionKeyPreservingOpaquePeerIds :: "string option \<Rightarrow> string" where
  "normalizeSessionKeyPreservingOpaquePeerIds key =
     (case normalizeOptionalString key of
        None \<Rightarrow> []
      | Some raw \<Rightarrow>
          if \<not> mayContainCasePreservingPeer raw then to_lower raw
          else fold_spans raw 0
                 (sort_key fst (filter (\<lambda>(a, b, _). a < b) (collectCasePreservedSpans raw))))"

subsection \<open>Readers of a key\<close>

record parsed_key =
  pk_agent :: string
  pk_rest :: string

definition key_parts :: "string \<Rightarrow> string list" where
  "key_parts raw = filter (\<lambda>p. p \<noteq> []) (split_on (CHR '':'') raw)"

definition parseAgentSessionKey :: "string option \<Rightarrow> parsed_key option" where
  "parseAgentSessionKey key =
     (case key_parts (normalizeSessionKeyPreservingOpaquePeerIds key) of
        a # i # r # rs \<Rightarrow>
          (if a \<noteq> ''agent'' then None
           else case normalizeOptionalString (Some i) of
                  None \<Rightarrow> None
                | Some ag \<Rightarrow>
                    (let rest = join '':'' (r # rs)
                     in if rest = [] then None else Some \<lparr>pk_agent = ag, pk_rest = rest\<rparr>))
      | _ \<Rightarrow> None)"

text \<open>\<open>/^cron:[^:]+:run:[^:]+(?::|$)/\<close>\<close>

definition isCronRunSessionKey :: "string option \<Rightarrow> bool" where
  "isCronRunSessionKey key \<longleftrightarrow>
     (case parseAgentSessionKey key of
        None \<Rightarrow> False
      | Some p \<Rightarrow>
          (case split_on (CHR '':'') (pk_rest p) of
             a # j # r # i # _ \<Rightarrow> a = ''cron'' \<and> j \<noteq> [] \<and> r = ''run'' \<and> i \<noteq> []
           | _ \<Rightarrow> False))"

definition rest_starts :: "string option \<Rightarrow> string \<Rightarrow> bool" where
  "rest_starts key p \<longleftrightarrow>
     (case parseAgentSessionKey key of
        None \<Rightarrow> False
      | Some q \<Rightarrow>
          (case normalizeOptionalLowercaseString (Some (pk_rest q)) of
             None \<Rightarrow> False | Some r \<Rightarrow> starts_with r p))"

definition isCronSessionKey :: "string option \<Rightarrow> bool" where
  "isCronSessionKey key \<longleftrightarrow> rest_starts key ''cron:''"

definition marked_key :: "string option \<Rightarrow> string \<Rightarrow> bool" where
  "marked_key key p \<longleftrightarrow>
     (case normalizeOptionalString key of
        None \<Rightarrow> False
      | Some raw \<Rightarrow> starts_with (normalizeLowercaseStringOrEmpty (Some raw)) p \<or> rest_starts (Some raw) p)"

definition isSubagentSessionKey :: "string option \<Rightarrow> bool" where
  "isSubagentSessionKey key \<longleftrightarrow> marked_key key ''subagent:''"

definition isAcpSessionKey :: "string option \<Rightarrow> bool" where
  "isAcpSessionKey key \<longleftrightarrow> marked_key key ''acp:''"

text \<open>\<open>s.split(n).length - 1\<close>: the occurrences from left to right, none overlapping.\<close>

fun occurrences :: "string \<Rightarrow> nat \<Rightarrow> string \<Rightarrow> nat" where
  "occurrences n skip [] = 0"
| "occurrences n skip (ch # s) =
     (if 0 < skip then occurrences n (skip - 1) s
      else if starts_with (ch # s) n then Suc (occurrences n (length n - 1) s)
      else occurrences n 0 s)"

definition getSubagentDepth :: "string option \<Rightarrow> nat" where
  "getSubagentDepth key =
     (case normalizeOptionalLowercaseString key of
        None \<Rightarrow> 0 | Some raw \<Rightarrow> occurrences '':subagent:'' 0 raw)"

definition parseThreadSessionSuffix :: "string option \<Rightarrow> string option \<times> string option" where
  "parseThreadSessionSuffix key =
     (case normalizeOptionalString key of
        None \<Rightarrow> (None, None)
      | Some raw \<Rightarrow>
          (case last_index thread_marker (normalizeLowercaseStringOrEmpty (Some raw)) of
             None \<Rightarrow> (Some raw, None)
           | Some i \<Rightarrow>
               (Some (take i raw), normalizeOptionalString (Some (drop (i + length thread_marker) raw)))))"

record conversation_ref =
  cr_channel :: string
  cr_kind :: string
  cr_id :: string
  cr_prefix :: string

definition parseRawSessionConversationRef :: "string option \<Rightarrow> conversation_ref option" where
  "parseRawSessionConversationRef key =
     (case normalizeOptionalString key of
        None \<Rightarrow> None
      | Some raw \<Rightarrow>
          (let rawParts = key_parts raw;
               body = (if 3 \<le> length rawParts \<and>
                          normalizeOptionalLowercaseString (Some (rawParts ! 0)) = Some ''agent''
                       then 2 else 0);
               parts = drop body rawParts
           in case parts of
                p0 # p1 # p2 # ps \<Rightarrow>
                  (case (normalizeOptionalLowercaseString (Some p0), normalizeOptionalLowercaseString (Some p1)) of
                     (Some ch, Some k) \<Rightarrow>
                       if k \<noteq> ''group'' \<and> k \<noteq> ''channel'' then None
                       else (case (normalizeOptionalString (Some (join '':'' (p2 # ps))),
                                   normalizeOptionalString (Some (join '':'' (take (body + 2) rawParts)))) of
                               (Some i, Some px) \<Rightarrow>
                                 Some \<lparr>cr_channel = ch, cr_kind = k, cr_id = i, cr_prefix = px\<rparr>
                             | _ \<Rightarrow> None)
                   | _ \<Rightarrow> None)
              | _ \<Rightarrow> None))"

definition requiresFoldedSessionKeyAliasProof :: "string option \<Rightarrow> bool" where
  "requiresFoldedSessionKeyAliasProof key \<longleftrightarrow>
     (case findCasePreservingPeerDescriptor (map_option cr_channel (parseRawSessionConversationRef key))
             (map_option cr_kind (parseRawSessionConversationRef key)) of
        Some d \<Rightarrow> cp_span d = Tail | None \<Rightarrow> False)"

subsection \<open>Keys built from a conversation\<close>

datatype dm_scope = ScopeMain | PerPeer | PerChannelPeer | PerAccountChannelPeer

primrec dm_scope_name :: "dm_scope \<Rightarrow> string" where
  "dm_scope_name ScopeMain = ''main''"
| "dm_scope_name PerPeer = ''per-peer''"
| "dm_scope_name PerChannelPeer = ''per-channel-peer''"
| "dm_scope_name PerAccountChannelPeer = ''per-account-channel-peer''"

definition normalizeMainKey :: "string option \<Rightarrow> string" where
  "normalizeMainKey v = or_text (normalizeLowercaseStringOrEmpty v) DEFAULT_MAIN_KEY"

text \<open>The key of an agent with the segments after it.\<close>

definition agent_key :: "string \<Rightarrow> string list \<Rightarrow> string" where
  "agent_key agent segs = join '':'' ([''agent'', normalizeAgentId (Some agent)] @ segs)"

definition buildAgentMainSessionKey :: "string \<Rightarrow> string option \<Rightarrow> string" where
  "buildAgentMainSessionKey agent mainKey = agent_key agent [normalizeMainKey mainKey]"

text \<open>The names under which a direct peer may be linked to an identity.\<close>

definition link_candidates :: "string \<Rightarrow> string \<Rightarrow> string list" where
  "link_candidates channel peerId =
     (let raw = normalizeLowercaseStringOrEmpty (Some peerId);
          ch = normalizeLowercaseStringOrEmpty (Some channel)
      in filter (\<lambda>s. s \<noteq> [])
           [raw, if ch = [] then [] else normalizeLowercaseStringOrEmpty (Some (ch @ '':'' @ peerId))])"

definition resolveLinkedPeerId :: "string list obj option \<Rightarrow> string \<Rightarrow> string \<Rightarrow> string option" where
  "resolveLinkedPeerId links channel peerId =
     (case links of
        None \<Rightarrow> None
      | Some m \<Rightarrow>
          (let p = trim peerId; cands = link_candidates channel p
           in if p = [] \<or> cands = [] then None
              else map_option (\<lambda>(canonical, _). trim canonical)
                     (find (\<lambda>(canonical, ids). trim canonical \<noteq> [] \<and>
                        list_ex (\<lambda>i. let n = normalizeLowercaseStringOrEmpty (Some i)
                                     in n \<noteq> [] \<and> n \<in> set cands) ids) m)))"

definition channel_token :: "string \<Rightarrow> string" where
  "channel_token ch = or_text (normalizeLowercaseStringOrEmpty (Some ch)) ''unknown''"

definition direct_peer :: "dm_scope \<Rightarrow> string list obj option \<Rightarrow> string \<Rightarrow> string option \<Rightarrow> string" where
  "direct_peer sc links channel peerId =
     (let p = plain_text peerId;
          linked = (if sc = ScopeMain then None else resolveLinkedPeerId links channel p)
      in normalizeLowercaseStringOrEmpty (Some (case linked of Some l \<Rightarrow> l | None \<Rightarrow> p)))"

definition buildAgentPeerSessionKey ::
  "string \<Rightarrow> string option \<Rightarrow> string \<Rightarrow> string option \<Rightarrow> chat_type option \<Rightarrow> string option \<Rightarrow>
     string list obj option \<Rightarrow> dm_scope option \<Rightarrow> string" where
  "buildAgentPeerSessionKey agent mainKey channel accountId peerKind peerId links dmScope =
     (case (case peerKind of Some k \<Rightarrow> k | None \<Rightarrow> Direct) of
        Direct \<Rightarrow>
          (let sc = (case dmScope of Some x \<Rightarrow> x | None \<Rightarrow> ScopeMain);
               peer = direct_peer sc links channel peerId
           in if sc = PerAccountChannelPeer \<and> peer \<noteq> []
              then agent_key agent [channel_token channel, normalizeAccountId accountId, ''direct'', peer]
              else if sc = PerChannelPeer \<and> peer \<noteq> []
              then agent_key agent [channel_token channel, ''direct'', peer]
              else if sc = PerPeer \<and> peer \<noteq> [] then agent_key agent [''direct'', peer]
              else buildAgentMainSessionKey agent mainKey)
      | k \<Rightarrow>
          agent_key agent
            [channel_token channel, chat_name k,
             or_text (normalizeSessionPeerId (Some channel) (Some (chat_name k)) peerId) ''unknown''])"

definition buildGroupHistoryKey :: "string \<Rightarrow> string option \<Rightarrow> chat_type \<Rightarrow> string \<Rightarrow> string" where
  "buildGroupHistoryKey channel accountId kind peerId =
     (let ch = channel_token channel
      in join '':''
           [ch, normalizeAccountId accountId, chat_name kind,
            or_text (normalizeSessionPeerId (Some ch) (Some (chat_name kind)) (Some peerId)) ''unknown''])"

definition resolveThreadSessionKeys ::
  "string \<Rightarrow> string option \<Rightarrow> string option \<Rightarrow> bool option \<Rightarrow> (string \<Rightarrow> string) option \<Rightarrow>
     string \<times> string option" where
  "resolveThreadSessionKeys base threadId parentKey useSuffix normalizeThreadId =
     (let t = plain_text threadId;
          n = (case normalizeThreadId of Some f \<Rightarrow> f t | None \<Rightarrow> normalizeLowercaseStringOrEmpty (Some t))
      in if t = [] then (base, None)
         else (if useSuffix \<noteq> Some False then base @ thread_marker @ n else base, parentKey))"

subsection \<open>Between the keys of requests and of the store\<close>

datatype key_shape = Missing | AgentKey | LegacyOrAlias | MalformedAgent

definition toAgentRequestSessionKey :: "string option \<Rightarrow> string option" where
  "toAgentRequestSessionKey storeKey =
     (let raw = plain_text storeKey
      in if raw = [] then None
         else Some (case parseAgentSessionKey (Some raw) of Some p \<Rightarrow> pk_rest p | None \<Rightarrow> raw))"

definition agentSessionKeysMatchByRequestKey :: "string option \<Rightarrow> string option \<Rightarrow> bool" where
  "agentSessionKeysMatchByRequestKey left right \<longleftrightarrow>
     plain_text left \<noteq> [] \<and> plain_text right \<noteq> [] \<and>
     (plain_text left = plain_text right \<or>
      toAgentRequestSessionKey (Some (plain_text left)) = toAgentRequestSessionKey (Some (plain_text right)))"

definition toAgentStoreSessionKey :: "string \<Rightarrow> string option \<Rightarrow> string option \<Rightarrow> string" where
  "toAgentStoreSessionKey agent requestKey mainKey =
     (let raw = plain_text requestKey; lowered = normalizeLowercaseStringOrEmpty (Some raw)
      in if raw = [] \<or> lowered = DEFAULT_MAIN_KEY then buildAgentMainSessionKey agent mainKey
         else case parseAgentSessionKey (Some raw) of
                Some p \<Rightarrow> ''agent:'' @ pk_agent p @ '':'' @ pk_rest p
              | None \<Rightarrow>
                  (let n = normalizeSessionKeyPreservingOpaquePeerIds (Some raw)
                   in if starts_with lowered ''agent:'' then n
                      else ''agent:'' @ normalizeAgentId (Some agent) @ '':'' @ n))"

definition resolveAgentIdFromSessionKey :: "string option \<Rightarrow> string" where
  "resolveAgentIdFromSessionKey key =
     normalizeAgentId (Some (case parseAgentSessionKey key of Some p \<Rightarrow> pk_agent p | None \<Rightarrow> DEFAULT_AGENT_ID))"

definition classifySessionKeyShape :: "string option \<Rightarrow> key_shape" where
  "classifySessionKeyShape key =
     (let raw = plain_text key
      in if raw = [] then Missing
         else if parseAgentSessionKey (Some raw) \<noteq> None then AgentKey
         else if starts_with (normalizeLowercaseStringOrEmpty (Some raw)) ''agent:'' then MalformedAgent
         else LegacyOrAlias)"

definition isUnscopedSessionKeySentinel :: "string option \<Rightarrow> bool" where
  "isUnscopedSessionKeySentinel key \<longleftrightarrow>
     normalizeLowercaseStringOrEmpty key = ''global'' \<or> normalizeLowercaseStringOrEmpty key = ''unknown''"

definition scopeLegacySessionKeyToAgent ::
  "string option \<Rightarrow> string option \<Rightarrow> string option \<Rightarrow> string option" where
  "scopeLegacySessionKeyToAgent agentId sessionKey mainKey =
     (let raw = plain_text sessionKey; agent = plain_text agentId
      in if raw = [] then None
         else if agent = [] \<or> classifySessionKeyShape (Some raw) \<noteq> LegacyOrAlias then Some raw
         else Some (toAgentStoreSessionKey agent (Some raw) mainKey))"

text \<open>What a heartbeat wakes: the options as they came, an agent, or a session.\<close>

datatype wake_target = WakeUnchanged | WakeAgent string | WakeSession string

definition scopedHeartbeatWakeOptions :: "string \<Rightarrow> string option \<Rightarrow> bool \<Rightarrow> wake_target" where
  "scopedHeartbeatWakeOptions key mainKey global =
     (case parseAgentSessionKey (Some key) of
        None \<Rightarrow> WakeUnchanged
      | Some p \<Rightarrow>
          if isCronRunSessionKey (Some key)
          then (if global then WakeAgent (pk_agent p)
                else WakeSession (buildAgentMainSessionKey (pk_agent p) mainKey))
          else WakeSession key)"

definition resolveEventSessionKey :: "string \<Rightarrow> string option \<Rightarrow> bool \<Rightarrow> string" where
  "resolveEventSessionKey key mainKey global =
     (case parseAgentSessionKey (Some key) of
        None \<Rightarrow> key
      | Some p \<Rightarrow>
          if \<not> isCronRunSessionKey (Some key) then key
          else if global then ''global''
          else buildAgentMainSessionKey (pk_agent p) mainKey)"

subsection \<open>Visible characters and trimming\<close>

definition visible :: "char \<Rightarrow> bool" where
  "visible ch \<longleftrightarrow> chr_in ch 33 126"

lemma visible_no_ws:
  assumes "visible ch" "w \<in> set ws_tokens \<or> w \<in> set (map rev ws_tokens)"
  shows "ch \<notin> set w"
  using assms by (auto simp: visible_def chr_in_def ws_tokens_def)

lemma strip_stops_before:
  assumes "\<forall>w\<in>set toks. d \<notin> set w"
  shows "\<exists>y'. strip toks (y @ d # z) = y' @ d # z"
proof (induction "length y" arbitrary: y rule: less_induct)
  case less
  show ?case
  proof (cases "first_tok toks (y @ d # z)")
    case None
    then show ?thesis by (auto simp: strip_id)
  next
    case (Some w)
    then have w: "w \<in> set toks" "w \<noteq> []" "prefix w (y @ d # z)" by (auto dest: first_tok_Some)
    have "prefix w y"
    proof (rule ccontr)
      assume "\<not> prefix w y"
      with w(3) obtain v where "w = y @ v" "prefix v (d # z)" "v \<noteq> []"
        by (auto simp: prefix_append)
      then have "d \<in> set w" by (cases v) auto
      with w(1) assms show False by blast
    qed
    then obtain y2 where y: "y = w @ y2" by (auto simp: prefix_def)
    then have "strip toks (y @ d # z) = strip toks (y2 @ d # z)"
      using Some by (subst strip.simps) simp
    moreover have "\<exists>y'. strip toks (y2 @ d # z) = y' @ d # z"
      by (rule less) (use y w(2) in simp)
    ultimately show ?thesis by simp
  qed
qed

lemma trim_end_keeps:
  assumes "visible d"
  shows "\<exists>y'. trim_end (a @ d # y) = a @ d # y'"
proof -
  obtain y' where "strip (map rev ws_tokens) (rev y @ d # rev a) = y' @ d # rev a"
    using strip_stops_before [of "map rev ws_tokens" d] visible_no_ws [OF assms] by metis
  then have "trim_end (a @ d # y) = a @ d # rev y'" by (simp add: trim_end_def)
  then show ?thesis by blast
qed

lemma first_tok_visible:
  assumes "visible ch"
  shows "first_tok ws_tokens (ch # s) = None" "first_tok (map rev ws_tokens) (ch # s) = None"
proof -
  have "33 \<le> (of_char ch :: nat) \<and> (of_char ch :: nat) \<le> 126"
    using assms by (simp add: visible_def chr_in_def)
  then show "first_tok ws_tokens (ch # s) = None" "first_tok (map rev ws_tokens) (ch # s) = None"
    by (auto simp: first_tok_None ws_tokens_def)
qed

lemma trim_start_visible: "visible ch \<Longrightarrow> trim_start (ch # s) = ch # s"
  unfolding trim_start_def by (rule strip_id) (rule first_tok_visible)

lemma trim_front:
  assumes "visible (hd (a @ [d]))" "visible d"
  shows "\<exists>y'. trim (a @ d # y) = a @ d # y'"
proof -
  have "trim_start (a @ d # y) = a @ d # y"
    using assms(1) trim_start_visible by (cases a) auto
  with trim_end_keeps [OF assms(2)] show ?thesis by (simp add: trim_def)
qed

lemma trim_visible:
  assumes "list_all visible s"
  shows "trim s = s"
proof (cases s rule: rev_cases)
  case (snoc a d)
  have "trim_start s = s" using assms snoc trim_start_visible by (cases a) auto
  moreover have "trim_end (a @ [d]) = a @ [d]"
  proof -
    have "visible d" using assms snoc by simp
    then have "strip (map rev ws_tokens) (d # rev a) = d # rev a"
      by (intro strip_id first_tok_visible)
    then show ?thesis by (simp add: trim_end_def)
  qed
  ultimately show ?thesis using snoc by (simp add: trim_def)
qed simp

subsection \<open>Normal forms are safe\<close>

named_theorems id_simps \<open>facts on normalised identifiers\<close>

definition id_text :: "string \<Rightarrow> bool" where
  "id_text s \<longleftrightarrow> s \<noteq> [] \<and> length s \<le> 64 \<and> list_all is_id_char s"

lemma id_char_visible: "is_id_char ch \<Longrightarrow> visible ch \<and> ch \<noteq> CHR '':'' \<and> lower_char ch = ch"
  by (auto simp: is_id_char_def visible_def chr_in_def is_digit_def lower_char_def)

lemma id_text_facts [id_simps]:
  assumes "id_text s"
  shows "trim s = s" "to_lower s = s" "CHR '':'' \<notin> set s" "s \<noteq> []"
  using assms id_char_visible
  by (auto simp: id_text_def list_all_iff to_lower_def intro!: trim_visible map_idI)

lemma list_all_trim: "list_all P s \<Longrightarrow> list_all P (trim s)"
  unfolding list_all_iff trim_def trim_start_def
  using trim_end_prefix strip_suffix by (meson set_mono_prefix set_mono_suffix subset_iff)

lemma valid_id_lower:
  assumes "VALID_ID_RE t"
  shows "id_text (to_lower t)"
  using assms by (auto simp: VALID_ID_RE_def id_text_def is_id_char_def split: list.splits)

lemma lower_empty [simp]: "to_lower s = [] \<longleftrightarrow> s = []"
  by (simp add: to_lower_def)

lemma normalizeLowercase_trimmed [simp]:
  "normalizeLowercaseStringOrEmpty (Some s) = to_lower (trim s)"
  by (simp add: normalizeLowercaseStringOrEmpty_def normalizeOptionalLowercaseString_def
      normalizeOptionalString_def trim_opt_def to_lower_def)

lemma dash_runs_ids: "list_all is_id_char (dash_runs run s)"
  by (induction run s rule: dash_runs.induct) (auto simp: is_id_char_def)

lemma best_effort_ids: "list_all is_id_char (best_effort_id s)" "length (best_effort_id s) \<le> 64"
proof -
  have "set (strip_dashes t) \<subseteq> set t" for t
    by (auto simp: strip_dashes_def dest!: set_dropWhileD)
  then have "set (best_effort_id s) \<subseteq> set (dash_runs False s)"
    unfolding best_effort_id_def by (meson in_set_takeD subset_iff)
  with dash_runs_ids [of False s] show "list_all is_id_char (best_effort_id s)"
    by (auto simp: list_all_iff)
qed (simp add: best_effort_id_def)

lemma id_text_literals [id_simps]: "id_text ''main''" "id_text ''default''"
  by code_simp+

lemma plain_text_trimmed [simp]: "trim (plain_text v) = plain_text v"
  by (simp add: plain_text_def)

lemma normalizeAgentId_id [id_simps]: "id_text (normalizeAgentId v)"
proof (cases "plain_text v = []")
  case False
  then show ?thesis
    using valid_id_lower [of "plain_text v"] best_effort_ids [of "to_lower (plain_text v)"]
    by (auto simp: normalizeAgentId_def Let_def or_text_def id_text_def DEFAULT_AGENT_ID_def
        is_id_char_def chr_in_def)
qed (simp add: normalizeAgentId_def DEFAULT_AGENT_ID_def id_simps)

lemma canonical_account_id: "normalizeCanonicalAccountId t = Some k \<Longrightarrow> trim t = t \<Longrightarrow> id_text k"
  using valid_id_lower [of t] best_effort_ids [of "to_lower t"]
  by (auto simp: normalizeCanonicalAccountId_def canonicalizeAccountId_def Let_def id_text_def
      split: if_splits)

lemma normalizeAccountId_id [id_simps]: "id_text (normalizeAccountId v)"
  using canonical_account_id [of "plain_text v"]
  by (auto simp: normalizeAccountId_def Let_def DEFAULT_ACCOUNT_ID_def id_simps split: option.splits)

subsection \<open>The head of a key survives its normal form\<close>

lemma key_head_trim:
  assumes "id_text i"
  shows "\<exists>y'. trim (''agent:'' @ i @ '':'' @ y) = ''agent:'' @ i @ '':'' @ y'"
proof -
  have "visible (CHR ''a'')" "visible (CHR '':'')" by (simp_all add: visible_def chr_in_def)
  then show ?thesis
    using trim_front [of "''agent:'' @ i" "CHR '':''" y] by simp
qed

lemma key_head_split:
  assumes "id_text i"
  shows "split_on (CHR '':'') (''agent:'' @ i @ '':'' @ y) = ''agent'' # i # split_on (CHR '':'') y"
  using id_text_facts(3) [OF assms] split_on_append [of "CHR '':''" "''agent''" "i @ '':'' @ y"]
    split_on_append [of "CHR '':''" i y]
  by (simp add: split_on_absent)

lemma segment_spans_start:
  "(x, y, tr) \<in> set (segment_spans ch k off ps) \<Longrightarrow> off + length (hd ps) + 2 \<le> x"
  by (induction ch k off ps rule: segment_spans.induct) (auto split: if_splits)

lemma tail_spans_start: "(x, y, tr) \<in> set (collectTailSpan raw st) \<Longrightarrow> st \<le> x"
  by (auto simp: collectTailSpan_def Let_def split: option.splits if_splits)

lemma spans_after_head:
  assumes "id_text i" and "(x, z, tr) \<in> set (collectCasePreservedSpans (''agent:'' @ i @ '':'' @ y))"
  shows "7 + length i \<le> x"
proof -
  obtain p ps where y: "split_on (CHR '':'') y = p # ps" by (cases "split_on (CHR '':'') y") auto
  have parts: "split_on (CHR '':'') (''agent:'' @ i @ '':'' @ y) = ''agent'' # i # p # ps"
    using key_head_split [OF assms(1)] y by simp
  have "to_lower ''agent'' = ''agent''" by code_simp
  then show ?thesis
    using assms(2)
    by (auto simp: collectCasePreservedSpans_def CASE_PRESERVING_PEERS_def peer_spans_def Let_def parts
        scoped_tail_def unscoped_tail_def
        simp del: append_Cons append_Nil
        dest!: segment_spans_start tail_spans_start split: option.splits list.splits if_splits)
qed

lemma visible_trim:
  assumes "visible d" "d \<in> set s"
  shows "d \<in> set (trim s)"
proof -
  have keep: "d \<in> set (strip toks t)" if t: "d \<in> set t" "\<forall>w\<in>set toks. d \<notin> set w" for t toks
  proof -
    obtain a b where "t = a @ d # b" using t(1) by (auto simp: in_set_conv_decomp)
    then show ?thesis using strip_stops_before [OF t(2), of a b] by auto
  qed
  show ?thesis
    unfolding trim_def trim_start_def trim_end_def
    using visible_no_ws [OF assms(1)] assms(2) by (simp add: keep)
qed

lemma fold_spans_keeps:
  assumes "visible d" "d \<in> set (drop cur raw)" "\<forall>(x, z, tr)\<in>set ss. x < z"
  shows "\<exists>e\<in>set (fold_spans raw cur ss). e = d \<or> e = lower_char d"
  using assms(2,3)
proof (induction raw cur ss rule: fold_spans.induct)
  case (1 raw cur)
  then show ?case using visible_trim [OF assms(1)] by (auto simp: to_lower_def)
next
  case (2 raw cur a b tr ss)
  show ?case
  proof (cases "a < cur")
    case False
    have "drop cur raw = slice raw cur a @ slice raw a b @ drop b raw"
      using False 2(4) unfolding slice_def
      by simp (metis add_diff_inverse_nat append_take_drop_id drop_drop le_add_diff_inverse2 less_imp_le not_less)
    then consider "d \<in> set (slice raw cur a)" | "d \<in> set (slice raw a b)" | "d \<in> set (drop b raw)"
      using 2(3) by auto
    then show ?thesis
      using False 2(2) [OF False] 2(4) visible_trim [OF assms(1)] by cases (auto simp: to_lower_def)
  qed (use 2 in auto)
qed

lemma head_trim_keeps:
  assumes "id_text i" "visible d" "d \<in> set y"
  shows "\<exists>y'. trim (''agent:'' @ i @ '':'' @ y) = ''agent:'' @ i @ '':'' @ y' \<and> d \<in> set y'"
proof -
  obtain a b where "y = a @ d # b" using assms(3) by (auto simp: in_set_conv_decomp)
  moreover have "visible (CHR ''a'')" by (simp add: visible_def chr_in_def)
  ultimately show ?thesis
    using trim_front [of "''agent:'' @ i @ '':'' @ a" d b] assms(2) by auto
qed

lemma fold_spans_head:
  assumes "\<forall>(x, z, tr)\<in>set ss. 7 + length i \<le> x \<and> x < z" "id_text i" "visible d" "d \<in> set y"
  shows "\<exists>y'. fold_spans (''agent:'' @ i @ '':'' @ y) 0 ss = ''agent:'' @ i @ '':'' @ y' \<and>
    (\<exists>e\<in>set y'. e = d \<or> e = lower_char d)"
proof -
  let ?h = "''agent:'' @ i @ '':''"
  have low: "to_lower (?h @ v) = ?h @ to_lower v" for v
    using id_text_facts(2) [OF assms(2)] by (simp add: to_lower_def lower_char_def chr_in_def)
  show ?thesis
  proof (cases ss)
    case Nil
    obtain y' where "trim (?h @ y) = ?h @ y'" "d \<in> set y'"
      using head_trim_keeps [OF assms(2-4)] by auto
    then show ?thesis using Nil low [of y'] by (auto simp: to_lower_def)
  next
    case (Cons s ss')
    obtain x z tr where s: "s = (x, z, tr)" by (cases s)
    have xz: "length ?h \<le> x" "x < z" using assms(1) Cons s by auto
    have first: "slice (?h @ y) 0 x = ?h @ take (x - length ?h) y"
      using xz by (simp add: slice_def take_append del: append_Cons append_Nil append_assoc)
    have drop: "drop x (?h @ y) = drop (x - length ?h) y"
      using xz by (simp add: drop_append del: append_Cons append_Nil append_assoc)
    define mid where "mid = (if tr then trim (slice (?h @ y) x z) else slice (?h @ y) x z) @ fold_spans (?h @ y) z ss'"
    have mid: "fold_spans (?h @ y) x ss = mid" "fold_spans (?h @ y) 0 ss = to_lower (trim (slice (?h @ y) 0 x)) @ mid"
      by (simp_all add: Cons s mid_def slice_def)
    have "d \<in> set (take (x - length ?h) y) \<or> d \<in> set (drop x (?h @ y))"
      unfolding drop using assms(4) by (metis append_take_drop_id set_append Un_iff)
    then show ?thesis
    proof
      assume "d \<in> set (take (x - length ?h) y)"
      then obtain y' where "trim (?h @ take (x - length ?h) y) = ?h @ y'" "d \<in> set y'"
        using head_trim_keeps [OF assms(2,3)] by (metis append_assoc)
      then show ?thesis unfolding append_assoc [symmetric]
        using first mid(2) low [of y'] by (auto simp: to_lower_def)
    next
      assume "d \<in> set (drop x (?h @ y))"
      then have "\<exists>e\<in>set mid. e = d \<or> e = lower_char d"
        using fold_spans_keeps [OF assms(3), of x "?h @ y" ss] assms(1) mid(1) by fastforce
      moreover obtain y' where "trim (?h @ take (x - length ?h) y) = ?h @ y'"
        using key_head_trim [OF assms(2)] by (metis append_assoc)
      ultimately show ?thesis unfolding append_assoc [symmetric]
        using first mid(2) low [of y'] by auto
    qed
  qed
qed

lemma normal_key_head:
  assumes "id_text i" "visible d" "d \<noteq> CHR '':''" "d \<in> set y"
  shows "\<exists>y'. normalizeSessionKeyPreservingOpaquePeerIds (Some (''agent:'' @ i @ '':'' @ y)) =
      ''agent:'' @ i @ '':'' @ y' \<and> (\<exists>e\<in>set y'. e \<noteq> CHR '':'')"
proof -
  obtain y1 where y1: "trim (''agent:'' @ i @ '':'' @ y) = ''agent:'' @ i @ '':'' @ y1" "d \<in> set y1"
    using head_trim_keeps [OF assms(1,2,4)] by blast
  let ?raw = "''agent:'' @ i @ '':'' @ y1"
  let ?ss = "sort_key fst (filter (\<lambda>(a, b, _). a < b) (collectCasePreservedSpans ?raw))"
  have ne: "lower_char d \<noteq> CHR '':''"
    using assms(3) by (auto simp: lower_char_def chr_in_def dest!: arg_cong [where f = "of_char :: char \<Rightarrow> nat"])
  have "7 + length i \<le> fst s \<and> fst s < fst (snd s)" if "s \<in> set ?ss" for s
  proof -
    obtain x z tr where s: "s = (x, z, tr)" by (cases s)
    have "(x, z, tr) \<in> set (collectCasePreservedSpans ?raw)" "x < z"
      using that unfolding s by (simp_all only: set_sort set_filter mem_Collect_eq prod.case)
    with spans_after_head [OF assms(1) this(1)] show ?thesis by (simp only: s fst_conv snd_conv)
  qed
  then have "Ball (set ?ss) (\<lambda>(x, z, tr). 7 + length i \<le> x \<and> x < z)"
    unfolding case_prod_beta by (rule ballI)
  from fold_spans_head [OF this assms(1,2) y1(2)]
  obtain y2 where y2: "fold_spans ?raw 0 ?ss = ''agent:'' @ i @ '':'' @ y2"
    and "\<exists>e\<in>set y2. e = d \<or> e = lower_char d" by (elim exE conjE)
  then have e2: "\<exists>e\<in>set y2. e \<noteq> CHR '':''"
    using assms(3) ne by (elim bexE disjE) (rule bexI, assumption+, simp)+
  have low: "to_lower ?raw = ''agent:'' @ i @ '':'' @ to_lower y1"
    using id_text_facts(2) [OF assms(1)] by (simp add: to_lower_def lower_char_def chr_in_def)
  have e1: "\<exists>e\<in>set (to_lower y1). e \<noteq> CHR '':''"
    using y1(2) ne by (auto simp: to_lower_def)
  have "normalizeSessionKeyPreservingOpaquePeerIds (Some (''agent:'' @ i @ '':'' @ y)) =
      (if mayContainCasePreservingPeer ?raw then fold_spans ?raw 0 ?ss else to_lower ?raw)"
    unfolding normalizeSessionKeyPreservingOpaquePeerIds_def normalizeOptionalString_def trim_opt_def
      option.case y1(1) by simp
  then show ?thesis unfolding y2 low using e1 e2 by (cases "mayContainCasePreservingPeer ?raw") auto
qed

lemma parse_head:
  assumes "id_text i" "visible d" "d \<noteq> CHR '':''" "d \<in> set y"
  obtains r where "parseAgentSessionKey (Some (''agent:'' @ i @ '':'' @ y)) = Some \<lparr>pk_agent = i, pk_rest = r\<rparr>"
proof -
  obtain y' e where y': "normalizeSessionKeyPreservingOpaquePeerIds (Some (''agent:'' @ i @ '':'' @ y)) =
      ''agent:'' @ i @ '':'' @ y'" "e \<in> set y'" "e \<noteq> CHR '':''"
    using normal_key_head [OF assms] by blast
  have "e \<in> set (concat (split_on (CHR '':'') y'))"
    using y'(2,3) by (induction y') (auto split: list.splits)
  then obtain w where w: "w \<in> set (split_on (CHR '':'') y')" "e \<in> set w" by auto
  then have "w \<in> set (filter (\<lambda>p. p \<noteq> []) (split_on (CHR '':'') y'))" by auto
  then obtain p ps where p: "filter (\<lambda>p. p \<noteq> []) (split_on (CHR '':'') y') = p # ps"
    by (cases "filter (\<lambda>p. p \<noteq> []) (split_on (CHR '':'') y')") auto
  have "p \<in> set (filter (\<lambda>p. p \<noteq> []) (split_on (CHR '':'') y'))"
    by (simp only: p list.set_intros)
  then have "p \<noteq> []" by simp
  note ps = p this
  then have parts: "key_parts (''agent:'' @ i @ '':'' @ y') = ''agent'' # i # p # ps"
    unfolding key_parts_def key_head_split [OF assms(1)] using id_text_facts(4) [OF assms(1)] by simp
  have "join '':'' (p # ps) \<noteq> []" using ps(2) by (cases ps) auto
  then show ?thesis
    using that parts y'(1) id_text_facts [OF assms(1)]
    by (simp add: parseAgentSessionKey_def normalizeOptionalString_def trim_opt_def Let_def
        del: append_Cons append_Nil)
qed

subsection \<open>Which conversations share a session\<close>

text \<open>The key under which the gateway keeps a conversation with a peer, without identity links.\<close>

definition conversation_key ::
  "dm_scope \<Rightarrow> string \<Rightarrow> string \<Rightarrow> string option \<Rightarrow> chat_type \<Rightarrow> string \<Rightarrow> string" where
  "conversation_key sc agent channel acct k peer =
     buildAgentPeerSessionKey agent None channel acct (Some k) (Some peer) None (Some sc)"

definition peer_name :: "string \<Rightarrow> chat_type \<Rightarrow> string \<Rightarrow> string" where
  "peer_name channel k peer =
     (if k = Direct then to_lower (trim peer)
      else or_text (normalizeSessionPeerId (Some channel) (Some (chat_name k)) (Some peer)) ''unknown'')"

definition key_segments :: "dm_scope \<Rightarrow> string \<Rightarrow> string option \<Rightarrow> chat_type \<Rightarrow> string list" where
  "key_segments sc channel acct k =
     (if k \<noteq> Direct then [channel_token channel, chat_name k]
      else case sc of
             PerPeer \<Rightarrow> [''direct'']
           | PerChannelPeer \<Rightarrow> [channel_token channel, ''direct'']
           | _ \<Rightarrow> [channel_token channel, normalizeAccountId acct, ''direct''])"

lemma conversation_key_segments:
  assumes "sc \<noteq> ScopeMain" "trim peer \<noteq> []"
  shows "conversation_key sc agent channel acct k peer =
    agent_key agent (key_segments sc channel acct k @ [peer_name channel k peer])"
proof (cases k)
  case Direct
  have "direct_peer sc None channel (Some peer) = to_lower (trim peer)"
    by (simp add: direct_peer_def resolveLinkedPeerId_def Let_def plain_text_def)
  then show ?thesis
    using assms Direct
    by (cases sc) (simp_all add: conversation_key_def buildAgentPeerSessionKey_def Let_def
        key_segments_def peer_name_def)
qed (simp_all add: conversation_key_def buildAgentPeerSessionKey_def key_segments_def peer_name_def)

lemma split_at_delim: "d \<notin> set a \<Longrightarrow> d \<notin> set b \<Longrightarrow> a @ d # x = b @ d # y \<longleftrightarrow> a = b \<and> x = y"
proof (induction a arbitrary: b)
  case Nil
  then show ?case by (cases b) auto
next
  case (Cons e a)
  then show ?case by (cases b) auto
qed

lemma join_Cons: "xs \<noteq> [] \<Longrightarrow> join d (x # xs) = x @ d @ join d xs"
  by (cases xs) auto

lemma join_heads:
  assumes "length xs = length ys" "\<forall>x\<in>set xs \<union> set ys. d \<notin> set x"
  shows "join [d] (xs @ [p]) = join [d] (ys @ [q]) \<longleftrightarrow> xs = ys \<and> p = q"
  using assms
proof (induction xs ys rule: list_induct2)
  case (Cons x xs y ys)
  then show ?case by (simp add: join_Cons split_at_delim)
qed simp

text \<open>The names that would let the segments of one kind of key be read as those of another.\<close>

definition plain_channel :: "string \<Rightarrow> bool" where
  "plain_channel channel \<longleftrightarrow> CHR '':'' \<notin> set (channel_token channel) \<and> channel_token channel \<noteq> ''direct''"

definition plain_account :: "string option \<Rightarrow> bool" where
  "plain_account acct \<longleftrightarrow> normalizeAccountId acct \<noteq> ''group'' \<and> normalizeAccountId acct \<noteq> ''channel''"

lemma agent_key_eq:
  assumes "length xs = length ys" "\<forall>x\<in>set xs \<union> set ys. CHR '':'' \<notin> set x"
  shows "agent_key a (xs @ [p]) = agent_key b (ys @ [q]) \<longleftrightarrow>
    normalizeAgentId (Some a) = normalizeAgentId (Some b) \<and> xs = ys \<and> p = q"
  using join_heads [of "[''agent'', normalizeAgentId (Some a)] @ xs" "[''agent'', normalizeAgentId (Some b)] @ ys"
      "CHR '':''" p q] assms id_text_facts(3) [OF normalizeAgentId_id]
  by (auto simp: agent_key_def)

lemma segments_plain:
  assumes "plain_channel channel"
  shows "\<forall>x\<in>set (key_segments sc channel acct k). CHR '':'' \<notin> set x"
  using assms id_text_facts(3) [OF normalizeAccountId_id]
  by (cases k; cases sc) (simp_all add: key_segments_def plain_channel_def)

lemma agent_key_merge: "agent_key a (xs @ [y, p]) = agent_key a (xs @ [y @ '':'' @ p])"
  by (simp add: agent_key_def) (induction xs; simp add: join_Cons)

lemma keys_apart:
  assumes eq: "agent_key a (key_segments sc ch acct k @ [p]) = agent_key a' (key_segments sc ch' acct' k' @ [p'])"
    and "sc \<noteq> ScopeMain" "plain_channel ch" "plain_channel ch'" "plain_account acct"
    and "k = Direct" "k' \<noteq> Direct"
  shows False
proof -
  have k': "key_segments sc ch' acct' k' = [channel_token ch', chat_name k']"
    using assms(7) by (simp add: key_segments_def)
  have plain: "CHR '':'' \<notin> set (channel_token ch)" "CHR '':'' \<notin> set (channel_token ch')"
    "CHR '':'' \<notin> set (normalizeAccountId acct)" "CHR '':'' \<notin> set (chat_name k')"
    using assms(3,4) id_text_facts(3) [OF normalizeAccountId_id] by (cases k'; simp add: plain_channel_def)+
  note eq' = eq [unfolded k']
  show False
  proof (cases sc)
    case PerAccountChannelPeer
    then have "agent_key a ([channel_token ch, normalizeAccountId acct] @ [''direct'' @ '':'' @ p]) =
        agent_key a' ([channel_token ch', chat_name k'] @ [p'])"
      using eq' assms(6) agent_key_merge [of a "[channel_token ch, normalizeAccountId acct]" "''direct''" p]
      by (simp add: key_segments_def)
    then have "normalizeAccountId acct = chat_name k'"
      using plain agent_key_eq [of "[channel_token ch, normalizeAccountId acct]" "[channel_token ch', chat_name k']"]
      by auto
    then show False using assms(5,7) by (cases k') (simp_all add: plain_account_def)
  next
    case PerChannelPeer
    then show False
      using eq' assms(6,7) plain agent_key_eq [of "[channel_token ch, ''direct'']" "[channel_token ch', chat_name k']"]
      by (cases k') (simp_all add: key_segments_def)
  next
    case PerPeer
    then have "agent_key a ([''direct''] @ [p]) = agent_key a' ([channel_token ch'] @ [chat_name k' @ '':'' @ p'])"
      using eq' assms(6) agent_key_merge [of a' "[channel_token ch']" "chat_name k'" p']
      by (simp add: key_segments_def)
    then show False
      using plain assms(4) agent_key_eq [of "[''direct'']" "[channel_token ch']"]
      by (simp add: plain_channel_def)
  qed (use assms(2) in simp)
qed

text \<open>
  C23 -- Unless direct messages share the main session of the agent, two conversations have
  one session key only if they are with the same agent, of the same kind and with the same
  peer, on the same channel (but for the scope that follows a person across channels), and,
  in the scope by account, on the same account; provided no channel holds a colon or is called
  direct and no account is called group or channel.
\<close>

theorem sessions_kept_apart:
  assumes "conversation_key sc a ch acct k p = conversation_key sc a' ch' acct' k' p'"
    and "sc \<noteq> ScopeMain" "plain_channel ch" "plain_channel ch'" "plain_account acct" "plain_account acct'"
    and "trim p \<noteq> []" "trim p' \<noteq> []"
  shows "normalizeAgentId (Some a) = normalizeAgentId (Some a') \<and> k = k' \<and>
    peer_name ch k p = peer_name ch' k' p' \<and>
    (k \<noteq> Direct \<or> sc \<noteq> PerPeer \<longrightarrow> channel_token ch = channel_token ch') \<and>
    (k = Direct \<and> sc = PerAccountChannelPeer \<longrightarrow> normalizeAccountId acct = normalizeAccountId acct')"
proof -
  have eq: "agent_key a (key_segments sc ch acct k @ [peer_name ch k p]) =
      agent_key a' (key_segments sc ch' acct' k' @ [peer_name ch' k' p'])"
    using assms(1) conversation_key_segments [OF assms(2,7)] conversation_key_segments [OF assms(2,8)] by simp
  have "k = Direct \<longleftrightarrow> k' = Direct"
    using keys_apart [OF eq assms(2-5)] keys_apart [OF eq [symmetric] assms(2,4,3,6)] by blast
  then have "length (key_segments sc ch acct k) = length (key_segments sc ch' acct' k')"
    by (cases sc) (auto simp: key_segments_def)
  then have "normalizeAgentId (Some a) = normalizeAgentId (Some a') \<and>
      key_segments sc ch acct k = key_segments sc ch' acct' k' \<and> peer_name ch k p = peer_name ch' k' p'"
    using eq segments_plain [OF assms(3)] segments_plain [OF assms(4)] by (subst (asm) agent_key_eq) auto
  moreover from this \<open>k = Direct \<longleftrightarrow> k' = Direct\<close> have "k = k'"
    by (cases k; cases k') (auto simp: key_segments_def)
  ultimately show ?thesis using assms(2) by (cases sc; cases k') (auto simp: key_segments_def)
qed

text \<open>The last hypotheses are needed: a direct peer of the account called group shares the session of a group.\<close>

lemma account_named_group:
  "conversation_key PerAccountChannelPeer ''main'' ''signal'' (Some ''group'') Direct ''bob'' =
   conversation_key PerAccountChannelPeer ''main'' ''signal'' (Some ''home'') Group ''direct:bob''"
  by code_simp

subsection \<open>A session knows its agent\<close>

lemma agent_key_head: "xs \<noteq> [] \<Longrightarrow>
  agent_key a xs = ''agent:'' @ normalizeAgentId (Some a) @ '':'' @ join '':'' xs"
  by (simp add: agent_key_def join_Cons)

lemma join_member: "x \<in> set xs \<Longrightarrow> d \<in> set x \<Longrightarrow> d \<in> set (join s xs)"
  by (induction s xs rule: join.induct) auto

lemma session_key_agent:
  assumes "normalizeMainKey mk = ''main''"
  shows "\<exists>r. parseAgentSessionKey (Some (buildAgentPeerSessionKey a mk ch acct k p links sc)) =
     Some \<lparr>pk_agent = normalizeAgentId (Some a), pk_rest = r\<rparr>"
proof -
  let ?named = "\<lambda>xs. \<exists>x\<in>set xs. \<exists>d\<in>set x. visible d \<and> d \<noteq> CHR '':''"
  have key: "\<exists>r. parseAgentSessionKey (Some (agent_key a xs)) =
      Some \<lparr>pk_agent = normalizeAgentId (Some a), pk_rest = r\<rparr>" if "?named xs" for xs
  proof -
    from that obtain x d where d: "x \<in> set xs" "d \<in> set x" "visible d" "d \<noteq> CHR '':''" by blast
    then have "xs \<noteq> []" by auto
    then show ?thesis
      using parse_head [OF normalizeAgentId_id d(3,4) join_member [OF d(1,2)], of "Some a"] agent_key_head
      by metis
  qed
  have v: "visible (CHR ''n'')" "visible (CHR ''r'')" by (simp_all add: visible_def chr_in_def)
  have names: "?named [''main'']" "?named [x, y, ''direct'', z]" "?named [x, ''direct'', z]"
    "?named [''direct'', z]" "?named [x, chat_name j, z]" for x y z j
    using v by (cases j; simp)+
  have main: "buildAgentMainSessionKey a mk = agent_key a [''main'']"
    using assms by (simp add: buildAgentMainSessionKey_def)
  show ?thesis
  proof (cases "case k of Some k \<Rightarrow> k | None \<Rightarrow> Direct")
    case Direct
    then show ?thesis
      using names key main by (simp add: buildAgentPeerSessionKey_def Let_def)
  qed (simp_all add: buildAgentPeerSessionKey_def key [OF names(5)] del: chat_name.simps)
qed

lemma main_key_default:
  "normalizeMainKey None = ''main''" "normalizeMainKey (Some DEFAULT_MAIN_KEY) = ''main''"
  by code_simp+

text \<open>
  C24 -- The agent of a session can be read from its key: whatever the agent, the channel, the
  account, the peer and the scope of direct messages, the key parses, and its agent is the
  normal form of the agent it was built for.
\<close>

theorem session_key_names_agent:
  "\<exists>r. parseAgentSessionKey (Some (buildAgentPeerSessionKey a None ch acct k p links sc)) =
     Some \<lparr>pk_agent = normalizeAgentId (Some a), pk_rest = r\<rparr>"
  by (rule session_key_agent [OF main_key_default(1)])

subsection \<open>The normal form of an agent is not always its own\<close>

text \<open>
  An identifier that starts with an underscore and is cut at a dash loses the dash when it is
  normalised again, so that the agent read from a session can have a different name.
\<close>

lemma agent_id_normalised_twice:
  "let a = ''_'' @ replicate 62 CHR ''a'' @ ''-b'' in
     length (normalizeAgentId (Some a)) = 64 \<and>
     length (normalizeAgentId (Some (normalizeAgentId (Some a)))) = 63"
  by code_simp

subsection \<open>The caches change no result\<close>

definition valid_cache :: "(string \<Rightarrow> 'v) \<Rightarrow> 'v obj \<Rightarrow> bool" where
  "valid_cache f m \<longleftrightarrow> (\<forall>k v. obj_get m k = Some v \<longrightarrow> v = f k) \<and> distinct (obj_keys m) \<and>
     length m \<le> ACCOUNT_ID_CACHE_MAX"

lemma obj_set_length: "length (obj_set m k v) \<le> Suc (length m)"
  by (induction m k v rule: obj_set.induct) auto

lemma obj_get_tl: "distinct (obj_keys m) \<Longrightarrow> obj_get (tl m) k = Some v \<Longrightarrow> obj_get m k = Some v"
  by (cases m) (auto simp: obj_get_def obj_keys_def dest: map_of_SomeD intro: rev_image_eqI)

lemma cache_set:
  assumes "valid_cache f m"
  shows "valid_cache f (setNormalizeCache m k (f k))"
proof -
  let ?m = "obj_set m k (f k)"
  have d: "distinct (obj_keys ?m)" using assms by (simp add: valid_cache_def obj_set_distinct)
  then have d': "distinct (obj_keys (tl ?m))" by (simp add: obj_keys_def map_tl distinct_tl)
  have v: "\<forall>j v. obj_get ?m j = Some v \<longrightarrow> v = f j"
    using assms by (auto simp: valid_cache_def obj_get_set)
  then have v': "\<forall>j v. obj_get (tl ?m) j = Some v \<longrightarrow> v = f j"
    using obj_get_tl [OF d] by blast
  have l: "length (tl ?m) \<le> ACCOUNT_ID_CACHE_MAX"
    using assms obj_set_length [of m k "f k"] unfolding valid_cache_def by (simp only: length_tl) linarith
  show ?thesis
  proof (cases "length ?m \<le> ACCOUNT_ID_CACHE_MAX")
    case True
    with d v show ?thesis unfolding valid_cache_def setNormalizeCache_def Let_def by (simp only: if_True simp_thms)
  next
    case False
    with d' v' l show ?thesis unfolding valid_cache_def setNormalizeCache_def Let_def by (simp only: if_False simp_thms)
  qed
qed

definition account_or_default :: "string \<Rightarrow> string" where
  "account_or_default t =
     (case normalizeCanonicalAccountId t of Some k \<Rightarrow> k | None \<Rightarrow> DEFAULT_ACCOUNT_ID)"

lemma account_or_default_ne: "account_or_default t \<noteq> []"
  by (simp add: account_or_default_def normalizeCanonicalAccountId_def DEFAULT_ACCOUNT_ID_def Let_def)

lemma account_cache_transparent:
  assumes "valid_cache account_or_default m"
  shows "fst (normalizeAccountId_cached m v) = normalizeAccountId v \<and>
    valid_cache account_or_default (snd (normalizeAccountId_cached m v))"
proof (cases "obj_get m (plain_text v)")
  case (Some n)
  then have n: "account_or_default (plain_text v) = n" using assms by (simp add: valid_cache_def)
  with Some show ?thesis
    using assms account_or_default_ne [of "plain_text v"]
    by (cases n) (simp_all add: normalizeAccountId_cached_def normalizeAccountId_def Let_def
        account_or_default_def [symmetric])
next
  case None
  then show ?thesis
    using assms cache_set [OF assms]
    by (simp add: normalizeAccountId_cached_def normalizeAccountId_def Let_def account_or_default_def [symmetric])
qed

lemma optional_account_cache_transparent:
  assumes "valid_cache normalizeCanonicalAccountId m"
  shows "fst (normalizeOptionalAccountId_cached m v) = normalizeOptionalAccountId v \<and>
    valid_cache normalizeCanonicalAccountId (snd (normalizeOptionalAccountId_cached m v))"
proof (cases "obj_get m (plain_text v)")
  case (Some n)
  then have "n = normalizeCanonicalAccountId (plain_text v)" using assms by (simp add: valid_cache_def)
  with Some assms show ?thesis
    by (simp add: normalizeOptionalAccountId_cached_def normalizeOptionalAccountId_def Let_def)
next
  case None
  then show ?thesis
    using assms cache_set [OF assms]
    by (simp add: normalizeOptionalAccountId_cached_def normalizeOptionalAccountId_def Let_def)
qed

subsection \<open>Witness\<close>

lemma sessions_kept_apart_witness:
  "conversation_key PerAccountChannelPeer ''Work'' ''telegram'' (Some ''home'') Direct ''Bob'' =
     conversation_key PerAccountChannelPeer ''work'' ''Telegram'' (Some ''HOME'') Direct ''bob'' \<and>
   peer_name ''telegram'' Direct ''Bob'' = peer_name ''Telegram'' Direct ''bob''"
proof -
  have "conversation_key PerAccountChannelPeer ''Work'' ''telegram'' (Some ''home'') Direct ''Bob'' =
      conversation_key PerAccountChannelPeer ''work'' ''Telegram'' (Some ''HOME'') Direct ''bob''"
    by code_simp
  from this sessions_kept_apart [OF this] show ?thesis
    by (simp add: plain_channel_def plain_account_def) (code_simp)
qed

end
