(* ===== verification/Routing.thy ===== *)
theory Routing
  imports Session_Keys "HOL-Library.List_Lexorder" "HOL-Library.Char_ord" "HOL-Library.Multiset"
begin

text \<open>
  Which agent answers a conversation (src/src/routing/resolve-route.ts, binding-scope.ts,
  bindings.ts, peer-kind-match.ts, with the default agent of src/src/agents/agent-scope-config.ts):
  the bindings of the configuration, the index built from them, the caches and the choice.

  The code recognises an unchanged configuration by the identity of its arrays; the model
  compares their values, which finds a cached result at least as often.  Identifiers are texts;
  a channel known under an alias is the parameter of the functions that use aliases.
\<close>

subsection \<open>Configuration\<close>

record agent_entry =
  ag_id :: "string option"
  ag_default :: bool

record binding_match =
  bm_channel :: "string option"
  bm_account :: "string option"
  bm_peer :: "(string option \<times> string option) option"
  bm_guild :: "string option"
  bm_team :: "string option"
  bm_roles :: "string list option"

record agent_binding =
  bd_acp :: bool
  bd_agent :: string
  bd_match :: binding_match
  bd_scope :: "dm_scope option"

record route_config =
  rc_agents :: "agent_entry list"
  rc_bindings :: "agent_binding list"
  rc_dm_scope :: "dm_scope option"
  rc_links :: "string list obj option"

definition isRouteBinding :: "agent_binding \<Rightarrow> bool" where
  "isRouteBinding b \<longleftrightarrow> \<not> bd_acp b"

definition listBindings :: "route_config \<Rightarrow> agent_binding list" where
  "listBindings cfg = filter isRouteBinding (rc_bindings cfg)"

definition resolveDefaultAgentId :: "route_config \<Rightarrow> string" where
  "resolveDefaultAgentId cfg =
     (case rc_agents cfg of
        [] \<Rightarrow> DEFAULT_AGENT_ID
      | a # _ \<Rightarrow>
          (let chosen = (case filter ag_default (rc_agents cfg) of d # _ \<Rightarrow> d | [] \<Rightarrow> a)
           in normalizeAgentId (Some (or_text (plain_text (ag_id chosen)) DEFAULT_AGENT_ID))))"

definition lookup_agents :: "agent_entry list \<Rightarrow> string obj" where
  "lookup_agents as =
     fold (\<lambda>a m. let raw = plain_text (ag_id a)
                 in if raw = [] then m
                    else obj_set m (normalizeAgentId (Some raw)) (sanitizeAgentId (Some raw))) as []"

definition pickFirstExistingAgentId :: "route_config \<Rightarrow> string \<Rightarrow> string" where
  "pickFirstExistingAgentId cfg agentId =
     (let fallback = sanitizeAgentId (Some (resolveDefaultAgentId cfg));
          trimmed = trim agentId; byId = lookup_agents (rc_agents cfg)
      in if trimmed = [] then fallback
         else if byId = [] then sanitizeAgentId (Some trimmed)
         else case obj_get byId (normalizeAgentId (Some trimmed)) of
                Some r \<Rightarrow> or_text r fallback | None \<Rightarrow> fallback)"

subsection \<open>Scopes of bindings\<close>

definition normalizeRouteBindingRoles :: "string list option \<Rightarrow> string list option" where
  "normalizeRouteBindingRoles v = (case v of Some (r # rs) \<Rightarrow> Some (r # rs) | _ \<Rightarrow> None)"

datatype peer_constraint = NoPeer | InvalidPeer | WildcardKind chat_type | ValidPeer chat_type string

record norm_match =
  nm_account :: string
  nm_peer :: peer_constraint
  nm_guild :: string
  nm_team :: string
  nm_roles :: "string list option"

text \<open>An identifier that is absent is the empty text here and null in the code.\<close>

definition normalizePeerConstraint :: "(string option \<times> string option) option \<Rightarrow> peer_constraint" where
  "normalizePeerConstraint p =
     (case p of
        None \<Rightarrow> NoPeer
      | Some (kind, pid) \<Rightarrow>
          (case normalizeChatType kind of
             None \<Rightarrow> InvalidPeer
           | Some k \<Rightarrow>
               if plain_text pid = [] then InvalidPeer
               else if plain_text pid = ''*'' then WildcardKind k
               else ValidPeer k (plain_text pid)))"

definition normalizeBindingMatch :: "binding_match \<Rightarrow> norm_match" where
  "normalizeBindingMatch m =
     \<lparr>nm_account = plain_text (bm_account m), nm_peer = normalizePeerConstraint (bm_peer m),
      nm_guild = plain_text (bm_guild m), nm_team = plain_text (bm_team m),
      nm_roles = normalizeRouteBindingRoles (bm_roles m)\<rparr>"

definition peerKindMatches :: "chat_type \<Rightarrow> chat_type \<Rightarrow> bool" where
  "peerKindMatches a b \<longleftrightarrow> a = b \<or> (a = Group \<and> b = Channel) \<or> (a = Channel \<and> b = Group)"

type_synonym peer = "chat_type \<times> string"

record binding_scope =
  bs_peer :: "peer option"
  bs_guild :: string
  bs_team :: string
  bs_space :: string
  bs_roles :: "string list"

definition scopeIdMatches :: "string \<Rightarrow> string \<Rightarrow> string \<Rightarrow> bool" where
  "scopeIdMatches con exact space \<longleftrightarrow> con = [] \<or> con = exact \<or> con = space"

definition hasAnyRouteBindingRole :: "string list \<Rightarrow> string list \<Rightarrow> bool" where
  "hasAnyRouteBindingRole roles members \<longleftrightarrow> list_ex (\<lambda>r. r \<in> set members) roles"

definition routeBindingScopeMatches :: "norm_match \<Rightarrow> binding_scope \<Rightarrow> bool" where
  "routeBindingScopeMatches m sc \<longleftrightarrow>
     scopeIdMatches (nm_guild m) (trim (bs_guild sc)) (trim (bs_space sc)) \<and>
     scopeIdMatches (nm_team m) (trim (bs_team sc)) (trim (bs_space sc)) \<and>
     (case normalizeRouteBindingRoles (nm_roles m) of
        None \<Rightarrow> True | Some roles \<Rightarrow> hasAnyRouteBindingRole roles (bs_roles sc))"

definition matchesBindingScope :: "norm_match \<Rightarrow> binding_scope \<Rightarrow> bool" where
  "matchesBindingScope m sc \<longleftrightarrow>
     (case nm_peer m of
        InvalidPeer \<Rightarrow> False
      | ValidPeer k i \<Rightarrow>
          (case bs_peer sc of None \<Rightarrow> False | Some (k', i') \<Rightarrow> peerKindMatches k k' \<and> i' = i)
      | WildcardKind k \<Rightarrow>
          (case bs_peer sc of None \<Rightarrow> False | Some (k', i') \<Rightarrow> peerKindMatches k k')
      | NoPeer \<Rightarrow> True) \<and>
     routeBindingScopeMatches m sc"

subsection \<open>Bindings by channel and account\<close>

record evaluated =
  eb_binding :: agent_binding
  eb_match :: norm_match
  eb_order :: nat

record channel_bucket =
  cb_account :: "evaluated list obj"
  cb_any :: "evaluated list"

definition resolveAccountPatternKey :: "string \<Rightarrow> string" where
  "resolveAccountPatternKey p = (if trim p = [] then DEFAULT_ACCOUNT_ID else normalizeAccountId (Some p))"

definition channel_of :: "agent_binding \<Rightarrow> string" where
  "channel_of b = normalizeLowercaseStringOrEmpty (bm_channel (bd_match b))"

definition push_account :: "evaluated \<Rightarrow> channel_bucket \<Rightarrow> channel_bucket" where
  "push_account e bk =
     (if nm_account (eb_match e) = ''*'' then bk\<lparr>cb_any := cb_any bk @ [e]\<rparr>
      else (let k = resolveAccountPatternKey (nm_account (eb_match e));
                old = (case obj_get (cb_account bk) k of Some l \<Rightarrow> l | None \<Rightarrow> [])
            in bk\<lparr>cb_account := obj_set (cb_account bk) k (old @ [e])\<rparr>))"

fun by_channel_from :: "nat \<Rightarrow> agent_binding list \<Rightarrow> channel_bucket obj \<Rightarrow> channel_bucket obj" where
  "by_channel_from n [] m = m"
| "by_channel_from n (b # bs) m =
     (let ch = channel_of b
      in if ch = [] then by_channel_from n bs m
         else (let e = \<lparr>eb_binding = b, eb_match = normalizeBindingMatch (bd_match b), eb_order = n\<rparr>;
                   bk = (case obj_get m ch of Some x \<Rightarrow> x | None \<Rightarrow> \<lparr>cb_account = [], cb_any = []\<rparr>)
               in by_channel_from (Suc n) bs (obj_set m ch (push_account e bk))))"

definition buildEvaluatedBindingsByChannel :: "route_config \<Rightarrow> channel_bucket obj" where
  "buildEvaluatedBindingsByChannel cfg = by_channel_from 0 (listBindings cfg) []"

fun merge_bindings :: "evaluated list \<Rightarrow> evaluated list \<Rightarrow> evaluated list" where
  "merge_bindings (x # xs) (y # ys) =
     (if eb_order x \<le> eb_order y then x # merge_bindings xs (y # ys) else y # merge_bindings (x # xs) ys)"
| "merge_bindings xs [] = xs"
| "merge_bindings [] ys = ys"

definition mergeEvaluatedBindingsInSourceOrder :: "evaluated list \<Rightarrow> evaluated list \<Rightarrow> evaluated list" where
  "mergeEvaluatedBindingsInSourceOrder xs ys =
     (if xs = [] then ys else if ys = [] then xs else merge_bindings xs ys)"

subsection \<open>The index of the bindings\<close>

record bindings_index =
  ix_peer :: "evaluated list obj"
  ix_wild :: "evaluated list"
  ix_roles :: "evaluated list obj"
  ix_guild :: "evaluated list obj"
  ix_team :: "evaluated list obj"
  ix_account :: "evaluated list"
  ix_channel :: "evaluated list"

definition pushToIndexMap :: "string \<Rightarrow> evaluated \<Rightarrow> evaluated list obj \<Rightarrow> evaluated list obj" where
  "pushToIndexMap k e m =
     (if k = [] then m
      else obj_set m k ((case obj_get m k of Some l \<Rightarrow> l | None \<Rightarrow> []) @ [e]))"

definition peer_key :: "chat_type \<Rightarrow> string \<Rightarrow> string" where
  "peer_key k i = chat_name k @ '':'' @ i"

definition peerLookupKeys :: "chat_type \<Rightarrow> string \<Rightarrow> string list" where
  "peerLookupKeys k i =
     (case k of
        Group \<Rightarrow> [peer_key Group i, peer_key Channel i]
      | Channel \<Rightarrow> [peer_key Channel i, peer_key Group i]
      | Direct \<Rightarrow> [peer_key Direct i])"

definition index_one :: "evaluated \<Rightarrow> bindings_index \<Rightarrow> bindings_index" where
  "index_one e ix =
     (let m = eb_match e
      in case nm_peer m of
           ValidPeer k i \<Rightarrow>
             ix\<lparr>ix_peer := fold (\<lambda>key. pushToIndexMap key e) (peerLookupKeys k i) (ix_peer ix)\<rparr>
         | WildcardKind k \<Rightarrow> ix\<lparr>ix_wild := ix_wild ix @ [e]\<rparr>
         | _ \<Rightarrow>
             if nm_guild m \<noteq> [] \<and> nm_roles m \<noteq> None
             then ix\<lparr>ix_roles := pushToIndexMap (nm_guild m) e (ix_roles ix)\<rparr>
             else if nm_guild m \<noteq> [] \<and> nm_roles m = None
             then ix\<lparr>ix_guild := pushToIndexMap (nm_guild m) e (ix_guild ix)\<rparr>
             else if nm_team m \<noteq> [] then ix\<lparr>ix_team := pushToIndexMap (nm_team m) e (ix_team ix)\<rparr>
             else if nm_account m \<noteq> ''*'' then ix\<lparr>ix_account := ix_account ix @ [e]\<rparr>
             else ix\<lparr>ix_channel := ix_channel ix @ [e]\<rparr>)"

definition buildEvaluatedBindingsIndex :: "evaluated list \<Rightarrow> bindings_index" where
  "buildEvaluatedBindingsIndex bs =
     fold index_one bs
       \<lparr>ix_peer = [], ix_wild = [], ix_roles = [], ix_guild = [], ix_team = [], ix_account = [], ix_channel = []\<rparr>"

definition add_unseen :: "evaluated list \<Rightarrow> evaluated list \<Rightarrow> evaluated list" where
  "add_unseen out ms = fold (\<lambda>e acc. if e \<in> set acc then acc else acc @ [e]) ms out"

definition collectPeerIndexedBindings :: "bindings_index \<Rightarrow> peer option \<Rightarrow> evaluated list" where
  "collectPeerIndexedBindings ix p =
     (case p of
        None \<Rightarrow> []
      | Some (k, i) \<Rightarrow>
          fold (\<lambda>key out. case obj_get (ix_peer ix) key of Some ms \<Rightarrow> add_unseen out ms | None \<Rightarrow> out)
            (peerLookupKeys k i) [])"

subsection \<open>The caches of a configuration\<close>

definition MAX_EVALUATED_BINDINGS_CACHE_KEYS :: nat where "MAX_EVALUATED_BINDINGS_CACHE_KEYS = 2000"
definition MAX_RESOLVED_ROUTE_CACHE_KEYS :: nat where "MAX_RESOLVED_ROUTE_CACHE_KEYS = 4000"

datatype matched_by =
  ByPeer | ByParentPeer | ByPeerWildcard | ByGuildRoles | ByGuild | ByTeam | ByAccount | ByChannel | ByDefault

record agent_route =
  ro_agent :: string
  ro_channel :: string
  ro_account :: string
  ro_session :: string
  ro_main :: string
  ro_last_main :: bool
  ro_matched :: matched_by

record eval_cache =
  ec_bindings :: "agent_binding list"
  ec_by_channel :: "channel_bucket obj"
  ec_account :: "evaluated list obj"
  ec_index :: "bindings_index obj"

record route_cache =
  rk_config :: route_config
  rk_routes :: "agent_route obj"

record router_state =
  rs_eval :: "eval_cache option"
  rs_routes :: "route_cache option"

definition no_caches :: router_state where
  "no_caches = \<lparr>rs_eval = None, rs_routes = None\<rparr>"

definition tab :: string where "tab = [CHR 0x09]"

definition eval_cache_of :: "route_config \<Rightarrow> router_state \<Rightarrow> eval_cache" where
  "eval_cache_of cfg st =
     (let fresh = \<lparr>ec_bindings = rc_bindings cfg, ec_by_channel = buildEvaluatedBindingsByChannel cfg,
                   ec_account = [], ec_index = []\<rparr>
      in case rs_eval st of
           Some e \<Rightarrow> if ec_bindings e = rc_bindings cfg then e else fresh
         | None \<Rightarrow> fresh)"

definition getEvaluatedBindingsForChannelAccount ::
  "route_config \<Rightarrow> string \<Rightarrow> string \<Rightarrow> router_state \<Rightarrow> evaluated list \<times> router_state" where
  "getEvaluatedBindingsForChannelAccount cfg channel accountId st =
     (let ca = eval_cache_of cfg st; key = channel @ tab @ accountId
      in case obj_get (ec_account ca) key of
           Some hit \<Rightarrow> (hit, st\<lparr>rs_eval := Some ca\<rparr>)
         | None \<Rightarrow>
             (let bk = obj_get (ec_by_channel ca) channel;
                  scoped = (case bk of
                              Some b \<Rightarrow> (case obj_get (cb_account b) accountId of Some l \<Rightarrow> l | None \<Rightarrow> [])
                            | None \<Rightarrow> []);
                  anyAccount = (case bk of Some b \<Rightarrow> cb_any b | None \<Rightarrow> []);
                  ev = mergeEvaluatedBindingsInSourceOrder scoped anyAccount;
                  ix = buildEvaluatedBindingsIndex ev;
                  accts = obj_set (ec_account ca) key ev;
                  ca' = (if MAX_EVALUATED_BINDINGS_CACHE_KEYS < length accts
                         then ca\<lparr>ec_account := [(key, ev)], ec_index := [(key, ix)]\<rparr>
                         else ca\<lparr>ec_account := accts, ec_index := obj_set (ec_index ca) key ix\<rparr>)
              in (ev, st\<lparr>rs_eval := Some ca'\<rparr>)))"

definition getEvaluatedBindingIndexForChannelAccount ::
  "route_config \<Rightarrow> string \<Rightarrow> string \<Rightarrow> router_state \<Rightarrow> bindings_index \<times> router_state" where
  "getEvaluatedBindingIndexForChannelAccount cfg channel accountId st =
     (case getEvaluatedBindingsForChannelAccount cfg channel accountId st of
        (bs, st') \<Rightarrow>
          (let key = channel @ tab @ accountId; built = buildEvaluatedBindingsIndex bs
           in case rs_eval st' of
                None \<Rightarrow> (built, st')
              | Some e \<Rightarrow>
                  (case obj_get (ec_index e) key of
                     Some ix \<Rightarrow> (ix, st')
                   | None \<Rightarrow> (built, st'\<lparr>rs_eval := Some (e\<lparr>ec_index := obj_set (ec_index e) key built\<rparr>)\<rparr>))))"

definition resolveRouteCacheForConfig :: "route_config \<Rightarrow> router_state \<Rightarrow> agent_route obj" where
  "resolveRouteCacheForConfig cfg st =
     (case rs_routes st of
        Some c \<Rightarrow> if rk_config c = cfg then rk_routes c else []
      | None \<Rightarrow> [])"

definition formatRouteCachePeer :: "peer option \<Rightarrow> string" where
  "formatRouteCachePeer p =
     (case p of Some (k, i) \<Rightarrow> if i = [] then ''-'' else peer_key k i | None \<Rightarrow> ''-'')"

definition formatRoleIdsCacheKey :: "string list \<Rightarrow> string" where
  "formatRoleIdsCacheKey roles =
     (case roles of
        [] \<Rightarrow> ''-''
      | [r] \<Rightarrow> r
      | [a, b] \<Rightarrow> if a \<le> b then a @ '','' @ b else b @ '','' @ a
      | _ \<Rightarrow> join '','' (sort roles))"

subsection \<open>A request\<close>

record route_request =
  rq_channel :: string
  rq_account :: "string option"
  rq_peer :: "peer option"
  rq_parent :: "peer option"
  rq_guild :: "string option"
  rq_team :: "string option"
  rq_roles :: "string list"

text \<open>The request in normal form.\<close>

record norm_request =
  nq_channel :: string
  nq_account :: string
  nq_peer :: "peer option"
  nq_parent :: "peer option"
  nq_guild :: string
  nq_team :: string
  nq_roles :: "string list"

definition norm_peer :: "peer option \<Rightarrow> peer option" where
  "norm_peer p = map_option (\<lambda>(k, i). (k, trim i)) p"

definition norm_request :: "route_request \<Rightarrow> norm_request" where
  "norm_request q =
     \<lparr>nq_channel = normalizeLowercaseStringOrEmpty (Some (rq_channel q)),
      nq_account = normalizeAccountId (rq_account q),
      nq_peer = norm_peer (rq_peer q), nq_parent = norm_peer (rq_parent q),
      nq_guild = plain_text (rq_guild q), nq_team = plain_text (rq_team q), nq_roles = rq_roles q\<rparr>"

definition buildResolvedRouteCacheKey :: "norm_request \<Rightarrow> dm_scope \<Rightarrow> string" where
  "buildResolvedRouteCacheKey n sc =
     join tab
       [nq_channel n, nq_account n, formatRouteCachePeer (nq_peer n), formatRouteCachePeer (nq_parent n),
        or_text (nq_guild n) ''-'', or_text (nq_team n) ''-'', formatRoleIdsCacheKey (nq_roles n),
        dm_scope_name sc]"

subsection \<open>The choice\<close>

definition deriveLastRoutePolicy :: "string \<Rightarrow> string \<Rightarrow> bool" where
  "deriveLastRoutePolicy sessionKey mainSessionKey \<longleftrightarrow> sessionKey = mainSessionKey"

definition resolveInboundLastRouteSessionKey :: "agent_route \<Rightarrow> string \<Rightarrow> string" where
  "resolveInboundLastRouteSessionKey r sessionKey = (if ro_last_main r then ro_main r else sessionKey)"

definition buildAgentSessionKey ::
  "string \<Rightarrow> string \<Rightarrow> string option \<Rightarrow> peer option \<Rightarrow> dm_scope option \<Rightarrow> string list obj option \<Rightarrow> string" where
  "buildAgentSessionKey agent channel accountId p sc links =
     buildAgentPeerSessionKey agent (Some DEFAULT_MAIN_KEY) (channel_token channel) accountId
       (Some (case p of Some (k, _) \<Rightarrow> k | None \<Rightarrow> Direct))
       (map_option (\<lambda>(_, i). or_text (trim i) ''unknown'') p) links sc"

definition choose_route :: "route_config \<Rightarrow> norm_request \<Rightarrow> string \<Rightarrow> matched_by \<Rightarrow> dm_scope option \<Rightarrow> agent_route" where
  "choose_route cfg n agentId how override =
     (let agent = pickFirstExistingAgentId cfg agentId;
          dmScope = (case rc_dm_scope cfg of Some x \<Rightarrow> x | None \<Rightarrow> ScopeMain);
          sc = (case override of Some x \<Rightarrow> x | None \<Rightarrow> dmScope);
          key = buildAgentSessionKey agent (nq_channel n) (Some (nq_account n)) (nq_peer n) (Some sc) (rc_links cfg);
          main = normalizeLowercaseStringOrEmpty (Some (buildAgentMainSessionKey agent (Some DEFAULT_MAIN_KEY)))
      in \<lparr>ro_agent = agent, ro_channel = nq_channel n, ro_account = nq_account n, ro_session = key,
          ro_main = main, ro_last_main = deriveLastRoutePolicy key main, ro_matched = how\<rparr>)"

record tier =
  ti_by :: matched_by
  ti_enabled :: bool
  ti_peer :: "peer option"
  ti_candidates :: "evaluated list"
  ti_predicate :: "evaluated \<Rightarrow> bool"

definition is_valid_peer :: "evaluated \<Rightarrow> bool" where
  "is_valid_peer e \<longleftrightarrow> (case nm_peer (eb_match e) of ValidPeer _ _ \<Rightarrow> True | _ \<Rightarrow> False)"

definition is_wildcard_peer :: "evaluated \<Rightarrow> bool" where
  "is_wildcard_peer e \<longleftrightarrow> (case nm_peer (eb_match e) of WildcardKind _ \<Rightarrow> True | _ \<Rightarrow> False)"

definition hasGuildConstraint :: "norm_match \<Rightarrow> bool" where "hasGuildConstraint m \<longleftrightarrow> nm_guild m \<noteq> []"
definition hasTeamConstraint :: "norm_match \<Rightarrow> bool" where "hasTeamConstraint m \<longleftrightarrow> nm_team m \<noteq> []"
definition hasRolesConstraint :: "norm_match \<Rightarrow> bool" where "hasRolesConstraint m \<longleftrightarrow> nm_roles m \<noteq> None"

definition in_map :: "'v list obj \<Rightarrow> string \<Rightarrow> 'v list" where
  "in_map m k = (if k = [] then [] else case obj_get m k of Some l \<Rightarrow> l | None \<Rightarrow> [])"

definition named_parent :: "norm_request \<Rightarrow> peer option" where
  "named_parent n = (case nq_parent n of Some (k, i) \<Rightarrow> if i = [] then None else Some (k, i) | None \<Rightarrow> None)"

definition tiers :: "norm_request \<Rightarrow> bindings_index \<Rightarrow> tier list" where
  "tiers n ix =
     [\<lparr>ti_by = ByPeer, ti_enabled = (nq_peer n \<noteq> None), ti_peer = nq_peer n,
       ti_candidates = collectPeerIndexedBindings ix (nq_peer n), ti_predicate = is_valid_peer\<rparr>,
      \<lparr>ti_by = ByParentPeer, ti_enabled = (named_parent n \<noteq> None), ti_peer = named_parent n,
       ti_candidates = collectPeerIndexedBindings ix (nq_parent n), ti_predicate = is_valid_peer\<rparr>,
      \<lparr>ti_by = ByPeerWildcard, ti_enabled = (nq_peer n \<noteq> None), ti_peer = nq_peer n,
       ti_candidates = ix_wild ix, ti_predicate = is_wildcard_peer\<rparr>,
      \<lparr>ti_by = ByGuildRoles, ti_enabled = (nq_guild n \<noteq> [] \<and> nq_roles n \<noteq> []), ti_peer = nq_peer n,
       ti_candidates = in_map (ix_roles ix) (nq_guild n),
       ti_predicate = (\<lambda>e. hasGuildConstraint (eb_match e) \<and> hasRolesConstraint (eb_match e))\<rparr>,
      \<lparr>ti_by = ByGuild, ti_enabled = (nq_guild n \<noteq> []), ti_peer = nq_peer n,
       ti_candidates = in_map (ix_guild ix) (nq_guild n),
       ti_predicate = (\<lambda>e. hasGuildConstraint (eb_match e) \<and> \<not> hasRolesConstraint (eb_match e))\<rparr>,
      \<lparr>ti_by = ByTeam, ti_enabled = (nq_team n \<noteq> []), ti_peer = nq_peer n,
       ti_candidates = in_map (ix_team ix) (nq_team n),
       ti_predicate = (\<lambda>e. hasTeamConstraint (eb_match e))\<rparr>,
      \<lparr>ti_by = ByAccount, ti_enabled = True, ti_peer = nq_peer n,
       ti_candidates = ix_account ix, ti_predicate = (\<lambda>e. nm_account (eb_match e) \<noteq> ''*'')\<rparr>,
      \<lparr>ti_by = ByChannel, ti_enabled = True, ti_peer = nq_peer n,
       ti_candidates = ix_channel ix, ti_predicate = (\<lambda>e. nm_account (eb_match e) = ''*'')\<rparr>]"

definition scope_of :: "norm_request \<Rightarrow> peer option \<Rightarrow> binding_scope" where
  "scope_of n p =
     \<lparr>bs_peer = p, bs_guild = nq_guild n, bs_team = nq_team n, bs_space = [], bs_roles = nq_roles n\<rparr>"

fun first_match :: "norm_request \<Rightarrow> tier list \<Rightarrow> (matched_by \<times> evaluated) option" where
  "first_match n [] = None"
| "first_match n (t # ts) =
     (if \<not> ti_enabled t then first_match n ts
      else case find (\<lambda>e. ti_predicate t e \<and> matchesBindingScope (eb_match e) (scope_of n (ti_peer t)))
                  (ti_candidates t) of
             Some e \<Rightarrow> Some (ti_by t, e)
           | None \<Rightarrow> first_match n ts)"

definition choose_match :: "route_config \<Rightarrow> norm_request \<Rightarrow> (matched_by \<times> evaluated) option \<Rightarrow> agent_route" where
  "choose_match cfg n r =
     (case r of
        Some (how, e) \<Rightarrow> choose_route cfg n (bd_agent (eb_binding e)) how (bd_scope (eb_binding e))
      | None \<Rightarrow> choose_route cfg n (resolveDefaultAgentId cfg) ByDefault None)"

definition resolveAgentRoute :: "bool \<Rightarrow> route_config \<Rightarrow> route_request \<Rightarrow> router_state \<Rightarrow> agent_route \<times> router_state" where
  "resolveAgentRoute verbose cfg q st =
     (let n = norm_request q;
          dmScope = (case rc_dm_scope cfg of Some x \<Rightarrow> x | None \<Rightarrow> ScopeMain);
          cached = \<not> verbose \<and> rc_links cfg = None;
          routes = resolveRouteCacheForConfig cfg st;
          st0 = (if cached then st\<lparr>rs_routes := Some \<lparr>rk_config = cfg, rk_routes = routes\<rparr>\<rparr> else st);
          key = buildResolvedRouteCacheKey n dmScope
      in case (if cached then obj_get routes key else None) of
           Some r \<Rightarrow> (r, st0)
         | None \<Rightarrow>
             (case getEvaluatedBindingsForChannelAccount cfg (nq_channel n) (nq_account n) st0 of
                (_, st1) \<Rightarrow>
                  (case getEvaluatedBindingIndexForChannelAccount cfg (nq_channel n) (nq_account n) st1 of
                     (ix, st2) \<Rightarrow>
                       (let r = choose_match cfg n (first_match n (tiers n ix));
                            m = obj_set routes key r;
                            m' = (if MAX_RESOLVED_ROUTE_CACHE_KEYS < length m then [(key, r)] else m)
                        in (r, if cached then st2\<lparr>rs_routes := Some \<lparr>rk_config = cfg, rk_routes = m'\<rparr>\<rparr> else st2)))))"

subsection \<open>Bindings in the order of the configuration\<close>

text \<open>The specification: the route bindings of a list, numbered, that apply to a channel and an account.\<close>

fun evaluate_from :: "nat \<Rightarrow> agent_binding list \<Rightarrow> evaluated list" where
  "evaluate_from n [] = []"
| "evaluate_from n (b # bs) =
     (if channel_of b = [] then evaluate_from n bs
      else \<lparr>eb_binding = b, eb_match = normalizeBindingMatch (bd_match b), eb_order = n\<rparr> #
           evaluate_from (Suc n) bs)"

definition on_any :: "string \<Rightarrow> evaluated \<Rightarrow> bool" where
  "on_any ch e \<longleftrightarrow> channel_of (eb_binding e) = ch \<and> nm_account (eb_match e) = ''*''"

definition on_account :: "string \<Rightarrow> string \<Rightarrow> evaluated \<Rightarrow> bool" where
  "on_account ch acct e \<longleftrightarrow> channel_of (eb_binding e) = ch \<and> nm_account (eb_match e) \<noteq> ''*'' \<and>
     resolveAccountPatternKey (nm_account (eb_match e)) = acct"

definition applicable :: "agent_binding list \<Rightarrow> string \<Rightarrow> string \<Rightarrow> evaluated list" where
  "applicable bs ch acct =
     filter (\<lambda>e. on_account ch acct e \<or> on_any ch e) (evaluate_from 0 (filter isRouteBinding bs))"

definition bucket_any :: "channel_bucket obj \<Rightarrow> string \<Rightarrow> evaluated list" where
  "bucket_any m ch = (case obj_get m ch of Some b \<Rightarrow> cb_any b | None \<Rightarrow> [])"

definition bucket_account :: "channel_bucket obj \<Rightarrow> string \<Rightarrow> string \<Rightarrow> evaluated list" where
  "bucket_account m ch acct =
     (case obj_get m ch of
        Some b \<Rightarrow> (case obj_get (cb_account b) acct of Some l \<Rightarrow> l | None \<Rightarrow> [])
      | None \<Rightarrow> [])"

lemma obj_get_small [simp]: "obj_get [] k = None" "obj_get [(j, v)] k = (if k = j then Some v else None)"
  by (simp_all add: obj_get_def)

lemma bucket_any_push:
  "bucket_any (obj_set m ch (push_account e (case obj_get m ch of Some x \<Rightarrow> x | None \<Rightarrow> \<lparr>cb_account = [], cb_any = []\<rparr>))) ch' =
     bucket_any m ch' @ (if ch' = ch \<and> nm_account (eb_match e) = ''*'' then [e] else [])"
  by (cases "obj_get m ch") (auto simp: bucket_any_def push_account_def obj_get_set Let_def)

lemma bucket_account_push:
  "bucket_account (obj_set m ch (push_account e (case obj_get m ch of Some x \<Rightarrow> x | None \<Rightarrow> \<lparr>cb_account = [], cb_any = []\<rparr>))) ch' acct =
     bucket_account m ch' acct @
       (if ch' = ch \<and> nm_account (eb_match e) \<noteq> ''*'' \<and> resolveAccountPatternKey (nm_account (eb_match e)) = acct
        then [e] else [])"
  by (cases "obj_get m ch") (auto simp: bucket_account_def push_account_def obj_get_set Let_def)

lemma by_channel_any:
  "bucket_any (by_channel_from n bs m) ch = bucket_any m ch @ filter (on_any ch) (evaluate_from n bs)"
  by (induction n bs m rule: by_channel_from.induct)
     (simp_all add: Let_def bucket_any_push on_any_def)

lemma by_channel_account:
  "bucket_account (by_channel_from n bs m) ch acct =
     bucket_account m ch acct @ filter (on_account ch acct) (evaluate_from n bs)"
  by (induction n bs m rule: by_channel_from.induct)
     (simp_all add: Let_def bucket_account_push on_account_def)

lemma evaluate_orders:
  "(\<forall>e\<in>set (evaluate_from n bs). n \<le> eb_order e) \<and> sorted_wrt (\<lambda>x y. eb_order x < eb_order y) (evaluate_from n bs)"
proof (induction n bs rule: evaluate_from.induct)
  case (2 n b bs)
  show ?case
  proof (cases "channel_of b = []")
    case False
    then have "\<forall>e\<in>set (evaluate_from (Suc n) bs). n < eb_order e"
      using 2(2) by (meson Suc_le_lessD)
    with 2(2) False show ?thesis by (simp add: less_imp_le)
  qed (use 2 in simp)
qed simp

lemma merge_left: "\<forall>y\<in>set ys. eb_order x \<le> eb_order y \<Longrightarrow> merge_bindings (x # xs) ys = x # merge_bindings xs ys"
  by (cases ys; cases xs) auto

lemma merge_right: "\<forall>x\<in>set xs. eb_order y < eb_order x \<Longrightarrow> merge_bindings xs (y # ys) = y # merge_bindings xs ys"
  by (cases xs; cases ys) auto

lemma merge_filters:
  assumes "sorted_wrt (\<lambda>x y. eb_order x < eb_order y) es" "\<forall>e. \<not> (P e \<and> Q e)"
  shows "merge_bindings (filter P es) (filter Q es) = filter (\<lambda>e. P e \<or> Q e) es"
  using assms
proof (induction es)
  case (Cons e es)
  then have "\<forall>y\<in>set (filter R es). eb_order e < eb_order y" for R by auto
  with Cons show ?case
    by (cases "P e"; cases "Q e") (simp_all add: merge_left merge_right less_imp_le)
qed simp

lemma merge_empty: "merge_bindings [] ys = ys" "merge_bindings xs [] = xs"
  by (cases ys; simp) (cases xs; simp)

lemma merged_applicable:
  "mergeEvaluatedBindingsInSourceOrder
     (bucket_account (by_channel_from 0 (filter isRouteBinding bs) []) ch acct)
     (bucket_any (by_channel_from 0 (filter isRouteBinding bs) []) ch) = applicable bs ch acct"
proof -
  have "bucket_account [] ch acct = []" "bucket_any [] ch = []"
    by (simp_all add: bucket_account_def bucket_any_def)
  moreover have "mergeEvaluatedBindingsInSourceOrder xs ys = merge_bindings xs ys" for xs ys
    by (simp add: mergeEvaluatedBindingsInSourceOrder_def merge_empty)
  ultimately show ?thesis
    using evaluate_orders [of 0 "filter isRouteBinding bs"]
    by (simp add: by_channel_any by_channel_account applicable_def merge_filters on_account_def on_any_def)
qed

lemma applicable_distinct: "distinct (applicable bs ch acct)"
proof -
  have "distinct es" if "sorted_wrt (\<lambda>x y. eb_order x < eb_order y) es" for es
    using that by (induction es) auto
  then have "distinct (evaluate_from n as)" for n as using evaluate_orders by blast
  then show ?thesis by (simp add: applicable_def)
qed

subsection \<open>What the index holds\<close>

definition binding_tier :: "evaluated \<Rightarrow> matched_by" where
  "binding_tier e =
     (let m = eb_match e
      in case nm_peer m of
           ValidPeer _ _ \<Rightarrow> ByPeer
         | WildcardKind _ \<Rightarrow> ByPeerWildcard
         | _ \<Rightarrow> if nm_guild m \<noteq> [] \<and> nm_roles m \<noteq> None then ByGuildRoles
                else if nm_guild m \<noteq> [] then ByGuild
                else if nm_team m \<noteq> [] then ByTeam
                else if nm_account m \<noteq> ''*'' then ByAccount else ByChannel)"

definition peer_keys :: "evaluated \<Rightarrow> string list" where
  "peer_keys e = (case nm_peer (eb_match e) of ValidPeer k i \<Rightarrow> peerLookupKeys k i | _ \<Rightarrow> [])"

lemma in_map_push: "in_map (pushToIndexMap k e m) j = in_map m j @ (if j = k \<and> k \<noteq> [] then [e] else [])"
  by (auto simp: in_map_def pushToIndexMap_def obj_get_set split: option.splits)

lemma in_map_push_all:
  "distinct ks \<Longrightarrow> in_map (fold (\<lambda>k. pushToIndexMap k e) ks m) j =
     in_map m j @ (if j \<in> set ks \<and> j \<noteq> [] then [e] else [])"
  by (induction ks arbitrary: m) (auto simp: in_map_push)

lemma peer_key_eq [simp]:
  "peer_key k i = peer_key k' i' \<longleftrightarrow> k = k' \<and> i = i'" "peer_key k i \<noteq> []" "[] \<noteq> peer_key k i"
  by (cases k; cases k'; simp add: peer_key_def)+

lemma lookup_keys_distinct: "distinct (peerLookupKeys k i)"
  by (cases k) (simp_all add: peerLookupKeys_def)

lemma index_one_views:
  "ix_wild (index_one e ix) = ix_wild ix @ (if binding_tier e = ByPeerWildcard then [e] else [])"
  "ix_account (index_one e ix) = ix_account ix @ (if binding_tier e = ByAccount then [e] else [])"
  "ix_channel (index_one e ix) = ix_channel ix @ (if binding_tier e = ByChannel then [e] else [])"
  "in_map (ix_roles (index_one e ix)) g =
     in_map (ix_roles ix) g @ (if binding_tier e = ByGuildRoles \<and> nm_guild (eb_match e) = g then [e] else [])"
  "in_map (ix_guild (index_one e ix)) g =
     in_map (ix_guild ix) g @ (if binding_tier e = ByGuild \<and> nm_guild (eb_match e) = g then [e] else [])"
  "in_map (ix_team (index_one e ix)) g =
     in_map (ix_team ix) g @ (if binding_tier e = ByTeam \<and> nm_team (eb_match e) = g then [e] else [])"
  "in_map (ix_peer (index_one e ix)) key =
     in_map (ix_peer ix) key @ (if key \<in> set (peer_keys e) \<and> key \<noteq> [] then [e] else [])"
  by (cases "nm_peer (eb_match e)"; auto simp: index_one_def binding_tier_def Let_def in_map_push
      in_map_push_all lookup_keys_distinct peer_keys_def)+

lemma fold_views:
  assumes "\<And>e x. view (step e x) = view x @ (if P e then [e] else [])"
  shows "view (fold step es x) = view x @ filter P es"
  by (induction es arbitrary: x) (auto simp: assms)

lemma index_views:
  "ix_wild (buildEvaluatedBindingsIndex es) = filter (\<lambda>e. binding_tier e = ByPeerWildcard) es"
  "ix_account (buildEvaluatedBindingsIndex es) = filter (\<lambda>e. binding_tier e = ByAccount) es"
  "ix_channel (buildEvaluatedBindingsIndex es) = filter (\<lambda>e. binding_tier e = ByChannel) es"
  "in_map (ix_roles (buildEvaluatedBindingsIndex es)) g =
     filter (\<lambda>e. binding_tier e = ByGuildRoles \<and> nm_guild (eb_match e) = g) es"
  "in_map (ix_guild (buildEvaluatedBindingsIndex es)) g =
     filter (\<lambda>e. binding_tier e = ByGuild \<and> nm_guild (eb_match e) = g) es"
  "in_map (ix_team (buildEvaluatedBindingsIndex es)) g =
     filter (\<lambda>e. binding_tier e = ByTeam \<and> nm_team (eb_match e) = g) es"
  "in_map (ix_peer (buildEvaluatedBindingsIndex es)) key =
     filter (\<lambda>e. key \<in> set (peer_keys e) \<and> key \<noteq> []) es"
  unfolding buildEvaluatedBindingsIndex_def
  by (subst fold_views [where view = ix_wild, OF index_one_views(1)], simp)
     (subst fold_views [where view = ix_account, OF index_one_views(2)], simp,
      subst fold_views [where view = ix_channel, OF index_one_views(3)], simp,
      subst fold_views [where view = "\<lambda>ix. in_map (ix_roles ix) g", OF index_one_views(4)], simp add: in_map_def,
      subst fold_views [where view = "\<lambda>ix. in_map (ix_guild ix) g", OF index_one_views(5)], simp add: in_map_def,
      subst fold_views [where view = "\<lambda>ix. in_map (ix_team ix) g", OF index_one_views(6)], simp add: in_map_def,
      subst fold_views [where view = "\<lambda>ix. in_map (ix_peer ix) key", OF index_one_views(7)], simp add: in_map_def)

lemma add_unseen_nil: "distinct ms \<Longrightarrow> set out \<inter> set ms = {} \<Longrightarrow> add_unseen out ms = out @ ms"
  unfolding add_unseen_def by (induction ms arbitrary: out) auto

lemma add_unseen_seen: "set ms \<subseteq> set out \<Longrightarrow> add_unseen out ms = out"
  unfolding add_unseen_def by (induction ms) auto

definition names_peer :: "peer \<Rightarrow> evaluated \<Rightarrow> bool" where
  "names_peer p e \<longleftrightarrow>
     (case nm_peer (eb_match e) of ValidPeer k i \<Rightarrow> peerKindMatches k (fst p) \<and> i = snd p | _ \<Rightarrow> False)"

lemma peer_keys_named:
  assumes "key \<in> set (peerLookupKeys k i)"
  shows "key \<in> set (peer_keys e) \<and> key \<noteq> [] \<longleftrightarrow> names_peer (k, i) e"
proof (cases "nm_peer (eb_match e)")
  case (ValidPeer k' i')
  then show ?thesis
    using assms by (cases k; cases k') (auto simp: peer_keys_def peerLookupKeys_def names_peer_def peerKindMatches_def)
qed (simp_all add: peer_keys_def names_peer_def)

lemma collect_named:
  assumes "distinct es"
  shows "collectPeerIndexedBindings (buildEvaluatedBindingsIndex es) (Some (k, i)) = filter (names_peer (k, i)) es"
proof -
  let ?ix = "buildEvaluatedBindingsIndex es"
  have at: "in_map (ix_peer ?ix) key = filter (names_peer (k, i)) es" if "key \<in> set (peerLookupKeys k i)" for key
    unfolding index_views(7) using peer_keys_named [OF that] by (intro filter_cong) auto
  have step: "(case obj_get (ix_peer ?ix) key of Some ms \<Rightarrow> add_unseen out ms | None \<Rightarrow> out) =
      add_unseen out (filter (names_peer (k, i)) es)" if "key \<in> set (peerLookupKeys k i)" for key out
  proof -
    have "key \<noteq> []" using that by (cases k) (auto simp: peerLookupKeys_def)
    then show ?thesis using at [OF that] by (auto simp: in_map_def add_unseen_def split: option.splits)
  qed
  have d: "add_unseen [] (filter (names_peer (k, i)) es) = filter (names_peer (k, i)) es"
    using assms by (subst add_unseen_nil) auto
  show ?thesis
    using step d add_unseen_seen [of "filter (names_peer (k, i)) es" "filter (names_peer (k, i)) es"]
    by (cases k) (simp_all add: collectPeerIndexedBindings_def peerLookupKeys_def)
qed

subsection \<open>The choice by scanning the configuration\<close>

definition tier_peer :: "norm_request \<Rightarrow> matched_by \<Rightarrow> peer option" where
  "tier_peer n t = (if t = ByParentPeer then named_parent n else nq_peer n)"

definition eligible :: "norm_request \<Rightarrow> matched_by \<Rightarrow> evaluated \<Rightarrow> bool" where
  "eligible n t e \<longleftrightarrow> binding_tier e = (if t = ByParentPeer then ByPeer else t) \<and>
     matchesBindingScope (eb_match e) (scope_of n (tier_peer n t))"

definition TIERS :: "matched_by list" where
  "TIERS = [ByPeer, ByParentPeer, ByPeerWildcard, ByGuildRoles, ByGuild, ByTeam, ByAccount, ByChannel]"

fun first_tier :: "norm_request \<Rightarrow> evaluated list \<Rightarrow> matched_by list \<Rightarrow> (matched_by \<times> evaluated) option" where
  "first_tier n es [] = None"
| "first_tier n es (t # ts) =
     (case find (eligible n t) es of Some e \<Rightarrow> Some (t, e) | None \<Rightarrow> first_tier n es ts)"

text \<open>The route of a request, read off the configuration: no index and no cache.\<close>

definition fresh_route :: "route_config \<Rightarrow> norm_request \<Rightarrow> agent_route" where
  "fresh_route cfg n =
     choose_match cfg n (first_tier n (applicable (rc_bindings cfg) (nq_channel n) (nq_account n)) TIERS)"

definition tier_find :: "norm_request \<Rightarrow> tier \<Rightarrow> evaluated option" where
  "tier_find n t =
     (if ti_enabled t
      then find (\<lambda>e. ti_predicate t e \<and> matchesBindingScope (eb_match e) (scope_of n (ti_peer t))) (ti_candidates t)
      else None)"

lemma first_match_tiers:
  assumes "list_all2 (\<lambda>t b. ti_by t = b \<and> tier_find n t = find (eligible n b) es) ts bs"
  shows "first_match n ts = first_tier n es bs"
  using assms
proof (induction ts bs rule: list_all2_induct)
  case (Cons t ts b bs)
  then show ?case by (cases "ti_enabled t") (simp_all add: tier_find_def split: option.splits)
qed simp

lemma find_filter: "find P (filter Q xs) = find (\<lambda>x. Q x \<and> P x) xs"
  by (induction xs) auto

lemma find_cong_set: "(\<And>x. x \<in> set xs \<Longrightarrow> P x = Q x) \<Longrightarrow> find P xs = find Q xs"
  by (rule find_cong) auto

lemma find_nothing: "(\<And>x. x \<in> set xs \<Longrightarrow> \<not> P x) \<Longrightarrow> find P xs = None"
  by (simp add: find_None_iff)

definition normal :: "norm_request \<Rightarrow> bool" where
  "normal n \<longleftrightarrow> trim (nq_guild n) = nq_guild n \<and> trim (nq_team n) = nq_team n"

lemma binding_tier_shapes:
  "binding_tier e = ByPeer \<longleftrightarrow> is_valid_peer e"
  "binding_tier e = ByPeerWildcard \<longleftrightarrow> is_wildcard_peer e"
  "binding_tier e = ByGuildRoles \<Longrightarrow> hasGuildConstraint (eb_match e) \<and> hasRolesConstraint (eb_match e)"
  "binding_tier e = ByGuild \<Longrightarrow> hasGuildConstraint (eb_match e) \<and> \<not> hasRolesConstraint (eb_match e)"
  "binding_tier e = ByTeam \<Longrightarrow> hasTeamConstraint (eb_match e)"
  "binding_tier e = ByAccount \<Longrightarrow> nm_account (eb_match e) \<noteq> ''*''"
  "binding_tier e = ByChannel \<Longrightarrow> nm_account (eb_match e) = ''*''"
  by (cases "nm_peer (eb_match e)"; simp add: binding_tier_def Let_def is_valid_peer_def is_wildcard_peer_def
      hasGuildConstraint_def hasRolesConstraint_def hasTeamConstraint_def split: if_splits)+

lemma matches_scope:
  "matchesBindingScope m (scope_of n p) \<Longrightarrow> normal n \<Longrightarrow>
     (nm_guild m \<noteq> [] \<longrightarrow> nq_guild n = nm_guild m) \<and> (nm_team m \<noteq> [] \<longrightarrow> nq_team n = nm_team m) \<and>
     (\<forall>r. nm_roles m = Some r \<and> r \<noteq> [] \<longrightarrow> (\<exists>x\<in>set r. x \<in> set (nq_roles n)))"
  by (auto simp: matchesBindingScope_def routeBindingScopeMatches_def scopeIdMatches_def scope_of_def
      normal_def normalizeRouteBindingRoles_def hasAnyRouteBindingRole_def list_ex_iff split: option.splits list.splits)

lemma matches_peer:
  assumes "matchesBindingScope (eb_match e) (scope_of n p)"
  shows "is_valid_peer e \<Longrightarrow> \<exists>q. p = Some q \<and> names_peer q e"
    "is_wildcard_peer e \<Longrightarrow> p \<noteq> None"
  using assms
  by (auto simp: matchesBindingScope_def is_valid_peer_def is_wildcard_peer_def names_peer_def scope_of_def
      split: peer_constraint.splits option.splits)

definition evaluated_ok :: "evaluated list \<Rightarrow> bool" where
  "evaluated_ok es \<longleftrightarrow> distinct es \<and> (\<forall>e\<in>set es. nm_roles (eb_match e) \<noteq> Some [])"

lemma peer_tier_find:
  assumes "evaluated_ok es"
  shows "find (\<lambda>e. is_valid_peer e \<and> matchesBindingScope (eb_match e) (scope_of n p))
      (collectPeerIndexedBindings (buildEvaluatedBindingsIndex es) p) =
    find (\<lambda>e. binding_tier e = ByPeer \<and> matchesBindingScope (eb_match e) (scope_of n p)) es"
proof (cases p)
  case None
  then show ?thesis
    using matches_peer(1)
    by (auto simp: collectPeerIndexedBindings_def binding_tier_shapes intro!: find_nothing [symmetric])
next
  case (Some q)
  obtain k i where q: "q = (k, i)" by (cases q)
  have d: "distinct es" using assms by (simp add: evaluated_ok_def)
  show ?thesis
    unfolding Some q collect_named [OF d] find_filter
  proof (rule find_cong_set)
    fix e
    show "(names_peer (k, i) e \<and> is_valid_peer e \<and> matchesBindingScope (eb_match e) (scope_of n (Some (k, i)))) =
        (binding_tier e = ByPeer \<and> matchesBindingScope (eb_match e) (scope_of n (Some (k, i))))"
      using matches_peer(1) [of e n "Some (k, i)"] by (auto simp: binding_tier_shapes)
  qed
qed

lemma tier_find_filter:
  assumes "ti_candidates t = filter (\<lambda>e. binding_tier e = b \<and> R e) es" "ti_peer t = tier_peer n b" "b \<noteq> ByParentPeer"
    and "\<And>e. e \<in> set es \<Longrightarrow> binding_tier e = b \<Longrightarrow> matchesBindingScope (eb_match e) (scope_of n (tier_peer n b)) \<Longrightarrow>
      ti_enabled t \<and> R e \<and> ti_predicate t e"
  shows "tier_find n t = find (eligible n b) es"
proof (cases "ti_enabled t")
  case True
  have "find (\<lambda>e. (binding_tier e = b \<and> R e) \<and> ti_predicate t e \<and>
      matchesBindingScope (eb_match e) (scope_of n (tier_peer n b))) es = find (eligible n b) es"
    using assms(3,4) by (intro find_cong_set) (auto simp: eligible_def)
  then show ?thesis using True assms(1,2) by (simp add: tier_find_def find_filter)
next
  case False
  have "find (eligible n b) es = None"
    using assms(3,4) False by (intro find_nothing) (auto simp: eligible_def)
  with False show ?thesis by (simp add: tier_find_def)
qed

lemma tier_find_peer:
  assumes "evaluated_ok es" "ti_candidates t = collectPeerIndexedBindings (buildEvaluatedBindingsIndex es) p"
    "ti_predicate t = is_valid_peer" "ti_peer t = tier_peer n b" "b = ByPeer \<or> b = ByParentPeer"
    "ti_enabled t \<longleftrightarrow> tier_peer n b \<noteq> None" "tier_peer n b \<noteq> None \<Longrightarrow> tier_peer n b = p"
  shows "tier_find n t = find (eligible n b) es"
proof (cases "tier_peer n b")
  case None
  then have "find (eligible n b) es = None"
    using assms(5) matches_peer(1) [of _ n None]
    by (intro find_nothing) (auto simp: eligible_def binding_tier_shapes)
  with None assms(6) show ?thesis by (simp add: tier_find_def)
next
  case (Some q)
  then have "eligible n b = (\<lambda>e. binding_tier e = ByPeer \<and> matchesBindingScope (eb_match e) (scope_of n p))"
    using assms(5,7) by (auto simp: eligible_def fun_eq_iff)
  with Some show ?thesis
    using peer_tier_find [OF assms(1), of n p] assms(2,3,4,6,7) by (simp add: tier_find_def)
qed

lemma tiers_find:
  assumes "evaluated_ok es" "normal n"
  shows "first_match n (tiers n (buildEvaluatedBindingsIndex es)) = first_tier n es TIERS"
proof (rule first_match_tiers)
  let ?ix = "buildEvaluatedBindingsIndex es"
  let ?m = "\<lambda>e p. matchesBindingScope (eb_match e) (scope_of n p)"
  have roles: "nm_roles (eb_match e) \<noteq> Some []" if "e \<in> set es" for e
    using that assms(1) by (simp add: evaluated_ok_def)
  have scope: "(nm_guild (eb_match e) \<noteq> [] \<longrightarrow> nq_guild n = nm_guild (eb_match e)) \<and>
      (nm_team (eb_match e) \<noteq> [] \<longrightarrow> nq_team n = nm_team (eb_match e)) \<and>
      (\<forall>r. nm_roles (eb_match e) = Some r \<and> r \<noteq> [] \<longrightarrow> (\<exists>x\<in>set r. x \<in> set (nq_roles n)))"
    if "?m e p" for e p using matches_scope [OF that assms(2)] .
  show "list_all2 (\<lambda>t b. ti_by t = b \<and> tier_find n t = find (eligible n b) es) (tiers n ?ix) TIERS"
    unfolding tiers_def TIERS_def list_all2_Cons list_all2_Nil
  proof (intro conjI)
    show "tier_find n \<lparr>ti_by = ByPeer, ti_enabled = (nq_peer n \<noteq> None), ti_peer = nq_peer n,
        ti_candidates = collectPeerIndexedBindings ?ix (nq_peer n), ti_predicate = is_valid_peer\<rparr> =
        find (eligible n ByPeer) es"
      by (rule tier_find_peer [OF assms(1)]) (simp_all add: tier_peer_def)
    show "tier_find n \<lparr>ti_by = ByParentPeer, ti_enabled = (named_parent n \<noteq> None), ti_peer = named_parent n,
        ti_candidates = collectPeerIndexedBindings ?ix (nq_parent n), ti_predicate = is_valid_peer\<rparr> =
        find (eligible n ByParentPeer) es"
      by (rule tier_find_peer [OF assms(1), where p = "nq_parent n"])
         (auto simp: tier_peer_def named_parent_def split: option.splits if_splits)
    show "tier_find n \<lparr>ti_by = ByPeerWildcard, ti_enabled = (nq_peer n \<noteq> None), ti_peer = nq_peer n,
        ti_candidates = ix_wild ?ix, ti_predicate = is_wildcard_peer\<rparr> = find (eligible n ByPeerWildcard) es"
      by (rule tier_find_filter [where R = "\<lambda>_. True"])
         (simp_all add: tier_peer_def index_views binding_tier_shapes matches_peer(2))
    have in_ByGuildRoles: "nq_guild n \<noteq> [] \<and> nq_roles n \<noteq> [] \<and> nm_guild (eb_match e) = nq_guild n \<and>
          hasGuildConstraint (eb_match e) \<and> hasRolesConstraint (eb_match e)"
      if e: "e \<in> set es" "binding_tier e = ByGuildRoles" "?m e (nq_peer n)" for e
    proof -
      have "nm_guild (eb_match e) \<noteq> []" "nm_roles (eb_match e) \<noteq> None"
        using binding_tier_shapes(3) [OF e(2)] by (auto simp: hasGuildConstraint_def hasRolesConstraint_def)
      with scope [OF e(3)] roles [OF e(1)] binding_tier_shapes(3) [OF e(2)]
      show ?thesis
        by (cases "nm_roles (eb_match e)") auto
    qed
    show "tier_find n \<lparr>ti_by = ByGuildRoles, ti_enabled = (nq_guild n \<noteq> [] \<and> nq_roles n \<noteq> []), ti_peer = nq_peer n,
        ti_candidates = in_map (ix_roles ?ix) (nq_guild n),
        ti_predicate = (\<lambda>e. hasGuildConstraint (eb_match e) \<and> hasRolesConstraint (eb_match e))\<rparr> =
        find (eligible n ByGuildRoles) es"
      by (rule tier_find_filter [where R = "\<lambda>e. nm_guild (eb_match e) = nq_guild n"])
         (simp_all add: tier_peer_def index_views in_ByGuildRoles)
    have in_ByGuild: "nq_guild n \<noteq> [] \<and> nm_guild (eb_match e) = nq_guild n \<and>
          hasGuildConstraint (eb_match e) \<and> \<not> hasRolesConstraint (eb_match e)"
      if e: "e \<in> set es" "binding_tier e = ByGuild" "?m e (nq_peer n)" for e
    proof -
      from scope [OF e(3)] binding_tier_shapes(4) [OF e(2)]
      show ?thesis
        by (auto simp: hasGuildConstraint_def)
    qed
    show "tier_find n \<lparr>ti_by = ByGuild, ti_enabled = (nq_guild n \<noteq> []), ti_peer = nq_peer n,
        ti_candidates = in_map (ix_guild ?ix) (nq_guild n),
        ti_predicate = (\<lambda>e. hasGuildConstraint (eb_match e) \<and> \<not> hasRolesConstraint (eb_match e))\<rparr> =
        find (eligible n ByGuild) es"
      by (rule tier_find_filter [where R = "\<lambda>e. nm_guild (eb_match e) = nq_guild n"])
         (simp_all add: tier_peer_def index_views in_ByGuild)
    have in_ByTeam: "nq_team n \<noteq> [] \<and> nm_team (eb_match e) = nq_team n \<and> hasTeamConstraint (eb_match e)"
      if e: "e \<in> set es" "binding_tier e = ByTeam" "?m e (nq_peer n)" for e
    proof -
      from scope [OF e(3)] binding_tier_shapes(5) [OF e(2)]
      show ?thesis
        by (auto simp: hasTeamConstraint_def)
    qed
    show "tier_find n \<lparr>ti_by = ByTeam, ti_enabled = (nq_team n \<noteq> []), ti_peer = nq_peer n,
        ti_candidates = in_map (ix_team ?ix) (nq_team n), ti_predicate = (\<lambda>e. hasTeamConstraint (eb_match e))\<rparr> =
        find (eligible n ByTeam) es"
      by (rule tier_find_filter [where R = "\<lambda>e. nm_team (eb_match e) = nq_team n"])
         (simp_all add: tier_peer_def index_views in_ByTeam)
    show "tier_find n \<lparr>ti_by = ByAccount, ti_enabled = True, ti_peer = nq_peer n,
        ti_candidates = ix_account ?ix, ti_predicate = (\<lambda>e. nm_account (eb_match e) \<noteq> ''*'')\<rparr> =
        find (eligible n ByAccount) es"
      by (rule tier_find_filter [where R = "\<lambda>_. True"])
         (simp_all add: tier_peer_def index_views binding_tier_shapes)
    show "tier_find n \<lparr>ti_by = ByChannel, ti_enabled = True, ti_peer = nq_peer n,
        ti_candidates = ix_channel ?ix, ti_predicate = (\<lambda>e. nm_account (eb_match e) = ''*'')\<rparr> =
        find (eligible n ByChannel) es"
      by (rule tier_find_filter [where R = "\<lambda>_. True"])
         (simp_all add: tier_peer_def index_views binding_tier_shapes)
  qed simp_all
qed

subsection \<open>The caches hold what a scan would give\<close>

lemma id_no_tab: "id_text s \<Longrightarrow> CHR 0x09 \<notin> set s"
  by (auto simp: id_text_def list_all_iff is_id_char_def chr_in_def is_digit_def)

lemma account_key_inj:
  assumes "ch @ tab @ a = ch' @ tab @ a'" "id_text a" "id_text a'"
  shows "ch = ch' \<and> a = a'"
proof -
  have "rev a @ CHR 0x09 # rev ch = rev a' @ CHR 0x09 # rev ch'"
    using arg_cong [OF assms(1), of rev] by (simp add: tab_def)
  then show ?thesis
    using split_at_delim [of "CHR 0x09" "rev a" "rev a'"] id_no_tab assms(2,3) by auto
qed

definition valid_eval :: "eval_cache \<Rightarrow> bool" where
  "valid_eval e \<longleftrightarrow>
     ec_by_channel e = by_channel_from 0 (filter isRouteBinding (ec_bindings e)) [] \<and>
     (\<forall>ch acct es. id_text acct \<longrightarrow> obj_get (ec_account e) (ch @ tab @ acct) = Some es \<longrightarrow>
        es = applicable (ec_bindings e) ch acct) \<and>
     (\<forall>ch acct ix. id_text acct \<longrightarrow> obj_get (ec_index e) (ch @ tab @ acct) = Some ix \<longrightarrow>
        ix = buildEvaluatedBindingsIndex (applicable (ec_bindings e) ch acct))"

definition eval_ready :: "route_config \<Rightarrow> router_state \<Rightarrow> bool" where
  "eval_ready cfg st \<longleftrightarrow> (\<exists>e. rs_eval st = Some e \<and> ec_bindings e = rc_bindings cfg \<and> valid_eval e)"

definition valid_evals :: "router_state \<Rightarrow> bool" where
  "valid_evals st \<longleftrightarrow> (\<forall>e. rs_eval st = Some e \<longrightarrow> valid_eval e)"

lemma eval_cache_valid:
  "valid_evals st \<Longrightarrow> valid_eval (eval_cache_of cfg st) \<and> ec_bindings (eval_cache_of cfg st) = rc_bindings cfg"
  by (auto simp: eval_cache_of_def valid_evals_def valid_eval_def Let_def listBindings_def
      buildEvaluatedBindingsByChannel_def split: option.split)

lemma put_account:
  assumes "\<forall>ch acct v. id_text acct \<longrightarrow> obj_get m (ch @ tab @ acct) = Some v \<longrightarrow> v = f ch acct" "id_text acct"
  shows "\<forall>ch' acct' v. id_text acct' \<longrightarrow> obj_get (obj_set m (ch @ tab @ acct) (f ch acct)) (ch' @ tab @ acct') = Some v \<longrightarrow>
    v = f ch' acct'"
proof (intro allI impI)
  fix ch' acct' v
  assume a: "id_text acct'" "obj_get (obj_set m (ch @ tab @ acct) (f ch acct)) (ch' @ tab @ acct') = Some v"
  show "v = f ch' acct'"
  proof (cases "ch' @ tab @ acct' = ch @ tab @ acct")
    case True
    then have "ch' = ch \<and> acct' = acct" using account_key_inj a(1) assms(2) by blast
    with a(2) show ?thesis by (simp add: obj_get_set)
  next
    case False
    with a(2) have "obj_get m (ch' @ tab @ acct') = Some v" by (simp add: obj_get_set del: append_assoc)
    with assms(1) a(1) show ?thesis by blast
  qed
qed

lemma valid_eval_put:
  assumes "valid_eval e" "id_text acct" "m = ec_account e \<and> m' = ec_index e \<or> m = [] \<and> m' = []"
  shows "valid_eval (e\<lparr>ec_account := obj_set m (ch @ tab @ acct) (applicable (ec_bindings e) ch acct),
      ec_index := obj_set m' (ch @ tab @ acct) (buildEvaluatedBindingsIndex (applicable (ec_bindings e) ch acct))\<rparr>)"
  using assms(1,3) put_account [of m "applicable (ec_bindings e)", OF _ assms(2)]
    put_account [of m' "\<lambda>ch acct. buildEvaluatedBindingsIndex (applicable (ec_bindings e) ch acct)", OF _ assms(2)]
  unfolding valid_eval_def eval_cache.select_convs eval_cache.simps by (elim disjE conjE) simp_all

lemma valid_eval_index:
  assumes "valid_eval e" "id_text acct"
  shows "valid_eval (e\<lparr>ec_index := obj_set (ec_index e) (ch @ tab @ acct)
      (buildEvaluatedBindingsIndex (applicable (ec_bindings e) ch acct))\<rparr>)"
  using assms(1)
    put_account [of "ec_index e" "\<lambda>ch acct. buildEvaluatedBindingsIndex (applicable (ec_bindings e) ch acct)", OF _ assms(2)]
  unfolding valid_eval_def eval_cache.select_convs eval_cache.simps by (elim conjE) simp

definition put_evaluated ::
  "evaluated list \<Rightarrow> string \<Rightarrow> eval_cache \<Rightarrow> router_state \<Rightarrow> evaluated list \<times> router_state" where
  "put_evaluated ev key ca st =
     (let ix = buildEvaluatedBindingsIndex ev; accts = obj_set (ec_account ca) key ev
      in (ev, st\<lparr>rs_eval := Some
        (if MAX_EVALUATED_BINDINGS_CACHE_KEYS < length accts
         then ca\<lparr>ec_account := [(key, ev)], ec_index := [(key, ix)]\<rparr>
         else ca\<lparr>ec_account := accts, ec_index := obj_set (ec_index ca) key ix\<rparr>)\<rparr>))"

lemma getEvaluated_miss:
  assumes "obj_get (ec_account (eval_cache_of cfg st)) (ch @ tab @ acct) = None"
  shows "getEvaluatedBindingsForChannelAccount cfg ch acct st =
    put_evaluated (mergeEvaluatedBindingsInSourceOrder
       (bucket_account (ec_by_channel (eval_cache_of cfg st)) ch acct)
       (bucket_any (ec_by_channel (eval_cache_of cfg st)) ch)) (ch @ tab @ acct) (eval_cache_of cfg st) st"
  using assms
  by (simp add: getEvaluatedBindingsForChannelAccount_def put_evaluated_def bucket_account_def bucket_any_def Let_def)

lemma evaluated_bindings:
  assumes "valid_evals st" "id_text acct" "getEvaluatedBindingsForChannelAccount cfg ch acct st = (es, st')"
  shows "es = applicable (rc_bindings cfg) ch acct \<and> eval_ready cfg st' \<and> rs_routes st' = rs_routes st"
proof -
  let ?e = "eval_cache_of cfg st"
  have e: "valid_eval ?e" "ec_bindings ?e = rc_bindings cfg" using eval_cache_valid [OF assms(1)] by auto
  show ?thesis
  proof (cases "obj_get (ec_account ?e) (ch @ tab @ acct)")
    case (Some hit)
    then have "hit = applicable (rc_bindings cfg) ch acct" using e assms(2) by (auto simp: valid_eval_def)
    then show ?thesis
      using Some assms(3) e
      by (auto simp: getEvaluatedBindingsForChannelAccount_def Let_def eval_ready_def)
  next
    case None
    have chans: "ec_by_channel ?e = by_channel_from 0 (filter isRouteBinding (rc_bindings cfg)) []"
      using e by (simp add: valid_eval_def)
    have "mergeEvaluatedBindingsInSourceOrder (bucket_account (ec_by_channel ?e) ch acct)
        (bucket_any (ec_by_channel ?e) ch) = applicable (rc_bindings cfg) ch acct"
      unfolding chans by (rule merged_applicable)
    then have get: "(es, st') = put_evaluated (applicable (rc_bindings cfg) ch acct) (ch @ tab @ acct) ?e st"
      using assms(3) getEvaluated_miss [OF None] by simp
    then have "es = applicable (rc_bindings cfg) ch acct \<and>
        (\<exists>m m'. st' = st\<lparr>rs_eval := Some (?e\<lparr>ec_account := obj_set m (ch @ tab @ acct) es,
           ec_index := obj_set m' (ch @ tab @ acct) (buildEvaluatedBindingsIndex es)\<rparr>)\<rparr> \<and>
         (m = ec_account ?e \<and> m' = ec_index ?e \<or> m = [] \<and> m' = []))"
    proof (cases "MAX_EVALUATED_BINDINGS_CACHE_KEYS <
        length (obj_set (ec_account ?e) (ch @ tab @ acct) (applicable (rc_bindings cfg) ch acct))")
      case True
      with get show ?thesis
        by (intro conjI exI [of _ "[]"]) (simp_all add: put_evaluated_def)
    next
      case False
      with get show ?thesis
        by (intro conjI exI [of _ "ec_account ?e"] exI [of _ "ec_index ?e"]) (simp_all add: put_evaluated_def)
    qed
    then obtain m m' where es: "es = applicable (rc_bindings cfg) ch acct"
      and st': "st' = st\<lparr>rs_eval := Some (?e\<lparr>ec_account := obj_set m (ch @ tab @ acct) es,
        ec_index := obj_set m' (ch @ tab @ acct) (buildEvaluatedBindingsIndex es)\<rparr>)\<rparr>"
      and m: "m = ec_account ?e \<and> m' = ec_index ?e \<or> m = [] \<and> m' = []" by blast
    show ?thesis
      unfolding st' es eval_ready_def using valid_eval_put [OF e(1) assms(2) m, of ch] unfolding e(2)
      by (simp add: e(2))
  qed
qed

lemma ready_valid: "eval_ready cfg st \<Longrightarrow> valid_evals st"
  by (auto simp: eval_ready_def valid_evals_def)

lemma evaluated_index:
  assumes "valid_evals st" "id_text acct" "getEvaluatedBindingIndexForChannelAccount cfg ch acct st = (ix, st')"
  shows "ix = buildEvaluatedBindingsIndex (applicable (rc_bindings cfg) ch acct) \<and> valid_evals st' \<and>
    rs_routes st' = rs_routes st"
proof -
  obtain es st1 where get: "getEvaluatedBindingsForChannelAccount cfg ch acct st = (es, st1)" by fastforce
  then have es: "es = applicable (rc_bindings cfg) ch acct" "eval_ready cfg st1" "rs_routes st1 = rs_routes st"
    using evaluated_bindings [OF assms(1,2)] by auto
  then obtain e where e: "rs_eval st1 = Some e" "ec_bindings e = rc_bindings cfg" "valid_eval e"
    by (auto simp: eval_ready_def)
  show ?thesis
  proof (cases "obj_get (ec_index e) (ch @ tab @ acct)")
    case None
    then show ?thesis
      using assms(3) get es e valid_eval_index [OF e(3) assms(2)]
      by (auto simp: getEvaluatedBindingIndexForChannelAccount_def Let_def valid_evals_def)
  next
    case (Some i)
    then have "i = buildEvaluatedBindingsIndex (applicable (rc_bindings cfg) ch acct)"
      using e assms(2) by (auto simp: valid_eval_def)
    with Some show ?thesis
      using assms(3) get es e ready_valid
      by (auto simp: getEvaluatedBindingIndexForChannelAccount_def Let_def)
  qed
qed

lemma applicable_ok: "evaluated_ok (applicable bs ch acct)"
proof -
  have "nm_roles (eb_match e) \<noteq> Some []" if "e \<in> set (evaluate_from n as)" for e n as
    using that by (induction n as rule: evaluate_from.induct)
      (auto simp: normalizeBindingMatch_def normalizeRouteBindingRoles_def split: if_splits option.splits list.splits)
  then show ?thesis
    using applicable_distinct by (auto simp: evaluated_ok_def applicable_def)
qed

lemma norm_request_normal [simp]: "normal (norm_request q)"
  by (simp add: normal_def norm_request_def)

subsection \<open>Requests whose cache keys are their own\<close>

definition no_tab :: "string \<Rightarrow> bool" where "no_tab s \<longleftrightarrow> CHR 0x09 \<notin> set s"

text \<open>
  The key separates its parts with tabs, the roles with commas, and writes a dash for what is
  absent; a peer with an empty identifier is written as an absent one.
\<close>

definition key_safe :: "norm_request \<Rightarrow> bool" where
  "key_safe n \<longleftrightarrow>
     no_tab (nq_channel n) \<and> no_tab (nq_guild n) \<and> no_tab (nq_team n) \<and>
     nq_guild n \<noteq> ''-'' \<and> nq_team n \<noteq> ''-'' \<and>
     (case nq_peer n of None \<Rightarrow> True | Some (_, i) \<Rightarrow> i \<noteq> [] \<and> no_tab i) \<and>
     (case nq_parent n of None \<Rightarrow> True | Some (_, i) \<Rightarrow> no_tab i) \<and>
     (\<forall>r\<in>set (nq_roles n). no_tab r \<and> CHR '','' \<notin> set r) \<and> nq_roles n \<noteq> [''-'']"

lemma role_key_join: "roles \<noteq> [] \<Longrightarrow> formatRoleIdsCacheKey roles = join '','' (sort roles)"
  by (auto simp: formatRoleIdsCacheKey_def split: list.split)

lemma role_key_inj:
  assumes "formatRoleIdsCacheKey a = formatRoleIdsCacheKey b"
    "\<forall>r\<in>set a \<union> set b. CHR '','' \<notin> set r" "a \<noteq> [''-'']" "b \<noteq> [''-'']"
  shows "set a = set b"
proof -
  have split: "split_on (CHR '','') (formatRoleIdsCacheKey r) = sort r"
    if "r \<noteq> []" "\<forall>x\<in>set r. CHR '','' \<notin> set x" for r
  proof -
    have "sort r \<noteq> []" using that(1) by (metis length_0_conv length_sort)
    then show ?thesis using that by (simp add: role_key_join split_on_join list_all_iff)
  qed
  have dash: "r = []" if "formatRoleIdsCacheKey r = ''-''" "\<forall>x\<in>set r. CHR '','' \<notin> set x" "r \<noteq> [''-'']" for r
  proof (rule ccontr)
    assume "r \<noteq> []"
    with split [OF this that(2)] that(1) have "sort r = [''-'']" by simp
    then have "mset r = mset [''-'']" by (metis mset_sort)
    with that(3) show False by simp
  qed
  show ?thesis
  proof (cases "a = [] \<or> b = []")
    case True
    then show ?thesis
      using assms dash [of a] dash [of b] by (auto simp: formatRoleIdsCacheKey_def)
  next
    case False
    then have "sort a = sort b" using assms split [of a] split [of b] by auto
    then show ?thesis by (metis set_sort)
  qed
qed

lemma split_tab:
  assumes "list_all no_tab zs" "zs \<noteq> []"
  shows "split_on (CHR 0x09) (join tab zs) = zs"
  unfolding tab_def using assms by (intro split_on_join) (simp_all add: list_all_iff no_tab_def)

lemma join_parts:
  assumes "join tab xs = join tab ys" "list_all no_tab xs" "list_all no_tab ys" "xs \<noteq> []" "ys \<noteq> []"
  shows "xs = ys"
  by (metis assms split_tab)

lemma peer_part:
  "(case p of None \<Rightarrow> True | Some (_, i) \<Rightarrow> no_tab i) \<Longrightarrow> no_tab (formatRouteCachePeer p)"
proof -
  have "CHR 0x09 \<notin> set (chat_name k)" for k by (cases k) simp_all
  then show "(case p of None \<Rightarrow> True | Some (_, i) \<Rightarrow> no_tab i) \<Longrightarrow> no_tab (formatRouteCachePeer p)"
    by (cases p) (auto simp: formatRouteCachePeer_def no_tab_def peer_key_def)
qed

lemma role_part: "\<forall>r\<in>set roles. no_tab r \<Longrightarrow> no_tab (formatRoleIdsCacheKey roles)"
proof (cases "roles = []")
  case False
  assume r: "\<forall>r\<in>set roles. no_tab r"
  have "no_tab (join '','' xs)" if "\<forall>x\<in>set xs. no_tab x" for xs
    using that by (induction "'',''" xs rule: join.induct) (auto simp: no_tab_def)
  with r False show ?thesis by (simp add: role_key_join)
qed (simp add: formatRoleIdsCacheKey_def no_tab_def)

lemma scope_part: "no_tab (dm_scope_name sc)"
  by (cases sc) (simp_all add: no_tab_def)

lemma peer_part_inj:
  assumes "formatRouteCachePeer p = formatRouteCachePeer q"
  shows "(case p of Some (k, i) \<Rightarrow> if i = [] then None else Some (k, i) | None \<Rightarrow> None) =
    (case q of Some (k, i) \<Rightarrow> if i = [] then None else Some (k, i) | None \<Rightarrow> None)"
proof -
  have dash: "peer_key k i \<noteq> ''-''" "''-'' \<noteq> peer_key k i" for k i by (cases k; simp add: peer_key_def)+
  show ?thesis using assms by (cases p; cases q) (auto simp: formatRouteCachePeer_def dash split: if_splits)
qed

lemma key_determines_request:
  assumes "buildResolvedRouteCacheKey n sc = buildResolvedRouteCacheKey n' sc" "key_safe n" "key_safe n'"
    "id_text (nq_account n)" "id_text (nq_account n')"
  shows "nq_channel n = nq_channel n' \<and> nq_account n = nq_account n' \<and> nq_peer n = nq_peer n' \<and>
    named_parent n = named_parent n' \<and> nq_guild n = nq_guild n' \<and> nq_team n = nq_team n' \<and>
    set (nq_roles n) = set (nq_roles n')"
proof -
  let ?parts = "\<lambda>n. [nq_channel n, nq_account n, formatRouteCachePeer (nq_peer n), formatRouteCachePeer (nq_parent n),
        or_text (nq_guild n) ''-'', or_text (nq_team n) ''-'', formatRoleIdsCacheKey (nq_roles n),
        dm_scope_name sc]"
  have parts: "list_all no_tab (?parts m)" if "key_safe m" "id_text (nq_account m)" for m
    using that id_no_tab [OF that(2)] scope_part role_part [of "nq_roles m"] peer_part [of "nq_peer m"]
      peer_part [of "nq_parent m"]
    by (auto simp: key_safe_def or_text_def no_tab_def split: option.splits)
  have "?parts n = ?parts n'"
    by (rule join_parts [OF assms(1) [unfolded buildResolvedRouteCacheKey_def] parts [OF assms(2,4)] parts [OF assms(3,5)]])
      simp_all
  then have eq: "nq_channel n = nq_channel n'" "nq_account n = nq_account n'"
    "formatRouteCachePeer (nq_peer n) = formatRouteCachePeer (nq_peer n')"
    "formatRouteCachePeer (nq_parent n) = formatRouteCachePeer (nq_parent n')"
    "or_text (nq_guild n) ''-'' = or_text (nq_guild n') ''-''" "or_text (nq_team n) ''-'' = or_text (nq_team n') ''-''"
    "formatRoleIdsCacheKey (nq_roles n) = formatRoleIdsCacheKey (nq_roles n')" by simp_all
  have "set (nq_roles n) = set (nq_roles n')"
    using role_key_inj [OF eq(7)] assms(2,3) by (auto simp: key_safe_def)
  moreover have "nq_peer n = nq_peer n'"
    using peer_part_inj [OF eq(3)] assms(2,3) by (auto simp: key_safe_def split: option.splits)
  moreover have "named_parent n = named_parent n'"
    using peer_part_inj [OF eq(4)] by (simp add: named_parent_def)
  ultimately show ?thesis
    using eq assms(2,3) by (auto simp: key_safe_def or_text_def split: if_splits)
qed

lemma matches_roles:
  assumes "set (nq_roles n) = set (nq_roles n')" "nq_guild n = nq_guild n'" "nq_team n = nq_team n'"
  shows "matchesBindingScope m (scope_of n p) = matchesBindingScope m (scope_of n' p)"
proof -
  have "hasAnyRouteBindingRole roles (nq_roles n) = hasAnyRouteBindingRole roles (nq_roles n')" for roles
    using assms(1) by (simp add: hasAnyRouteBindingRole_def)
  then show ?thesis
    using assms(2,3)
    by (simp add: matchesBindingScope_def routeBindingScopeMatches_def scope_of_def split: option.split peer_constraint.split)
qed

lemma fresh_route_cong:
  assumes "nq_channel n = nq_channel n' \<and> nq_account n = nq_account n' \<and> nq_peer n = nq_peer n' \<and>
    named_parent n = named_parent n' \<and> nq_guild n = nq_guild n' \<and> nq_team n = nq_team n' \<and>
    set (nq_roles n) = set (nq_roles n')"
  shows "fresh_route cfg n = fresh_route cfg n'"
proof -
  have "eligible n t = eligible n' t" for t
    using matches_roles [of n n'] assms by (auto simp: eligible_def tier_peer_def fun_eq_iff)
  then have "first_tier n es ts = first_tier n' es ts" for es ts
    by (induction ts) (simp_all split: option.split)
  moreover have "choose_route cfg n a h sc = choose_route cfg n' a h sc" for a h sc
    using assms by (simp add: choose_route_def)
  ultimately show ?thesis
    using assms by (simp add: fresh_route_def choose_match_def split: option.split prod.split)
qed

subsection \<open>The cached router is the scan\<close>

definition cfg_scope :: "route_config \<Rightarrow> dm_scope" where
  "cfg_scope cfg = (case rc_dm_scope cfg of Some x \<Rightarrow> x | None \<Rightarrow> ScopeMain)"

definition valid_routes :: "route_cache \<Rightarrow> bool" where
  "valid_routes c \<longleftrightarrow>
     (\<forall>n r. key_safe n \<longrightarrow> id_text (nq_account n) \<longrightarrow>
        obj_get (rk_routes c) (buildResolvedRouteCacheKey n (cfg_scope (rk_config c))) = Some r \<longrightarrow>
        r = fresh_route (rk_config c) n)"

definition valid_router :: "router_state \<Rightarrow> bool" where
  "valid_router st \<longleftrightarrow> valid_evals st \<and> (\<forall>c. rs_routes st = Some c \<longrightarrow> valid_routes c)"

lemma valid_routes_put:
  assumes "valid_routes \<lparr>rk_config = cfg, rk_routes = m\<rparr>" "key_safe n" "id_text (nq_account n)"
  shows "valid_routes \<lparr>rk_config = cfg, rk_routes =
      obj_set m (buildResolvedRouteCacheKey n (cfg_scope cfg)) (fresh_route cfg n)\<rparr>"
  unfolding valid_routes_def
proof (intro allI impI, simp)
  fix n' r
  assume n': "key_safe n'" "id_text (nq_account n')"
    and r: "obj_get (obj_set m (buildResolvedRouteCacheKey n (cfg_scope cfg)) (fresh_route cfg n))
      (buildResolvedRouteCacheKey n' (cfg_scope cfg)) = Some r"
  show "r = fresh_route cfg n'"
  proof (cases "buildResolvedRouteCacheKey n' (cfg_scope cfg) = buildResolvedRouteCacheKey n (cfg_scope cfg)")
    case True
    then have "fresh_route cfg n' = fresh_route cfg n"
      using fresh_route_cong [OF key_determines_request] n' assms(2,3) by blast
    with True r show ?thesis by (simp add: obj_get_set)
  next
    case False
    with r n' assms(1) show ?thesis by (auto simp: obj_get_set valid_routes_def)
  qed
qed

lemma route_cache_valid:
  "valid_router st \<Longrightarrow> valid_routes \<lparr>rk_config = cfg, rk_routes = resolveRouteCacheForConfig cfg st\<rparr>"
  by (auto simp: valid_router_def resolveRouteCacheForConfig_def valid_routes_def split: option.splits)

lemma resolve_route:
  assumes "valid_router st" "key_safe (norm_request q)"
  shows "fst (resolveAgentRoute verbose cfg q st) = fresh_route cfg (norm_request q) \<and>
    valid_router (snd (resolveAgentRoute verbose cfg q st))"
proof -
  define n where "n = norm_request q"
  define routes where "routes = resolveRouteCacheForConfig cfg st"
  define cached where "cached = (\<not> verbose \<and> rc_links cfg = None)"
  define key where "key = buildResolvedRouteCacheKey n (cfg_scope cfg)"
  define st0 where "st0 = (if cached then st\<lparr>rs_routes := Some \<lparr>rk_config = cfg, rk_routes = routes\<rparr>\<rparr> else st)"
  have n: "key_safe n" "id_text (nq_account n)" "normal n"
    using assms(2) normalizeAccountId_id by (simp_all add: n_def) (simp add: norm_request_def)
  have vr: "valid_routes \<lparr>rk_config = cfg, rk_routes = routes\<rparr>"
    unfolding routes_def by (rule route_cache_valid [OF assms(1)])
  have st0: "valid_router st0"
    using assms(1) vr by (simp add: st0_def valid_router_def valid_evals_def)
  obtain es st1 where get: "getEvaluatedBindingsForChannelAccount cfg (nq_channel n) (nq_account n) st0 = (es, st1)"
    by fastforce
  then have st1: "valid_evals st1" "rs_routes st1 = rs_routes st0"
    using evaluated_bindings [OF _ n(2) get] st0 ready_valid by (auto simp: valid_router_def)
  obtain ix st2 where idx: "getEvaluatedBindingIndexForChannelAccount cfg (nq_channel n) (nq_account n) st1 = (ix, st2)"
    by fastforce
  then have st2: "ix = buildEvaluatedBindingsIndex (applicable (rc_bindings cfg) (nq_channel n) (nq_account n))"
    "valid_evals st2" "rs_routes st2 = rs_routes st0"
    using evaluated_index [OF st1(1) n(2) idx] st1(2) by auto
  have fresh: "choose_match cfg n (first_match n (tiers n ix)) = fresh_route cfg n"
    unfolding st2(1) tiers_find [OF applicable_ok n(3)] fresh_route_def by simp
  let ?m = "obj_set routes key (fresh_route cfg n)"
  have one: "valid_routes \<lparr>rk_config = cfg, rk_routes = [(key, fresh_route cfg n)]\<rparr>"
    using valid_routes_put [of cfg "[]", OF _ n(1,2)] by (simp add: valid_routes_def key_def)
  have put: "valid_routes \<lparr>rk_config = cfg, rk_routes = ?m\<rparr>"
    unfolding key_def by (rule valid_routes_put [OF vr n(1,2)])
  have eq: "resolveAgentRoute verbose cfg q st =
      (case (if cached then obj_get routes key else None) of
         Some r \<Rightarrow> (r, st0)
       | None \<Rightarrow> (fresh_route cfg n,
           if cached then st2\<lparr>rs_routes := Some \<lparr>rk_config = cfg,
             rk_routes = (if MAX_RESOLVED_ROUTE_CACHE_KEYS < length ?m then [(key, fresh_route cfg n)] else ?m)\<rparr>\<rparr>
           else st2))"
    by (simp only: resolveAgentRoute_def Let_def n_def [symmetric] routes_def [symmetric] cached_def [symmetric]
        cfg_scope_def [symmetric] key_def [symmetric] st0_def [symmetric] get idx fresh prod.case)
  show ?thesis
  proof (cases "if cached then obj_get routes key else None")
    case None
    have "valid_router (if cached then st2\<lparr>rs_routes := Some \<lparr>rk_config = cfg,
        rk_routes = (if MAX_RESOLVED_ROUTE_CACHE_KEYS < length ?m then [(key, fresh_route cfg n)] else ?m)\<rparr>\<rparr> else st2)"
      using st2 st0 one put by (simp add: valid_router_def valid_evals_def)
    then show ?thesis unfolding eq None n_def [symmetric] by simp
  next
    case (Some r)
    then have "r = fresh_route cfg n"
      using vr n by (auto simp: valid_routes_def key_def split: if_splits)
    then show ?thesis unfolding eq Some n_def [symmetric] using st0 by simp
  qed
qed

text \<open>A run of requests, each with its own configuration and log level, on the shared caches.\<close>

fun route_all :: "(bool \<times> route_config \<times> route_request) list \<Rightarrow> router_state \<Rightarrow> agent_route list" where
  "route_all [] st = []"
| "route_all ((verbose, cfg, q) # qs) st =
     (case resolveAgentRoute verbose cfg q st of (r, st') \<Rightarrow> r # route_all qs st')"

lemma route_all_scan:
  "valid_router st \<Longrightarrow> \<forall>(v, cfg, q)\<in>set qs. key_safe (norm_request q) \<Longrightarrow>
     route_all qs st = map (\<lambda>(v, cfg, q). fresh_route cfg (norm_request q)) qs"
proof (induction qs arbitrary: st)
  case (Cons x qs)
  obtain v cfg q where x: "x = (v, cfg, q)" by (cases x)
  have "fst (resolveAgentRoute v cfg q st) = fresh_route cfg (norm_request q)"
    "valid_router (snd (resolveAgentRoute v cfg q st))"
    using resolve_route [OF Cons.prems(1), of q v cfg] Cons.prems(2) x by auto
  then show ?case
    using Cons.IH [of "snd (resolveAgentRoute v cfg q st)"] Cons.prems(2) x by (auto simp: case_prod_beta)
qed simp

lemma no_caches_valid: "valid_router no_caches"
  by (simp add: valid_router_def valid_evals_def no_caches_def)

text \<open>
  C21 -- Whatever the requests, the configurations they come with and the log level, the router
  with its index and its caches answers each request as a scan of the configuration would:
  with the first binding, in the order of the configuration, of the most specific tier that
  matches; provided no identifier of a request holds a tab, no role a comma, no identifier is a
  dash and no peer is empty.
\<close>

theorem routing_is_the_scan:
  assumes "\<forall>(v, cfg, q)\<in>set qs. key_safe (norm_request q)"
  shows "route_all qs no_caches = map (\<lambda>(v, cfg, q). fresh_route cfg (norm_request q)) qs"
  by (rule route_all_scan [OF no_caches_valid assms])

subsection \<open>What a route rests on\<close>

lemma first_tier_Some:
  "first_tier n es ts = Some (t, e) \<Longrightarrow> t \<in> set ts \<and> e \<in> set es \<and> eligible n t e"
  by (induction ts) (auto simp: find_Some_iff in_set_conv_nth split: option.splits)

lemma evaluate_member:
  "e \<in> set (evaluate_from n bs) \<Longrightarrow> eb_binding e \<in> set bs \<and> eb_match e = normalizeBindingMatch (bd_match (eb_binding e))"
  by (induction n bs rule: evaluate_from.induct) (auto split: if_splits)

lemma first_resolution: "fst (resolveAgentRoute verbose cfg q no_caches) = fresh_route cfg (norm_request q)"
proof -
  let ?n = "norm_request q"
  let ?st = "if \<not> verbose \<and> rc_links cfg = None then no_caches\<lparr>rs_routes := Some \<lparr>rk_config = cfg, rk_routes = []\<rparr>\<rparr> else no_caches"
  have acct: "id_text (nq_account ?n)" using normalizeAccountId_id by (simp add: norm_request_def)
  have ev: "valid_evals ?st" by (simp add: valid_evals_def no_caches_def)
  obtain es st1 where get: "getEvaluatedBindingsForChannelAccount cfg (nq_channel ?n) (nq_account ?n) ?st = (es, st1)"
    by fastforce
  have st1: "valid_evals st1" using evaluated_bindings [OF ev acct get] ready_valid by blast
  obtain ix st2 where idx: "getEvaluatedBindingIndexForChannelAccount cfg (nq_channel ?n) (nq_account ?n) st1 = (ix, st2)"
    by fastforce
  have ix: "choose_match cfg ?n (first_match ?n (tiers ?n ix)) = fresh_route cfg ?n"
    using evaluated_index [OF st1 acct idx] tiers_find [OF applicable_ok norm_request_normal]
    by (simp add: fresh_route_def)
  have "resolveRouteCacheForConfig cfg no_caches = []"
    by (simp add: resolveRouteCacheForConfig_def no_caches_def)
  moreover have "(if c then obj_get ([] :: agent_route obj) k else None) = None" for c k by simp
  ultimately show ?thesis
    using get idx ix by (simp add: resolveAgentRoute_def Let_def split del: if_split)
qed

lemma chosen:
  "ro_agent (choose_route cfg n a h sc) = pickFirstExistingAgentId cfg a"
  "ro_matched (choose_route cfg n a h sc) = h"
  by (simp_all add: choose_route_def Let_def)

text \<open>The caches after a run of requests.\<close>

definition after_requests :: "(bool \<times> route_config \<times> route_request) list \<Rightarrow> router_state \<Rightarrow> router_state" where
  "after_requests qs st = fold (\<lambda>(verbose, cfg, q) s. snd (resolveAgentRoute verbose cfg q s)) qs st"

lemma after_requests_valid:
  "valid_router st \<Longrightarrow> \<forall>(v, cfg, q)\<in>set qs. key_safe (norm_request q) \<Longrightarrow> valid_router (after_requests qs st)"
proof (induction qs arbitrary: st)
  case (Cons x qs)
  obtain v cfg q where x: "x = (v, cfg, q)" by (cases x)
  have "valid_router (snd (resolveAgentRoute v cfg q st))"
    using resolve_route [OF Cons.prems(1), of q v cfg] Cons.prems(2) x by auto
  then show ?case using Cons.IH Cons.prems(2) x by (simp add: after_requests_def)
qed (simp add: after_requests_def)

text \<open>The peer a binding asks for: none, a kind with any identifier, or a kind with one identifier.\<close>

definition peer_admitted :: "(string option \<times> string option) option \<Rightarrow> peer option \<Rightarrow> bool" where
  "peer_admitted bp p \<longleftrightarrow>
     (case bp of
        None \<Rightarrow> True
      | Some (kind, pid) \<Rightarrow>
          \<exists>k' k i. normalizeChatType kind = Some k' \<and> p = Some (k, i) \<and>
            (k' = k \<or> {k', k} = {Group, Channel}) \<and>
            plain_text pid \<noteq> [] \<and> (plain_text pid = ''*'' \<or> plain_text pid = i))"

definition binding_allows :: "route_config \<Rightarrow> norm_request \<Rightarrow> agent_binding \<Rightarrow> peer option \<Rightarrow> bool" where
  "binding_allows cfg n b p \<longleftrightarrow>
     b \<in> set (rc_bindings cfg) \<and> isRouteBinding b \<and> channel_of b = nq_channel n \<and>
     (plain_text (bm_account (bd_match b)) = ''*'' \<or>
      resolveAccountPatternKey (plain_text (bm_account (bd_match b))) = nq_account n) \<and>
     (plain_text (bm_guild (bd_match b)) \<noteq> [] \<longrightarrow> nq_guild n = plain_text (bm_guild (bd_match b))) \<and>
     (plain_text (bm_team (bd_match b)) \<noteq> [] \<longrightarrow> nq_team n = plain_text (bm_team (bd_match b))) \<and>
     (\<forall>r rs. bm_roles (bd_match b) = Some (r # rs) \<longrightarrow> (\<exists>x\<in>set (r # rs). x \<in> set (nq_roles n))) \<and>
     peer_admitted (bm_peer (bd_match b)) p"

lemma peer_matches_admitted:
  "(case normalizePeerConstraint bp of
      InvalidPeer \<Rightarrow> False
    | ValidPeer k i \<Rightarrow> (case p of None \<Rightarrow> False | Some (k', i') \<Rightarrow> peerKindMatches k k' \<and> i' = i)
    | WildcardKind k \<Rightarrow> (case p of None \<Rightarrow> False | Some (k', i') \<Rightarrow> peerKindMatches k k')
    | NoPeer \<Rightarrow> True) \<longleftrightarrow> peer_admitted bp p"
proof (cases bp)
  case None
  then show ?thesis by (simp add: normalizePeerConstraint_def peer_admitted_def)
next
  case (Some kp)
  obtain kind pid where kp: "kp = (kind, pid)" by force
  have "peerKindMatches a b \<longleftrightarrow> a = b \<or> {a, b} = {Group, Channel}" for a b
    by (cases a; cases b) (auto simp: peerKindMatches_def)
  then show ?thesis
    by (auto simp: Some kp normalizePeerConstraint_def peer_admitted_def split: option.split prod.split)
qed

lemma matches_allows:
  assumes "normal n"
  shows "matchesBindingScope (normalizeBindingMatch m) (scope_of n p) \<longleftrightarrow>
     (plain_text (bm_guild m) \<noteq> [] \<longrightarrow> nq_guild n = plain_text (bm_guild m)) \<and>
     (plain_text (bm_team m) \<noteq> [] \<longrightarrow> nq_team n = plain_text (bm_team m)) \<and>
     (\<forall>r rs. bm_roles m = Some (r # rs) \<longrightarrow> (\<exists>x\<in>set (r # rs). x \<in> set (nq_roles n))) \<and>
     peer_admitted (bm_peer m) p"
proof -
  have s: "scopeIdMatches a b [] \<longleftrightarrow> (a \<noteq> [] \<longrightarrow> b = a)" for a b
    by (auto simp: scopeIdMatches_def)
  have r: "(case normalizeRouteBindingRoles (normalizeRouteBindingRoles v) of
      None \<Rightarrow> True | Some roles \<Rightarrow> hasAnyRouteBindingRole roles ms) \<longleftrightarrow>
      (\<forall>r rs. v = Some (r # rs) \<longrightarrow> (\<exists>x\<in>set (r # rs). x \<in> set ms))" for v ms
    by (auto simp: normalizeRouteBindingRoles_def hasAnyRouteBindingRole_def list_ex_iff split: option.split list.split)
  have t: "trim [] = []" by code_simp
  have sel: "bs_peer (scope_of n p) = p" "bs_guild (scope_of n p) = nq_guild n" "bs_team (scope_of n p) = nq_team n"
    "bs_space (scope_of n p) = []" "bs_roles (scope_of n p) = nq_roles n"
    by (simp_all add: scope_of_def)
  show ?thesis
    using assms sel
    by (simp add: matchesBindingScope_def routeBindingScopeMatches_def normalizeBindingMatch_def normal_def
        peer_matches_admitted s r t conj_ac)
qed

lemma eligible_allows:
  assumes "e \<in> set (applicable (rc_bindings cfg) (nq_channel n) (nq_account n))" "eligible n t e" "normal n"
  shows "binding_allows cfg n (eb_binding e) (tier_peer n t)"
proof -
  let ?b = "eb_binding e"
  have e: "?b \<in> set (rc_bindings cfg)" "isRouteBinding ?b" "eb_match e = normalizeBindingMatch (bd_match ?b)"
    "channel_of ?b = nq_channel n" "nm_account (eb_match e) = ''*'' \<or> resolveAccountPatternKey (nm_account (eb_match e)) = nq_account n"
    using assms(1) evaluate_member by (fastforce simp: applicable_def on_account_def on_any_def)+
  have "matchesBindingScope (normalizeBindingMatch (bd_match ?b)) (scope_of n (tier_peer n t))"
    using assms(2) e(3) by (simp add: eligible_def)
  with matches_allows [OF assms(3)] e show ?thesis
    by (simp add: binding_allows_def normalizeBindingMatch_def)
qed

lemma evaluated_of:
  "b \<in> set bs \<Longrightarrow> channel_of b \<noteq> [] \<Longrightarrow> \<exists>e\<in>set (evaluate_from k bs). eb_binding e = b"
  by (induction k bs rule: evaluate_from.induct) auto

text \<open>A binding that admits the peer of the request is eligible in its tier.\<close>

lemma allows_eligible:
  assumes "binding_allows cfg n b (nq_peer n)" "nq_channel n \<noteq> []" "normal n"
  shows "\<exists>e\<in>set (applicable (rc_bindings cfg) (nq_channel n) (nq_account n)). \<exists>t\<in>set TIERS. eligible n t e"
proof -
  have b: "b \<in> set (filter isRouteBinding (rc_bindings cfg))" "channel_of b \<noteq> []"
    using assms(1,2) by (auto simp: binding_allows_def)
  then obtain e where e: "e \<in> set (evaluate_from 0 (filter isRouteBinding (rc_bindings cfg)))" "eb_binding e = b"
    using evaluated_of by blast
  then have m: "eb_match e = normalizeBindingMatch (bd_match b)" using evaluate_member by blast
  have "e \<in> set (applicable (rc_bindings cfg) (nq_channel n) (nq_account n))"
    using assms(1) e m by (auto simp: applicable_def on_account_def on_any_def binding_allows_def normalizeBindingMatch_def)
  moreover have t: "binding_tier e \<in> set TIERS" "binding_tier e \<noteq> ByParentPeer"
    by (auto simp: binding_tier_def TIERS_def Let_def split: peer_constraint.split)
  moreover have "eligible n (binding_tier e) e"
    using assms(1) m matches_allows [OF assms(3)] t(2)
    by (simp add: eligible_def tier_peer_def binding_allows_def)
  ultimately show ?thesis by blast
qed

lemma first_tier_None:
  "first_tier n es ts = None \<Longrightarrow> e \<in> set es \<Longrightarrow> t \<in> set ts \<Longrightarrow> \<not> eligible n t e"
  by (induction ts) (auto simp: find_None_iff split: option.splits)

text \<open>
  C22 -- A route rests on the configuration, whatever requests filled the caches before: it goes to the
  agent of a route binding for the channel and the account of the request whose guild, team, roles and
  peer all admit it -- for the tier of the parent, the parent's peer -- or, exactly when no binding admits
  the peer of the request, to the default agent; and the key of its session names the agent that was
  chosen.  The earlier requests and, if there are any, this one are such that their cache keys cannot
  collide (\<open>key_safe\<close>, as in C21).
\<close>

theorem routes_respect_bindings:
  assumes "\<forall>(v, c, x)\<in>set qs. key_safe (norm_request x)" and "qs \<noteq> [] \<longrightarrow> key_safe (norm_request q)"
    and "fst (resolveAgentRoute verbose cfg q (after_requests qs no_caches)) = r" and "norm_request q = n"
  shows "((\<exists>b. binding_allows cfg n b (if ro_matched r = ByParentPeer then named_parent n else nq_peer n) \<and>
        ro_agent r = pickFirstExistingAgentId cfg (bd_agent b) \<and> ro_matched r \<noteq> ByDefault) \<or>
      ro_matched r = ByDefault \<and> ro_agent r = pickFirstExistingAgentId cfg (resolveDefaultAgentId cfg) \<and>
        (nq_channel n \<noteq> [] \<longrightarrow> (\<forall>b. \<not> binding_allows cfg n b (nq_peer n)))) \<and>
    (\<exists>rest. parseAgentSessionKey (Some (ro_session r)) =
      Some \<lparr>pk_agent = normalizeAgentId (Some (ro_agent r)), pk_rest = rest\<rparr>)"
proof -
  let ?f = "first_tier n (applicable (rc_bindings cfg) (nq_channel n) (nq_account n)) TIERS"
  have "r = fresh_route cfg n"
    using assms first_resolution [of verbose cfg q]
      resolve_route [OF after_requests_valid [OF no_caches_valid assms(1)], of q verbose cfg]
    by (cases qs) (simp_all add: after_requests_def)
  then have r: "r = choose_match cfg n ?f" by (simp add: fresh_route_def)
  have key: "\<exists>rest. parseAgentSessionKey (Some (ro_session (choose_route cfg n a h sc))) =
      Some \<lparr>pk_agent = normalizeAgentId (Some (pickFirstExistingAgentId cfg a)), pk_rest = rest\<rparr>" for a h sc
    using session_key_agent [OF main_key_default(2)]
    by (simp add: choose_route_def Let_def buildAgentSessionKey_def)
  have norm: "normal n" using assms(4) norm_request_normal by blast
  show ?thesis
  proof (cases ?f)
    case None
    have "\<not> binding_allows cfg n b (nq_peer n)" if "nq_channel n \<noteq> []" for b
      using allows_eligible [OF _ that norm] first_tier_None [OF None] by blast
    then show ?thesis using r key None by (simp add: choose_match_def chosen)
  next
    case (Some te)
    obtain t e where te: "te = (t, e)" by (cases te)
    then have te': "t \<in> set TIERS" "e \<in> set (applicable (rc_bindings cfg) (nq_channel n) (nq_account n))" "eligible n t e"
      using first_tier_Some Some by blast+
    then have "binding_allows cfg n (eb_binding e) (tier_peer n t)"
      using eligible_allows norm by blast
    moreover have "ro_agent r = pickFirstExistingAgentId cfg (bd_agent (eb_binding e))" "ro_matched r = t" "t \<noteq> ByDefault"
      using r Some te te'(1) by (auto simp: choose_match_def chosen TIERS_def)
    ultimately show ?thesis
      using r key Some te by (auto simp: choose_match_def tier_peer_def)
  qed
qed

subsection \<open>An empty peer in the cache\<close>

text \<open>
  After a request the cache of its configuration holds its answer under its key, and a later
  request with the same key is answered from it.
\<close>

lemma route_is_cached:
  assumes "rc_links cfg = None"
  shows "obj_get (resolveRouteCacheForConfig cfg (snd (resolveAgentRoute False cfg q st)))
      (buildResolvedRouteCacheKey (norm_request q) (cfg_scope cfg)) =
    Some (fst (resolveAgentRoute False cfg q st))"
proof -
  let ?n = "norm_request q" and ?routes = "resolveRouteCacheForConfig cfg st"
  let ?key = "buildResolvedRouteCacheKey ?n (cfg_scope cfg)" and ?st = "st\<lparr>rs_routes := Some \<lparr>rk_config = cfg, rk_routes = resolveRouteCacheForConfig cfg st\<rparr>\<rparr>"
  obtain es st1 where get: "getEvaluatedBindingsForChannelAccount cfg (nq_channel ?n) (nq_account ?n) ?st = (es, st1)"
    by fastforce
  obtain ix st2 where idx: "getEvaluatedBindingIndexForChannelAccount cfg (nq_channel ?n) (nq_account ?n) st1 = (ix, st2)"
    by fastforce
  define r where "r = choose_match cfg ?n (first_match ?n (tiers ?n ix))"
  define m where "m = (if MAX_RESOLVED_ROUTE_CACHE_KEYS < length (obj_set ?routes ?key r) then [(?key, r)] else obj_set ?routes ?key r)"
  have "resolveAgentRoute False cfg q st =
      (case obj_get ?routes ?key of Some r \<Rightarrow> (r, ?st) | None \<Rightarrow> (r, st2\<lparr>rs_routes := Some \<lparr>rk_config = cfg, rk_routes = m\<rparr>\<rparr>))"
    by (simp only: resolveAgentRoute_def Let_def cfg_scope_def [symmetric] assms simp_thms if_True get idx prod.case
        r_def [symmetric] m_def [symmetric])
  moreover have "obj_get m ?key = Some r" by (simp add: m_def obj_get_set)
  ultimately show ?thesis
    by (cases "obj_get ?routes ?key") (simp_all add: resolveRouteCacheForConfig_def)
qed

lemma cached_answer:
  assumes "rc_links cfg = None"
    and "obj_get (resolveRouteCacheForConfig cfg st) (buildResolvedRouteCacheKey (norm_request q) (cfg_scope cfg)) = Some r"
  shows "fst (resolveAgentRoute False cfg q st) = r"
  using assms by (simp add: resolveAgentRoute_def Let_def cfg_scope_def [symmetric])

lemma empty_group_key:
  assumes "rq_peer q = None" "trim i = []"
  shows "buildResolvedRouteCacheKey (norm_request (q\<lparr>rq_peer := Some (Group, i)\<rparr>)) sc =
    buildResolvedRouteCacheKey (norm_request q) sc"
  using assms by (simp add: buildResolvedRouteCacheKey_def norm_request_def norm_peer_def formatRouteCachePeer_def)

lemma empty_group_session:
  assumes "nq_peer n = Some (Group, [])"
  shows "ro_session (choose_route cfg n a h sc) =
    agent_key (ro_agent (choose_route cfg n a h sc)) [channel_token (channel_token (nq_channel n)), ''group'', ''unknown'']"
proof -
  have "normalizeSessionPeerId ch (Some ''group'') (Some ''unknown'') = ''unknown''" for ch
  proof -
    have "plain_text (Some ''unknown'') = ''unknown''" "normalizeLowercaseStringOrEmpty (Some ''unknown'') = ''unknown''"
      by code_simp+
    then show ?thesis by (simp add: normalizeSessionPeerId_def Let_def)
  qed
  moreover have "or_text (trim []) ''unknown'' = ''unknown''" "chat_name Group = ''group''" "or_text ''unknown'' ''unknown'' = ''unknown''"
    by code_simp+
  ultimately show ?thesis
    using assms by (simp add: choose_route_def Let_def buildAgentSessionKey_def buildAgentPeerSessionKey_def)
qed

lemma no_peer_session:
  assumes "nq_peer n = None"
  shows "ro_session (choose_route cfg n a h sc) =
    agent_key (ro_agent (choose_route cfg n a h sc)) [''main'']"
proof -
  have "direct_peer x l c None = []" for x l c
  proof -
    have "plain_text None = []" "trim [] = []" "normalizeLowercaseStringOrEmpty (Some []) = []" by code_simp+
    then show ?thesis by (simp add: direct_peer_def Let_def resolveLinkedPeerId_def split: option.split)
  qed
  then show ?thesis
    using assms main_key_default(2)
    by (simp add: choose_route_def Let_def buildAgentSessionKey_def buildAgentPeerSessionKey_def buildAgentMainSessionKey_def)
qed

lemma group_key_is_not_main: "agent_key a [t, ''group'', ''unknown''] \<noteq> agent_key b [''main'']"
proof
  assume eq: "agent_key a [t, ''group'', ''unknown''] = agent_key b [''main'']"
  have l: "last (butlast (xs @ [c, d])) = c" for xs and c d :: char by (simp add: butlast_append)
  have "last (butlast (agent_key a [t, ''group'', ''unknown''])) = CHR ''w''"
    using l [of "''agent:'' @ normalizeAgentId (Some a) @ '':'' @ t @ '':group:unkno''" "CHR ''w''" "CHR ''n''"]
    by (simp add: agent_key_def)
  moreover have "last (butlast (agent_key b [''main''])) = CHR ''i''"
    using l [of "''agent:'' @ normalizeAgentId (Some b) @ '':ma''" "CHR ''i''" "CHR ''n''"]
    by (simp add: agent_key_def)
  ultimately show False using eq by simp
qed

lemma route_of_choice:
  "\<exists>a h sc. fst (resolveAgentRoute verbose cfg q no_caches) = choose_route cfg (norm_request q) a h sc"
  by (auto simp: first_resolution fresh_route_def choose_match_def split: option.split)


subsection \<open>Concrete requests\<close>

definition demo_config :: route_config where
  "demo_config =
     \<lparr>rc_agents = [\<lparr>ag_id = Some ''home'', ag_default = True\<rparr>, \<lparr>ag_id = Some ''work'', ag_default = False\<rparr>],
      rc_bindings = [\<lparr>bd_acp = False, bd_agent = ''work'',
        bd_match = \<lparr>bm_channel = Some ''discord'', bm_account = Some ''*'', bm_peer = None,
          bm_guild = Some ''g1'', bm_team = None, bm_roles = Some [''staff'']\<rparr>, bd_scope = None\<rparr>],
      rc_dm_scope = None, rc_links = None\<rparr>"

definition demo_route_request :: "peer option \<Rightarrow> string list \<Rightarrow> route_request" where
  "demo_route_request p roles =
     \<lparr>rq_channel = ''Discord'', rq_account = None, rq_peer = p, rq_parent = None, rq_guild = Some ''g1'',
      rq_team = None, rq_roles = roles\<rparr>"

definition demo_evaluated :: evaluated where
  "demo_evaluated =
     \<lparr>eb_binding = hd (rc_bindings demo_config),
      eb_match = normalizeBindingMatch (bd_match (hd (rc_bindings demo_config))), eb_order = 0\<rparr>"

lemma demo_applicable: "applicable (rc_bindings demo_config) ''discord'' acct = [demo_evaluated]"
proof -
  have "filter isRouteBinding (rc_bindings demo_config) = rc_bindings demo_config" by code_simp
  moreover have "channel_of (hd (rc_bindings demo_config)) = ''discord''" by code_simp
  moreover from this have "evaluate_from 0 (rc_bindings demo_config) = [demo_evaluated]"
    by (simp add: demo_evaluated_def demo_config_def)
  moreover have "on_any ''discord'' demo_evaluated" by code_simp
  ultimately show ?thesis by (simp add: applicable_def)
qed

lemma demo_eligible:
  "eligible (norm_request (demo_route_request p [''staff''])) t demo_evaluated \<longleftrightarrow> t = ByGuildRoles"
  "\<not> eligible (norm_request (demo_route_request p [''guest''])) t demo_evaluated"
proof -
  have tier: "binding_tier demo_evaluated = ByGuildRoles" by code_simp
  have m: "nm_peer (eb_match demo_evaluated) = NoPeer" "nm_guild (eb_match demo_evaluated) = ''g1''"
    "nm_team (eb_match demo_evaluated) = []" "nm_roles (eb_match demo_evaluated) = Some [''staff'']"
    "trim ''g1'' = ''g1''" by code_simp+
  then show "eligible (norm_request (demo_route_request p [''staff''])) t demo_evaluated \<longleftrightarrow> t = ByGuildRoles"
    "\<not> eligible (norm_request (demo_route_request p [''guest''])) t demo_evaluated"
    using tier
    by (auto simp: eligible_def matchesBindingScope_def routeBindingScopeMatches_def scopeIdMatches_def scope_of_def
        norm_request_def demo_route_request_def plain_text_def normalizeRouteBindingRoles_def hasAnyRouteBindingRole_def)
qed

lemma demo_route:
  "fresh_route demo_config (norm_request (demo_route_request p [''staff''])) =
     choose_route demo_config (norm_request (demo_route_request p [''staff''])) ''work'' ByGuildRoles None"
  "fresh_route demo_config (norm_request (demo_route_request p [''guest''])) =
     choose_route demo_config (norm_request (demo_route_request p [''guest''])) (resolveDefaultAgentId demo_config) ByDefault None"
proof -
  have b: "bd_agent (eb_binding demo_evaluated) = ''work''" "bd_scope (eb_binding demo_evaluated) = None"
    by (simp_all add: demo_evaluated_def demo_config_def)
  have "trim ''Discord'' = ''Discord''" "to_lower ''Discord'' = ''discord''" by code_simp+
  then have ch: "nq_channel (norm_request (demo_route_request p r)) = ''discord''" for r
    by (simp add: norm_request_def demo_route_request_def)
  show "fresh_route demo_config (norm_request (demo_route_request p [''staff''])) =
      choose_route demo_config (norm_request (demo_route_request p [''staff''])) ''work'' ByGuildRoles None"
    "fresh_route demo_config (norm_request (demo_route_request p [''guest''])) =
      choose_route demo_config (norm_request (demo_route_request p [''guest''])) (resolveDefaultAgentId demo_config) ByDefault None"
    by (simp_all add: fresh_route_def ch demo_applicable TIERS_def demo_eligible choose_match_def b)
qed

lemma demo_agents:
  "pickFirstExistingAgentId demo_config ''work'' = ''work''"
  "pickFirstExistingAgentId demo_config (resolveDefaultAgentId demo_config) = ''home''"
  by code_simp+

lemma routing_is_the_scan_witness:
  "route_all
     [(False, demo_config, demo_route_request (Some (Channel, ''c1'')) [''staff'']),
      (False, demo_config, demo_route_request (Some (Channel, ''c1'')) [''guest'']),
      (False, demo_config, demo_route_request (Some (Channel, ''c1'')) [''staff''])] no_caches =
   map (\<lambda>r. fresh_route demo_config (norm_request (demo_route_request (Some (Channel, ''c1'')) r)))
     [[''staff''], [''guest''], [''staff'']] \<and>
   map (\<lambda>r. ro_agent (fresh_route demo_config (norm_request (demo_route_request (Some (Channel, ''c1'')) r))))
     [[''staff''], [''guest'']] = [''work'', ''home'']"
proof
  have safe: "key_safe (norm_request (demo_route_request (Some (Channel, ''c1'')) [''staff'']))"
    "key_safe (norm_request (demo_route_request (Some (Channel, ''c1'')) [''guest'']))" by code_simp+
  show "route_all
     [(False, demo_config, demo_route_request (Some (Channel, ''c1'')) [''staff'']),
      (False, demo_config, demo_route_request (Some (Channel, ''c1'')) [''guest'']),
      (False, demo_config, demo_route_request (Some (Channel, ''c1'')) [''staff''])] no_caches =
   map (\<lambda>r. fresh_route demo_config (norm_request (demo_route_request (Some (Channel, ''c1'')) r)))
     [[''staff''], [''guest''], [''staff'']]"
    by (subst routing_is_the_scan) (simp_all add: safe)
  show "map (\<lambda>r. ro_agent (fresh_route demo_config (norm_request (demo_route_request (Some (Channel, ''c1'')) r))))
     [[''staff''], [''guest'']] = [''work'', ''home'']"
    by (simp add: demo_route chosen demo_agents)
qed

lemma routes_respect_bindings_witness:
  "(\<exists>b\<in>set (rc_bindings demo_config). ''work'' = pickFirstExistingAgentId demo_config (bd_agent b)) \<and>
   ro_agent (fst (resolveAgentRoute False demo_config (demo_route_request (Some (Channel, ''c1'')) [''staff''])
     (after_requests [(True, demo_config, demo_route_request (Some (Channel, ''c1'')) [''guest''])] no_caches))) = ''work''"
proof -
  let ?st = "after_requests [(True, demo_config, demo_route_request (Some (Channel, ''c1'')) [''guest''])] no_caches"
  let ?r = "fst (resolveAgentRoute False demo_config (demo_route_request (Some (Channel, ''c1'')) [''staff'']) ?st)"
  have safe: "key_safe (norm_request (demo_route_request (Some (Channel, ''c1'')) [''staff'']))"
    "key_safe (norm_request (demo_route_request (Some (Channel, ''c1'')) [''guest'']))" by code_simp+
  have "valid_router ?st" using safe(2) by (intro after_requests_valid no_caches_valid) simp
  then have "?r = fresh_route demo_config (norm_request (demo_route_request (Some (Channel, ''c1'')) [''staff'']))"
    using resolve_route safe(1) by blast
  then have v: "ro_agent ?r = ''work''" "ro_matched ?r = ByGuildRoles" by (simp_all add: demo_route chosen demo_agents)
  from routes_respect_bindings [OF _ _ refl refl, where cfg = demo_config and verbose = False
      and qs = "[(True, demo_config, demo_route_request (Some (Channel, ''c1'')) [''guest''])]"
      and q = "demo_route_request (Some (Channel, ''c1'')) [''staff'']"] safe
  have "\<exists>b. binding_allows demo_config (norm_request (demo_route_request (Some (Channel, ''c1'')) [''staff''])) b
        (nq_peer (norm_request (demo_route_request (Some (Channel, ''c1'')) [''staff'']))) \<and>
      ''work'' = pickFirstExistingAgentId demo_config (bd_agent b)"
    unfolding v by simp
  then show ?thesis using v(1) by (auto simp: binding_allows_def)
qed



subsection \<open>Accounts bound to agents\<close>

text \<open>
  The built-in channels and their aliases are the parameter \<open>chat\<close>, the order of texts in the
  locale of the process the parameter \<open>collate\<close>.
\<close>

record bound_match =
  bo_agent :: string
  bo_account :: string
  bo_channel :: string

definition normalizeRouteBindingChannelId :: "(string option \<Rightarrow> string option) \<Rightarrow> string option \<Rightarrow> string option" where
  "normalizeRouteBindingChannelId chat raw =
     (case chat raw of
        Some (ch # r) \<Rightarrow> Some (ch # r)
      | _ \<Rightarrow> (let f = normalizeLowercaseStringOrEmpty raw in if f = [] then None else Some f))"

definition resolveNormalizedRouteBindingMatch ::
  "(string option \<Rightarrow> string option) \<Rightarrow> agent_binding \<Rightarrow> bound_match option" where
  "resolveNormalizedRouteBindingMatch chat b =
     (case normalizeRouteBindingChannelId chat (bm_channel (bd_match b)) of
        None \<Rightarrow> None
      | Some ch \<Rightarrow>
          (let a = plain_text (bm_account (bd_match b))
           in if a = [] \<or> a = ''*'' then None
              else Some \<lparr>bo_agent = normalizeAgentId (Some (bd_agent b)), bo_account = normalizeAccountId (Some a),
                         bo_channel = ch\<rparr>))"

definition bound_on :: "(string option \<Rightarrow> string option) \<Rightarrow> route_config \<Rightarrow> string \<Rightarrow> bound_match list" where
  "bound_on chat cfg channel =
     filter (\<lambda>r. bo_channel r = channel) (List.map_filter (resolveNormalizedRouteBindingMatch chat) (listBindings cfg))"

definition listBoundAccountIds ::
  "(string option \<Rightarrow> string option) \<Rightarrow> (string list \<Rightarrow> string list) \<Rightarrow> route_config \<Rightarrow> string \<Rightarrow> string list" where
  "listBoundAccountIds chat collate cfg channelId =
     (case normalizeRouteBindingChannelId chat (Some channelId) of
        None \<Rightarrow> []
      | Some ch \<Rightarrow> collate (fold (\<lambda>r ids. if bo_account r \<in> set ids then ids else ids @ [bo_account r])
                     (bound_on chat cfg ch) []))"

definition resolveDefaultAgentBoundAccountId ::
  "(string option \<Rightarrow> string option) \<Rightarrow> route_config \<Rightarrow> string \<Rightarrow> string option" where
  "resolveDefaultAgentBoundAccountId chat cfg channelId =
     (case normalizeRouteBindingChannelId chat (Some channelId) of
        None \<Rightarrow> None
      | Some ch \<Rightarrow>
          map_option bo_account (find (\<lambda>r. bo_agent r = normalizeAgentId (Some (resolveDefaultAgentId cfg)))
            (bound_on chat cfg ch)))"

definition add_bound :: "bound_match \<Rightarrow> string list obj obj \<Rightarrow> string list obj obj" where
  "add_bound r m =
     (let agents = (case obj_get m (bo_channel r) of Some x \<Rightarrow> x | None \<Rightarrow> []);
          l = (case obj_get agents (bo_agent r) of Some x \<Rightarrow> x | None \<Rightarrow> []);
          l' = (if bo_account r \<in> set l then l else l @ [bo_account r])
      in obj_set m (bo_channel r) (obj_set agents (bo_agent r) l'))"

definition buildChannelAccountBindings :: "(string option \<Rightarrow> string option) \<Rightarrow> route_config \<Rightarrow> string list obj obj" where
  "buildChannelAccountBindings chat cfg =
     fold add_bound (List.map_filter (resolveNormalizedRouteBindingMatch chat) (listBindings cfg)) []"

definition resolvePreferredAccountId :: "string \<Rightarrow> string list \<Rightarrow> string" where
  "resolvePreferredAccountId defaultId bound = (case bound of a # _ \<Rightarrow> a | [] \<Rightarrow> defaultId)"

definition bound_accounts :: "string list obj obj \<Rightarrow> string \<Rightarrow> string \<Rightarrow> string list" where
  "bound_accounts m ch agent =
     (case obj_get m ch of Some x \<Rightarrow> (case obj_get x agent of Some l \<Rightarrow> l | None \<Rightarrow> []) | None \<Rightarrow> [])"

lemma add_bound_accounts:
  "set (bound_accounts (add_bound r m) ch agent) =
     set (bound_accounts m ch agent) \<union> (if bo_channel r = ch \<and> bo_agent r = agent then {bo_account r} else {})"
  by (auto simp: bound_accounts_def add_bound_def obj_get_set Let_def split: option.splits if_splits)

text \<open>
  The table of bindings lists under a channel and an agent exactly the accounts that some
  binding gives it, and the account of the default agent is among the bound accounts of the channel.
\<close>

theorem bound_accounts_exact:
  "set (bound_accounts (buildChannelAccountBindings chat cfg) ch agent) =
     {bo_account r | r. r \<in> set (bound_on chat cfg ch) \<and> bo_agent r = agent}"
proof -
  have "set (bound_accounts (fold add_bound rs m) ch agent) =
      set (bound_accounts m ch agent) \<union> {bo_account r | r. r \<in> set rs \<and> bo_channel r = ch \<and> bo_agent r = agent}" for rs m
    by (induction rs arbitrary: m) (auto simp: add_bound_accounts split: if_splits)
  then show ?thesis
    by (auto simp: buildChannelAccountBindings_def bound_on_def bound_accounts_def)
qed

lemma default_account_is_bound:
  assumes "resolveDefaultAgentBoundAccountId chat cfg channelId = Some a" "\<And>l. set (collate l) = set l"
  shows "a \<in> set (listBoundAccountIds chat collate cfg channelId)"
proof -
  have ids: "set (fold (\<lambda>r ids. if bo_account r \<in> set ids then ids else ids @ [bo_account r]) rs out) =
      set out \<union> bo_account ` set rs" for rs out
    by (induction rs arbitrary: out) auto
  have "x \<in> set xs" if "find P xs = Some x" for P xs and x :: bound_match
    using that by (auto simp: find_Some_iff)
  then show ?thesis
    using assms(1)
    by (auto simp: resolveDefaultAgentBoundAccountId_def listBoundAccountIds_def assms(2) ids split: option.splits)
qed

end
