(* ===== verification/Command_Queue.thy ===== *)
theory Command_Queue
  imports Gateway_Base
begin

text \<open>
  The lanes in which the gateway runs commands (src/src/process/command-queue.ts): the queue of
  a lane by priority and arrival, the tasks that run, clearing, recovery by generations, the
  drain for a restart, and the waiters for running tasks.

  The closures of running tasks, the promises settled so far and the tasks started so far, which
  the code keeps in the event loop, are lists of the state; a waiter has a number for its
  identity.  A concurrency limit is an integer.  Not modelled: logging and the callback for long waits, the repair of a state left by an older
  version of the code, and the reset for tests.
\<close>

subsection \<open>State\<close>

record queue_entry =
  qe_sequence :: nat
  qe_priority :: int
  qe_ahead :: nat
  qe_active_ahead :: nat
  qe_enqueued :: int
  qe_timeout :: "int option"
  qe_grace :: "int option"

record lane_state =
  ln_lane :: string
  ln_queue :: "queue_entry list"
  ln_active :: "nat list"
  ln_max :: int
  ln_draining :: bool
  ln_generation :: nat

record running_task =
  ru_task :: nat
  ru_lane :: string
  ru_generation :: nat
  ru_entry :: queue_entry

record task_waiter =
  wt_id :: nat
  wt_tasks :: "nat list"

datatype settlement = TaskResolved | TaskRejected | LaneCleared

record queue_state =
  qs_gateway_draining :: bool
  qs_lanes :: "lane_state obj"
  qs_waiters :: "task_waiter list"
  qs_next_waiter :: nat
  qs_next_task :: nat
  qs_next_sequence :: nat
  qs_running :: "running_task list"
  qs_started :: "(string \<times> queue_entry) list"
  qs_settled :: "(nat \<times> settlement) list"
  qs_waited :: "(nat \<times> bool) list"

definition initial_queue :: queue_state where
  "initial_queue =
     \<lparr>qs_gateway_draining = False, qs_lanes = [], qs_waiters = [], qs_next_waiter = 0, qs_next_task = 1, qs_next_sequence = 1,
      qs_running = [], qs_started = [], qs_settled = [], qs_waited = []\<rparr>"

definition MAIN_LANE :: string where "MAIN_LANE = ''main''"

definition normalizeLane :: "string \<Rightarrow> string" where
  "normalizeLane lane = (if trim lane = [] then MAIN_LANE else trim lane)"

definition new_lane :: "string \<Rightarrow> lane_state" where
  "new_lane lane =
     \<lparr>ln_lane = lane, ln_queue = [], ln_active = [], ln_max = 1, ln_draining = False, ln_generation = 0\<rparr>"

definition getLaneState :: "string \<Rightarrow> queue_state \<Rightarrow> lane_state \<times> queue_state" where
  "getLaneState lane st =
     (case obj_get (qs_lanes st) lane of
        Some l \<Rightarrow> (l, st)
      | None \<Rightarrow> (new_lane lane, st\<lparr>qs_lanes := obj_set (qs_lanes st) lane (new_lane lane)\<rparr>))"

definition put_lane :: "lane_state \<Rightarrow> queue_state \<Rightarrow> queue_state" where
  "put_lane l st = st\<lparr>qs_lanes := obj_set (qs_lanes st) (ln_lane l) l\<rparr>"

definition getLaneDepth :: "lane_state \<Rightarrow> nat" where
  "getLaneDepth l = length (ln_queue l) + length (ln_active l)"

subsection \<open>Waiters\<close>

definition all_active :: "queue_state \<Rightarrow> nat list" where
  "all_active st = concat (map (\<lambda>(_, l). ln_active l) (qs_lanes st))"

definition hasPendingActiveTasks :: "nat list \<Rightarrow> queue_state \<Rightarrow> bool" where
  "hasPendingActiveTasks tasks st \<longleftrightarrow> list_ex (\<lambda>t. t \<in> set tasks) (all_active st)"

definition resolveActiveTaskWaiter :: "nat \<Rightarrow> bool \<Rightarrow> queue_state \<Rightarrow> queue_state" where
  "resolveActiveTaskWaiter w drained st =
     (if list_ex (\<lambda>x. wt_id x = w) (qs_waiters st)
      then st\<lparr>qs_waiters := filter (\<lambda>x. wt_id x \<noteq> w) (qs_waiters st), qs_waited := qs_waited st @ [(w, drained)]\<rparr>
      else st)"

definition notifyActiveTaskWaiters :: "queue_state \<Rightarrow> queue_state" where
  "notifyActiveTaskWaiters st =
     fold (\<lambda>w s. if wt_tasks w = [] \<or> \<not> hasPendingActiveTasks (wt_tasks w) s
                 then resolveActiveTaskWaiter (wt_id w) True s else s) (qs_waiters st) st"

subsection \<open>Starting tasks\<close>

text \<open>The loop of \<open>pump\<close>: the tasks it starts, with their numbers, and what it leaves.\<close>

fun pump_queue ::
  "int \<Rightarrow> nat list \<Rightarrow> nat \<Rightarrow> queue_entry list \<Rightarrow>
     nat list \<times> nat \<times> queue_entry list \<times> (nat \<times> queue_entry) list" where
  "pump_queue mx act nx [] = (act, nx, [], [])"
| "pump_queue mx act nx (e # q) =
     (if int (length act) < mx
      then (case pump_queue mx (act @ [nx]) (Suc nx) q of
              (act', nx', q', started) \<Rightarrow> (act', nx', q', (nx, e) # started))
      else (act, nx, e # q, []))"

definition pump :: "lane_state \<Rightarrow> queue_state \<Rightarrow> queue_state" where
  "pump l st =
     (case pump_queue (ln_max l) (ln_active l) (qs_next_task st) (ln_queue l) of
        (act, nx, q, started) \<Rightarrow>
          put_lane (l\<lparr>ln_active := act, ln_queue := q, ln_draining := False\<rparr>)
            (st\<lparr>qs_next_task := nx,
                qs_running := qs_running st @
                  map (\<lambda>(t, e). \<lparr>ru_task = t, ru_lane = ln_lane l, ru_generation = ln_generation l, ru_entry = e\<rparr>) started,
                qs_started := qs_started st @ map (\<lambda>(_, e). (ln_lane l, e)) started\<rparr>))"

definition drainLane :: "string \<Rightarrow> queue_state \<Rightarrow> queue_state" where
  "drainLane lane st =
     (case getLaneState lane st of
        (l, st') \<Rightarrow> if ln_draining l then st' else pump (l\<lparr>ln_draining := True\<rparr>) st')"

subsection \<open>Entering a lane\<close>

datatype queue_priority = Foreground | Normal | Background

definition resolveQueuePriority :: "queue_priority option \<Rightarrow> int" where
  "resolveQueuePriority p = (case p of Some Foreground \<Rightarrow> 1 | Some Background \<Rightarrow> - 1 | _ \<Rightarrow> 0)"

definition normalizeTaskTimeoutMs :: "num64 option \<Rightarrow> int option" where
  "normalizeTaskTimeoutMs v =
     (case v of
        Some (Fin q) \<Rightarrow> if q \<le> 0 then None else Some (min (max \<lfloor>q\<rfloor> 1) MAX_TIMER_TIMEOUT_MS)
      | _ \<Rightarrow> None)"

definition behind :: "queue_entry \<Rightarrow> queue_entry \<Rightarrow> bool" where
  "behind e queued \<longleftrightarrow>
     qe_priority queued < qe_priority e \<or>
     qe_priority queued = qe_priority e \<and> qe_sequence queued > qe_sequence e"

definition enqueueLaneEntry :: "lane_state \<Rightarrow> queue_entry \<Rightarrow> lane_state" where
  "enqueueLaneEntry l e =
     (let front = takeWhile (\<lambda>q. \<not> behind e q) (ln_queue l);
          back = dropWhile (\<lambda>q. \<not> behind e q) (ln_queue l);
          e' = e\<lparr>qe_ahead := length front, qe_active_ahead := length (ln_active l)\<rparr>
      in l\<lparr>ln_queue := front @ [e'] @ back\<rparr>)"

record enqueue_options =
  eo_priority :: "queue_priority option"
  eo_timeout :: "num64 option"
  eo_grace :: "num64 option"

datatype enqueue_result = GatewayDraining | Enqueued nat

definition enqueueCommandInLane ::
  "string \<Rightarrow> enqueue_options \<Rightarrow> int \<Rightarrow> queue_state \<Rightarrow> enqueue_result \<times> queue_state" where
  "enqueueCommandInLane lane opts now st =
     (if qs_gateway_draining st then (GatewayDraining, st)
      else (case getLaneState (normalizeLane lane) st of
              (l, st') \<Rightarrow>
                (let s = qs_next_sequence st';
                     e = \<lparr>qe_sequence = s, qe_priority = resolveQueuePriority (eo_priority opts), qe_ahead = 0,
                          qe_active_ahead = 0, qe_enqueued = now,
                          qe_timeout = normalizeTaskTimeoutMs (eo_timeout opts),
                          qe_grace = normalizeTaskTimeoutMs (eo_grace opts)\<rparr>
                 in (Enqueued s,
                     drainLane (normalizeLane lane)
                       (put_lane (enqueueLaneEntry l e) (st'\<lparr>qs_next_sequence := Suc s\<rparr>))))))"

subsection \<open>The end of a task\<close>

definition completeTask :: "lane_state \<Rightarrow> nat \<Rightarrow> nat \<Rightarrow> lane_state option" where
  "completeTask l t g =
     (if g \<noteq> ln_generation l then None else Some (l\<lparr>ln_active := filter (\<lambda>x. x \<noteq> t) (ln_active l)\<rparr>))"

text \<open>What follows the await in the closure of a task: the promise is settled after the pump.\<close>

definition finish_task :: "nat \<Rightarrow> bool \<Rightarrow> queue_state \<Rightarrow> queue_state" where
  "finish_task t ok st =
     (case find (\<lambda>r. ru_task r = t) (qs_running st) of
        None \<Rightarrow> st
      | Some r \<Rightarrow>
          (let st1 = st\<lparr>qs_running := filter (\<lambda>x. ru_task x \<noteq> t) (qs_running st)\<rparr>;
               st2 = (case obj_get (qs_lanes st1) (ru_lane r) of
                        None \<Rightarrow> st1
                      | Some l \<Rightarrow>
                          (case completeTask l t (ru_generation r) of
                             None \<Rightarrow> st1
                           | Some l' \<Rightarrow>
                               (let s = notifyActiveTaskWaiters (put_lane l' st1)
                                in pump l' s)))
           in st2\<lparr>qs_settled := qs_settled st2 @
                [(qe_sequence (ru_entry r), if ok then TaskResolved else TaskRejected)]\<rparr>))"

subsection \<open>Control of a lane\<close>

definition isProbeLane :: "string \<Rightarrow> bool" where
  "isProbeLane lane \<longleftrightarrow> starts_with lane ''auth-probe:'' \<or> starts_with lane ''session:probe-''"

definition setCommandLaneConcurrency :: "string \<Rightarrow> int \<Rightarrow> queue_state \<Rightarrow> queue_state" where
  "setCommandLaneConcurrency lane maxConcurrent st =
     (let cleaned = normalizeLane lane
      in case getLaneState cleaned st of
           (l, st') \<Rightarrow>
             (let m = max (if isProbeLane cleaned then 1 else 0) maxConcurrent;
                  st'' = put_lane (l\<lparr>ln_max := m\<rparr>) st'
              in if 0 < m then drainLane cleaned st'' else st''))"

definition clearCommandLane :: "string \<Rightarrow> queue_state \<Rightarrow> nat \<times> queue_state" where
  "clearCommandLane lane st =
     (case obj_get (qs_lanes st) (normalizeLane lane) of
        None \<Rightarrow> (0, st)
      | Some l \<Rightarrow>
          (length (ln_queue l),
           put_lane (l\<lparr>ln_queue := []\<rparr>)
             (st\<lparr>qs_settled := qs_settled st @ map (\<lambda>e. (qe_sequence e, LaneCleared)) (ln_queue l)\<rparr>)))"

definition idle_lane :: "lane_state \<Rightarrow> lane_state" where
  "idle_lane l = l\<lparr>ln_generation := Suc (ln_generation l), ln_active := [], ln_draining := False\<rparr>"

definition resetCommandLane :: "string \<Rightarrow> queue_state \<Rightarrow> nat \<times> queue_state" where
  "resetCommandLane lane st =
     (let cleaned = normalizeLane lane
      in case obj_get (qs_lanes st) cleaned of
           None \<Rightarrow> (0, st)
         | Some l \<Rightarrow>
             (let st' = put_lane (idle_lane l) st;
                  st'' = (if ln_queue l \<noteq> [] then drainLane cleaned st' else st')
              in (length (ln_active l), notifyActiveTaskWaiters st'')))"

definition resetAllLanes :: "queue_state \<Rightarrow> queue_state" where
  "resetAllLanes st =
     (let st' = st\<lparr>qs_gateway_draining := False, qs_lanes := map (\<lambda>(k, l). (k, idle_lane l)) (qs_lanes st)\<rparr>;
          names = map (\<lambda>(_, l). ln_lane l) (filter (\<lambda>(_, l). ln_queue l \<noteq> []) (qs_lanes st))
      in notifyActiveTaskWaiters (fold drainLane names st'))"

definition markGatewayDraining :: "queue_state \<Rightarrow> queue_state" where
  "markGatewayDraining st = st\<lparr>qs_gateway_draining := True\<rparr>"

text \<open>\<open>Inl\<close> is an answer at once, \<open>Inr\<close> a promise kept as a waiter.\<close>

definition waitForActiveTasks :: "int option \<Rightarrow> queue_state \<Rightarrow> (bool + nat) \<times> queue_state" where
  "waitForActiveTasks timeoutMs st =
     (let active = all_active st
      in if active = [] then (Inl True, st)
         else if (case timeoutMs of Some t \<Rightarrow> t \<le> 0 | None \<Rightarrow> False) then (Inl False, st)
         else (let w = qs_next_waiter st
               in (Inr w, notifyActiveTaskWaiters
                     (st\<lparr>qs_waiters := qs_waiters st @ [\<lparr>wt_id = w, wt_tasks = active\<rparr>],
                         qs_next_waiter := Suc w\<rparr>))))"

subsection \<open>What can be read\<close>

record lane_snapshot =
  sn_lane :: string
  sn_queued :: nat
  sn_active :: nat
  sn_max :: int
  sn_draining :: bool
  sn_generation :: nat

definition createCommandLaneSnapshot :: "lane_state \<Rightarrow> lane_snapshot" where
  "createCommandLaneSnapshot l =
     \<lparr>sn_lane = ln_lane l, sn_queued = length (ln_queue l), sn_active = length (ln_active l), sn_max = ln_max l,
      sn_draining = ln_draining l, sn_generation = ln_generation l\<rparr>"

definition getCommandLaneSnapshot :: "string \<Rightarrow> queue_state \<Rightarrow> lane_snapshot" where
  "getCommandLaneSnapshot lane st =
     (case obj_get (qs_lanes st) (normalizeLane lane) of
        Some l \<Rightarrow> createCommandLaneSnapshot l
      | None \<Rightarrow> createCommandLaneSnapshot (new_lane (normalizeLane lane)))"

definition getCommandLaneSnapshots :: "(lane_snapshot list \<Rightarrow> lane_snapshot list) \<Rightarrow> queue_state \<Rightarrow> lane_snapshot list" where
  "getCommandLaneSnapshots collate st = collate (map (\<lambda>(_, l). createCommandLaneSnapshot l) (qs_lanes st))"

definition getCommandLaneActiveTaskIds :: "string \<Rightarrow> queue_state \<Rightarrow> nat list" where
  "getCommandLaneActiveTaskIds lane st =
     (case obj_get (qs_lanes st) (normalizeLane lane) of Some l \<Rightarrow> ln_active l | None \<Rightarrow> [])"

definition getQueueSize :: "string \<Rightarrow> queue_state \<Rightarrow> nat" where
  "getQueueSize lane st =
     (case obj_get (qs_lanes st) (normalizeLane lane) of Some l \<Rightarrow> getLaneDepth l | None \<Rightarrow> 0)"

definition getTotalQueueSize :: "queue_state \<Rightarrow> nat" where
  "getTotalQueueSize st = sum_list (map (\<lambda>(_, l). getLaneDepth l) (qs_lanes st))"

definition getActiveTaskCount :: "queue_state \<Rightarrow> nat" where
  "getActiveTaskCount st = sum_list (map (\<lambda>(_, l). length (ln_active l)) (qs_lanes st))"

subsection \<open>Runs\<close>

datatype queue_event =
    Enqueue string enqueue_options int
  | Finish nat bool
  | SetConcurrency string int
  | ClearLane string
  | ResetLane string
  | ResetAll
  | MarkDraining
  | WaitActive "int option"
  | WaitTimeout nat

fun queue_step :: "queue_event \<Rightarrow> queue_state \<Rightarrow> queue_state" where
  "queue_step (Enqueue lane opts now) st = snd (enqueueCommandInLane lane opts now st)"
| "queue_step (Finish t ok) st = finish_task t ok st"
| "queue_step (SetConcurrency lane n) st = setCommandLaneConcurrency lane n st"
| "queue_step (ClearLane lane) st = snd (clearCommandLane lane st)"
| "queue_step (ResetLane lane) st = snd (resetCommandLane lane st)"
| "queue_step ResetAll st = resetAllLanes st"
| "queue_step MarkDraining st = markGatewayDraining st"
| "queue_step (WaitActive timeoutMs) st = snd (waitForActiveTasks timeoutMs st)"
| "queue_step (WaitTimeout w) st = resolveActiveTaskWaiter w False st"

inductive queue_reachable :: "queue_state \<Rightarrow> bool" where
  initially: "queue_reachable initial_queue"
| stepped: "queue_reachable st \<Longrightarrow> queue_reachable (queue_step ev st)"

end
