(* ===== verification/Queue_Laws.thy ===== *)
theory Queue_Laws
  imports Command_Queue "HOL-Library.Multiset"
begin

text \<open>
  What the command queue keeps in every reachable state: the order inside a lane, the agreement of
  the active numbers with the running tasks, the account of every task ever entered, and the
  waiters.
\<close>

subsection \<open>The primitive changes\<close>

definition lane_at :: "queue_state \<Rightarrow> string \<Rightarrow> lane_state option" where
  "lane_at st k = obj_get (qs_lanes st) k"

definition starting :: "lane_state \<Rightarrow> nat" where
  "starting l = min (length (ln_queue l)) (nat (ln_max l - int (length (ln_active l))))"

lemma pump_queue_closed:
  "pump_queue mx act nx q =
     (let n = min (length q) (nat (mx - int (length act)))
      in (act @ [nx..<nx + n], nx + n, drop n q, zip [nx..<nx + n] (take n q)))"
proof (induction mx act nx q rule: pump_queue.induct)
  case (1 mx act nx)
  then show ?case by simp
next
  case (2 mx act nx e q)
  show ?case
  proof (cases "int (length act) < mx")
    case True
    then have n: "min (length (e # q)) (nat (mx - int (length act))) =
        Suc (min (length q) (nat (mx - int (length (act @ [nx])))))"
      by auto
    show ?thesis
      using 2 [OF True] True unfolding n
      by (simp add: Let_def upt_conv_Cons del: upt_Suc)
  next
    case False
    then show ?thesis by simp
  qed
qed

definition run_of :: "lane_state \<Rightarrow> nat \<times> queue_entry \<Rightarrow> running_task" where
  "run_of l = (\<lambda>(t, e). \<lparr>ru_task = t, ru_lane = ln_lane l, ru_generation = ln_generation l, ru_entry = e\<rparr>)"

definition pumped :: "lane_state \<Rightarrow> nat \<Rightarrow> lane_state" where
  "pumped l nx =
     l\<lparr>ln_active := ln_active l @ [nx..<nx + starting l], ln_queue := drop (starting l) (ln_queue l),
       ln_draining := False\<rparr>"

lemma pump_closed:
  "pump l st =
     put_lane (pumped l (qs_next_task st))
       (st\<lparr>qs_next_task := qs_next_task st + starting l,
           qs_running := qs_running st @
             map (run_of l) (zip [qs_next_task st..<qs_next_task st + starting l] (take (starting l) (ln_queue l))),
           qs_started := qs_started st @ map (Pair (ln_lane l)) (take (starting l) (ln_queue l))\<rparr>)"
proof -
  have snds: "map (\<lambda>(_, e). (k, e)) (zip xs ys) = map (Pair k) ys"
    if "length xs = length ys" for k :: string and xs :: "nat list" and ys :: "queue_entry list"
    using that by (induction xs ys rule: list_induct2) auto
  show ?thesis
    by (simp add: pump_def pump_queue_closed Let_def starting_def pumped_def run_of_def snds)
qed

lemma lane_at_put [simp]: "lane_at (put_lane l st) k = (if k = ln_lane l then Some l else lane_at st k)"
  by (simp add: lane_at_def put_lane_def obj_get_set)

lemma lane_at_more [simp]:
  "lane_at (st\<lparr>qs_next_task := a\<rparr>) = lane_at st"
  "lane_at (st\<lparr>qs_next_sequence := a\<rparr>) = lane_at st"
  "lane_at (st\<lparr>qs_running := b\<rparr>) = lane_at st"
  "lane_at (st\<lparr>qs_started := c\<rparr>) = lane_at st"
  "lane_at (st\<lparr>qs_settled := d\<rparr>) = lane_at st"
  "lane_at (st\<lparr>qs_waiters := e\<rparr>) = lane_at st"
  "lane_at (st\<lparr>qs_next_waiter := a\<rparr>) = lane_at st"
  "lane_at (st\<lparr>qs_waited := f\<rparr>) = lane_at st"
  "lane_at (st\<lparr>qs_gateway_draining := g\<rparr>) = lane_at st"
  by (simp_all add: lane_at_def fun_eq_iff)

lemma put_lane_fields [simp]:
  "qs_running (put_lane l st) = qs_running st" "qs_started (put_lane l st) = qs_started st"
  "qs_settled (put_lane l st) = qs_settled st" "qs_waiters (put_lane l st) = qs_waiters st"
  "qs_waited (put_lane l st) = qs_waited st" "qs_next_task (put_lane l st) = qs_next_task st"
  "qs_next_sequence (put_lane l st) = qs_next_sequence st"
  "qs_gateway_draining (put_lane l st) = qs_gateway_draining st"
  "qs_next_waiter (put_lane l st) = qs_next_waiter st"
  by (simp_all add: put_lane_def)

lemma pump_fields [simp]:
  "qs_settled (pump l st) = qs_settled st" "qs_waiters (pump l st) = qs_waiters st"
  "qs_waited (pump l st) = qs_waited st" "qs_next_sequence (pump l st) = qs_next_sequence st"
  "qs_gateway_draining (pump l st) = qs_gateway_draining st"
  "qs_next_waiter (pump l st) = qs_next_waiter st"
  by (simp_all add: pump_closed)

text \<open>The pump does not read the flag of the lane.\<close>

lemma pump_draining [simp]: "pump (l\<lparr>ln_draining := d\<rparr>) st = pump l st"
  by (simp add: pump_def)

lemma pumped_fields [simp]:
  "ln_lane (pumped l n) = ln_lane l" "ln_max (pumped l n) = ln_max l"
  "ln_generation (pumped l n) = ln_generation l" "\<not> ln_draining (pumped l n)"
  by (simp_all add: pumped_def)

lemma pumped_busy: "ln_queue (pumped l n) \<noteq> [] \<Longrightarrow> ln_max l \<le> int (length (ln_active (pumped l n)))"
  by (auto simp: pumped_def starting_def split: if_splits)

text \<open>What every step keeps holds in every reachable state.\<close>

locale kept_by_steps =
  fixes kept :: "queue_state \<Rightarrow> bool"
  assumes kept_initially: "kept initial_queue"
    and kept_step: "queue_reachable st \<Longrightarrow> kept st \<Longrightarrow> kept (queue_step ev st)"
begin

lemma always: "queue_reachable st \<Longrightarrow> kept st"
  by (induction rule: queue_reachable.induct) (simp_all add: kept_initially kept_step)

end

subsection \<open>Invariants\<close>

text \<open>The order of a lane: by priority, then by arrival.\<close>

definition served_before :: "queue_entry \<Rightarrow> queue_entry \<Rightarrow> bool" where
  "served_before a b \<longleftrightarrow>
     qe_priority b < qe_priority a \<or> qe_priority a = qe_priority b \<and> qe_sequence a < qe_sequence b"

definition not_overtaken :: "queue_entry \<Rightarrow> queue_entry \<Rightarrow> bool" where
  "not_overtaken a b \<longleftrightarrow> qe_sequence a < qe_sequence b \<or> qe_priority b < qe_priority a"

lemma served_not_overtaken: "served_before a b \<Longrightarrow> not_overtaken a b"
  by (auto simp: served_before_def not_overtaken_def)

text \<open>An entry that waits came later than every entry its lane has started, or is worth less.\<close>

definition entry_sound :: "queue_state \<Rightarrow> string \<Rightarrow> queue_entry \<Rightarrow> bool" where
  "entry_sound st k e \<longleftrightarrow>
     qe_sequence e < qs_next_sequence st \<and> (\<forall>b. (k, b) \<in> set (qs_started st) \<longrightarrow> not_overtaken b e)"

definition active_sound :: "queue_state \<Rightarrow> lane_state \<Rightarrow> bool" where
  "active_sound st l \<longleftrightarrow>
     distinct (ln_active l) \<and>
     set (ln_active l) =
       ru_task ` {r \<in> set (qs_running st). ru_lane r = ln_lane l \<and> ru_generation r = ln_generation l}"

definition lane_sound :: "queue_state \<Rightarrow> string \<Rightarrow> lane_state \<Rightarrow> bool" where
  "lane_sound st k l \<longleftrightarrow>
     ln_lane l = k \<and> \<not> ln_draining l \<and> sorted_wrt served_before (ln_queue l) \<and>
     (\<forall>e\<in>set (ln_queue l). entry_sound st k e) \<and> active_sound st l"

definition lanes_sound :: "queue_state \<Rightarrow> bool" where
  "lanes_sound st \<longleftrightarrow>
     distinct (obj_keys (qs_lanes st)) \<and> (\<forall>k l. lane_at st k = Some l \<longrightarrow> lane_sound st k l)"

definition known_task :: "queue_state \<Rightarrow> running_task \<Rightarrow> bool" where
  "known_task st r \<longleftrightarrow>
     ru_task r < qs_next_task st \<and> (\<exists>l. lane_at st (ru_lane r) = Some l \<and> ru_generation r \<le> ln_generation l)"

definition tasks_sound :: "queue_state \<Rightarrow> bool" where
  "tasks_sound st \<longleftrightarrow>
     distinct (map ru_task (qs_running st)) \<and> (\<forall>r\<in>set (qs_running st). known_task st r)"

definition in_order :: "string \<times> queue_entry \<Rightarrow> string \<times> queue_entry \<Rightarrow> bool" where
  "in_order a b \<longleftrightarrow> fst a = fst b \<longrightarrow> not_overtaken (snd a) (snd b)"

definition order_sound :: "queue_state \<Rightarrow> bool" where
  "order_sound st \<longleftrightarrow>
     (\<forall>b\<in>set (qs_started st). qe_sequence (snd b) < qs_next_sequence st) \<and>
     sorted_wrt in_order (qs_started st)"

definition queue_sound :: "queue_state \<Rightarrow> bool" where
  "queue_sound st \<longleftrightarrow> lanes_sound st \<and> tasks_sound st \<and> order_sound st"

lemma queue_soundD:
  assumes "queue_sound st" and "lane_at st k = Some l"
  shows "lane_sound st k l" and "ln_lane l = k" and "\<not> ln_draining l"
    and "sorted_wrt served_before (ln_queue l)" and "\<forall>e\<in>set (ln_queue l). entry_sound st k e"
    and "active_sound st l"
  using assms by (auto simp: queue_sound_def lanes_sound_def lane_sound_def)

lemma keys_put: "distinct (obj_keys (qs_lanes st)) \<Longrightarrow> distinct (obj_keys (qs_lanes (put_lane l st)))"
  by (simp add: put_lane_def obj_set_distinct)

text \<open>A change of one lane: what the other lanes and the tasks need of it.\<close>

lemma sound_put:
  assumes "queue_sound st"
    and "distinct (obj_keys (qs_lanes st')) = distinct (obj_keys (qs_lanes st))"
    and "\<And>j. j \<noteq> k \<Longrightarrow> lane_at st' j = lane_at st j"
    and "lane_sound st' k l'" and "tasks_sound (put_lane l' st')" and "order_sound st'"
    and "\<And>j m. j \<noteq> k \<Longrightarrow> lane_sound st j m \<Longrightarrow> lane_sound st' j m"
  shows "queue_sound (put_lane l' st')"
proof -
  have k: "ln_lane l' = k" using assms(4) by (simp add: lane_sound_def)
  have same: "lane_sound (put_lane l' st') = lane_sound st'"
    by (simp add: fun_eq_iff lane_sound_def entry_sound_def active_sound_def)
  have "lane_sound (put_lane l' st') j m" if "lane_at (put_lane l' st') j = Some m" for j m
    using that assms(3,4,7) queue_soundD(1) [OF assms(1)] unfolding same
    by (cases "j = k") (auto simp: k)
  moreover have "order_sound (put_lane l' st')"
    using assms(6) by (simp add: order_sound_def)
  moreover have "distinct (obj_keys (qs_lanes (put_lane l' st')))"
    using assms(1,2) by (simp add: keys_put queue_sound_def lanes_sound_def)
  ultimately show ?thesis
    using assms(5) by (auto simp: queue_sound_def lanes_sound_def)
qed

lemma known_task_put:
  assumes "known_task st r" and "lane_at st (ln_lane l') = Some l" and "ln_generation l \<le> ln_generation l'"
  shows "known_task (put_lane l' st) r"
  using assms by (auto simp: known_task_def)

text \<open>A change of a lane that leaves its generation and tasks, and keeps or empties its queue.\<close>

lemma sound_edit:
  assumes "queue_sound st" and "lane_at st (ln_lane l') = Some l"
    and "ln_active l' = ln_active l" and "ln_generation l' = ln_generation l" and "\<not> ln_draining l'"
    and "ln_queue l' = ln_queue l \<or> ln_queue l' = []"
  shows "queue_sound (put_lane l' st)"
proof (rule sound_put [OF assms(1)])
  have ls: "lane_sound st (ln_lane l') l" using assms by (simp add: queue_soundD)
  then show "lane_sound st (ln_lane l') l'"
    using assms by (auto simp: lane_sound_def active_sound_def)
  show "tasks_sound (put_lane l' st)"
    using assms known_task_put [of st _ l' l] by (auto simp: queue_sound_def tasks_sound_def)
qed (use assms in \<open>auto simp: queue_sound_def\<close>)

lemma sound_fields:
  assumes "queue_sound st" and "qs_lanes st' = qs_lanes st" and "qs_running st' = qs_running st"
    and "qs_started st' = qs_started st" and "qs_next_task st' = qs_next_task st"
    and "qs_next_sequence st' = qs_next_sequence st"
  shows "queue_sound st'"
proof -
  have "lane_at st' = lane_at st" using assms by (simp add: lane_at_def fun_eq_iff)
  then show ?thesis
    using assms
    by (simp add: queue_sound_def lanes_sound_def lane_sound_def entry_sound_def active_sound_def
        tasks_sound_def known_task_def order_sound_def)
qed

text \<open>Opening a lane that is not there yet.\<close>

lemma open_lane_fields:
  assumes "getLaneState k st = (l, st')"
  shows "lane_at st' j = (if j = k then Some l else lane_at st j)"
    and "qs_running st' = qs_running st" and "qs_started st' = qs_started st"
    and "qs_settled st' = qs_settled st" and "qs_next_sequence st' = qs_next_sequence st"
    and "qs_next_task st' = qs_next_task st" and "qs_waiters st' = qs_waiters st"
    and "qs_waited st' = qs_waited st" and "qs_next_waiter st' = qs_next_waiter st"
  using assms by (auto simp: getLaneState_def lane_at_def obj_get_set split: option.splits)

lemma open_cases:
  assumes "getLaneState k st = (l, st')"
  shows "lane_at st k = Some l \<and> st' = st \<or>
    lane_at st k = None \<and> l = new_lane k \<and> st' = put_lane (new_lane k) st"
  using assms by (auto simp: getLaneState_def lane_at_def put_lane_def new_lane_def split: option.splits)

lemma sound_open:
  assumes "queue_sound st" and "getLaneState k st = (l, st')"
  shows "queue_sound st'" and "lane_at st' k = Some l" and "ln_lane l = k"
proof -
  show "lane_at st' k = Some l" using open_lane_fields [OF assms(2)] by simp
  show goal: "queue_sound st'"
  proof (cases "lane_at st k")
    case None
    then have st': "st' = put_lane (new_lane k) st"
      using assms(2) by (auto simp: getLaneState_def lane_at_def put_lane_def new_lane_def)
    have none: "r \<in> set (qs_running st) \<Longrightarrow> ru_lane r \<noteq> k" for r
      using assms(1) None by (auto simp: queue_sound_def tasks_sound_def known_task_def)
    show ?thesis unfolding st'
    proof (rule sound_put [OF assms(1)])
      show "lane_sound st k (new_lane k)"
        using none by (auto simp: new_lane_def lane_sound_def active_sound_def)
      show "tasks_sound (put_lane (new_lane k) st)"
        using assms(1) none
        by (auto simp: queue_sound_def tasks_sound_def known_task_def new_lane_def)
    qed (use assms in \<open>auto simp: queue_sound_def\<close>)
  next
    case (Some l0)
    then show ?thesis using assms by (simp add: getLaneState_def lane_at_def)
  qed
  then show "ln_lane l = k" using queue_soundD(2) open_lane_fields(1) [OF assms(2), of k] by simp
qed

subsection \<open>The pump\<close>

lemma pump_active:
  assumes "queue_sound st" and "lane_at st (ln_lane l) = Some l"
  shows "active_sound (pump l st) (pumped l (qs_next_task st))"
proof -
  define nx n where "nx = qs_next_task st" and "n = starting l"
  let ?new = "map (run_of l) (zip [nx..<nx + n] (take n (ln_queue l)))"
  have n: "n \<le> length (ln_queue l)" by (simp add: n_def starting_def)
  have old: "active_sound st l" using assms by (simp add: queue_soundD)
  have dl: "distinct (ln_active l)" using old by (simp add: active_sound_def)
  have less: "t < nx" if "t \<in> set (ln_active l)" for t
    using that old assms(1)
    by (auto simp: active_sound_def queue_sound_def tasks_sound_def known_task_def nx_def)
  have tasks: "ru_task ` set ?new = {nx..<nx + n}"
  proof -
    have "map ru_task ?new = [nx..<nx + n]"
      using n by (simp add: run_of_def comp_def case_prod_unfold del: map_map)
        (simp add: comp_def map_fst_zip flip: map_fst_zip [where ys = "take n (ln_queue l)"])
    then show ?thesis by (metis atLeastLessThan_upt image_set)
  qed
  have here: "ru_lane r = ln_lane l \<and> ru_generation r = ln_generation l" if "r \<in> set ?new" for r
    using that by (auto simp: run_of_def)
  define mine where "mine = (\<lambda>r :: running_task. ru_lane r = ln_lane l \<and> ru_generation r = ln_generation l)"
  have split: "{r \<in> set (qs_running st @ ?new). mine r} = {r \<in> set (qs_running st). mine r} \<union> set ?new"
    using here by (auto simp: mine_def)
  have "set (ln_active (pumped l nx)) = ru_task ` {r \<in> set (qs_running st @ ?new). mine r}"
    unfolding split image_Un tasks using old
    by (simp add: active_sound_def mine_def pumped_def n_def)
  moreover have "distinct (ln_active (pumped l nx))"
    using dl by (fastforce simp: pumped_def dest: less)
  ultimately show ?thesis
    by (simp add: active_sound_def pump_closed mine_def nx_def n_def)
qed

lemma started_at_pump:
  "qs_started (pump l st) = qs_started st @ map (Pair (ln_lane l)) (take (starting l) (ln_queue l))"
  by (simp add: pump_closed)

lemma sorted_take_drop:
  assumes "sorted_wrt P xs" and "x \<in> set (take n xs)" and "y \<in> set (drop n xs)"
  shows "P x y"
  using assms sorted_wrt_append [of P "take n xs" "drop n xs"] by simp

lemma pump_entries:
  assumes "queue_sound st" and "lane_at st (ln_lane l) = Some l"
  shows "\<forall>e\<in>set (drop (starting l) (ln_queue l)). entry_sound (pump l st) (ln_lane l) e"
    and "j \<noteq> ln_lane l \<Longrightarrow> entry_sound st j e \<Longrightarrow> entry_sound (pump l st) j e"
proof -
  have s: "sorted_wrt served_before (ln_queue l)" "\<forall>e\<in>set (ln_queue l). entry_sound st (ln_lane l) e"
    using queue_soundD [OF assms] by auto
  show "\<forall>e\<in>set (drop (starting l) (ln_queue l)). entry_sound (pump l st) (ln_lane l) e"
    using s sorted_take_drop [OF s(1), THEN served_not_overtaken]
    by (auto simp: entry_sound_def started_at_pump dest: in_set_dropD)
  show "j \<noteq> ln_lane l \<Longrightarrow> entry_sound st j e \<Longrightarrow> entry_sound (pump l st) j e"
    by (auto simp: entry_sound_def started_at_pump)
qed

lemma pump_order:
  assumes "queue_sound st" and "lane_at st (ln_lane l) = Some l"
  shows "order_sound (pump l st)"
proof -
  have s: "sorted_wrt served_before (ln_queue l)" "\<forall>e\<in>set (ln_queue l). entry_sound st (ln_lane l) e"
    using queue_soundD [OF assms] by auto
  have "sorted_wrt served_before (take (starting l) (ln_queue l))"
    using s(1) by (rule sorted_wrt_take)
  then have "sorted_wrt in_order (map (Pair (ln_lane l)) (take (starting l) (ln_queue l)))"
    by (auto simp: sorted_wrt_map in_order_def elim!: sorted_wrt_mono_rel [rotated] intro: served_not_overtaken)
  moreover have "order_sound st" using assms by (simp add: queue_sound_def)
  ultimately show ?thesis
    using s(2)
    by (auto simp: order_sound_def started_at_pump sorted_wrt_append in_order_def entry_sound_def
        dest!: in_set_takeD)
qed

lemma pump_tasks:
  assumes "queue_sound st" and "lane_at st (ln_lane l) = Some l"
  shows "tasks_sound (pump l st)"
proof -
  define nx n where "nx = qs_next_task st" and "n = starting l"
  let ?new = "map (run_of l) (zip [nx..<nx + n] (take n (ln_queue l)))"
  have n: "length (take n (ln_queue l)) = n" by (simp add: n_def starting_def)
  have new: "map ru_task ?new = [nx..<nx + n]"
    using n by (intro nth_equalityI) (simp_all add: run_of_def)
  have run: "qs_running (pump l st) = qs_running st @ ?new" and next_task: "qs_next_task (pump l st) = nx + n"
    by (simp_all add: pump_closed nx_def n_def)
  have at: "lane_at (pump l st) j = (if j = ln_lane l then Some (pumped l nx) else lane_at st j)" for j
    by (simp add: pump_closed nx_def)
  have old: "distinct (map ru_task (qs_running st))" "\<forall>r\<in>set (qs_running st). known_task st r"
    using assms by (auto simp: queue_sound_def tasks_sound_def)
  have "known_task (pump l st) r" if "r \<in> set (qs_running st)" for r
    using old(2) that assms(2) by (auto simp: known_task_def at next_task nx_def)
  moreover have "known_task (pump l st) r" if r: "r \<in> set ?new" for r
  proof -
    have "ru_task r \<in> set (map ru_task ?new)" using r by (simp del: map_map)
    then have "ru_task r < nx + n" unfolding new by simp
    moreover have "ru_lane r = ln_lane l" "ru_generation r = ln_generation l"
      using r by (auto simp: run_of_def)
    ultimately show ?thesis by (simp add: known_task_def at next_task)
  qed
  moreover have "distinct (map ru_task (qs_running st) @ [nx..<nx + n])"
    using old by (fastforce simp: known_task_def nx_def)
  then have "distinct (map ru_task (qs_running (pump l st)))"
    unfolding run map_append new .
  ultimately show ?thesis
    unfolding tasks_sound_def run by (auto simp del: set_map)
qed

lemma sound_pump:
  assumes "queue_sound st" and "lane_at st (ln_lane l) = Some l"
  shows "queue_sound (pump l st)"
  unfolding pump_closed
proof (rule sound_put [OF assms(1)])
  let ?st = "st\<lparr>qs_next_task := qs_next_task st + starting l,
      qs_running := qs_running st @
        map (run_of l) (zip [qs_next_task st..<qs_next_task st + starting l] (take (starting l) (ln_queue l))),
      qs_started := qs_started st @ map (Pair (ln_lane l)) (take (starting l) (ln_queue l))\<rparr>"
  have es: "entry_sound ?st = entry_sound (pump l st)" and as: "active_sound ?st = active_sound (pump l st)"
    and os: "order_sound ?st = order_sound (pump l st)"
    by (simp_all add: entry_sound_def active_sound_def order_sound_def fun_eq_iff pump_closed)
  have l: "ln_queue (pumped l nx) = drop (starting l) (ln_queue l)" for nx by (simp add: pumped_def)
  show "lane_sound ?st (ln_lane l) (pumped l (qs_next_task st))"
    using pump_active [OF assms] pump_entries(1) [OF assms] queue_soundD(4) [OF assms]
    unfolding lane_sound_def es as l by (simp add: sorted_wrt_drop)
  show "tasks_sound (put_lane (pumped l (qs_next_task st)) ?st)"
    using pump_tasks [OF assms] unfolding pump_closed .
  show "order_sound ?st" using pump_order [OF assms] unfolding os .
  show "lane_sound ?st j m" if "j \<noteq> ln_lane l" and "lane_sound st j m" for j m
  proof -
    have "active_sound ?st m"
      using that by (auto simp: lane_sound_def active_sound_def run_of_def)
    then show ?thesis
      using that pump_entries(2) [OF assms, of j] unfolding lane_sound_def es by simp
  qed
qed (use assms in auto)

subsection \<open>The other operations\<close>

lemma sound_drain:
  assumes "queue_sound st"
  shows "queue_sound (drainLane k st)"
proof (cases "getLaneState k st")
  case (Pair l st')
  note o = sound_open [OF assms Pair]
  show ?thesis
    using o queue_soundD(3) [OF o(1,2)] sound_pump [OF o(1), of l] by (simp add: drainLane_def Pair)
qed

lemma enqueue_queue:
  "ln_queue (enqueueLaneEntry l e) =
     takeWhile (\<lambda>q. \<not> behind e q) (ln_queue l) @
     [e\<lparr>qe_ahead := length (takeWhile (\<lambda>q. \<not> behind e q) (ln_queue l)), qe_active_ahead := length (ln_active l)\<rparr>] @
     dropWhile (\<lambda>q. \<not> behind e q) (ln_queue l)"
  by (simp add: enqueueLaneEntry_def Let_def)

lemma enqueue_fields [simp]:
  "ln_lane (enqueueLaneEntry l e) = ln_lane l" "ln_active (enqueueLaneEntry l e) = ln_active l"
  "ln_max (enqueueLaneEntry l e) = ln_max l" "ln_draining (enqueueLaneEntry l e) = ln_draining l"
  "ln_generation (enqueueLaneEntry l e) = ln_generation l"
  by (simp_all add: enqueueLaneEntry_def Let_def)

lemma enqueue_mset:
  "mset (map qe_sequence (ln_queue (enqueueLaneEntry l e))) =
     add_mset (qe_sequence e) (mset (map qe_sequence (ln_queue l)))"
proof -
  have "mset (map qe_sequence (ln_queue l)) =
      mset (map qe_sequence (takeWhile (\<lambda>q. \<not> behind e q) (ln_queue l))) +
      mset (map qe_sequence (dropWhile (\<lambda>q. \<not> behind e q) (ln_queue l)))"
    by (metis map_append mset_append takeWhile_dropWhile_id)
  then show ?thesis by (simp add: enqueue_queue)
qed

text \<open>An entry with a sequence of its own goes behind what is served before it.\<close>

lemma enqueue_sorted:
  assumes "sorted_wrt served_before q" and "\<forall>x\<in>set q. qe_sequence x \<noteq> qe_sequence e"
  shows "sorted_wrt served_before (takeWhile (\<lambda>x. \<not> behind e x) q @ [e] @ dropWhile (\<lambda>x. \<not> behind e x) q)"
  using assms
proof (induction q)
  case Nil
  then show ?case by simp
next
  case (Cons a q)
  show ?case
  proof (cases "behind e a")
    case True
    then show ?thesis
      using Cons.prems by (fastforce simp: behind_def served_before_def)
  next
    case False
    then have "served_before a e"
      using Cons.prems by (auto simp: behind_def served_before_def)
    moreover have "set (takeWhile (\<lambda>x. \<not> behind e x) q) \<union> set (dropWhile (\<lambda>x. \<not> behind e x) q) = set q"
      by (metis set_append takeWhile_dropWhile_id)
    ultimately show ?thesis
      using Cons False by fastforce
  qed
qed

lemma sound_enter:
  assumes "queue_sound st" and "lane_at st (ln_lane l) = Some l" and "qe_sequence e = qs_next_sequence st"
  shows "queue_sound (put_lane (enqueueLaneEntry l e) (st\<lparr>qs_next_sequence := Suc (qs_next_sequence st)\<rparr>))"
    (is "queue_sound (put_lane ?l ?st)")
proof (rule sound_put [OF assms(1)])
  note s = queue_soundD [OF assms(1,2)]
  let ?e = "e\<lparr>qe_ahead := length (takeWhile (\<lambda>q. \<not> behind e q) (ln_queue l)),
      qe_active_ahead := length (ln_active l)\<rparr>"
  have b: "behind e = behind ?e" by (simp add: behind_def fun_eq_iff)
  have fresh: "\<forall>x\<in>set (ln_queue l). qe_sequence x \<noteq> qe_sequence ?e"
    using s(5) assms(3) by (auto simp: entry_sound_def)
  have mono: "entry_sound st j x \<Longrightarrow> entry_sound ?st j x" for j x
    by (auto simp: entry_sound_def)
  have started: "\<forall>b\<in>set (qs_started st). qe_sequence (snd b) < qs_next_sequence st"
    using assms(1) by (simp add: queue_sound_def order_sound_def)
  have "entry_sound ?st (ln_lane l) ?e"
    using started assms(3) by (force simp: entry_sound_def not_overtaken_def)
  then have "\<forall>x\<in>set (ln_queue ?l). entry_sound ?st (ln_lane l) x"
    using s(5) mono by (auto simp: enqueue_queue dest: set_takeWhileD set_dropWhileD)
  moreover have "sorted_wrt served_before (ln_queue ?l)"
    using enqueue_sorted [OF s(4) fresh] unfolding enqueue_queue b [symmetric] .
  ultimately show "lane_sound ?st (ln_lane l) ?l"
    using s by (simp add: lane_sound_def active_sound_def)
  show "tasks_sound (put_lane ?l ?st)"
    using assms(1,2) by (auto simp: queue_sound_def tasks_sound_def known_task_def)
  show "order_sound ?st"
    using assms(1) by (auto simp: queue_sound_def order_sound_def)
  show "lane_sound ?st j m" if "lane_sound st j m" for j m
    using that mono by (auto simp: lane_sound_def active_sound_def)
qed (use assms in auto)

lemma sound_enqueue:
  assumes "queue_sound st"
  shows "queue_sound (snd (enqueueCommandInLane k opts now st))"
proof (cases "getLaneState (normalizeLane k) st")
  case (Pair l st')
  note o = sound_open [OF assms Pair]
  show ?thesis
    using assms o by (auto simp: enqueueCommandInLane_def Pair Let_def intro!: sound_drain sound_enter)
qed

subsection \<open>Waiters\<close>

lemma all_active_put:
  "distinct (obj_keys (qs_lanes st)) \<Longrightarrow> t \<in> set (all_active st) \<longleftrightarrow> (\<exists>k l. lane_at st k = Some l \<and> t \<in> set (ln_active l))"
  by (force simp: all_active_def lane_at_def obj_get_def obj_keys_def)

lemma pending_iff: "hasPendingActiveTasks ts st \<longleftrightarrow> (\<exists>t\<in>set ts. t \<in> set (all_active st))"
  by (auto simp: hasPendingActiveTasks_def list_ex_iff)

lemma pending_lanes:
  "qs_lanes st' = qs_lanes st \<Longrightarrow> hasPendingActiveTasks ts st' = hasPendingActiveTasks ts st"
  by (simp add: hasPendingActiveTasks_def all_active_def)

text \<open>Notifying answers exactly the waiters none of whose tasks is active.\<close>

lemma resolve_fields [simp]:
  "qs_lanes (resolveActiveTaskWaiter w d st) = qs_lanes st"
  "qs_running (resolveActiveTaskWaiter w d st) = qs_running st"
  "qs_started (resolveActiveTaskWaiter w d st) = qs_started st"
  "qs_settled (resolveActiveTaskWaiter w d st) = qs_settled st"
  "qs_next_task (resolveActiveTaskWaiter w d st) = qs_next_task st"
  "qs_next_sequence (resolveActiveTaskWaiter w d st) = qs_next_sequence st"
  "qs_next_waiter (resolveActiveTaskWaiter w d st) = qs_next_waiter st"
  "qs_gateway_draining (resolveActiveTaskWaiter w d st) = qs_gateway_draining st"
  by (simp_all add: resolveActiveTaskWaiter_def)

lemma resolve_waiters [simp]:
  "qs_waiters (resolveActiveTaskWaiter w d st) = filter (\<lambda>x. wt_id x \<noteq> w) (qs_waiters st)"
  by (auto simp: resolveActiveTaskWaiter_def list_ex_iff intro!: filter_True [symmetric])

lemma notify_fold:
  defines "f \<equiv> \<lambda>w s. if wt_tasks w = [] \<or> \<not> hasPendingActiveTasks (wt_tasks w) s
                 then resolveActiveTaskWaiter (wt_id w) True s else s"
  shows "qs_lanes (fold f ws st) = qs_lanes st" and "qs_running (fold f ws st) = qs_running st"
    and "qs_started (fold f ws st) = qs_started st" and "qs_settled (fold f ws st) = qs_settled st"
    and "qs_next_task (fold f ws st) = qs_next_task st"
    and "qs_next_sequence (fold f ws st) = qs_next_sequence st"
    and "qs_next_waiter (fold f ws st) = qs_next_waiter st"
    and "qs_gateway_draining (fold f ws st) = qs_gateway_draining st"
    and "qs_waiters (fold f ws st) =
      filter (\<lambda>x. \<forall>w\<in>set ws. wt_id w = wt_id x \<longrightarrow> hasPendingActiveTasks (wt_tasks w) st) (qs_waiters st)"
proof -
  have lanes: "qs_lanes (f w st) = qs_lanes st" for w st by (simp add: f_def)
  have pend: "hasPendingActiveTasks ts (f w st) = hasPendingActiveTasks ts st" for ts w st
    by (rule pending_lanes [OF lanes])
  have no: "\<not> hasPendingActiveTasks [] st" for st by (simp add: pending_iff)
  have w: "qs_waiters (f w st) =
      filter (\<lambda>x. wt_id w = wt_id x \<longrightarrow> hasPendingActiveTasks (wt_tasks w) st) (qs_waiters st)" for w st
    using no by (auto simp: f_def intro!: filter_cong filter_True [symmetric])
  show "qs_waiters (fold f ws st) =
      filter (\<lambda>x. \<forall>w\<in>set ws. wt_id w = wt_id x \<longrightarrow> hasPendingActiveTasks (wt_tasks w) st) (qs_waiters st)"
  proof (induction ws arbitrary: st)
    case (Cons w ws)
    show ?case by (auto simp: Cons w pend intro!: filter_cong)
  qed simp
qed (induction ws arbitrary: st; simp add: f_def)+

lemma notify_fields [simp]:
  "qs_lanes (notifyActiveTaskWaiters st) = qs_lanes st"
  "qs_running (notifyActiveTaskWaiters st) = qs_running st"
  "qs_started (notifyActiveTaskWaiters st) = qs_started st"
  "qs_settled (notifyActiveTaskWaiters st) = qs_settled st"
  "qs_next_task (notifyActiveTaskWaiters st) = qs_next_task st"
  "qs_next_sequence (notifyActiveTaskWaiters st) = qs_next_sequence st"
  "qs_next_waiter (notifyActiveTaskWaiters st) = qs_next_waiter st"
  "qs_gateway_draining (notifyActiveTaskWaiters st) = qs_gateway_draining st"
  by (simp_all add: notifyActiveTaskWaiters_def notify_fold)

lemma notify_at [simp]: "lane_at (notifyActiveTaskWaiters st) = lane_at st"
  by (simp add: lane_at_def fun_eq_iff)

lemma notify_waiters:
  assumes "distinct (map wt_id (qs_waiters st))"
  shows "qs_waiters (notifyActiveTaskWaiters st) =
    filter (\<lambda>w. hasPendingActiveTasks (wt_tasks w) st) (qs_waiters st)"
proof -
  have "(\<forall>w\<in>set (qs_waiters st). wt_id w = wt_id x \<longrightarrow> hasPendingActiveTasks (wt_tasks w) st) \<longleftrightarrow>
      hasPendingActiveTasks (wt_tasks x) st" if "x \<in> set (qs_waiters st)" for x
    using assms that by (metis distinct_map inj_onD)
  then show ?thesis by (simp add: notifyActiveTaskWaiters_def notify_fold cong: filter_cong)
qed

lemma sound_notify: "queue_sound st \<Longrightarrow> queue_sound (notifyActiveTaskWaiters st)"
  by (rule sound_fields [of st]) simp_all

subsection \<open>The end of a task\<close>

lemma find_run:
  assumes "queue_sound st" and "find (\<lambda>r. ru_task r = t) (qs_running st) = Some r"
  shows "r \<in> set (qs_running st)" and "ru_task r = t"
    and "\<And>x. x \<in> set (qs_running st) \<Longrightarrow> ru_task x = t \<Longrightarrow> x = r"
    and "\<exists>l. lane_at st (ru_lane r) = Some l \<and> ru_generation r \<le> ln_generation l"
proof -
  have d: "distinct (map ru_task (qs_running st))" "\<forall>r\<in>set (qs_running st). known_task st r"
    using assms(1) by (auto simp: queue_sound_def tasks_sound_def)
  show r: "r \<in> set (qs_running st)" "ru_task r = t"
    using assms(2) by (auto simp: find_Some_iff)
  show "x = r" if "x \<in> set (qs_running st)" "ru_task x = t" for x
    using d(1) that r by (simp add: distinct_map inj_on_def)
  show "\<exists>l. lane_at st (ru_lane r) = Some l \<and> ru_generation r \<le> ln_generation l"
    using d(2) r by (auto simp: known_task_def)
qed

definition without_task :: "nat \<Rightarrow> queue_state \<Rightarrow> queue_state" where
  "without_task t st = st\<lparr>qs_running := filter (\<lambda>x. ru_task x \<noteq> t) (qs_running st)\<rparr>"

lemma without_task_at [simp]: "lane_at (without_task t st) = lane_at st"
  by (simp add: without_task_def)

definition without_active :: "nat \<Rightarrow> lane_state \<Rightarrow> lane_state" where
  "without_active t l = l\<lparr>ln_active := filter (\<lambda>x. x \<noteq> t) (ln_active l)\<rparr>"

lemma without_active_fields [simp]:
  "ln_lane (without_active t l) = ln_lane l" "ln_queue (without_active t l) = ln_queue l"
  "ln_max (without_active t l) = ln_max l" "ln_draining (without_active t l) = ln_draining l"
  "ln_generation (without_active t l) = ln_generation l"
  "ln_active (without_active t l) = filter (\<lambda>x. x \<noteq> t) (ln_active l)"
  by (simp_all add: without_active_def)

lemma without_task_order: "order_sound (without_task t st) = order_sound st"
  by (simp add: without_task_def order_sound_def)

lemma without_task_tasks: "tasks_sound st \<Longrightarrow> tasks_sound (without_task t st)"
  by (auto simp: tasks_sound_def known_task_def without_task_def distinct_map_filter)

lemma without_task_lane:
  assumes "lane_sound st j m" and "\<And>x. x \<in> set (qs_running st) \<Longrightarrow> ru_task x = t \<Longrightarrow>
      ru_lane x \<noteq> j \<or> ru_generation x \<noteq> ln_generation m"
  shows "lane_sound (without_task t st) j m"
  using assms
  by (force simp: lane_sound_def entry_sound_def active_sound_def without_task_def)

text \<open>A task of an earlier generation: its end changes no lane.\<close>

lemma sound_stale:
  assumes "queue_sound st" and "find (\<lambda>r. ru_task r = t) (qs_running st) = Some r"
    and "lane_at st (ru_lane r) = Some l" and "ru_generation r \<noteq> ln_generation l"
  shows "queue_sound (without_task t st)"
proof -
  note f = find_run [OF assms(1,2)]
  have "lane_sound (without_task t st) j m" if "lane_at st j = Some m" for j m
    using that f(3) assms(3,4) queue_soundD(1) [OF assms(1) that] by (intro without_task_lane) auto
  then show ?thesis
    using assms(1) without_task_tasks without_task_order
    by (simp add: queue_sound_def lanes_sound_def) (simp add: without_task_def)
qed

text \<open>A task of the current generation: its number leaves the active set.\<close>

lemma sound_leave:
  assumes "queue_sound st" and "find (\<lambda>r. ru_task r = t) (qs_running st) = Some r"
    and "lane_at st (ru_lane r) = Some l" and "ru_generation r = ln_generation l"
  shows "queue_sound (put_lane (without_active t l) (without_task t st))"
proof (rule sound_put [OF assms(1)])
  note f = find_run [OF assms(1,2)]
  note s = queue_soundD [OF assms(1,3)]
  have "active_sound (without_task t st) (without_active t l)"
    using s(6) by (auto simp: active_sound_def without_task_def)
  then show "lane_sound (without_task t st) (ru_lane r) (without_active t l)"
    using s by (simp add: lane_sound_def entry_sound_def without_task_def)
  show "tasks_sound (put_lane (without_active t l) (without_task t st))"
    using assms(1,3) s(2) by (auto simp: queue_sound_def tasks_sound_def known_task_def without_task_def distinct_map_filter)
  show "order_sound (without_task t st)"
    using assms(1) by (simp add: without_task_order queue_sound_def)
  show "lane_sound (without_task t st) j m" if "j \<noteq> ru_lane r" "lane_sound st j m" for j m
    using that f(3) by (intro without_task_lane) auto
qed (simp_all add: without_task_def)

lemma finish_task_cases:
  assumes "queue_sound st" and "find (\<lambda>r. ru_task r = t) (qs_running st) = Some r"
    and "lane_at st (ru_lane r) = Some l"
  shows "finish_task t ok st =
     (let st2 = (if ru_generation r = ln_generation l
                 then pump (without_active t l)
                        (notifyActiveTaskWaiters (put_lane (without_active t l) (without_task t st)))
                 else without_task t st)
      in st2\<lparr>qs_settled := qs_settled st2 @ [(qe_sequence (ru_entry r), if ok then TaskResolved else TaskRejected)]\<rparr>)"
  using assms(2,3)
  by (simp add: finish_task_def Let_def lane_at_def completeTask_def without_task_def without_active_def)

lemma sound_settled: "queue_sound (st\<lparr>qs_settled := x\<rparr>) = queue_sound st"
  using sound_fields [of st "st\<lparr>qs_settled := x\<rparr>"] sound_fields [of "st\<lparr>qs_settled := x\<rparr>" st] by auto

lemma sound_finish:
  assumes "queue_sound st"
  shows "queue_sound (finish_task t ok st)"
proof (cases "find (\<lambda>r. ru_task r = t) (qs_running st)")
  case None
  then show ?thesis using assms by (simp add: finish_task_def)
next
  case (Some r)
  then obtain l where l: "lane_at st (ru_lane r) = Some l" using find_run(4) [OF assms] by blast
  then have n: "ln_lane l = ru_lane r" using assms queue_soundD(2) by blast
  show ?thesis
    unfolding finish_task_cases [OF assms Some l] Let_def sound_settled
    using sound_stale [OF assms Some l] sound_leave [OF assms Some l]
    by (simp add: n sound_pump sound_notify)
qed

subsection \<open>Clearing, limits and recovery\<close>

lemma sound_clear: "queue_sound st \<Longrightarrow> queue_sound (snd (clearCommandLane k st))"
proof (cases "lane_at st (normalizeLane k)")
  case (Some l)
  assume q: "queue_sound st"
  have "queue_sound (put_lane (l\<lparr>ln_queue := []\<rparr>)
      (st\<lparr>qs_settled := qs_settled st @ map (\<lambda>e. (qe_sequence e, LaneCleared)) (ln_queue l)\<rparr>))"
    using q Some queue_soundD [OF q Some] by (intro sound_edit) (auto simp: sound_settled)
  then show ?thesis using Some by (simp add: clearCommandLane_def lane_at_def)
qed (simp add: clearCommandLane_def lane_at_def)

lemma sound_concurrency:
  assumes "queue_sound st"
  shows "queue_sound (setCommandLaneConcurrency k n st)"
proof (cases "getLaneState (normalizeLane k) st")
  case (Pair l st')
  note o = sound_open [OF assms Pair]
  have "queue_sound (put_lane (l\<lparr>ln_max := m\<rparr>) st')" for m
    using o queue_soundD [OF o(1,2)] by (intro sound_edit) auto
  then show ?thesis by (simp add: setCommandLaneConcurrency_def Pair Let_def sound_drain)
qed

lemma idle_lane_fields [simp]:
  "ln_lane (idle_lane l) = ln_lane l" "ln_queue (idle_lane l) = ln_queue l" "ln_max (idle_lane l) = ln_max l"
  "ln_active (idle_lane l) = []" "ln_generation (idle_lane l) = Suc (ln_generation l)"
  "\<not> ln_draining (idle_lane l)"
  by (simp_all add: idle_lane_def)

lemma idle_sound:
  assumes "queue_sound st" and "lane_at st k = Some l"
  shows "lane_sound st k (idle_lane l)"
proof -
  have "ru_generation r \<le> ln_generation l" if "r \<in> set (qs_running st)" "ru_lane r = k" for r
    using assms that by (auto simp: queue_sound_def tasks_sound_def known_task_def)
  then have "active_sound st (idle_lane l)"
    using queue_soundD(2) [OF assms] by (fastforce simp: active_sound_def)
  then show ?thesis
    using queue_soundD [OF assms] by (simp add: lane_sound_def)
qed

lemma sound_idle:
  assumes "queue_sound st" and "lane_at st k = Some l"
  shows "queue_sound (put_lane (idle_lane l) st)"
proof (rule sound_put [OF assms(1)])
  show "lane_sound st k (idle_lane l)" using assms by (rule idle_sound)
  show "tasks_sound (put_lane (idle_lane l) st)"
    using assms queue_soundD(2) [OF assms]
    by (auto simp: queue_sound_def tasks_sound_def intro!: known_task_put)
qed (use assms in \<open>auto simp: queue_sound_def\<close>)

lemma sound_reset_lane: "queue_sound st \<Longrightarrow> queue_sound (snd (resetCommandLane k st))"
  using sound_idle [of st "normalizeLane k"]
  by (auto simp: resetCommandLane_def Let_def lane_at_def intro!: sound_notify sound_drain split: option.splits)

definition all_idle :: "queue_state \<Rightarrow> queue_state" where
  "all_idle st = st\<lparr>qs_gateway_draining := False, qs_lanes := map (\<lambda>(k, l). (k, idle_lane l)) (qs_lanes st)\<rparr>"

lemma all_idle_at: "lane_at (all_idle st) k = map_option idle_lane (lane_at st k)"
proof -
  have "map_of (map (\<lambda>(k, l). (k, idle_lane l)) ls) k = map_option idle_lane (map_of ls k)" for ls
    by (induction ls) auto
  then show ?thesis by (simp add: lane_at_def all_idle_def obj_get_def)
qed

lemma sound_all_idle:
  assumes "queue_sound st"
  shows "queue_sound (all_idle st)"
proof -
  have fields: "qs_running (all_idle st) = qs_running st" "qs_started (all_idle st) = qs_started st"
    "qs_next_task (all_idle st) = qs_next_task st" "qs_next_sequence (all_idle st) = qs_next_sequence st"
    by (simp_all add: all_idle_def)
  have "obj_keys (qs_lanes (all_idle st)) = obj_keys (qs_lanes st)"
    by (simp add: all_idle_def obj_keys_def comp_def case_prod_unfold)
  moreover have "lane_sound (all_idle st) k l" if "lane_at (all_idle st) k = Some l" for k l
  proof -
    from that obtain l0 where l0: "lane_at st k = Some l0" "l = idle_lane l0" by (auto simp: all_idle_at)
    then have "lane_sound st k l" using idle_sound [OF assms] by simp
    then show ?thesis by (simp add: lane_sound_def entry_sound_def active_sound_def fields)
  qed
  moreover have "known_task (all_idle st) r" if "known_task st r" for r
    using that by (auto simp: known_task_def all_idle_at fields)
  ultimately show ?thesis
    using assms by (simp add: queue_sound_def lanes_sound_def tasks_sound_def order_sound_def fields)
qed

lemma sound_drains: "queue_sound st \<Longrightarrow> queue_sound (fold drainLane ks st)"
  by (induction ks arbitrary: st) (simp_all add: sound_drain)

lemma sound_reset_all: "queue_sound st \<Longrightarrow> queue_sound (resetAllLanes st)"
  unfolding resetAllLanes_def all_idle_def [symmetric] Let_def
  by (intro sound_notify sound_drains sound_all_idle)

lemma sound_wait: "queue_sound st \<Longrightarrow> queue_sound (snd (waitForActiveTasks t st))"
  using sound_fields [of st "st\<lparr>qs_waiters := a, qs_next_waiter := b\<rparr>" for a b]
  by (auto simp: waitForActiveTasks_def Let_def intro!: sound_notify)

lemma sound_step: "queue_sound st \<Longrightarrow> queue_sound (queue_step ev st)"
proof (cases ev)
  case MarkDraining
  assume "queue_sound st"
  then show ?thesis
    using sound_fields [of st "markGatewayDraining st"] by (simp add: MarkDraining markGatewayDraining_def)
next
  case (WaitTimeout w)
  assume "queue_sound st"
  then show ?thesis using sound_fields [of st "resolveActiveTaskWaiter w False st"] by (simp add: WaitTimeout)
qed (simp_all add: sound_enqueue sound_finish sound_concurrency sound_clear sound_reset_lane sound_reset_all sound_wait)

interpretation sound: kept_by_steps queue_sound
proof unfold_locales
  show "queue_sound initial_queue"
    by (simp add: queue_sound_def lanes_sound_def tasks_sound_def order_sound_def initial_queue_def
        lane_at_def obj_get_def obj_keys_def)
qed (rule sound_step)

subsection \<open>Every task is accounted for\<close>

definition lane_load :: "lane_state \<Rightarrow> nat multiset" where
  "lane_load l = mset (map qe_sequence (ln_queue l))"

definition queued_load :: "queue_state \<Rightarrow> nat multiset" where
  "queued_load st = sum_list (map (\<lambda>p. lane_load (snd p)) (qs_lanes st))"

definition running_load :: "queue_state \<Rightarrow> nat multiset" where
  "running_load st = mset (map (\<lambda>r. qe_sequence (ru_entry r)) (qs_running st))"

definition accounted :: "queue_state \<Rightarrow> nat multiset" where
  "accounted st = queued_load st + running_load st + mset (map fst (qs_settled st))"

lemma load_set:
  assumes "distinct (obj_keys m)"
  shows "sum_list (map (\<lambda>p. lane_load (snd p)) (obj_set m k l)) +
      (case obj_get m k of Some l0 \<Rightarrow> lane_load l0 | None \<Rightarrow> {#}) =
    sum_list (map (\<lambda>p. lane_load (snd p)) m) + lane_load l"
  using assms by (induction m k l rule: obj_set.induct) (auto simp: obj_get_def obj_keys_def)

lemma queued_put:
  assumes "queue_sound st"
  shows "queued_load (put_lane l st) +
      (case lane_at st (ln_lane l) of Some l0 \<Rightarrow> lane_load l0 | None \<Rightarrow> {#}) = queued_load st + lane_load l"
  using assms load_set by (simp add: queued_load_def put_lane_def lane_at_def queue_sound_def lanes_sound_def)

lemma queued_put_same:
  assumes "queue_sound st" and "lane_at st (ln_lane l) = Some l0" and "ln_queue l = ln_queue l0"
  shows "queued_load (put_lane l st) = queued_load st"
  using queued_put [OF assms(1), of l] assms by (simp add: lane_load_def)

lemma queued_load_lanes: "qs_lanes st' = qs_lanes st \<Longrightarrow> queued_load st' = queued_load st"
  by (simp add: queued_load_def)

lemma put_lane_lanes: "qs_lanes st' = qs_lanes st \<Longrightarrow> qs_lanes (put_lane l st') = qs_lanes (put_lane l st)"
  by (simp add: put_lane_def)

lemma accounted_pump:
  assumes "queue_sound st" and "lane_at st (ln_lane l) = Some l"
  shows "accounted (pump l st) = accounted st"
proof -
  define n nx where "n = starting l" and "nx = qs_next_task st"
  have len: "length [nx..<nx + n] = length (take n (ln_queue l))" by (simp add: n_def starting_def)
  have "queued_load (pump l st) = queued_load (put_lane (pumped l nx) st)"
    unfolding pump_closed nx_def by (intro queued_load_lanes put_lane_lanes) simp
  then have "queued_load (pump l st) + lane_load l = queued_load st + lane_load (pumped l nx)"
    using queued_put [OF assms(1), of "pumped l nx"] assms(2) by simp
  moreover have "lane_load l = mset (map qe_sequence (take n (ln_queue l))) + lane_load (pumped l nx)"
    unfolding lane_load_def pumped_def n_def [symmetric]
    by simp (metis append_take_drop_id image_mset_union mset_append)
  moreover have "map (\<lambda>r. qe_sequence (ru_entry r)) (map (run_of l) (zip xs ys)) = map qe_sequence ys"
    if "length xs = length ys" for xs ys
    using that by (induction xs ys rule: list_induct2) (auto simp: run_of_def)
  then have "running_load (pump l st) = running_load st + mset (map qe_sequence (take n (ln_queue l)))"
    using len by (simp add: running_load_def pump_closed n_def nx_def del: map_map)
  ultimately show ?thesis
    by (simp add: accounted_def)
qed

lemma accounted_open:
  assumes "queue_sound st" and "getLaneState k st = (l, st')"
  shows "accounted st' = accounted st"
proof -
  have "queued_load (put_lane (new_lane k) st) = queued_load st" if "lane_at st k = None"
    using queued_put [OF assms(1), of "new_lane k"] that by (simp add: new_lane_def lane_load_def)
  then have "queued_load st' = queued_load st"
    using assms(2) by (auto simp: getLaneState_def lane_at_def put_lane_def new_lane_def split: option.splits)
  then show ?thesis using open_lane_fields [OF assms(2)] by (simp add: accounted_def running_load_def)
qed

lemma accounted_drain:
  assumes "queue_sound st"
  shows "accounted (drainLane k st) = accounted st"
proof (cases "getLaneState k st")
  case (Pair l st')
  note o = sound_open [OF assms Pair]
  show ?thesis
    using accounted_pump [OF o(1), of l] o queue_soundD(3) [OF o(1,2)]
    by (simp add: drainLane_def Pair accounted_open [OF assms Pair])
qed

lemma accounted_drains: "queue_sound st \<Longrightarrow> accounted (fold drainLane ks st) = accounted st"
  by (induction ks arbitrary: st) (simp_all add: sound_drain accounted_drain)

lemma accounted_cong:
  "qs_lanes st' = qs_lanes st \<Longrightarrow> qs_running st' = qs_running st \<Longrightarrow> qs_settled st' = qs_settled st \<Longrightarrow>
     accounted st' = accounted st"
  by (simp add: accounted_def queued_load_def running_load_def)

lemma accounted_notify [simp]: "accounted (notifyActiveTaskWaiters st) = accounted st"
  by (rule accounted_cong) simp_all

lemma accounted_put_same:
  assumes "queue_sound st" and "lane_at st (ln_lane l) = Some l0" and "ln_queue l = ln_queue l0"
  shows "accounted (put_lane l st) = accounted st"
  using queued_put_same [OF assms] by (simp add: accounted_def running_load_def)

lemma next_drain [simp]: "qs_next_sequence (drainLane k st) = qs_next_sequence st"
  by (auto simp: drainLane_def open_lane_fields split: prod.splits)

lemma next_drains [simp]: "qs_next_sequence (fold drainLane ks st) = qs_next_sequence st"
  by (induction ks arbitrary: st) simp_all

lemma accounted_enqueue:
  assumes "queue_sound st"
  shows "(accounted (snd (enqueueCommandInLane k opts now st)), qs_next_sequence (snd (enqueueCommandInLane k opts now st))) =
     (if qs_gateway_draining st then (accounted st, qs_next_sequence st)
      else (add_mset (qs_next_sequence st) (accounted st), Suc (qs_next_sequence st)))"
proof (cases "getLaneState (normalizeLane k) st")
  case (Pair l st')
  note o = sound_open [OF assms Pair]
  define e :: queue_entry where "e = \<lparr>qe_sequence = qs_next_sequence st',
    qe_priority = resolveQueuePriority (eo_priority opts), qe_ahead = 0,
    qe_active_ahead = 0, qe_enqueued = now, qe_timeout = normalizeTaskTimeoutMs (eo_timeout opts),
    qe_grace = normalizeTaskTimeoutMs (eo_grace opts)\<rparr>"
  let ?st = "put_lane (enqueueLaneEntry l e) (st'\<lparr>qs_next_sequence := Suc (qs_next_sequence st')\<rparr>)"
  have s: "queue_sound ?st"
    using o by (intro sound_enter) (simp_all add: e_def)
  have "queued_load ?st = queued_load (put_lane (enqueueLaneEntry l e) st')"
    by (intro queued_load_lanes put_lane_lanes) simp
  then have "queued_load ?st + lane_load l = queued_load st' + add_mset (qe_sequence e) (lane_load l)"
    using queued_put [OF o(1), of "enqueueLaneEntry l e"] o(2,3) enqueue_mset [of l e] by (simp add: lane_load_def)
  then have "queued_load ?st = add_mset (qe_sequence e) (queued_load st')" by simp
  then have "accounted ?st = add_mset (qs_next_sequence st) (accounted st)"
    using accounted_open [OF assms Pair] open_lane_fields(5) [OF Pair]
    by (simp add: accounted_def running_load_def e_def)
  then show ?thesis
    using accounted_drain [OF s] open_lane_fields(5) [OF Pair]
    by (simp add: enqueueCommandInLane_def Pair Let_def e_def)
qed

lemma accounted_settled:
  "accounted (st\<lparr>qs_settled := qs_settled st @ xs\<rparr>) = accounted st + mset (map fst xs)"
  by (simp add: accounted_def queued_load_def running_load_def)

lemma running_without:
  assumes "queue_sound st" and "find (\<lambda>r. ru_task r = t) (qs_running st) = Some r"
  shows "add_mset (qe_sequence (ru_entry r)) (running_load (without_task t st)) = running_load st"
proof -
  have "distinct (map ru_task xs) \<Longrightarrow> find (\<lambda>r. ru_task r = t) xs = Some r \<Longrightarrow>
      add_mset (qe_sequence (ru_entry r)) (mset (map (\<lambda>r. qe_sequence (ru_entry r)) (filter (\<lambda>x. ru_task x \<noteq> t) xs))) =
      mset (map (\<lambda>r. qe_sequence (ru_entry r)) xs)" for xs
  proof (induction xs)
    case (Cons a xs)
    show ?case
    proof (cases "ru_task a = t")
      case True
      then have "filter (\<lambda>x. ru_task x \<noteq> t) xs = xs" using Cons.prems by (intro filter_True) (auto, metis imageI)
      then show ?thesis using Cons.prems True by simp
    next
      case False
      then show ?thesis using Cons by simp
    qed
  qed simp
  then show ?thesis
    using assms by (simp add: running_load_def without_task_def queue_sound_def tasks_sound_def)
qed

lemma accounted_finish:
  assumes "queue_sound st"
  shows "accounted (finish_task t ok st) = accounted st"
proof (cases "find (\<lambda>r. ru_task r = t) (qs_running st)")
  case None
  then show ?thesis by (simp add: finish_task_def)
next
  case (Some r)
  then obtain l where l: "lane_at st (ru_lane r) = Some l" using find_run(4) [OF assms] by blast
  then have n: "ln_lane l = ru_lane r" using assms queue_soundD(2) by blast
  have without: "add_mset (qe_sequence (ru_entry r)) (accounted (without_task t st)) = accounted st"
    using running_without [OF assms Some]
    by (simp add: accounted_def queued_load_def) (simp add: without_task_def)
  let ?st = "put_lane (without_active t l) (without_task t st)"
  have "queued_load ?st = queued_load (put_lane (without_active t l) st)"
    by (intro queued_load_lanes put_lane_lanes) (simp add: without_task_def)
  then have "queued_load ?st = queued_load (without_task t st)"
    using queued_put_same [OF assms, of "without_active t l" l] l n
    by (simp add: queued_load_def) (simp add: without_task_def)
  then have put: "accounted ?st = accounted (without_task t st)"
    by (simp add: accounted_def running_load_def)
  show ?thesis
    unfolding finish_task_cases [OF assms Some l] Let_def accounted_settled
    using sound_leave [OF assms Some l] without put
    by (auto simp: accounted_pump sound_notify)
qed

lemma accounted_clear:
  assumes "queue_sound st"
  shows "accounted (snd (clearCommandLane k st)) = accounted st"
proof (cases "lane_at st (normalizeLane k)")
  case (Some l)
  let ?set = "st\<lparr>qs_settled := qs_settled st @ map (\<lambda>e. (qe_sequence e, LaneCleared)) (ln_queue l)\<rparr>"
  let ?l = "l\<lparr>ln_queue := []\<rparr>"
  have "queued_load (put_lane ?l ?set) = queued_load (put_lane ?l st)"
    by (intro queued_load_lanes put_lane_lanes) simp
  then have "queued_load (put_lane ?l ?set) + lane_load l = queued_load st"
    using queued_put [OF assms, of ?l] Some queue_soundD(2) [OF assms Some] by (simp add: lane_load_def)
  then have "accounted (put_lane ?l ?set) = accounted st"
    by (auto simp: accounted_def running_load_def lane_load_def comp_def multiset.map_comp)
  then show ?thesis using Some by (simp add: clearCommandLane_def lane_at_def)
qed (simp add: clearCommandLane_def lane_at_def)

lemma accounted_concurrency:
  assumes "queue_sound st"
  shows "accounted (setCommandLaneConcurrency k n st) = accounted st"
proof (cases "getLaneState (normalizeLane k) st")
  case (Pair l st')
  note o = sound_open [OF assms Pair]
  have s: "queue_sound (put_lane (l\<lparr>ln_max := m\<rparr>) st')"
    and a: "accounted (put_lane (l\<lparr>ln_max := m\<rparr>) st') = accounted st" for m
    using o queue_soundD [OF o(1,2)] accounted_open [OF assms Pair]
    by (auto intro!: sound_edit simp: accounted_put_same)
  show ?thesis
    by (simp add: setCommandLaneConcurrency_def Pair Let_def accounted_drain s a)
qed

lemma accounted_reset_lane:
  assumes "queue_sound st"
  shows "accounted (snd (resetCommandLane k st)) = accounted st"
proof (cases "lane_at st (normalizeLane k)")
  case (Some l)
  have "accounted (put_lane (idle_lane l) st) = accounted st"
    using queue_soundD(2) [OF assms Some] Some by (intro accounted_put_same assms) simp_all
  then show ?thesis
    using Some sound_idle [OF assms Some]
    by (simp add: resetCommandLane_def Let_def lane_at_def accounted_drain)
qed (simp add: resetCommandLane_def lane_at_def)

lemma accounted_reset_all:
  assumes "queue_sound st"
  shows "accounted (resetAllLanes st) = accounted st"
proof -
  have "accounted (all_idle st) = accounted st"
    by (simp add: accounted_def queued_load_def running_load_def all_idle_def comp_def case_prod_unfold lane_load_def)
  then show ?thesis
    unfolding resetAllLanes_def all_idle_def [symmetric] Let_def
    using sound_all_idle [OF assms] by (simp add: accounted_drains)
qed

lemma next_finish [simp]: "qs_next_sequence (finish_task t ok st) = qs_next_sequence st"
  by (auto simp: finish_task_def Let_def split: option.splits)

lemma next_others [simp]:
  "qs_next_sequence (snd (clearCommandLane k st)) = qs_next_sequence st"
  "qs_next_sequence (setCommandLaneConcurrency k n st) = qs_next_sequence st"
  "qs_next_sequence (snd (resetCommandLane k st)) = qs_next_sequence st"
  "qs_next_sequence (resetAllLanes st) = qs_next_sequence st"
  "qs_next_sequence (snd (waitForActiveTasks m st)) = qs_next_sequence st"
proof -
  show "qs_next_sequence (setCommandLaneConcurrency k n st) = qs_next_sequence st"
    by (cases "getLaneState (normalizeLane k) st")
      (simp add: setCommandLaneConcurrency_def Let_def open_lane_fields)
  show "qs_next_sequence (snd (resetCommandLane k st)) = qs_next_sequence st"
    by (simp add: resetCommandLane_def Let_def split: option.split)
qed (simp_all add: clearCommandLane_def resetAllLanes_def waitForActiveTasks_def Let_def split: option.split)

text \<open>The sequences given out before \<open>n\<close>.\<close>

definition sequences :: "nat \<Rightarrow> nat multiset" where
  "sequences n = mset [1..<n]"

lemma sequences_Suc: "1 \<le> n \<Longrightarrow> sequences (Suc n) = add_mset n (sequences n)"
  unfolding sequences_def upt_Suc by simp

lemma accounted_step:
  assumes "queue_sound st" and "accounted st = sequences (qs_next_sequence st)" and "1 \<le> qs_next_sequence st"
  shows "accounted (queue_step ev st) = sequences (qs_next_sequence (queue_step ev st)) \<and>
    1 \<le> qs_next_sequence (queue_step ev st)"
proof (cases ev)
  case (Enqueue k opts now)
  then show ?thesis
    using accounted_enqueue [OF assms(1), of k opts now] assms(2,3) by (auto simp: sequences_Suc split: if_splits)
next
  case (WaitActive m)
  have "accounted (snd (waitForActiveTasks m st)) = accounted st"
    by (rule accounted_cong) (auto simp: waitForActiveTasks_def Let_def)
  then show ?thesis using assms by (simp add: WaitActive)
next
  case MarkDraining
  have "accounted (markGatewayDraining st) = accounted st"
    by (rule accounted_cong) (auto simp: markGatewayDraining_def)
  then show ?thesis using assms by (simp add: MarkDraining) (simp add: markGatewayDraining_def)
next
  case (WaitTimeout w)
  have "accounted (resolveActiveTaskWaiter w False st) = accounted st"
    by (rule accounted_cong) auto
  then show ?thesis using assms by (simp add: WaitTimeout)
qed (use assms in \<open>simp_all add: accounted_finish accounted_clear accounted_concurrency accounted_reset_lane accounted_reset_all\<close>)

interpretation account: kept_by_steps
  "\<lambda>st. accounted st = sequences (qs_next_sequence st) \<and> 1 \<le> qs_next_sequence st"
proof unfold_locales
  show "accounted initial_queue = sequences (qs_next_sequence initial_queue) \<and> 1 \<le> qs_next_sequence initial_queue"
    by (simp add: accounted_def queued_load_def running_load_def initial_queue_def sequences_def)
qed (use accounted_step sound.always in blast)

subsection \<open>No lane stalls\<close>

definition lane_busy :: "lane_state \<Rightarrow> bool" where
  "lane_busy l \<longleftrightarrow> (ln_queue l \<noteq> [] \<longrightarrow> ln_max l \<le> int (length (ln_active l)))"

definition busy_but :: "string set \<Rightarrow> queue_state \<Rightarrow> bool" where
  "busy_but ks st \<longleftrightarrow> (\<forall>k l. k \<notin> ks \<longrightarrow> lane_at st k = Some l \<longrightarrow> lane_busy l)"

lemma pump_at: "lane_at (pump l st) k = (if k = ln_lane l then Some (pumped l (qs_next_task st)) else lane_at st k)"
  by (simp add: pump_closed)

lemma drain_at:
  assumes "queue_sound st"
  obtains l where "l = fst (getLaneState k st)"
    and "\<And>j. lane_at (drainLane k st) j = (if j = k then Some (pumped l (qs_next_task st)) else lane_at st j)"
proof (cases "getLaneState k st")
  case (Pair l st')
  note o = sound_open [OF assms Pair]
  have "lane_at (drainLane k st) j = (if j = k then Some (pumped l (qs_next_task st)) else lane_at st j)" for j
    using o queue_soundD(3) [OF o(1,2)] open_lane_fields [OF Pair]
    by (simp add: drainLane_def Pair pump_at)
  then show ?thesis using that Pair by simp
qed

lemma pumped_is_busy: "lane_busy (pumped l n)"
  using pumped_busy by (simp add: lane_busy_def)

lemma busy_pump: "busy_but (insert (ln_lane l) ks) st \<Longrightarrow> busy_but ks (pump l st)"
  by (simp add: busy_but_def pump_at pumped_is_busy)

lemma busy_drain:
  assumes "queue_sound st" and "busy_but (insert k ks) st"
  shows "busy_but ks (drainLane k st)"
  using drain_at [OF assms(1), of k] assms(2) by (metis busy_but_def insert_iff option.inject pumped_is_busy)

lemma busy_drains:
  "queue_sound st \<Longrightarrow> busy_but (set ks) st \<Longrightarrow> busy_but {} (fold drainLane ks st)"
  by (induction ks arbitrary: st) (simp_all add: busy_drain sound_drain)

lemma busy_cong: "lane_at st' = lane_at st \<Longrightarrow> busy_but ks st' = busy_but ks st"
  by (simp add: busy_but_def)

lemma busy_put: "busy_but {} st \<Longrightarrow> busy_but {ln_lane l} (put_lane l st)"
  "busy_but {} st \<Longrightarrow> lane_busy l \<Longrightarrow> busy_but {} (put_lane l st)"
  by (simp_all add: busy_but_def)

lemma busy_open:
  assumes "busy_but {} st" and "getLaneState k st = (l, st')"
  shows "busy_but {} st'"
  using assms
  by (auto simp: busy_but_def getLaneState_def lane_at_def obj_get_set new_lane_def lane_busy_def split: option.splits if_splits)

lemma busy_enqueue:
  assumes "queue_sound st" and "busy_but {} st"
  shows "busy_but {} (snd (enqueueCommandInLane k opts now st))"
proof (cases "getLaneState (normalizeLane k) st")
  case (Pair l st')
  note o = sound_open [OF assms(1) Pair]
  have b: "busy_but {} (st'\<lparr>qs_next_sequence := m\<rparr>)" for m
    using busy_open [OF assms(2) Pair] by (simp add: busy_cong [of "st'\<lparr>qs_next_sequence := m\<rparr>" st'])
  have "busy_but {} (drainLane (normalizeLane k) (put_lane (enqueueLaneEntry l e)
      (st'\<lparr>qs_next_sequence := Suc (qs_next_sequence st')\<rparr>)))"
    if "qe_sequence e = qs_next_sequence st'" for e
    using o that busy_put(1) [OF b, of "enqueueLaneEntry l e"] by (intro busy_drain sound_enter) simp_all
  then show ?thesis
    using assms(2) by (simp add: enqueueCommandInLane_def Pair Let_def)
qed

lemma busy_finish:
  assumes "queue_sound st" and "busy_but {} st"
  shows "busy_but {} (finish_task t ok st)"
proof (cases "find (\<lambda>r. ru_task r = t) (qs_running st)")
  case None
  then show ?thesis using assms by (simp add: finish_task_def)
next
  case (Some r)
  then obtain l where l: "lane_at st (ru_lane r) = Some l" using find_run(4) [OF assms(1)] by blast
  have w: "busy_but {} (without_task t st)"
    using assms(2) by (simp add: busy_cong [OF without_task_at])
  have "busy_but {} (pump (without_active t l) (notifyActiveTaskWaiters (put_lane (without_active t l) (without_task t st))))"
    using busy_put(1) [OF w, of "without_active t l"] by (intro busy_pump) (simp add: busy_but_def)
  then show ?thesis
    using w by (simp add: finish_task_cases [OF assms(1) Some l] Let_def busy_cong [OF lane_at_more(5)])
qed

lemma busy_concurrency:
  assumes "queue_sound st" and "busy_but {} st"
  shows "busy_but {} (setCommandLaneConcurrency k n st)"
proof (cases "getLaneState (normalizeLane k) st")
  case (Pair l st')
  note o = sound_open [OF assms(1) Pair]
  note b = busy_open [OF assms(2) Pair]
  have s: "queue_sound (put_lane (l\<lparr>ln_max := m\<rparr>) st')" for m
    using o queue_soundD [OF o(1,2)] by (intro sound_edit) auto
  have d: "busy_but {} (drainLane (normalizeLane k) (put_lane (l\<lparr>ln_max := m\<rparr>) st'))" for m
    using s busy_put(1) [OF b, of "l\<lparr>ln_max := m\<rparr>"] o(3) by (intro busy_drain) simp_all
  have z: "\<not> 0 < m \<Longrightarrow> busy_but {} (put_lane (l\<lparr>ln_max := m\<rparr>) st')" for m
    using busy_put(2) [OF b] by (simp add: lane_busy_def)
  show ?thesis
    unfolding setCommandLaneConcurrency_def Pair Let_def prod.case
    by (cases "0 < max (if isProbeLane (normalizeLane k) then 1 else 0) n") (simp_all only: d z if_True if_False not_True_eq_False not_False_eq_True)
qed

lemma busy_reset_lane:
  assumes "queue_sound st" and "busy_but {} st"
  shows "busy_but {} (snd (resetCommandLane k st))"
proof (cases "lane_at st (normalizeLane k)")
  case (Some l)
  then have n: "ln_lane l = normalizeLane k" using queue_soundD(2) [OF assms(1)] by simp
  have "busy_but {} (drainLane (normalizeLane k) (put_lane (idle_lane l) st))"
    using busy_put(1) [OF assms(2), of "idle_lane l"] n sound_idle [OF assms(1) Some] by (intro busy_drain) simp_all
  moreover have "busy_but {} (put_lane (idle_lane l) st)" if "ln_queue l = []"
    using that busy_put(2) [OF assms(2)] by (simp add: lane_busy_def)
  ultimately show ?thesis
    using Some by (auto simp: resetCommandLane_def Let_def lane_at_def [symmetric] busy_cong [OF notify_at])
qed (use assms in \<open>simp add: resetCommandLane_def lane_at_def\<close>)

lemma busy_reset_all:
  assumes "queue_sound st"
  shows "busy_but {} (resetAllLanes st)"
proof -
  define names where "names = map (\<lambda>(_, l). ln_lane l) (filter (\<lambda>(_, l). ln_queue l \<noteq> []) (qs_lanes st))"
  have "k \<in> set names" if "lane_at st k = Some l" "ln_queue l \<noteq> []" for k l
  proof -
    have "(k, l) \<in> set (qs_lanes st)" using that(1) by (simp add: lane_at_def obj_get_def map_of_SomeD)
    then show ?thesis using that queue_soundD(2) [OF assms that(1)] by (force simp: names_def)
  qed
  then have "busy_but (set names) (all_idle st)"
    by (auto simp: busy_but_def all_idle_at lane_busy_def)
  then have "busy_but {} (fold drainLane names (all_idle st))"
    by (rule busy_drains [OF sound_all_idle [OF assms]])
  then show ?thesis
    unfolding resetAllLanes_def all_idle_def [symmetric] Let_def names_def [symmetric]
    by (simp add: busy_cong [OF notify_at])
qed

lemma busy_step:
  assumes "queue_sound st" and "busy_but {} st"
  shows "busy_but {} (queue_step ev st)"
proof (cases ev)
  case (ClearLane k)
  show ?thesis
  proof (cases "lane_at st (normalizeLane k)")
    case (Some l)
    then show ?thesis
      using assms(2) by (simp add: ClearLane clearCommandLane_def lane_at_def [symmetric] busy_but_def lane_busy_def)
  qed (use assms in \<open>simp add: ClearLane clearCommandLane_def lane_at_def\<close>)
next
  case (WaitActive m)
  then show ?thesis
    using assms(2) by (auto simp: waitForActiveTasks_def Let_def busy_but_def)
next
  case MarkDraining
  then show ?thesis using assms(2) by (simp add: markGatewayDraining_def busy_but_def)
next
  case (WaitTimeout w)
  then show ?thesis using assms(2) busy_cong [of "resolveActiveTaskWaiter w False st" st] by (simp add: lane_at_def fun_eq_iff)
qed (use assms in \<open>simp_all add: busy_enqueue busy_finish busy_concurrency busy_reset_lane busy_reset_all\<close>)

interpretation busy: kept_by_steps "busy_but {}"
proof unfold_locales
  show "busy_but {} initial_queue"
    by (simp add: busy_but_def lane_at_def initial_queue_def obj_get_def)
qed (use busy_step sound.always in blast)

subsection \<open>The waiters\<close>

definition active_of :: "queue_state \<Rightarrow> string \<Rightarrow> nat set" where
  "active_of st k = (case lane_at st k of Some l \<Rightarrow> set (ln_active l) | None \<Rightarrow> {})"

definition active_set :: "queue_state \<Rightarrow> nat set" where
  "active_set st = (\<Union>k. active_of st k)"

lemma active_of_put [simp]:
  "active_of (put_lane l st) k = (if k = ln_lane l then set (ln_active l) else active_of st k)"
  by (simp add: active_of_def)

lemma active_of_cong: "lane_at st' = lane_at st \<Longrightarrow> active_of st' = active_of st"
  by (simp add: active_of_def fun_eq_iff)

lemma active_of_some: "lane_at st k = Some l \<Longrightarrow> active_of st k = set (ln_active l)"
  by (simp add: active_of_def)

lemma active_set_mono: "(\<And>k. active_of st k \<subseteq> active_of st' k) \<Longrightarrow> active_set st \<subseteq> active_set st'"
  by (force simp: active_set_def)

lemma active_set_cong: "lane_at st' = lane_at st \<Longrightarrow> active_set st' = active_set st"
  unfolding active_set_def by (subst active_of_cong) simp_all

lemma active_of_iff: "t \<in> active_of st k \<longleftrightarrow> (\<exists>l. lane_at st k = Some l \<and> t \<in> set (ln_active l))"
  by (cases "lane_at st k") (simp_all add: active_of_def)

lemma active_set_all: "queue_sound st \<Longrightarrow> set (all_active st) = active_set st"
  using all_active_put [of st]
  by (simp add: set_eq_iff active_set_def active_of_iff queue_sound_def lanes_sound_def)

lemma pending_active: "queue_sound st \<Longrightarrow> hasPendingActiveTasks ts st \<longleftrightarrow> set ts \<inter> active_set st \<noteq> {}"
  using active_set_all by (auto simp: pending_iff)

definition waiter_ids :: "queue_state \<Rightarrow> bool" where
  "waiter_ids st \<longleftrightarrow>
     distinct (map wt_id (qs_waiters st)) \<and> (\<forall>w\<in>set (qs_waiters st). wt_id w < qs_next_waiter st)"

definition waiters_sound :: "queue_state \<Rightarrow> bool" where
  "waiters_sound st \<longleftrightarrow>
     waiter_ids st \<and> (\<forall>w\<in>set (qs_waiters st). set (wt_tasks w) \<inter> active_set st \<noteq> {})"

lemma waiters_more:
  assumes "waiters_sound st" and "active_set st \<subseteq> active_set st'"
    and "qs_waiters st' = qs_waiters st" and "qs_next_waiter st' = qs_next_waiter st"
  shows "waiters_sound st'"
  using assms by (fastforce simp: waiters_sound_def waiter_ids_def)

lemma waiters_notified:
  assumes "queue_sound st" and "waiter_ids st"
  shows "waiters_sound (notifyActiveTaskWaiters st)"
proof -
  have "active_set (notifyActiveTaskWaiters st) = active_set st" by (rule active_set_cong) simp
  then show ?thesis
    using assms notify_waiters [of st]
    by (auto simp: waiters_sound_def waiter_ids_def distinct_map_filter pending_active)
qed

lemma active_of_pump: "active_of (pump l st) k = (if k = ln_lane l then set (ln_active (pumped l (qs_next_task st))) else active_of st k)"
  by (simp add: active_of_def pump_at)

lemma active_pump:
  assumes "lane_at st (ln_lane l) = Some l"
  shows "active_set st \<subseteq> active_set (pump l st)"
  using active_of_some [OF assms] by (intro active_set_mono) (auto simp: active_of_pump pumped_def)

lemma drain_waiters [simp]:
  "qs_waiters (drainLane k st) = qs_waiters st" "qs_next_waiter (drainLane k st) = qs_next_waiter st"
  by (auto simp: drainLane_def open_lane_fields split: prod.splits)

lemma drains_waiters [simp]:
  "qs_waiters (fold drainLane ks st) = qs_waiters st" "qs_next_waiter (fold drainLane ks st) = qs_next_waiter st"
  by (induction ks arbitrary: st) simp_all

lemma active_of_open:
  assumes "getLaneState k st = (l, st')"
  shows "active_of st' = active_of st"
proof (cases "lane_at st k")
  case None
  then have "st' = put_lane (new_lane k) st"
    using assms by (auto simp: getLaneState_def lane_at_def put_lane_def new_lane_def)
  then show ?thesis using None by (auto simp: fun_eq_iff active_of_def new_lane_def)
next
  case (Some l0)
  then show ?thesis using assms by (simp add: getLaneState_def lane_at_def)
qed

lemma active_open: "getLaneState k st = (l, st') \<Longrightarrow> active_set st' = active_set st"
  by (simp add: active_set_def active_of_open)

lemma active_drain:
  assumes "queue_sound st"
  shows "active_set st \<subseteq> active_set (drainLane k st)"
proof (cases "getLaneState k st")
  case (Pair l st')
  note o = sound_open [OF assms Pair]
  show ?thesis
    using active_open [OF Pair] active_pump [of st' l] o queue_soundD(3) [OF o(1,2)]
    by (simp add: drainLane_def Pair)
qed

lemma active_put_same:
  assumes "lane_at st (ln_lane l) = Some l0" and "ln_active l = ln_active l0"
  shows "active_set (put_lane l st) = active_set st"
proof -
  have "active_of (put_lane l st) = active_of st"
    using active_of_some [OF assms(1)] assms(2) by (simp add: fun_eq_iff)
  then show ?thesis by (simp add: active_set_def)
qed

lemma waiters_enqueue:
  assumes "queue_sound st" and "waiters_sound st"
  shows "waiters_sound (snd (enqueueCommandInLane k opts now st))"
proof (cases "getLaneState (normalizeLane k) st")
  case (Pair l st')
  note o = sound_open [OF assms(1) Pair]
  let ?st = "\<lambda>e. put_lane (enqueueLaneEntry l e) (st'\<lparr>qs_next_sequence := Suc (qs_next_sequence st')\<rparr>)"
  have more: "active_set (?st e) = active_set st'" for e
    using active_put_same [of "st'\<lparr>qs_next_sequence := Suc (qs_next_sequence st')\<rparr>" "enqueueLaneEntry l e" l] o
    by (simp add: active_set_cong [OF lane_at_more(2)])
  have "waiters_sound (drainLane (normalizeLane k) (?st e))" if "qe_sequence e = qs_next_sequence st'" for e
  proof (rule waiters_more [OF assms(2)])
    have "queue_sound (?st e)" using o that by (intro sound_enter) simp_all
    then show "active_set st \<subseteq> active_set (drainLane (normalizeLane k) (?st e))"
      using active_open [OF Pair] active_drain more by blast
  qed (simp_all add: open_lane_fields [OF Pair])
  then show ?thesis using assms(2) by (simp add: enqueueCommandInLane_def Pair Let_def)
qed

lemma waiter_ids_cong:
  "qs_waiters st' = qs_waiters st \<Longrightarrow> qs_next_waiter st' = qs_next_waiter st \<Longrightarrow> waiter_ids st' = waiter_ids st"
  by (simp add: waiter_ids_def)

lemma waiters_finish:
  assumes "queue_sound st" and "waiters_sound st"
  shows "waiters_sound (finish_task t ok st)"
proof (cases "find (\<lambda>r. ru_task r = t) (qs_running st)")
  case None
  then show ?thesis using assms by (simp add: finish_task_def)
next
  case (Some r)
  then obtain l where l: "lane_at st (ru_lane r) = Some l" using find_run(4) [OF assms(1)] by blast
  have n: "ln_lane l = ru_lane r" using l assms queue_soundD(2) by blast
  have settled: "waiters_sound (s\<lparr>qs_settled := x\<rparr>) = waiters_sound s" for s x
    by (simp add: waiters_sound_def waiter_ids_def active_set_cong [OF lane_at_more(5)])
  have stale: "waiters_sound (without_task t st)"
    using assms(2) by (rule waiters_more) (simp_all add: active_set_cong [OF without_task_at], simp_all add: without_task_def)
  let ?st = "put_lane (without_active t l) (without_task t st)"
  have "waiters_sound (pump (without_active t l) (notifyActiveTaskWaiters ?st))"
    if "ru_generation r = ln_generation l"
  proof (rule waiters_more)
    show "waiters_sound (notifyActiveTaskWaiters ?st)"
      using sound_leave [OF assms(1) Some l that] assms(2)
      by (intro waiters_notified) (simp_all add: waiters_sound_def waiter_ids_def without_task_def)
  qed (simp_all add: active_pump)
  then show ?thesis
    using stale by (simp add: finish_task_cases [OF assms(1) Some l] Let_def settled)
qed

lemma waiters_concurrency:
  assumes "queue_sound st" and "waiters_sound st"
  shows "waiters_sound (setCommandLaneConcurrency k n st)"
proof (cases "getLaneState (normalizeLane k) st")
  case (Pair l st')
  note o = sound_open [OF assms(1) Pair]
  let ?st = "\<lambda>m. put_lane (l\<lparr>ln_max := m\<rparr>) st'"
  have s: "queue_sound (?st m)" for m
    using o queue_soundD [OF o(1,2)] by (intro sound_edit) auto
  have a: "active_set (?st m) = active_set st" for m
    using active_open [OF Pair] active_put_same [of st' "l\<lparr>ln_max := m\<rparr>" l] o by simp
  have "waiters_sound (?st m)" for m
    using waiters_more [OF assms(2), of "?st m"] a open_lane_fields [OF Pair] by simp
  moreover have "waiters_sound (drainLane (normalizeLane k) (?st m))" for m
    using waiters_more [OF assms(2), of "drainLane (normalizeLane k) (?st m)"] a active_drain [OF s]
      open_lane_fields [OF Pair] by simp
  ultimately show ?thesis
    by (simp add: setCommandLaneConcurrency_def Pair Let_def)
qed

lemma waiters_step:
  assumes "queue_sound st" and "waiters_sound st"
  shows "waiters_sound (queue_step ev st)"
proof (cases ev)
  case (ClearLane k)
  have "waiters_sound (snd (clearCommandLane k st))"
  proof (cases "lane_at st (normalizeLane k)")
    case (Some l)
    let ?set = "st\<lparr>qs_settled := qs_settled st @ map (\<lambda>e. (qe_sequence e, LaneCleared)) (ln_queue l)\<rparr>"
    have "active_set (put_lane (l\<lparr>ln_queue := []\<rparr>) ?set) = active_set ?set"
      using queue_soundD(2) [OF assms(1) Some] Some by (intro active_put_same [of _ _ l]) simp_all
    then have "waiters_sound (put_lane (l\<lparr>ln_queue := []\<rparr>) ?set)"
      using active_set_cong [OF lane_at_more(5)] by (intro waiters_more [OF assms(2)]) simp_all
    then show ?thesis
      using Some by (simp add: clearCommandLane_def lane_at_def)
  qed (use assms in \<open>simp add: clearCommandLane_def lane_at_def\<close>)
  then show ?thesis by (simp add: ClearLane)
next
  case (ResetLane k)
  have ids: "waiter_ids st" using assms(2) by (simp add: waiters_sound_def)
  have "waiters_sound (snd (resetCommandLane k st))"
  proof (cases "lane_at st (normalizeLane k)")
    case (Some l)
    then show ?thesis
      using ids sound_idle [OF assms(1) Some]
      by (auto simp: resetCommandLane_def Let_def lane_at_def [symmetric] sound_drain waiter_ids_def
          intro!: waiters_notified)
  qed (use assms in \<open>simp add: resetCommandLane_def lane_at_def\<close>)
  then show ?thesis by (simp add: ResetLane)
next
  case ResetAll
  have "waiters_sound (resetAllLanes st)"
    unfolding resetAllLanes_def all_idle_def [symmetric] Let_def
    using assms(2) sound_all_idle [OF assms(1)]
    by (intro waiters_notified sound_drains)
      (simp_all add: waiters_sound_def waiter_ids_def, simp_all add: all_idle_def)
  then show ?thesis by (simp add: ResetAll)
next
  case (WaitActive m)
  have "queue_sound (st\<lparr>qs_waiters := a, qs_next_waiter := b\<rparr>)" for a b
    using assms(1) by (rule sound_fields) simp_all
  moreover have "waiter_ids (st\<lparr>qs_waiters := qs_waiters st @ [\<lparr>wt_id = qs_next_waiter st, wt_tasks = ts\<rparr>],
      qs_next_waiter := Suc (qs_next_waiter st)\<rparr>)" for ts
    using assms(2) by (fastforce simp: waiters_sound_def waiter_ids_def)
  ultimately have "waiters_sound (snd (waitForActiveTasks m st))"
    using assms(2) by (simp add: waitForActiveTasks_def Let_def waiters_notified)
  then show ?thesis by (simp add: WaitActive)
next
  case MarkDraining
  then show ?thesis
    using waiters_more [OF assms(2)] by (simp add: markGatewayDraining_def active_set_cong [OF lane_at_more(9)])
next
  case (WaitTimeout w)
  have "active_set (resolveActiveTaskWaiter w False st) = active_set st"
    by (rule active_set_cong) (simp add: lane_at_def fun_eq_iff)
  then show ?thesis
    using assms(2) by (auto simp: WaitTimeout waiters_sound_def waiter_ids_def distinct_map_filter)
qed (use assms in \<open>simp_all add: waiters_enqueue waiters_finish waiters_concurrency\<close>)

interpretation waiting: kept_by_steps waiters_sound
proof unfold_locales
  show "waiters_sound initial_queue" by (simp add: waiters_sound_def waiter_ids_def initial_queue_def)
qed (use waiters_step sound.always in blast)

subsection \<open>What starts is what the lane serves first\<close>

text \<open>
  From \<open>st\<close> to \<open>st'\<close> entries have started: those of a lane in its order, and
  each served before all that its lane still holds.
\<close>

definition starts_front :: "queue_state \<Rightarrow> queue_state \<Rightarrow> bool" where
  "starts_front st st' \<longleftrightarrow>
     (\<exists>new. qs_started st' = qs_started st @ new \<and>
        sorted_wrt (\<lambda>a b. fst a = fst b \<longrightarrow> served_before (snd a) (snd b)) new \<and>
        (\<forall>(k, e)\<in>set new. \<forall>l x. lane_at st' k = Some l \<longrightarrow> x \<in> set (ln_queue l) \<longrightarrow> served_before e x))"

lemma starts_none: "qs_started st' = qs_started st \<Longrightarrow> starts_front st st'"
  by (simp add: starts_front_def)

lemma starts_cong:
  "starts_front st st' \<Longrightarrow> qs_started st'' = qs_started st' \<Longrightarrow> lane_at st'' = lane_at st' \<Longrightarrow> starts_front st st''"
  by (simp add: starts_front_def)

lemma starts_from: "starts_front st1 st' \<Longrightarrow> qs_started st1 = qs_started st \<Longrightarrow> starts_front st st'"
  by (simp add: starts_front_def)

lemma starts_pump:
  assumes "queue_sound st" and "lane_at st (ln_lane l) = Some l"
  shows "starts_front st (pump l st)"
proof -
  have s: "sorted_wrt served_before (ln_queue l)" using queue_soundD [OF assms] by simp
  have "sorted_wrt (\<lambda>a b. fst a = fst b \<longrightarrow> served_before (snd a) (snd b))
      (map (Pair (ln_lane l)) (take (starting l) (ln_queue l)))"
    using sorted_wrt_take [OF s] by (auto simp: sorted_wrt_map elim!: sorted_wrt_mono_rel [rotated])
  moreover have "served_before e x"
    if "e \<in> set (take (starting l) (ln_queue l))" "x \<in> set (drop (starting l) (ln_queue l))" for e x
    using sorted_take_drop [OF s that] .
  ultimately show ?thesis
    unfolding starts_front_def started_at_pump
    by (intro exI [of _ "map (Pair (ln_lane l)) (take (starting l) (ln_queue l))"]) (auto simp: pump_at pumped_def)
qed

text \<open>Draining a further lane leaves what starts first in front.\<close>

lemma drain_queues:
  assumes "queue_sound st" and "lane_at (drainLane k st) j = Some l" and "x \<in> set (ln_queue l)"
  shows "\<exists>l0. lane_at st j = Some l0 \<and> x \<in> set (ln_queue l0)"
proof (cases "getLaneState k st")
  case (Pair m st')
  note o = sound_open [OF assms(1) Pair]
  have "lane_at (drainLane k st) j = lane_at (pump m st') j"
    using queue_soundD(3) [OF o(1,2)] by (simp add: drainLane_def Pair)
  then have l: "lane_at (pump m st') j = Some l" using assms(2) by simp
  have "\<exists>l0. lane_at st' j = Some l0 \<and> x \<in> set (ln_queue l0)"
    using l assms(3) o by (auto simp: pump_at pumped_def dest: in_set_dropD split: if_splits)
  then show ?thesis
    using open_cases [OF Pair] by (auto simp: new_lane_def split: if_splits)
qed

lemma starts_drain:
  assumes "queue_sound st"
  shows "starts_front st (drainLane k st)"
proof (cases "getLaneState k st")
  case (Pair l st')
  note o = sound_open [OF assms Pair]
  show ?thesis
    using starts_from [OF starts_pump [OF o(1), of l]] o queue_soundD(3) [OF o(1,2)]
    by (simp add: drainLane_def Pair open_lane_fields [OF Pair])
qed

lemma starts_trans:
  assumes "starts_front st st1" and "starts_front st1 st2"
    and "\<And>j l x. lane_at st2 j = Some l \<Longrightarrow> x \<in> set (ln_queue l) \<Longrightarrow> \<exists>l0. lane_at st1 j = Some l0 \<and> x \<in> set (ln_queue l0)"
    and "\<And>j e. (j, e) \<in> set (drop (length (qs_started st1)) (qs_started st2)) \<Longrightarrow>
      \<exists>l0. lane_at st1 j = Some l0 \<and> e \<in> set (ln_queue l0)"
  shows "starts_front st st2"
proof -
  from assms(1) obtain n1 where n1: "qs_started st1 = qs_started st @ n1"
      "sorted_wrt (\<lambda>a b. fst a = fst b \<longrightarrow> served_before (snd a) (snd b)) n1"
      "\<And>k e l x. (k, e) \<in> set n1 \<Longrightarrow> lane_at st1 k = Some l \<Longrightarrow> x \<in> set (ln_queue l) \<Longrightarrow> served_before e x"
    unfolding starts_front_def by blast
  from assms(2) obtain n2 where n2: "qs_started st2 = qs_started st1 @ n2"
      "sorted_wrt (\<lambda>a b. fst a = fst b \<longrightarrow> served_before (snd a) (snd b)) n2"
      "\<And>k e l x. (k, e) \<in> set n2 \<Longrightarrow> lane_at st2 k = Some l \<Longrightarrow> x \<in> set (ln_queue l) \<Longrightarrow> served_before e x"
    unfolding starts_front_def by blast
  have later: "served_before a b" if "(k, a) \<in> set n1" "(k, b) \<in> set n2" for k a b
    using assms(4) [of k b] n1(3) [OF that(1)] that(2) n2(1) by auto
  have "sorted_wrt (\<lambda>a b. fst a = fst b \<longrightarrow> served_before (snd a) (snd b)) (n1 @ n2)"
    using n1(2) n2(2) later by (auto simp: sorted_wrt_append)
  moreover have "served_before e x"
    if "(k, e) \<in> set (n1 @ n2)" "lane_at st2 k = Some l" "x \<in> set (ln_queue l)" for k e l x
    using that assms(3) [OF that(2,3)] n1(3) n2(3) by auto
  ultimately show ?thesis
    unfolding starts_front_def using n1(1) n2(1) by (intro exI [of _ "n1 @ n2"]) auto
qed

lemma drain_started:
  assumes "queue_sound st" and "(j, e) \<in> set (drop (length (qs_started st)) (qs_started (drainLane k st)))"
  shows "\<exists>l0. lane_at st j = Some l0 \<and> e \<in> set (ln_queue l0)"
proof (cases "getLaneState k st")
  case (Pair l st')
  note o = sound_open [OF assms(1) Pair]
  have "qs_started (drainLane k st) = qs_started st @ map (Pair (ln_lane l)) (take (starting l) (ln_queue l))"
    using queue_soundD(3) [OF o(1,2)] by (simp add: drainLane_def Pair started_at_pump open_lane_fields [OF Pair])
  then have "j = ln_lane l" "e \<in> set (ln_queue l)" using assms(2) by (auto dest: in_set_takeD)
  moreover have "lane_at st k = Some l \<or> ln_queue l = []"
    using open_cases [OF Pair] by (auto simp: new_lane_def dest: arg_cong [of _ _ ln_queue])
  ultimately show ?thesis using o(3) by auto
qed

lemma starts_drains: "queue_sound st \<Longrightarrow> starts_front st (fold drainLane ks st)"
proof (induction ks rule: rev_induct)
  case Nil
  show ?case by (simp add: starts_none)
next
  case (snoc k ks)
  note s = sound_drains [OF snoc.prems, of ks]
  have "starts_front st (drainLane k (fold drainLane ks st))"
    using starts_trans [OF snoc.IH [OF snoc.prems] starts_drain [OF s]] drain_queues [OF s] drain_started [OF s]
    by blast
  then show ?case by simp
qed

lemma starts_enqueue:
  assumes "queue_sound st"
  shows "starts_front st (snd (enqueueCommandInLane k opts now st))"
proof (cases "getLaneState (normalizeLane k) st")
  case (Pair l st')
  note o = sound_open [OF assms Pair]
  have "starts_front st (drainLane (normalizeLane k) (put_lane (enqueueLaneEntry l e)
      (st'\<lparr>qs_next_sequence := Suc (qs_next_sequence st')\<rparr>)))" if "qe_sequence e = qs_next_sequence st'" for e
    using o that by (intro starts_from [OF starts_drain] sound_enter) (simp_all add: open_lane_fields [OF Pair])
  then show ?thesis by (simp add: enqueueCommandInLane_def Pair Let_def starts_none)
qed

lemma starts_finish:
  assumes "queue_sound st"
  shows "starts_front st (finish_task t ok st)"
proof (cases "find (\<lambda>r. ru_task r = t) (qs_running st)")
  case None
  then show ?thesis by (simp add: finish_task_def starts_none)
next
  case (Some r)
  then obtain l where l: "lane_at st (ru_lane r) = Some l" using find_run(4) [OF assms] by blast
  have n: "ln_lane l = ru_lane r" using queue_soundD(2) [OF assms l] .
  let ?st = "notifyActiveTaskWaiters (put_lane (without_active t l) (without_task t st))"
  have "starts_front st (pump (without_active t l) ?st)" if "ru_generation r = ln_generation l"
    using sound_leave [OF assms Some l that]
    by (intro starts_from [OF starts_pump] sound_notify) (simp_all add: without_task_def)
  then have "starts_front st (s\<lparr>qs_settled := x\<rparr>)"
    if "s = pump (without_active t l) ?st" "ru_generation r = ln_generation l" for s x
    using that starts_cong by fastforce
  then show ?thesis
    by (auto simp: finish_task_cases [OF assms Some l] Let_def without_task_def intro!: starts_none)
qed

lemma starts_concurrency:
  assumes "queue_sound st"
  shows "starts_front st (setCommandLaneConcurrency k n st)"
proof (cases "getLaneState (normalizeLane k) st")
  case (Pair l st')
  note o = sound_open [OF assms Pair]
  have s: "queue_sound (put_lane (l\<lparr>ln_max := m\<rparr>) st')" for m
    using o queue_soundD [OF o(1,2)] by (intro sound_edit) auto
  have "starts_front st (drainLane (normalizeLane k) (put_lane (l\<lparr>ln_max := m\<rparr>) st'))" for m
    using starts_from [OF starts_drain [OF s]] by (simp add: open_lane_fields [OF Pair])
  then show ?thesis
    by (simp add: setCommandLaneConcurrency_def Pair Let_def starts_none open_lane_fields [OF Pair])
qed

lemma starts_reset_lane:
  assumes "queue_sound st"
  shows "starts_front st (snd (resetCommandLane k st))"
proof (cases "lane_at st (normalizeLane k)")
  case (Some l)
  have d: "starts_front st (drainLane (normalizeLane k) (put_lane (idle_lane l) st))"
    using starts_from [OF starts_drain [OF sound_idle [OF assms Some]]] by simp
  then have "starts_front st (notifyActiveTaskWaiters (drainLane (normalizeLane k) (put_lane (idle_lane l) st)))"
    by (rule starts_cong) simp_all
  then show ?thesis
    using Some by (simp add: resetCommandLane_def Let_def lane_at_def [symmetric] starts_none)
qed (simp add: resetCommandLane_def lane_at_def starts_none)

lemma starts_reset_all:
  assumes "queue_sound st"
  shows "starts_front st (resetAllLanes st)"
proof -
  have "starts_front st (fold drainLane ks (all_idle st))" for ks
    using starts_from [OF starts_drains [OF sound_all_idle [OF assms]]] by (simp add: all_idle_def)
  then show ?thesis
    unfolding resetAllLanes_def all_idle_def [symmetric] Let_def by (rule starts_cong) simp_all
qed

lemma starts_step:
  assumes "queue_sound st"
  shows "starts_front st (queue_step ev st)"
proof (cases ev)
  case (ClearLane k)
  then show ?thesis by (auto simp: clearCommandLane_def split: option.split intro!: starts_none)
next
  case (WaitActive m)
  then show ?thesis by (simp add: waitForActiveTasks_def Let_def starts_none)
qed (use assms in \<open>simp_all add: starts_enqueue starts_finish starts_concurrency starts_reset_lane
    starts_reset_all starts_none markGatewayDraining_def\<close>)

subsection \<open>The limit of a lane\<close>

text \<open>Nothing beyond \<open>A\<close> runs in a lane unless the lane is within its limit.\<close>

definition within_limit :: "(string \<Rightarrow> nat set) \<Rightarrow> queue_state \<Rightarrow> bool" where
  "within_limit A st \<longleftrightarrow>
     (\<forall>k l. lane_at st k = Some l \<longrightarrow> set (ln_active l) \<subseteq> A k \<or> int (length (ln_active l)) \<le> ln_max l)"

lemma within_self: "within_limit (active_of st) st"
  by (simp add: within_limit_def active_of_some)

lemma within_cong: "lane_at st' = lane_at st \<Longrightarrow> within_limit A st \<Longrightarrow> within_limit A st'"
  by (simp add: within_limit_def)

lemma pumped_within:
  "set (ln_active l) \<subseteq> B \<or> int (length (ln_active l)) \<le> ln_max l \<Longrightarrow>
     set (ln_active (pumped l n)) \<subseteq> B \<or> int (length (ln_active (pumped l n))) \<le> ln_max (pumped l n)"
  by (cases "starting l = 0") (auto simp: pumped_def starting_def)

lemma within_pump:
  assumes "within_limit A st" and "lane_at st (ln_lane l) = Some l"
  shows "within_limit A (pump l st)"
  using assms pumped_within [of l "A (ln_lane l)"] by (auto simp: within_limit_def pump_at simp del: Un_iff)

lemma within_put:
  "within_limit A st \<Longrightarrow> set (ln_active l) \<subseteq> A (ln_lane l) \<Longrightarrow> within_limit A (put_lane l st)"
  by (simp add: within_limit_def)

lemma within_open:
  assumes "within_limit A st" and "getLaneState k st = (l, st')"
  shows "within_limit A st'"
  using open_cases [OF assms(2)] within_put [OF assms(1), of "new_lane k"] assms(1) by (auto simp: new_lane_def)

lemma within_drain:
  assumes "queue_sound st" and "within_limit A st"
  shows "within_limit A (drainLane k st)"
proof (cases "getLaneState k st")
  case (Pair l st')
  note o = sound_open [OF assms(1) Pair]
  show ?thesis
    using within_open [OF assms(2) Pair] within_pump [of A st' l] o queue_soundD(3) [OF o(1,2)]
    by (simp add: drainLane_def Pair)
qed

lemma within_drains: "queue_sound st \<Longrightarrow> within_limit A st \<Longrightarrow> within_limit A (fold drainLane ks st)"
  by (induction ks arbitrary: st) (simp_all add: within_drain sound_drain)

lemma within_enqueue:
  assumes "queue_sound st"
  shows "within_limit (active_of st) (snd (enqueueCommandInLane k opts now st))"
proof (cases "getLaneState (normalizeLane k) st")
  case (Pair l st')
  note o = sound_open [OF assms Pair]
  have a: "set (ln_active l) = active_of st (normalizeLane k)"
    using active_of_some [OF o(2)] active_of_open [OF Pair] by simp
  have w: "within_limit (active_of st) (st'\<lparr>qs_next_sequence := m\<rparr>)" for m
    using within_open [OF within_self Pair] by (rule within_cong [rotated]) simp
  have "within_limit (active_of st) (drainLane (normalizeLane k) (put_lane (enqueueLaneEntry l e)
      (st'\<lparr>qs_next_sequence := Suc (qs_next_sequence st')\<rparr>)))"
    if "qe_sequence e = qs_next_sequence st'" for e
    using o that w a by (intro within_drain within_put sound_enter) simp_all
  then show ?thesis
    using within_self by (simp add: enqueueCommandInLane_def Pair Let_def)
qed

lemma within_finish:
  assumes "queue_sound st"
  shows "within_limit (active_of st) (finish_task t ok st)"
proof (cases "find (\<lambda>r. ru_task r = t) (qs_running st)")
  case None
  then show ?thesis by (simp add: finish_task_def within_self)
next
  case (Some r)
  then obtain l where l: "lane_at st (ru_lane r) = Some l" using find_run(4) [OF assms] by blast
  have n: "ln_lane l = ru_lane r" using queue_soundD(2) [OF assms l] .
  have w: "within_limit (active_of st) (without_task t st)"
    by (rule within_cong [OF without_task_at within_self])
  have settled: "within_limit A s \<Longrightarrow> within_limit A (s\<lparr>qs_settled := x\<rparr>)" for A s x
    by (rule within_cong) simp
  have "within_limit (active_of st) (pump (without_active t l)
      (notifyActiveTaskWaiters (put_lane (without_active t l) (without_task t st))))"
  proof (rule within_pump)
    show "within_limit (active_of st) (notifyActiveTaskWaiters (put_lane (without_active t l) (without_task t st)))"
      using w active_of_some [OF l] by (intro within_cong [OF notify_at] within_put) (auto simp: n)
  qed simp
  then show ?thesis
    using w by (auto simp: finish_task_cases [OF assms Some l] Let_def intro: settled)
qed

lemma within_concurrency:
  assumes "queue_sound st"
  shows "within_limit (active_of st) (setCommandLaneConcurrency k n st)"
proof (cases "getLaneState (normalizeLane k) st")
  case (Pair l st')
  note o = sound_open [OF assms Pair]
  let ?st = "\<lambda>m. put_lane (l\<lparr>ln_max := m\<rparr>) st'"
  have "queue_sound (?st m)" for m
    using o queue_soundD [OF o(1,2)] by (intro sound_edit) auto
  moreover have "within_limit (active_of st) (?st m)" for m
    using within_open [OF within_self Pair] active_of_some [OF o(2)] active_of_open [OF Pair] o(3)
    by (intro within_put) simp_all
  ultimately show ?thesis
    by (simp add: setCommandLaneConcurrency_def Pair Let_def within_drain)
qed

lemma within_reset_lane:
  assumes "queue_sound st"
  shows "within_limit (active_of st) (snd (resetCommandLane k st))"
proof (cases "lane_at st (normalizeLane k)")
  case (Some l)
  then show ?thesis
    using sound_idle [OF assms Some] within_put [OF within_self, of "idle_lane l" st]
    by (auto simp: resetCommandLane_def Let_def lane_at_def [symmetric]
        intro!: within_cong [OF notify_at] within_drain)
qed (simp add: resetCommandLane_def lane_at_def within_self)

lemma within_reset_all:
  assumes "queue_sound st"
  shows "within_limit (active_of st) (resetAllLanes st)"
  unfolding resetAllLanes_def all_idle_def [symmetric] Let_def
proof (intro within_cong [OF notify_at] within_drains)
  show "within_limit (active_of st) (all_idle st)"
    by (auto simp: within_limit_def all_idle_at)
qed (rule sound_all_idle [OF assms])

lemma within_step:
  assumes "queue_sound st"
  shows "within_limit (active_of st) (queue_step ev st)"
proof (cases ev)
  case (ClearLane k)
  show ?thesis
  proof (cases "lane_at st (normalizeLane k)")
    case (Some l)
    have "within_limit (active_of st) (st\<lparr>qs_settled := x\<rparr>)" for x
      by (rule within_cong [OF lane_at_more(5) within_self])
    then show ?thesis
      using Some active_of_some [OF Some] queue_soundD(2) [OF assms Some]
      by (simp add: ClearLane clearCommandLane_def lane_at_def [symmetric] within_put)
  qed (simp add: ClearLane clearCommandLane_def lane_at_def within_self)
next
  case (WaitActive m)
  have "lane_at (snd (waitForActiveTasks m st)) = lane_at st" by (simp add: waitForActiveTasks_def Let_def)
  then show ?thesis using within_cong [OF _ within_self] by (simp add: WaitActive)
next
  case MarkDraining
  then show ?thesis using within_cong [OF lane_at_more(9) within_self] by (simp add: markGatewayDraining_def)
next
  case (WaitTimeout w)
  have "lane_at (resolveActiveTaskWaiter w False st) = lane_at st" by (simp add: lane_at_def fun_eq_iff)
  then show ?thesis using within_cong [OF _ within_self] by (simp add: WaitTimeout)
qed (use assms in \<open>simp_all add: within_enqueue within_finish within_concurrency within_reset_lane within_reset_all\<close>)

subsection \<open>A lane empties\<close>

text \<open>The end of an active task of a lane: its lane is one task shorter.\<close>

lemma finish_active:
  assumes "queue_sound st" and "lane_at st k = Some l" and "t \<in> set (ln_active l)"
  obtains n where "lane_at (finish_task t ok st) k = Some (pumped (without_active t l) n)"
    and "set (qs_started st) \<subseteq> set (qs_started (finish_task t ok st))"
    and "\<forall>e\<in>set (take (starting (without_active t l)) (ln_queue l)). (k, e) \<in> set (qs_started (finish_task t ok st))"
proof -
  note s = queue_soundD [OF assms(1,2)]
  from s(6) assms(3) obtain r where r: "r \<in> set (qs_running st)" "ru_lane r = k"
      "ru_generation r = ln_generation l" "ru_task r = t"
    by (auto simp: active_sound_def s(2))
  have "find (\<lambda>r. ru_task r = t) (qs_running st) \<noteq> None"
    using r by (auto simp: find_None_iff)
  then obtain r' where r': "find (\<lambda>r. ru_task r = t) (qs_running st) = Some r'" by blast
  have "r' = r" using find_run(3) [OF assms(1) r' r(1,4)] by simp
  then have f: "finish_task t ok st = (let st2 = pump (without_active t l)
        (notifyActiveTaskWaiters (put_lane (without_active t l) (without_task t st)))
      in st2\<lparr>qs_settled := qs_settled st2 @ [(qe_sequence (ru_entry r), if ok then TaskResolved else TaskRejected)]\<rparr>)"
    using finish_task_cases [OF assms(1) r', of l ok] assms(2) r by simp
  show ?thesis
    by (rule that) (auto simp: f Let_def pump_at s(2) started_at_pump without_task_def)
qed

lemma pumped_depth: "getLaneDepth (pumped l n) = getLaneDepth l"
  by (simp add: getLaneDepth_def pumped_def starting_def)

lemma without_depth:
  assumes "distinct (ln_active l)" and "t \<in> set (ln_active l)"
  shows "Suc (getLaneDepth (without_active t l)) = getLaneDepth l"
proof -
  have "filter (\<lambda>x. x \<noteq> t) (ln_active l) = remove1 t (ln_active l)"
    using assms(1) by (simp add: distinct_remove1_removeAll removeAll_filter_not_eq) metis
  moreover have "0 < length (ln_active l)" using assms(2) by (cases "ln_active l") auto
  ultimately show ?thesis
    using assms(2) by (simp add: getLaneDepth_def length_remove1)
qed

definition finish_all :: "(nat \<Rightarrow> bool) \<Rightarrow> nat list \<Rightarrow> queue_state \<Rightarrow> queue_state" where
  "finish_all ok ts st = fold (\<lambda>t. queue_step (Finish t (ok t))) ts st"

lemma lane_empties:
  assumes "queue_sound st" and "busy_but {} st" and "lane_at st k = Some l" and "0 < ln_max l"
  shows "\<exists>ts l'. length ts = getLaneDepth l \<and> lane_at (finish_all ok ts st) k = Some l' \<and>
    ln_queue l' = [] \<and> ln_active l' = [] \<and>
    set (qs_started st) \<union> Pair k ` set (ln_queue l) \<subseteq> set (qs_started (finish_all ok ts st))"
  using assms
proof (induction "getLaneDepth l" arbitrary: st l)
  case 0
  then show ?case
    by (intro exI [of _ "[]"] exI [of _ l]) (auto simp: finish_all_def getLaneDepth_def)
next
  case (Suc d)
  have "ln_active l \<noteq> []"
  proof
    assume none: "ln_active l = []"
    then have "ln_queue l \<noteq> []" using Suc.hyps(2) by (auto simp: getLaneDepth_def)
    then have "ln_max l \<le> 0" using Suc.prems(2,3) none by (force simp: busy_but_def lane_busy_def)
    then show False using Suc.prems(4) by simp
  qed
  then obtain t where t: "t \<in> set (ln_active l)" by (cases "ln_active l") auto
  let ?l = "without_active t l" and ?st = "finish_task t (ok t) st"
  obtain n where n: "lane_at ?st k = Some (pumped ?l n)"
    and old: "set (qs_started st) \<subseteq> set (qs_started ?st)"
    and new: "\<forall>e\<in>set (take (starting ?l) (ln_queue l)). (k, e) \<in> set (qs_started ?st)"
    by (rule finish_active [OF Suc.prems(1,3) t])
  have "distinct (ln_active l)"
    using queue_soundD(6) [OF Suc.prems(1,3)] by (simp add: active_sound_def)
  then have d: "d = getLaneDepth (pumped ?l n)"
    using without_depth [OF _ t] Suc.hyps(2) by (simp add: pumped_depth)
  from Suc.hyps(1) [OF d sound_finish [OF Suc.prems(1)] busy_finish [OF Suc.prems(1,2)] n] Suc.prems(4)
  obtain ts l' where ts: "length ts = d" "lane_at (finish_all ok ts ?st) k = Some l'"
      "ln_queue l' = []" "ln_active l' = []"
      "set (qs_started ?st) \<union> Pair k ` set (ln_queue (pumped ?l n)) \<subseteq> set (qs_started (finish_all ok ts ?st))"
    using d by auto
  have "set (ln_queue l) = set (take (starting ?l) (ln_queue l)) \<union> set (drop (starting ?l) (ln_queue l))"
    by (metis append_take_drop_id set_append)
  then have "set (qs_started st) \<union> Pair k ` set (ln_queue l) \<subseteq> set (qs_started (finish_all ok ts ?st))"
    using ts(5) old new by (auto simp: pumped_def)
  then show ?case
    using ts Suc.hyps(2) by (intro exI [of _ "t # ts"] exI [of _ l']) (simp add: finish_all_def)
qed

subsection \<open>Properties\<close>

lemma runs_reach: "queue_reachable (fold queue_step evs st)" if "queue_reachable st"
  using that by (induction evs arbitrary: st) (simp_all add: queue_reachable.stepped)

definition plain_options :: "queue_priority option \<Rightarrow> enqueue_options" where
  "plain_options p = \<lparr>eo_priority = p, eo_timeout = None, eo_grace = None\<rparr>"

text \<open>A small run: three commands enter the main lane, and a caller waits for the one that runs.\<close>

definition small_run :: queue_state where
  "small_run = fold queue_step
     [Enqueue ''main'' (plain_options None) 0, Enqueue ''main'' (plain_options (Some Background)) 1,
      Enqueue ''main'' (plain_options (Some Foreground)) 2, WaitActive None] initial_queue"

lemma small_run_reachable: "queue_reachable small_run"
  unfolding small_run_def by (rule runs_reach [OF queue_reachable.initially])

lemma small_run_values:
  "map (map qe_sequence \<circ> ln_queue \<circ> snd) (qs_lanes small_run) = [[3, 2]]"
  "map (qe_sequence \<circ> ru_entry) (qs_running small_run) = [1]"
  "map wt_tasks (qs_waiters small_run) = [[1]]" "map fst (qs_lanes small_run) = [''main'']"
  "qs_settled small_run = []" "qs_next_sequence small_run = 4" "length (qs_started small_run) = 1"
  by code_simp+

text \<open>
  C25 -- Every command that ever entered a lane is in exactly one place: it waits in one lane, or it
  runs, or it was settled, once.  The sequences of these three are, with their multiplicities, the
  numbers given out so far, whatever mixture of clears, resets, restarts and late completions of an
  earlier generation happened.
\<close>

theorem no_command_is_lost:
  assumes "queue_reachable st"
  shows "mset (concat (map (\<lambda>(_, l). map qe_sequence (ln_queue l)) (qs_lanes st))) +
      mset (map (\<lambda>r. qe_sequence (ru_entry r)) (qs_running st)) + mset (map fst (qs_settled st)) =
    mset [1..<qs_next_sequence st]"
proof -
  have "queued_load st = mset (concat (map (\<lambda>(_, l). map qe_sequence (ln_queue l)) (qs_lanes st)))"
    by (simp add: queued_load_def lane_load_def mset_concat comp_def case_prod_unfold)
  then show ?thesis
    using account.always [OF assms] by (simp add: accounted_def running_load_def sequences_def)
qed

theorem no_command_is_lost_witness:
  "mset (concat (map (\<lambda>(_, l). map qe_sequence (ln_queue l)) (qs_lanes small_run))) +
      mset (map (\<lambda>r. qe_sequence (ru_entry r)) (qs_running small_run)) + mset (map fst (qs_settled small_run)) =
    mset [1..<qs_next_sequence small_run]"
  by (rule no_command_is_lost [OF small_run_reachable])

text \<open>
  C26 -- A lane serves by priority and, within a priority, in the order of arrival, over its whole
  life.  Whatever a step starts in a lane is served before all that still waits there: it is worth
  more, or as much and came earlier; and what one step starts in a lane, it starts in that order.
  Looking back, of two commands that a lane started, the one started first came first or is worth more,
  and a command that still waits came after every command its lane has started, or is worth less.
\<close>

theorem lane_serves_in_order:
  assumes "queue_reachable st"
  shows "(\<exists>new. qs_started (queue_step ev st) = qs_started st @ new \<and>
      sorted_wrt (\<lambda>(j, a) (k, b). j = k \<longrightarrow> qe_priority b < qe_priority a \<or>
        qe_priority a = qe_priority b \<and> qe_sequence a < qe_sequence b) new \<and>
      (\<forall>k e l x. (k, e) \<in> set new \<longrightarrow> obj_get (qs_lanes (queue_step ev st)) k = Some l \<longrightarrow> x \<in> set (ln_queue l) \<longrightarrow>
        qe_priority x < qe_priority e \<or> qe_priority e = qe_priority x \<and> qe_sequence e < qe_sequence x)) \<and>
    (\<forall>i j k a b. i < j \<longrightarrow> j < length (qs_started st) \<longrightarrow>
      qs_started st ! i = (k, a) \<longrightarrow> qs_started st ! j = (k, b) \<longrightarrow>
      qe_sequence a < qe_sequence b \<or> qe_priority b < qe_priority a) \<and>
    (\<forall>k l e b. obj_get (qs_lanes st) k = Some l \<longrightarrow> e \<in> set (ln_queue l) \<longrightarrow> (k, b) \<in> set (qs_started st) \<longrightarrow>
      qe_sequence b < qe_sequence e \<or> qe_priority e < qe_priority b)"
proof -
  have s: "queue_sound st" using sound.always [OF assms] .
  then have "sorted_wrt in_order (qs_started st)" by (simp add: queue_sound_def order_sound_def)
  then have "i < j \<longrightarrow> j < length (qs_started st) \<longrightarrow> in_order (qs_started st ! i) (qs_started st ! j)" for i j
    by (simp add: sorted_wrt_iff_nth_less)
  moreover from starts_step [OF s, of ev] obtain new where n: "qs_started (queue_step ev st) = qs_started st @ new"
      "sorted_wrt (\<lambda>a b. fst a = fst b \<longrightarrow> served_before (snd a) (snd b)) new"
      and f: "\<And>k e l x. (k, e) \<in> set new \<Longrightarrow> lane_at (queue_step ev st) k = Some l \<Longrightarrow> x \<in> set (ln_queue l) \<Longrightarrow>
        served_before e x"
    unfolding starts_front_def by blast
  then have "\<exists>new. qs_started (queue_step ev st) = qs_started st @ new \<and>
      sorted_wrt (\<lambda>(j, a) (k, b). j = k \<longrightarrow> qe_priority b < qe_priority a \<or>
        qe_priority a = qe_priority b \<and> qe_sequence a < qe_sequence b) new \<and>
      (\<forall>k e l x. (k, e) \<in> set new \<longrightarrow> obj_get (qs_lanes (queue_step ev st)) k = Some l \<longrightarrow> x \<in> set (ln_queue l) \<longrightarrow>
        qe_priority x < qe_priority e \<or> qe_priority e = qe_priority x \<and> qe_sequence e < qe_sequence x)"
    unfolding served_before_def lane_at_def case_prod_unfold by blast
  ultimately show ?thesis
    using queue_soundD(5) [OF s]
    by (fastforce simp: in_order_def not_overtaken_def entry_sound_def lane_at_def)
qed

text \<open>The running command ends: of the two that wait, the foreground one starts.\<close>

theorem lane_serves_in_order_witness:
  "length (qs_started (queue_step (Finish 1 True) small_run)) = 2 \<and>
    (\<exists>l x e. obj_get (qs_lanes (queue_step (Finish 1 True) small_run)) ''main'' = Some l \<and> ln_queue l = [x] \<and>
      qs_started (queue_step (Finish 1 True) small_run) = qs_started small_run @ [(''main'', e)] \<and>
      (qe_priority x < qe_priority e \<or> qe_priority e = qe_priority x \<and> qe_sequence e < qe_sequence x))"
proof -
  let ?st = "queue_step (Finish 1 True) small_run"
  have v: "length (qs_started ?st) = 2" "length (qs_started small_run) = 1" "map fst (qs_started ?st) = [''main'', ''main'']"
    "map_option (length \<circ> ln_queue) (obj_get (qs_lanes ?st) ''main'') = Some 1"
    unfolding small_run_def by code_simp+
  from v(4) obtain l where l: "obj_get (qs_lanes ?st) ''main'' = Some l" "length (ln_queue l) = 1" by auto
  then obtain x where x: "ln_queue l = [x]" by (auto simp: length_Suc_conv)
  from lane_serves_in_order [OF small_run_reachable, of "Finish 1 True"] obtain new
    where n: "qs_started ?st = qs_started small_run @ new"
      and f: "\<forall>k e l x. (k, e) \<in> set new \<longrightarrow> obj_get (qs_lanes ?st) k = Some l \<longrightarrow> x \<in> set (ln_queue l) \<longrightarrow>
        qe_priority x < qe_priority e \<or> qe_priority e = qe_priority x \<and> qe_sequence e < qe_sequence x"
    by blast
  from n v(1,2) have "length new = 1" by simp
  then obtain k e where e: "new = [(k, e)]" by (auto simp: length_Suc_conv)
  with n v(1,2,3) have "k = ''main''" by (auto simp: length_Suc_conv)
  then show ?thesis using f l(1) x n e v(1) by (intro conjI exI [of _ l] exI [of _ x] exI [of _ e]) auto
qed

text \<open>
  C27 -- No lane stalls.  In a reachable state, take a lane with a positive limit.  As many ends of
  its tasks as it has commands, whether they succeed or fail, leave it with nothing queued and nothing
  active, and every command that waited in it has been started on the way: at each point the lane
  has a task to wait for, and each end starts what the limit allows.
\<close>

theorem lane_drains:
  assumes "queue_reachable st" and "obj_get (qs_lanes st) k = Some l" and "0 < ln_max l"
  shows "\<exists>ts l'. length ts = getLaneDepth l \<and>
    obj_get (qs_lanes (fold (\<lambda>t. queue_step (Finish t (ok t))) ts st)) k = Some l' \<and>
    ln_queue l' = [] \<and> ln_active l' = [] \<and>
    (\<forall>e\<in>set (ln_queue l). (k, e) \<in> set (qs_started (fold (\<lambda>t. queue_step (Finish t (ok t))) ts st)))"
proof -
  from lane_empties [OF sound.always [OF assms(1)] busy.always [OF assms(1)], of k l ok] assms(2,3)
  obtain ts l' where "length ts = getLaneDepth l" "lane_at (finish_all ok ts st) k = Some l'"
      "ln_queue l' = []" "ln_active l' = []"
      "set (qs_started st) \<union> Pair k ` set (ln_queue l) \<subseteq> set (qs_started (finish_all ok ts st))"
    unfolding lane_at_def by blast
  then show ?thesis
    unfolding finish_all_def lane_at_def by (intro exI [of _ ts] exI [of _ l']) auto
qed

theorem lane_drains_witness:
  "\<exists>l ts l'. obj_get (qs_lanes small_run) ''main'' = Some l \<and> length ts = 3 \<and>
    obj_get (qs_lanes (fold (\<lambda>t. queue_step (Finish t False)) ts small_run)) ''main'' = Some l' \<and>
    ln_queue l' = [] \<and> ln_active l' = []"
proof -
  have "map_option (\<lambda>l. (getLaneDepth l, ln_max l)) (obj_get (qs_lanes small_run) ''main'') = Some (3, 1)"
    by code_simp
  then obtain l where l: "obj_get (qs_lanes small_run) ''main'' = Some l" "getLaneDepth l = 3" "ln_max l = 1"
    by auto
  show ?thesis
    using lane_drains [OF small_run_reachable l(1), of "\<lambda>_. False"] l by auto
qed

text \<open>
  C28 -- A caller that waits for active tasks is answered as soon as they are gone: in every reachable
  state each waiter left has a task that is active in some lane, through completions, resets of one
  lane and of all lanes.
\<close>

theorem waiters_have_tasks:
  assumes "queue_reachable st" and "w \<in> set (qs_waiters st)"
  shows "\<exists>t\<in>set (wt_tasks w). \<exists>k l. obj_get (qs_lanes st) k = Some l \<and> t \<in> set (ln_active l)"
  using waiting.always [OF assms(1)] assms(2)
  by (fastforce simp: waiters_sound_def active_set_def active_of_iff lane_at_def)

theorem waiters_have_tasks_witness:
  "\<exists>w\<in>set (qs_waiters small_run). wt_tasks w = [1] \<and>
    (\<exists>t\<in>set (wt_tasks w). \<exists>k l. obj_get (qs_lanes small_run) k = Some l \<and> t \<in> set (ln_active l))"
proof -
  from small_run_values(3) obtain w where "w \<in> set (qs_waiters small_run)" "wt_tasks w = [1]"
    by (metis list.set_intros(1) map_eq_Cons_D)
  then show ?thesis using waiters_have_tasks [OF small_run_reachable] by blast
qed

text \<open>
  C29 -- No step starts a task beyond the limit of its lane: after any step from a reachable state, a
  lane that has a task active it did not have before holds at most as many as its limit allows.
\<close>

theorem lane_within_limit:
  assumes "queue_reachable st" and "obj_get (qs_lanes (queue_step ev st)) k = Some l"
    and "t \<in> set (ln_active l)"
    and "\<forall>l0. obj_get (qs_lanes st) k = Some l0 \<longrightarrow> t \<notin> set (ln_active l0)"
  shows "int (length (ln_active l)) \<le> ln_max l"
proof -
  have "t \<notin> active_of st k" using assms(4) by (simp add: active_of_iff lane_at_def)
  then show ?thesis
    using within_step [OF sound.always [OF assms(1)], of ev] assms(2,3)
    by (auto simp: within_limit_def lane_at_def)
qed

theorem lane_within_limit_witness:
  "\<exists>l. obj_get (qs_lanes (queue_step (Enqueue ''main'' (plain_options None) 0) initial_queue)) ''main'' = Some l \<and>
    1 \<in> set (ln_active l) \<and> int (length (ln_active l)) \<le> ln_max l"
proof -
  let ?st = "queue_step (Enqueue ''main'' (plain_options None) 0) initial_queue"
  have "map_option ln_active (obj_get (qs_lanes ?st) ''main'') = Some [1]" by code_simp
  then obtain l where l: "obj_get (qs_lanes ?st) ''main'' = Some l" "ln_active l = [1]" by auto
  have "int (length (ln_active l)) \<le> ln_max l"
    using lane_within_limit [OF queue_reachable.initially l(1), of 1] l(2)
    by (simp add: initial_queue_def obj_get_def)
  then show ?thesis using l by auto
qed

end
