(* ===== verification/Task_Timeout.thy ===== *)
theory Task_Timeout
  imports Command_Queue
begin

text \<open>
  The timeout of a running lane task (runQueueEntryTask in src/src/process/command-queue.ts): the
  timer that looks at the progress of the task, the grace after an abort, and the release.

  A run is the events the closure sees, each with the clock it reads: the timer, the two signals and
  the end of the task.  The first outcome stands, and what follows it is ignored, as the listeners and
  the timer are removed.  A progress callback that throws, or that gives no number, reads as \<open>None\<close>.
\<close>

subsection \<open>The watch over a task\<close>

datatype watch_timer = ProgressTimer | AbortTimer

datatype watch_outcome = TaskDone bool | TimedOut

record task_watch =
  tw_timeout :: int
  tw_grace :: int
  tw_started :: int
  tw_timer :: "(int \<times> watch_timer) option"
  tw_abort_listener :: bool
  tw_release_listener :: bool
  tw_outcome :: "watch_outcome option"

definition readLastProgressAtMs :: "int \<Rightarrow> num64 option \<Rightarrow> int" where
  "readLastProgressAtMs startedAt value =
     (case value of Some (Fin q) \<Rightarrow> if 0 < q then max startedAt \<lfloor>q\<rfloor> else startedAt | _ \<Rightarrow> startedAt)"

text \<open>The outcome of the race; what \<open>finally\<close> removes.\<close>

definition settle_watch :: "watch_outcome \<Rightarrow> task_watch \<Rightarrow> task_watch" where
  "settle_watch r w =
     w\<lparr>tw_outcome := Some r, tw_timer := None, tw_abort_listener := False, tw_release_listener := False\<rparr>"

definition rejectForTimeout :: "task_watch \<Rightarrow> task_watch" where
  "rejectForTimeout w = settle_watch TimedOut w"

definition armProgressTimeout :: "int \<Rightarrow> num64 option \<Rightarrow> task_watch \<Rightarrow> task_watch" where
  "armProgressTimeout now progress w =
     (let elapsed = max 0 (now - readLastProgressAtMs (tw_started w) progress);
          remaining = tw_timeout w - elapsed
      in if remaining \<le> 0 then rejectForTimeout w
         else w\<lparr>tw_timer := Some (now + remaining, ProgressTimer)\<rparr>)"

definition armAbortTimeout :: "int \<Rightarrow> task_watch \<Rightarrow> task_watch" where
  "armAbortTimeout now w =
     (if tw_grace w \<le> 0 then rejectForTimeout w else w\<lparr>tw_timer := Some (now + tw_grace w, AbortTimer)\<rparr>)"

text \<open>A signal is absent, or present with whether it is aborted already.\<close>

definition start_watch ::
  "int \<Rightarrow> int option \<Rightarrow> int \<Rightarrow> num64 option \<Rightarrow> bool option \<Rightarrow> bool option \<Rightarrow> task_watch" where
  "start_watch timeout grace now progress abort release =
     (let w = \<lparr>tw_timeout = timeout, tw_grace = (case grace of Some g \<Rightarrow> g | None \<Rightarrow> timeout), tw_started = now,
               tw_timer = None, tw_abort_listener = False, tw_release_listener = False, tw_outcome = None\<rparr>
      in if release = Some True then rejectForTimeout w
         else if abort = Some True then armAbortTimeout now w
         else (let w' = armProgressTimeout now progress w
               in if tw_outcome w' \<noteq> None then w'
                  else w'\<lparr>tw_abort_listener := abort \<noteq> None, tw_release_listener := release \<noteq> None\<rparr>))"

datatype watch_event =
    TimerFires int "num64 option"
  | AbortSignal int
  | ReleaseSignal
  | TaskSettles bool

definition watch_step :: "watch_event \<Rightarrow> task_watch \<Rightarrow> task_watch" where
  "watch_step ev w =
     (if tw_outcome w \<noteq> None then w
      else (case ev of
              TimerFires now progress \<Rightarrow>
                (case tw_timer w of
                   Some (due, k) \<Rightarrow>
                     if now < due then w
                     else (case k of
                             ProgressTimer \<Rightarrow> armProgressTimeout now progress w
                           | AbortTimer \<Rightarrow> rejectForTimeout w)
                 | None \<Rightarrow> w)
            | AbortSignal now \<Rightarrow>
                if tw_abort_listener w then armAbortTimeout now (w\<lparr>tw_abort_listener := False\<rparr>) else w
            | ReleaseSignal \<Rightarrow> if tw_release_listener w then rejectForTimeout w else w
            | TaskSettles ok \<Rightarrow> settle_watch (TaskDone ok) w))"

text \<open>
  The task of an entry: without a timeout it runs until it settles, whatever the signals say.  The
  options of the entry are normalised when it enters the lane and once more here.
\<close>

definition runQueueEntryTask ::
  "num64 option \<Rightarrow> num64 option \<Rightarrow> int \<Rightarrow> num64 option \<Rightarrow> bool option \<Rightarrow> bool option \<Rightarrow> watch_event list \<Rightarrow>
     watch_outcome option" where
  "runQueueEntryTask taskTimeoutMs taskTimeoutAbortGraceMs now progress abort release evs =
     (case normalizeTaskTimeoutMs taskTimeoutMs of
        None \<Rightarrow> (case find (\<lambda>e. case e of TaskSettles _ \<Rightarrow> True | _ \<Rightarrow> False) evs of
                   Some (TaskSettles ok) \<Rightarrow> Some (TaskDone ok)
                 | _ \<Rightarrow> None)
      | Some t \<Rightarrow>
          tw_outcome (fold watch_step evs
            (start_watch t (normalizeTaskTimeoutMs taskTimeoutAbortGraceMs) now progress abort release)))"

subsection \<open>Why a task times out\<close>

lemmas watch_defs = watch_step_def armProgressTimeout_def armAbortTimeout_def rejectForTimeout_def
  settle_watch_def Let_def

lemma watch_step_fields [simp]:
  "tw_timeout (watch_step ev w) = tw_timeout w" "tw_grace (watch_step ev w) = tw_grace w"
  "tw_started (watch_step ev w) = tw_started w"
  by (auto simp: watch_defs split: watch_event.split option.split watch_timer.split)

lemma watch_step_settled: "tw_outcome w \<noteq> None \<Longrightarrow> watch_step ev w = w"
  by (simp add: watch_step_def)

lemma watch_run_settled: "tw_outcome w \<noteq> None \<Longrightarrow> fold watch_step evs w = w"
  by (induction evs) (simp_all add: watch_step_settled)

text \<open>What the watch knows: it started at \<open>t0\<close>, and the aborts of \<open>A\<close> were seen.\<close>

definition watch_sound :: "int set \<Rightarrow> task_watch \<Rightarrow> bool" where
  "watch_sound A w \<longleftrightarrow>
     (tw_outcome w = None \<longrightarrow> (case tw_timer w of
        Some (due, AbortTimer) \<Rightarrow> \<exists>a\<in>A. due = a + tw_grace w
      | Some (due, ProgressTimer) \<Rightarrow> True
      | None \<Rightarrow> False))"

definition cause :: "int set \<Rightarrow> watch_event list \<Rightarrow> int \<Rightarrow> int \<Rightarrow> int \<Rightarrow> bool" where
  "cause A evs timeout grace started \<longleftrightarrow>
     ReleaseSignal \<in> set evs \<or>
     (\<exists>now p. TimerFires now p \<in> set evs \<and>
        (timeout \<le> now - readLastProgressAtMs started p \<or> (\<exists>a\<in>A. a + grace \<le> now)))"

definition aborts :: "watch_event list \<Rightarrow> int set" where
  "aborts evs = {a. AbortSignal a \<in> set evs}"

lemma arm_progress:
  assumes "0 < tw_timeout w"
  shows "armProgressTimeout now p w =
     (if tw_timeout w \<le> now - readLastProgressAtMs (tw_started w) p then rejectForTimeout w
      else w\<lparr>tw_timer := Some (now + (tw_timeout w - max 0 (now - readLastProgressAtMs (tw_started w) p)), ProgressTimer)\<rparr>)"
  using assms by (auto simp: armProgressTimeout_def Let_def)

lemma rejected [simp]: "tw_outcome (rejectForTimeout w) = Some TimedOut"
  by (simp add: rejectForTimeout_def settle_watch_def)

text \<open>A step of an open watch: it times out for a cause, or it stays sound.\<close>

lemma watch_step_cases:
  assumes "watch_sound A w" and "0 < tw_timeout w" and "0 < tw_grace w" and "tw_outcome w = None"
  shows "watch_sound (A \<union> aborts [ev]) (watch_step ev w)"
    and "tw_outcome (watch_step ev w) = Some TimedOut \<Longrightarrow> cause A [ev] (tw_timeout w) (tw_grace w) (tw_started w)"
proof -
  obtain due k where timer: "tw_timer w = Some (due, k)"
    using assms(1,4) by (cases "tw_timer w") (auto simp: watch_sound_def)
  have abort: "k = AbortTimer \<Longrightarrow> \<exists>a\<in>A. due = a + tw_grace w"
    using assms(1,4) timer by (simp add: watch_sound_def)
  show "watch_sound (A \<union> aborts [ev]) (watch_step ev w)"
  proof (cases ev)
    case (TimerFires now p)
    then show ?thesis
      using assms timer abort
      by (cases k) (auto simp: watch_sound_def watch_step_def arm_progress)
  next
    case (AbortSignal now)
    then show ?thesis
      using assms timer abort
      by (cases k) (auto simp: watch_sound_def watch_step_def armAbortTimeout_def aborts_def)
  qed (use assms timer abort in \<open>cases k; auto simp: watch_sound_def watch_step_def settle_watch_def\<close>)+
  show "cause A [ev] (tw_timeout w) (tw_grace w) (tw_started w)"
    if "tw_outcome (watch_step ev w) = Some TimedOut"
  proof (cases ev)
    case (TimerFires now p)
    show ?thesis
    proof (cases k)
      case ProgressTimer
      then show ?thesis
        using that assms(2,4) timer
        by (auto simp: TimerFires watch_step_def arm_progress cause_def split: if_splits)
    next
      case AbortTimer
      then obtain a where "a \<in> A" "due = a + tw_grace w" using abort by blast
      moreover have "due \<le> now"
        using that assms(4) timer AbortTimer by (auto simp: TimerFires watch_step_def split: if_splits)
      ultimately show ?thesis by (auto simp: TimerFires cause_def intro!: bexI [of _ a])
    qed
  qed (use that assms in \<open>auto simp: watch_step_def armAbortTimeout_def settle_watch_def cause_def split: if_splits\<close>)
qed

lemma cause_mono: "cause A xs t g s \<Longrightarrow> A \<subseteq> B \<Longrightarrow> set xs \<subseteq> set ys \<Longrightarrow> cause B ys t g s"
  unfolding cause_def by blast

lemma watch_run_cause:
  assumes "watch_sound A w" and "0 < tw_timeout w" and "0 < tw_grace w" and "tw_outcome w = None"
    and "tw_outcome (fold watch_step evs w) = Some TimedOut"
  shows "cause (A \<union> aborts evs) evs (tw_timeout w) (tw_grace w) (tw_started w)"
  using assms
proof (induction evs arbitrary: A w)
  case Nil
  then show ?case by simp
next
  case (Cons ev evs)
  show ?case
  proof (cases "tw_outcome (watch_step ev w)")
    case None
    have "cause (A \<union> aborts [ev] \<union> aborts evs) evs (tw_timeout w) (tw_grace w) (tw_started w)"
      using Cons.IH [OF watch_step_cases(1) [OF Cons.prems(1-4), of ev]] Cons.prems None by simp
    then show ?thesis by (rule cause_mono) (auto simp: aborts_def)
  next
    case (Some r)
    then have "tw_outcome (watch_step ev w) = Some TimedOut"
      using Cons.prems(5) watch_run_settled [of "watch_step ev w" evs] by simp
    then have "cause A [ev] (tw_timeout w) (tw_grace w) (tw_started w)"
      by (rule watch_step_cases(2) [OF Cons.prems(1-4)])
    then show ?thesis by (rule cause_mono) auto
  qed
qed

text \<open>A normalised timeout is at least a millisecond.\<close>

lemma timeout_positive: "normalizeTaskTimeoutMs v = Some t \<Longrightarrow> 0 < t"
  by (auto simp: normalizeTaskTimeoutMs_def MAX_TIMER_TIMEOUT_MS_def split: option.splits num64.splits if_splits)

lemma start_watch_sound:
  assumes "0 < t" and "0 < (case g of Some x \<Rightarrow> x | None \<Rightarrow> t)"
  shows "watch_sound (if abort = Some True then {now} else {}) (start_watch t g now p abort release)"
    and "tw_timeout (start_watch t g now p abort release) = t"
    and "tw_grace (start_watch t g now p abort release) = (case g of Some x \<Rightarrow> x | None \<Rightarrow> t)"
    and "tw_started (start_watch t g now p abort release) = now"
  using assms
  by (auto simp: start_watch_def Let_def watch_sound_def arm_progress armAbortTimeout_def
      rejectForTimeout_def settle_watch_def readLastProgressAtMs_def split: option.splits num64.splits)

lemma start_watch_open:
  assumes "0 < t" and "0 < (case g of Some x \<Rightarrow> x | None \<Rightarrow> t)" and "release \<noteq> Some True"
  shows "tw_outcome (start_watch t g now p abort release) = None"
proof -
  have "now - readLastProgressAtMs now p \<le> 0"
    by (auto simp: readLastProgressAtMs_def split: option.split num64.split)
  then show ?thesis
    using assms by (simp add: start_watch_def Let_def arm_progress armAbortTimeout_def)
qed

subsection \<open>Properties\<close>

text \<open>
  C30 -- A lane task times out only for a cause.  The caller released it; or, when the timer fired,
  the last progress the task had shown, its start at the earliest, lay back the whole timeout; or an
  abort, given at the start or during the run, lay back the whole grace, which is the timeout where
  none is set.  A task without a usable timeout never times out.
\<close>

theorem task_times_out_for_cause:
  assumes "runQueueEntryTask timeout grace t0 p0 abort release evs = Some TimedOut"
  shows "\<exists>t. normalizeTaskTimeoutMs timeout = Some t \<and>
     (release = Some True \<or> ReleaseSignal \<in> set evs \<or>
      (\<exists>now p. TimerFires now p \<in> set evs \<and>
         (t \<le> now - readLastProgressAtMs t0 p \<or>
          (\<exists>a. (abort = Some True \<and> a = t0 \<or> AbortSignal a \<in> set evs) \<and>
             a + (case normalizeTaskTimeoutMs grace of Some g \<Rightarrow> g | None \<Rightarrow> t) \<le> now))))"
proof (cases "normalizeTaskTimeoutMs timeout")
  case None
  then show ?thesis
    using assms by (auto simp: runQueueEntryTask_def split: option.splits watch_event.splits)
next
  case (Some t)
  define g where "g = (case normalizeTaskTimeoutMs grace of Some g \<Rightarrow> g | None \<Rightarrow> t)"
  have t: "0 < t" using Some by (rule timeout_positive)
  have g: "0 < g"
    using t timeout_positive [of grace] by (auto simp: g_def split: option.split)
  let ?w = "start_watch t (normalizeTaskTimeoutMs grace) t0 p0 abort release"
  note s = start_watch_sound [OF t g [unfolded g_def], where abort = abort and now = t0 and p = p0 and release = release]
  show ?thesis
  proof (cases "release = Some True")
    case False
    have "tw_outcome (fold watch_step evs ?w) = Some TimedOut"
      using assms Some by (simp add: runQueueEntryTask_def)
    then have "cause ((if abort = Some True then {t0} else {}) \<union> aborts evs) evs t g t0"
      using watch_run_cause [OF s(1), of evs] start_watch_open [OF t g [unfolded g_def] False, where now = t0 and p = p0 and abort = abort] t g
      unfolding s(2-4) g_def [symmetric] by blast
    then show ?thesis
      unfolding cause_def using Some by (auto simp: aborts_def g_def [symmetric] split: if_splits)
  qed (use Some in simp)
qed

text \<open>A task that shows progress at 50 is given until 150, and is timed out by a timer at 150 only.\<close>

theorem task_times_out_for_cause_witness:
  "runQueueEntryTask (Some (Fin 100)) None 0 None None (Some False)
     [TimerFires 100 (Some (Fin 50)), TimerFires 150 (Some (Fin 50))] = Some TimedOut \<and>
   (\<exists>t. normalizeTaskTimeoutMs (Some (Fin 100)) = Some t)"
proof -
  have run: "runQueueEntryTask (Some (Fin 100)) None 0 None None (Some False)
     [TimerFires 100 (Some (Fin 50)), TimerFires 150 (Some (Fin 50))] = Some TimedOut"
    by (simp add: runQueueEntryTask_def normalizeTaskTimeoutMs_def MAX_TIMER_TIMEOUT_MS_def start_watch_def
        watch_step_def armProgressTimeout_def readLastProgressAtMs_def)
  then show ?thesis using task_times_out_for_cause [OF run] by blast
qed

text \<open>The release reaches only a task whose abort signal was not given at the start.\<close>

lemma release_lost_after_early_abort:
  assumes "normalizeTaskTimeoutMs timeout = Some t"
    and "\<forall>ev\<in>set evs. ev = ReleaseSignal"
  shows "runQueueEntryTask timeout grace t0 p0 (Some True) (Some False) evs = None"
proof -
  have g: "0 < (case normalizeTaskTimeoutMs grace of Some g \<Rightarrow> g | None \<Rightarrow> t)"
    using timeout_positive assms(1) by (auto split: option.split)
  let ?w = "start_watch t (normalizeTaskTimeoutMs grace) t0 p0 (Some True) (Some False)"
  have w: "tw_outcome ?w = None" "\<not> tw_release_listener ?w"
    using g by (simp_all add: start_watch_def Let_def armAbortTimeout_def)
  have "fold watch_step evs ?w = ?w"
    using assms(2) by (induction evs) (simp_all add: watch_step_def w)
  then show ?thesis using assms(1) w(1) by (simp add: runQueueEntryTask_def)
qed

end
