(* ===== verification/Spec2Isabelle.thy ===== *)
theory Spec2Isabelle
  imports Plugin_Gateway Routing Queue_Laws Task_Timeout
begin

text \<open>
  TrustClaw: a verification library.

  TrustClaw is a personal health agent built as a plugin of the OpenClaw gateway.  The
  directory trustclaw/ holds its runtime (the local database, the agent packs, the rule
  engines, the chat pipeline, the audit trail, the evidence ledger),
  extensions/trustclaw-tra/ the plugin that serves it over HTTP and as tools, and src/ the
  gateway that hosts the plugin: it authenticates the peers, routes the requests, names the
  sessions and chooses their agents, queues the commands, gates the tool calls and asks the
  operator for approvals.

  How the parts interact.  A request of a peer passes the plugin stages of the gateway
  (Security_Path, Client_Ip, Rate_Limit, Gateway_Auth, Plugin_Http), reaches the handler
  registered for its path (Plugin_Gateway, Plugin_Api) and, for panel B and the tools, the
  guard that resolves the agent pack of the session and looks for the user's grant (Plugin,
  Session_Pack, Grants).  A chat runs the stages its pack declares (Pipeline): SQL is generated
  and cut down to one SELECT (Sql_Guard), run on the local database (Tra_Db), judged by the rule
  engines (Rules), answered, and committed to the ledger (Ledger), each step leaving an event in
  the audit trail (Audit_Trail).  A tool call of the agent passes the hooks before it
  (Tool_Gate), one of which is the consent hook of the plugin (Hooks); what the hook cannot
  decide the operator decides (Approvals).  A message of a channel is given to an agent and a
  session by the bindings of the configuration (Routing), under a key from which the agent can be
  read back (Session_Keys), and what it causes runs in the lanes of the command queue
  (Command_Queue, Task_Timeout).
\<close>

section \<open>Theories and sources\<close>

text \<open>
  Language.  JS_Base: strings, objects, option and list lemmas, the interface
  \<open>keyed_store\<close> of a dictionary.  JS_Value: values, numbers, conversions and JSON.stringify.
  Jsonl_Log: files of JSON lines and the interface \<open>append_log\<close> of an append-only file.

  Runtime (trustclaw/).
  Ledger: ledger/*.ts.  Audit_Trail: audit/*.ts.  Tra_Paths: tra/paths.ts, config.ts.
  Pack_Schema, Agent_Pack: runtime/agent-pack/*.ts.
  Session_Pack: tra/session-agent-pack.ts, runtime/coordinator/*.ts.
  Grants: tra/agent-domain-grants.ts, consent-store.ts.
  Sql_Guard: tra/query.ts, runtime/text2sql/*.ts.  Rules: runtime/rules/*.ts.
  Domain_Agents: tra/domain-agents*.ts.
  Tra_Db: tra/db.ts, init.ts, prescription-context.ts, profile and evaluation readers.
  Imports, Reference_Sync: tra/compliance-import.ts, reference-import.ts, reference-types.ts.
  Writes: tra/device-import.ts, personal-write.ts.  Pipeline: runtime/pipeline/*.ts.
  Table_Lineage: tra/table-catalog.ts, table-lineage.ts, browse-subscriptions.ts.

  Plugin (extensions/trustclaw-tra/).
  Plugin: configuration, bodies, the grant guard.  Panel_Routes, Import_Routes, Agent_Routes,
  Pack_Routes: the handlers of src/*-routes.ts and the two tools.  Hooks: data-consent-hook.ts.
  Plugin_Api: index.ts as one transition system, in a process whose registry of packs changes
  between the steps.  Plugin_Gateway: the registrations of index.ts
  seen from the network.

  Gateway (src/).
  Gateway_Base: timers and operator scopes.  Approvals: gateway/exec-approval-manager.ts and
  the handlers of approvals.  Tool_Gate: plugins/hooks.ts and the gate before a tool call.
  Security_Path, Plain_Path: gateway/security-path.ts, path-context.ts, http-path.ts,
  http-route-overlap.ts.  Client_Ip: gateway/net.ts, origin-check.ts.  Rate_Limit:
  gateway/auth-rate-limit.ts.  Gateway_Auth: gateway/auth.ts, http-auth-utils.ts,
  security/secret-equal.ts.  Plugin_Http: plugins/registry.ts, http-registry.ts,
  gateway/server/plugins-http*.ts, the plugin stages of gateway/server-http.ts.
  Session_Keys: routing/session-key.ts, account-id.ts, account-lookup.ts,
  sessions/session-key-utils.ts.  Routing: routing/resolve-route.ts, binding-scope.ts,
  bindings.ts.  Command_Queue, with its laws in Queue_Laws: process/command-queue.ts.
  Task_Timeout: runQueueEntryTask of the same file.

  The names of records, operations and constants are those of the source, with a suffix or a
  prefix where HOL has the name already; each field of a record has a two-letter prefix.
\<close>

section \<open>How the code is read\<close>

text \<open>
  State.  What the code keeps in a file, a table or a module constant is a component of an
  explicit state: the ledger is the list of lines of its file or its absence, the database a
  record of tables, the grant and session files values beside the module constants that name
  them, a limiter a map from keys to entries, the pending approvals a map from identifiers to
  entries.  An operation takes the state and returns it with its result; a thrown error is the
  left summand of a sum or a constructor of the answer, and the state is the one at the throw.
  A transaction is the combinator \<open>runTraImmediateTransactionSync\<close>, whose laws are the
  locale \<open>atomic_op\<close>.  Timers, requests and network events that interleave are the
  events of a run, folded over the state in any order.  The command queue has, beside its own
  fields, the running closures and the lists of what was started, settled and answered, which the
  code leaves to the event loop.  The caches of the router and of the account identifiers are
  part of the state with their limits; a configuration is recognised as unchanged by its value.

  Strings are the bytes of their UTF-8 form; concatenation, equality, search, splitting at an
  ASCII character and trimming agree with the source, and lengths the code compares are
  counted in UTF-16 units by \<open>js_length\<close>.  Case mapping is that of ASCII.  Numbers are
  exact rationals, infinities and NaN; counters, times and limits are integers.  A name is
  looked up among the own properties of an object.

  Recursion.  Loops over lists and values are structural.  Where the code scans a text with a
  moving position, the fuel is the length of the text, and each step consumes a character
  (\<open>table_refs\<close>, \<open>unquote_keys\<close>, \<open>unbracket_nums\<close>, \<open>re_sub\<close>), so that it never runs
  out.  The decoding of a path has the source's own bound of 32 passes, which is the fuel of
  \<open>decode_loop\<close>.

  Parameters.  Code outside the repository is an argument or a field of an environment: SHA-256,
  SQLite running a script or a free SELECT, the language model, fetch, the URL class on schemes
  and hosts, ipaddr.js and the address tests of Node, the Tailscale lookup, the clock and fresh
  identifiers, JSON.parse on a request body, the aliases of built-in channels and the order of the
  locale.  Where a property needs more than a function of
  the right type (injectivity of the hash in \<open>tip_hash_commits_history\<close>), it is a
  hypothesis of the theorem, and the witness holds at a concrete function.
\<close>

section \<open>What the lemmas show\<close>

text \<open>
  Integrity: what the operations of the plugin write to the ledger verifies, a proof hash
  determines the history below it, every store of the plugin keeps its invariant under any
  sequence of requests, tools and hooks while the registry and the packs on disk change, and the
  audit trail only grows (Ledger, Plugin_Api).

  Authority: panel routes, tools and writes run only with a grant of the pack's scope and, for
  tools, a mounted profile and a consent, with whatever other hooks beside the consent hook; an
  approved call was decided, once, by an operator who may answer for it; device imports run what
  was previewed; the pack API overwrites and removes only what it was asked to, and a session keeps
  its pack until it is rebound (Plugin_Api, Hooks, Tool_Gate, Approvals, Writes, Pack_Routes,
  Session_Pack).

  Network: who is let in, how often it may guess, which address it has, which routes it
  reaches, and that the plugin's own routes ask for none of this (Gateway_Auth, Rate_Limit,
  Client_Ip, Security_Path, Plugin_Http, Plugin_Gateway).

  Routing and order: the router with its index and caches answers as a scan of the bindings in
  their order of precedence would, routes only to agents whose binding admits the request, and keeps
  conversations apart by keys that name their agent (Routing, Session_Keys).  The command queue
  loses no command and settles none twice, serves a lane by priority and arrival, stays within its
  limits, never stalls, answers those who wait, and times a task out only for a cause (Queue_Laws,
  Task_Timeout).

  Function: the chat follows the pipeline of its pack and stops at the first failed stage with the
  events of what it had completed,
  imports install what they were given, packs survive writing and reading, resets clear what
  they should (Pipeline, Imports, Reference_Sync, Agent_Pack, Pack_Schema, Tra_Db, Panel_Routes).

  Interfaces.  \<open>keyed_store\<close> (objects), \<open>append_log\<close> (ledger and audit
  files), \<open>atomic_op\<close> (transactions), \<open>keyed_rows\<close> (upserts), \<open>chat_invariant\<close>
  (what every stage of a chat preserves), \<open>state_relation\<close> (what every request,
  tool and hook preserves) and \<open>kept_by_steps\<close> (what every step of the command queue
  preserves) are locales; each is interpreted on the operations of the model, and
  the properties rest on those interpretations.
\<close>

section \<open>Not modelled\<close>

text \<open>
  In trustclaw/: the schema snippets put into prompts and the prompt templates (text), the
  caller of OpenAI used by offline harnesses, the list of extension points and skill-loop.ts
  (documentation data), the console in trustclaw/ui (display), barrels.  In the plugin: the
  bridge from the gateway's model to the SQL generator (an argument), the migration of state
  left by an older version.  In the gateway: everything beside the parts listed above, that is
  the agent runner and its providers, channels, the WebSocket protocol, configuration,
  scheduled jobs, sandboxes, the command line and the applications; around the tool gate, the
  detection of loops, trusted policies, adjusted parameters and diagnostics; of the HTTP server,
  the stages that do not belong to plugins; of the command queue, the callback for long waits, the
  repair of a state an older version left, and the reset for tests; of the session keys, the cache of
  normalised keys, which is keyed by its own input.  Broadcasting, logging and metrics have no
  place in the state.

  Of the file system: making a directory and appending to an audit or ledger file always succeed, so
  an operation that fails there, after it has changed a database or a ledger, is not a branch; what
  lies behind a symbolic link to a directory is not read.  A request, a tool call and a chat are
  served whole, with one registry; the approval handler is that of plugin approvals; a route is
  unregistered and a configuration recognised by value, where the code compares references.
\<close>

end
